(* ===== verification/Prelude.thy ===== *)
theory Prelude
  imports Complex_Main "HOL-Library.AList"
begin

text \<open>
  Shared vocabulary of the development. JavaScript strings are lists of code units, modelled
  as \<^typ>\<open>string\<close> (one \<^typ>\<open>char\<close> per code unit; every comparison in the code is equality of
  code units). Finite JavaScript numbers are exact rationals, the non-finite ones (NaN and the
  infinities) are one constructor of \<open>jsnum\<close>, because the code only ever asks
  \<open>Number.isFinite\<close> about them. A value of static type \<open>unknown\<close> is a \<open>json\<close> value.
  \<open>undefined\<close> is \<^term>\<open>None\<close>. A JavaScript \<open>Map\<close> is an association list in insertion order:
  \<open>get\<close> is \<open>map_of\<close>, \<open>set\<close> is \<open>AList.update\<close> (in place, or at the end), \<open>delete\<close> is
  \<open>AList.delete\<close>.
\<close>

section \<open>Collections of facts\<close>

named_theorems glob_rules \<open>characterisations of pattern matching\<close>
named_theorems claim_rules \<open>projections and updates of capability claims by category\<close>
named_theorems inv_intros \<open>invariant preservation by the operations of a component\<close>

section \<open>JavaScript values\<close>

datatype jsnum = Fin rat | NonFinite

datatype json =
    JUndefined
  | JNull
  | JBool bool
  | JNum jsnum
  | JStr string
  | JArr "json list"
  | JObj "(string \<times> json) list"

text \<open>A timestamp, by what \<open>Date.parse\<close> makes of it: epoch milliseconds, or not a number.\<close>

datatype js_time = At int | BadTime

type_synonym 'a validation = "string + 'a"

text \<open>\<open>typeof x === 'number' && Number.isFinite(x)\<close>.\<close>

fun finite_number :: "jsnum option \<Rightarrow> rat option" where
  "finite_number (Some (Fin q)) = Some q"
| "finite_number _ = None"

text \<open>\<open>xs ?? []\<close>.\<close>

fun or_empty :: "'a list option \<Rightarrow> 'a list" where
  "or_empty None = []"
| "or_empty (Some xs) = xs"

text \<open>\<open>a ?? b\<close>.\<close>

fun js_or :: "'a option \<Rightarrow> 'a \<Rightarrow> 'a" where
  "js_or None b = b"
| "js_or (Some a) b = a"

text \<open>\<open>typeof v === 'string' && v.length > 0\<close>.\<close>

definition non_empty :: "string option \<Rightarrow> string option" where
  "non_empty v = (if v = Some [] then None else v)"

text \<open>\<open>Array.prototype.join\<close>.\<close>

fun js_join :: "string \<Rightarrow> string list \<Rightarrow> string" where
  "js_join sep [] = []"
| "js_join sep [x] = x"
| "js_join sep (x # y # ys) = x @ sep @ js_join sep (y # ys)"

text \<open>\<open>String(n)\<close> of an integer.\<close>

definition digit_char :: "nat \<Rightarrow> char" where
  "digit_char d = char_of (48 + d)"

fun string_of_nat :: "nat \<Rightarrow> string" where
  "string_of_nat n =
     (if n < 10 then [digit_char n] else string_of_nat (n div 10) @ [digit_char (n mod 10)])"

declare string_of_nat.simps [simp del]

definition string_of_int :: "int \<Rightarrow> string" where
  "string_of_int i = (if i < 0 then ''-'' @ string_of_nat (nat (- i)) else string_of_nat (nat i))"

text \<open>\<open>s.toLowerCase()\<close> on ASCII, and \<open>includes\<close>.\<close>

definition to_lower :: "char \<Rightarrow> char" where
  "to_lower c = (let n = of_char c :: nat in if 65 \<le> n \<and> n \<le> 90 then char_of (n + 32) else c)"

fun js_includes :: "string \<Rightarrow> string \<Rightarrow> bool" where
  "js_includes [] pat = (pat = [])"
| "js_includes (c # cs) pat = (take (length pat) (c # cs) = pat \<or> js_includes cs pat)"

text \<open>\<open>s.indexOf(pat)\<close>, with \<open>None\<close> for \<open>-1\<close>.\<close>

fun js_index_of :: "string \<Rightarrow> string \<Rightarrow> nat option" where
  "js_index_of [] pat = (if pat = [] then Some 0 else None)"
| "js_index_of (c # cs) pat =
     (if take (length pat) (c # cs) = pat then Some 0 else map_option Suc (js_index_of cs pat))"

text \<open>\<open>s.trim()\<close>.\<close>

definition js_space :: "char \<Rightarrow> bool" where
  "js_space c \<longleftrightarrow> (of_char c :: nat) \<in> {9, 10, 11, 12, 13, 32, 160}"

definition js_trim :: "string \<Rightarrow> string" where
  "js_trim s = rev (dropWhile js_space (rev (dropWhile js_space s)))"

text \<open>\<open>s.split(c)\<close> at a single character.\<close>

fun js_split :: "char \<Rightarrow> string \<Rightarrow> string list" where
  "js_split c [] = [[]]"
| "js_split c (x # xs) =
     (if x = c then [] # js_split c xs
      else (case js_split c xs of [] \<Rightarrow> [[x]] | s # ss \<Rightarrow> (x # s) # ss))"

text \<open>
  \<open>s.startsWith(p)\<close>, \<open>Number.isInteger\<close> of a finite number, and the dash of the messages in its
  three UTF-8 bytes (searching and cutting at what was found do not depend on the encoding).
\<close>

definition starts_with :: "string \<Rightarrow> string \<Rightarrow> bool" where
  "starts_with s p \<longleftrightarrow> take (length p) s = p"

definition js_isInteger :: "rat \<Rightarrow> bool" where
  "js_isInteger q \<longleftrightarrow> of_int \<lfloor>q\<rfloor> = q"

definition em_dash :: string where
  "em_dash = [CHR 0xE2, CHR 0x80, CHR 0x94]"

text \<open>The first entry of an object under a key: \<open>r[k]\<close>, and \<open>k in r\<close>.\<close>

definition obj_get :: "(string \<times> json) list \<Rightarrow> string \<Rightarrow> json" where
  "obj_get kvs k = (case map_of kvs k of None \<Rightarrow> JUndefined | Some v \<Rightarrow> v)"

definition obj_has :: "(string \<times> json) list \<Rightarrow> string \<Rightarrow> bool" where
  "obj_has kvs k \<longleftrightarrow> k \<in> fst ` set kvs"

section \<open>Generic lemmas\<close>

lemma string_of_nat_not_Nil [simp]: "string_of_nat n \<noteq> []"
  by (subst string_of_nat.simps) simp

lemma drop_eq_Cons_nth: "i < length xs \<Longrightarrow> drop i xs = xs ! i # drop (Suc i) xs"
  by (rule Cons_nth_drop_Suc [symmetric])

lemma map_of_dom_fst: "map_of xs n \<noteq> None \<longleftrightarrow> n \<in> set (map fst xs)"
  by (simp add: map_of_eq_None_iff)

lemma set_delete_mem: "(k', v') \<in> set (AList.delete k xs) \<Longrightarrow> (k', v') \<in> set xs"
  by (induction xs) (auto split: if_splits)

lemma sorted_le_last:
  assumes "sorted xs" "x \<in> set xs"
  shows "x \<le> last xs"
proof -
  from assms(2) obtain i where i: "i < length xs" "x = xs ! i" by (auto simp: in_set_conv_nth)
  with sorted_nth_mono [OF assms(1), of i "length xs - 1"] show ?thesis
    by (cases "xs = []") (simp_all add: last_conv_nth)
qed

end
