(* ===== verification/CapTtl.thy ===== *)
theory CapTtl
  imports Prelude
begin

text \<open>
  The TTL policy of capability tokens:
  \<^verbatim>\<open>packages/keyrotation-controller/src/cap-ttl.ts\<close>. Seconds are rationals because a task
  may declare a fractional timeout; the code floors it.
\<close>

definition DEFAULT_SHORT_RUNNING_TTL_SECONDS :: rat where
  "DEFAULT_SHORT_RUNNING_TTL_SECONDS = 60 * 60"

definition LONG_RUNNING_THRESHOLD_SECONDS :: rat where
  "LONG_RUNNING_THRESHOLD_SECONDS = 60 * 60"

definition MAX_CAP_TTL_SECONDS :: rat where
  "MAX_CAP_TTL_SECONDS = 24 * 60 * 60"

definition DEFAULT_LONG_TTL_GRACE_SECONDS :: rat where
  "DEFAULT_LONG_TTL_GRACE_SECONDS = 300"

record cap_ttl_policy =
  shortTtlSeconds :: rat
  longTtlGraceSeconds :: rat
  maxTtlSeconds :: rat
  longRunningThresholdSeconds :: rat

datatype cap_ttl_policy_error = ShortTtlAboveCeiling rat | LongGraceAboveCeiling rat

definition floor_rat :: "rat \<Rightarrow> rat" where
  "floor_rat q = of_int \<lfloor>q\<rfloor>"

definition resolve_short_ttl :: "jsnum option \<Rightarrow> rat" where
  "resolve_short_ttl minutes =
     (case finite_number minutes of
        None \<Rightarrow> DEFAULT_SHORT_RUNNING_TTL_SECONDS
      | Some m \<Rightarrow> (if m \<le> 0 then DEFAULT_SHORT_RUNNING_TTL_SECONDS else floor_rat (m * 60)))"

definition resolve_long_grace :: "jsnum option \<Rightarrow> rat" where
  "resolve_long_grace grace =
     (case finite_number grace of
        None \<Rightarrow> DEFAULT_LONG_TTL_GRACE_SECONDS
      | Some g \<Rightarrow> (if g < 0 then DEFAULT_LONG_TTL_GRACE_SECONDS else floor_rat g))"

definition resolveCapTtlPolicy ::
  "jsnum option \<Rightarrow> jsnum option \<Rightarrow> cap_ttl_policy_error + cap_ttl_policy" where
  "resolveCapTtlPolicy shortTtlMinutes longTtlGrace =
     (let short = resolve_short_ttl shortTtlMinutes in
      if short > MAX_CAP_TTL_SECONDS then Inl (ShortTtlAboveCeiling short)
      else
        (let grace = resolve_long_grace longTtlGrace in
         if grace > MAX_CAP_TTL_SECONDS then Inl (LongGraceAboveCeiling grace)
         else Inr \<lparr>shortTtlSeconds = short, longTtlGraceSeconds = grace,
                   maxTtlSeconds = MAX_CAP_TTL_SECONDS,
                   longRunningThresholdSeconds = LONG_RUNNING_THRESHOLD_SECONDS\<rparr>))"

datatype cap_ttl_tier = ShortRunning | LongRunningGrace | LongRunningClamped

record cap_ttl_decision =
  ttlSeconds :: rat
  tier :: cap_ttl_tier

definition decideCapTtl :: "jsnum option \<Rightarrow> cap_ttl_policy \<Rightarrow> cap_ttl_decision" where
  "decideCapTtl timeoutSeconds policy =
     (case finite_number timeoutSeconds of
        None \<Rightarrow> \<lparr>ttlSeconds = shortTtlSeconds policy, tier = ShortRunning\<rparr>
      | Some t \<Rightarrow>
          (if t \<le> longRunningThresholdSeconds policy
           then \<lparr>ttlSeconds = shortTtlSeconds policy, tier = ShortRunning\<rparr>
           else
             (let candidate = floor_rat t + longTtlGraceSeconds policy in
              if candidate \<le> maxTtlSeconds policy
              then \<lparr>ttlSeconds = candidate, tier = LongRunningGrace\<rparr>
              else \<lparr>ttlSeconds = maxTtlSeconds policy, tier = LongRunningClamped\<rparr>)))"

section \<open>Facts\<close>

lemmas cap_ttl_constants = DEFAULT_SHORT_RUNNING_TTL_SECONDS_def
  LONG_RUNNING_THRESHOLD_SECONDS_def MAX_CAP_TTL_SECONDS_def DEFAULT_LONG_TTL_GRACE_SECONDS_def

lemma floor_rat_le: "floor_rat q \<le> q"
  by (simp add: floor_rat_def)

lemma less_floor_rat_1: "q < floor_rat q + 1"
  unfolding floor_rat_def by linarith

lemma floor_rat_nonneg: "0 \<le> q \<Longrightarrow> 0 \<le> floor_rat q"
  by (simp add: floor_rat_def)

text \<open>A policy the resolver can have produced.\<close>

definition wf_policy :: "cap_ttl_policy \<Rightarrow> bool" where
  "wf_policy p \<longleftrightarrow> 0 \<le> shortTtlSeconds p \<and> shortTtlSeconds p \<le> maxTtlSeconds p \<and>
     0 \<le> longTtlGraceSeconds p \<and> longTtlGraceSeconds p \<le> maxTtlSeconds p \<and>
     maxTtlSeconds p = MAX_CAP_TTL_SECONDS \<and>
     longRunningThresholdSeconds p = LONG_RUNNING_THRESHOLD_SECONDS"

lemma resolve_short_ttl_nonneg: "0 \<le> resolve_short_ttl m"
  by (auto simp: resolve_short_ttl_def cap_ttl_constants floor_rat_nonneg split: option.split)

lemma resolve_long_grace_nonneg: "0 \<le> resolve_long_grace g"
  by (auto simp: resolve_long_grace_def cap_ttl_constants floor_rat_nonneg split: option.split)

lemma resolveCapTtlPolicy_wf: "resolveCapTtlPolicy m g = Inr p \<Longrightarrow> wf_policy p"
  by (auto simp: resolveCapTtlPolicy_def wf_policy_def Let_def resolve_short_ttl_nonneg
      resolve_long_grace_nonneg split: if_splits)

lemma decideCapTtl_bounds:
  "wf_policy p \<Longrightarrow> 0 \<le> ttlSeconds (decideCapTtl t p) \<and> ttlSeconds (decideCapTtl t p) \<le> MAX_CAP_TTL_SECONDS"
proof -
  assume wf: "wf_policy p"
  show ?thesis
  proof (cases "finite_number t")
    case None
    with wf show ?thesis by (simp add: decideCapTtl_def wf_policy_def)
  next
    case (Some q)
    have "0 \<le> floor_rat q" if "\<not> q \<le> LONG_RUNNING_THRESHOLD_SECONDS"
      using that by (intro floor_rat_nonneg) (simp add: cap_ttl_constants)
    with Some wf show ?thesis
      by (auto simp: decideCapTtl_def wf_policy_def Let_def cap_ttl_constants)
  qed
qed

text \<open>A token outlives its task unless the task asks for more than the ceiling.\<close>

lemma decideCapTtl_covers:
  assumes wf: "wf_policy p" and short: "LONG_RUNNING_THRESHOLD_SECONDS \<le> shortTtlSeconds p"
    and grace: "1 \<le> longTtlGraceSeconds p" and t: "t \<le> MAX_CAP_TTL_SECONDS"
  shows "t \<le> ttlSeconds (decideCapTtl (Some (Fin t)) p)"
  using assms less_floor_rat_1 [of t]
  by (auto simp: decideCapTtl_def wf_policy_def Let_def)


section \<open>Properties\<close>

text \<open>
  Under any policy the resolver accepts a token lives between 0 seconds and the 24 hour
  ceiling; with the default short TTL and at least one second of grace it outlives every task
  whose timeout is at most the ceiling.
\<close>

theorem cap_ttl_policy_bounds:
  assumes "resolveCapTtlPolicy minutes grace = Inr p"
  shows "0 \<le> ttlSeconds (decideCapTtl timeout p) \<and> ttlSeconds (decideCapTtl timeout p) \<le> 86400
    \<and> (minutes = None \<and> 1 \<le> longTtlGraceSeconds p \<longrightarrow>
         (\<forall>t. timeout = Some (Fin t) \<and> t \<le> 86400 \<longrightarrow> t \<le> ttlSeconds (decideCapTtl timeout p)))"
proof -
  have wf: "wf_policy p" using assms by (rule resolveCapTtlPolicy_wf)
  have "t \<le> ttlSeconds (decideCapTtl (Some (Fin t)) p)"
    if "minutes = None" "1 \<le> longTtlGraceSeconds p" "t \<le> 86400" for t
    using that wf assms
    by (intro decideCapTtl_covers)
      (auto simp: resolveCapTtlPolicy_def resolve_short_ttl_def cap_ttl_constants Let_def
        split: if_splits)
  with decideCapTtl_bounds [OF wf, of timeout] show ?thesis
    by (auto simp: cap_ttl_constants)
qed

theorem cap_ttl_policy_bounds_witness:
  "ttlSeconds (decideCapTtl (Some (Fin 7200))
     \<lparr>shortTtlSeconds = 3600, longTtlGraceSeconds = 300, maxTtlSeconds = 86400,
      longRunningThresholdSeconds = 3600\<rparr>) \<ge> 7200"
proof -
  have "resolveCapTtlPolicy None None = Inr
      \<lparr>shortTtlSeconds = 3600, longTtlGraceSeconds = 300, maxTtlSeconds = 86400,
       longRunningThresholdSeconds = 3600\<rparr>"
    by (simp add: resolveCapTtlPolicy_def resolve_short_ttl_def resolve_long_grace_def
        cap_ttl_constants)
  from cap_ttl_policy_bounds [OF this, of "Some (Fin 7200)"] show ?thesis by simp
qed

text \<open>
  A positive \<open>shortTtlMinutes\<close> below one second is accepted and floored to a TTL of zero:
  the policy is valid and every short-running token it mints is expired at birth.
\<close>

theorem cap_ttl_zero_accepted:
  "\<exists>p. resolveCapTtlPolicy (Some (Fin (1 / 100))) None = Inr p \<and>
     ttlSeconds (decideCapTtl None p) = 0"
  by (simp add: resolveCapTtlPolicy_def resolve_short_ttl_def resolve_long_grace_def
      decideCapTtl_def cap_ttl_constants floor_rat_def floor_eq_iff)

end
