(* ===== verification/Glob.thy ===== *)
theory Glob
  imports Prelude
begin

text \<open>
  The pattern dialect of capability claims: \<^verbatim>\<open>packages/capability-types/src/glob-match.ts\<close>.
  \<open>globMatch\<close> is the two-pointer loop with its backtrack record, \<open>globMatchAny\<close>,
  \<open>globPatternIsSubset\<close> and \<open>patternListIsSubset\<close> are the functions above it. \<open>matches\<close>
  is the dialect as the documentation states it (a star admits any string), the reference
  the loop is compared with.
\<close>

section \<open>The matcher\<close>

abbreviation star :: char where "star \<equiv> CHR ''*''"

abbreviation nul :: char where "nul \<equiv> CHR 0x00"

text \<open>
  The loop of \<open>globMatch\<close>. The pair of variables \<open>starPi\<close>, \<open>starTi\<close> is an option, \<^term>\<open>None\<close>
  for \<open>starPi = -1\<close>. The result is \<^term>\<open>None\<close> where the code returns false inside the loop
  and the final \<open>pi\<close> (here \<open>pidx\<close>; \<open>ti\<close> is \<open>tidx\<close>) where the loop runs off the target.
\<close>

function glob_loop ::
  "string \<Rightarrow> string \<Rightarrow> nat \<Rightarrow> nat \<Rightarrow> (nat \<times> nat) option \<Rightarrow> nat option" where
  "glob_loop p t pidx tidx bt =
     (if tidx < length t then
        if pidx < length p \<and> p ! pidx = t ! tidx then glob_loop p t (Suc pidx) (Suc tidx) bt
        else if pidx < length p \<and> p ! pidx = star then glob_loop p t (Suc pidx) tidx (Some (pidx, tidx))
        else (case bt of
            Some (starPi, starTi) \<Rightarrow>
              glob_loop p t (Suc starPi) (Suc starTi) (Some (starPi, Suc starTi))
          | None \<Rightarrow> None)
      else Some pidx)"
  by pat_completeness auto
termination
  by (relation "measures
        [\<lambda>(p, t, pidx, tidx, bt). (case bt of None \<Rightarrow> 0
           | Some (sp, st) \<Rightarrow> (if sp < pidx \<and> st \<le> tidx then 0 else 1)),
         \<lambda>(p, t, pidx, tidx, bt). (case bt of None \<Rightarrow> 1 | Some _ \<Rightarrow> 0),
         \<lambda>(p, t, pidx, tidx, bt). (case bt of None \<Rightarrow> 0 | Some (sp, st) \<Rightarrow> length t - st),
         \<lambda>(p, t, pidx, tidx, bt). (case bt of None \<Rightarrow> 0 | Some (sp, st) \<Rightarrow> length p - sp),
         \<lambda>(p, t, pidx, tidx, bt). length t - tidx]")
     (auto split: option.splits if_splits)

declare glob_loop.simps [simp del]

text \<open>\<open>while (pi < pattern.length && pattern[pi] === '*') pi++; return pi === pattern.length\<close>.\<close>

definition skip_stars :: "string \<Rightarrow> string" where
  "skip_stars rest = dropWhile (\<lambda>c. c = star) rest"

definition globMatch :: "string \<Rightarrow> string \<Rightarrow> bool" where
  "globMatch pattern target =
     (case glob_loop pattern target 0 0 None of
        None \<Rightarrow> False
      | Some pidx \<Rightarrow> skip_stars (drop pidx pattern) = [])"

fun globMatchAny :: "string list option \<Rightarrow> string \<Rightarrow> bool" where
  "globMatchAny None target = False"
| "globMatchAny (Some []) target = False"
| "globMatchAny (Some (p # ps)) target =
     (if globMatch p target then True else globMatchAny (Some ps) target)"

section \<open>Subset of patterns\<close>

text \<open>\<open>child.replace(/\*/g, '\0\0')\<close>.\<close>

definition sentinel_probe :: "string \<Rightarrow> string" where
  "sentinel_probe child = concat (map (\<lambda>c. if c = star then [nul, nul] else [c]) child)"

definition globPatternIsSubset :: "string \<Rightarrow> string \<Rightarrow> bool" where
  "globPatternIsSubset child parent =
     (if child = parent then True
      else if parent = [star] then True
      else globMatch parent (sentinel_probe child))"

fun pattern_admitted :: "string \<Rightarrow> string list \<Rightarrow> bool" where
  "pattern_admitted cp [] = False"
| "pattern_admitted cp (pp # pps) =
     (if globPatternIsSubset cp pp then True else pattern_admitted cp pps)"

fun all_admitted :: "string list \<Rightarrow> string list \<Rightarrow> bool" where
  "all_admitted [] parents = True"
| "all_admitted (cp # cps) parents =
     (if pattern_admitted cp parents then all_admitted cps parents else False)"

definition patternListIsSubset :: "string list option \<Rightarrow> string list option \<Rightarrow> bool" where
  "patternListIsSubset child parent =
     (if or_empty child = [] then True
      else if or_empty parent = [] then False
      else all_admitted (or_empty child) (or_empty parent))"

section \<open>The dialect as documented\<close>

fun matches :: "string \<Rightarrow> string \<Rightarrow> bool" where
  "matches [] t = (t = [])"
| "matches (c # p) t =
     (if c = star then matches p t \<or> (case t of [] \<Rightarrow> False | d # t' \<Rightarrow> matches (c # p) t')
      else (case t of [] \<Rightarrow> False | d # t' \<Rightarrow> c = d \<and> matches p t'))"

declare matches.simps [simp del]

lemma matches_Nil [simp, glob_rules]: "matches [] t \<longleftrightarrow> t = []"
  by (simp add: matches.simps)

lemma matches_literal [glob_rules]:
  "c \<noteq> star \<Longrightarrow> matches (c # p) t \<longleftrightarrow> (\<exists>t'. t = c # t' \<and> matches p t')"
  by (cases t) (auto simp: matches.simps)

lemma matches_literal_Cons [glob_rules]:
  "c \<noteq> star \<Longrightarrow> matches (c # p) (d # t) \<longleftrightarrow> c = d \<and> matches p t"
  by (simp add: matches.simps)

lemma matches_star_Nil [glob_rules]: "matches (star # p) [] \<longleftrightarrow> matches p []"
  by (simp add: matches.simps)

lemma matches_star_Cons [glob_rules]:
  "matches (star # p) (d # t) \<longleftrightarrow> matches p (d # t) \<or> matches (star # p) t"
  by (simp add: matches.simps(2) [of star p "d # t"])

lemma matches_star_iff: "matches (star # p) t \<longleftrightarrow> (\<exists>u v. t = u @ v \<and> matches p v)"
proof (induction t)
  case Nil
  then show ?case by (simp add: matches_star_Nil)
next
  case (Cons d t)
  then show ?case
    by (auto simp: matches_star_Cons Cons_eq_append_conv)
qed

lemma matches_star_drop:
  "matches (star # p) t \<longleftrightarrow> (\<exists>k\<le>length t. matches p (drop k t))"
  unfolding matches_star_iff
proof
  assume "\<exists>u v. t = u @ v \<and> matches p v"
  then obtain u v where "t = u @ v" "matches p v" by blast
  then show "\<exists>k\<le>length t. matches p (drop k t)"
    by (intro exI [of _ "length u"]) simp
next
  assume "\<exists>k\<le>length t. matches p (drop k t)"
  then show "\<exists>u v. t = u @ v \<and> matches p v"
    by (metis append_take_drop_id)
qed

lemma matches_star_append: "matches (star # p) t \<Longrightarrow> matches (star # p) (u @ t)"
  unfolding matches_star_iff by (metis append.assoc)

lemma matches_star_ConsI: "matches p t \<Longrightarrow> matches (star # p) (d # t)"
  unfolding matches_star_iff by (metis append_Cons append_Nil)

lemma matches_star_all [simp]: "matches [star] t"
  unfolding matches_star_iff by simp

lemma matches_empty_iff: "matches p [] \<longleftrightarrow> skip_stars p = []"
  by (induction p) (auto simp: skip_stars_def matches.simps)

lemma matches_literal_prefix:
  "star \<notin> set seg \<Longrightarrow> matches (seg @ p) t \<Longrightarrow>
    length seg \<le> length t \<and> matches p (drop (length seg) t)"
  by (induction seg arbitrary: t) (auto simp: matches_literal)


section \<open>The loop against the dialect\<close>

text \<open>
  What the loop keeps: the backtrack record points at a star before \<open>pi\<close>, everything between
  that star and \<open>pi\<close> is literal, and it was read off the target from \<open>starTi\<close> on.
\<close>

definition glob_inv :: "string \<Rightarrow> string \<Rightarrow> nat \<Rightarrow> nat \<Rightarrow> (nat \<times> nat) option \<Rightarrow> bool" where
  "glob_inv p t pidx tidx bt \<longleftrightarrow>
     pidx \<le> length p \<and> tidx \<le> length t \<and>
     (case bt of None \<Rightarrow> True
      | Some (sp, st) \<Rightarrow> sp < pidx \<and> tidx = st + (pidx - Suc sp) \<and>
          star \<notin> set (take (pidx - Suc sp) (drop (Suc sp) p)))"

lemma glob_loop_mismatch:
  assumes "tidx < length t" "\<not> (pidx < length p \<and> (p ! pidx = t ! tidx \<or> p ! pidx = star))"
  shows "glob_loop p t pidx tidx bt =
    (case bt of Some (sp, st) \<Rightarrow> glob_loop p t (Suc sp) (Suc st) (Some (sp, Suc st))
     | None \<Rightarrow> None)"
  using assms by (subst glob_loop.simps) (auto split: option.split)

text \<open>The matches still to be tried when the loop would backtrack.\<close>

definition glob_alternatives :: "string \<Rightarrow> string \<Rightarrow> (nat \<times> nat) option \<Rightarrow> bool" where
  "glob_alternatives p t bt \<longleftrightarrow>
     (case bt of None \<Rightarrow> False
      | Some (sp, st) \<Rightarrow> \<exists>k. st < k \<and> k \<le> length t \<and> matches (drop (Suc sp) p) (drop k t))"

lemma glob_inv_literal:
  assumes "glob_inv p t pidx tidx bt" "tidx < length t" "pidx < length p"
    "p ! pidx \<noteq> star"
  shows "glob_inv p t (Suc pidx) (Suc tidx) bt"
proof (cases bt)
  case None
  with assms show ?thesis by (simp add: glob_inv_def)
next
  case (Some r)
  obtain sp st where r: "r = (sp, st)" by (cases r)
  with assms Some have sp: "sp < pidx" by (simp add: glob_inv_def)
  then have len: "Suc pidx - Suc sp = Suc (pidx - Suc sp)" by simp
  from sp assms(3) have "drop (Suc sp) p ! (pidx - Suc sp) = p ! pidx"
    and "pidx - Suc sp < length (drop (Suc sp) p)"
    by auto
  then have "take (Suc pidx - Suc sp) (drop (Suc sp) p)
      = take (pidx - Suc sp) (drop (Suc sp) p) @ [p ! pidx]"
    unfolding len by (simp add: take_Suc_conv_app_nth)
  with assms Some r sp show ?thesis by (auto simp: glob_inv_def)
qed

lemma glob_inv_star:
  assumes "glob_inv p t pidx tidx bt" "pidx < length p"
  shows "glob_inv p t (Suc pidx) tidx (Some (pidx, tidx))"
  using assms by (simp add: glob_inv_def)

lemma glob_inv_backtrack:
  assumes "glob_inv p t pidx tidx (Some (sp, st))" "tidx < length t"
  shows "glob_inv p t (Suc sp) (Suc st) (Some (sp, Suc st))"
  using assms by (auto simp: glob_inv_def)

text \<open>A later start of an earlier star is never needed: the newer star covers it.\<close>

lemma glob_alternatives_covered:
  assumes inv: "glob_inv p t pidx tidx bt" and lt: "pidx < length p" and st: "p ! pidx = star"
    and alt: "glob_alternatives p t bt"
  shows "matches (drop pidx p) (drop tidx t)"
proof -
  from alt obtain sp sti k where bt: "bt = Some (sp, sti)" and k: "sti < k" "k \<le> length t"
    and m: "matches (drop (Suc sp) p) (drop k t)"
    by (auto simp: glob_alternatives_def split: option.splits)
  define seg where "seg = take (pidx - Suc sp) (drop (Suc sp) p)"
  from inv bt have sp: "sp < pidx" and tidx: "tidx = sti + (pidx - Suc sp)"
    and ns: "star \<notin> set seg"
    by (auto simp: glob_inv_def seg_def)
  have len: "length seg = pidx - Suc sp" using sp lt by (simp add: seg_def)
  have split: "drop (Suc sp) p = seg @ drop pidx p"
    using append_take_drop_id [of "pidx - Suc sp" "drop (Suc sp) p"] sp
    by (simp add: seg_def)
  have hd: "drop pidx p = star # drop (Suc pidx) p"
    using lt st by (simp add: drop_eq_Cons_nth)
  have "matches (seg @ drop pidx p) (drop k t)" using m split by simp
  from matches_literal_prefix [OF ns this]
  have "matches (drop pidx p) (drop (length seg) (drop k t))" by simp
  moreover have "drop (length seg) (drop k t) = drop (k - sti) (drop tidx t)"
    using k tidx len by (simp add: add.commute)
  ultimately have "matches (star # drop (Suc pidx) p) (drop (k - sti) (drop tidx t))"
    using hd by simp
  then have "matches (star # drop (Suc pidx) p)
      (take (k - sti) (drop tidx t) @ drop (k - sti) (drop tidx t))"
    by (rule matches_star_append)
  then show ?thesis by (simp only: append_take_drop_id hd)
qed

lemma glob_alternatives_step:
  assumes "st < length t"
  shows "glob_alternatives p t (Some (sp, st)) \<longleftrightarrow>
    matches (drop (Suc sp) p) (drop (Suc st) t) \<or> glob_alternatives p t (Some (sp, Suc st))"
proof -
  have "(\<exists>k. st < k \<and> k \<le> length t \<and> P k) \<longleftrightarrow>
      P (Suc st) \<or> (\<exists>k. Suc st < k \<and> k \<le> length t \<and> P k)" for P
    using assms by (metis Suc_leI Suc_lessI less_Suc_eq lessI less_trans)
  then show ?thesis by (simp add: glob_alternatives_def)
qed

lemma glob_star_alternatives:
  assumes "tidx \<le> length t"
  shows "matches (drop (Suc pidx) p) (drop tidx t) \<or> glob_alternatives p t (Some (pidx, tidx))
    \<longleftrightarrow> matches (star # drop (Suc pidx) p) (drop tidx t)"
proof -
  let ?P = "\<lambda>k. matches (drop (Suc pidx) p) (drop k t)"
  have "(\<exists>j\<le>length t - tidx. ?P (j + tidx)) \<longleftrightarrow> (\<exists>k. tidx \<le> k \<and> k \<le> length t \<and> ?P k)"
    using assms by (metis add.commute add_le_cancel_left le_add1 le_add_diff_inverse)
  also have "\<dots> \<longleftrightarrow> ?P tidx \<or> (\<exists>k. tidx < k \<and> k \<le> length t \<and> ?P k)"
    using assms by (auto simp: le_less)
  finally show ?thesis
    by (simp add: matches_star_drop glob_alternatives_def)
qed

lemma glob_alternatives_exhausted:
  assumes inv: "glob_inv p t pidx tidx bt" and eot: "tidx = length t"
  shows "\<not> glob_alternatives p t bt"
proof
  assume "glob_alternatives p t bt"
  then obtain sp sti k where bt: "bt = Some (sp, sti)" and k: "sti < k" "k \<le> length t"
    and m: "matches (drop (Suc sp) p) (drop k t)"
    by (auto simp: glob_alternatives_def split: option.splits)
  define seg where "seg = take (pidx - Suc sp) (drop (Suc sp) p)"
  from inv bt have sp: "sp < pidx" and tidx: "tidx = sti + (pidx - Suc sp)"
    and ns: "star \<notin> set seg" and le: "pidx \<le> length p"
    by (auto simp: glob_inv_def seg_def)
  have "drop (Suc sp) p = seg @ drop (pidx - Suc sp) (drop (Suc sp) p)"
    by (simp only: seg_def append_take_drop_id)
  with m ns have "length seg \<le> length (drop k t)"
    using matches_literal_prefix by metis
  moreover have "length seg = pidx - Suc sp" using sp le by (simp add: seg_def)
  ultimately show False using k tidx eot by simp
qed

text \<open>
  Total correctness of the loop from any state it can be in, on a target without a star: it
  accepts exactly when the rest of the pattern matches the rest of the target, or one of the
  alternatives left to the backtrack record does.
\<close>

lemma glob_loop_correct:
  assumes "star \<notin> set t" and "glob_inv p t pidx tidx bt"
  shows "(case glob_loop p t pidx tidx bt of
            None \<Rightarrow> False | Some q \<Rightarrow> skip_stars (drop q p) = [])
     \<longleftrightarrow> matches (drop pidx p) (drop tidx t) \<or> glob_alternatives p t bt"
  using assms
proof (induction p t pidx tidx bt rule: glob_loop.induct)
  case (1 p t pidx tidx bt)
  note ns = "1.prems"(1) and inv = "1.prems"(2)
  show ?case
  proof (cases "tidx < length t")
    case False
    with inv have "tidx = length t" by (simp add: glob_inv_def)
    with inv show ?thesis
      by (simp add: glob_loop.simps [of p t pidx "length t" bt] glob_alternatives_exhausted
          matches_empty_iff)
  next
    case tlt: True
    then have tcons: "drop tidx t = t ! tidx # drop (Suc tidx) t"
      by (rule drop_eq_Cons_nth)
    have tns: "t ! tidx \<noteq> star" using ns tlt by (metis nth_mem)
    consider (lit) "pidx < length p" "p ! pidx = t ! tidx"
      | (star) "pidx < length p" "p ! pidx = star" "p ! pidx \<noteq> t ! tidx"
      | (mismatch) "\<not> (pidx < length p \<and> (p ! pidx = t ! tidx \<or> p ! pidx = star))"
      by blast
    then show ?thesis
    proof cases
      case lit
      then have "drop pidx p = t ! tidx # drop (Suc pidx) p"
        by (metis drop_eq_Cons_nth)
      then show ?thesis
        using "1.IH"(1) [OF tlt _ ns glob_inv_literal [OF inv tlt]] lit tns
        by (simp add: glob_loop.simps [of p t pidx tidx bt] tlt tcons matches_literal_Cons)
    next
      case star
      then have pcons: "drop pidx p = star # drop (Suc pidx) p"
        by (metis drop_eq_Cons_nth)
      have "matches (drop (Suc pidx) p) (drop tidx t) \<or>
          glob_alternatives p t (Some (pidx, tidx)) \<longleftrightarrow> matches (drop pidx p) (drop tidx t)"
        unfolding pcons by (rule glob_star_alternatives) (simp add: tlt less_imp_le)
      moreover have "glob_alternatives p t bt \<Longrightarrow> matches (drop pidx p) (drop tidx t)"
        using glob_alternatives_covered [OF inv star(1,2)] .
      ultimately show ?thesis
        using "1.IH"(2) [OF tlt _ _ ns glob_inv_star [OF inv star(1)]] star
        by (auto simp: glob_loop.simps [of p t pidx tidx bt] tlt)
    next
      case mismatch
      then have no: "\<not> matches (drop pidx p) (drop tidx t)"
        by (cases "pidx < length p")
          (auto simp: tcons drop_eq_Cons_nth matches_literal_Cons)
      show ?thesis
      proof (cases bt)
        case None
        with mismatch no show ?thesis
          by (auto simp: glob_loop.simps [of p t pidx tidx None] tlt glob_alternatives_def)
      next
        case (Some r)
        obtain sp st where r: "r = (sp, st)" by (cases r)
        have inv': "glob_inv p t (Suc sp) (Suc st) (Some (sp, Suc st))"
          using inv tlt unfolding Some r by (rule glob_inv_backtrack)
        have "st < length t" using inv tlt by (auto simp: Some r glob_inv_def)
        from glob_alternatives_step [OF this, of p sp]
          "1.IH"(3) [OF tlt _ _ Some r [symmetric] ns inv'] mismatch no
        show ?thesis
          unfolding glob_loop_mismatch [OF tlt mismatch] Some r by auto
      qed
    qed
  qed
qed


lemma globMatch_iff_matches [glob_rules]:
  "star \<notin> set t \<Longrightarrow> globMatch p t \<longleftrightarrow> matches p t"
  using glob_loop_correct [of t p 0 0 None]
  by (simp add: globMatch_def glob_inv_def glob_alternatives_def)

text \<open>On any target at all, an accepted target is one the dialect admits.\<close>

lemma glob_loop_sound:
  assumes "case glob_loop p t pidx tidx bt of
      None \<Rightarrow> False | Some q \<Rightarrow> skip_stars (drop q p) = []"
    and "tidx \<le> length t" and "\<And>sp st. bt = Some (sp, st) \<Longrightarrow> st \<le> tidx"
  shows "matches (drop pidx p) (drop tidx t) \<or> glob_alternatives p t bt"
  using assms
proof (induction p t pidx tidx bt rule: glob_loop.induct)
  case (1 p t pidx tidx bt)
  note ok = "1.prems"(1) and le = "1.prems"(2) and st_le = "1.prems"(3)
  show ?case
  proof (cases "tidx < length t")
    case False
    with ok le show ?thesis
      by (auto simp: glob_loop.simps [of p t pidx tidx bt] matches_empty_iff)
  next
    case tlt: True
    then have tcons: "drop tidx t = t ! tidx # drop (Suc tidx) t"
      by (rule drop_eq_Cons_nth)
    consider (lit) "pidx < length p" "p ! pidx = t ! tidx"
      | (star) "pidx < length p" "p ! pidx = star" "p ! pidx \<noteq> t ! tidx"
      | (mismatch) "\<not> (pidx < length p \<and> (p ! pidx = t ! tidx \<or> p ! pidx = star))"
      by blast
    then show ?thesis
    proof cases
      case lit
      then have pcons: "drop pidx p = t ! tidx # drop (Suc pidx) p"
        by (metis drop_eq_Cons_nth)
      have "matches (drop (Suc pidx) p) (drop (Suc tidx) t) \<or> glob_alternatives p t bt"
        using "1.IH"(1) [OF tlt] lit ok st_le tlt
        by (auto simp: glob_loop.simps [of p t pidx tidx bt] le_SucI)
      then show ?thesis
        unfolding pcons tcons
        by (cases "t ! tidx = star") (auto simp: matches_literal_Cons matches_star_ConsI)
    next
      case star
      then have pcons: "drop pidx p = star # drop (Suc pidx) p"
        by (metis drop_eq_Cons_nth)
      have "matches (drop (Suc pidx) p) (drop tidx t) \<or>
          glob_alternatives p t (Some (pidx, tidx))"
        using "1.IH"(2) [OF tlt] star ok le tlt
        by (auto simp: glob_loop.simps [of p t pidx tidx bt])
      then show ?thesis
        unfolding pcons using glob_star_alternatives [OF le] by blast
    next
      case mismatch
      note eq = glob_loop_mismatch [OF tlt mismatch]
      from ok obtain sp st where bt: "bt = Some (sp, st)"
        and ok': "case glob_loop p t (Suc sp) (Suc st) (Some (sp, Suc st)) of
            None \<Rightarrow> False | Some q \<Rightarrow> skip_stars (drop q p) = []"
        unfolding eq by (auto split: option.splits)
      have lt: "st < length t" using st_le [OF bt] tlt by simp
      have "matches (drop (Suc sp) p) (drop (Suc st) t) \<or> glob_alternatives p t (Some (sp, Suc st))"
        using "1.IH"(3) [OF tlt _ _ bt refl ok'] mismatch lt by auto
      then show ?thesis
        unfolding bt glob_alternatives_step [OF lt] by blast
    qed
  qed
qed

lemma globMatch_sound: "globMatch p t \<Longrightarrow> matches p t"
  using glob_loop_sound [of p t 0 0 None]
  by (simp add: globMatch_def glob_alternatives_def)

section \<open>The sentinel test decides inclusion\<close>

text \<open>\<open>t\<close> arises from \<open>s\<close> by replacing every sentinel character by some string.\<close>

inductive expands :: "string \<Rightarrow> string \<Rightarrow> bool" where
  expands_Nil: "expands [] []"
| expands_char: "c \<noteq> nul \<Longrightarrow> expands s t \<Longrightarrow> expands (c # s) (c # t)"
| expands_nul: "expands s t \<Longrightarrow> expands (nul # s) (u @ t)"

inductive_cases expands_NilE: "expands [] t"
inductive_cases expands_ConsE: "expands (c # s) t"

lemma matches_expands:
  "matches q s \<Longrightarrow> nul \<notin> set q \<Longrightarrow> expands s t \<Longrightarrow> matches q t"
proof (induction q s arbitrary: t rule: matches.induct)
  case (1 s)
  then show ?case by (auto elim: expands_NilE)
next
  case (2 c p s)
  show ?case
  proof (cases "c = star")
    case True
    show ?thesis
    proof (cases "matches p s")
      case True
      with 2 \<open>c = star\<close> have "matches p t" by simp
      with \<open>c = star\<close> show ?thesis
        by (metis append_Nil matches_star_iff)
    next
      case False
      with "2.prems"(1) \<open>c = star\<close> obtain d s' where s: "s = d # s'" "matches (star # p) s'"
        by (cases s) (auto simp: matches_star_Nil matches_star_Cons)
      from "2.prems"(3) s(1) obtain u t' where t: "t = u @ t'" "expands s' t'"
        by (metis append_Cons append_Nil expands_ConsE)
      from "2.IH"(2) [OF \<open>c = star\<close> s(1)] s(2) t(2) "2.prems"(2) \<open>c = star\<close>
      have "matches (star # p) t'" by simp
      then show ?thesis
        unfolding t(1) \<open>c = star\<close> by (rule matches_star_append)
    qed
  next
    case False
    with "2.prems"(1) obtain s' where s: "s = c # s'" "matches p s'"
      by (auto simp: matches_literal)
    with "2.prems"(2,3) obtain t' where t: "t = c # t'" "expands s' t'"
      by (auto elim: expands_ConsE)
    with "2.IH"(3) [OF False s(1)] s(2) "2.prems"(2) False show ?thesis
      by (simp add: matches_literal_Cons)
  qed
qed

lemma sentinel_probe_simps [simp]:
  "sentinel_probe [] = []"
  "sentinel_probe (c # p) = (if c = star then nul # nul # sentinel_probe p else c # sentinel_probe p)"
  by (simp_all add: sentinel_probe_def)

lemma star_notin_sentinel_probe [simp]: "star \<notin> set (sentinel_probe p)"
  by (induction p) auto

lemma matches_sentinel_probe: "matches p (sentinel_probe p)"
  by (induction p) (auto simp: matches_star_Cons matches_literal_Cons matches_star_iff
      intro: exI [of _ "[nul, nul]"])

lemma expands_sentinel_probe:
  "matches p t \<Longrightarrow> expands (sentinel_probe p) t"
proof (induction p arbitrary: t)
  case Nil
  then show ?case by (simp add: expands_Nil)
next
  case (Cons c p)
  show ?case
  proof (cases "c = star")
    case True
    with Cons.prems obtain u v where t: "t = u @ v" "matches p v"
      by (auto simp: matches_star_iff)
    have "expands (nul # nul # sentinel_probe p) (u @ [] @ v)"
      using Cons.IH [OF t(2)] by (intro expands_nul)
    with True t(1) show ?thesis by simp
  next
    case False
    with Cons.prems obtain t' where t: "t = c # t'" "matches p t'"
      by (auto simp: matches_literal)
    with Cons.IH False show ?thesis
      using expands_nul [of _ _ "[nul]"] by (cases "c = nul") (auto intro: expands_char)
  qed
qed

lemma globPatternIsSubset_iff:
  assumes "nul \<notin> set parent"
  shows "globPatternIsSubset child parent \<longleftrightarrow> (\<forall>t. matches child t \<longrightarrow> matches parent t)"
proof
  assume sub: "globPatternIsSubset child parent"
  show "\<forall>t. matches child t \<longrightarrow> matches parent t"
  proof (intro allI impI)
    fix t assume "matches child t"
    then show "matches parent t"
      using sub assms matches_expands [of parent "sentinel_probe child" t]
      by (auto simp: globPatternIsSubset_def globMatch_iff_matches expands_sentinel_probe
          split: if_splits)
  qed
next
  assume "\<forall>t. matches child t \<longrightarrow> matches parent t"
  then have "matches parent (sentinel_probe child)"
    by (simp add: matches_sentinel_probe)
  then show "globPatternIsSubset child parent"
    by (simp add: globPatternIsSubset_def globMatch_iff_matches)
qed

lemma globPatternIsSubset_refl [simp]: "globPatternIsSubset p p"
  by (simp add: globPatternIsSubset_def)

section \<open>Pattern lists\<close>

lemma globMatchAny_iff: "globMatchAny ps t \<longleftrightarrow> (\<exists>p\<in>set (or_empty ps). globMatch p t)"
proof (cases ps)
  case (Some xs)
  then show ?thesis by (induction xs arbitrary: ps) auto
qed simp

lemma pattern_admitted_iff:
  "pattern_admitted cp pps \<longleftrightarrow> (\<exists>pp\<in>set pps. globPatternIsSubset cp pp)"
  by (induction pps) auto

lemma all_admitted_iff: "all_admitted cps pps \<longleftrightarrow> (\<forall>cp\<in>set cps. pattern_admitted cp pps)"
  by (induction cps) auto

lemma patternListIsSubset_iff:
  "patternListIsSubset child parent \<longleftrightarrow>
     (\<forall>cp\<in>set (or_empty child). \<exists>pp\<in>set (or_empty parent). globPatternIsSubset cp pp)"
proof (cases "or_empty parent")
  case Nil
  then show ?thesis
    by (cases "or_empty child") (auto simp: patternListIsSubset_def)
next
  case (Cons pp pps)
  then show ?thesis
    by (auto simp: patternListIsSubset_def all_admitted_iff pattern_admitted_iff)
qed

lemma patternListIsSubset_refl [simp]: "patternListIsSubset ps ps"
  by (auto simp: patternListIsSubset_iff intro: globPatternIsSubset_refl)

text \<open>No pattern of the list carries the sentinel character.\<close>

definition nul_free :: "string list option \<Rightarrow> bool" where
  "nul_free ps \<longleftrightarrow> list_all (\<lambda>p. nul \<notin> set p) (or_empty ps)"

lemma patternListIsSubset_sound:
  assumes sub: "patternListIsSubset child parent" and nf: "nul_free parent"
    and acc: "globMatchAny child t"
  shows "\<exists>pp\<in>set (or_empty parent). matches pp t"
proof -
  from acc obtain cp where cp: "cp \<in> set (or_empty child)" "globMatch cp t"
    by (auto simp: globMatchAny_iff)
  with sub obtain pp where pp: "pp \<in> set (or_empty parent)" "globPatternIsSubset cp pp"
    by (auto simp: patternListIsSubset_iff)
  with nf have "nul \<notin> set pp" by (auto simp: nul_free_def list_all_iff)
  with pp cp have "matches pp t"
    using globPatternIsSubset_iff globMatch_sound by blast
  with pp(1) show ?thesis by blast
qed

lemma patternListIsSubset_globMatchAny:
  assumes "patternListIsSubset child parent" "nul_free parent" "globMatchAny child t"
    "star \<notin> set t"
  shows "globMatchAny parent t"
  using patternListIsSubset_sound [OF assms(1-3)] assms(4)
  by (auto simp: globMatchAny_iff globMatch_iff_matches)

lemma patternListIsSubset_trans:
  assumes ab: "patternListIsSubset a b" and bc: "patternListIsSubset b c"
    and "nul_free b" "nul_free c"
  shows "patternListIsSubset a c"
proof -
  have "\<exists>pc\<in>set (or_empty c). globPatternIsSubset pa pc" if pa: "pa \<in> set (or_empty a)" for pa
  proof -
    from ab pa obtain pb where pb: "pb \<in> set (or_empty b)" "globPatternIsSubset pa pb"
      by (auto simp: patternListIsSubset_iff)
    with bc obtain pc where pc: "pc \<in> set (or_empty c)" "globPatternIsSubset pb pc"
      by (auto simp: patternListIsSubset_iff)
    from pb pc assms(3,4) have "nul \<notin> set pb" "nul \<notin> set pc"
      by (auto simp: nul_free_def list_all_iff)
    with pb pc have "globPatternIsSubset pa pc"
      by (simp add: globPatternIsSubset_iff)
    with pc(1) show ?thesis by blast
  qed
  then show ?thesis by (simp add: patternListIsSubset_iff)
qed


section \<open>Properties\<close>

text \<open>
  C14. The backtracking loop of \<open>globMatch\<close> decides the documented dialect on every target that
  carries no star itself, and on any target whatsoever it accepts only what the dialect admits.
\<close>

theorem globMatch_decides_dialect:
  "(star \<notin> set target \<longrightarrow> (globMatch pattern target \<longleftrightarrow> matches pattern target)) \<and>
   (globMatch pattern target \<longrightarrow> matches pattern target)"
  by (simp add: globMatch_iff_matches globMatch_sound)

theorem globMatch_decides_dialect_witness:
  "globMatch ''cas://*'' ''cas://sha256:abc'' \<and> \<not> globMatch ''a*b*c'' ''azzzbzzz''"
proof -
  have "globMatch ''cas://*'' ''cas://sha256:abc'' \<longleftrightarrow> matches ''cas://*'' ''cas://sha256:abc''"
    using globMatch_decides_dialect [of "''cas://sha256:abc''" "''cas://*''"] by simp
  moreover have "globMatch ''a*b*c'' ''azzzbzzz'' \<longleftrightarrow> matches ''a*b*c'' ''azzzbzzz''"
    using globMatch_decides_dialect [of "''azzzbzzz''" "''a*b*c''"] by simp
  ultimately show ?thesis by (simp add: matches.simps)
qed

text \<open>
  On a target that starts with a star the loop takes the star of the pattern for a literal
  and never comes back to it: \<open>globMatch('*', '*a')\<close> is false although a star admits every string.
\<close>

theorem globMatch_star_in_target:
  "matches ''*'' ''*a'' \<and> \<not> globMatch ''*'' ''*a''"
  by (simp add: globMatch_def glob_loop.simps)

text \<open>
  C13. The sentinel test of \<open>globPatternIsSubset\<close> decides inclusion of the two pattern languages,
  for every child pattern and every parent pattern without the sentinel character.
\<close>

theorem globPatternIsSubset_decides_inclusion:
  assumes "nul \<notin> set parent"
  shows "globPatternIsSubset child parent \<longleftrightarrow> (\<forall>t. matches child t \<longrightarrow> matches parent t)"
  using assms by (rule globPatternIsSubset_iff)

theorem globPatternIsSubset_decides_inclusion_witness:
  "globPatternIsSubset ''foo-*-bar'' ''foo-*'' \<and> {t. matches ''foo-*-bar'' t} \<subseteq> {t. matches ''foo-*'' t}"
proof -
  have eq: "globPatternIsSubset ''foo-*-bar'' ''foo-*'' \<longleftrightarrow>
      (\<forall>t. matches ''foo-*-bar'' t \<longrightarrow> matches ''foo-*'' t)"
    by (rule globPatternIsSubset_decides_inclusion) simp
  have "globPatternIsSubset ''foo-*-bar'' ''foo-*''"
    by (simp add: globPatternIsSubset_def globMatch_def glob_loop.simps skip_stars_def)
  with eq show ?thesis by blast
qed

text \<open>
  The hypothesis of the sentinel test is needed: with the sentinel pair in the parent
  pattern, a child that matches strictly more passes for a subset.
\<close>

theorem sentinel_in_parent_escalates:
  "globPatternIsSubset ''a*'' (''a'' @ [nul, nul]) \<and>
   globMatch ''a*'' ''ab'' \<and> \<not> globMatch (''a'' @ [nul, nul]) ''ab''"
  by (simp add: globPatternIsSubset_def globMatch_def glob_loop.simps skip_stars_def)

end
