(* ===== verification/Claims.thy ===== *)
theory Claims
  imports Glob "HOL-Library.Char_ord" "HOL-Library.List_Lexorder"
begin

text \<open>
  Capability claims and bundles: \<^verbatim>\<open>packages/capability-types/src/types.ts\<close> (the data),
  \<^verbatim>\<open>subset.ts\<close> (the category-wise subset check that admission and the issuer run) and
  \<^verbatim>\<open>validate.ts\<close> (the validators of untrusted payloads). What a bundle authorises is
  \<open>authorizes\<close>: some pattern of the category matches the target.
\<close>

section \<open>Data\<close>

record blackboard_claims =
  bb_read :: "string list option"
  bb_write :: "string list option"

record capability_claims =
  cl_tools :: "string list option"
  cl_models :: "string list option"
  cl_spawn :: "string list option"
  cl_read :: "string list option"
  cl_write :: "string list option"
  cl_egress :: "string list option"
  cl_tenant :: "string option"
  cl_publish :: "string list option"
  cl_subscribe :: "string list option"
  cl_blackboard :: "blackboard_claims option"

datatype claim_category =
    Tools | Models | Spawn | ReadCat | WriteCat | Egress | TenantCat
  | Publish | Subscribe | Blackboard

definition no_claims :: capability_claims where
  "no_claims = \<lparr>cl_tools = None, cl_models = None, cl_spawn = None, cl_read = None,
     cl_write = None, cl_egress = None, cl_tenant = None, cl_publish = None,
     cl_subscribe = None, cl_blackboard = None\<rparr>"

definition no_blackboard :: blackboard_claims where
  "no_blackboard = \<lparr>bb_read = None, bb_write = None\<rparr>"

definition ALL_CAPABILITY_CLAIM_CATEGORIES :: "claim_category list" where
  "ALL_CAPABILITY_CLAIM_CATEGORIES =
     [Tools, Models, Spawn, ReadCat, WriteCat, Egress, TenantCat, Publish, Subscribe, Blackboard]"

fun category_name :: "claim_category \<Rightarrow> string" where
  "category_name Tools = ''tools''"
| "category_name Models = ''models''"
| "category_name Spawn = ''spawn''"
| "category_name ReadCat = ''read''"
| "category_name WriteCat = ''write''"
| "category_name Egress = ''egress''"
| "category_name TenantCat = ''tenant''"
| "category_name Publish = ''publish''"
| "category_name Subscribe = ''subscribe''"
| "category_name Blackboard = ''blackboard''"

text \<open>\<open>claims[cat]\<close> of an array category; the two others are never indexed as arrays.\<close>

fun claims_list :: "capability_claims \<Rightarrow> claim_category \<Rightarrow> string list option" where
  "claims_list c Tools = cl_tools c"
| "claims_list c Models = cl_models c"
| "claims_list c Spawn = cl_spawn c"
| "claims_list c ReadCat = cl_read c"
| "claims_list c WriteCat = cl_write c"
| "claims_list c Egress = cl_egress c"
| "claims_list c Publish = cl_publish c"
| "claims_list c Subscribe = cl_subscribe c"
| "claims_list c TenantCat = None"
| "claims_list c Blackboard = None"

fun assignArrayCategory ::
  "capability_claims \<Rightarrow> claim_category \<Rightarrow> string list \<Rightarrow> capability_claims" where
  "assignArrayCategory out Tools xs = out\<lparr>cl_tools := Some xs\<rparr>"
| "assignArrayCategory out Models xs = out\<lparr>cl_models := Some xs\<rparr>"
| "assignArrayCategory out Spawn xs = out\<lparr>cl_spawn := Some xs\<rparr>"
| "assignArrayCategory out ReadCat xs = out\<lparr>cl_read := Some xs\<rparr>"
| "assignArrayCategory out WriteCat xs = out\<lparr>cl_write := Some xs\<rparr>"
| "assignArrayCategory out Egress xs = out\<lparr>cl_egress := Some xs\<rparr>"
| "assignArrayCategory out Publish xs = out\<lparr>cl_publish := Some xs\<rparr>"
| "assignArrayCategory out Subscribe xs = out\<lparr>cl_subscribe := Some xs\<rparr>"
| "assignArrayCategory out TenantCat xs = out"
| "assignArrayCategory out Blackboard xs = out"

definition array_categories :: "claim_category list" where
  "array_categories = [Tools, Models, Spawn, ReadCat, WriteCat, Egress, Publish, Subscribe]"

section \<open>The subset check\<close>

record subset_violation =
  sv_category :: string
  sv_detail :: string

definition subset_detail :: "string \<Rightarrow> string list option \<Rightarrow> string list option \<Rightarrow> string" where
  "subset_detail name c p =
     ''child.'' @ name @ ''=['' @ js_join '', '' (or_empty c) @ ''] is not a subset of parent.''
       @ name @ ''=['' @ js_join '', '' (or_empty p) @ '']''"

definition list_violation ::
  "string \<Rightarrow> string list option \<Rightarrow> string list option \<Rightarrow> subset_violation list" where
  "list_violation name c p =
     (if patternListIsSubset c p then []
      else [\<lparr>sv_category = name, sv_detail = subset_detail name c p\<rparr>])"

definition quoted :: "string \<Rightarrow> string" where
  "quoted s = [CHR 0x22] @ s @ [CHR 0x22]"

definition tenant_violation ::
  "capability_claims \<Rightarrow> capability_claims \<Rightarrow> subset_violation list" where
  "tenant_violation child parent =
     (case cl_tenant child of
        None \<Rightarrow> []
      | Some ct \<Rightarrow>
          (case cl_tenant parent of
             None \<Rightarrow> [\<lparr>sv_category = ''tenant'',
               sv_detail = ''child.tenant='' @ quoted ct
                 @ '' requested but parent has no tenant claim''\<rparr>]
           | Some pt \<Rightarrow>
               (if ct \<noteq> pt then [\<lparr>sv_category = ''tenant'',
                  sv_detail = ''child.tenant='' @ quoted ct
                    @ '' does not match parent.tenant='' @ quoted pt\<rparr>]
                else [])))"

definition blackboard_violation ::
  "capability_claims \<Rightarrow> capability_claims \<Rightarrow> subset_violation list" where
  "blackboard_violation child parent =
     (case cl_blackboard child of
        None \<Rightarrow> []
      | Some cbb \<Rightarrow>
          list_violation ''blackboard.read'' (bb_read cbb)
            (Option.bind (cl_blackboard parent) bb_read)
          @ list_violation ''blackboard.write'' (bb_write cbb)
            (Option.bind (cl_blackboard parent) bb_write))"

definition claimsSubsetViolations ::
  "capability_claims \<Rightarrow> capability_claims \<Rightarrow> subset_violation list" where
  "claimsSubsetViolations child parent =
     concat (map (\<lambda>cat. list_violation (category_name cat)
         (claims_list child cat) (claims_list parent cat)) array_categories)
     @ tenant_violation child parent
     @ blackboard_violation child parent"

definition claimsAreSubsetOf :: "capability_claims \<Rightarrow> capability_claims \<Rightarrow> bool" where
  "claimsAreSubsetOf child parent = (length (claimsSubsetViolations child parent) = 0)"

definition formatViolations :: "subset_violation list \<Rightarrow> string" where
  "formatViolations vs =
     (if vs = [] then []
      else js_join ''; '' (map (\<lambda>v. ''['' @ sv_category v @ ''] '' @ sv_detail v) vs))"

section \<open>The authority a set of claims carries\<close>

definition authorizes :: "capability_claims \<Rightarrow> claim_category \<Rightarrow> string \<Rightarrow> bool" where
  "authorizes c cat target = globMatchAny (claims_list c cat) target"

definition bb_authorizes_read :: "capability_claims \<Rightarrow> string \<Rightarrow> bool" where
  "bb_authorizes_read c key = globMatchAny (Option.bind (cl_blackboard c) bb_read) key"

definition bb_authorizes_write :: "capability_claims \<Rightarrow> string \<Rightarrow> bool" where
  "bb_authorizes_write c key = globMatchAny (Option.bind (cl_blackboard c) bb_write) key"

text \<open>No pattern carries the sentinel character of the subset test.\<close>

definition nul_free_claims :: "capability_claims \<Rightarrow> bool" where
  "nul_free_claims c \<longleftrightarrow>
     list_all (\<lambda>cat. nul_free (claims_list c cat)) array_categories \<and>
     nul_free (Option.bind (cl_blackboard c) bb_read) \<and>
     nul_free (Option.bind (cl_blackboard c) bb_write)"

section \<open>Facts\<close>

lemma set_array_categories: "set array_categories = - {TenantCat, Blackboard}"
proof (rule set_eqI)
  fix c show "c \<in> set array_categories \<longleftrightarrow> c \<in> - {TenantCat, Blackboard}"
    by (cases c) (simp_all add: array_categories_def)
qed

lemma claims_list_assign [claim_rules]:
  "cat \<in> set array_categories \<Longrightarrow>
    claims_list (assignArrayCategory c cat xs) cat' =
      (if cat' = cat then Some xs else claims_list c cat')"
  by (cases cat; cases cat') (simp_all add: set_array_categories)

lemma assign_frame [claim_rules, simp]:
  "cl_tenant (assignArrayCategory c cat xs) = cl_tenant c"
  "cl_blackboard (assignArrayCategory c cat xs) = cl_blackboard c"
  by (cases cat; simp)+

lemma no_claims_fields [simp]:
  "claims_list no_claims cat = None"
  "cl_tenant no_claims = None"
  "cl_blackboard no_claims = None"
  by (cases cat; simp add: no_claims_def)+

text \<open>Claims are determined by their categories.\<close>

lemma claims_eqI:
  fixes a b :: capability_claims
  assumes l: "\<And>cat. claims_list a cat = claims_list b cat"
    and t: "cl_tenant a = cl_tenant b" "cl_blackboard a = cl_blackboard b"
  shows "a = b"
  using l [of Tools] l [of Models] l [of Spawn] l [of ReadCat] l [of WriteCat] l [of Egress]
    l [of Publish] l [of Subscribe] t
  by (cases a; cases b) simp

lemma list_violation_Nil [simp]: "list_violation n c p = [] \<longleftrightarrow> patternListIsSubset c p"
  by (simp add: list_violation_def)

lemma tenant_violation_Nil:
  "tenant_violation child parent = [] \<longleftrightarrow>
     cl_tenant child = None \<or> cl_tenant child = cl_tenant parent"
  by (auto simp: tenant_violation_def split: option.splits)

lemma patternListIsSubset_None [simp]: "patternListIsSubset None p"
  by (simp add: patternListIsSubset_def)

lemma blackboard_violation_Nil:
  "blackboard_violation child parent = [] \<longleftrightarrow>
     patternListIsSubset (Option.bind (cl_blackboard child) bb_read)
       (Option.bind (cl_blackboard parent) bb_read) \<and>
     patternListIsSubset (Option.bind (cl_blackboard child) bb_write)
       (Option.bind (cl_blackboard parent) bb_write)"
  by (auto simp: blackboard_violation_def split: option.splits)

text \<open>The subset check is a conjunction over the categories.\<close>

lemma claimsAreSubsetOf_iff:
  "claimsAreSubsetOf child parent \<longleftrightarrow>
     (\<forall>cat. patternListIsSubset (claims_list child cat) (claims_list parent cat)) \<and>
     (cl_tenant child = None \<or> cl_tenant child = cl_tenant parent) \<and>
     patternListIsSubset (Option.bind (cl_blackboard child) bb_read)
       (Option.bind (cl_blackboard parent) bb_read) \<and>
     patternListIsSubset (Option.bind (cl_blackboard child) bb_write)
       (Option.bind (cl_blackboard parent) bb_write)"
proof -
  have "(\<forall>cat\<in>set array_categories. patternListIsSubset (claims_list child cat) (claims_list parent cat))
    \<longleftrightarrow> (\<forall>cat. patternListIsSubset (claims_list child cat) (claims_list parent cat))"
    by (auto simp: set_array_categories)
  then show ?thesis
    by (simp add: claimsAreSubsetOf_def claimsSubsetViolations_def tenant_violation_Nil
        blackboard_violation_Nil)
qed

lemma nul_free_claims_list:
  "nul_free_claims c \<Longrightarrow> nul_free (claims_list c cat)"
  by (cases cat) (auto simp: nul_free_claims_def array_categories_def nul_free_def)

lemma claimsAreSubsetOf_refl: "claimsAreSubsetOf c c"
  by (simp add: claimsAreSubsetOf_iff)

lemma claimsAreSubsetOf_trans:
  assumes ab: "claimsAreSubsetOf a b" and bc: "claimsAreSubsetOf b c"
    and "nul_free_claims b" "nul_free_claims c"
  shows "claimsAreSubsetOf a c"
  unfolding claimsAreSubsetOf_iff
proof (intro conjI allI)
  fix cat
  show "patternListIsSubset (claims_list a cat) (claims_list c cat)"
    using assms by (meson claimsAreSubsetOf_iff nul_free_claims_list patternListIsSubset_trans)
next
  show "cl_tenant a = None \<or> cl_tenant a = cl_tenant c"
    using ab bc by (auto simp: claimsAreSubsetOf_iff)
next
  show "patternListIsSubset (Option.bind (cl_blackboard a) bb_read)
      (Option.bind (cl_blackboard c) bb_read)"
    using assms by (meson claimsAreSubsetOf_iff nul_free_claims_def patternListIsSubset_trans)
next
  show "patternListIsSubset (Option.bind (cl_blackboard a) bb_write)
      (Option.bind (cl_blackboard c) bb_write)"
    using assms by (meson claimsAreSubsetOf_iff nul_free_claims_def patternListIsSubset_trans)
qed

lemma authorizes_mono:
  assumes "claimsAreSubsetOf child parent" "nul_free_claims parent" "star \<notin> set target"
    "authorizes child cat target"
  shows "authorizes parent cat target"
  using assms unfolding authorizes_def
  by (meson claimsAreSubsetOf_iff nul_free_claims_list patternListIsSubset_globMatchAny)

lemma bb_authorizes_mono:
  assumes "claimsAreSubsetOf child parent" "nul_free_claims parent" "star \<notin> set target"
  shows "bb_authorizes_read child target \<Longrightarrow> bb_authorizes_read parent target"
    "bb_authorizes_write child target \<Longrightarrow> bb_authorizes_write parent target"
  using assms unfolding bb_authorizes_read_def bb_authorizes_write_def
  by (meson claimsAreSubsetOf_iff nul_free_claims_def patternListIsSubset_globMatchAny)+

end
