(* ===== verification/ClaimsValidate.thy ===== *)
theory ClaimsValidate
  imports Claims
begin

text \<open>
  The validators of untrusted capability payloads:
  \<^verbatim>\<open>packages/capability-types/src/validate.ts\<close>. The payload is a \<open>json\<close> value, an object the
  list of its own entries in enumeration order; a validator returns \<open>Inl\<close> of the code's error
  line or \<open>Inr\<close> of the typed value. \<open>claims_json\<close> and \<open>bundle_json\<close> are the payload objects the
  signing side builds (\<^verbatim>\<open>jwt.ts\<close>), so that the round trip can be stated.
\<close>

section \<open>Claims\<close>

text \<open>The loop over an array of patterns; \<open>err i\<close> is the error line for index \<open>i\<close>.\<close>

fun collect_strings :: "(nat \<Rightarrow> string) \<Rightarrow> nat \<Rightarrow> json list \<Rightarrow> string list validation" where
  "collect_strings err i [] = Inr []"
| "collect_strings err i (v # vs) =
     (case v of
        JStr s \<Rightarrow>
          (if s = [] then Inl (err i)
           else (case collect_strings err (Suc i) vs of Inl e \<Rightarrow> Inl e | Inr xs \<Rightarrow> Inr (s # xs)))
      | _ \<Rightarrow> Inl (err i))"

definition item_error :: "string \<Rightarrow> nat \<Rightarrow> string" where
  "item_error path i =
     ''capabilityClaims.'' @ path @ ''['' @ string_of_nat i @ ''] must be a non-empty string''"

definition validate_string_array :: "string \<Rightarrow> json \<Rightarrow> string list validation" where
  "validate_string_array path v =
     (case v of
        JArr vs \<Rightarrow> collect_strings (item_error path) 0 vs
      | _ \<Rightarrow> Inl (''capabilityClaims.'' @ path @ '' must be an array of strings''))"

text \<open>The first own key that fails a test.\<close>

fun first_key_not :: "(string \<Rightarrow> bool) \<Rightarrow> (string \<times> json) list \<Rightarrow> string option" where
  "first_key_not ok [] = None"
| "first_key_not ok ((k, v) # kvs) = (if ok k then first_key_not ok kvs else Some k)"

definition validate_sub ::
  "(string \<times> json) list \<Rightarrow> string \<Rightarrow> string list option validation" where
  "validate_sub bb sub =
     (if \<not> obj_has bb sub then Inr None
      else map_sum id Some (validate_string_array (''blackboard.'' @ sub) (obj_get bb sub)))"

definition validate_blackboard :: "json \<Rightarrow> blackboard_claims validation" where
  "validate_blackboard v =
     (case v of
        JObj bb \<Rightarrow>
          (case first_key_not (\<lambda>k. k = ''read'' \<or> k = ''write'') bb of
             Some key \<Rightarrow> Inl (''capabilityClaims.blackboard has unknown key '' @ quoted key
               @ ''; allowed: read, write'')
           | None \<Rightarrow>
               (case validate_sub bb ''read'' of
                  Inl e \<Rightarrow> Inl e
                | Inr r \<Rightarrow>
                    (case validate_sub bb ''write'' of
                       Inl e \<Rightarrow> Inl e
                     | Inr w \<Rightarrow> Inr \<lparr>bb_read = r, bb_write = w\<rparr>)))
      | _ \<Rightarrow> Inl ''capabilityClaims.blackboard must be an object with optional read/write arrays'')"

text \<open>One iteration of the loop over the categories.\<close>

definition validate_category ::
  "(string \<times> json) list \<Rightarrow> capability_claims \<Rightarrow> claim_category \<Rightarrow> capability_claims validation"
where
  "validate_category r out cat =
     (let v = obj_get r (category_name cat) in
      if \<not> obj_has r (category_name cat) then Inr out
      else if cat = TenantCat then
        (case v of
           JStr s \<Rightarrow>
             (if s = [] then Inl ''capabilityClaims.tenant must be a non-empty string''
              else Inr (out\<lparr>cl_tenant := Some s\<rparr>))
         | _ \<Rightarrow> Inl ''capabilityClaims.tenant must be a non-empty string'')
      else if cat = Blackboard then
        (case validate_blackboard v of
           Inl e \<Rightarrow> Inl e
         | Inr bb \<Rightarrow> Inr (out\<lparr>cl_blackboard := Some bb\<rparr>))
      else
        (case validate_string_array (category_name cat) v of
           Inl e \<Rightarrow> Inl e
         | Inr xs \<Rightarrow> Inr (assignArrayCategory out cat xs)))"

fun validate_categories ::
  "(string \<times> json) list \<Rightarrow> capability_claims \<Rightarrow> claim_category list \<Rightarrow> capability_claims validation"
where
  "validate_categories r out [] = Inr out"
| "validate_categories r out (cat # cats) =
     (case validate_category r out cat of
        Inl e \<Rightarrow> Inl e
      | Inr out' \<Rightarrow> validate_categories r out' cats)"

definition known_keys :: "string list" where
  "known_keys = map category_name ALL_CAPABILITY_CLAIM_CATEGORIES"

definition validateCapabilityClaims :: "json \<Rightarrow> capability_claims validation" where
  "validateCapabilityClaims raw =
     (case raw of
        JArr _ \<Rightarrow> Inl ''capabilityClaims must be an object, not an array''
      | JObj r \<Rightarrow>
          (case first_key_not (\<lambda>k. k \<in> set known_keys) r of
             Some key \<Rightarrow> Inl (''capabilityClaims has unknown key '' @ quoted key
               @ ''; allowed: '' @ js_join '', '' (sort known_keys))
           | None \<Rightarrow> validate_categories r no_claims ALL_CAPABILITY_CLAIM_CATEGORIES)
      | _ \<Rightarrow> Inl ''capabilityClaims must be an object'')"

section \<open>Bundles\<close>

record capability_bundle =
  cb_iss :: string
  cb_sub :: string
  cb_aud :: "string list"
  cb_exp :: rat
  cb_iat :: "rat option"
  cb_nbf :: "rat option"
  cb_jti :: string
  cb_agt :: "string option"
  cb_claims :: capability_claims

definition KAGENT_SUBSTRATE_AUDIENCE :: string where
  "KAGENT_SUBSTRATE_AUDIENCE = ''kagent-substrate''"

definition nonempty_string :: "json \<Rightarrow> string option" where
  "nonempty_string v = (case v of JStr s \<Rightarrow> if s = [] then None else Some s | _ \<Rightarrow> None)"

definition finite_json :: "json \<Rightarrow> rat option" where
  "finite_json v = (case v of JNum (Fin q) \<Rightarrow> Some q | _ \<Rightarrow> None)"

definition backticked :: "string \<Rightarrow> string" where
  "backticked s = [CHR 0x60] @ s @ [CHR 0x60]"

text \<open>\<open>r\<close> is the object; an array has none of the named properties.\<close>

definition object_fields :: "json \<Rightarrow> (string \<times> json) list option" where
  "object_fields raw = (case raw of JObj r \<Rightarrow> Some r | JArr _ \<Rightarrow> Some [] | _ \<Rightarrow> None)"

definition aud_error :: "nat \<Rightarrow> string" where
  "aud_error i = ''capability bundle: aud['' @ string_of_nat i @ ''] must be a non-empty string''"

definition optional_number_ok :: "json \<Rightarrow> bool" where
  "optional_number_ok v \<longleftrightarrow> v = JUndefined \<or> finite_json v \<noteq> None"

definition validate_audience :: "json \<Rightarrow> string list validation" where
  "validate_audience v =
     (case v of
        JArr vs \<Rightarrow>
          (if vs = [] then
             Inl (''capability bundle: '' @ backticked ''aud'' @ '' is required (non-empty array)'')
           else
             (case collect_strings aud_error 0 vs of
                Inl e \<Rightarrow> Inl e
              | Inr xs \<Rightarrow>
                  (if KAGENT_SUBSTRATE_AUDIENCE \<in> set xs then Inr xs
                   else Inl (''capability bundle: aud must include ''
                     @ quoted KAGENT_SUBSTRATE_AUDIENCE))))
      | _ \<Rightarrow> Inl (''capability bundle: '' @ backticked ''aud'' @ '' is required (non-empty array)''))"

definition required_string :: "(string \<times> json) list \<Rightarrow> string \<Rightarrow> string validation" where
  "required_string r key =
     (case nonempty_string (obj_get r key) of
        None \<Rightarrow> Inl (''capability bundle: '' @ backticked key @ '' is required (string)'')
      | Some s \<Rightarrow> Inr s)"

definition optional_number_error :: "string \<Rightarrow> string" where
  "optional_number_error key =
     ''capability bundle: '' @ backticked key @ '', when present, must be a number''"

definition validateCapabilityBundle :: "json \<Rightarrow> capability_bundle validation" where
  "validateCapabilityBundle raw =
     (case object_fields raw of
        None \<Rightarrow> Inl ''capability bundle must be an object''
      | Some r \<Rightarrow>
     (case required_string r ''iss'' of Inl e \<Rightarrow> Inl e | Inr iss \<Rightarrow>
     (case required_string r ''sub'' of Inl e \<Rightarrow> Inl e | Inr sub \<Rightarrow>
     (case required_string r ''jti'' of Inl e \<Rightarrow> Inl e | Inr jti \<Rightarrow>
     (case finite_json (obj_get r ''exp'') of
        None \<Rightarrow> Inl (''capability bundle: '' @ backticked ''exp''
          @ '' is required (unix epoch seconds)'')
      | Some expv \<Rightarrow>
     (case validate_audience (obj_get r ''aud'') of Inl e \<Rightarrow> Inl e | Inr aud \<Rightarrow>
      if \<not> optional_number_ok (obj_get r ''iat'') then Inl (optional_number_error ''iat'')
      else if \<not> optional_number_ok (obj_get r ''nbf'') then Inl (optional_number_error ''nbf'')
      else
     (case validateCapabilityClaims (obj_get r ''claims'') of
        Inl e \<Rightarrow> Inl (''capability bundle: '' @ e)
      | Inr claims \<Rightarrow>
          Inr \<lparr>cb_iss = iss, cb_sub = sub, cb_aud = aud, cb_exp = expv,
               cb_iat = finite_json (obj_get r ''iat''), cb_nbf = finite_json (obj_get r ''nbf''),
               cb_jti = jti, cb_agt = nonempty_string (obj_get r ''agt''),
               cb_claims = claims\<rparr>)))))))"

text \<open>The time check; the two error lines are the two constructors.\<close>

datatype time_error = CapExpired rat rat | CapNotYetValid rat rat

definition bundleTimeError :: "capability_bundle \<Rightarrow> rat \<Rightarrow> time_error option" where
  "bundleTimeError b nowSec =
     (if cb_exp b \<le> nowSec then Some (CapExpired (cb_exp b) nowSec)
      else (case cb_nbf b of
              Some nbf \<Rightarrow> (if nbf > nowSec then Some (CapNotYetValid nbf nowSec) else None)
            | None \<Rightarrow> None))"

section \<open>The payload the signing side builds\<close>

definition strings_json :: "string list \<Rightarrow> json" where
  "strings_json xs = JArr (map JStr xs)"

definition opt_entry :: "string \<Rightarrow> json option \<Rightarrow> (string \<times> json) list" where
  "opt_entry k v = (case v of None \<Rightarrow> [] | Some j \<Rightarrow> [(k, j)])"

definition blackboard_json :: "blackboard_claims \<Rightarrow> json" where
  "blackboard_json bb = JObj
     (opt_entry ''read'' (map_option strings_json (bb_read bb))
      @ opt_entry ''write'' (map_option strings_json (bb_write bb)))"

definition category_json :: "capability_claims \<Rightarrow> claim_category \<Rightarrow> json option" where
  "category_json c cat =
     (if cat = TenantCat then map_option JStr (cl_tenant c)
      else if cat = Blackboard then map_option blackboard_json (cl_blackboard c)
      else map_option strings_json (claims_list c cat))"

definition claims_json :: "capability_claims \<Rightarrow> json" where
  "claims_json c = JObj
     (concat (map (\<lambda>cat. opt_entry (category_name cat) (category_json c cat))
        ALL_CAPABILITY_CLAIM_CATEGORIES))"

definition DEFAULT_CAP_JWT_TTL_SECONDS :: rat where
  "DEFAULT_CAP_JWT_TTL_SECONDS = 600"

record build_cap_jwt_input =
  bj_issuer :: string
  bj_subjectTaskUid :: string
  bj_subjectAgent :: "string option"
  bj_jti :: string
  bj_claims :: capability_claims
  bj_ttlSeconds :: "rat option"
  bj_audiences :: "string list option"

text \<open>The payload of \<open>buildCapabilityJwt\<close> at \<open>nowMs\<close> (the header and the signature are jose's).\<close>

definition cap_jwt_payload :: "build_cap_jwt_input \<Rightarrow> rat \<Rightarrow> json" where
  "cap_jwt_payload input nowMs =
     (let nowSec = of_int \<lfloor>nowMs / 1000\<rfloor>;
          ttl = (case bj_ttlSeconds input of None \<Rightarrow> DEFAULT_CAP_JWT_TTL_SECONDS | Some t \<Rightarrow> t);
          aud = KAGENT_SUBSTRATE_AUDIENCE # or_empty (bj_audiences input)
      in JObj ([(''iss'', JStr (bj_issuer input)),
                (''sub'', JStr (''task-uid:'' @ bj_subjectTaskUid input)),
                (''aud'', strings_json aud),
                (''exp'', JNum (Fin (nowSec + ttl))),
                (''iat'', JNum (Fin nowSec)),
                (''jti'', JStr (bj_jti input))]
               @ opt_entry ''agt'' (map_option JStr (bj_subjectAgent input))
               @ [(''claims'', claims_json (bj_claims input))]))"

section \<open>Well-formed claims\<close>

definition wf_patterns :: "string list option \<Rightarrow> bool" where
  "wf_patterns ps \<longleftrightarrow> [] \<notin> set (or_empty ps)"

definition wf_claims :: "capability_claims \<Rightarrow> bool" where
  "wf_claims c \<longleftrightarrow>
     (\<forall>cat\<in>set array_categories. wf_patterns (claims_list c cat)) \<and>
     cl_tenant c \<noteq> Some [] \<and>
     wf_patterns (Option.bind (cl_blackboard c) bb_read) \<and>
     wf_patterns (Option.bind (cl_blackboard c) bb_write)"

lemma map_JStr_inject [simp]: "map JStr xs = map JStr ys \<longleftrightarrow> xs = ys"
  by (simp add: inj_map_eq_map inj_def)

lemma map_sum_Inr_iff: "map_sum f g x = Inr y \<longleftrightarrow> (\<exists>z. x = Inr z \<and> y = g z)"
  by (cases x) auto

lemma collect_strings_map: "[] \<notin> set xs \<Longrightarrow> collect_strings err i (map JStr xs) = Inr xs"
  by (induction xs arbitrary: i) auto

lemma collect_strings_Inr:
  "collect_strings err i vs = Inr xs \<longleftrightarrow> vs = map JStr xs \<and> [] \<notin> set xs"
proof
  show "collect_strings err i vs = Inr xs \<Longrightarrow> vs = map JStr xs \<and> [] \<notin> set xs"
    by (induction vs arbitrary: i xs) (auto split: json.splits sum.splits if_splits)
qed (simp add: collect_strings_map)

lemma validate_string_array_Inr:
  "validate_string_array path v = Inr xs \<longleftrightarrow> v = strings_json xs \<and> [] \<notin> set xs"
  by (auto simp: validate_string_array_def strings_json_def collect_strings_Inr split: json.splits)

lemma validate_sub_wf: "validate_sub bb sub = Inr r \<Longrightarrow> wf_patterns r"
  by (auto simp: validate_sub_def wf_patterns_def validate_string_array_Inr map_sum_Inr_iff
      split: if_splits)

lemma validate_blackboard_wf:
  "validate_blackboard v = Inr bb \<Longrightarrow> wf_patterns (bb_read bb) \<and> wf_patterns (bb_write bb)"
  by (auto simp: validate_blackboard_def validate_sub_wf
      split: json.splits option.splits sum.splits)

text \<open>Each iteration keeps the claims built so far well-formed.\<close>

lemma wf_claims_assign:
  assumes "wf_claims c" "[] \<notin> set xs"
  shows "wf_claims (assignArrayCategory c cat xs)"
proof (cases "cat \<in> set array_categories")
  case True
  with assms show ?thesis
    by (auto simp: wf_claims_def claims_list_assign wf_patterns_def)
next
  case False
  then have "cat = TenantCat \<or> cat = Blackboard" by (auto simp: set_array_categories)
  with assms(1) show ?thesis by auto
qed

lemma claims_list_updates [simp]:
  "claims_list (c\<lparr>cl_tenant := t\<rparr>) cat = claims_list c cat"
  "claims_list (c\<lparr>cl_blackboard := b\<rparr>) cat = claims_list c cat"
  by (cases cat; simp)+

lemma wf_claims_tenant: "wf_claims c \<Longrightarrow> s \<noteq> [] \<Longrightarrow> wf_claims (c\<lparr>cl_tenant := Some s\<rparr>)"
  by (simp add: wf_claims_def)

lemma wf_claims_blackboard:
  "wf_claims c \<Longrightarrow> wf_patterns (bb_read bb) \<Longrightarrow> wf_patterns (bb_write bb) \<Longrightarrow>
    wf_claims (c\<lparr>cl_blackboard := Some bb\<rparr>)"
  by (simp add: wf_claims_def)

lemma validate_category_wf:
  "validate_category r out cat = Inr out' \<Longrightarrow> wf_claims out \<Longrightarrow> wf_claims out'"
  unfolding validate_category_def Let_def
  by (auto simp: wf_claims_assign validate_string_array_Inr wf_claims_tenant
      intro!: wf_claims_blackboard
      dest: validate_blackboard_wf split: if_splits json.splits sum.splits)

lemma validate_categories_wf:
  "validate_categories r out cats = Inr out' \<Longrightarrow> wf_claims out \<Longrightarrow> wf_claims out'"
  by (induction cats arbitrary: out) (auto split: sum.splits dest: validate_category_wf)

lemma wf_no_claims: "wf_claims no_claims"
  by (simp add: wf_claims_def wf_patterns_def)

lemma validateCapabilityClaims_wf:
  "validateCapabilityClaims raw = Inr c \<Longrightarrow> wf_claims c"
  by (auto simp: validateCapabilityClaims_def split: json.splits option.splits
      intro: validate_categories_wf [OF _ wf_no_claims])

section \<open>Reading the payload back\<close>

lemma obj_has_iff: "obj_has kvs k \<longleftrightarrow> map_of kvs k \<noteq> None"
  by (simp add: obj_has_def map_of_eq_None_iff)

lemma map_of_opt_entry [simp]: "map_of (opt_entry k v) k' = (if k' = k then v else None)"
  by (simp add: opt_entry_def split: option.split)

lemma map_of_entries:
  assumes "inj name"
  shows "map_of (concat (map (\<lambda>x. opt_entry (name x) (f x)) xs)) (name k) =
     (if k \<in> set xs then f k else None)"
  using assms by (induction xs) (auto simp: map_add_def inj_eq split: option.splits)

lemma category_name_inject [simp]: "category_name a = category_name b \<longleftrightarrow> a = b"
  by (cases a; cases b; simp)

lemma category_in_ALL [simp]: "cat \<in> set ALL_CAPABILITY_CLAIM_CATEGORIES"
  by (cases cat) (simp_all add: ALL_CAPABILITY_CLAIM_CATEGORIES_def)

lemma claims_json_lookup:
  assumes "claims_json c = JObj kvs"
  shows "map_of kvs (category_name cat) = category_json c cat"
proof -
  have "kvs = concat (map (\<lambda>x. opt_entry (category_name x) (category_json c x))
      ALL_CAPABILITY_CLAIM_CATEGORIES)"
    using assms by (simp add: claims_json_def)
  then show ?thesis by (simp add: map_of_entries inj_def)
qed

lemma first_key_not_None: "first_key_not ok kvs = None \<longleftrightarrow> (\<forall>k\<in>fst ` set kvs. ok k)"
  by (induction ok kvs rule: first_key_not.induct) auto

lemma claims_json_keys:
  "claims_json c = JObj kvs \<Longrightarrow> first_key_not (\<lambda>k. k \<in> set known_keys) kvs = None"
  by (auto simp: first_key_not_None claims_json_def known_keys_def opt_entry_def
      split: option.splits)

text \<open>One field of the claims, copied onto the object under construction.\<close>

definition copy_category ::
  "capability_claims \<Rightarrow> capability_claims \<Rightarrow> claim_category \<Rightarrow> capability_claims" where
  "copy_category c out cat =
     (if cat = TenantCat then
        (case cl_tenant c of None \<Rightarrow> out | Some s \<Rightarrow> out\<lparr>cl_tenant := Some s\<rparr>)
      else if cat = Blackboard then
        (case cl_blackboard c of None \<Rightarrow> out | Some bb \<Rightarrow> out\<lparr>cl_blackboard := Some bb\<rparr>)
      else (case claims_list c cat of None \<Rightarrow> out | Some xs \<Rightarrow> assignArrayCategory out cat xs))"

lemma validate_blackboard_json:
  assumes "wf_patterns (bb_read bb)" "wf_patterns (bb_write bb)"
  shows "validate_blackboard (blackboard_json bb) = Inr bb"
proof -
  obtain r w where bb: "bb = \<lparr>bb_read = r, bb_write = w\<rparr>" by (cases bb)
  with assms show ?thesis
    by (cases r; cases w)
      (auto simp: validate_blackboard_def blackboard_json_def opt_entry_def validate_sub_def
        obj_has_def obj_get_def validate_string_array_def strings_json_def collect_strings_map
        wf_patterns_def)
qed

lemma validate_category_json:
  assumes kvs: "claims_json c = JObj kvs" and wf: "wf_claims c"
  shows "validate_category kvs out cat = Inr (copy_category c out cat)"
proof -
  have look: "obj_has kvs (category_name cat) \<longleftrightarrow> category_json c cat \<noteq> None"
    "obj_get kvs (category_name cat) =
       (case category_json c cat of None \<Rightarrow> JUndefined | Some j \<Rightarrow> j)"
    by (simp_all add: obj_has_iff obj_get_def claims_json_lookup [OF kvs])
  consider "cat = TenantCat" | "cat = Blackboard" | "cat \<in> set array_categories"
    by (auto simp: set_array_categories)
  then show ?thesis
  proof cases
    case 1
    with wf show ?thesis
      using look by (auto simp: validate_category_def category_json_def copy_category_def
          wf_claims_def split: option.splits)
  next
    case 2
    with wf show ?thesis
      using look by (auto simp: validate_category_def category_json_def copy_category_def
          wf_claims_def validate_blackboard_json split: option.splits)
  next
    case 3
    with wf have "wf_patterns (claims_list c cat)" by (simp add: wf_claims_def)
    with 3 show ?thesis
      using look by (auto simp: validate_category_def category_json_def copy_category_def
          set_array_categories validate_string_array_def strings_json_def collect_strings_map
          wf_patterns_def split: option.splits)
  qed
qed

lemma validate_categories_json:
  assumes "claims_json c = JObj kvs" "wf_claims c"
  shows "validate_categories kvs out cats = Inr (foldl (copy_category c) out cats)"
  by (induction cats arbitrary: out) (simp_all add: validate_category_json [OF assms])

lemma copy_category_fields:
  "claims_list (copy_category c out cat) cat' =
     (if cat' = cat \<and> claims_list c cat \<noteq> None then claims_list c cat else claims_list out cat')"
  "cl_tenant (copy_category c out cat) =
     (if cat = TenantCat \<and> cl_tenant c \<noteq> None then cl_tenant c else cl_tenant out)"
  "cl_blackboard (copy_category c out cat) =
     (if cat = Blackboard \<and> cl_blackboard c \<noteq> None then cl_blackboard c else cl_blackboard out)"
  by (auto simp: copy_category_def claims_list_assign set_array_categories split: option.splits)

lemma foldl_copy_fields:
  "claims_list (foldl (copy_category c) out cats) cat' =
     (if cat' \<in> set cats \<and> claims_list c cat' \<noteq> None then claims_list c cat' else claims_list out cat')"
  "cl_tenant (foldl (copy_category c) out cats) =
     (if TenantCat \<in> set cats \<and> cl_tenant c \<noteq> None then cl_tenant c else cl_tenant out)"
  "cl_blackboard (foldl (copy_category c) out cats) =
     (if Blackboard \<in> set cats \<and> cl_blackboard c \<noteq> None then cl_blackboard c else cl_blackboard out)"
  by (induction cats arbitrary: out) (auto simp: copy_category_fields)

lemma copy_all_categories:
  "foldl (copy_category c) no_claims ALL_CAPABILITY_CLAIM_CATEGORIES = c"
  by (rule claims_eqI) (simp_all add: foldl_copy_fields)

lemma validate_claims_json:
  assumes "wf_claims c"
  shows "validateCapabilityClaims (claims_json c) = Inr c"
proof -
  obtain kvs where kvs: "claims_json c = JObj kvs" by (simp add: claims_json_def)
  with claims_json_keys [OF kvs] show ?thesis
    by (simp add: validateCapabilityClaims_def validate_categories_json [OF kvs assms]
        copy_all_categories)
qed


section \<open>Properties\<close>

text \<open>
  What the validator accepts is well-formed (no empty pattern, no empty tenant), and the
  payload written for well-formed claims is accepted and read back as the same claims.
\<close>

theorem validateCapabilityClaims_roundtrip:
  "(validateCapabilityClaims raw = Inr c \<longrightarrow> wf_claims c) \<and>
   (wf_claims c \<longrightarrow> validateCapabilityClaims (claims_json c) = Inr c)"
  using validateCapabilityClaims_wf validate_claims_json by blast

theorem validateCapabilityClaims_roundtrip_witness:
  "validateCapabilityClaims
     (claims_json (no_claims\<lparr>cl_spawn := Some [''summarizer-*''], cl_tenant := Some ''acme'',
        cl_blackboard := Some \<lparr>bb_read = Some [''*''], bb_write = None\<rparr>\<rparr>)) =
   Inr (no_claims\<lparr>cl_spawn := Some [''summarizer-*''], cl_tenant := Some ''acme'',
        cl_blackboard := Some \<lparr>bb_read = Some [''*''], bb_write = None\<rparr>\<rparr>)"
  by (rule validateCapabilityClaims_roundtrip [THEN conjunct2, THEN mp])
    (simp add: wf_claims_def array_categories_def wf_patterns_def no_claims_def)

end
