(* ===== verification/Crds.thy ===== *)
theory Crds
  imports CapTtl ClaimsValidate
begin

text \<open>
  The custom resources as the components below read them: the fields of
  \<^verbatim>\<open>packages/operator/src/crds/types.ts\<close> and \<^verbatim>\<open>crds/tenant.ts\<close> that the modelled code
  accesses. An optional field is an option; metadata is flattened into the record.
\<close>

record owner_ref =
  ow_kind :: string
  ow_name :: "string option"
  ow_uid :: "string option"

record tenant =
  tn_name :: string
  tn_issuer :: "string option"
  tn_namespaceAllowlist :: "string list"

record agent =
  ag_namespace :: "string option"
  ag_name :: "string option"
  ag_tenantLabel :: "string option"
  ag_capabilityClaims :: "capability_claims option"
  ag_allowedChildAgents :: "string list option"
  ag_allowedChildTemplates :: "string list option"
  ag_publishes :: "string list option"
  ag_subscribes :: "string list option"
  ag_version :: "string option"

record agent_task =
  tk_uid :: "string option"
  tk_namespace :: "string option"
  tk_tenantLabel :: "string option"
  tk_targetAgent :: "string option"
  tk_runConfigTimeout :: "jsnum option"
  tk_timeoutSeconds :: "jsnum option"
  tk_idempotencyKey :: "string option"
  tk_agentVersion :: "string option"

definition resolveTenantIssuer :: "tenant \<Rightarrow> string option" where
  "resolveTenantIssuer t = tn_issuer t"

definition tenantAdmitsNamespace :: "tenant \<Rightarrow> string \<Rightarrow> bool" where
  "tenantAdmitsNamespace t ns \<longleftrightarrow> ns \<noteq> [] \<and> list_ex (\<lambda>n. n = ns) (tn_namespaceAllowlist t)"

end
