(* ===== verification/Disposition.thy ===== *)
theory Disposition
  imports Crds
begin

text \<open>
  The disposition overlay: \<^verbatim>\<open>packages/operator/src/disposition/proposal-tool-map.ts\<close> and
  \<^verbatim>\<open>narrow-by-overlay.ts\<close>. The overlay removes proposal tools from a claim set before the
  issuer narrows it by the parent's.
\<close>

datatype proposal_kind = Templates | Verifiers | CapabilityPolicy

definition PROPOSAL_KINDS :: "proposal_kind list" where
  "PROPOSAL_KINDS = [Templates, Verifiers, CapabilityPolicy]"

fun PROPOSAL_TOOL_MAP :: "proposal_kind \<Rightarrow> string list" where
  "PROPOSAL_TOOL_MAP Templates = [''write_artifact'']"
| "PROPOSAL_TOOL_MAP Verifiers = [''verifier_register'']"
| "PROPOSAL_TOOL_MAP CapabilityPolicy = [''capability_policy_propose'']"

definition classifyToolAsProposal :: "string \<Rightarrow> proposal_kind option" where
  "classifyToolAsProposal tool =
     List.find (\<lambda>k. List.member (PROPOSAL_TOOL_MAP k) tool) PROPOSAL_KINDS"

record disposition_overlay =
  ov_agentRef :: string
  ov_agentNamespace :: string
  ov_agentName :: string
  ov_configMapName :: string
  ov_configMapNamespace :: string
  ov_mayProposeAgainst :: "proposal_kind list"

record proposal_rejection =
  rj_tool :: string
  rj_kind :: proposal_kind
  rj_agentRef :: string
  rj_agentNamespace :: string
  rj_agentName :: string
  rj_configMapName :: string
  rj_configMapNamespace :: string
  rj_mayProposeAgainst :: "proposal_kind list"

definition rejection :: "disposition_overlay \<Rightarrow> string \<Rightarrow> proposal_kind \<Rightarrow> proposal_rejection" where
  "rejection ov tool kind =
     \<lparr>rj_tool = tool, rj_kind = kind, rj_agentRef = ov_agentRef ov,
      rj_agentNamespace = ov_agentNamespace ov, rj_agentName = ov_agentName ov,
      rj_configMapName = ov_configMapName ov, rj_configMapNamespace = ov_configMapNamespace ov,
      rj_mayProposeAgainst = ov_mayProposeAgainst ov\<rparr>"

text \<open>The loop over \<open>claims.tools\<close>: the kept tools and the rejections, in order.\<close>

fun narrow_tools ::
  "disposition_overlay \<Rightarrow> string list \<Rightarrow> string list \<times> proposal_rejection list" where
  "narrow_tools ov [] = ([], [])"
| "narrow_tools ov (tool # tools) =
     (let (kept, rej) = narrow_tools ov tools in
      case classifyToolAsProposal tool of
        None \<Rightarrow> (tool # kept, rej)
      | Some kind \<Rightarrow>
          (if kind \<in> set (ov_mayProposeAgainst ov) then (tool # kept, rej)
           else (kept, rejection ov tool kind # rej)))"

definition narrowByDispositionOverlay ::
  "capability_claims \<Rightarrow> disposition_overlay option \<Rightarrow> capability_claims \<times> proposal_rejection list"
where
  "narrowByDispositionOverlay claims overlay =
     (case overlay of
        None \<Rightarrow> (claims, [])
      | Some ov \<Rightarrow>
          (case cl_tools claims of
             None \<Rightarrow> (claims, [])
           | Some tools \<Rightarrow>
               (let (kept, rej) = narrow_tools ov tools in (claims\<lparr>cl_tools := Some kept\<rparr>, rej))))"

section \<open>Facts\<close>

definition overlay_admits :: "disposition_overlay \<Rightarrow> string \<Rightarrow> bool" where
  "overlay_admits ov tool \<longleftrightarrow>
     (case classifyToolAsProposal tool of None \<Rightarrow> True
      | Some kind \<Rightarrow> kind \<in> set (ov_mayProposeAgainst ov))"

lemma narrow_tools_kept: "fst (narrow_tools ov tools) = filter (overlay_admits ov) tools"
  by (induction tools) (auto simp: overlay_admits_def split: prod.split option.split)

lemma narrow_tools_rejections:
  "map rj_tool (snd (narrow_tools ov tools)) = filter (\<lambda>t. \<not> overlay_admits ov t) tools"
  by (induction tools) (auto simp: overlay_admits_def rejection_def split: prod.split option.split)

lemma claims_list_tools_update [simp]:
  "claims_list (c\<lparr>cl_tools := t\<rparr>) cat = (if cat = Tools then t else claims_list c cat)"
  by (cases cat) simp_all

lemma narrowByDispositionOverlay_eq:
  "narrowByDispositionOverlay claims overlay =
     (case overlay of
        None \<Rightarrow> (claims, [])
      | Some ov \<Rightarrow>
          (case cl_tools claims of
             None \<Rightarrow> (claims, [])
           | Some tools \<Rightarrow>
               (claims\<lparr>cl_tools := Some (filter (overlay_admits ov) tools)\<rparr>,
                snd (narrow_tools ov tools))))"
  using narrow_tools_kept
  by (auto simp: narrowByDispositionOverlay_def split: option.split prod.split) (metis fst_conv)

lemma patternListIsSubset_filter: "patternListIsSubset (Some (filter P xs)) (Some xs)"
  by (auto simp: patternListIsSubset_iff intro: globPatternIsSubset_refl)

lemma narrowByDispositionOverlay_subset:
  "claimsAreSubsetOf (fst (narrowByDispositionOverlay claims overlay)) claims"
  by (auto simp: claimsAreSubsetOf_iff narrowByDispositionOverlay_eq patternListIsSubset_filter
      split: option.split)


section \<open>Properties\<close>

text \<open>
  The overlay splits the tools claim: what is kept is exactly the admitted tools in order,
  what is reported is exactly the others, every other category passes through, and the result
  is never more authority than the input.
\<close>

theorem narrowByDispositionOverlay_partition:
  assumes "cl_tools claims = Some tools"
  shows "narrowByDispositionOverlay claims (Some ov) =
      (claims\<lparr>cl_tools := Some (filter (overlay_admits ov) tools)\<rparr>, snd (narrow_tools ov tools))
    \<and> map rj_tool (snd (narrowByDispositionOverlay claims (Some ov)))
        = filter (\<lambda>t. \<not> overlay_admits ov t) tools
    \<and> claimsAreSubsetOf (fst (narrowByDispositionOverlay claims (Some ov))) claims"
  using assms narrowByDispositionOverlay_subset [of claims "Some ov"]
  by (simp add: narrowByDispositionOverlay_eq narrow_tools_rejections)

definition templates_only_overlay :: disposition_overlay where
  "templates_only_overlay = \<lparr>ov_agentRef = ''ns/a'', ov_agentNamespace = ''ns'', ov_agentName = ''a'',
     ov_configMapName = ''cm'', ov_configMapNamespace = ''ns'', ov_mayProposeAgainst = [Templates]\<rparr>"

theorem narrowByDispositionOverlay_partition_witness:
  "cl_tools (fst (narrowByDispositionOverlay
     (no_claims\<lparr>cl_tools := Some [''http_get'', ''verifier_register'', ''write_artifact'']\<rparr>)
     (Some templates_only_overlay))) = Some [''http_get'', ''write_artifact'']"
  using narrowByDispositionOverlay_partition
    [of "no_claims\<lparr>cl_tools := Some [''http_get'', ''verifier_register'', ''write_artifact'']\<rparr>" _
      templates_only_overlay]
  by (simp add: overlay_admits_def classifyToolAsProposal_def PROPOSAL_KINDS_def
      templates_only_overlay_def)

text \<open>
  The classification is by literal tool name while the claim is a pattern: the tools claim
  \<open>verifier_*\<close> passes an overlay that excludes verifiers, and still authorises the excluded tool.
\<close>

theorem overlay_glob_bypass:
  "\<not> overlay_admits templates_only_overlay ''verifier_register'' \<and>
   authorizes (fst (narrowByDispositionOverlay
      (no_claims\<lparr>cl_tools := Some [''verifier_*'']\<rparr>) (Some templates_only_overlay)))
     Tools ''verifier_register''"
  by (simp add: narrowByDispositionOverlay_def classifyToolAsProposal_def PROPOSAL_KINDS_def
      overlay_admits_def templates_only_overlay_def authorizes_def globMatch_def
      glob_loop.simps skip_stars_def)

end
