(* ===== verification/CapIssuer.thy ===== *)
theory CapIssuer
  imports Disposition
begin

text \<open>
  The capability issuer, \<^verbatim>\<open>packages/operator/src/cap-issuer.ts\<close>, with the payload half of
  \<^verbatim>\<open>cap-ca.ts\<close> (\<open>mint\<close>) and the verifier of \<^verbatim>\<open>capability-types/src/jwt.ts\<close>. Signing and
  verifying a token is the jose library: a token is a value of a type \<open>'jwt\<close>, \<open>sign\<close> and
  \<open>verify\<close> are parameters. The overlay loader and the audit publisher are parameters too; what
  the issuer asks them to do is recorded in the result.
\<close>

section \<open>Claims of an agent\<close>

definition resolveAgentClaims :: "agent \<Rightarrow> capability_claims" where
  "resolveAgentClaims ag =
     (case ag_capabilityClaims ag of
        Some declared \<Rightarrow> declared
      | None \<Rightarrow>
          (let legacySpawn =
             filter (\<lambda>n. n \<noteq> []) (or_empty (ag_allowedChildAgents ag))
             @ map (\<lambda>t. ''template:'' @ t)
                 (filter (\<lambda>t. t \<noteq> []) (or_empty (ag_allowedChildTemplates ag)))
           in if legacySpawn \<noteq> [] then no_claims\<lparr>cl_spawn := Some legacySpawn\<rparr> else no_claims))"

section \<open>Narrowing by the parent\<close>

definition patternIsAdmittedByList :: "string \<Rightarrow> string list \<Rightarrow> bool" where
  "patternIsAdmittedByList child parent =
     (if parent = [] then False else list_ex (\<lambda>p. globPatternIsSubset child p) parent)"

definition admitted_patterns :: "string list option \<Rightarrow> string list option \<Rightarrow> string list" where
  "admitted_patterns child parent =
     filter (\<lambda>pat. patternIsAdmittedByList pat (or_empty parent)) (or_empty child)"

definition narrow_tenant :: "capability_claims \<Rightarrow> capability_claims \<Rightarrow> capability_claims \<Rightarrow> capability_claims"
where
  "narrow_tenant child parent out =
     (case cl_tenant child of
        Some ct \<Rightarrow>
          (if cl_tenant parent = None \<or> cl_tenant parent \<noteq> Some ct then out
           else out\<lparr>cl_tenant := Some ct\<rparr>)
      | None \<Rightarrow>
          (case cl_tenant parent of
             Some pt \<Rightarrow> out\<lparr>cl_tenant := Some pt\<rparr>
           | None \<Rightarrow> out))"

text \<open>One of the two lists of the nested claim; an empty result stays unset.\<close>

definition narrow_sub :: "string list option \<Rightarrow> string list option \<Rightarrow> string list option" where
  "narrow_sub child parent =
     (let filtered = admitted_patterns child parent in
      if filtered = [] then None else Some filtered)"

definition narrow_blackboard ::
  "capability_claims \<Rightarrow> capability_claims \<Rightarrow> capability_claims \<Rightarrow> capability_claims"
where
  "narrow_blackboard child parent out =
     (case cl_blackboard child of
        None \<Rightarrow> out
      | Some cbb \<Rightarrow>
          (let r = narrow_sub (bb_read cbb) (Option.bind (cl_blackboard parent) bb_read);
               w = narrow_sub (bb_write cbb) (Option.bind (cl_blackboard parent) bb_write)
           in if r \<noteq> None \<or> w \<noteq> None
              then out\<lparr>cl_blackboard := Some \<lparr>bb_read = r, bb_write = w\<rparr>\<rparr>
              else out))"

definition narrow_category ::
  "capability_claims \<Rightarrow> capability_claims \<Rightarrow> capability_claims \<Rightarrow> claim_category \<Rightarrow> capability_claims"
where
  "narrow_category child parent out cat =
     (if cat = TenantCat then narrow_tenant child parent out
      else if cat = Blackboard then narrow_blackboard child parent out
      else
        (let filtered = admitted_patterns (claims_list child cat) (claims_list parent cat) in
         if filtered \<noteq> [] then assignArrayCategory out cat filtered else out))"

definition narrowClaimsByParent :: "capability_claims \<Rightarrow> capability_claims \<Rightarrow> capability_claims" where
  "narrowClaimsByParent child parent =
     foldl (narrow_category child parent) no_claims ALL_CAPABILITY_CLAIM_CATEGORIES"

section \<open>Tenant and lifetime\<close>

definition applyTenantClaim :: "capability_claims \<Rightarrow> tenant option \<Rightarrow> capability_claims" where
  "applyTenantClaim claims tn =
     (case tn of
        None \<Rightarrow> claims
      | Some t \<Rightarrow>
          (if cl_tenant claims \<noteq> None \<and> cl_tenant claims \<noteq> Some [] then claims
           else if tn_name t = [] then claims
           else claims\<lparr>cl_tenant := Some (tn_name t)\<rparr>))"

definition positive_finite :: "jsnum option \<Rightarrow> rat option" where
  "positive_finite v = (case finite_number v of Some q \<Rightarrow> (if q > 0 then Some q else None) | None \<Rightarrow> None)"

definition pickTtlSeconds :: "agent_task \<Rightarrow> rat option" where
  "pickTtlSeconds task =
     (case positive_finite (tk_runConfigTimeout task) of
        Some q \<Rightarrow> Some (q + 60)
      | None \<Rightarrow>
          (case positive_finite (tk_timeoutSeconds task) of
             Some q \<Rightarrow> Some (q + 60)
           | None \<Rightarrow> None))"

definition task_timeout :: "agent_task \<Rightarrow> jsnum option" where
  "task_timeout task =
     (case tk_runConfigTimeout task of Some v \<Rightarrow> Some v | None \<Rightarrow> tk_timeoutSeconds task)"

definition applyTtlPolicy ::
  "agent_task \<Rightarrow> cap_ttl_policy option \<Rightarrow> rat option \<times> cap_ttl_decision option" where
  "applyTtlPolicy task policy =
     (case policy of
        None \<Rightarrow> (pickTtlSeconds task, None)
      | Some p \<Rightarrow>
          (let d = decideCapTtl (task_timeout task) p in (Some (ttlSeconds d), Some d)))"

section \<open>The CA's mint\<close>

record cap_ca =
  ca_issuer :: string
  ca_nowMs :: rat

record mint_cap_input =
  mi_subjectTaskUid :: string
  mi_subjectAgent :: "string option"
  mi_jti :: string
  mi_claims :: capability_claims
  mi_ttlSeconds :: "rat option"
  mi_audiences :: "string list option"
  mi_issuerOverride :: "string option"

record 'jwt mint_cap_result =
  mr_jwt :: 'jwt
  mr_jti :: string
  mr_expiresAt :: rat

definition mint_payload :: "cap_ca \<Rightarrow> mint_cap_input \<Rightarrow> json" where
  "mint_payload ca req =
     (let effectiveIssuer =
        (case mi_issuerOverride req of
           Some i \<Rightarrow> (if i \<noteq> [] then i else ca_issuer ca)
         | None \<Rightarrow> ca_issuer ca)
      in cap_jwt_payload
           \<lparr>bj_issuer = effectiveIssuer, bj_subjectTaskUid = mi_subjectTaskUid req,
            bj_subjectAgent = mi_subjectAgent req, bj_jti = mi_jti req, bj_claims = mi_claims req,
            bj_ttlSeconds = mi_ttlSeconds req, bj_audiences = mi_audiences req\<rparr>
           (ca_nowMs ca))"

definition payload_exp :: "json \<Rightarrow> rat" where
  "payload_exp j =
     (case object_fields j of
        None \<Rightarrow> 0
      | Some r \<Rightarrow> (case finite_json (obj_get r ''exp'') of Some q \<Rightarrow> q | None \<Rightarrow> 0))"

definition mint :: "(json \<Rightarrow> 'jwt) \<Rightarrow> cap_ca \<Rightarrow> mint_cap_input \<Rightarrow> 'jwt mint_cap_result" where
  "mint sign ca req =
     \<lparr>mr_jwt = sign (mint_payload ca req), mr_jti = mi_jti req,
      mr_expiresAt = payload_exp (mint_payload ca req)\<rparr>"

section \<open>Minting for a task\<close>

datatype mint_error =
    CapabilityViolation "subset_violation list" string
  | NoTaskUid
  | NoWorkflowUid

text \<open>
  \<open>in_loader\<close> is the overlay loader (its result an exception line or an overlay or none),
  \<open>in_hasPublisher\<close> and \<open>in_hasCoreApi\<close> say whether the optional collaborators are wired, and
  \<open>in_nonceHex\<close> is the random part of \<open>defaultJti\<close>.
\<close>

record mint_for_task_input =
  in_task :: agent_task
  in_agent :: agent
  in_parentBundle :: "capability_bundle option"
  in_jtiOverride :: "string option"
  in_tenant :: "tenant option"
  in_ttlPolicy :: "cap_ttl_policy option"
  in_loader :: "(string \<Rightarrow> string \<Rightarrow> string + disposition_overlay option) option"
  in_hasPublisher :: bool
  in_hasCoreApi :: bool
  in_nonceHex :: string

record 'jwt mint_for_task_result =
  mt_jwt :: 'jwt
  mt_jti :: string
  mt_issuer :: string
  mt_expiresAt :: rat
  mt_claims :: capability_claims
  mt_ttlDecision :: "cap_ttl_decision option"
  mt_rejections :: "proposal_rejection list"

text \<open>What the mint asked its collaborators: the rejection events, the counter increment.\<close>

record mint_effects =
  me_published :: "proposal_rejection list"
  me_countProposal :: bool

definition load_overlay :: "mint_for_task_input \<Rightarrow> disposition_overlay option" where
  "load_overlay i =
     (case in_loader i of
        None \<Rightarrow> None
      | Some f \<Rightarrow>
          (case f (js_or (ag_namespace (in_agent i)) []) (js_or (ag_name (in_agent i)) []) of
             Inl e \<Rightarrow> None
           | Inr ov \<Rightarrow> ov))"

definition defaultJti :: "string \<Rightarrow> string \<Rightarrow> string" where
  "defaultJti taskUid hex = ''cap-'' @ take 8 taskUid @ ''-'' @ hex"

definition subject_agent :: "mint_for_task_input \<Rightarrow> string" where
  "subject_agent i =
     (case ag_namespace (in_agent i) of Some n \<Rightarrow> n
      | None \<Rightarrow> js_or (tk_namespace (in_task i)) ''default'')
     @ ''/'' @
     (case ag_name (in_agent i) of Some n \<Rightarrow> n
      | None \<Rightarrow> js_or (tk_targetAgent (in_task i)) ''undefined'')"

text \<open>The request the issuer hands to the CA.\<close>

definition task_mint_request :: "mint_for_task_input \<Rightarrow> capability_claims \<Rightarrow> string \<Rightarrow> mint_cap_input"
where
  "task_mint_request i withTenant taskUid =
     \<lparr>mi_subjectTaskUid = taskUid, mi_subjectAgent = Some (subject_agent i),
      mi_jti = js_or (in_jtiOverride i) (defaultJti taskUid (in_nonceHex i)),
      mi_claims = withTenant,
      mi_ttlSeconds = fst (applyTtlPolicy (in_task i) (in_ttlPolicy i)),
      mi_audiences = None, mi_issuerOverride = Option.bind (in_tenant i) resolveTenantIssuer\<rparr>"

definition mintCapabilityForTask ::
  "(json \<Rightarrow> 'jwt) \<Rightarrow> cap_ca \<Rightarrow> mint_for_task_input
    \<Rightarrow> (mint_error + 'jwt mint_for_task_result) \<times> mint_effects"
where
  "mintCapabilityForTask sign ca i =
     (let agentClaims = resolveAgentClaims (in_agent i);
          overlay = load_overlay i;
          (overlayClaims, rejections) = narrowByDispositionOverlay agentClaims overlay;
          published = (if in_hasPublisher i then rejections else []);
          narrowed = (case in_parentBundle i of
              None \<Rightarrow> overlayClaims
            | Some pb \<Rightarrow> narrowClaimsByParent overlayClaims (cb_claims pb));
          violations = (case in_parentBundle i of
              None \<Rightarrow> []
            | Some pb \<Rightarrow> claimsSubsetViolations narrowed (cb_claims pb));
          failed = \<lparr>me_published = published, me_countProposal = False\<rparr>
      in
      if violations \<noteq> [] then
        (Inl (CapabilityViolation violations
           (case in_parentBundle i of Some pb \<Rightarrow> cb_jti pb | None \<Rightarrow> [])), failed)
      else
        (let withTenant = applyTenantClaim narrowed (in_tenant i);
             taskUid = js_or (tk_uid (in_task i)) []
         in
         if taskUid = [] then (Inl NoTaskUid, failed)
         else
           (let tenantIssuer = Option.bind (in_tenant i) resolveTenantIssuer;
                res = mint sign ca (task_mint_request i withTenant taskUid);
                hasProposalTool =
                  list_ex (\<lambda>t. classifyToolAsProposal t \<noteq> None) (or_empty (cl_tools withTenant))
            in (Inr \<lparr>mt_jwt = mr_jwt res, mt_jti = mr_jti res,
                     mt_issuer = js_or tenantIssuer (ca_issuer ca),
                     mt_expiresAt = mr_expiresAt res, mt_claims = withTenant,
                     mt_ttlDecision = snd (applyTtlPolicy (in_task i) (in_ttlPolicy i)),
                     mt_rejections = rejections\<rparr>,
                \<lparr>me_published = published,
                 me_countProposal = (overlay \<noteq> None \<and> in_hasCoreApi i \<and> hasProposalTool)\<rparr>))))"

section \<open>Minting for a workflow\<close>

record mint_for_workflow_input =
  wf_uid :: "string option"
  wf_capabilityClaims :: "capability_claims option"
  wf_tenantCeiling :: "capability_claims option"
  wf_jtiOverride :: "string option"
  wf_tenant :: "tenant option"
  wf_nonceHex :: string

definition defaultWorkflowJti :: "string \<Rightarrow> string \<Rightarrow> string" where
  "defaultWorkflowJti workflowUid hex = ''cap-wf-'' @ take 8 workflowUid @ ''-'' @ hex"

definition resolveWorkflowClaims :: "mint_for_workflow_input \<Rightarrow> capability_claims" where
  "resolveWorkflowClaims i = js_or (wf_capabilityClaims i) no_claims"

definition workflow_mint_request :: "mint_for_workflow_input \<Rightarrow> capability_claims \<Rightarrow> string \<Rightarrow> mint_cap_input"
where
  "workflow_mint_request i withTenant workflowUid =
     \<lparr>mi_subjectTaskUid = ''workflow:'' @ workflowUid, mi_subjectAgent = None,
      mi_jti = js_or (wf_jtiOverride i) (defaultWorkflowJti workflowUid (wf_nonceHex i)),
      mi_claims = withTenant, mi_ttlSeconds = None, mi_audiences = None,
      mi_issuerOverride = Option.bind (wf_tenant i) resolveTenantIssuer\<rparr>"

definition mintCapabilityForWorkflow ::
  "(json \<Rightarrow> 'jwt) \<Rightarrow> cap_ca \<Rightarrow> mint_for_workflow_input \<Rightarrow> mint_error + 'jwt mint_for_task_result"
where
  "mintCapabilityForWorkflow sign ca i =
     (let declared = resolveWorkflowClaims i;
          narrowed = (case wf_tenantCeiling i of
              None \<Rightarrow> declared
            | Some ceil \<Rightarrow> narrowClaimsByParent declared ceil);
          violations = (case wf_tenantCeiling i of
              None \<Rightarrow> []
            | Some ceil \<Rightarrow> claimsSubsetViolations narrowed ceil)
      in
      if violations \<noteq> [] then Inl (CapabilityViolation violations ''<tenant-ceiling>'')
      else
        (let workflowUid = js_or (wf_uid i) [] in
         if workflowUid = [] then Inl NoWorkflowUid
         else
           (let withTenant = applyTenantClaim narrowed (wf_tenant i);
                res = mint sign ca (workflow_mint_request i withTenant workflowUid)
            in Inr \<lparr>mt_jwt = mr_jwt res, mt_jti = mr_jti res,
                    mt_issuer = js_or (Option.bind (wf_tenant i) resolveTenantIssuer) (ca_issuer ca),
                    mt_expiresAt = mr_expiresAt res, mt_claims = withTenant,
                    mt_ttlDecision = None, mt_rejections = []\<rparr>)))"

section \<open>Verification\<close>

text \<open>
  \<open>verify jwt issuer\<close> is \<open>jwtVerify\<close> with the accepted algorithms, the substrate audience and
  the expected issuer: an error line or the payload.
\<close>

datatype verify_error = JoseError string | BadBundle string | BadTime time_error

definition verifyCapabilityJwt ::
  "('jwt \<Rightarrow> string \<Rightarrow> string + json) \<Rightarrow> 'jwt \<Rightarrow> string \<Rightarrow> rat \<Rightarrow> verify_error + capability_bundle"
where
  "verifyCapabilityJwt verify jwt expectedIssuer nowSec =
     (case verify jwt expectedIssuer of
        Inl e \<Rightarrow> Inl (JoseError e)
      | Inr payload \<Rightarrow>
          (case validateCapabilityBundle payload of
             Inl e \<Rightarrow> Inl (BadBundle e)
           | Inr b \<Rightarrow>
               (case bundleTimeError b nowSec of
                  Some te \<Rightarrow> Inl (BadTime te)
                | None \<Rightarrow> Inr b)))"

text \<open>\<open>bundleAdmits\<close> of \<^verbatim>\<open>packages/agent-pod/src/cap-consumer.ts\<close>.\<close>

definition bundleAdmits :: "capability_bundle option \<Rightarrow> claim_category \<Rightarrow> string \<Rightarrow> bool" where
  "bundleAdmits b cat target =
     (case b of
        None \<Rightarrow> False
      | Some bd \<Rightarrow>
          (if cat = TenantCat then cl_tenant (cb_claims bd) = Some target
           else globMatchAny (claims_list (cb_claims bd) cat) target))"

section \<open>Facts about narrowing\<close>

lemma patternIsAdmittedByList_iff:
  "patternIsAdmittedByList c ps \<longleftrightarrow> (\<exists>p\<in>set ps. globPatternIsSubset c p)"
  by (auto simp: patternIsAdmittedByList_def list_ex_iff)

text \<open>The narrowed list as an option: unset when nothing is left.\<close>

lemma narrow_category_fields:
  "claims_list (narrow_category child parent out cat) cat' =
     (if cat' = cat \<and> admitted_patterns (claims_list child cat) (claims_list parent cat) \<noteq> []
      then Some (admitted_patterns (claims_list child cat) (claims_list parent cat))
      else claims_list out cat')"
proof -
  consider "cat = TenantCat" | "cat = Blackboard" | "cat \<in> set array_categories"
    by (auto simp: set_array_categories)
  then show ?thesis
  proof cases
    case 1
    then show ?thesis
      by (auto simp: narrow_category_def narrow_tenant_def admitted_patterns_def
          split: option.split)
  next
    case 2
    then show ?thesis
      by (auto simp: narrow_category_def narrow_blackboard_def admitted_patterns_def Let_def
          split: option.split)
  next
    case 3
    then show ?thesis
      by (auto simp: narrow_category_def Let_def claims_list_assign set_array_categories)
  qed
qed

lemma narrow_category_tenant:
  "cl_tenant (narrow_category child parent out cat) =
     (if cat = TenantCat then cl_tenant (narrow_tenant child parent out) else cl_tenant out)"
  by (auto simp: narrow_category_def narrow_blackboard_def Let_def split: option.split)

lemma narrow_category_blackboard:
  "cl_blackboard (narrow_category child parent out cat) =
     (if cat = Blackboard then cl_blackboard (narrow_blackboard child parent out)
      else cl_blackboard out)"
  by (auto simp: narrow_category_def narrow_tenant_def Let_def split: option.split)

lemma foldl_narrow_list:
  "claims_list (foldl (narrow_category child parent) out cats) cat =
     (if cat \<in> set cats \<and> admitted_patterns (claims_list child cat) (claims_list parent cat) \<noteq> []
      then Some (admitted_patterns (claims_list child cat) (claims_list parent cat))
      else claims_list out cat)"
  by (induction cats arbitrary: out) (auto simp: narrow_category_fields)

text \<open>The narrowed claims, category by category.\<close>

lemma narrowClaimsByParent_list:
  "claims_list (narrowClaimsByParent child parent) cat =
     narrow_sub (claims_list child cat) (claims_list parent cat)"
  by (simp add: narrowClaimsByParent_def foldl_narrow_list narrow_sub_def Let_def)

lemmas narrowClaimsByParent_spawn = narrowClaimsByParent_list [of _ _ Spawn, simplified]

lemma narrowClaimsByParent_tenant:
  "cl_tenant (narrowClaimsByParent child parent) =
     (case cl_tenant child of
        Some ct \<Rightarrow> (if cl_tenant parent = Some ct then Some ct else None)
      | None \<Rightarrow> cl_tenant parent)"
  by (auto simp: narrowClaimsByParent_def ALL_CAPABILITY_CLAIM_CATEGORIES_def
      narrow_category_tenant narrow_tenant_def split: option.split)

lemma narrowClaimsByParent_blackboard:
  "Option.bind (cl_blackboard (narrowClaimsByParent child parent)) bb_read =
     narrow_sub (Option.bind (cl_blackboard child) bb_read)
       (Option.bind (cl_blackboard parent) bb_read)"
  "Option.bind (cl_blackboard (narrowClaimsByParent child parent)) bb_write =
     narrow_sub (Option.bind (cl_blackboard child) bb_write)
       (Option.bind (cl_blackboard parent) bb_write)"
  by (auto simp: narrowClaimsByParent_def ALL_CAPABILITY_CLAIM_CATEGORIES_def
      narrow_category_blackboard narrow_blackboard_def Let_def narrow_sub_def
      admitted_patterns_def split: option.splits)

lemma or_empty_narrow_sub [simp]: "or_empty (narrow_sub c p) = admitted_patterns c p"
  by (simp add: narrow_sub_def Let_def)

lemma narrow_sub_subset: "patternListIsSubset (narrow_sub c p) p"
  by (auto simp: patternListIsSubset_iff admitted_patterns_def patternIsAdmittedByList_iff)

lemma narrow_sub_subset_child: "patternListIsSubset (narrow_sub c p) c"
  by (auto simp: patternListIsSubset_iff admitted_patterns_def intro: globPatternIsSubset_refl)

lemma narrowClaimsByParent_subset: "claimsAreSubsetOf (narrowClaimsByParent child parent) parent"
  by (auto simp: claimsAreSubsetOf_iff narrowClaimsByParent_list narrowClaimsByParent_tenant
      narrowClaimsByParent_blackboard narrow_sub_subset split: option.split)

lemma narrowClaimsByParent_no_violations:
  "claimsSubsetViolations (narrowClaimsByParent child parent) parent = []"
  using narrowClaimsByParent_subset by (simp add: claimsAreSubsetOf_def)


section \<open>The composition rule as an interface\<close>

text \<open>
  What a chain of spawns relies on: an order of authority, transitive on the grants that are
  clean, and an operation that narrows a request by a grant. Whoever provides these bounds every
  lineage by its root.
\<close>

locale spawn_order =
  fixes sub :: "'c \<Rightarrow> 'c \<Rightarrow> bool"
    and clean :: "'c \<Rightarrow> bool"
    and narrow :: "'c \<Rightarrow> 'c \<Rightarrow> 'c"
  assumes sub_refl: "sub c c"
    and sub_trans: "sub a b \<Longrightarrow> sub b c \<Longrightarrow> clean b \<Longrightarrow> clean c \<Longrightarrow> sub a c"
    and narrow_sub: "sub (narrow c p) p"
    and narrow_clean: "clean c \<Longrightarrow> clean (narrow c p)"
begin

lemma lineage_clean:
  "clean granted \<Longrightarrow> list_all clean requests \<Longrightarrow> clean (foldl (\<lambda>p c. narrow c p) granted requests)"
  by (induction requests arbitrary: granted) (auto intro: narrow_clean)

lemma lineage_sub:
  assumes "clean granted" "list_all clean requests"
  shows "sub (foldl (\<lambda>p c. narrow c p) granted requests) granted"
  using assms
proof (induction requests rule: rev_induct)
  case Nil
  then show ?case by (simp add: sub_refl)
next
  case (snoc c requests)
  then show ?case
    by (auto intro: sub_trans [OF narrow_sub] lineage_clean)
qed

end

lemma nul_free_admitted: "nul_free c \<Longrightarrow> nul_free (narrow_sub c p)"
  by (auto simp: nul_free_def admitted_patterns_def list_all_iff)

lemma narrow_nul_free: "nul_free_claims c \<Longrightarrow> nul_free_claims (narrowClaimsByParent c p)"
  unfolding nul_free_claims_def
  by (simp add: narrowClaimsByParent_list narrowClaimsByParent_blackboard nul_free_admitted
      list_all_iff)

interpretation claims_order: spawn_order claimsAreSubsetOf nul_free_claims narrowClaimsByParent
  by unfold_locales
    (auto intro: claimsAreSubsetOf_refl claimsAreSubsetOf_trans narrowClaimsByParent_subset
      narrow_nul_free)

definition lineage :: "capability_claims \<Rightarrow> capability_claims list \<Rightarrow> capability_claims" where
  "lineage granted requests = foldl (\<lambda>p c. narrowClaimsByParent c p) granted requests"

lemma narrowing_lineage:
  "nul_free_claims granted \<Longrightarrow> list_all nul_free_claims requests \<Longrightarrow> claimsAreSubsetOf (lineage granted requests) granted"
  unfolding lineage_def by (rule claims_order.lineage_sub)

section \<open>Facts about minting\<close>

lemma applyTenantClaim_fields [simp]:
  "claims_list (applyTenantClaim c t) cat = claims_list c cat"
  "cl_blackboard (applyTenantClaim c t) = cl_blackboard c"
  by (auto simp: applyTenantClaim_def split: option.split)

lemma mint_claims:
  assumes "fst (mintCapabilityForTask sign ca i) = Inr r"
  shows "mt_claims r = applyTenantClaim
    (case in_parentBundle i of
       None \<Rightarrow> fst (narrowByDispositionOverlay (resolveAgentClaims (in_agent i)) (load_overlay i))
     | Some pb \<Rightarrow> narrowClaimsByParent
         (fst (narrowByDispositionOverlay (resolveAgentClaims (in_agent i)) (load_overlay i)))
         (cb_claims pb)) (in_tenant i)"
  using assms
  by (auto simp: mintCapabilityForTask_def Let_def split: prod.splits option.splits if_splits)

lemma mint_result:
  assumes "fst (mintCapabilityForTask sign ca i) = Inr r"
  shows "mt_jwt r = mr_jwt (mint sign ca
      (task_mint_request i (mt_claims r) (js_or (tk_uid (in_task i)) [])))"
    "mt_expiresAt r = mr_expiresAt (mint sign ca
      (task_mint_request i (mt_claims r) (js_or (tk_uid (in_task i)) [])))"
    "mt_jti r = mi_jti (task_mint_request i (mt_claims r) (js_or (tk_uid (in_task i)) []))"
    "mt_issuer r = js_or (Option.bind (in_tenant i) resolveTenantIssuer) (ca_issuer ca)"
  using assms
  by (auto simp: mintCapabilityForTask_def Let_def mint_def
      split: prod.splits option.splits if_splits)

lemma mint_never_violates:
  "fst (mintCapabilityForTask sign ca i) \<noteq> Inl (CapabilityViolation vs j)"
  by (auto simp: mintCapabilityForTask_def Let_def narrowClaimsByParent_no_violations
      split: prod.splits option.splits if_splits)

lemma obj_get_Cons [simp]:
  "obj_get ((k, v) # kvs) k' = (if k' = k then v else obj_get kvs k')"
  by (simp add: obj_get_def)

lemma obj_get_append_opt [simp]:
  "obj_get (opt_entry k v @ kvs) k' =
     (if k' = k \<and> v \<noteq> None then the v else obj_get kvs k')"
  by (auto simp: obj_get_def opt_entry_def split: option.split)

lemma obj_get_Nil [simp]: "obj_get [] k = JUndefined"
  by (simp add: obj_get_def)

lemma validate_audience_json:
  "[] \<notin> set xs \<Longrightarrow> KAGENT_SUBSTRATE_AUDIENCE \<in> set xs \<Longrightarrow>
    validate_audience (strings_json xs) = Inr xs"
  by (auto simp: validate_audience_def strings_json_def collect_strings_map)

text \<open>The payload of a signed token passes the bundle validator.\<close>

lemma validate_cap_jwt_payload:
  assumes "wf_claims (bj_claims input)" "bj_issuer input \<noteq> []" "bj_jti input \<noteq> []"
    "bj_audiences input = None"
  shows "validateCapabilityBundle (cap_jwt_payload input nowMs) = Inr
    \<lparr>cb_iss = bj_issuer input, cb_sub = ''task-uid:'' @ bj_subjectTaskUid input,
     cb_aud = [KAGENT_SUBSTRATE_AUDIENCE],
     cb_exp = of_int \<lfloor>nowMs / 1000\<rfloor> + js_or (bj_ttlSeconds input) DEFAULT_CAP_JWT_TTL_SECONDS,
     cb_iat = Some (of_int \<lfloor>nowMs / 1000\<rfloor>), cb_nbf = None, cb_jti = bj_jti input,
     cb_agt = Option.bind (bj_subjectAgent input) (\<lambda>s. if s = [] then None else Some s),
     cb_claims = bj_claims input\<rparr>"
proof -
  have aud: "validate_audience (strings_json [KAGENT_SUBSTRATE_AUDIENCE]) =
      Inr [KAGENT_SUBSTRATE_AUDIENCE]"
    by (rule validate_audience_json) (simp_all add: KAGENT_SUBSTRATE_AUDIENCE_def)
  show ?thesis
    using assms aud
    by (auto simp: validateCapabilityBundle_def cap_jwt_payload_def Let_def object_fields_def
        required_string_def nonempty_string_def finite_json_def optional_number_ok_def
        validate_claims_json split: option.split)
qed

lemma payload_exp_cap_jwt:
  "payload_exp (cap_jwt_payload input nowMs) =
     of_int \<lfloor>nowMs / 1000\<rfloor> + js_or (bj_ttlSeconds input) DEFAULT_CAP_JWT_TTL_SECONDS"
  by (auto simp: payload_exp_def cap_jwt_payload_def Let_def object_fields_def finite_json_def
      split: option.split)

text \<open>
  A value that \<open>JSON.parse (JSON.stringify v)\<close> gives back: no member is undefined, no number is
  infinite or NaN, no key occurs twice.
\<close>

fun json_faithful :: "json \<Rightarrow> bool" where
  "json_faithful JUndefined = False"
| "json_faithful (JNum n) = (n \<noteq> NonFinite)"
| "json_faithful (JArr xs) = list_all json_faithful xs"
| "json_faithful (JObj kvs) = (distinct (map fst kvs) \<and> list_all (\<lambda>kv. json_faithful (snd kv)) kvs)"
| "json_faithful _ = True"

text \<open>
  What jose documents of \<open>SignJWT\<close> and \<open>jwtVerify\<close> under one pair of keys: the payload travels as
  JSON text, and the verification accepts it when the issuer is the expected one, the audience
  contains the substrate's, \<open>exp\<close> is a number in the future, \<open>nbf\<close> is absent and \<open>iat\<close>, if present,
  is a number.
\<close>

definition jose_contract ::
  "(json \<Rightarrow> 'jwt) \<Rightarrow> ('jwt \<Rightarrow> string \<Rightarrow> string + json) \<Rightarrow> rat \<Rightarrow> bool" where
  "jose_contract sign verify nowSec \<longleftrightarrow>
     (\<forall>r iss aud e.
        json_faithful (JObj r) \<longrightarrow> obj_get r ''iss'' = JStr iss \<longrightarrow> obj_get r ''aud'' = strings_json aud \<longrightarrow>
        KAGENT_SUBSTRATE_AUDIENCE \<in> set aud \<longrightarrow>
        obj_get r ''exp'' = JNum (Fin e) \<longrightarrow> nowSec < e \<longrightarrow> obj_get r ''nbf'' = JUndefined \<longrightarrow>
        (obj_get r ''iat'' = JUndefined \<or> (\<exists>t. obj_get r ''iat'' = JNum (Fin t))) \<longrightarrow>
        verify (sign (JObj r)) iss = Inr (JObj r))"

lemma faithful_strings [simp]: "json_faithful (strings_json xs)"
  by (auto simp: strings_json_def list_all_iff)

lemma faithful_opt_entry [simp]:
  "list_all (\<lambda>kv. json_faithful (snd kv)) (opt_entry k v) = (\<forall>j. v = Some j \<longrightarrow> json_faithful j)"
  "map fst (opt_entry k v) = (if v = None then [] else [k])"
  by (auto simp: opt_entry_def split: option.split)

lemma faithful_blackboard: "json_faithful (blackboard_json bb)"
  by (auto simp: blackboard_json_def)

lemma faithful_category: "category_json c cat = Some j \<Longrightarrow> json_faithful j"
  by (auto simp: category_json_def faithful_blackboard split: if_splits)

lemma entry_keys:
  "fst ` set (concat (map (\<lambda>cat. opt_entry (category_name cat) (f cat)) cats)) \<subseteq> category_name ` set cats"
  by (induction cats) (auto simp: opt_entry_def split: option.splits)

lemma entry_keys_distinct:
  "distinct cats \<Longrightarrow> distinct (map fst (concat (map (\<lambda>cat. opt_entry (category_name cat) (f cat)) cats)))"
proof (induction cats)
  case (Cons cat cats)
  have "category_name cat \<notin> category_name ` set cats" using Cons.prems by auto
  then have "category_name cat \<notin> fst ` set (concat (map (\<lambda>cat. opt_entry (category_name cat) (f cat)) cats))"
    using entry_keys [of f cats] by blast
  then show ?case using Cons by simp
qed simp

lemma entries_faithful:
  "list_all (\<lambda>kv. json_faithful (snd kv)) (concat (map (\<lambda>cat. opt_entry (category_name cat) (category_json c cat)) cats))"
  by (induction cats) (auto dest: faithful_category)

lemma faithful_claims: "json_faithful (claims_json c)"
  by (simp add: claims_json_def entries_faithful entry_keys_distinct ALL_CAPABILITY_CLAIM_CATEGORIES_def
      del: concat.simps list.map)

lemma faithful_payload: "json_faithful (cap_jwt_payload input nowMs)"
  by (auto simp: cap_jwt_payload_def Let_def faithful_claims)

lemma verify_minted:
  assumes jose: "jose_contract sign verify nowSec"
    and wf: "wf_claims (mi_claims req)" and jti: "mi_jti req \<noteq> []"
    and aud: "mi_audiences req = None"
    and iss: "iss = (case mi_issuerOverride req of
       Some i \<Rightarrow> (if i \<noteq> [] then i else ca_issuer ca) | None \<Rightarrow> ca_issuer ca)" "iss \<noteq> []"
    and live: "nowSec < mr_expiresAt (mint sign ca req)"
  shows "\<exists>b. verifyCapabilityJwt verify (mr_jwt (mint sign ca req)) iss nowSec = Inr b \<and>
    cb_claims b = mi_claims req \<and> cb_jti b = mi_jti req \<and>
    cb_sub b = ''task-uid:'' @ mi_subjectTaskUid req \<and> cb_iss b = iss \<and>
    cb_exp b = mr_expiresAt (mint sign ca req)"
proof -
  define inp where "inp = \<lparr>bj_issuer = iss, bj_subjectTaskUid = mi_subjectTaskUid req,
    bj_subjectAgent = mi_subjectAgent req, bj_jti = mi_jti req, bj_claims = mi_claims req,
    bj_ttlSeconds = mi_ttlSeconds req, bj_audiences = mi_audiences req\<rparr>"
  have pl: "mint_payload ca req = cap_jwt_payload inp (ca_nowMs ca)"
    using iss(1) by (simp add: mint_payload_def inp_def Let_def)
  have ex: "mr_expiresAt (mint sign ca req) =
      of_int \<lfloor>ca_nowMs ca / 1000\<rfloor> + js_or (bj_ttlSeconds inp) DEFAULT_CAP_JWT_TTL_SECONDS"
    by (simp add: mint_def pl payload_exp_cap_jwt)
  obtain r where r: "cap_jwt_payload inp (ca_nowMs ca) = JObj r"
    by (simp add: cap_jwt_payload_def Let_def)
  have "verify (sign (JObj r)) iss = Inr (JObj r)"
    using jose live ex r aud faithful_payload [of inp "ca_nowMs ca"] unfolding jose_contract_def
    by (auto simp: cap_jwt_payload_def Let_def inp_def simp del: json_faithful.simps split: option.splits)
  moreover have "validateCapabilityBundle (JObj r) = Inr
    \<lparr>cb_iss = iss, cb_sub = ''task-uid:'' @ mi_subjectTaskUid req,
     cb_aud = [KAGENT_SUBSTRATE_AUDIENCE], cb_exp = mr_expiresAt (mint sign ca req),
     cb_iat = Some (of_int \<lfloor>ca_nowMs ca / 1000\<rfloor>), cb_nbf = None, cb_jti = mi_jti req,
     cb_agt = Option.bind (mi_subjectAgent req) (\<lambda>s. if s = [] then None else Some s),
     cb_claims = mi_claims req\<rparr>"
    unfolding r [symmetric] ex using wf jti iss(2) aud
    by (subst validate_cap_jwt_payload) (simp_all add: inp_def)
  ultimately show ?thesis
    using live by (simp add: verifyCapabilityJwt_def mint_def pl r bundleTimeError_def)
qed


section \<open>Chains of mints\<close>

text \<open>
  A chain of spawns: every input is minted under the bundle the mint before it issued. The chain
  breaks where a mint fails.
\<close>

fun mint_lineage ::
  "(json \<Rightarrow> 'jwt) \<Rightarrow> cap_ca \<Rightarrow> capability_bundle \<Rightarrow> mint_for_task_input list \<Rightarrow> capability_bundle option" where
  "mint_lineage sign ca granted [] = Some granted"
| "mint_lineage sign ca granted (i # inputs) =
     (case fst (mintCapabilityForTask sign ca (i\<lparr>in_parentBundle := Some granted\<rparr>)) of
        Inl e \<Rightarrow> None
      | Inr r \<Rightarrow> mint_lineage sign ca (granted\<lparr>cb_jti := mt_jti r, cb_claims := mt_claims r\<rparr>) inputs)"

definition same_patterns :: "capability_claims \<Rightarrow> capability_claims \<Rightarrow> bool" where
  "same_patterns a b \<longleftrightarrow> (\<forall>cat. claims_list a cat = claims_list b cat) \<and>
     Option.bind (cl_blackboard a) bb_read = Option.bind (cl_blackboard b) bb_read \<and>
     Option.bind (cl_blackboard a) bb_write = Option.bind (cl_blackboard b) bb_write"

definition overlaid :: "mint_for_task_input \<Rightarrow> capability_claims" where
  "overlaid i = fst (narrowByDispositionOverlay (resolveAgentClaims (in_agent i)) (load_overlay i))"

lemma narrow_same_patterns:
  "same_patterns a b \<Longrightarrow> same_patterns (narrowClaimsByParent c a) (narrowClaimsByParent c b)"
  by (simp add: same_patterns_def narrowClaimsByParent_list narrowClaimsByParent_blackboard)

lemma lineage_same_patterns: "same_patterns a b \<Longrightarrow> same_patterns (lineage a cs) (lineage b cs)"
  by (induction cs arbitrary: a b) (simp_all add: lineage_def narrow_same_patterns)

lemma same_patterns_trans: "same_patterns a b \<Longrightarrow> same_patterns b c \<Longrightarrow> same_patterns a c"
  by (simp add: same_patterns_def)

lemma load_overlay_parent [simp]: "load_overlay (i\<lparr>in_parentBundle := p\<rparr>) = load_overlay i"
  by (simp add: load_overlay_def cong: option.case_cong)

lemma child_mint_claims:
  assumes "fst (mintCapabilityForTask sign ca (i\<lparr>in_parentBundle := Some pb\<rparr>)) = Inr r"
  shows "mt_claims r = applyTenantClaim (narrowClaimsByParent (overlaid i) (cb_claims pb)) (in_tenant i)"
  using mint_claims [OF assms] by (simp add: overlaid_def)

lemma mint_lineage_patterns:
  "mint_lineage sign ca granted inputs = Some b \<Longrightarrow>
   same_patterns (cb_claims b) (lineage (cb_claims granted) (map overlaid inputs))"
proof (induction inputs arbitrary: granted)
  case Nil
  then show ?case by (simp add: same_patterns_def lineage_def)
next
  case (Cons i inputs)
  then obtain r where r: "fst (mintCapabilityForTask sign ca (i\<lparr>in_parentBundle := Some granted\<rparr>)) = Inr r"
    "mint_lineage sign ca (granted\<lparr>cb_jti := mt_jti r, cb_claims := mt_claims r\<rparr>) inputs = Some b"
    by (auto split: sum.splits)
  have "same_patterns (mt_claims r) (narrowClaimsByParent (overlaid i) (cb_claims granted))"
    by (simp add: child_mint_claims [OF r(1)] same_patterns_def)
  from same_patterns_trans [OF _ lineage_same_patterns [OF this]] Cons.IH [OF r(2)]
  show ?case by (simp add: lineage_def)
qed

lemma mint_lineage_tenant:
  "mint_lineage sign ca granted inputs = Some b \<Longrightarrow>
   cl_tenant (cb_claims b) \<in> {None, cl_tenant (cb_claims granted)} \<union>
     (\<Union>i \<in> set inputs. (\<lambda>t. Some (tn_name t)) ` set_option (in_tenant i))"
proof (induction inputs arbitrary: granted)
  case (Cons i inputs)
  then obtain r where r: "fst (mintCapabilityForTask sign ca (i\<lparr>in_parentBundle := Some granted\<rparr>)) = Inr r"
    "mint_lineage sign ca (granted\<lparr>cb_jti := mt_jti r, cb_claims := mt_claims r\<rparr>) inputs = Some b"
    by (auto split: sum.splits)
  have "cl_tenant (mt_claims r) \<in> {None, cl_tenant (cb_claims granted)} \<union> (\<lambda>t. Some (tn_name t)) ` set_option (in_tenant i)"
    by (auto simp: child_mint_claims [OF r(1)] applyTenantClaim_def narrowClaimsByParent_tenant split: option.split)
  with Cons.IH [OF r(2)] show ?case by auto
qed simp

lemma overlaid_nul_free: "nul_free_claims (resolveAgentClaims (in_agent i)) \<Longrightarrow> nul_free_claims (overlaid i)"
  by (auto simp: overlaid_def narrowByDispositionOverlay_def narrow_tools_kept nul_free_claims_def array_categories_def
      nul_free_def list_all_iff split: option.split prod.split dest!: arg_cong [of _ _ fst])

lemma same_patterns_authorize:
  assumes "same_patterns a b"
  shows "authorizes a cat t = authorizes b cat t" "bb_authorizes_read a t = bb_authorizes_read b t"
    "bb_authorizes_write a t = bb_authorizes_write b t"
  using assms by (simp_all add: same_patterns_def authorizes_def bb_authorizes_read_def bb_authorizes_write_def)

section \<open>Properties\<close>

text \<open>
  C1. A chain of child mints does not escalate. If no pattern of the root or of an agent on the way
  contains the NUL character (the sentinel of the subset test) and the target contains no star,
  then what the last bundle admits in a pattern category, or for reading or writing on the
  blackboard, the root admits. The tenant is not bounded by the root: it is unset, the root's, or the
  name of the tenant resource of a mint on the way.
\<close>

theorem lineage_no_escalation:
  assumes "mint_lineage sign ca granted inputs = Some b"
    and "nul_free_claims (cb_claims granted)"
    and "\<forall>i \<in> set inputs. nul_free_claims (resolveAgentClaims (in_agent i))"
    and "star \<notin> set target"
  shows "(cat \<noteq> TenantCat \<longrightarrow> bundleAdmits (Some b) cat target \<longrightarrow> bundleAdmits (Some granted) cat target) \<and>
    (bb_authorizes_read (cb_claims b) target \<longrightarrow> bb_authorizes_read (cb_claims granted) target) \<and>
    (bb_authorizes_write (cb_claims b) target \<longrightarrow> bb_authorizes_write (cb_claims granted) target) \<and>
    cl_tenant (cb_claims b) \<in> {None, cl_tenant (cb_claims granted)} \<union>
      (\<Union>i \<in> set inputs. (\<lambda>t. Some (tn_name t)) ` set_option (in_tenant i))"
proof -
  let ?l = "lineage (cb_claims granted) (map overlaid inputs)"
  have "claimsAreSubsetOf ?l (cb_claims granted)"
    using assms(2,3) by (intro narrowing_lineage) (auto simp: list_all_iff intro: overlaid_nul_free)
  then have "authorizes ?l cat target \<longrightarrow> authorizes (cb_claims granted) cat target"
    "bb_authorizes_read ?l target \<longrightarrow> bb_authorizes_read (cb_claims granted) target"
    "bb_authorizes_write ?l target \<longrightarrow> bb_authorizes_write (cb_claims granted) target"
    using assms(2,4) by (auto intro: authorizes_mono bb_authorizes_mono)
  then show ?thesis
    using mint_lineage_tenant [OF assms(1)]
    unfolding same_patterns_authorize [OF mint_lineage_patterns [OF assms(1)], symmetric]
    by (simp add: bundleAdmits_def authorizes_def)
qed

text \<open>
  C2. A minted child bundle: the claims are the parent's or less in every pattern category and
  on the blackboard, and the tenant is unset, the parent's, or the tenant resource's own name. The
  violation error is never raised: the narrowing drops whatever the check after it would refuse, so
  the denial that the comments and a test title of the issuer announce does not happen.
\<close>

theorem mintCapabilityForTask_narrows:
  assumes "in_parentBundle i = Some pb"
  shows "(\<forall>r. fst (mintCapabilityForTask sign ca i) = Inr r \<longrightarrow>
       (\<forall>cat. patternListIsSubset (claims_list (mt_claims r) cat) (claims_list (cb_claims pb) cat)) \<and>
       patternListIsSubset (Option.bind (cl_blackboard (mt_claims r)) bb_read)
         (Option.bind (cl_blackboard (cb_claims pb)) bb_read) \<and>
       patternListIsSubset (Option.bind (cl_blackboard (mt_claims r)) bb_write)
         (Option.bind (cl_blackboard (cb_claims pb)) bb_write) \<and>
       cl_tenant (mt_claims r) \<in>
         {None, cl_tenant (cb_claims pb)} \<union> (\<lambda>t. Some (tn_name t)) ` set_option (in_tenant i))
   \<and> (\<forall>vs j. fst (mintCapabilityForTask sign ca i) \<noteq> Inl (CapabilityViolation vs j))"
proof (intro conjI allI impI)
  fix r assume "fst (mintCapabilityForTask sign ca i) = Inr r"
  then obtain child where mt: "mt_claims r =
      applyTenantClaim (narrowClaimsByParent child (cb_claims pb)) (in_tenant i)"
    using mint_claims assms by fastforce
  show "patternListIsSubset (claims_list (mt_claims r) cat) (claims_list (cb_claims pb) cat)" for cat
    by (simp add: mt narrowClaimsByParent_list narrow_sub_subset)
  show "patternListIsSubset (Option.bind (cl_blackboard (mt_claims r)) bb_read)
         (Option.bind (cl_blackboard (cb_claims pb)) bb_read)"
    "patternListIsSubset (Option.bind (cl_blackboard (mt_claims r)) bb_write)
         (Option.bind (cl_blackboard (cb_claims pb)) bb_write)"
    by (simp_all add: mt narrowClaimsByParent_blackboard narrow_sub_subset)
  show "cl_tenant (mt_claims r) \<in>
         {None, cl_tenant (cb_claims pb)} \<union> (\<lambda>t. Some (tn_name t)) ` set_option (in_tenant i)"
    by (auto simp: mt applyTenantClaim_def narrowClaimsByParent_tenant split: option.split)
qed (rule mint_never_violates)

definition sample_task :: agent_task where
  "sample_task = \<lparr>tk_uid = Some ''0123456789'', tk_namespace = None, tk_tenantLabel = None,
     tk_targetAgent = None, tk_runConfigTimeout = None, tk_timeoutSeconds = None,
     tk_idempotencyKey = None, tk_agentVersion = None\<rparr>"

definition sample_agent :: "capability_claims \<Rightarrow> agent" where
  "sample_agent c = \<lparr>ag_namespace = Some ''ns'', ag_name = Some ''a'', ag_tenantLabel = None,
     ag_capabilityClaims = Some c, ag_allowedChildAgents = None,
     ag_allowedChildTemplates = None, ag_publishes = None, ag_subscribes = None,
     ag_version = None\<rparr>"

definition sample_bundle :: "capability_claims \<Rightarrow> capability_bundle" where
  "sample_bundle c = \<lparr>cb_iss = ''op'', cb_sub = ''task-uid:p'', cb_aud = [KAGENT_SUBSTRATE_AUDIENCE],
     cb_exp = 1000, cb_iat = None, cb_nbf = None, cb_jti = ''cap-p'', cb_agt = None, cb_claims = c\<rparr>"

definition sample_input ::
  "capability_claims \<Rightarrow> capability_claims option \<Rightarrow> tenant option \<Rightarrow> mint_for_task_input" where
  "sample_input c parent tn = \<lparr>in_task = sample_task, in_agent = sample_agent c,
     in_parentBundle = map_option sample_bundle parent, in_jtiOverride = Some ''cap-1'',
     in_tenant = tn, in_ttlPolicy = None, in_loader = None, in_hasPublisher = True,
     in_hasCoreApi = True, in_nonceHex = ''00''\<rparr>"

definition sample_ca :: cap_ca where
  "sample_ca = \<lparr>ca_issuer = ''kagent.knuteson.io/operator'', ca_nowMs = 5000\<rparr>"

lemmas sample_defs = sample_task_def sample_agent_def sample_bundle_def sample_input_def
  sample_ca_def

lemma sample_child_mint:
  "fst (mintCapabilityForTask id sample_ca (sample_input (no_claims\<lparr>cl_spawn := Some [''summarizer-a'', ''writer'']\<rparr>)
      (Some (no_claims\<lparr>cl_spawn := Some [''summarizer-*''], cl_tenant := Some ''acme''\<rparr>)) None)) =
   Inr \<lparr>mt_jwt = mint_payload sample_ca (task_mint_request (sample_input no_claims None None)
          (no_claims\<lparr>cl_spawn := Some [''summarizer-a''], cl_tenant := Some ''acme''\<rparr>) ''0123456789''),
        mt_jti = ''cap-1'', mt_issuer = ''kagent.knuteson.io/operator'', mt_expiresAt = 605,
        mt_claims = no_claims\<lparr>cl_spawn := Some [''summarizer-a''], cl_tenant := Some ''acme''\<rparr>,
        mt_ttlDecision = None, mt_rejections = []\<rparr>"
proof -
  have n: "narrowClaimsByParent (no_claims\<lparr>cl_spawn := Some [''summarizer-a'', ''writer'']\<rparr>)
      (no_claims\<lparr>cl_spawn := Some [''summarizer-*''], cl_tenant := Some ''acme''\<rparr>) =
    no_claims\<lparr>cl_spawn := Some [''summarizer-a''], cl_tenant := Some ''acme''\<rparr>"
    by (simp add: narrowClaimsByParent_def ALL_CAPABILITY_CLAIM_CATEGORIES_def narrow_category_def narrow_tenant_def
        narrow_blackboard_def admitted_patterns_def patternIsAdmittedByList_def globPatternIsSubset_def no_claims_def
        sentinel_probe_def globMatch_def glob_loop.simps skip_stars_def)
  show ?thesis
    by (simp add: mintCapabilityForTask_def sample_defs load_overlay_def Let_def n
        narrowByDispositionOverlay_def resolveAgentClaims_def narrowClaimsByParent_no_violations [of "no_claims\<lparr>cl_spawn := Some [''summarizer-a'', ''writer'']\<rparr>"
          "no_claims\<lparr>cl_spawn := Some [''summarizer-*''], cl_tenant := Some ''acme''\<rparr>", unfolded n]
        applyTenantClaim_def applyTtlPolicy_def pickTtlSeconds_def positive_finite_def mint_def mint_payload_def
        task_mint_request_def payload_exp_cap_jwt DEFAULT_CAP_JWT_TTL_SECONDS_def subject_agent_def)
qed

lemma sample_clean:
  "nul_free_claims (no_claims\<lparr>cl_spawn := Some [''summarizer-a'', ''writer'']\<rparr>)"
  "nul_free_claims (no_claims\<lparr>cl_spawn := Some [''summarizer-*''], cl_tenant := Some ''acme''\<rparr>)"
  by (simp_all add: nul_free_claims_def array_categories_def nul_free_def no_claims_def)

theorem lineage_no_escalation_witness:
  "bundleAdmits (Some (sample_bundle (no_claims\<lparr>cl_spawn := Some [''summarizer-*''], cl_tenant := Some ''acme''\<rparr>)))
     Spawn ''summarizer-a''"
proof -
  let ?p = "no_claims\<lparr>cl_spawn := Some [''summarizer-*''], cl_tenant := Some ''acme''\<rparr>"
  let ?i = "sample_input (no_claims\<lparr>cl_spawn := Some [''summarizer-a'', ''writer'']\<rparr>) (Some ?p) None"
  let ?b = "sample_bundle ?p\<lparr>cb_jti := ''cap-1'', cb_claims := no_claims\<lparr>cl_spawn := Some [''summarizer-a''], cl_tenant := Some ''acme''\<rparr>\<rparr>"
  have "?i\<lparr>in_parentBundle := Some (sample_bundle ?p)\<rparr> = ?i" by (simp add: sample_input_def)
  then have "mint_lineage id sample_ca (sample_bundle ?p) [?i] = Some ?b"
    by (simp add: sample_child_mint)
  from lineage_no_escalation [OF this, of "''summarizer-a''" Spawn] sample_clean
  show ?thesis
    by (simp add: bundleAdmits_def globMatch_def glob_loop.simps skip_stars_def sample_input_def
        sample_agent_def sample_bundle_def resolveAgentClaims_def)
qed

theorem mintCapabilityForTask_narrows_witness:
  "patternListIsSubset (Some [''summarizer-a'']) (Some [''summarizer-*'']) \<and>
   fst (mintCapabilityForTask id sample_ca (sample_input (no_claims\<lparr>cl_spawn := Some [''summarizer-a'', ''writer'']\<rparr>)
      (Some (no_claims\<lparr>cl_spawn := Some [''summarizer-*''], cl_tenant := Some ''acme''\<rparr>)) None)) \<noteq> Inl (CapabilityViolation [] [])"
proof -
  have "in_parentBundle (sample_input (no_claims\<lparr>cl_spawn := Some [''summarizer-a'', ''writer'']\<rparr>)
      (Some (no_claims\<lparr>cl_spawn := Some [''summarizer-*''], cl_tenant := Some ''acme''\<rparr>)) None) =
    Some (sample_bundle (no_claims\<lparr>cl_spawn := Some [''summarizer-*''], cl_tenant := Some ''acme''\<rparr>))"
    by (simp add: sample_input_def)
  from mintCapabilityForTask_narrows [OF this, where sign = id and ca = sample_ca] sample_child_mint
  have "patternListIsSubset (claims_list (no_claims\<lparr>cl_spawn := Some [''summarizer-a''], cl_tenant := Some ''acme''\<rparr>) Spawn)
     (claims_list (no_claims\<lparr>cl_spawn := Some [''summarizer-*''], cl_tenant := Some ''acme''\<rparr>) Spawn)"
    by (simp add: sample_bundle_def del: claims_list.simps)
  then show ?thesis by (simp add: sample_child_mint)
qed

text \<open>
  C21. A minted token verifies to what was minted: while it is live, the verifier returns a bundle
  with exactly the claims, id, issuer and expiry of the mint's result, for the subject
  \<open>task-uid:\<close> of the task.
\<close>

theorem mint_then_verify:
  assumes "fst (mintCapabilityForTask sign ca i) = Inr r"
    and "jose_contract sign verify nowSec" and "nowSec < mt_expiresAt r"
    and "wf_claims (mt_claims r)" and "mt_jti r \<noteq> []" and "mt_issuer r \<noteq> []"
  shows "\<exists>b. verifyCapabilityJwt verify (mt_jwt r) (mt_issuer r) nowSec = Inr b \<and>
    cb_claims b = mt_claims r \<and> cb_jti b = mt_jti r \<and> cb_iss b = mt_issuer r \<and>
    cb_exp b = mt_expiresAt r \<and> cb_sub b = ''task-uid:'' @ js_or (tk_uid (in_task i)) []"
proof -
  let ?req = "task_mint_request i (mt_claims r) (js_or (tk_uid (in_task i)) [])"
  note res = mint_result [OF assms(1)]
  have iss: "mt_issuer r = (case mi_issuerOverride ?req of
       Some i \<Rightarrow> (if i \<noteq> [] then i else ca_issuer ca) | None \<Rightarrow> ca_issuer ca)"
    using assms(6) res(4)
    by (cases "Option.bind (in_tenant i) resolveTenantIssuer") (auto simp: task_mint_request_def)
  have req: "mi_claims ?req = mt_claims r" "mi_audiences ?req = None"
    "mi_subjectTaskUid ?req = js_or (tk_uid (in_task i)) []"
    by (simp_all add: task_mint_request_def)
  have "wf_claims (mi_claims ?req)" "mi_jti ?req \<noteq> []" "nowSec < mr_expiresAt (mint sign ca ?req)"
    using assms(3-5) res(2,3) req(1) by simp_all
  from verify_minted [OF assms(2) this(1,2) req(2) iss assms(6) this(3)]
  show ?thesis unfolding req res(1,2,3) [symmetric] by blast
qed

definition plain_verify :: "rat \<Rightarrow> json \<Rightarrow> string \<Rightarrow> string + json" where
  "plain_verify nowSec jwt iss =
     (case object_fields jwt of
        Some r \<Rightarrow> (if obj_get r ''iss'' = JStr iss then Inr jwt else Inl ''issuer'')
      | None \<Rightarrow> Inl ''payload'')"

theorem mint_then_verify_witness:
  "\<exists>b. verifyCapabilityJwt (plain_verify 6)
        (mt_jwt (projr (fst (mintCapabilityForTask id sample_ca
           (sample_input (no_claims\<lparr>cl_tools := Some [''http_get'']\<rparr>) None None)))))
        ''kagent.knuteson.io/operator'' 6 = Inr b \<and>
      cb_claims b = no_claims\<lparr>cl_tools := Some [''http_get'']\<rparr>"
proof -
  let ?i = "sample_input (no_claims\<lparr>cl_tools := Some [''http_get'']\<rparr>) None None"
  obtain r where r: "fst (mintCapabilityForTask id sample_ca ?i) = Inr r"
    "mt_claims r = no_claims\<lparr>cl_tools := Some [''http_get'']\<rparr>" "mt_jti r = ''cap-1''"
    "mt_issuer r = ''kagent.knuteson.io/operator''" "mt_expiresAt r = 605"
    by (auto simp: mintCapabilityForTask_def sample_defs load_overlay_def Let_def
        narrowByDispositionOverlay_def resolveAgentClaims_def applyTenantClaim_def
        applyTtlPolicy_def pickTtlSeconds_def positive_finite_def mint_def mint_payload_def
        task_mint_request_def payload_exp_cap_jwt DEFAULT_CAP_JWT_TTL_SECONDS_def)
  have jose: "jose_contract id (plain_verify 6) 6"
    by (simp add: jose_contract_def plain_verify_def object_fields_def)
  have wf: "wf_claims (mt_claims r)"
    by (simp add: r(2) wf_claims_def array_categories_def wf_patterns_def no_claims_def)
  show ?thesis
    using mint_then_verify [OF r(1) jose _ wf] r by auto
qed

text \<open>
  The tenant of a child is not bounded by the parent's token: with a parent of tenant \<open>a\<close>, an
  agent that pins \<open>b\<close> and the tenant resource \<open>b\<close>, the mint succeeds and stamps \<open>b\<close>. The
  mismatch is dropped before the subset check instead of reported by it.
\<close>

theorem mint_switches_tenant:
  "\<exists>r. fst (mintCapabilityForTask id sample_ca
       (sample_input (no_claims\<lparr>cl_tenant := Some ''b''\<rparr>)
          (Some (no_claims\<lparr>cl_tenant := Some ''a''\<rparr>))
          (Some \<lparr>tn_name = ''b'', tn_issuer = None, tn_namespaceAllowlist = []\<rparr>))) = Inr r
     \<and> cl_tenant (mt_claims r) = Some ''b''"
  by (simp add: mintCapabilityForTask_def sample_defs load_overlay_def Let_def
      narrowByDispositionOverlay_def resolveAgentClaims_def narrowClaimsByParent_no_violations
      applyTenantClaim_def narrowClaimsByParent_tenant applyTtlPolicy_def pickTtlSeconds_def
      positive_finite_def)

text \<open>
  The subject of every workflow token is \<open>task-uid:workflow:\<close> followed by the uid, because
  the payload builder prefixes the subject it is given.
\<close>

theorem workflow_subject_is_task_prefixed:
  "\<exists>kvs. mint_payload ca (workflow_mint_request i claims uid) = JObj kvs \<and>
     obj_get kvs ''sub'' = JStr (''task-uid:workflow:'' @ uid)"
  by (simp add: mint_payload_def cap_jwt_payload_def workflow_mint_request_def Let_def)

end
