(* ===== verification/Aimd.thy ===== *)
theory Aimd
  imports Prelude
begin

text \<open>
  The gateway's self-tuning in-flight cap, \<^verbatim>\<open>packages/llm-gateway/src/aimd.ts\<close>, with the
  bounds normalisation of \<^verbatim>\<open>bounds.ts\<close> and the in-flight counter of
  \<^verbatim>\<open>inflight-counter.ts\<close>. The clock is an argument \<open>now\<close> (milliseconds); an operation that
  calls \<open>notify\<close> returns the flag beside the new controller.
\<close>

section \<open>Keys and bounds\<close>

definition makeKey :: "string \<Rightarrow> string \<Rightarrow> string" where
  "makeKey model endpoint = model @ ''|'' @ endpoint"

record aimd_bounds =
  b_seed :: int
  b_max :: int
  b_minSafe :: int

definition MIN_SAFE_FLOOR :: int where
  "MIN_SAFE_FLOOR = 1"

record model_endpoint =
  ep_namespace :: "string option"
  ep_name :: string
  ep_model :: string
  ep_backendKind :: string
  ep_backendUrl :: string
  ep_seed :: int
  ep_max :: int
  ep_minSafe :: "int option"

definition normalizeBounds :: "model_endpoint \<Rightarrow> aimd_bounds" where
  "normalizeBounds ep =
     \<lparr>b_seed = ep_seed ep, b_max = ep_max ep,
      b_minSafe = max MIN_SAFE_FLOOR
        (case ep_minSafe ep of None \<Rightarrow> MIN_SAFE_FLOOR | Some m \<Rightarrow> m)\<rparr>"

section \<open>The controller\<close>

record per_key_state =
  st_cap :: int
  st_bounds :: aimd_bounds
  st_latencies :: "int list"
  st_windowStartedAt :: int
  st_seeded :: bool

record aimd_controller =
  c_defaults :: aimd_bounds
  c_cleanWindowMs :: int
  c_latencySpikeMultiplier :: rat
  c_latencyWindowSize :: nat
  c_map :: "(string \<times> per_key_state) list"

definition new_aimd :: "aimd_bounds \<Rightarrow> int option \<Rightarrow> rat option \<Rightarrow> nat option \<Rightarrow> aimd_controller" where
  "new_aimd defaults cleanWindow mult window =
     \<lparr>c_defaults = defaults,
      c_cleanWindowMs = (case cleanWindow of None \<Rightarrow> 60000 | Some v \<Rightarrow> v),
      c_latencySpikeMultiplier = (case mult of None \<Rightarrow> 2 | Some v \<Rightarrow> v),
      c_latencyWindowSize = (case window of None \<Rightarrow> 50 | Some v \<Rightarrow> v),
      c_map = []\<rparr>"

definition fresh_state :: "aimd_controller \<Rightarrow> int \<Rightarrow> per_key_state" where
  "fresh_state c now =
     \<lparr>st_cap = b_seed (c_defaults c), st_bounds = c_defaults c, st_latencies = [],
      st_windowStartedAt = now, st_seeded = False\<rparr>"

definition ensure :: "aimd_controller \<Rightarrow> int \<Rightarrow> string \<Rightarrow> string \<Rightarrow> per_key_state" where
  "ensure c now model endpoint =
     (case map_of (c_map c) (makeKey model endpoint) of
        Some s \<Rightarrow> s
      | None \<Rightarrow> fresh_state c now)"

definition put_state :: "aimd_controller \<Rightarrow> string \<Rightarrow> string \<Rightarrow> per_key_state \<Rightarrow> aimd_controller" where
  "put_state c model endpoint s = c\<lparr>c_map := AList.update (makeKey model endpoint) s (c_map c)\<rparr>"

definition pushBounded :: "int list \<Rightarrow> int \<Rightarrow> nat \<Rightarrow> int list" where
  "pushBounded arr v mx =
     (let a = arr @ [v] in if length a > mx then tl a else a)"

definition computeP50 :: "int list \<Rightarrow> int option" where
  "computeP50 arr = (if arr = [] then None else Some (sort arr ! (length arr div 2)))"

definition clamp_cap :: "int \<Rightarrow> aimd_bounds \<Rightarrow> int" where
  "clamp_cap cap b =
     (let c1 = (if cap > b_max b then b_max b else cap) in
      if c1 < b_minSafe b then b_minSafe b else c1)"

definition updateBounds_state :: "per_key_state \<Rightarrow> aimd_bounds \<Rightarrow> per_key_state" where
  "updateBounds_state s b =
     s\<lparr>st_bounds := b,
       st_cap := clamp_cap (if st_seeded s then st_cap s else b_seed b) b,
       st_seeded := True\<rparr>"

definition updateBounds ::
  "aimd_controller \<Rightarrow> int \<Rightarrow> string \<Rightarrow> string \<Rightarrow> aimd_bounds \<Rightarrow> aimd_controller \<times> bool" where
  "updateBounds c now model endpoint b =
     (put_state c model endpoint (updateBounds_state (ensure c now model endpoint) b), True)"

definition currentCap :: "aimd_controller \<Rightarrow> int \<Rightarrow> string \<Rightarrow> string \<Rightarrow> aimd_controller \<times> int" where
  "currentCap c now model endpoint =
     (let s = ensure c now model endpoint in (put_state c model endpoint s, st_cap s))"

definition halved_cap :: "per_key_state \<Rightarrow> int" where
  "halved_cap s = max (b_minSafe (st_bounds s)) (st_cap s div 2)"

definition is_spike :: "aimd_controller \<Rightarrow> per_key_state \<Rightarrow> int \<Rightarrow> bool" where
  "is_spike c s latencyMs \<longleftrightarrow>
     (case computeP50 (st_latencies s) of
        None \<Rightarrow> False
      | Some p50 \<Rightarrow> of_int latencyMs > of_int p50 * c_latencySpikeMultiplier c \<and>
          st_cap s > b_minSafe (st_bounds s))"

definition onSuccess_state ::
  "aimd_controller \<Rightarrow> int \<Rightarrow> per_key_state \<Rightarrow> int \<Rightarrow> per_key_state \<times> bool" where
  "onSuccess_state c now s latencyMs =
     (let s1 = s\<lparr>st_latencies := pushBounded (st_latencies s) latencyMs (c_latencyWindowSize c)\<rparr> in
      if is_spike c s latencyMs then
        (s1\<lparr>st_cap := halved_cap s, st_windowStartedAt := now\<rparr>, True)
      else if now - st_windowStartedAt s \<ge> c_cleanWindowMs c \<and> st_cap s < b_max (st_bounds s) then
        (s1\<lparr>st_cap := st_cap s + 1, st_windowStartedAt := now\<rparr>, True)
      else (s1, False))"

definition onSuccess ::
  "aimd_controller \<Rightarrow> int \<Rightarrow> string \<Rightarrow> string \<Rightarrow> int \<Rightarrow> aimd_controller \<times> bool" where
  "onSuccess c now model endpoint latencyMs =
     (let (s, n) = onSuccess_state c now (ensure c now model endpoint) latencyMs
      in (put_state c model endpoint s, n))"

definition onError_state :: "int \<Rightarrow> per_key_state \<Rightarrow> per_key_state" where
  "onError_state now s = s\<lparr>st_cap := halved_cap s, st_windowStartedAt := now\<rparr>"

definition onError :: "aimd_controller \<Rightarrow> int \<Rightarrow> string \<Rightarrow> string \<Rightarrow> aimd_controller \<times> bool" where
  "onError c now model endpoint =
     (put_state c model endpoint (onError_state now (ensure c now model endpoint)), True)"

section \<open>The in-flight counter\<close>

type_synonym inflight = "(string \<times> nat) list"

definition if_current :: "inflight \<Rightarrow> string \<Rightarrow> string \<Rightarrow> nat" where
  "if_current m model endpoint =
     (case map_of m (makeKey model endpoint) of None \<Rightarrow> 0 | Some n \<Rightarrow> n)"

definition if_acquire :: "inflight \<Rightarrow> string \<Rightarrow> string \<Rightarrow> inflight" where
  "if_acquire m model endpoint =
     AList.update (makeKey model endpoint) (if_current m model endpoint + 1) m"

definition if_release :: "inflight \<Rightarrow> string \<Rightarrow> string \<Rightarrow> inflight" where
  "if_release m model endpoint =
     (let cur = if_current m model endpoint in
      if cur \<le> 1 then AList.delete (makeKey model endpoint) m
      else AList.update (makeKey model endpoint) (cur - 1) m)"

section \<open>Facts\<close>

lemma makeKey_inject:
  assumes "CHR ''|'' \<notin> set m1" "CHR ''|'' \<notin> set m2"
  shows "makeKey m1 e1 = makeKey m2 e2 \<longleftrightarrow> m1 = m2 \<and> e1 = e2"
proof
  assume eq: "makeKey m1 e1 = makeKey m2 e2"
  have pre: "takeWhile (\<lambda>c. c \<noteq> CHR ''|'') (makeKey m e) = m" if "CHR ''|'' \<notin> set m" for m e
    using that by (auto simp: makeKey_def takeWhile_append)
  from eq assms pre have "m1 = m2" by metis
  with eq show "m1 = m2 \<and> e1 = e2" by (simp add: makeKey_def)
qed simp

lemma normalizeBounds_minSafe: "1 \<le> b_minSafe (normalizeBounds ep)"
  by (simp add: normalizeBounds_def MIN_SAFE_FLOOR_def)

definition wf_bounds :: "aimd_bounds \<Rightarrow> bool" where
  "wf_bounds b \<longleftrightarrow> 1 \<le> b_minSafe b \<and> b_minSafe b \<le> b_max b"

definition state_ok :: "per_key_state \<Rightarrow> bool" where
  "state_ok s \<longleftrightarrow> wf_bounds (st_bounds s) \<and>
     b_minSafe (st_bounds s) \<le> st_cap s \<and> st_cap s \<le> b_max (st_bounds s)"

definition aimd_ok :: "aimd_controller \<Rightarrow> bool" where
  "aimd_ok c \<longleftrightarrow> wf_bounds (c_defaults c) \<and>
     b_minSafe (c_defaults c) \<le> b_seed (c_defaults c) \<and>
     b_seed (c_defaults c) \<le> b_max (c_defaults c) \<and>
     (\<forall>k s. map_of (c_map c) k = Some s \<longrightarrow> state_ok s)"

lemma ensure_ok: "aimd_ok c \<Longrightarrow> state_ok (ensure c now model endpoint)"
  by (auto simp: aimd_ok_def ensure_def fresh_state_def state_ok_def split: option.split)

lemma put_state_ok [inv_intros]:
  "aimd_ok c \<Longrightarrow> state_ok s \<Longrightarrow> aimd_ok (put_state c model endpoint s)"
  by (auto simp: aimd_ok_def put_state_def update_conv')

lemma halved_cap_bounds:
  "state_ok s \<Longrightarrow> b_minSafe (st_bounds s) \<le> halved_cap s \<and> halved_cap s \<le> st_cap s"
  unfolding state_ok_def wf_bounds_def halved_cap_def by auto

lemma updateBounds_state_ok [inv_intros]: "wf_bounds b \<Longrightarrow> state_ok (updateBounds_state s b)"
  by (auto simp: updateBounds_state_def state_ok_def wf_bounds_def clamp_cap_def Let_def)

lemma onSuccess_state_ok [inv_intros]:
  "state_ok s \<Longrightarrow> state_ok (fst (onSuccess_state c now s latencyMs))"
  using halved_cap_bounds [of s]
  by (auto simp: onSuccess_state_def Let_def state_ok_def)

lemma onError_state_ok [inv_intros]: "state_ok s \<Longrightarrow> state_ok (onError_state now s)"
  using halved_cap_bounds [of s] by (auto simp: onError_state_def state_ok_def)

lemma currentCap_fst: "fst (currentCap c now m e) = put_state c m e (ensure c now m e)"
  by (simp add: currentCap_def Let_def)

text \<open>A step of the controller: one call by the router.\<close>

datatype aimd_event =
    UpdateBounds string string aimd_bounds
  | CurrentCap string string
  | OnSuccess string string int
  | OnError string string

fun aimd_step :: "aimd_controller \<Rightarrow> int \<Rightarrow> aimd_event \<Rightarrow> aimd_controller" where
  "aimd_step c now (UpdateBounds m e b) = fst (updateBounds c now m e b)"
| "aimd_step c now (CurrentCap m e) = fst (currentCap c now m e)"
| "aimd_step c now (OnSuccess m e l) = fst (onSuccess c now m e l)"
| "aimd_step c now (OnError m e) = fst (onError c now m e)"

fun event_ok :: "aimd_event \<Rightarrow> bool" where
  "event_ok (UpdateBounds m e b) = wf_bounds b"
| "event_ok _ = True"

definition aimd_run :: "aimd_controller \<Rightarrow> (int \<times> aimd_event) list \<Rightarrow> aimd_controller" where
  "aimd_run c evs = foldl (\<lambda>c (now, ev). aimd_step c now ev) c evs"

lemma aimd_step_ok [inv_intros]:
  "aimd_ok c \<Longrightarrow> event_ok ev \<Longrightarrow> aimd_ok (aimd_step c now ev)"
  by (cases ev)
    (auto simp: updateBounds_def currentCap_fst onSuccess_def onError_def split: prod.split
      intro!: put_state_ok updateBounds_state_ok onError_state_ok ensure_ok
      dest: onSuccess_state_ok [OF ensure_ok] simp: case_prod_beta)

lemma aimd_run_ok:
  "aimd_ok c \<Longrightarrow> list_all (\<lambda>(now, ev). event_ok ev) evs \<Longrightarrow> aimd_ok (aimd_run c evs)"
  unfolding aimd_run_def
  by (induction evs arbitrary: c) (auto intro: aimd_step_ok)

text \<open>Errors in a row halve the cap each time, down to the safe minimum.\<close>

lemma onError_frame [simp]: "st_bounds (onError_state now s) = st_bounds s"
  by (simp add: onError_state_def)

lemma onError_iterate:
  assumes "state_ok s"
  shows "st_cap (fold onError_state nows s) =
    max (b_minSafe (st_bounds s)) (st_cap s div 2 ^ length nows)
    \<or> nows = []"
  using assms
proof (induction nows arbitrary: s)
  case Nil
  then show ?case by simp
next
  case (Cons now nows)
  let ?s = "onError_state now s" and ?m = "b_minSafe (st_bounds s)"
  have ok: "state_ok ?s" using Cons.prems by (rule onError_state_ok)
  have cap: "st_cap ?s = max ?m (st_cap s div 2)"
    by (simp add: onError_state_def halved_cap_def)
  show ?case
  proof (cases "nows = []")
    case True
    then show ?thesis by (simp add: cap)
  next
    case False
    with Cons.IH [OF ok] have "st_cap (fold onError_state nows ?s) =
        max ?m (max ?m (st_cap s div 2) div 2 ^ length nows)"
      by (simp add: cap)
    also have "\<dots> = max ?m (st_cap s div 2 div 2 ^ length nows)"
    proof -
      have m: "?m div 2 ^ length nows \<le> ?m"
        using Cons.prems zdiv_mono2 [of ?m 1 "2 ^ length nows"]
        by (simp add: state_ok_def wf_bounds_def)
      show ?thesis
      proof (cases "?m \<le> st_cap s div 2")
        case True
        then show ?thesis by (simp add: max_def)
      next
        case False
        then have "st_cap s div 2 div 2 ^ length nows \<le> ?m div 2 ^ length nows"
          by (intro zdiv_mono1) auto
        with m False show ?thesis by (simp add: max_def)
      qed
    qed
    also have "\<dots> = max ?m (st_cap s div 2 ^ length (now # nows))"
      by (simp add: zdiv_zmult2_eq)
    finally show ?thesis by simp
  qed
qed

lemma if_current_acquire:
  "if_current (if_acquire m md ep) md' ep' =
     (if makeKey md' ep' = makeKey md ep then if_current m md ep + 1 else if_current m md' ep')"
  by (simp add: if_acquire_def if_current_def update_conv')

lemma if_current_release:
  "if_current (if_release m md ep) md' ep' =
     (if makeKey md' ep' = makeKey md ep then if_current m md ep - 1 else if_current m md' ep')"
  by (auto simp: if_release_def if_current_def update_conv' delete_conv' Let_def)


section \<open>Properties\<close>

text \<open>
  From a controller with sane defaults, after any run of router calls whose bounds are sane,
  the cap of every key lies between its safe minimum and its maximum, and is at least one.
\<close>

theorem aimd_cap_bounded:
  assumes "aimd_ok c" and "list_all (\<lambda>(now, ev). event_ok ev) evs"
    and "c' = aimd_run c evs"
  shows "1 \<le> snd (currentCap c' now model endpoint) \<and>
    b_minSafe (st_bounds (ensure c' now model endpoint)) \<le> snd (currentCap c' now model endpoint) \<and>
    snd (currentCap c' now model endpoint) \<le> b_max (st_bounds (ensure c' now model endpoint))"
  using ensure_ok [OF aimd_run_ok [OF assms(1,2)], of now model endpoint] assms(3)
  by (simp add: currentCap_def Let_def state_ok_def wf_bounds_def)

theorem aimd_cap_bounded_witness:
  "1 \<le> snd (currentCap
     (aimd_run (new_aimd \<lparr>b_seed = 4, b_max = 8, b_minSafe = 1\<rparr> None None None)
        [(0, OnError ''m'' ''e''), (1, OnError ''m'' ''e''), (2, OnError ''m'' ''e'')])
     3 ''m'' ''e'')"
proof -
  let ?c = "new_aimd \<lparr>b_seed = 4, b_max = 8, b_minSafe = 1\<rparr> None None None"
  have "aimd_ok ?c" by (simp add: aimd_ok_def new_aimd_def wf_bounds_def)
  from aimd_cap_bounded [OF this _ refl,
      of "[(0, OnError ''m'' ''e''), (1, OnError ''m'' ''e''), (2, OnError ''m'' ''e'')]" 3 "''m''" "''e''"]
  show ?thesis by simp
qed

text \<open>
  Multiplicative decrease: \<open>n\<close> errors in a row take the cap to its \<open>2^n\<close>-th part, rounded
  down, and never below the safe minimum.
\<close>

theorem aimd_errors_halve:
  assumes "state_ok s" and "nows \<noteq> []"
  shows "st_cap (fold onError_state nows s) =
    max (b_minSafe (st_bounds s)) (st_cap s div 2 ^ length nows)"
  using onError_iterate [OF assms(1), of nows] assms(2) by simp

theorem aimd_errors_halve_witness:
  "st_cap (fold onError_state [1, 2, 3]
     \<lparr>st_cap = 20, st_bounds = \<lparr>b_seed = 4, b_max = 32, b_minSafe = 2\<rparr>, st_latencies = [],
      st_windowStartedAt = 0, st_seeded = True\<rparr>) = 2"
proof -
  have "state_ok \<lparr>st_cap = 20, st_bounds = \<lparr>b_seed = 4, b_max = 32, b_minSafe = 2\<rparr>,
      st_latencies = [], st_windowStartedAt = 0, st_seeded = True\<rparr>"
    by (simp add: state_ok_def wf_bounds_def)
  from aimd_errors_halve [OF this, of "[1, 2, 3]"] show ?thesis by simp
qed

end
