(* ===== verification/Admission.thy ===== *)
theory Admission
  imports Aimd "HOL-Library.Sublist"
begin

text \<open>
  The FIFO permit queue of the gateway, \<^verbatim>\<open>packages/llm-gateway/src/request-admission.ts\<close>
  (class \<open>RequestAdmission\<close>), for one (model, endpoint). A waiter is the number of its request;
  its promise is settled in the logs \<open>ad_granted\<close> and \<open>ad_rejected\<close>. \<open>ad_released\<close> holds the
  requests whose release closure has run (the closure's \<open>released\<close> flag). \<open>ad_registered\<close> says
  whether the queue object is in the map of queues. \<open>ad_inFlight\<close> is the counter of the key and
  \<open>ad_cap\<close> what \<open>aimd.currentCap\<close> answers.
\<close>

record admission =
  ad_waiters :: "nat list"
  ad_aborted :: "nat set"
  ad_inFlight :: nat
  ad_cap :: int
  ad_arrived :: "nat list"
  ad_granted :: "nat list"
  ad_rejected :: "nat list"
  ad_released :: "nat set"
  ad_registered :: bool

definition empty_admission :: "int \<Rightarrow> admission" where
  "empty_admission cap =
     \<lparr>ad_waiters = [], ad_aborted = {}, ad_inFlight = 0, ad_cap = cap, ad_arrived = [],
      ad_granted = [], ad_rejected = [], ad_released = {}, ad_registered = False\<rparr>"

text \<open>One turn of the pump's loop on the waiter at the head.\<close>

definition serve_head :: "admission \<Rightarrow> nat \<Rightarrow> nat list \<Rightarrow> admission" where
  "serve_head s w ws =
     (if w \<in> ad_aborted s
      then s\<lparr>ad_waiters := ws, ad_rejected := ad_rejected s @ [w]\<rparr>
      else s\<lparr>ad_waiters := ws, ad_inFlight := Suc (ad_inFlight s),
            ad_granted := ad_granted s @ [w]\<rparr>)"

function pump_loop :: "admission \<Rightarrow> admission" where
  "pump_loop s =
     (case ad_waiters s of
        [] \<Rightarrow> s
      | w # ws \<Rightarrow> (if int (ad_inFlight s) < ad_cap s then pump_loop (serve_head s w ws) else s))"
  by pat_completeness auto
termination
  by (relation "measure (\<lambda>s. length (ad_waiters s))") (auto simp: serve_head_def)

declare pump_loop.simps [simp del]

definition pump :: "admission \<Rightarrow> admission" where
  "pump s =
     (let s' = pump_loop s in
      if ad_waiters s' = [] \<and> ad_inFlight s' = 0 then s'\<lparr>ad_registered := False\<rparr> else s')"

definition acquire :: "admission \<Rightarrow> nat \<Rightarrow> admission" where
  "acquire s w =
     (if w \<in> ad_aborted s then s\<lparr>ad_rejected := ad_rejected s @ [w]\<rparr>
      else pump (s\<lparr>ad_waiters := ad_waiters s @ [w], ad_arrived := ad_arrived s @ [w],
                  ad_registered := True\<rparr>))"

text \<open>The abort event of a request's signal; the listener only acts on a queued waiter.\<close>

definition abort :: "admission \<Rightarrow> nat \<Rightarrow> admission" where
  "abort s w =
     (let s1 = s\<lparr>ad_aborted := insert w (ad_aborted s)\<rparr> in
      if w \<in> set (ad_waiters s)
      then pump (s1\<lparr>ad_waiters := remove1 w (ad_waiters s), ad_rejected := ad_rejected s @ [w]\<rparr>)
      else s1)"

text \<open>The release closure handed to a granted request.\<close>

definition release :: "admission \<Rightarrow> nat \<Rightarrow> admission" where
  "release s w =
     (if w \<in> ad_released s then s
      else pump (s\<lparr>ad_released := insert w (ad_released s), ad_inFlight := ad_inFlight s - 1\<rparr>))"

definition capacity_change :: "admission \<Rightarrow> int \<Rightarrow> admission" where
  "capacity_change s cap =
     (let s1 = s\<lparr>ad_cap := cap\<rparr> in if ad_registered s then pump s1 else s1)"

text \<open>
  What the environment may do: submit a new request, abort any request, run the release closure
  of a granted request (possibly again), change the capacity.
\<close>

inductive adm_step :: "admission \<Rightarrow> admission \<Rightarrow> bool" where
  step_acquire: "w \<notin> set (ad_arrived s) \<Longrightarrow> w \<notin> set (ad_rejected s) \<Longrightarrow> adm_step s (acquire s w)"
| step_abort: "adm_step s (abort s w)"
| step_release: "w \<in> set (ad_granted s) \<Longrightarrow> adm_step s (release s w)"
| step_capacity: "adm_step s (capacity_change s cap)"

inductive adm_reachable :: "int \<Rightarrow> admission \<Rightarrow> bool" for cap where
  reach_init: "adm_reachable cap (empty_admission cap)"
| reach_step: "adm_reachable cap s \<Longrightarrow> adm_step s t \<Longrightarrow> adm_reachable cap t"

section \<open>Invariant\<close>

text \<open>
  The books balance before the pump: the counter is the number of unreleased grants, every
  arrival is waiting, granted or rejected, and grants followed by waiters are in arrival order.
\<close>

definition books :: "admission \<Rightarrow> bool" where
  "books s \<longleftrightarrow>
     distinct (ad_granted s @ ad_waiters s) \<and>
     subseq (ad_granted s @ ad_waiters s) (ad_arrived s) \<and>
     ad_released s \<subseteq> set (ad_granted s) \<and>
     ad_inFlight s + card (ad_released s) = length (ad_granted s)"

text \<open>No waiter is left queued while a permit is free.\<close>

definition pumped :: "admission \<Rightarrow> bool" where
  "pumped s \<longleftrightarrow> ad_waiters s = [] \<or> ad_cap s \<le> int (ad_inFlight s)"

text \<open>A queue with waiters or permits out is registered, so that a capacity change reaches it.\<close>

definition registered_ok :: "admission \<Rightarrow> bool" where
  "registered_ok s \<longleftrightarrow> (ad_waiters s \<noteq> [] \<or> ad_inFlight s \<noteq> 0 \<longrightarrow> ad_registered s)"

definition adm_inv :: "admission \<Rightarrow> bool" where
  "adm_inv s \<longleftrightarrow> books s \<and> pumped s \<and> registered_ok s"

lemma serve_head_books:
  assumes "books s" "ad_waiters s = w # ws"
  shows "books (serve_head s w ws)"
proof -
  have "subseq (ad_granted s @ ws) (ad_granted s @ w # ws)"
    by (rule list_emb_append_mono) (auto intro: list_emb_Cons)
  with assms show ?thesis
    by (auto simp: books_def serve_head_def intro: subseq_order.trans)
qed

lemma pump_loop_induct_step:
  "ad_waiters s = w # ws \<Longrightarrow> int (ad_inFlight s) < ad_cap s \<Longrightarrow>
    pump_loop s = pump_loop (serve_head s w ws)"
  by (subst pump_loop.simps) simp

lemma pump_loop_stop:
  "ad_waiters s = [] \<or> ad_cap s \<le> int (ad_inFlight s) \<Longrightarrow> pump_loop s = s"
  by (subst pump_loop.simps) (auto split: list.split)

lemma pump_loop_cases:
  obtains (stop) "pumped s" "pump_loop s = s"
  | (serve) w ws where "ad_waiters s = w # ws" "int (ad_inFlight s) < ad_cap s"
      "pump_loop s = pump_loop (serve_head s w ws)"
proof (cases "pumped s")
  case True
  then have "pump_loop s = s" unfolding pumped_def by (rule pump_loop_stop)
  with True show thesis by (rule stop)
next
  case False
  then obtain w ws where "ad_waiters s = w # ws" "int (ad_inFlight s) < ad_cap s"
    by (auto simp: pumped_def neq_Nil_conv)
  then show thesis by (intro serve pump_loop_induct_step)
qed

lemma serve_head_frame [simp]:
  "ad_cap (serve_head s w ws) = ad_cap s"
  "ad_arrived (serve_head s w ws) = ad_arrived s"
  "ad_aborted (serve_head s w ws) = ad_aborted s"
  "ad_released (serve_head s w ws) = ad_released s"
  "ad_registered (serve_head s w ws) = ad_registered s"
  "ad_waiters (serve_head s w ws) = ws"
  by (simp_all add: serve_head_def)

text \<open>What the pump loop does, in one induction.\<close>

lemma pump_loop_spec:
  "(books s \<longrightarrow> books (pump_loop s)) \<and> pumped (pump_loop s) \<and>
   ad_cap (pump_loop s) = ad_cap s \<and> ad_registered (pump_loop s) = ad_registered s \<and>
   ad_released (pump_loop s) = ad_released s \<and>
   prefix (ad_granted s) (ad_granted (pump_loop s)) \<and>
   suffix (ad_waiters (pump_loop s)) (ad_waiters s) \<and>
   ad_inFlight s \<le> ad_inFlight (pump_loop s) \<and>
   (ad_inFlight s < ad_inFlight (pump_loop s) \<longrightarrow> int (ad_inFlight (pump_loop s)) \<le> ad_cap s)"
proof (induction "length (ad_waiters s)" arbitrary: s rule: less_induct)
  case less
  show ?case
  proof (cases rule: pump_loop_cases [of s])
    case stop
    then show ?thesis by simp
  next
    case (serve w ws)
    let ?t = "serve_head s w ws"
    have lt: "length (ad_waiters ?t) < length (ad_waiters s)" by (simp add: serve(1))
    have "prefix (ad_granted s) (ad_granted ?t)" "ad_inFlight s \<le> ad_inFlight ?t"
      "ad_inFlight ?t \<le> Suc (ad_inFlight s)" "suffix (ad_waiters ?t) (ad_waiters s)"
      by (simp_all add: serve_head_def serve(1) suffix_ConsI)
    moreover have "books s \<longrightarrow> books ?t" using serve_head_books serve(1) by blast
    ultimately show ?thesis
      using less [OF lt] serve(2) unfolding serve(3)
      by (auto intro: prefix_order.trans suffix_order.trans)
  qed
qed

lemma registered_update [simp]:
  "books (s\<lparr>ad_registered := b\<rparr>) = books s"
  "pumped (s\<lparr>ad_registered := b\<rparr>) = pumped s"
  by (simp_all add: books_def pumped_def)

lemma pump_books: "books s \<Longrightarrow> books (pump s)"
  using pump_loop_spec [of s] by (auto simp: pump_def Let_def)

lemma pump_pumped: "pumped (pump s)"
  using pump_loop_spec [of s] by (auto simp: pump_def Let_def)

lemma pump_registered: "ad_registered s \<Longrightarrow> registered_ok (pump s)"
  using pump_loop_spec [of s] by (auto simp: pump_def Let_def registered_ok_def)

lemma pump_inv [inv_intros]: "books s \<Longrightarrow> ad_registered s \<Longrightarrow> adm_inv (pump s)"
  by (simp add: adm_inv_def pump_books pump_pumped pump_registered)

lemma pump_inFlight:
  "ad_cap (pump s) = ad_cap s \<and> ad_inFlight s \<le> ad_inFlight (pump s) \<and>
   (ad_inFlight s < ad_inFlight (pump s) \<longrightarrow> int (ad_inFlight (pump s)) \<le> ad_cap s)"
  using pump_loop_spec [of s] by (auto simp: pump_def Let_def)

lemma adm_inv_simps:
  "adm_inv (s\<lparr>ad_rejected := r\<rparr>) = adm_inv s"
  "adm_inv (s\<lparr>ad_aborted := a\<rparr>) = adm_inv s"
  by (simp_all add: adm_inv_def books_def pumped_def registered_ok_def)

lemma acquire_inv [inv_intros]:
  assumes inv: "adm_inv s" and new: "w \<notin> set (ad_arrived s)"
  shows "adm_inv (acquire s w)"
proof (cases "w \<in> ad_aborted s")
  case True
  with inv show ?thesis by (simp add: acquire_def adm_inv_simps)
next
  case False
  let ?s = "s\<lparr>ad_waiters := ad_waiters s @ [w], ad_arrived := ad_arrived s @ [w],
    ad_registered := True\<rparr>"
  have sub: "subseq (ad_granted s @ ad_waiters s) (ad_arrived s)"
    using inv by (simp add: adm_inv_def books_def)
  then have "w \<notin> set (ad_granted s @ ad_waiters s)"
    using new list_emb_set [OF sub] by blast
  moreover have "subseq ((ad_granted s @ ad_waiters s) @ [w]) (ad_arrived s @ [w])"
    using sub by (intro list_emb_append_mono) auto
  ultimately have "books ?s" using inv by (auto simp: adm_inv_def books_def)
  with False show ?thesis by (simp add: acquire_def pump_inv)
qed

lemma subseq_remove1: "subseq (remove1 x xs) xs"
  by (induction xs) auto

lemma abort_inv [inv_intros]:
  assumes inv: "adm_inv s"
  shows "adm_inv (abort s w)"
proof (cases "w \<in> set (ad_waiters s)")
  case False
  with inv show ?thesis by (simp add: abort_def Let_def adm_inv_simps)
next
  case True
  let ?s = "s\<lparr>ad_aborted := insert w (ad_aborted s), ad_waiters := remove1 w (ad_waiters s),
    ad_rejected := ad_rejected s @ [w]\<rparr>"
  have "subseq (ad_granted s @ remove1 w (ad_waiters s)) (ad_granted s @ ad_waiters s)"
    by (intro list_emb_append_mono subseq_remove1) simp
  then have "books ?s"
    using inv set_remove1_subset [of w "ad_waiters s"]
    by (auto simp: adm_inv_def books_def intro: subseq_order.trans)
  moreover have "ad_registered ?s"
    using inv True by (auto simp: adm_inv_def registered_ok_def)
  ultimately have "adm_inv (pump ?s)" by (rule pump_inv)
  with True show ?thesis by (simp add: abort_def Let_def)
qed

lemma unreleased_inFlight:
  assumes "books s" "w \<in> set (ad_granted s)" "w \<notin> ad_released s"
  shows "0 < ad_inFlight s"
proof -
  have "insert w (ad_released s) \<subseteq> set (ad_granted s)" and fin: "finite (ad_released s)"
    using assms by (auto simp: books_def intro: finite_subset)
  then have "card (insert w (ad_released s)) \<le> length (ad_granted s)"
    by (meson card_length card_mono finite_set le_trans)
  with assms fin show ?thesis by (auto simp: books_def)
qed

lemma release_inv [inv_intros]:
  assumes inv: "adm_inv s" and w: "w \<in> set (ad_granted s)"
  shows "adm_inv (release s w)"
proof (cases "w \<in> ad_released s")
  case True
  with inv show ?thesis by (simp add: release_def)
next
  case False
  let ?s = "s\<lparr>ad_released := insert w (ad_released s), ad_inFlight := ad_inFlight s - 1\<rparr>"
  have b: "books s" using inv by (simp add: adm_inv_def)
  have pos: "0 < ad_inFlight s" using unreleased_inFlight [OF b w False] .
  have "finite (ad_released s)" using b by (auto simp: books_def intro: finite_subset)
  with b pos w False have "books ?s" by (auto simp: books_def)
  moreover have "ad_registered ?s" using inv pos by (auto simp: adm_inv_def registered_ok_def)
  ultimately have "adm_inv (pump ?s)" by (rule pump_inv)
  with False show ?thesis by (simp add: release_def)
qed

lemma capacity_change_inv [inv_intros]:
  assumes inv: "adm_inv s"
  shows "adm_inv (capacity_change s cap)"
proof (cases "ad_registered s")
  case True
  moreover have "books (s\<lparr>ad_cap := cap\<rparr>)" using inv by (simp add: adm_inv_def books_def)
  ultimately show ?thesis by (simp add: capacity_change_def Let_def pump_inv)
next
  case False
  with inv show ?thesis
    by (auto simp: capacity_change_def Let_def adm_inv_def books_def pumped_def registered_ok_def)
qed

inductive_cases adm_stepE: "adm_step s t"

lemma adm_step_inv: "adm_step s t \<Longrightarrow> adm_inv s \<Longrightarrow> adm_inv t"
  by (induction rule: adm_step.induct) (auto intro: inv_intros)

lemma adm_reachable_inv: "adm_reachable cap s \<Longrightarrow> adm_inv s"
proof (induction rule: adm_reachable.induct)
  case reach_init
  show ?case
    by (simp add: adm_inv_def books_def pumped_def registered_ok_def empty_admission_def)
next
  case (reach_step s t)
  then show ?case by (blast intro: adm_step_inv)
qed

text \<open>A step that raises the number of permits out leaves it within the cap.\<close>

lemma adm_step_within_cap:
  assumes "adm_step s t" "ad_inFlight s < ad_inFlight t"
  shows "int (ad_inFlight t) \<le> ad_cap t"
  using assms
proof (cases rule: adm_step.cases)
  case (step_acquire w)
  with assms(2) show ?thesis
    using pump_inFlight [of "s\<lparr>ad_waiters := ad_waiters s @ [w], ad_arrived := ad_arrived s @ [w],
      ad_registered := True\<rparr>"]
    by (auto simp: acquire_def split: if_splits)
next
  case (step_abort w)
  with assms(2) show ?thesis
    using pump_inFlight [of "s\<lparr>ad_aborted := insert w (ad_aborted s),
      ad_waiters := remove1 w (ad_waiters s), ad_rejected := ad_rejected s @ [w]\<rparr>"]
    by (auto simp: abort_def Let_def split: if_splits)
next
  case (step_release w)
  with assms(2) show ?thesis
    using pump_inFlight [of "s\<lparr>ad_released := insert w (ad_released s),
      ad_inFlight := ad_inFlight s - 1\<rparr>"]
    by (auto simp: release_def split: if_splits)
next
  case (step_capacity cap)
  with assms(2) show ?thesis
    using pump_inFlight [of "s\<lparr>ad_cap := cap\<rparr>"]
    by (auto simp: capacity_change_def Let_def split: if_splits)
qed



section \<open>The capacity interface\<close>



section \<open>Properties\<close>

text \<open>
  C22. In every reachable state of the permit queue the counter equals the permits out, grants
  and waiters are in order of arrival with no duplicates, no waiter sits while a permit is free,
  and a queue that anyone waits in or holds a permit of is registered for capacity changes.
\<close>

theorem admission_invariant:
  assumes "adm_reachable cap s"
  shows "ad_inFlight s + card (ad_released s) = length (ad_granted s) \<and>
    distinct (ad_granted s @ ad_waiters s) \<and>
    subseq (ad_granted s @ ad_waiters s) (ad_arrived s) \<and>
    (ad_waiters s = [] \<or> ad_cap s \<le> int (ad_inFlight s)) \<and>
    (ad_waiters s \<noteq> [] \<or> ad_inFlight s \<noteq> 0 \<longrightarrow> ad_registered s)"
  using adm_reachable_inv [OF assms]
  by (simp add: adm_inv_def books_def pumped_def registered_ok_def)

lemma admission_run_example:
  "adm_reachable 1 (acquire (acquire (empty_admission 1) 7) 8)"
proof (rule reach_step [OF reach_step [OF reach_init]])
  show "adm_step (empty_admission 1) (acquire (empty_admission 1) 7)"
    by (rule step_acquire) (simp_all add: empty_admission_def)
  show "adm_step (acquire (empty_admission 1) 7) (acquire (acquire (empty_admission 1) 7) 8)"
    by (rule step_acquire)
      (simp_all add: empty_admission_def acquire_def pump_def pump_loop.simps serve_head_def)
qed

theorem admission_invariant_witness:
  "distinct (ad_granted (acquire (acquire (empty_admission 1) 7) 8)
     @ ad_waiters (acquire (acquire (empty_admission 1) 7) 8))"
  using admission_invariant [OF admission_run_example] by blast

text \<open>
  No step pushes the permits out beyond the cap in force: a step that increases the counter
  ends with the counter at or below the cap.
\<close>

theorem admission_respects_cap:
  assumes "adm_step s t" and "ad_inFlight s < ad_inFlight t"
  shows "int (ad_inFlight t) \<le> ad_cap t"
  using assms by (rule adm_step_within_cap)

theorem admission_respects_cap_witness:
  "int (ad_inFlight (acquire (empty_admission 2) 7)) \<le> ad_cap (acquire (empty_admission 2) 7)"
proof (rule admission_respects_cap)
  show "adm_step (empty_admission 2) (acquire (empty_admission 2) 7)"
    by (rule step_acquire) (simp_all add: empty_admission_def)
qed (simp add: empty_admission_def acquire_def pump_def pump_loop.simps serve_head_def)



end
