(* ===== verification/Backoff.thy ===== *)
theory Backoff
  imports Aimd
begin

text \<open>
  The failure circuit of the gateway, \<^verbatim>\<open>packages/llm-gateway/src/failure-backoff.ts\<close>. Times are
  milliseconds; \<open>openUntilMs = 0\<close> means closed, as in the code.
\<close>

record failure_state =
  fs_consecutiveFailures :: nat
  fs_openUntilMs :: int

record backoff =
  bo_failureThreshold :: nat
  bo_backoffMs :: int
  bo_map :: "(string \<times> failure_state) list"

datatype backoff_error = BadThreshold | BadBackoffSeconds

text \<open>The constructor; \<open>Number.isInteger\<close> of a finite number is being its own floor.\<close>

definition js_integer :: "jsnum \<Rightarrow> int option" where
  "js_integer v =
     (case v of Fin q \<Rightarrow> (if of_int \<lfloor>q\<rfloor> = q then Some \<lfloor>q\<rfloor> else None) | NonFinite \<Rightarrow> None)"

definition new_backoff :: "jsnum \<Rightarrow> jsnum \<Rightarrow> backoff_error + backoff" where
  "new_backoff failureThreshold backoffSeconds =
     (case js_integer failureThreshold of
        None \<Rightarrow> Inl BadThreshold
      | Some th \<Rightarrow>
          (if th < 1 then Inl BadThreshold
           else (case js_integer backoffSeconds of
                   None \<Rightarrow> Inl BadBackoffSeconds
                 | Some sec \<Rightarrow>
                     (if sec < 1 then Inl BadBackoffSeconds
                      else Inr \<lparr>bo_failureThreshold = nat th, bo_backoffMs = sec * 1000,
                                bo_map = []\<rparr>))))"

datatype backoff_decision = Closed | OpenFor int string

definition ceil_div1000 :: "int \<Rightarrow> int" where
  "ceil_div1000 ms = - ((- ms) div 1000)"

definition beforeRequest ::
  "backoff \<Rightarrow> int \<Rightarrow> string \<Rightarrow> string \<Rightarrow> backoff \<times> backoff_decision" where
  "beforeRequest b now model url =
     (let key = makeKey model url in
      case map_of (bo_map b) key of
        None \<Rightarrow> (b, Closed)
      | Some s \<Rightarrow>
          (if fs_openUntilMs s > now then
             (b, OpenFor (max 1 (ceil_div1000 (fs_openUntilMs s - now)))
                   (''provider failure backoff open for '' @ model))
           else if fs_openUntilMs s > 0 then (b\<lparr>bo_map := AList.delete key (bo_map b)\<rparr>, Closed)
           else (b, Closed)))"

definition recordSuccess :: "backoff \<Rightarrow> string \<Rightarrow> string \<Rightarrow> backoff" where
  "recordSuccess b model url = b\<lparr>bo_map := AList.delete (makeKey model url) (bo_map b)\<rparr>"

definition recordFailure :: "backoff \<Rightarrow> int \<Rightarrow> string \<Rightarrow> string \<Rightarrow> backoff" where
  "recordFailure b now model url =
     (let key = makeKey model url;
          s = (case map_of (bo_map b) key of
                 Some s \<Rightarrow> s
               | None \<Rightarrow> \<lparr>fs_consecutiveFailures = 0, fs_openUntilMs = 0\<rparr>);
          n = fs_consecutiveFailures s + 1
      in if n \<ge> bo_failureThreshold b
         then b\<lparr>bo_map := AList.update key
                  \<lparr>fs_consecutiveFailures = n, fs_openUntilMs = now + bo_backoffMs b\<rparr> (bo_map b)\<rparr>
         else b\<lparr>bo_map := AList.update key
                  \<lparr>fs_consecutiveFailures = n, fs_openUntilMs = 0\<rparr> (bo_map b)\<rparr>)"

section \<open>Facts\<close>

definition failures_of :: "backoff \<Rightarrow> string \<Rightarrow> string \<Rightarrow> nat" where
  "failures_of b model url =
     (case map_of (bo_map b) (makeKey model url) of None \<Rightarrow> 0 | Some s \<Rightarrow> fs_consecutiveFailures s)"

definition open_until :: "backoff \<Rightarrow> string \<Rightarrow> string \<Rightarrow> int" where
  "open_until b model url =
     (case map_of (bo_map b) (makeKey model url) of None \<Rightarrow> 0 | Some s \<Rightarrow> fs_openUntilMs s)"

lemma beforeRequest_closed_iff:
  assumes "0 \<le> now"
  shows "snd (beforeRequest b now model url) = Closed \<longleftrightarrow> open_until b model url \<le> now"
  using assms by (auto simp: beforeRequest_def open_until_def Let_def split: option.split)

lemma recordFailure_state:
  "failures_of (recordFailure b now model url) model url = failures_of b model url + 1"
  "open_until (recordFailure b now model url) model url =
     (if bo_failureThreshold b \<le> failures_of b model url + 1 then now + bo_backoffMs b else 0)"
  by (auto simp: recordFailure_def failures_of_def open_until_def Let_def update_conv'
      split: option.split)

lemma recordFailure_frame [simp]:
  "bo_failureThreshold (recordFailure b now model url) = bo_failureThreshold b"
  "bo_backoffMs (recordFailure b now model url) = bo_backoffMs b"
  by (simp_all add: recordFailure_def Let_def)

lemma recordSuccess_state [simp]:
  "failures_of (recordSuccess b model url) model url = 0"
  "open_until (recordSuccess b model url) model url = 0"
  by (simp_all add: recordSuccess_def failures_of_def open_until_def delete_conv')

definition failure_run :: "backoff \<Rightarrow> string \<Rightarrow> string \<Rightarrow> int list \<Rightarrow> backoff" where
  "failure_run b model url nows = foldl (\<lambda>b now. recordFailure b now model url) b nows"

lemma failure_run_state:
  "failures_of (failure_run b model url nows) model url = failures_of b model url + length nows \<and>
   bo_failureThreshold (failure_run b model url nows) = bo_failureThreshold b \<and>
   bo_backoffMs (failure_run b model url nows) = bo_backoffMs b"
  unfolding failure_run_def
  by (induction nows arbitrary: b) (auto simp: recordFailure_state)

lemma failure_run_open_until:
  assumes "nows \<noteq> []"
  shows "open_until (failure_run b model url nows) model url =
    (if bo_failureThreshold b \<le> failures_of b model url + length nows
     then last nows + bo_backoffMs b else 0)"
  using assms
proof (induction nows rule: rev_induct)
  case (snoc now nows)
  then show ?case
    using failure_run_state [of b model url nows]
    by (auto simp: failure_run_def recordFailure_state)
qed simp

section \<open>Properties\<close>

text \<open>
  From a fresh circuit, after a run of failures the request is refused exactly when the
  failures reached the threshold and the backoff window that started with the last one is still
  open; the hint is at least one second.
\<close>

theorem backoff_opens_at_threshold:
  assumes "new_backoff th sec = Inr b" and "nows \<noteq> []" and "0 \<le> now"
  shows "(snd (beforeRequest (failure_run b model url nows) now model url) = Closed \<longleftrightarrow>
      length nows < bo_failureThreshold b \<or> last nows + bo_backoffMs b \<le> now) \<and>
    (\<forall>hint msg. snd (beforeRequest (failure_run b model url nows) now model url) = OpenFor hint msg
        \<longrightarrow> 1 \<le> hint)"
proof -
  have "failures_of b model url = 0"
    using assms(1) by (auto simp: new_backoff_def failures_of_def split: option.splits if_splits)
  then show ?thesis
    using beforeRequest_closed_iff [OF assms(3), of "failure_run b model url nows" model url]
      failure_run_open_until [OF assms(2), of b model url] assms(3)
    by (auto simp: beforeRequest_def Let_def split: option.splits if_splits)
qed

theorem backoff_opens_at_threshold_witness:
  "snd (beforeRequest (failure_run \<lparr>bo_failureThreshold = 2, bo_backoffMs = 30000, bo_map = []\<rparr>
      ''m'' ''u'' [100, 200]) 300 ''m'' ''u'') \<noteq> Closed"
proof -
  have "new_backoff (Fin 2) (Fin 30) = Inr \<lparr>bo_failureThreshold = 2, bo_backoffMs = 30000, bo_map = []\<rparr>"
    by (simp add: new_backoff_def js_integer_def)
  from backoff_opens_at_threshold [OF this, of "[100, 200]" 300 "''m''" "''u''"] show ?thesis
    by simp
qed

end
