(* ===== verification/ModelIndex.thy ===== *)
theory ModelIndex
  imports Aimd
begin

text \<open>
  The routing table of the gateway, \<^verbatim>\<open>packages/llm-gateway/src/model-index.ts\<close>: endpoints by
  model name with the identity of the resource that owns the entry, and the reverse map.
\<close>

record index_entry =
  ie_endpoint :: model_endpoint
  ie_identity :: string

record model_index =
  mx_map :: "(string \<times> index_entry) list"
  mx_identityToModel :: "(string \<times> string) list"

definition empty_index :: model_index where
  "empty_index = \<lparr>mx_map = [], mx_identityToModel = []\<rparr>"

definition crIdentity :: "model_endpoint \<Rightarrow> string" where
  "crIdentity ep =
     (case ep_namespace ep of Some n \<Rightarrow> n | None \<Rightarrow> ''<no-ns>'') @ ''/'' @ ep_name ep"

record identity_report =
  ir_namespace :: string
  ir_name :: string
  ir_backendUrl :: string

datatype upsert_result = Applied | Collision identity_report identity_report

text \<open>\<open>identity.split('/')\<close>: the part before the first slash and the part up to the next.\<close>

definition split_identity :: "string \<Rightarrow> string \<times> string" where
  "split_identity s =
     (let ns = takeWhile (\<lambda>c. c \<noteq> CHR ''/'') s;
          rest = drop (length ns) s
      in (ns, if rest = [] then ''<unknown>''
              else takeWhile (\<lambda>c. c \<noteq> CHR ''/'') (tl rest)))"

definition report_of :: "string \<Rightarrow> string \<Rightarrow> identity_report" where
  "report_of identity url =
     (let (ns, n) = split_identity identity
      in \<lparr>ir_namespace = ns, ir_name = n, ir_backendUrl = url\<rparr>)"

definition drop_prior :: "model_index \<Rightarrow> string \<Rightarrow> string \<Rightarrow> (string \<times> index_entry) list" where
  "drop_prior mx identity model =
     (case map_of (mx_identityToModel mx) identity of
        Some prior \<Rightarrow>
          (if prior \<noteq> model then
             (case map_of (mx_map mx) prior of
                Some e \<Rightarrow> (if ie_identity e = identity then AList.delete prior (mx_map mx)
                           else mx_map mx)
              | None \<Rightarrow> mx_map mx)
           else mx_map mx)
      | None \<Rightarrow> mx_map mx)"

definition upsert :: "model_index \<Rightarrow> model_endpoint \<Rightarrow> model_index \<times> upsert_result" where
  "upsert mx ep =
     (let identity = crIdentity ep; model = ep_model ep;
          apply_it =
            (\<lparr>mx_map = AList.update model \<lparr>ie_endpoint = ep, ie_identity = identity\<rparr>
                 (drop_prior mx identity model),
              mx_identityToModel = AList.update identity model (mx_identityToModel mx)\<rparr>, Applied)
      in (case map_of (mx_map mx) model of
            Some e \<Rightarrow>
              (if ie_identity e \<noteq> identity
               then (mx, Collision (report_of (ie_identity e) (ep_backendUrl (ie_endpoint e)))
                                   (report_of identity (ep_backendUrl ep)))
               else apply_it)
          | None \<Rightarrow> apply_it))"

definition replaceAll :: "model_endpoint list \<Rightarrow> model_index" where
  "replaceAll eps = foldl (\<lambda>mx ep. fst (upsert mx ep)) empty_index eps"

definition delete :: "model_index \<Rightarrow> string \<Rightarrow> string option \<Rightarrow> model_index" where
  "delete mx model hint =
     (case hint of
        None \<Rightarrow> mx\<lparr>mx_map := AList.delete model (mx_map mx)\<rparr>
      | Some identity \<Rightarrow>
          (case map_of (mx_map mx) model of
             None \<Rightarrow> mx
           | Some e \<Rightarrow>
               (if ie_identity e = identity
                then \<lparr>mx_map = AList.delete model (mx_map mx),
                      mx_identityToModel = AList.delete identity (mx_identityToModel mx)\<rparr>
                else mx)))"

definition list_endpoints :: "model_index \<Rightarrow> model_endpoint list" where
  "list_endpoints mx = map (\<lambda>(k, e). ie_endpoint e) (mx_map mx)"

definition lookup :: "model_index \<Rightarrow> string \<Rightarrow> (model_endpoint \<times> aimd_bounds) option" where
  "lookup mx model =
     (case map_of (mx_map mx) model of
        None \<Rightarrow> None
      | Some e \<Rightarrow> Some (ie_endpoint e, normalizeBounds (ie_endpoint e)))"

section \<open>Invariant\<close>

text \<open>
  Every entry is the endpoint its key and identity say; an identity owns at most one model, the
  one the reverse map remembers.
\<close>

definition index_ok :: "model_index \<Rightarrow> bool" where
  "index_ok mx \<longleftrightarrow>
     (\<forall>m e. map_of (mx_map mx) m = Some e \<longrightarrow>
        ep_model (ie_endpoint e) = m \<and> ie_identity e = crIdentity (ie_endpoint e) \<and>
        map_of (mx_identityToModel mx) (crIdentity (ie_endpoint e)) = Some m)"

lemma index_ok_empty: "index_ok empty_index"
  by (simp add: index_ok_def empty_index_def)

lemma index_ok_owner:
  "index_ok mx \<Longrightarrow> map_of (mx_map mx) m1 = Some e1 \<Longrightarrow> map_of (mx_map mx) m2 = Some e2 \<Longrightarrow>
    ie_identity e1 = ie_identity e2 \<Longrightarrow> m1 = m2"
  unfolding index_ok_def by (metis option.inject)

lemma index_ok_identity:
  "index_ok mx \<Longrightarrow> map_of (mx_map mx) m = Some e \<Longrightarrow>
    map_of (mx_identityToModel mx) (ie_identity e) = Some m"
  by (simp add: index_ok_def)

lemma drop_prior_lookup:
  assumes ok: "index_ok mx"
  shows "map_of (drop_prior mx identity model) m =
     (case map_of (mx_map mx) m of
        Some e \<Rightarrow> (if ie_identity e = identity \<and> m \<noteq> model then None else Some e)
      | None \<Rightarrow> None)"
proof (cases "map_of (mx_map mx) m")
  case None
  then show ?thesis by (simp add: drop_prior_def delete_conv' split: option.split)
next
  case m: (Some e)
  show ?thesis
  proof (cases "ie_identity e = identity")
    case True
    with index_ok_identity [OF ok m] have "map_of (mx_identityToModel mx) identity = Some m"
      by simp
    with m True show ?thesis by (auto simp: drop_prior_def delete_conv')
  next
    case False
    with m show ?thesis by (auto simp: drop_prior_def delete_conv' split: option.split)
  qed
qed

lemma upsert_ok [inv_intros]:
  assumes "index_ok mx"
  shows "index_ok (fst (upsert mx ep))"
  using assms
  by (auto simp: upsert_def Let_def index_ok_def update_conv' drop_prior_lookup [OF assms]
      split: option.splits if_splits)

lemma replaceAll_ok: "index_ok (replaceAll eps)"
proof -
  have "index_ok mx \<Longrightarrow> index_ok (foldl (\<lambda>mx ep. fst (upsert mx ep)) mx eps)" for mx
    by (induction eps arbitrary: mx) (auto intro: upsert_ok)
  then show ?thesis by (simp add: replaceAll_def index_ok_empty)
qed

lemma delete_ok [inv_intros]:
  assumes "index_ok mx"
  shows "index_ok (delete mx model hint)"
proof (cases hint)
  case None
  with assms show ?thesis by (auto simp: delete_def index_ok_def delete_conv' split: if_splits)
next
  case (Some identity)
  show ?thesis
  proof (cases "map_of (mx_map mx) model")
    case None
    with Some assms show ?thesis by (simp add: delete_def)
  next
    case e: (Some e)
    have "ie_identity e' \<noteq> identity"
      if "map_of (mx_map mx) m = Some e'" "m \<noteq> model" "ie_identity e = identity" for m e'
      using that index_ok_owner [OF assms e] by metis
    with Some e assms show ?thesis
      by (auto simp: delete_def index_ok_def delete_conv' split: if_splits)
  qed
qed

section \<open>Properties\<close>

text \<open>
  The routing table is deterministic: an upsert of a free or owned model name is applied and
  looked up as itself with safe bounds, a claim on a name another resource owns is refused and
  changes nothing, and either way an entry another resource owns keeps its backend.
\<close>

theorem upsert_routing:
  assumes "index_ok mx"
  shows "(snd (upsert mx ep) = Applied \<longrightarrow>
        lookup (fst (upsert mx ep)) (ep_model ep) = Some (ep, normalizeBounds ep) \<and>
        1 \<le> b_minSafe (normalizeBounds ep)) \<and>
    (snd (upsert mx ep) \<noteq> Applied \<longrightarrow> fst (upsert mx ep) = mx) \<and>
    (\<forall>m e. map_of (mx_map mx) m = Some e \<and> ie_identity e \<noteq> crIdentity ep \<longrightarrow>
        map_of (mx_map (fst (upsert mx ep))) m = Some e)"
  by (auto simp: upsert_def Let_def lookup_def update_conv' normalizeBounds_minSafe
      drop_prior_lookup [OF assms] split: option.splits if_splits)

definition sample_endpoint :: "string \<Rightarrow> string \<Rightarrow> model_endpoint" where
  "sample_endpoint name url = \<lparr>ep_namespace = Some ''ns'', ep_name = name, ep_model = ''m'',
     ep_backendKind = ''localai'', ep_backendUrl = url, ep_seed = 2, ep_max = 4,
     ep_minSafe = Some 0\<rparr>"

theorem upsert_routing_witness:
  "lookup (fst (upsert empty_index (sample_endpoint ''a'' ''u1''))) ''m'' =
     Some (sample_endpoint ''a'' ''u1'', normalizeBounds (sample_endpoint ''a'' ''u1''))"
  using upsert_routing [OF index_ok_empty, of "sample_endpoint ''a'' ''u1''"]
  by (simp add: upsert_def empty_index_def Let_def sample_endpoint_def)

datatype index_event = Replace "model_endpoint list" | Upsert model_endpoint
  | Delete string "string option"

fun index_step :: "model_index \<Rightarrow> index_event \<Rightarrow> model_index" where
  "index_step mx (Replace eps) = replaceAll eps"
| "index_step mx (Upsert ep) = fst (upsert mx ep)"
| "index_step mx (Delete m hint) = delete mx m hint"

lemma index_run_ok: "index_ok mx \<Longrightarrow> index_ok (foldl index_step mx evs)"
proof (induction evs arbitrary: mx)
  case (Cons ev evs)
  have "index_ok (index_step mx ev)"
    using Cons.prems by (cases ev) (simp_all add: replaceAll_ok upsert_ok delete_ok)
  with Cons.IH show ?case by simp
qed simp

text \<open>
  Whatever the informer lists, upserts and deletes, every entry stays the one its key and
  owner say, and no resource owns two models.
\<close>

theorem index_invariant:
  "index_ok (foldl index_step empty_index evs)"
  by (rule index_run_ok [OF index_ok_empty])

end
