(* ===== verification/Router.thy ===== *)
theory Router
  imports Backoff ModelIndex
begin

text \<open>
  The per-request orchestration of the gateway, \<^verbatim>\<open>packages/llm-gateway/src/router.ts\<close>: lookup,
  gates, permit, provider call, bookkeeping. A request suspends at two points, the wait for a
  permit and the provider call; what happens there, and what other requests did meanwhile, is
  given by the environment record. The error scrubber is the parameter \<open>scrub\<close>.
\<close>

section \<open>State and environment\<close>

record usage_row =
  us_model :: string
  us_backend :: string
  us_backendUrl :: string
  us_inputTokens :: nat
  us_outputTokens :: nat
  us_latencyMs :: int
  us_statusCode :: nat
  us_errorMessage :: "string option"

record router_deps =
  rd_index :: model_index
  rd_aimd :: aimd_controller
  rd_backoff :: "backoff option"
  rd_usage :: "usage_row list"

datatype end_kind = RequestCancelled | RequestTimeout

datatype provider_outcome =
    ProviderOk int nat nat
  | ProviderBackendError nat "int option" string
  | ProviderOther string

text \<open>
  \<open>en_wait\<close>: the wait for the permit ended in a grant (\<^term>\<open>None\<close>) or in the end of the request.
  \<open>en_endBefore\<close>, \<open>en_endDuring\<close>: the request was over when the permit arrived, or when the
  provider settled. The two flags are the answers of the dispatch switch at its two readings.
\<close>

record router_env =
  en_disabledEntry :: bool
  en_disabledDispatch :: bool
  en_wait :: "end_kind option"
  en_endBefore :: "end_kind option"
  en_provider :: provider_outcome
  en_endDuring :: "end_kind option"
  en_nowEntry :: int
  en_nowQueued :: int
  en_nowDispatch :: int
  en_nowStarted :: int
  en_nowSettled :: int
  en_nowEnded :: int

datatype route_result =
    UnknownModel string
  | ProviderDispatchDisabled string
  | ProviderFailureBackoff string string int
  | RequestEnded end_kind
  | Dispatched int
  | ProviderConfigError string string string
  | BackendThrottled nat int string string string
  | DispatchError string string


definition DEFAULT_BACKEND_RETRY_AFTER_SECONDS :: int where
  "DEFAULT_BACKEND_RETRY_AFTER_SECONDS = 5"

section \<open>Steps\<close>

definition record_usage ::
  "router_deps \<Rightarrow> model_endpoint \<Rightarrow> nat \<Rightarrow> nat \<Rightarrow> int \<Rightarrow> nat \<Rightarrow> string option \<Rightarrow> router_deps" where
  "record_usage d ep inp outp lat status msg =
     d\<lparr>rd_usage := rd_usage d @
        [\<lparr>us_model = ep_model ep, us_backend = ep_backendKind ep, us_backendUrl = ep_backendUrl ep,
          us_inputTokens = inp, us_outputTokens = outp, us_latencyMs = lat, us_statusCode = status,
          us_errorMessage = msg\<rparr>]\<rparr>"

definition recordZeroTokenFailure ::
  "router_deps \<Rightarrow> model_endpoint \<Rightarrow> nat \<Rightarrow> string \<Rightarrow> int \<Rightarrow> router_deps" where
  "recordZeroTokenFailure d ep status msg lat = record_usage d ep 0 0 lat status (Some msg)"

definition isNonRetryableProviderConfigError :: "nat \<Rightarrow> string \<Rightarrow> bool" where
  "isNonRetryableProviderConfigError status message =
     (if status \<noteq> 400 \<and> status \<noteq> 404 then False
      else
        (let m = map to_lower message in
         js_includes m ''no such model'' \<or> js_includes m ''invalid model'' \<or>
         js_includes m ''model not found'' \<or> js_includes m ''unknown model''))"

text \<open>The two gates, as run at entry and again after the permit was granted.\<close>

definition gates ::
  "router_deps \<Rightarrow> model_endpoint \<Rightarrow> bool \<Rightarrow> int \<Rightarrow> router_deps \<times> route_result option" where
  "gates d ep disabled now =
     (if disabled then
        (recordZeroTokenFailure d ep 503 ''provider dispatch disabled'' 0,
         Some (ProviderDispatchDisabled (ep_model ep)))
      else
        (case rd_backoff d of
           None \<Rightarrow> (d, None)
         | Some b \<Rightarrow>
             (let (b', decision) = beforeRequest b now (ep_model ep) (ep_backendUrl ep);
                  d' = d\<lparr>rd_backoff := Some b'\<rparr>
              in case decision of
                   Closed \<Rightarrow> (d', None)
                 | OpenFor hint msg \<Rightarrow>
                     (recordZeroTokenFailure d' ep 503 msg 0,
                      Some (ProviderFailureBackoff (ep_model ep) (ep_backendKind ep) hint)))))"

definition aimd_error :: "router_deps \<Rightarrow> model_endpoint \<Rightarrow> int \<Rightarrow> router_deps" where
  "aimd_error d ep now =
     d\<lparr>rd_aimd := fst (onError (rd_aimd d) now (ep_model ep) (ep_backendUrl ep))\<rparr>"

definition circuit_failure :: "router_deps \<Rightarrow> model_endpoint \<Rightarrow> int \<Rightarrow> router_deps" where
  "circuit_failure d ep now =
     d\<lparr>rd_backoff := map_option (\<lambda>b. recordFailure b now (ep_model ep) (ep_backendUrl ep)) (rd_backoff d)\<rparr>"

definition circuit_success :: "router_deps \<Rightarrow> model_endpoint \<Rightarrow> router_deps" where
  "circuit_success d ep =
     d\<lparr>rd_backoff := map_option (\<lambda>b. recordSuccess b (ep_model ep) (ep_backendUrl ep)) (rd_backoff d)\<rparr>"

text \<open>The provider call settled while the request was alive.\<close>

definition provider_settled ::
  "(string \<Rightarrow> string) \<Rightarrow> router_deps \<Rightarrow> model_endpoint \<Rightarrow> router_env \<Rightarrow> router_deps \<times> route_result"
where
  "provider_settled scrub d ep env =
     (let now = en_nowSettled env; lat = en_nowSettled env - en_nowStarted env in
      case en_provider env of
        ProviderOk latencyMs inp outp \<Rightarrow>
          (let d1 = circuit_success d ep;
               d2 = d1\<lparr>rd_aimd := fst (onSuccess (rd_aimd d1) now (ep_model ep) (ep_backendUrl ep) latencyMs)\<rparr>
           in (record_usage d2 ep inp outp latencyMs 200 None, Dispatched latencyMs))
      | ProviderBackendError status retryAfter msg \<Rightarrow>
          (if isNonRetryableProviderConfigError status msg then
             (record_usage (circuit_failure (aimd_error d ep now) ep now) ep 0 0 lat 400 (Some (scrub msg)),
              ProviderConfigError (ep_model ep) (ep_backendKind ep) (scrub msg))
           else if status = 429 \<or> status = 503 then
             (record_usage (aimd_error d ep now) ep 0 0 lat status (Some (scrub msg)),
              BackendThrottled status
                (case retryAfter of None \<Rightarrow> DEFAULT_BACKEND_RETRY_AFTER_SECONDS | Some r \<Rightarrow> r)
                (ep_model ep) (ep_backendKind ep) (scrub msg))
           else
             (record_usage (circuit_failure (aimd_error d ep now) ep now) ep 0 0 lat 502 (Some (scrub msg)),
              DispatchError (ep_model ep) (scrub msg)))
      | ProviderOther msg \<Rightarrow>
          (record_usage (circuit_failure (aimd_error d ep now) ep now) ep 0 0 lat 502 (Some (scrub msg)),
           DispatchError (ep_model ep) (scrub msg)))"

text \<open>\<open>dispatch\<close>: \<open>Inl\<close> of the kind where it throws a \<open>RequestEndedError\<close>.\<close>

definition dispatch ::
  "(string \<Rightarrow> string) \<Rightarrow> router_deps \<Rightarrow> model_endpoint \<Rightarrow> router_env
    \<Rightarrow> router_deps \<times> (end_kind + route_result)"
where
  "dispatch scrub d ep env =
     (case en_endBefore env of
        Some k \<Rightarrow> (d, Inl k)
      | None \<Rightarrow>
          (case gates d ep (en_disabledDispatch env) (en_nowDispatch env) of
             (d1, Some r) \<Rightarrow> (d1, Inr r)
           | (d1, None) \<Rightarrow>
               (case en_endDuring env of
                  Some k \<Rightarrow> (d1, Inl k)
                | None \<Rightarrow> (let (d2, r) = provider_settled scrub d1 ep env in (d2, Inr r)))))"





section \<open>Facts\<close>

lemma bookkeeping_usage [simp]:
  "rd_usage (aimd_error d ep now) = rd_usage d"
  "rd_usage (circuit_failure d ep now) = rd_usage d"
  "rd_usage (circuit_success d ep) = rd_usage d"
  "rd_index (aimd_error d ep now) = rd_index d"
  "rd_index (circuit_failure d ep now) = rd_index d"
  "rd_index (circuit_success d ep) = rd_index d"
  by (simp_all add: aimd_error_def circuit_failure_def circuit_success_def)

lemma record_usage_fields [simp]:
  "rd_usage (record_usage d ep inp outp lat status msg) = rd_usage d @
     [\<lparr>us_model = ep_model ep, us_backend = ep_backendKind ep, us_backendUrl = ep_backendUrl ep,
       us_inputTokens = inp, us_outputTokens = outp, us_latencyMs = lat, us_statusCode = status,
       us_errorMessage = msg\<rparr>]"
  "rd_aimd (record_usage d ep inp outp lat status msg) = rd_aimd d"
  "rd_backoff (record_usage d ep inp outp lat status msg) = rd_backoff d"
  "rd_index (record_usage d ep inp outp lat status msg) = rd_index d"
  by (simp_all add: record_usage_def)









text \<open>A throttle leaves the failure circuit as it was.\<close>

lemma throttle_circuit:
  assumes "en_provider env = ProviderBackendError status ra msg" "status = 429 \<or> status = 503"
  shows "rd_backoff (fst (provider_settled scrub d ep env)) = rd_backoff d"
  using assms
  by (auto simp: provider_settled_def isNonRetryableProviderConfigError_def aimd_error_def Let_def)

section \<open>Properties\<close>


definition sample_deps :: router_deps where
  "sample_deps = \<lparr>rd_index = fst (upsert empty_index (sample_endpoint ''a'' ''u'')),
     rd_aimd = new_aimd \<lparr>b_seed = 4, b_max = 8, b_minSafe = 1\<rparr> None None None,
     rd_backoff = Some \<lparr>bo_failureThreshold = 1, bo_backoffMs = 1000, bo_map = []\<rparr>,
     rd_usage = []\<rparr>"

definition sample_env :: "provider_outcome \<Rightarrow> router_env" where
  "sample_env p = \<lparr>en_disabledEntry = False, en_disabledDispatch = False, en_wait = None,
     en_endBefore = None, en_provider = p, en_endDuring = None, en_nowEntry = 0, en_nowQueued = 0,
     en_nowDispatch = 1, en_nowStarted = 1, en_nowSettled = 9, en_nowEnded = 9\<rparr>"


text \<open>
  A settled provider call with a 429 or 503 halves the cap but leaves the failure circuit
  untouched, while any other provider error is counted by the circuit.
\<close>

theorem throttle_spares_circuit:
  assumes "en_provider env = ProviderBackendError status ra msg"
  shows "rd_backoff (fst (provider_settled scrub d ep env)) =
      (if status = 429 \<or> status = 503 then rd_backoff d
       else map_option (\<lambda>b. recordFailure b (en_nowSettled env) (ep_model ep) (ep_backendUrl ep))
              (rd_backoff d))
    \<and> st_cap (ensure (rd_aimd (fst (provider_settled scrub d ep env))) now
        (ep_model ep) (ep_backendUrl ep))
      = halved_cap (ensure (rd_aimd d) (en_nowSettled env) (ep_model ep) (ep_backendUrl ep))"
  using assms throttle_circuit [OF assms]
  by (auto simp: provider_settled_def isNonRetryableProviderConfigError_def aimd_error_def
      circuit_failure_def Let_def onError_def put_state_def ensure_def update_conv'
      onError_state_def)

theorem throttle_spares_circuit_witness:
  "rd_backoff (fst (provider_settled id sample_deps (sample_endpoint ''a'' ''u'')
     (sample_env (ProviderBackendError 429 None ''busy'')))) = rd_backoff sample_deps"
  using throttle_spares_circuit [of "sample_env (ProviderBackendError 429 None ''busy'')" 429 None "''busy''"
    id sample_deps "sample_endpoint ''a'' ''u''" 0]
  by (simp add: sample_env_def)

end
