(* ===== verification/StatusTransitions.thy ===== *)
theory StatusTransitions
  imports Prelude
begin

text \<open>
  The status of an agent task, \<^verbatim>\<open>packages/operator/src/status-transitions.ts\<close>: which phase a
  write may install (\<open>nextPhase\<close>) and how a condition is folded into the list
  (\<open>mergeCondition\<close>). Phases are ordered by progress; the two terminal phases are incomparable.
\<close>

section \<open>Phases\<close>

datatype phase = PhPending | PhDispatched | PhCompleted | PhFailed

definition terminal :: "phase \<Rightarrow> bool" where
  "terminal p \<longleftrightarrow> p = PhCompleted \<or> p = PhFailed"

definition nextPhase :: "phase option \<Rightarrow> phase \<Rightarrow> phase option" where
  "nextPhase current proposed =
     (case current of
        None \<Rightarrow> Some proposed
      | Some c \<Rightarrow>
          (if c = proposed then Some proposed
           else if c = PhCompleted \<or> c = PhFailed then None
           else if c = PhDispatched \<and> proposed = PhPending then None
           else Some proposed))"

text \<open>A status write goes through the guard; \<open>null\<close> means the writer skips the patch.\<close>

definition write_phase :: "phase option \<Rightarrow> phase \<Rightarrow> phase option" where
  "write_phase current proposed =
     (case nextPhase current proposed of None \<Rightarrow> current | Some p \<Rightarrow> Some p)"

text \<open>The progress order: \<open>Pending < Dispatched < Completed, Failed\<close>.\<close>

fun phase_rank :: "phase \<Rightarrow> nat" where
  "phase_rank PhPending = 0"
| "phase_rank PhDispatched = 1"
| "phase_rank PhCompleted = 2"
| "phase_rank PhFailed = 2"

instantiation phase :: order
begin

definition less_eq_phase :: "phase \<Rightarrow> phase \<Rightarrow> bool" where
  "less_eq_phase a b \<longleftrightarrow> a = b \<or> phase_rank a < phase_rank b"

definition less_phase :: "phase \<Rightarrow> phase \<Rightarrow> bool" where
  "less_phase a b \<longleftrightarrow> phase_rank a < phase_rank b"

instance
  by standard (auto simp: less_eq_phase_def less_phase_def)

end

lemma nextPhase_order:
  "nextPhase (Some c) p = (if c \<le> p then Some p else None)"
  by (cases c; cases p) (simp_all add: nextPhase_def less_eq_phase_def)

lemma nextPhase_None [simp]: "nextPhase None p = Some p"
  by (simp add: nextPhase_def)

lemma write_phase_Some:
  "write_phase (Some c) p = Some (if c \<le> p then p else c)"
  by (simp add: write_phase_def nextPhase_order)

lemma terminal_maximal: "terminal c \<Longrightarrow> c \<le> p \<Longrightarrow> p = c"
  by (cases c; cases p) (simp_all add: terminal_def less_eq_phase_def)

text \<open>The order lifted to a phase that may be absent, which is below every other.\<close>

fun phase_le :: "phase option \<Rightarrow> phase option \<Rightarrow> bool" where
  "phase_le None _ = True"
| "phase_le (Some a) (Some b) = (a \<le> b)"
| "phase_le (Some a) None = False"

lemma phase_le_refl [simp]: "phase_le p p"
  by (cases p) simp_all

lemma phase_le_trans: "phase_le a b \<Longrightarrow> phase_le b c \<Longrightarrow> phase_le a c"
  by (cases a; cases b; cases c) (auto intro: order.trans)

lemma phase_le_finished:
  "phase_le p q \<Longrightarrow> p = Some PhCompleted \<or> p = Some PhFailed \<Longrightarrow> q = p"
  using terminal_maximal by (cases p; cases q) (auto simp: terminal_def)

lemma nextPhase_phase_le: "nextPhase p x = Some y \<Longrightarrow> phase_le p (Some y)"
  by (cases p) (auto simp: nextPhase_order split: if_splits)

lemma nextPhase_le: "nextPhase a p = Some q \<Longrightarrow> q = p \<and> phase_le a (Some q)"
  by (cases a) (auto simp: nextPhase_order split: if_splits)

text \<open>Any writers, in any order: each proposes a phase.\<close>

definition phase_after :: "phase option \<Rightarrow> phase list \<Rightarrow> phase option" where
  "phase_after start writes = foldl write_phase start writes"

lemma phase_after_ge:
  "phase_after (Some c) writes = Some d \<Longrightarrow> c \<le> d"
proof (induction writes arbitrary: c)
  case (Cons p ps)
  then show ?case
    by (auto simp: phase_after_def write_phase_Some split: if_splits dest: order.trans)
qed (simp add: phase_after_def)

lemma phase_after_Some: "\<exists>d. phase_after (Some c) writes = Some d"
  by (induction writes arbitrary: c) (simp_all add: phase_after_def write_phase_Some)

lemma phase_after_append:
  "phase_after s (ps @ qs) = phase_after (phase_after s ps) qs"
  by (simp add: phase_after_def)

text \<open>
  The phase of a task never regresses, whoever writes and in whatever order: what later
  writes install is at or above what earlier ones installed, a terminal phase is final, and
  every installed phase was proposed by one of the writers.
\<close>

theorem phase_never_regresses:
  assumes "phase_after None early = Some a"
  shows "(\<exists>b. phase_after None (early @ late) = Some b \<and> a \<le> b \<and> (terminal a \<longrightarrow> b = a)) \<and>
    a \<in> set early"
proof -
  obtain b where b: "phase_after None (early @ late) = Some b"
    using assms phase_after_Some [of a late] by (auto simp: phase_after_append)
  with assms have "a \<le> b"
    using phase_after_ge [of a late b] by (simp add: phase_after_append)
  moreover have "phase_after (Some c) ws = Some a \<Longrightarrow> a = c \<or> a \<in> set ws" for c ws
    by (induction ws arbitrary: c) (auto simp: phase_after_def write_phase_Some split: if_splits)
  then have "a \<in> set early"
    using assms by (cases early) (auto simp: phase_after_def write_phase_def)
  ultimately show ?thesis using b terminal_maximal by blast
qed

theorem phase_never_regresses_witness:
  "phase_after None [PhDispatched, PhPending, PhCompleted] = Some PhCompleted \<and>
   phase_after None ([PhDispatched, PhPending, PhCompleted] @ [PhFailed, PhPending]) = Some PhCompleted"
proof -
  have a: "phase_after None [PhDispatched, PhPending, PhCompleted] = Some PhCompleted"
    by (simp add: phase_after_def write_phase_def nextPhase_def)
  from phase_never_regresses [OF this, of "[PhFailed, PhPending]"] a
  show ?thesis by (simp add: terminal_def)
qed

section \<open>Conditions\<close>

record task_condition =
  tc_type :: string
  tc_status :: string
  tc_reason :: "string option"
  tc_message :: "string option"
  tc_lastTransitionTime :: string
  tc_observedGeneration :: "int option"

text \<open>The scan for the first condition of the incoming type, and what replaces it.\<close>

definition merged_condition :: "task_condition \<Rightarrow> task_condition \<Rightarrow> task_condition" where
  "merged_condition prior incoming =
     (if tc_status prior = tc_status incoming
      then incoming\<lparr>tc_lastTransitionTime := tc_lastTransitionTime prior\<rparr>
      else incoming)"

fun replace_first :: "task_condition list \<Rightarrow> task_condition \<Rightarrow> task_condition list option" where
  "replace_first [] incoming = None"
| "replace_first (c # cs) incoming =
     (if tc_type c = tc_type incoming then Some (merged_condition c incoming # cs)
      else map_option (\<lambda>r. c # r) (replace_first cs incoming))"

definition mergeCondition ::
  "task_condition list option \<Rightarrow> task_condition \<Rightarrow> task_condition list"
where
  "mergeCondition existing incoming =
     (let list = or_empty existing in
      case replace_first list incoming of
        None \<Rightarrow> list @ [incoming]
      | Some r \<Rightarrow> r)"

definition condition_of :: "task_condition list \<Rightarrow> string \<Rightarrow> task_condition option" where
  "condition_of cs ty = find (\<lambda>c. tc_type c = ty) cs"

lemma merged_condition_type [simp]: "tc_type (merged_condition p i) = tc_type i"
  by (simp add: merged_condition_def)

lemma replace_first_None:
  "replace_first cs i = None \<longleftrightarrow> tc_type i \<notin> tc_type ` set cs"
  by (induction cs) auto

lemma replace_first_types:
  "replace_first cs i = Some r \<Longrightarrow> map tc_type r = map tc_type cs"
  by (induction cs arbitrary: r) (auto split: if_splits)

lemma replace_first_lookup:
  "replace_first cs i = Some r \<Longrightarrow>
    condition_of r ty =
      (if ty = tc_type i
       then map_option (\<lambda>p. merged_condition p i) (condition_of cs ty)
       else condition_of cs ty)"
  by (induction cs arbitrary: r) (auto simp: condition_of_def split: if_splits)

lemma condition_of_append:
  "condition_of (cs @ ds) ty =
     (case condition_of cs ty of None \<Rightarrow> condition_of ds ty | Some c \<Rightarrow> Some c)"
  by (induction cs) (auto simp: condition_of_def)

lemma condition_of_None: "condition_of cs ty = None \<longleftrightarrow> ty \<notin> tc_type ` set cs"
  by (auto simp: condition_of_def find_None_iff)

lemma mergeCondition_lookup:
  "condition_of (mergeCondition existing i) ty =
     (if ty = tc_type i
      then Some (case condition_of (or_empty existing) ty of
             None \<Rightarrow> i | Some p \<Rightarrow> merged_condition p i)
      else condition_of (or_empty existing) ty)"
proof (cases "replace_first (or_empty existing) i")
  case None
  then have "condition_of (or_empty existing) (tc_type i) = None"
    by (simp add: replace_first_None condition_of_None)
  with None show ?thesis
    by (auto simp: mergeCondition_def condition_of_append split: option.splits)
       (auto simp: condition_of_def)
next
  case (Some r)
  then have "condition_of (or_empty existing) (tc_type i) \<noteq> None"
    using replace_first_None [of "or_empty existing" i] condition_of_None by force
  with Some show ?thesis
    by (auto simp: mergeCondition_def replace_first_lookup)
qed

lemma mergeCondition_distinct:
  assumes "distinct (map tc_type (or_empty existing))"
  shows "distinct (map tc_type (mergeCondition existing i))"
proof (cases "replace_first (or_empty existing) i")
  case None
  with assms replace_first_None [of "or_empty existing" i] show ?thesis
    by (simp add: mergeCondition_def del: replace_first_None)
next
  case (Some r)
  with assms show ?thesis by (simp add: mergeCondition_def replace_first_types)
qed

lemma mergeCondition_idem:
  assumes "condition_of (or_empty cs) (tc_type i) = Some p" "tc_status p = tc_status i"
    "p = i\<lparr>tc_lastTransitionTime := tc_lastTransitionTime p\<rparr>"
  shows "mergeCondition cs i = or_empty cs"
proof -
  have "replace_first xs i = Some xs" if "condition_of xs (tc_type i) = Some p" for xs
    using that assms(2,3)
    by (induction xs) (auto simp: condition_of_def merged_condition_def split: if_splits)
  from this [OF assms(1)] show ?thesis by (simp add: mergeCondition_def)
qed

text \<open>
  Merging a condition keeps one condition per type and touches no other type; the merged one
  carries the incoming status, reason and message, and its transition time is the old one exactly
  when the status did not change.
\<close>

theorem mergeCondition_contract:
  assumes "distinct (map tc_type (or_empty existing))"
  shows "distinct (map tc_type (mergeCondition existing i)) \<and>
    (\<exists>c. condition_of (mergeCondition existing i) (tc_type i) = Some c \<and>
       tc_status c = tc_status i \<and> tc_reason c = tc_reason i \<and> tc_message c = tc_message i \<and>
       tc_lastTransitionTime c =
         (case condition_of (or_empty existing) (tc_type i) of
            None \<Rightarrow> tc_lastTransitionTime i
          | Some p \<Rightarrow> (if tc_status p = tc_status i then tc_lastTransitionTime p
                     else tc_lastTransitionTime i))) \<and>
    (\<forall>ty. ty \<noteq> tc_type i \<longrightarrow>
       condition_of (mergeCondition existing i) ty = condition_of (or_empty existing) ty)"
  using mergeCondition_distinct [OF assms, of i]
  by (auto simp: mergeCondition_lookup merged_condition_def split: option.splits)

definition sample_condition :: "string \<Rightarrow> string \<Rightarrow> string \<Rightarrow> task_condition" where
  "sample_condition ty st t = \<lparr>tc_type = ty, tc_status = st, tc_reason = None,
     tc_message = None, tc_lastTransitionTime = t, tc_observedGeneration = None\<rparr>"

theorem mergeCondition_contract_witness:
  "distinct (map tc_type (mergeCondition
      (Some [sample_condition ''Failed'' ''True'' ''t0'', sample_condition ''Dispatched'' ''True'' ''t0''])
      (sample_condition ''Failed'' ''True'' ''t1'')))"
  using mergeCondition_contract [of "Some [sample_condition ''Failed'' ''True'' ''t0'',
    sample_condition ''Dispatched'' ''True'' ''t0'']" "sample_condition ''Failed'' ''True'' ''t1''"]
  by (simp add: sample_condition_def)

end
