(* ===== verification/Strategy.thy ===== *)
theory Strategy
  imports StatusTransitions "HOL-Library.Char_ord" "HOL-Library.List_Lexorder"
begin

text \<open>
  The supervision engine, \<^verbatim>\<open>packages/supervision/src/strategy.ts\<close> and \<^verbatim>\<open>types.ts\<close>: a pure
  decision from the strategy of the parent's agent, the failed child and the snapshot of its
  siblings.
\<close>

section \<open>Data\<close>

datatype supervision_strategy = OneForOne | OneForAll | RestForOne | Escalate

datatype supervision_action = Restart | RestartTree | RestartSubset | EscalateToParent

record task_ref =
  tr_uid :: string
  tr_name :: "string option"
  tr_namespace :: "string option"

record sibling_task =
  sb_ref :: task_ref
  sb_phase :: phase
  sb_startedAt :: "string option"
  sb_restartCount :: "int option"

record failed_child =
  fc_ref :: task_ref
  fc_reason :: string
  fc_message :: "string option"

record supervision_decision =
  sd_action :: supervision_action
  sd_strategy :: supervision_strategy
  sd_targets :: "task_ref list"
  sd_reason :: string

definition ALL_SUPERVISION_STRATEGIES :: "string list" where
  "ALL_SUPERVISION_STRATEGIES = [''one_for_one'', ''one_for_all'', ''rest_for_one'', ''escalate'']"

definition DEFAULT_SUPERVISION_STRATEGY :: supervision_strategy where
  "DEFAULT_SUPERVISION_STRATEGY = OneForOne"

definition DEFAULT_MAX_RESTARTS :: int where
  "DEFAULT_MAX_RESTARTS = 3"

section \<open>Start order\<close>

text \<open>
  The comparator of \<open>orderByStart\<close>: by start time, those without one last, ties in input order.
  The times are compared as JavaScript compares strings.
\<close>

datatype start_key = StartedAt string | NotStarted

instantiation start_key :: linorder
begin

fun less_eq_start_key :: "start_key \<Rightarrow> start_key \<Rightarrow> bool" where
  "less_eq_start_key (StartedAt a) (StartedAt b) = (a \<le> b)"
| "less_eq_start_key (StartedAt a) NotStarted = True"
| "less_eq_start_key NotStarted (StartedAt b) = False"
| "less_eq_start_key NotStarted NotStarted = True"

definition less_start_key :: "start_key \<Rightarrow> start_key \<Rightarrow> bool" where
  "less_start_key a b \<longleftrightarrow> a \<le> b \<and> \<not> b \<le> (a::start_key)"

instance
proof
  fix a b c :: start_key
  show "a < b \<longleftrightarrow> a \<le> b \<and> \<not> b \<le> a" by (rule less_start_key_def)
  show "a \<le> a" by (cases a) simp_all
  show "a \<le> b \<Longrightarrow> b \<le> c \<Longrightarrow> a \<le> c" by (cases a; cases b; cases c) auto
  show "a \<le> b \<Longrightarrow> b \<le> a \<Longrightarrow> a = b" by (cases a; cases b) auto
  show "a \<le> b \<or> b \<le> a" by (cases a; cases b) auto
qed

end

definition start_key :: "sibling_task \<Rightarrow> start_key" where
  "start_key s = (case sb_startedAt s of None \<Rightarrow> NotStarted | Some t \<Rightarrow> StartedAt t)"

definition orderByStart :: "sibling_task list \<Rightarrow> sibling_task list" where
  "orderByStart siblings = sort_key start_key siblings"

section \<open>The decision\<close>

definition isInFlight :: "sibling_task \<Rightarrow> bool" where
  "isInFlight s \<longleftrightarrow> sb_phase s = PhPending \<or> sb_phase s = PhDispatched"

fun findFailedIndex :: "sibling_task list \<Rightarrow> task_ref \<Rightarrow> nat option" where
  "findFailedIndex [] failed = None"
| "findFailedIndex (s # ss) failed =
     (if tr_uid (sb_ref s) = tr_uid failed then Some 0
      else map_option Suc (findFailedIndex ss failed))"

text \<open>The loop that collects in-flight siblings, skipping one uid and those already seen.\<close>

fun collect_targets :: "string option \<Rightarrow> string list \<Rightarrow> sibling_task list \<Rightarrow> task_ref list" where
  "collect_targets skip seen [] = []"
| "collect_targets skip seen (s # ss) =
     (if \<not> isInFlight s then collect_targets skip seen ss
      else if skip = Some (tr_uid (sb_ref s)) then collect_targets skip seen ss
      else if tr_uid (sb_ref s) \<in> set seen then collect_targets skip seen ss
      else sb_ref s # collect_targets skip (tr_uid (sb_ref s) # seen) ss)"

definition decideOneForOne :: "supervision_strategy \<Rightarrow> failed_child \<Rightarrow> supervision_decision" where
  "decideOneForOne strategy failure =
     \<lparr>sd_action = Restart, sd_strategy = strategy, sd_targets = [fc_ref failure],
      sd_reason = ''one_for_one: restart only the failed child (reason='' @ fc_reason failure @ '')''\<rparr>"

definition decideOneForAll ::
  "supervision_strategy \<Rightarrow> failed_child \<Rightarrow> sibling_task list \<Rightarrow> supervision_decision"
where
  "decideOneForAll strategy failure siblings =
     (let collected = collect_targets (Some (tr_uid (fc_ref failure))) [] siblings;
          targets = (if tr_uid (fc_ref failure) \<in> tr_uid ` set collected then collected
                     else collected @ [fc_ref failure])
      in \<lparr>sd_action = RestartTree, sd_strategy = strategy, sd_targets = targets,
          sd_reason = ''one_for_all: terminate '' @ string_of_nat (length targets)
            @ '' task(s) + restart whole subtree (failed='' @ tr_uid (fc_ref failure)
            @ '', reason='' @ fc_reason failure @ '')''\<rparr>)"

definition decideRestForOne ::
  "supervision_strategy \<Rightarrow> failed_child \<Rightarrow> sibling_task list \<Rightarrow> supervision_decision"
where
  "decideRestForOne strategy failure siblings =
     (let ordered = orderByStart siblings in
      case findFailedIndex ordered (fc_ref failure) of
        None \<Rightarrow>
          \<lparr>sd_action = RestartSubset, sd_strategy = strategy, sd_targets = [fc_ref failure],
           sd_reason = ''rest_for_one: failed child not in sibling snapshot (informer lag); ''
             @ ''restarting only the failed child (reason='' @ fc_reason failure @ '')''\<rparr>
      | Some idx \<Rightarrow>
          (let targets = fc_ref failure
                 # collect_targets None [tr_uid (fc_ref failure)] (drop (idx + 1) ordered)
           in \<lparr>sd_action = RestartSubset, sd_strategy = strategy, sd_targets = targets,
               sd_reason = ''rest_for_one: terminate failed child + ''
                 @ string_of_nat (length targets - 1)
                 @ '' sibling(s) started after it (reason='' @ fc_reason failure @ '')''\<rparr>))"

definition decideEscalate :: "supervision_strategy \<Rightarrow> failed_child \<Rightarrow> supervision_decision" where
  "decideEscalate strategy failure =
     \<lparr>sd_action = EscalateToParent, sd_strategy = strategy, sd_targets = [fc_ref failure],
      sd_reason = ''escalate: propagate failure to parent task (reason='' @ fc_reason failure @ '')''\<rparr>"

definition evaluateStrategy ::
  "supervision_strategy \<Rightarrow> failed_child \<Rightarrow> sibling_task list \<Rightarrow> supervision_decision"
where
  "evaluateStrategy strategy failure siblings =
     (case strategy of
        OneForOne \<Rightarrow> decideOneForOne strategy failure
      | OneForAll \<Rightarrow> decideOneForAll strategy failure siblings
      | RestForOne \<Rightarrow> decideRestForOne strategy failure siblings
      | Escalate \<Rightarrow> decideEscalate strategy failure)"

definition target_uids :: "supervision_decision \<Rightarrow> string list" where
  "target_uids d = map tr_uid (sd_targets d)"

section \<open>Facts\<close>

lemma collect_targets_sub:
  "t \<in> set (collect_targets skip seen ss) \<Longrightarrow>
    \<exists>s\<in>set ss. sb_ref s = t \<and> isInFlight s \<and> skip \<noteq> Some (tr_uid t) \<and> tr_uid t \<notin> set seen"
proof (induction skip seen ss rule: collect_targets.induct)
  case (2 skip seen s ss)
  show ?case
  proof (cases "isInFlight s \<and> skip \<noteq> Some (tr_uid (sb_ref s)) \<and> tr_uid (sb_ref s) \<notin> set seen")
    case True
    with 2 show ?thesis by auto
  next
    case False
    with 2 show ?thesis by (auto split: if_splits)
  qed
qed simp

lemma collect_targets_complete:
  "s \<in> set ss \<Longrightarrow> isInFlight s \<Longrightarrow> skip \<noteq> Some (tr_uid (sb_ref s)) \<Longrightarrow>
    tr_uid (sb_ref s) \<notin> set seen \<Longrightarrow> tr_uid (sb_ref s) \<in> tr_uid ` set (collect_targets skip seen ss)"
proof (induction skip seen ss rule: collect_targets.induct)
  case (2 skip seen s' ss)
  show ?case
  proof (cases "isInFlight s' \<and> skip \<noteq> Some (tr_uid (sb_ref s')) \<and> tr_uid (sb_ref s') \<notin> set seen")
    case True
    with 2 show ?thesis by (cases "tr_uid (sb_ref s) = tr_uid (sb_ref s')") auto
  next
    case False
    with 2 show ?thesis by (auto split: if_splits)
  qed
qed simp

lemma collect_targets_uids:
  "tr_uid ` set (collect_targets skip seen ss) =
     {tr_uid (sb_ref s) | s. s \<in> set ss \<and> isInFlight s \<and> skip \<noteq> Some (tr_uid (sb_ref s)) \<and>
        tr_uid (sb_ref s) \<notin> set seen}"
  using collect_targets_sub [of _ skip seen ss] collect_targets_complete [of _ ss skip seen]
  by fastforce

lemma collect_targets_distinct:
  "distinct (map tr_uid (collect_targets skip seen ss))"
proof (induction ss arbitrary: seen)
  case (Cons s ss)
  then show ?case by (auto dest: collect_targets_sub)
qed simp

lemma findFailedIndex_None:
  "findFailedIndex ss r = None \<longleftrightarrow> tr_uid r \<notin> (\<lambda>s. tr_uid (sb_ref s)) ` set ss"
  by (induction ss) auto

lemma findFailedIndex_Some:
  "findFailedIndex ss r = Some i \<Longrightarrow>
    i < length ss \<and> tr_uid (sb_ref (ss ! i)) = tr_uid r \<and>
    (\<forall>j<i. tr_uid (sb_ref (ss ! j)) \<noteq> tr_uid r)"
proof (induction ss arbitrary: i)
  case (Cons s ss)
  show ?case
  proof (cases "tr_uid (sb_ref s) = tr_uid r")
    case True
    with Cons.prems show ?thesis by simp
  next
    case False
    with Cons.prems obtain k where k: "findFailedIndex ss r = Some k" "i = Suc k" by auto
    from Cons.IH [OF k(1)] k(2) False show ?thesis
      by (auto simp: nth_Cons split: nat.splits)
  qed
qed simp

text \<open>In the start order, what stands after a sibling started no earlier, what started later
  stands after it.\<close>

lemma orderByStart_after:
  assumes i: "i < length (orderByStart ss)" and s: "s \<in> set (drop (Suc i) (orderByStart ss))"
  shows "start_key (orderByStart ss ! i) \<le> start_key s"
proof -
  have sorted: "sorted (map start_key (orderByStart ss))"
    by (simp add: orderByStart_def)
  from s obtain j where "j < length (orderByStart ss) - Suc i" "s = orderByStart ss ! (Suc i + j)"
    by (auto simp: in_set_conv_nth)
  with sorted_nth_mono [OF sorted, of i "Suc i + j"] show ?thesis by simp
qed

lemma orderByStart_later:
  assumes i: "i < length (orderByStart ss)" and s: "s \<in> set ss"
    and lt: "start_key (orderByStart ss ! i) < start_key s"
  shows "s \<in> set (drop (Suc i) (orderByStart ss))"
proof -
  have sorted: "sorted (map start_key (orderByStart ss))"
    by (simp add: orderByStart_def)
  from s obtain j where j: "j < length (orderByStart ss)" "s = orderByStart ss ! j"
    by (metis in_set_conv_nth orderByStart_def set_sort)
  have "i < j"
  proof (rule ccontr)
    assume "\<not> i < j"
    then have "start_key s \<le> start_key (orderByStart ss ! i)"
      using sorted_nth_mono [OF sorted, of j i] i j by simp
    with lt show False by simp
  qed
  with j have "drop (Suc i) (orderByStart ss) ! (j - Suc i) = s"
    "j - Suc i < length (drop (Suc i) (orderByStart ss))" by auto
  then show ?thesis by (metis nth_mem)
qed

lemma decision_targets:
  "(\<forall>t\<in>set (sd_targets (evaluateStrategy st f ss)).
      t = fc_ref f \<or> (\<exists>s\<in>set ss. sb_ref s = t \<and> isInFlight s)) \<and>
   fc_ref f \<in> set (sd_targets (evaluateStrategy st f ss)) \<and>
   distinct (target_uids (evaluateStrategy st f ss))"
proof (cases st)
  case OneForAll
  have "tr_uid (fc_ref f) \<notin> tr_uid ` set (collect_targets (Some (tr_uid (fc_ref f))) [] ss)"
    by (auto dest: collect_targets_sub)
  with OneForAll collect_targets_distinct show ?thesis
    by (auto simp: evaluateStrategy_def decideOneForAll_def target_uids_def Let_def
        dest: collect_targets_sub)
next
  case RestForOne
  have sub: "set (drop n (orderByStart ss)) \<subseteq> set ss" for n
    using set_drop_subset [of n "orderByStart ss"] by (simp add: orderByStart_def)
  have "\<exists>s\<in>set ss. sb_ref s = t \<and> isInFlight s"
    if "t \<in> set (collect_targets None seen (drop n (orderByStart ss)))" for t seen n
    using collect_targets_sub [OF that] sub by blast
  moreover have "tr_uid (fc_ref f) \<notin> tr_uid ` set (collect_targets None [tr_uid (fc_ref f)] xs)" for xs
    by (auto dest: collect_targets_sub)
  ultimately show ?thesis
    using RestForOne collect_targets_distinct
    by (auto simp: evaluateStrategy_def decideRestForOne_def target_uids_def Let_def
        split: option.splits)
qed (simp_all add: evaluateStrategy_def decideOneForOne_def decideEscalate_def target_uids_def)

definition sib_uid :: "sibling_task \<Rightarrow> string" where
  "sib_uid s = tr_uid (sb_ref s)"

definition other_live :: "sibling_task list \<Rightarrow> sibling_task \<Rightarrow> sibling_task set" where
  "other_live ss e = {s \<in> set ss. isInFlight s \<and> sib_uid s \<noteq> sib_uid e}"

definition targeted :: "supervision_decision \<Rightarrow> sibling_task list \<Rightarrow> sibling_task \<Rightarrow> sibling_task set" where
  "targeted d ss e = {s \<in> other_live ss e. sib_uid s \<in> set (target_uids d)}"

lemma distinct_sibling:
  "distinct (map sib_uid ss) \<Longrightarrow> s \<in> set ss \<Longrightarrow> s' \<in> set ss \<Longrightarrow> sib_uid s = sib_uid s' \<Longrightarrow> s = s'"
  by (auto simp: distinct_map inj_on_def)

lemma target_uids_targeted:
  assumes "sib_uid e = tr_uid (fc_ref f)"
  shows "set (target_uids (evaluateStrategy st f ss)) =
    insert (sib_uid e) (sib_uid ` targeted (evaluateStrategy st f ss) ss e)"
proof
  let ?d = "evaluateStrategy st f ss"
  note dt = decision_targets [of st f ss]
  show "set (target_uids ?d) \<subseteq> insert (sib_uid e) (sib_uid ` targeted ?d ss e)"
  proof
    fix u assume u: "u \<in> set (target_uids ?d)"
    then obtain t where t: "t \<in> set (sd_targets ?d)" "u = tr_uid t"
      by (auto simp: target_uids_def)
    with dt consider "t = fc_ref f" | s where "s \<in> set ss" "sb_ref s = t" "isInFlight s" by blast
    then show "u \<in> insert (sib_uid e) (sib_uid ` targeted ?d ss e)"
    proof cases
      case 1
      with t assms show ?thesis by simp
    next
      case (2 s)
      then have "sib_uid s = u" using t by (simp add: sib_uid_def)
      with 2 u show ?thesis by (cases "u = sib_uid e") (auto simp: targeted_def other_live_def)
    qed
  qed
  show "insert (sib_uid e) (sib_uid ` targeted ?d ss e) \<subseteq> set (target_uids ?d)"
    using dt assms by (auto simp: target_uids_def targeted_def)
qed

lemma alone_targeted:
  assumes "sib_uid e = tr_uid (fc_ref f)" "st = OneForOne \<or> st = Escalate"
  shows "targeted (evaluateStrategy st f ss) ss e = {}"
  using assms by (auto simp: targeted_def other_live_def evaluateStrategy_def decideOneForOne_def
      decideEscalate_def target_uids_def)

lemma all_targeted:
  assumes "sib_uid e = tr_uid (fc_ref f)"
  shows "targeted (evaluateStrategy OneForAll f ss) ss e = other_live ss e"
proof -
  have "sib_uid s \<in> set (target_uids (evaluateStrategy OneForAll f ss))" if "s \<in> other_live ss e" for s
  proof -
    have "sib_uid s \<in> tr_uid ` set (collect_targets (Some (tr_uid (fc_ref f))) [] ss)"
      using that assms by (auto simp: collect_targets_uids other_live_def sib_uid_def)
    then show ?thesis
      by (auto simp: evaluateStrategy_def decideOneForAll_def Let_def target_uids_def)
  qed
  then show ?thesis by (auto simp: targeted_def)
qed

text \<open>The failed child stands in the start order where \<open>findFailedIndex\<close> finds it.\<close>

lemma failed_position:
  assumes "e \<in> set ss" "sib_uid e = tr_uid (fc_ref f)" "distinct (map sib_uid ss)"
  obtains i where "findFailedIndex (orderByStart ss) (fc_ref f) = Some i" "i < length (orderByStart ss)"
    "orderByStart ss ! i = e"
proof -
  have mem: "set (orderByStart ss) = set ss" by (simp add: orderByStart_def)
  have "tr_uid (fc_ref f) \<in> (\<lambda>s. tr_uid (sb_ref s)) ` set (orderByStart ss)"
    unfolding mem
    by (rule rev_image_eqI [OF assms(1)]) (simp add: assms(2) [unfolded sib_uid_def])
  then obtain i where i: "findFailedIndex (orderByStart ss) (fc_ref f) = Some i"
    using findFailedIndex_None [of "orderByStart ss" "fc_ref f"]
    by (cases "findFailedIndex (orderByStart ss) (fc_ref f)") auto
  from findFailedIndex_Some [OF i] have il: "i < length (orderByStart ss)"
    and "sib_uid (orderByStart ss ! i) = sib_uid e" using assms(2) by (auto simp: sib_uid_def)
  then have "orderByStart ss ! i = e"
    using distinct_sibling [OF assms(3)] mem assms(1) by (metis nth_mem)
  with that i il show ?thesis by blast
qed

lemma later_targeted:
  assumes "e \<in> set ss" "sib_uid e = tr_uid (fc_ref f)" "distinct (map sib_uid ss)"
    and "d = evaluateStrategy RestForOne f ss"
  shows "{s \<in> other_live ss e. start_key e < start_key s} \<subseteq> targeted d ss e \<and>
    targeted d ss e \<subseteq> {s \<in> other_live ss e. start_key e \<le> start_key s}"
proof -
  obtain i where i: "findFailedIndex (orderByStart ss) (fc_ref f) = Some i" "i < length (orderByStart ss)"
    and ei: "orderByStart ss ! i = e"
    using failed_position [OF assms(1-3)] .
  have uids: "set (target_uids d) = insert (sib_uid e)
      {sib_uid s | s. s \<in> set (drop (Suc i) (orderByStart ss)) \<and> isInFlight s \<and> sib_uid s \<noteq> sib_uid e}"
    using i assms(2)
    by (auto simp: assms(4) evaluateStrategy_def decideRestForOne_def Let_def target_uids_def
        collect_targets_uids sib_uid_def)
  have "{s \<in> other_live ss e. start_key e < start_key s} \<subseteq> targeted d ss e"
    using orderByStart_later [OF i(2)] ei uids by (auto simp: targeted_def other_live_def)
  moreover have "s \<in> {s \<in> other_live ss e. start_key e \<le> start_key s}" if s: "s \<in> targeted d ss e" for s
  proof -
    obtain s' where s': "s' \<in> set (drop (Suc i) (orderByStart ss))" "sib_uid s = sib_uid s'"
      using s uids by (auto simp: targeted_def other_live_def)
    then have "s' \<in> set ss" by (metis in_set_dropD orderByStart_def set_sort)
    with distinct_sibling [OF assms(3), of s s'] s s'(2) have "s = s'" by (simp add: targeted_def other_live_def)
    with orderByStart_after [OF i(2) s'(1)] ei s show ?thesis by (simp add: targeted_def)
  qed
  ultimately show ?thesis by blast
qed

text \<open>
  What each strategy may touch: the failed child is always a target, every other target is an
  in-flight sibling, and no task is targeted twice; \<open>one_for_one\<close> and \<open>escalate\<close> target the child
  alone, \<open>one_for_all\<close> every in-flight sibling, \<open>rest_for_one\<close> every in-flight sibling that
  started later and none that started earlier.
\<close>

theorem evaluateStrategy_targets:
  assumes "e \<in> set ss" "sib_uid e = tr_uid (fc_ref f)" "distinct (map sib_uid ss)"
    and "d = evaluateStrategy st f ss"
  shows "fc_ref f \<in> set (sd_targets d) \<and> distinct (target_uids d) \<and>
     set (target_uids d) = insert (sib_uid e) (sib_uid ` targeted d ss e) \<and>
     (st = OneForOne \<or> st = Escalate \<longrightarrow> targeted d ss e = {}) \<and>
     (st = OneForAll \<longrightarrow> targeted d ss e = other_live ss e) \<and>
     (st = RestForOne \<longrightarrow>
        {s \<in> other_live ss e. start_key e < start_key s} \<subseteq> targeted d ss e \<and>
        targeted d ss e \<subseteq> {s \<in> other_live ss e. start_key e \<le> start_key s})"
  using decision_targets [of st f ss] target_uids_targeted [OF assms(2), of st ss]
    alone_targeted [OF assms(2), of st ss] all_targeted [OF assms(2), of ss] later_targeted [OF assms(1-3) refl]
  by (auto simp: assms(4))

definition sample_sibling :: "string \<Rightarrow> phase \<Rightarrow> string option \<Rightarrow> sibling_task" where
  "sample_sibling u p t = \<lparr>sb_ref = \<lparr>tr_uid = u, tr_name = None, tr_namespace = None\<rparr>,
     sb_phase = p, sb_startedAt = t, sb_restartCount = None\<rparr>"

theorem evaluateStrategy_targets_witness:
  "distinct (target_uids (evaluateStrategy OneForAll
      \<lparr>fc_ref = \<lparr>tr_uid = ''b'', tr_name = None, tr_namespace = None\<rparr>, fc_reason = ''r'', fc_message = None\<rparr>
      [sample_sibling ''a'' PhDispatched (Some ''1''), sample_sibling ''b'' PhFailed (Some ''2''),
       sample_sibling ''c'' PhPending None]))"
  using evaluateStrategy_targets [of "sample_sibling ''b'' PhFailed (Some ''2'')"
    "[sample_sibling ''a'' PhDispatched (Some ''1''), sample_sibling ''b'' PhFailed (Some ''2''),
       sample_sibling ''c'' PhPending None]"
    "\<lparr>fc_ref = \<lparr>tr_uid = ''b'', tr_name = None, tr_namespace = None\<rparr>, fc_reason = ''r'', fc_message = None\<rparr>"
    _ OneForAll]
  by (simp add: sample_sibling_def sib_uid_def)

end
