(* ===== verification/FailureClassifier.thy ===== *)
theory FailureClassifier
  imports Prelude
begin

text \<open>
  Attribution of failures: \<^verbatim>\<open>packages/operator/src/failure-detector.ts\<close> turns the state of a Job
  and its Pod into a verdict, \<^verbatim>\<open>failure-classifier.ts\<close> splits reasons into structured
  violations, which supervision handles, and infrastructure faults, which it must not.
\<close>

section \<open>Classification of reasons\<close>

datatype failure_class = Structured | Infra | Unknown

definition STRUCTURED_REASONS :: "string list" where
  "STRUCTURED_REASONS =
     [''InvalidInputs'', ''MissingRequiredOutputs'', ''IdempotencyConflict'',
      ''capability_violation'', ''verify_failed'', ''contract.violated'', ''PolicyDenied'',
      ''restart_limit_exceeded'', ''supervision_terminated'']"

definition INFRA_REASONS :: "string list" where
  "INFRA_REASONS =
     [''JobFailed'', ''BackoffLimitExceeded'', ''DeadlineExceeded'', ''OOMKilled'', ''PodFailed'',
      ''Unschedulable'', ''ImagePullBackOff'', ''ErrImagePull'', ''CrashLoopBackOff'',
      ''CreateContainerConfigError'', ''CreateContainerError'', ''RunContainerError'',
      ''InvalidImageName'', ''PreCreateHookError'', ''PostStartHookError'', ''NodeNotReady'',
      ''NodeLost'', ''Evicted'', ''ContainerCannotRun'']"

definition source_prefixes :: "string list" where
  "source_prefixes = [''Job/'', ''Pod/'', ''job/'', ''pod/'']"

definition stripSourcePrefix :: "string \<Rightarrow> string" where
  "stripSourcePrefix reason =
     (case find (\<lambda>p. starts_with reason p) source_prefixes of
        Some p \<Rightarrow> drop (length p) reason
      | None \<Rightarrow> reason)"

definition classifyFailure :: "string option \<Rightarrow> failure_class" where
  "classifyFailure reason =
     (case reason of
        None \<Rightarrow> Unknown
      | Some r \<Rightarrow>
          (if r = [] then Unknown
           else
             (let s = stripSourcePrefix r; low = map to_lower s in
              if starts_with s ''policy_denied:'' then Structured
              else if s \<in> set STRUCTURED_REASONS then Structured
              else if s \<in> set INFRA_REASONS then Infra
              else if js_includes low ''imagepull'' then Infra
              else if js_includes low ''oomkilled'' then Infra
              else if js_includes low ''evicted'' then Infra
              else Unknown)))"

definition shouldTriggerSupervision :: "string option \<Rightarrow> bool" where
  "shouldTriggerSupervision reason \<longleftrightarrow>
     classifyFailure reason = Structured \<or> classifyFailure reason = Unknown"

definition isInfraFault :: "string option \<Rightarrow> bool" where
  "isInfraFault reason \<longleftrightarrow> classifyFailure reason = Infra"

section \<open>Detection\<close>

datatype verdict_source = JobSource | PodSource

record failure_verdict =
  fv_reason :: string
  fv_message :: string
  fv_source :: verdict_source

record k8s_condition =
  kc_type :: string
  kc_status :: string
  kc_reason :: "string option"
  kc_message :: "string option"
  kc_lastTransitionTime :: "js_time option"

record k8s_job =
  jb_name :: "string option"
  jb_conditions :: "k8s_condition list option"
  jb_failed :: "int option"
  jb_backoffLimit :: "int option"

record container_status =
  cs_name :: string
  cs_waiting :: "(string option \<times> string option) option"

record k8s_pod =
  pd_name :: "string option"
  pd_creationTimestamp :: "js_time option"
  pd_phase :: "string option"
  pd_reason :: "string option"
  pd_message :: "string option"
  pd_conditions :: "k8s_condition list option"
  pd_containerStatuses :: "container_status list option"

definition TERMINAL_WAITING_REASONS :: "string list" where
  "TERMINAL_WAITING_REASONS =
     [''ImagePullBackOff'', ''ErrImagePull'', ''CrashLoopBackOff'', ''CreateContainerConfigError'',
      ''CreateContainerError'', ''RunContainerError'', ''InvalidImageName'',
      ''PreCreateHookError'', ''PostStartHookError'']"

definition detectJobFailure :: "k8s_job \<Rightarrow> failure_verdict option" where
  "detectJobFailure job =
     (let conditions = or_empty (jb_conditions job); name = js_or (jb_name job) ''(unknown)'';
          failedCount = js_or (jb_failed job) 0; backoffLimit = js_or (jb_backoffLimit job) 6
      in
      case find (\<lambda>c. kc_type c = ''Failed'' \<and> kc_status c = ''True'') conditions of
        Some f \<Rightarrow>
          Some \<lparr>fv_reason = js_or (kc_reason f) ''JobFailed'',
                fv_message = js_or (kc_message f)
                  (''Job '' @ name @ '' reached condition Failed=True''),
                fv_source = JobSource\<rparr>
      | None \<Rightarrow>
          (case find (\<lambda>c. kc_type c = ''DeadlineExceeded'' \<and> kc_status c = ''True'') conditions of
             Some d \<Rightarrow>
               Some \<lparr>fv_reason = ''DeadlineExceeded'',
                     fv_message = js_or (kc_message d)
                       (''Job '' @ name @ '' exceeded activeDeadlineSeconds''),
                     fv_source = JobSource\<rparr>
           | None \<Rightarrow>
               (if failedCount > backoffLimit then
                  Some \<lparr>fv_reason = ''BackoffLimitExceeded'',
                        fv_message = ''Job '' @ name @ '' failed '' @ string_of_int failedCount
                          @ '' times (backoffLimit='' @ string_of_int backoffLimit @ '')'',
                        fv_source = JobSource\<rparr>
                else None)))"

definition UNSCHEDULABLE_GRACE_MS :: int where
  "UNSCHEDULABLE_GRACE_MS = 10 * 60 * 1000"

definition unschedulableSince :: "k8s_condition \<Rightarrow> k8s_pod \<Rightarrow> int" where
  "unschedulableSince c pod =
     (case (case kc_lastTransitionTime c of Some t \<Rightarrow> Some t | None \<Rightarrow> pd_creationTimestamp pod) of
        Some (At ms) \<Rightarrow> ms
      | _ \<Rightarrow> 0)"

definition waiting_verdict :: "string \<Rightarrow> container_status \<Rightarrow> failure_verdict option" where
  "waiting_verdict podName cs =
     (case cs_waiting cs of
        Some (Some r, m) \<Rightarrow>
          (if r \<in> set TERMINAL_WAITING_REASONS then
             Some \<lparr>fv_reason = r,
                   fv_message = podName @ '' container '' @ cs_name cs @ '' '' @ r
                     @ (case m of None \<Rightarrow> [] | Some t \<Rightarrow> '': '' @ t),
                   fv_source = PodSource\<rparr>
           else None)
      | _ \<Rightarrow> None)"

fun first_verdict :: "string \<Rightarrow> container_status list \<Rightarrow> failure_verdict option" where
  "first_verdict podName [] = None"
| "first_verdict podName (cs # css) =
     (case waiting_verdict podName cs of Some v \<Rightarrow> Some v | None \<Rightarrow> first_verdict podName css)"

definition detectPodFailure :: "k8s_pod \<Rightarrow> int \<Rightarrow> failure_verdict option" where
  "detectPodFailure pod now =
     (let podName = js_or (pd_name pod) ''(unknown)'';
          containers = first_verdict podName (or_empty (pd_containerStatuses pod))
      in
      if pd_phase pod = Some ''Failed'' then
        Some \<lparr>fv_reason = js_or (pd_reason pod) ''PodFailed'',
              fv_message = js_or (pd_message pod) (''Pod '' @ podName @ '' reached phase=Failed''),
              fv_source = PodSource\<rparr>
      else
        (case find (\<lambda>c. kc_type c = ''PodScheduled'') (or_empty (pd_conditions pod)) of
           Some c \<Rightarrow>
             (if kc_status c = ''False'' \<and> kc_reason c = Some ''Unschedulable'' \<and>
                 now - unschedulableSince c pod \<ge> UNSCHEDULABLE_GRACE_MS
              then Some \<lparr>fv_reason = ''Unschedulable'',
                         fv_message = js_or (kc_message c) (''Pod '' @ podName @ '' unschedulable''),
                         fv_source = PodSource\<rparr>
              else containers)
         | None \<Rightarrow> containers))"

definition detectFailure :: "k8s_job \<Rightarrow> k8s_pod option \<Rightarrow> int \<Rightarrow> failure_verdict option" where
  "detectFailure job pod now =
     (case pod of
        None \<Rightarrow> detectJobFailure job
      | Some p \<Rightarrow>
          (case detectPodFailure p now of
             Some v \<Rightarrow> Some v
           | None \<Rightarrow> detectJobFailure job))"

section \<open>Facts\<close>

lemma classify_infra_table:
  "list_all (\<lambda>p. list_all (\<lambda>r. classifyFailure (Some (p @ r)) = Infra) INFRA_REASONS)
     ([] # source_prefixes)"
  by code_simp

lemma classify_infra_reasons:
  "p = [] \<or> p \<in> set source_prefixes \<Longrightarrow> r \<in> set INFRA_REASONS \<Longrightarrow>
    classifyFailure (Some (p @ r)) = Infra"
  using classify_infra_table by (auto simp: list_all_iff)

lemma waiting_reasons_infra: "set TERMINAL_WAITING_REASONS \<subseteq> set INFRA_REASONS"
  by (simp add: TERMINAL_WAITING_REASONS_def INFRA_REASONS_def)

lemma first_verdict_infra:
  "first_verdict n css = Some v \<Longrightarrow> fv_reason v \<in> set INFRA_REASONS"
proof (induction css)
  case (Cons cs css)
  then show ?case
    using waiting_reasons_infra
    by (auto simp: waiting_verdict_def split: option.splits prod.splits if_splits)
qed simp

lemma detectPodFailure_reason:
  "detectPodFailure pod now = Some v \<Longrightarrow>
    fv_reason v \<in> set INFRA_REASONS \<or> pd_reason pod = Some (fv_reason v)"
  using first_verdict_infra [of "js_or (pd_name pod) ''(unknown)''"]
  by (cases "pd_reason pod")
     (auto simp: detectPodFailure_def Let_def INFRA_REASONS_def split: if_splits option.splits)

lemma detectJobFailure_reason:
  assumes "detectJobFailure job = Some v"
  shows "fv_reason v \<in> set INFRA_REASONS \<or>
    (\<exists>c\<in>set (or_empty (jb_conditions job)). kc_type c = ''Failed'' \<and> kc_reason c = Some (fv_reason v))"
proof (cases "find (\<lambda>c. kc_type c = ''Failed'' \<and> kc_status c = ''True'') (or_empty (jb_conditions job))")
  case None
  with assms show ?thesis
    by (auto simp: detectJobFailure_def Let_def INFRA_REASONS_def split: if_splits option.splits)
next
  case (Some c)
  then have "c \<in> set (or_empty (jb_conditions job))" "kc_type c = ''Failed''"
    by (auto simp: find_Some_iff)
  with Some assms show ?thesis
    by (cases "kc_reason c") (auto simp: detectJobFailure_def Let_def INFRA_REASONS_def)
qed

text \<open>
  What the detector attributes to a Job or a Pod never reaches supervision: unless the
  cluster itself supplies a reason outside the catalogue, the verdict classifies as an
  infrastructure fault, with and without the source prefix the status writer adds.
\<close>

theorem detected_faults_skip_supervision:
  assumes "detectFailure job pod now = Some v"
    and "\<And>c r. c \<in> set (or_empty (jb_conditions job)) \<Longrightarrow> kc_type c = ''Failed'' \<Longrightarrow>
      kc_reason c = Some r \<Longrightarrow> r \<in> set INFRA_REASONS"
    and "\<And>p r. pod = Some p \<Longrightarrow> pd_reason p = Some r \<Longrightarrow> r \<in> set INFRA_REASONS"
    and "prefix = [] \<or> prefix \<in> set source_prefixes"
  shows "isInfraFault (Some (prefix @ fv_reason v)) \<and>
    \<not> shouldTriggerSupervision (Some (prefix @ fv_reason v))"
proof -
  consider p where "pod = Some p" "detectPodFailure p now = Some v" | "detectJobFailure job = Some v"
    using assms(1) by (auto simp: detectFailure_def split: option.splits)
  then have "fv_reason v \<in> set INFRA_REASONS"
    using detectPodFailure_reason detectJobFailure_reason assms(2,3) by cases blast+
  from classify_infra_reasons [OF assms(4) this]
  show ?thesis by (simp add: isInfraFault_def shouldTriggerSupervision_def)
qed

definition sample_pod :: k8s_pod where
  "sample_pod = \<lparr>pd_name = Some ''p'', pd_creationTimestamp = None, pd_phase = Some ''Pending'',
     pd_reason = None, pd_message = None, pd_conditions = None,
     pd_containerStatuses = Some [\<lparr>cs_name = ''c'', cs_waiting = Some (Some ''ErrImagePull'', None)\<rparr>]\<rparr>"

theorem detected_faults_skip_supervision_witness:
  "isInfraFault (Some (''Pod/'' @ ''ErrImagePull''))"
proof -
  define job where "job = \<lparr>jb_name = None, jb_conditions = None, jb_failed = None, jb_backoffLimit = None\<rparr>"
  have "detectFailure job (Some sample_pod) 0 = Some \<lparr>fv_reason = ''ErrImagePull'',
      fv_message = ''p container c ErrImagePull'', fv_source = PodSource\<rparr>"
    by (simp add: detectFailure_def detectPodFailure_def sample_pod_def waiting_verdict_def
        TERMINAL_WAITING_REASONS_def)
  then have "isInfraFault (Some (''Pod/'' @ fv_reason \<lparr>fv_reason = ''ErrImagePull'',
      fv_message = ''p container c ErrImagePull'', fv_source = PodSource\<rparr>)) \<and>
    \<not> shouldTriggerSupervision (Some (''Pod/'' @ fv_reason \<lparr>fv_reason = ''ErrImagePull'',
      fv_message = ''p container c ErrImagePull'', fv_source = PodSource\<rparr>))"
    by (rule detected_faults_skip_supervision)
       (auto simp: job_def sample_pod_def source_prefixes_def)
  then show ?thesis by simp
qed

text \<open>
  A pod that cannot be scheduled fails its task only when it has been unschedulable for the
  whole grace period, and only through that condition while no container is stuck.
\<close>

theorem unschedulable_grace:
  assumes "pd_phase pod \<noteq> Some ''Failed''" "or_empty (pd_containerStatuses pod) = []"
    "find (\<lambda>c. kc_type c = ''PodScheduled'') (or_empty (pd_conditions pod)) = Some c"
    "kc_lastTransitionTime c = Some (At since)"
  shows "detectPodFailure pod now \<noteq> None \<longleftrightarrow>
    kc_status c = ''False'' \<and> kc_reason c = Some ''Unschedulable'' \<and> since + 600000 \<le> now"
  using assms
  by (auto simp: detectPodFailure_def unschedulableSince_def UNSCHEDULABLE_GRACE_MS_def Let_def)

theorem unschedulable_grace_witness:
  "detectPodFailure (sample_pod\<lparr>pd_containerStatuses := None, pd_conditions :=
      Some [\<lparr>kc_type = ''PodScheduled'', kc_status = ''False'', kc_reason = Some ''Unschedulable'',
        kc_message = None, kc_lastTransitionTime = Some (At 1000)\<rparr>]\<rparr>) 600999 = None"
    (is "detectPodFailure ?pod _ = None")
  using unschedulable_grace [of ?pod "\<lparr>kc_type = ''PodScheduled'', kc_status = ''False'',
      kc_reason = Some ''Unschedulable'', kc_message = None,
      kc_lastTransitionTime = Some (At 1000)\<rparr>" 1000 600999]
  by (simp add: sample_pod_def)

end
