(* ===== verification/SupervisionRouter.thy ===== *)
theory SupervisionRouter
  imports Strategy FailureClassifier
begin

text \<open>
  Routing of failed tasks, \<^verbatim>\<open>packages/operator/src/supervision-router.ts\<close>: from the event of a
  failed task to the status patches, job deletions and audit events. The cluster is an explicit
  state: the objects the API server holds, what the informer caches answer (which may be older
  than the server, or newer in part, or miss), and the log of what the router asked of its
  collaborators. Reads prefer the cache; a merge patch sets its fields on the server's object of
  that name, whatever the view it was computed from. A refused patch is logged and swallowed by the
  code; \<open>sw_patchFails\<close> names the tasks whose patches are refused, \<open>sw_listFails\<close> and
  \<open>sw_getFails\<close> say that the server refuses reads. A refused job deletion aborts the routing with
  an exception; here deletions succeed. While one failure is routed no other client writes and the
  caches answer as they did at its start.
\<close>

section \<open>Cluster\<close>

record sup_task =
  st_uid :: "string option"
  st_name :: "string option"
  st_namespace :: "string option"
  st_generation :: "int option"
  st_parentUid :: "string option"
  st_targetAgent :: "string option"
  st_phase :: "phase option"
  st_error :: "string option"
  st_startedAt :: "string option"
  st_completedAt :: "string option"
  st_restartCount :: "int option"
  st_conditions :: "task_condition list option"

record sup_agent =
  sa_namespace :: "string option"
  sa_name :: "string option"
  sa_supervisionStrategy :: json
  sa_maxRestarts :: json

type_synonym task_key = "string \<times> string option"

record infra_fault_fields =
  if_task :: task_key
  if_uid :: string
  if_agentName :: string
  if_source :: verdict_source
  if_reason :: string
  if_message :: string

record supervision_applied_fields =
  sf_parentTaskUid :: "string option"
  sf_parentTask :: task_key
  sf_agentName :: string
  sf_decision :: supervision_decision
  sf_failedTaskUid :: string
  sf_failureReason :: string

record restart_limit_fields =
  rl_taskUid :: string
  rl_task :: task_key
  rl_agentName :: string
  rl_restartCount :: int
  rl_maxRestarts :: int

datatype sup_effect =
    SupervisionApplied supervision_applied_fields
  | RestartLimitExceeded restart_limit_fields
  | InfraFault infra_fault_fields
  | JobTerminated task_key string

record sup_world =
  sw_tasks :: "sup_task list"
  sw_agents :: "sup_agent list"
  sw_effects :: "sup_effect list"
  sw_cachedTask :: "string \<Rightarrow> sup_task option"
  sw_cachedChildren :: "string \<Rightarrow> string \<Rightarrow> sup_task list"
  sw_cachedAgent :: "string \<Rightarrow> string \<Rightarrow> sup_agent option"
  sw_listFails :: bool
  sw_getFails :: bool
  sw_now :: string
  sw_patchFails :: "string list"
  sw_resolveAgentName :: "sup_task \<Rightarrow> string option"

definition task_key :: "sup_task \<Rightarrow> task_key" where
  "task_key t = (js_or (st_namespace t) ''default'', st_name t)"

definition emit :: "sup_world \<Rightarrow> sup_effect \<Rightarrow> sup_world" where
  "emit w e = w\<lparr>sw_effects := sw_effects w @ [e]\<rparr>"

text \<open>A merge patch of the status: the fields \<open>f\<close> sets on the object with the task's name.\<close>

definition patch_status :: "sup_world \<Rightarrow> sup_task \<Rightarrow> (sup_task \<Rightarrow> sup_task) \<Rightarrow> sup_world" where
  "patch_status w t f =
     (case st_name t of
        None \<Rightarrow> w
      | Some n \<Rightarrow>
          (if n = [] \<or> n \<in> set (sw_patchFails w) then w
           else w\<lparr>sw_tasks := map (\<lambda>u. if task_key u = task_key t then f u else u) (sw_tasks w)\<rparr>))"

definition ns_of :: "sup_task \<Rightarrow> string" where
  "ns_of t = js_or (st_namespace t) ''default''"

definition fetchTaskByUid :: "sup_world \<Rightarrow> string \<Rightarrow> string \<Rightarrow> sup_task option" where
  "fetchTaskByUid w ns uid =
     (case sw_cachedTask w uid of
        Some t \<Rightarrow> Some t
      | None \<Rightarrow>
          (if sw_listFails w then None
           else find (\<lambda>t. ns_of t = ns \<and> st_uid t = Some uid) (sw_tasks w)))"

definition fetchParentTask :: "sup_world \<Rightarrow> string \<Rightarrow> sup_task \<Rightarrow> sup_task option" where
  "fetchParentTask w ns child =
     (case st_parentUid child of
        None \<Rightarrow> None
      | Some u \<Rightarrow> (if u = [] then None else fetchTaskByUid w ns u))"

definition fetchAgent :: "sup_world \<Rightarrow> sup_task \<Rightarrow> sup_agent option" where
  "fetchAgent w parent =
     (case st_targetAgent parent of
        None \<Rightarrow> None
      | Some n \<Rightarrow>
          (if n = [] then None
           else
             (case sw_cachedAgent w (ns_of parent) n of
                Some a \<Rightarrow> Some a
              | None \<Rightarrow>
                  (if sw_getFails w then None
                   else find (\<lambda>a. js_or (sa_namespace a) ''default'' = ns_of parent
                          \<and> sa_name a = Some n) (sw_agents w)))))"

definition refreshTaskOrDefault :: "sup_world \<Rightarrow> sup_task \<Rightarrow> sup_task" where
  "refreshTaskOrDefault w parent =
     (case st_name parent of
        None \<Rightarrow> parent
      | Some n \<Rightarrow>
          (if n = [] \<or> sw_getFails w then parent
           else js_or (find (\<lambda>t. task_key t = task_key parent) (sw_tasks w)) parent))"

section \<open>Reading the inputs\<close>

definition DEFAULT_MAX_ESCALATION_DEPTH :: nat where
  "DEFAULT_MAX_ESCALATION_DEPTH = 8"

text \<open>The environment variable as the number \<open>Number(raw)\<close> makes of it, or unset.\<close>

definition resolveMaxEscalationDepth :: "jsnum option \<Rightarrow> nat" where
  "resolveMaxEscalationDepth raw =
     (case raw of
        None \<Rightarrow> DEFAULT_MAX_ESCALATION_DEPTH
      | Some NonFinite \<Rightarrow> DEFAULT_MAX_ESCALATION_DEPTH
      | Some (Fin q) \<Rightarrow>
          (if \<not> js_isInteger q \<or> q \<le> 0 then DEFAULT_MAX_ESCALATION_DEPTH else nat \<lfloor>q\<rfloor>))"

definition strategy_of_name :: "string \<Rightarrow> supervision_strategy" where
  "strategy_of_name s =
     (if s = ''one_for_all'' then OneForAll
      else if s = ''rest_for_one'' then RestForOne
      else if s = ''escalate'' then Escalate
      else OneForOne)"

definition resolveStrategy :: "sup_agent \<Rightarrow> supervision_strategy" where
  "resolveStrategy a =
     (case sa_supervisionStrategy a of
        JStr s \<Rightarrow> (if s \<in> set ALL_SUPERVISION_STRATEGIES then strategy_of_name s
                  else DEFAULT_SUPERVISION_STRATEGY)
      | _ \<Rightarrow> DEFAULT_SUPERVISION_STRATEGY)"

definition resolveMaxRestarts :: "sup_agent \<Rightarrow> int" where
  "resolveMaxRestarts a =
     (case sa_maxRestarts a of
        JNum (Fin q) \<Rightarrow>
          (if \<not> js_isInteger q then DEFAULT_MAX_RESTARTS
           else if q < 0 then DEFAULT_MAX_RESTARTS
           else \<lfloor>q\<rfloor>)
      | _ \<Rightarrow> DEFAULT_MAX_RESTARTS)"

definition taskToRef :: "sup_task \<Rightarrow> task_ref" where
  "taskToRef t =
     \<lparr>tr_uid = js_or (st_uid t) [], tr_name = st_name t, tr_namespace = st_namespace t\<rparr>"

definition taskToSibling :: "sup_task \<Rightarrow> sibling_task" where
  "taskToSibling t =
     \<lparr>sb_ref = taskToRef t, sb_phase = js_or (st_phase t) PhPending,
      sb_startedAt = st_startedAt t, sb_restartCount = st_restartCount t\<rparr>"

definition listSiblings :: "sup_world \<Rightarrow> string \<Rightarrow> string \<Rightarrow> sibling_task list" where
  "listSiblings w parentUid ns =
     map taskToSibling (sw_cachedChildren w parentUid ns)"

text \<open>The message part after the dash is cut off the error text when a colon comes first.\<close>

definition error_reason :: "string \<Rightarrow> string" where
  "error_reason err =
     (case (js_index_of err '':'', js_index_of err ('' '' @ em_dash @ '' '')) of
        (Some colon, Some dash) \<Rightarrow> (if dash > colon then take dash err else err)
      | _ \<Rightarrow> err)"

definition reason_holds :: "task_condition \<Rightarrow> bool" where
  "reason_holds c \<longleftrightarrow> tc_status c = ''True'' \<and> tc_reason c \<noteq> None \<and> tc_reason c \<noteq> Some []"

definition extractFailureReason :: "sup_task \<Rightarrow> string option" where
  "extractFailureReason t =
     (case find reason_holds (rev (or_empty (st_conditions t))) of
        Some c \<Rightarrow> tc_reason c
      | None \<Rightarrow>
          (case st_error t of
             None \<Rightarrow> None
           | Some e \<Rightarrow> (if e = [] then None else Some (error_reason e))))"

section \<open>Status writes\<close>

definition supervision_condition ::
  "sup_world \<Rightarrow> sup_task \<Rightarrow> string \<Rightarrow> string \<Rightarrow> string \<Rightarrow> task_condition"
where
  "supervision_condition w t ty reason msg =
     \<lparr>tc_type = ty, tc_status = ''True'', tc_reason = Some reason, tc_message = Some msg,
      tc_lastTransitionTime = sw_now w, tc_observedGeneration = st_generation t\<rparr>"

definition patchRestartCount :: "sup_world \<Rightarrow> sup_task \<Rightarrow> int \<Rightarrow> string \<Rightarrow> sup_world" where
  "patchRestartCount w t nxt reason =
     patch_status w t (\<lambda>u. u\<lparr>st_restartCount := Some nxt,
       st_conditions := Some (mergeCondition (st_conditions t)
         (supervision_condition w t ''SupervisionRestart'' ''supervision_restart''
           (''restart #'' @ string_of_int nxt @ '' ('' @ reason @ '')'')))\<rparr>)"

definition markTerminatedBySupervision :: "sup_world \<Rightarrow> sup_task \<Rightarrow> string \<Rightarrow> sup_world" where
  "markTerminatedBySupervision w t reason =
     (case nextPhase (st_phase t) PhFailed of
        None \<Rightarrow> w
      | Some proposed \<Rightarrow>
          patch_status w t (\<lambda>u. u\<lparr>st_phase := Some proposed,
            st_error := Some (''supervision_terminated: '' @ reason),
            st_completedAt := Some (sw_now w),
            st_conditions := Some (mergeCondition (st_conditions t)
              (supervision_condition w t ''SupervisionTerminated'' ''supervision_terminated'' reason))\<rparr>))"

definition appendCondition :: "sup_world \<Rightarrow> sup_task \<Rightarrow> string \<Rightarrow> string \<Rightarrow> string \<Rightarrow> sup_world" where
  "appendCondition w t ty reason msg =
     patch_status w t (\<lambda>u. u\<lparr>st_conditions := Some (mergeCondition (st_conditions t)
       (supervision_condition w t ty reason msg))\<rparr>)"

definition markEscalatedParentFailed :: "sup_world \<Rightarrow> sup_task \<Rightarrow> string \<Rightarrow> sup_world" where
  "markEscalatedParentFailed w parent reason =
     (if st_phase parent = Some PhFailed then w
      else markTerminatedBySupervision w parent (''escalate: '' @ reason))"

section \<open>Applying a decision\<close>

definition restart_target ::
  "sup_world \<Rightarrow> supervision_decision \<Rightarrow> sup_agent \<Rightarrow> sup_task \<Rightarrow> string \<Rightarrow> sup_world \<times> string list"
where
  "restart_target w decision agent t uid =
     (let maxRestarts = resolveMaxRestarts agent; nxt = js_or (st_restartCount t) 0 + 1 in
      if nxt > maxRestarts then
        (emit (appendCondition w t ''RestartLimitExceeded'' ''restart_limit_exceeded''
             (''restartCount '' @ string_of_int nxt @ '' exceeds maxRestarts '' @ string_of_int maxRestarts))
           (RestartLimitExceeded \<lparr>rl_taskUid = js_or (st_uid t) [], rl_task = task_key t,
              rl_agentName = js_or (sa_name agent) [], rl_restartCount = nxt,
              rl_maxRestarts = maxRestarts\<rparr>), [uid])
      else (patchRestartCount w t nxt (sd_reason decision), []))"

definition terminate_target ::
  "sup_world \<Rightarrow> supervision_decision \<Rightarrow> sup_task \<Rightarrow> string \<Rightarrow> sup_world"
where
  "terminate_target w decision t uid =
     (if (case sd_targets decision of r # _ \<Rightarrow> uid = tr_uid r | [] \<Rightarrow> False) \<and> st_phase t = Some PhFailed
      then w
      else if st_phase t = Some PhFailed \<or> st_phase t = Some PhCompleted then w
      else markTerminatedBySupervision (emit w (JobTerminated (task_key t) (sd_reason decision))) t
             (sd_reason decision))"

definition dispatch_target ::
  "supervision_decision \<Rightarrow> sup_agent \<Rightarrow> string \<Rightarrow> sup_world \<times> string list \<Rightarrow> task_ref
     \<Rightarrow> sup_world \<times> string list"
where
  "dispatch_target decision agent ns acc target =
     (let (w, tripped) = acc; uid = tr_uid target in
      if uid = [] then (w, tripped)
      else
        (case fetchTaskByUid w ns uid of
           None \<Rightarrow> (w, tripped)
         | Some t \<Rightarrow>
             (if sd_action decision = Restart
              then (let (w', new) = restart_target w decision agent t uid in (w', tripped @ new))
              else (terminate_target w decision t uid, tripped))))"

definition dispatchDecision ::
  "sup_world \<Rightarrow> supervision_decision \<Rightarrow> sup_agent \<Rightarrow> sup_task \<Rightarrow> sup_world \<times> string list"
where
  "dispatchDecision w decision agent parent =
     (if sd_action decision = EscalateToParent then (w, [])
      else foldl (dispatch_target decision agent (ns_of parent)) (w, []) (sd_targets decision))"

section \<open>Routing\<close>

datatype routing_result =
    PhaseNotFailed
  | NoParent
  | NoAgent
  | InfraFaultObserved string
  | AppliedDecision supervision_decision "string list"
  | EscalationCap nat

definition classifyInfraSource :: "string option \<Rightarrow> verdict_source" where
  "classifyInfraSource reason =
     (case reason of
        None \<Rightarrow> JobSource
      | Some r \<Rightarrow> (if starts_with r ''Pod/'' \<or> starts_with r ''pod/'' then PodSource else JobSource))"

definition emitInfraSafe :: "sup_world \<Rightarrow> sup_task \<Rightarrow> string option \<Rightarrow> sup_world" where
  "emitInfraSafe w t reasonRaw =
     (let agentName = (case sw_resolveAgentName w t of
          Some r \<Rightarrow> (if r \<noteq> [] then r else js_or (st_targetAgent t) [])
        | None \<Rightarrow> js_or (st_targetAgent t) [])
      in emit w (InfraFault \<lparr>if_task = task_key t, if_uid = js_or (st_uid t) [],
           if_agentName = agentName, if_source = classifyInfraSource reasonRaw,
           if_reason = stripSourcePrefix (js_or reasonRaw []),
           if_message = (case st_error t of Some e \<Rightarrow> e | None \<Rightarrow> js_or reasonRaw [])\<rparr>))"

definition failed_child_of :: "sup_task \<Rightarrow> string option \<Rightarrow> failed_child" where
  "failed_child_of t reason =
     \<lparr>fc_ref = taskToRef t, fc_reason = js_or reason [], fc_message = st_error t\<rparr>"

definition applied_event ::
  "sup_task \<Rightarrow> sup_agent \<Rightarrow> supervision_decision \<Rightarrow> sup_task \<Rightarrow> string option \<Rightarrow> sup_effect"
where
  "applied_event parent agent decision failed reason =
     SupervisionApplied \<lparr>sf_parentTaskUid = st_uid parent, sf_parentTask = task_key parent,
       sf_agentName = js_or (sa_name agent) [], sf_decision = decision,
       sf_failedTaskUid = js_or (st_uid failed) [], sf_failureReason = js_or reason ''(no-reason)''\<rparr>"

text \<open>The \<open>while\<close> loop up the parent chain, bounded by the rounds left.\<close>

fun escalate_loop ::
  "nat \<Rightarrow> nat \<Rightarrow> string \<Rightarrow> sup_world \<Rightarrow> sup_task \<Rightarrow> string option \<Rightarrow> sup_world \<times> routing_result"
where
  "escalate_loop 0 depth ns w currentFailed currentReason = (w, EscalationCap depth)"
| "escalate_loop (Suc rounds) depth ns w currentFailed currentReason =
     (case st_parentUid currentFailed of
        None \<Rightarrow> (w, NoParent)
      | Some parentUid \<Rightarrow>
          (if parentUid = [] then (w, NoParent)
           else
             (case fetchParentTask w ns currentFailed of
                None \<Rightarrow> (w, NoParent)
              | Some parent \<Rightarrow>
                  (case fetchAgent w parent of
                     None \<Rightarrow> (w, NoAgent)
                   | Some agent \<Rightarrow>
                       (let decision = evaluateStrategy (resolveStrategy agent)
                              (failed_child_of currentFailed currentReason)
                              (listSiblings w parentUid ns);
                            (w1, tripped) = dispatchDecision w decision agent parent;
                            w2 = emit w1 (applied_event parent agent decision currentFailed currentReason)
                        in
                        if sd_action decision \<noteq> EscalateToParent
                        then (w2, AppliedDecision decision tripped)
                        else
                          (let w3 = markEscalatedParentFailed w2 parent (sd_reason decision)
                           in escalate_loop rounds (Suc depth) ns w3 (refreshTaskOrDefault w3 parent)
                                (Some ''supervision_terminated'')))))))"

definition routeFailureForSupervision ::
  "nat \<Rightarrow> sup_world \<Rightarrow> sup_task \<Rightarrow> sup_world \<times> routing_result"
where
  "routeFailureForSupervision escalationCap w failedTask =
     (if st_phase failedTask \<noteq> Some PhFailed then (w, PhaseNotFailed)
      else
        (let ns = js_or (st_namespace failedTask) ''default'';
             reasonRaw = extractFailureReason failedTask
         in
         if isInfraFault reasonRaw
         then (emitInfraSafe w failedTask reasonRaw, InfraFaultObserved (js_or reasonRaw ''(no-reason)''))
         else if classifyFailure reasonRaw \<noteq> Structured \<and> classifyFailure reasonRaw \<noteq> Unknown
         then (w, PhaseNotFailed)
         else if st_parentUid failedTask = None \<or> st_parentUid failedTask = Some []
         then (w, NoParent)
         else escalate_loop escalationCap 0 ns w failedTask reasonRaw))"

section \<open>What routing may change\<close>

definition restarts :: "sup_task \<Rightarrow> int" where
  "restarts t = js_or (st_restartCount t) 0"

definition unfinished :: "sup_task \<Rightarrow> bool" where
  "unfinished t \<longleftrightarrow> st_phase t \<noteq> Some PhCompleted \<and> st_phase t \<noteq> Some PhFailed"

text \<open>
  The failed task the \<open>k\<close>-th round deals with, in the world the routing starts from: each round
  before it found a supervisor whose strategy is to escalate.
\<close>

fun escalated :: "sup_world \<Rightarrow> string \<Rightarrow> nat \<Rightarrow> sup_task \<Rightarrow> sup_task option" where
  "escalated w ns 0 f = Some f"
| "escalated w ns (Suc k) f =
     (case escalated w ns k f of
        None \<Rightarrow> None
      | Some g \<Rightarrow>
          (case fetchParentTask w ns g of
             None \<Rightarrow> None
           | Some p \<Rightarrow>
               (case fetchAgent w p of
                  None \<Rightarrow> None
                | Some a \<Rightarrow>
                    (if resolveStrategy a = Escalate then Some (refreshTaskOrDefault w p) else None))))"

text \<open>Round \<open>k\<close> deals with the failed task \<open>g\<close>, its parent \<open>p\<close> and the parent's agent \<open>a\<close>.\<close>

definition in_charge ::
  "nat \<Rightarrow> sup_world \<Rightarrow> string \<Rightarrow> sup_task \<Rightarrow> nat \<Rightarrow> sup_task \<Rightarrow> sup_task \<Rightarrow> sup_agent \<Rightarrow> bool"
where
  "in_charge cap w ns f k g p a \<longleftrightarrow>
     k < cap \<and> escalated w ns k f = Some g \<and> fetchParentTask w ns g = Some p \<and>
     fetchAgent w p = Some a"

text \<open>A restart: of the failed task itself, one more than its view has, within the agent's limit.\<close>

definition restart_granted ::
  "nat \<Rightarrow> sup_world \<Rightarrow> string \<Rightarrow> sup_task \<Rightarrow> task_key \<Rightarrow> int \<Rightarrow> bool"
where
  "restart_granted cap w ns f key n \<longleftrightarrow>
     (\<exists>k g p a v. in_charge cap w ns f k g p a \<and> resolveStrategy a = OneForOne \<and>
        fetchTaskByUid w (ns_of p) (js_or (st_uid g) []) = Some v \<and> task_key v = key \<and>
        n = restarts v + 1 \<and> n \<le> resolveMaxRestarts a)"

text \<open>
  A termination: of the failed task or a sibling, under a strategy that terminates, when the view
  of it is not finished.
\<close>

definition group_uids :: "sup_world \<Rightarrow> string \<Rightarrow> sup_task \<Rightarrow> string set" where
  "group_uids w ns g =
     insert (js_or (st_uid g) [])
       ((\<lambda>t. js_or (st_uid t) []) ` set (sw_cachedChildren w (js_or (st_parentUid g) []) ns))"

definition terminated_by ::
  "nat \<Rightarrow> sup_world \<Rightarrow> string \<Rightarrow> sup_task \<Rightarrow> task_key \<Rightarrow> bool"
where
  "terminated_by cap w ns f key \<longleftrightarrow>
     (\<exists>k g p a v. in_charge cap w ns f k g p a \<and>
        (resolveStrategy a = OneForAll \<or> resolveStrategy a = RestForOne) \<and>
        (\<exists>u\<in>group_uids w ns g. fetchTaskByUid w (ns_of p) u = Some v) \<and>
        unfinished v \<and> task_key v = key)"

text \<open>An escalation fails the supervisor, when the view of it is not finished.\<close>

definition escalated_through ::
  "nat \<Rightarrow> sup_world \<Rightarrow> string \<Rightarrow> sup_task \<Rightarrow> task_key \<Rightarrow> bool"
where
  "escalated_through cap w ns f key \<longleftrightarrow>
     (\<exists>k g p a. in_charge cap w ns f k g p a \<and> resolveStrategy a = Escalate \<and>
        unfinished p \<and> task_key p = key)"

text \<open>One object of the server before and after, \<open>r\<close> saying whether restarts have been granted.\<close>

definition change :: "bool \<Rightarrow> nat \<Rightarrow> sup_world \<Rightarrow> string \<Rightarrow> sup_task \<Rightarrow> sup_task \<Rightarrow> sup_task \<Rightarrow> bool" where
  "change r cap w ns f t t' \<longleftrightarrow>
     st_uid t' = st_uid t \<and> st_name t' = st_name t \<and> st_namespace t' = st_namespace t \<and>
     st_parentUid t' = st_parentUid t \<and> st_targetAgent t' = st_targetAgent t \<and>
     (st_phase t' = st_phase t \<or>
      st_phase t' = Some PhFailed \<and>
        (terminated_by cap w ns f (task_key t) \<or> escalated_through cap w ns f (task_key t))) \<and>
     (st_restartCount t' = st_restartCount t \<or>
      (\<exists>n. r \<and> st_restartCount t' = Some n \<and> restart_granted cap w ns f (task_key t) n))"

definition routed :: "bool \<Rightarrow> nat \<Rightarrow> sup_world \<Rightarrow> string \<Rightarrow> sup_task \<Rightarrow> sup_world \<Rightarrow> bool" where
  "routed r cap w ns f w' \<longleftrightarrow>
     list_all2 (change r cap w ns f) (sw_tasks w) (sw_tasks w') \<and> sw_agents w' = sw_agents w \<and>
     sw_cachedTask w' = sw_cachedTask w \<and> sw_cachedChildren w' = sw_cachedChildren w \<and>
     sw_cachedAgent w' = sw_cachedAgent w \<and> sw_listFails w' = sw_listFails w \<and>
     sw_getFails w' = sw_getFails w \<and>
     (\<exists>es. sw_effects w' = sw_effects w @ es \<and>
        (\<forall>key reason. JobTerminated key reason \<in> set es \<longrightarrow> terminated_by cap w ns f key))"

lemma change_refl [simp]: "change r cap w ns f t t"
  by (simp add: change_def)

lemma change_key: "change r cap w ns f t t' \<Longrightarrow> task_key t' = task_key t"
  by (simp add: change_def task_key_def)

lemma change_unfinished: "change r cap w ns f t t' \<Longrightarrow> unfinished t' \<Longrightarrow> unfinished t"
  by (auto simp: change_def unfinished_def)

lemma change_restarts: "change False cap w ns f t t' \<Longrightarrow> restarts t' = restarts t"
  by (simp add: change_def restarts_def)

lemma change_weaken: "change False cap w ns f t t' \<Longrightarrow> change r cap w ns f t t'"
  by (auto simp: change_def)

lemma routed_weaken: "routed False cap w ns f w' \<Longrightarrow> routed r cap w ns f w'"
  unfolding routed_def by (blast intro: list_all2_mono change_weaken)

lemma routed_refl [simp]: "routed r cap w ns f w"
  by (auto simp: routed_def intro: list_all2_refl)

lemma routed_emit:
  assumes "routed r cap w ns f w'" "\<And>key rs. e = JobTerminated key rs \<Longrightarrow> terminated_by cap w ns f key"
  shows "routed r cap w ns f (emit w' e)"
proof -
  obtain es where es: "sw_effects w' = sw_effects w @ es"
    "\<forall>key reason. JobTerminated key reason \<in> set es \<longrightarrow> terminated_by cap w ns f key"
    using assms(1) unfolding routed_def by blast
  have "\<forall>key reason. JobTerminated key reason \<in> set (es @ [e]) \<longrightarrow> terminated_by cap w ns f key"
    using es(2) assms(2) by (simp only: set_append list.set Un_iff insert_iff empty_iff) blast
  moreover have "sw_effects (emit w' e) = sw_effects w @ (es @ [e])" by (simp add: emit_def es(1))
  ultimately show ?thesis using assms(1) unfolding routed_def by (simp add: emit_def) blast
qed

lemma routed_patch:
  assumes "routed r cap w ns f w'"
    and "\<And>u0 u. change r cap w ns f u0 u \<Longrightarrow> task_key u0 = task_key t \<Longrightarrow>
      change r cap w ns f u0 (g u)"
  shows "routed r cap w ns f (patch_status w' t g)"
proof -
  have l: "list_all2 (change r cap w ns f) (sw_tasks w) (sw_tasks w')"
    using assms(1) by (simp add: routed_def)
  have "list_all2 (change r cap w ns f) (sw_tasks w)
      (map (\<lambda>u. if task_key u = task_key t then g u else u) (sw_tasks w'))"
    unfolding list_all2_map2
    by (rule list_all2_mono [OF l]) (use assms(2) change_key in fastforce)
  with assms(1) show ?thesis
    by (auto simp: patch_status_def routed_def split: option.splits)
qed

lemma find_all2:
  assumes "list_all2 R xs ys" "\<And>x y. R x y \<Longrightarrow> P x = Q y"
  shows "rel_option R (find P xs) (find Q ys)"
  using assms(1) by (induction rule: list_all2_induct) (auto simp: assms(2))

lemma fetch_routed:
  assumes "routed r cap w ns f w'" "fetchTaskByUid w' n u = Some v"
  shows "\<exists>v0. fetchTaskByUid w n u = Some v0 \<and> change r cap w ns f v0 v"
proof -
  have "rel_option (change r cap w ns f) (find (\<lambda>t. ns_of t = n \<and> st_uid t = Some u) (sw_tasks w))
      (find (\<lambda>t. ns_of t = n \<and> st_uid t = Some u) (sw_tasks w'))"
    using assms(1) by (intro find_all2) (auto simp: routed_def change_def ns_of_def)
  with assms show ?thesis
    by (auto simp: fetchTaskByUid_def routed_def option_rel_Some2 split: option.splits if_splits)
qed

lemma fetchParent_routed:
  assumes "routed r cap w ns f w'" "change r cap w ns f g0 g" "fetchParentTask w' n g = Some p"
  shows "\<exists>p0. fetchParentTask w n g0 = Some p0 \<and> change r cap w ns f p0 p"
  using assms fetch_routed [OF assms(1)]
  by (auto simp: fetchParentTask_def change_def split: option.splits if_splits)

lemma fetchAgent_routed:
  "routed r cap w ns f w' \<Longrightarrow> change r cap w ns f p0 p \<Longrightarrow> fetchAgent w' p = fetchAgent w p0"
proof -
  assume "routed r cap w ns f w'" "change r cap w ns f p0 p"
  then have "sw_cachedAgent w' = sw_cachedAgent w" "sw_getFails w' = sw_getFails w"
    "sw_agents w' = sw_agents w" "st_targetAgent p = st_targetAgent p0" "ns_of p = ns_of p0"
    by (simp_all add: routed_def change_def ns_of_def)
  then show "fetchAgent w' p = fetchAgent w p0" by (simp only: fetchAgent_def)
qed

lemma refresh_routed:
  assumes "routed r cap w ns f w'" "change r cap w ns f p0 p"
  shows "change r cap w ns f (refreshTaskOrDefault w p0) (refreshTaskOrDefault w' p)"
proof -
  have "list_all2 (change r cap w ns f) (sw_tasks w) (sw_tasks w')"
    using assms(1) by (simp add: routed_def)
  then have "rel_option (change r cap w ns f) (find (\<lambda>t. task_key t = task_key p0) (sw_tasks w))
      (find (\<lambda>t. task_key t = task_key p0) (sw_tasks w'))"
    by (rule find_all2) (simp add: change_key)
  moreover have "task_key p = task_key p0" by (rule change_key [OF assms(2)])
  moreover have "st_name p = st_name p0" "sw_getFails w' = sw_getFails w"
    using assms by (simp_all add: change_def routed_def)
  ultimately show ?thesis
    using assms(2) unfolding refreshTaskOrDefault_def
    by (cases "st_name p0"; cases "find (\<lambda>t. task_key t = task_key p0) (sw_tasks w)";
        cases "find (\<lambda>t. task_key t = task_key p0) (sw_tasks w')") simp_all
qed

lemma change_fail:
  assumes "change r cap w ns f u0 u"
    "terminated_by cap w ns f (task_key u0) \<or> escalated_through cap w ns f (task_key u0)"
  shows "change r cap w ns f u0 (u\<lparr>st_phase := Some PhFailed, st_error := e, st_completedAt := c,
    st_conditions := cs\<rparr>)"
  using assms by (simp add: change_def)

lemma markTerminated_routed:
  assumes "routed r cap w ns f w'" "unfinished t"
    "terminated_by cap w ns f (task_key t) \<or> escalated_through cap w ns f (task_key t)"
  shows "routed r cap w ns f (markTerminatedBySupervision w' t rs)"
proof (cases "nextPhase (st_phase t) PhFailed")
  case None
  then show ?thesis by (simp add: markTerminatedBySupervision_def assms(1))
next
  case (Some q)
  then have "q = PhFailed" using nextPhase_le by blast
  then show ?thesis
    using Some assms(3)
    by (auto simp: markTerminatedBySupervision_def intro!: routed_patch [OF assms(1)] change_fail)
qed

lemma appendCondition_routed:
  "routed r cap w ns f w' \<Longrightarrow> routed r cap w ns f (appendCondition w' t ty rs msg)"
  unfolding appendCondition_def by (erule routed_patch) (simp add: change_def)

lemma restart_target_routed:
  assumes w': "routed False cap w ns f w'"
    and granted: "restarts t + 1 \<le> resolveMaxRestarts a \<Longrightarrow>
      restart_granted cap w ns f (task_key t) (restarts t + 1)"
  shows "routed True cap w ns f (fst (restart_target w' d a t u))"
proof (cases "restarts t + 1 > resolveMaxRestarts a")
  case True
  then show ?thesis
    using routed_weaken [OF w'] unfolding restarts_def
    by (auto simp: restart_target_def Let_def intro!: routed_emit appendCondition_routed)
next
  case False
  have "routed True cap w ns f (patchRestartCount w' t (restarts t + 1) rs)" for rs
    unfolding patchRestartCount_def
  proof (rule routed_patch [OF routed_weaken [OF w']])
    fix u0 u assume "change True cap w ns f u0 u" "task_key u0 = task_key t"
    with granted False show "change True cap w ns f u0 (u\<lparr>st_restartCount := Some (restarts t + 1),
        st_conditions := Some (mergeCondition (st_conditions t) (supervision_condition w' t
          ''SupervisionRestart'' ''supervision_restart''
          (''restart #'' @ string_of_int (restarts t + 1) @ '' ('' @ rs @ '')'')))\<rparr>)"
      by (simp add: change_def)
  qed
  with False show ?thesis by (simp add: restart_target_def restarts_def Let_def)
qed

lemma terminate_target_routed:
  assumes "routed r cap w ns f w'" "unfinished t \<Longrightarrow> terminated_by cap w ns f (task_key t)"
  shows "routed r cap w ns f (terminate_target w' d t u)"
proof (cases "unfinished t")
  case True
  then have "routed r cap w ns f (emit w' (JobTerminated (task_key t) (sd_reason d)))"
    using assms by (intro routed_emit) auto
  with True assms(2) show ?thesis
    by (auto simp: terminate_target_def unfinished_def [symmetric] intro!: markTerminated_routed)
      (auto simp: unfinished_def)
next
  case False
  then show ?thesis using assms(1) by (auto simp: terminate_target_def unfinished_def)
qed

lemma strategy_action:
  "sd_action (evaluateStrategy st x ss) = (case st of OneForOne \<Rightarrow> Restart | OneForAll \<Rightarrow> RestartTree
    | RestForOne \<Rightarrow> RestartSubset | Escalate \<Rightarrow> EscalateToParent)"
  by (auto simp: evaluateStrategy_def decideOneForOne_def decideOneForAll_def decideRestForOne_def
      decideEscalate_def Let_def split: supervision_strategy.splits option.splits)

lemma strategy_uids:
  assumes "target \<in> set (sd_targets (evaluateStrategy st (failed_child_of g rs)
    (listSiblings w (js_or (st_parentUid g) []) ns)))"
  shows "tr_uid target \<in> group_uids w ns g"
proof -
  have "target = taskToRef g \<or>
      (\<exists>s\<in>set (listSiblings w (js_or (st_parentUid g) []) ns). sb_ref s = target)"
    using decision_targets [of st "failed_child_of g rs"] assms by (fastforce simp: failed_child_of_def)
  then show ?thesis
    by (auto simp: group_uids_def listSiblings_def taskToSibling_def taskToRef_def)
qed

lemma terminations_routed:
  assumes d: "sd_action d \<noteq> Restart"
    and fetched: "\<And>target v0. target \<in> set ts \<Longrightarrow> fetchTaskByUid w n (tr_uid target) = Some v0 \<Longrightarrow>
      unfinished v0 \<Longrightarrow> terminated_by cap w ns f (task_key v0)"
    and w': "routed r cap w ns f (fst acc)"
  shows "routed r cap w ns f (fst (foldl (dispatch_target d a n) acc ts))"
  using fetched w'
proof (induction ts arbitrary: acc)
  case (Cons target ts)
  obtain w1 tr where acc: "acc = (w1, tr)" by (cases acc)
  have "routed r cap w ns f (fst (dispatch_target d a n acc target))"
  proof (cases "fetchTaskByUid w1 n (tr_uid target)")
    case None
    then show ?thesis using Cons.prems(2) by (simp add: acc dispatch_target_def Let_def)
  next
    case (Some v)
    obtain v0 where v0: "fetchTaskByUid w n (tr_uid target) = Some v0" "change r cap w ns f v0 v"
      using fetch_routed Some Cons.prems(2) unfolding acc by (metis fst_conv)
    have "unfinished v \<Longrightarrow> terminated_by cap w ns f (task_key v)"
      using Cons.prems(1) [OF _ v0(1)] change_unfinished [OF v0(2)] change_key [OF v0(2)] by simp
    then have "routed r cap w ns f (terminate_target w1 d v (tr_uid target))"
      using Cons.prems(2) by (intro terminate_target_routed) (simp_all add: acc)
    with Some d Cons.prems(2) show ?thesis by (simp add: acc dispatch_target_def Let_def)
  qed
  then have "routed r cap w ns f (fst (foldl (dispatch_target d a n) (dispatch_target d a n acc target) ts))"
    by (intro Cons.IH) (auto intro: Cons.prems(1))
  then show ?case by simp
qed simp

text \<open>One round: the decision of round \<open>k\<close>, carried out on a world without restarts so far.\<close>

lemma dispatchDecision_routed:
  assumes w': "routed False cap w ns f w'"
    and g: "change False cap w ns f g0 g" and p: "change False cap w ns f p0 p"
    and c: "in_charge cap w ns f k g0 p0 a"
    and d: "d = evaluateStrategy (resolveStrategy a) (failed_child_of g rs)
      (listSiblings w' (js_or (st_parentUid g) []) ns)"
  shows "routed True cap w ns f (fst (dispatchDecision w' d a p))"
proof -
  have n: "ns_of p = ns_of p0" "st_uid g = st_uid g0" "st_parentUid g = st_parentUid g0"
    using g p by (simp_all add: change_def ns_of_def)
  have sib: "listSiblings w' = listSiblings w"
    using w' by (simp add: fun_eq_iff listSiblings_def routed_def)
  have grp: "group_uids w ns g = group_uids w ns g0"
    by (simp add: group_uids_def n)
  consider "resolveStrategy a = Escalate" | "resolveStrategy a = OneForOne"
    | "resolveStrategy a = OneForAll \<or> resolveStrategy a = RestForOne"
    by (cases "resolveStrategy a") auto
  then show ?thesis
  proof cases
    case 1
    then show ?thesis
      using routed_weaken [OF w'] by (simp add: dispatchDecision_def d strategy_action)
  next
    case 2
    have ds: "sd_action d = Restart" "sd_targets d = [taskToRef g]"
      by (simp_all add: d 2 evaluateStrategy_def decideOneForOne_def failed_child_of_def)
    show ?thesis
    proof (cases "fetchTaskByUid w' (ns_of p) (js_or (st_uid g) [])")
      case None
      then show ?thesis using routed_weaken [OF w'] ds
        by (simp add: dispatchDecision_def dispatch_target_def Let_def taskToRef_def)
    next
      case (Some v)
      then obtain v0 where v0: "fetchTaskByUid w (ns_of p0) (js_or (st_uid g0) []) = Some v0"
        "change False cap w ns f v0 v"
        using fetch_routed [OF w'] unfolding n by metis
      have "restart_granted cap w ns f (task_key v) (restarts v + 1)"
        if "restarts v + 1 \<le> resolveMaxRestarts a"
        unfolding restart_granted_def
        using c 2 v0(1) that change_restarts [OF v0(2)] change_key [OF v0(2)]
        by (auto intro!: exI)
      from restart_target_routed [OF w' this, where d = d and u = "js_or (st_uid g) []"] Some
      show ?thesis using routed_weaken [OF w'] ds
        by (simp add: dispatchDecision_def dispatch_target_def Let_def taskToRef_def split: prod.split)
    qed
  next
    case 3
    then have "sd_action d \<noteq> Restart" "sd_action d \<noteq> EscalateToParent"
      by (auto simp: d strategy_action)
    moreover have "routed True cap w ns f (fst (foldl (dispatch_target d a (ns_of p)) (w', []) (sd_targets d)))"
    proof (rule terminations_routed)
      fix target v0
      assume "target \<in> set (sd_targets d)" "fetchTaskByUid w (ns_of p) (tr_uid target) = Some v0"
        "unfinished v0"
      moreover from this have "tr_uid target \<in> group_uids w ns g0"
        using strategy_uids unfolding d sib grp [symmetric] by blast
      ultimately show "terminated_by cap w ns f (task_key v0)"
        using c 3 unfolding terminated_by_def n by blast
    qed (use calculation routed_weaken [OF w'] in simp_all)
    ultimately show ?thesis by (simp add: dispatchDecision_def)
  qed
qed

lemma escalate_loop_routed:
  assumes "routed False cap w ns f w'" "change False cap w ns f g0 g"
    "escalated w ns k f = Some g0" "k + rounds = cap"
  shows "routed True cap w ns f (fst (escalate_loop rounds k ns w' g rs))"
  using assms
proof (induction rounds arbitrary: k w' g0 g rs)
  case 0
  then show ?case by (simp add: routed_weaken)
next
  case (Suc rounds)
  note w' = Suc.prems(1) and g = Suc.prems(2)
  show ?case
  proof (cases "st_parentUid g = None \<or> st_parentUid g = Some []
      \<or> fetchParentTask w' ns g = None \<or> (\<exists>p. fetchParentTask w' ns g = Some p \<and> fetchAgent w' p = None)")
    case True
    then show ?thesis using routed_weaken [OF w'] by (auto split: option.splits)
  next
    case False
    then obtain pu p a where h: "st_parentUid g = Some pu" "pu \<noteq> []"
      "fetchParentTask w' ns g = Some p" "fetchAgent w' p = Some a" by auto
    obtain p0 where p0: "fetchParentTask w ns g0 = Some p0" "change False cap w ns f p0 p"
      using fetchParent_routed [OF w' g h(3)] by blast
    have a: "fetchAgent w p0 = Some a" using h(4) fetchAgent_routed [OF w' p0(2)] by simp
    have c: "in_charge cap w ns f k g0 p0 a"
      using Suc.prems(3,4) p0(1) a by (simp add: in_charge_def)
    define d where "d = evaluateStrategy (resolveStrategy a) (failed_child_of g rs) (listSiblings w' pu ns)"
    obtain w1 tr where w1: "dispatchDecision w' d a p = (w1, tr)" by fastforce
    define w2 where "w2 = emit w1 (applied_event p a d g rs)"
    show ?thesis
    proof (cases "resolveStrategy a = Escalate")
      case False
      then have na: "sd_action d \<noteq> EscalateToParent"
        by (cases "resolveStrategy a") (simp_all add: d_def strategy_action)
      have "routed True cap w ns f w1"
        using dispatchDecision_routed [OF w' g p0(2) c, where rs = rs and d = d] w1 h(1)
        by (simp add: d_def)
      then have "routed True cap w ns f w2"
        unfolding w2_def by (rule routed_emit) (simp add: applied_event_def)
      with h w1 na show ?thesis by (simp add: d_def [symmetric] w2_def [symmetric])
    next
      case True
      then have na: "sd_action d = EscalateToParent" by (simp add: d_def strategy_action)
      then have "w1 = w'" using w1 by (simp add: dispatchDecision_def)
      then have r2: "routed False cap w ns f w2"
        unfolding w2_def using w' by (intro routed_emit) (simp_all add: applied_event_def)
      have through: "escalated_through cap w ns f (task_key p)" if "unfinished p"
        using c True change_unfinished [OF p0(2) that] change_key [OF p0(2)]
        unfolding escalated_through_def by auto
      define w3 where "w3 = markEscalatedParentFailed w2 p (sd_reason d)"
      have r3: "routed False cap w ns f w3"
      proof (cases "unfinished p")
        case True
        then show ?thesis
          using r2 markTerminated_routed [OF r2 True] through
          by (auto simp: w3_def markEscalatedParentFailed_def)
      next
        case False
        then have "w3 = w2"
          by (auto simp: w3_def markEscalatedParentFailed_def markTerminatedBySupervision_def
              unfinished_def nextPhase_def)
        with r2 show ?thesis by simp
      qed
      have "escalated w ns (Suc k) f = Some (refreshTaskOrDefault w p0)"
        using Suc.prems(3) p0(1) a True by simp
      from Suc.IH [OF r3 refresh_routed [OF r3 p0(2)] this, of "Some ''supervision_terminated''"]
        Suc.prems(4) h w1 na
      show ?thesis by (simp add: d_def [symmetric] w2_def [symmetric] w3_def [symmetric])
    qed
  qed
qed

lemma route_routed:
  "routed True cap w (ns_of f) f (fst (routeFailureForSupervision cap w f))"
  using escalate_loop_routed [of cap w "ns_of f" f w f f 0 cap]
  by (auto simp: routeFailureForSupervision_def Let_def emitInfraSafe_def ns_of_def [symmetric]
      intro!: routed_emit)

text \<open>The caches agree with the server on how far every task has come.\<close>

definition coherent :: "sup_world \<Rightarrow> bool" where
  "coherent w \<longleftrightarrow>
     distinct (map task_key (sw_tasks w)) \<and>
     (\<forall>u v. sw_cachedTask w u = Some v \<longrightarrow>
        (\<forall>t\<in>set (sw_tasks w). task_key t = task_key v \<longrightarrow>
           st_phase t = st_phase v \<and> st_restartCount t = st_restartCount v))"

lemma coherent_view:
  assumes "coherent w" "fetchTaskByUid w n u = Some v" "t \<in> set (sw_tasks w)" "task_key v = task_key t"
  shows "st_phase v = st_phase t \<and> restarts v = restarts t"
proof (cases "sw_cachedTask w u")
  case None
  then have "v \<in> set (sw_tasks w)"
    using assms(2) by (auto simp: fetchTaskByUid_def find_Some_iff split: if_splits)
  then have "v = t" using assms by (auto simp: coherent_def distinct_map inj_on_def)
  then show ?thesis by simp
next
  case (Some v')
  then have "v' = v" using assms(2) by (simp add: fetchTaskByUid_def)
  with Some assms show ?thesis by (auto simp: coherent_def restarts_def)
qed

lemma parent_fetched: "fetchParentTask w ns g = Some p \<Longrightarrow> \<exists>u. fetchTaskByUid w ns u = Some p"
  by (auto simp: fetchParentTask_def split: option.splits if_splits)

lemma doomed_view:
  assumes "terminated_by cap w ns f key \<or> escalated_through cap w ns f key"
  shows "\<exists>n u v. fetchTaskByUid w n u = Some v \<and> task_key v = key \<and> unfinished v"
  using assms
proof
  assume "terminated_by cap w ns f key"
  then show ?thesis unfolding terminated_by_def by blast
next
  assume "escalated_through cap w ns f key"
  then obtain g p where "fetchParentTask w ns g = Some p" "unfinished p" "task_key p = key"
    unfolding escalated_through_def in_charge_def by blast
  with parent_fetched [of w ns g p] show ?thesis by blast
qed

lemma coherent_change:
  assumes w: "coherent w" and t: "t \<in> set (sw_tasks w)" and c: "change r cap w ns f t t'"
  shows "phase_le (st_phase t) (st_phase t') \<and> (restarts t' = restarts t \<or> restarts t' = restarts t + 1)"
proof
  have "unfinished t"
    if "terminated_by cap w ns f (task_key t) \<or> escalated_through cap w ns f (task_key t)"
  proof -
    from that obtain n u v where "fetchTaskByUid w n u = Some v" "task_key v = task_key t" "unfinished v"
      using doomed_view by blast
    with coherent_view [OF w _ t] show ?thesis by (simp add: unfinished_def)
  qed
  moreover have "phase_le p (Some PhFailed)" if "p \<noteq> Some PhCompleted" for p
  proof (cases p)
    case (Some a)
    with that show ?thesis by (cases a) (simp_all add: less_eq_phase_def)
  qed simp
  ultimately show "phase_le (st_phase t) (st_phase t')"
    using c by (auto simp: change_def unfinished_def)
  show "restarts t' = restarts t \<or> restarts t' = restarts t + 1"
    using c coherent_view [OF w _ t]
    by (auto simp: change_def restart_granted_def restarts_def)
qed

text \<open>
  C12. However far a failure escalates, and whatever the caches answer, routing it changes of the
  API server's objects only this. A task's phase changes only to \<open>Failed\<close>, and only for a task whose
  view is unfinished and that is either the failed task or one of its siblings, under the supervisor
  a round deals with when that one's strategy terminates, or the supervisor a round escalates
  through. A restart count changes only for the failed task of a round whose supervisor has the
  strategy \<open>one_for_one\<close>, to one more than its view has and never above the \<open>maxRestarts\<close> of that
  very supervisor's agent. Jobs are deleted only for tasks terminated in this way, and names, owners
  and agents stay. When moreover the caches agree with the server on phases and restart counts, no
  phase regresses, in particular a finished task stays as it is, and a restart count grows by at
  most one; \<open>stale_view_fails_completed\<close> shows that a cache that lags behind the server lets the
  router overwrite a completed task. The rounds are bounded by the escalation cap.
\<close>

theorem routing_is_safe:
  "routed True cap w (ns_of f) f (fst (routeFailureForSupervision cap w f)) \<and>
   (coherent w \<longrightarrow>
      list_all2 (\<lambda>t t'. phase_le (st_phase t) (st_phase t') \<and>
          (restarts t' = restarts t \<or> restarts t' = restarts t + 1))
        (sw_tasks w) (sw_tasks (fst (routeFailureForSupervision cap w f))))"
proof (intro conjI impI)
  show "routed True cap w (ns_of f) f (fst (routeFailureForSupervision cap w f))"
    by (rule route_routed)
  assume w: "coherent w"
  have "list_all2 (change True cap w (ns_of f) f) (sw_tasks w)
      (sw_tasks (fst (routeFailureForSupervision cap w f)))"
    using route_routed [of cap w f] by (simp add: routed_def)
  then show "list_all2 (\<lambda>t t'. phase_le (st_phase t) (st_phase t') \<and>
      (restarts t' = restarts t \<or> restarts t' = restarts t + 1))
    (sw_tasks w) (sw_tasks (fst (routeFailureForSupervision cap w f)))"
    unfolding list_all2_conv_all_nth using coherent_change [OF w] by (metis nth_mem)
qed

definition sample_task :: "string \<Rightarrow> string option \<Rightarrow> phase \<Rightarrow> sup_task" where
  "sample_task u parent ph = \<lparr>st_uid = Some u, st_name = Some u, st_namespace = Some ''ns'',
     st_generation = None, st_parentUid = parent, st_targetAgent = Some ''lead'',
     st_phase = Some ph, st_error = None, st_startedAt = None, st_completedAt = None,
     st_restartCount = None, st_conditions = None\<rparr>"

definition sample_lead :: "string \<Rightarrow> sup_agent" where
  "sample_lead st = \<lparr>sa_namespace = Some ''ns'', sa_name = Some ''lead'',
     sa_supervisionStrategy = JStr st, sa_maxRestarts = JNum (Fin 2)\<rparr>"

text \<open>The cache holds the children; the supervisor is read from the server.\<close>

definition sample_world :: "string \<Rightarrow> phase \<Rightarrow> sup_world" where
  "sample_world st ph = \<lparr>sw_tasks = [sample_task ''root'' None PhDispatched,
       sample_task ''a'' (Some ''root'') PhFailed, sample_task ''b'' (Some ''root'') ph],
     sw_agents = [sample_lead st], sw_effects = [],
     sw_cachedTask = (\<lambda>u. if u = ''a'' then Some (sample_task ''a'' (Some ''root'') PhFailed)
       else if u = ''b'' then Some (sample_task ''b'' (Some ''root'') PhDispatched) else None),
     sw_cachedChildren = (\<lambda>u n. [sample_task ''a'' (Some ''root'') PhFailed,
       sample_task ''b'' (Some ''root'') PhDispatched]),
     sw_cachedAgent = (\<lambda>n a. None), sw_listFails = False, sw_getFails = False,
     sw_now = ''t'', sw_patchFails = [], sw_resolveAgentName = (\<lambda>_. None)\<rparr>"

lemma sample_coherent: "coherent (sample_world st PhDispatched)"
  by (simp add: coherent_def sample_world_def sample_task_def task_key_def)

lemma sample_max: "resolveMaxRestarts (sample_lead st) = 2"
  by (simp add: resolveMaxRestarts_def sample_lead_def js_isInteger_def)

lemma sample_terminates:
  "map st_phase (sw_tasks (fst (routeFailureForSupervision 8 (sample_world ''one_for_all'' ph)
     (sample_task ''a'' (Some ''root'') PhFailed)))) =
   [Some PhDispatched, Some PhFailed, Some PhFailed]"
proof -
  define a b where "a = sample_task ''a'' (Some ''root'') PhFailed"
    and "b = sample_task ''b'' (Some ''root'') PhDispatched"
  have r: "extractFailureReason a = None"
    by (simp add: a_def extractFailureReason_def sample_task_def)
  have c: "isInfraFault None = False" "classifyFailure None = Unknown"
    by (simp_all add: isInfraFault_def classifyFailure_def)
  have l: "fetchParentTask (sample_world ''one_for_all'' ph) ''ns'' a =
      Some (sample_task ''root'' None PhDispatched)"
    "fetchAgent (sample_world ''one_for_all'' ph) (sample_task ''root'' None PhDispatched) =
      Some (sample_lead ''one_for_all'')"
    by (simp_all add: a_def fetchParentTask_def fetchTaskByUid_def fetchAgent_def sample_world_def
        sample_task_def sample_lead_def ns_of_def)
  have s: "resolveStrategy (sample_lead ''one_for_all'') = OneForAll"
    by (simp add: resolveStrategy_def sample_lead_def ALL_SUPERVISION_STRATEGIES_def strategy_of_name_def)
  have d: "\<exists>rs. evaluateStrategy OneForAll (failed_child_of a None)
      (listSiblings (sample_world ''one_for_all'' ph) ''root'' ''ns'') =
    \<lparr>sd_action = RestartTree, sd_strategy = OneForAll, sd_targets = [taskToRef b, taskToRef a], sd_reason = rs\<rparr>"
    by (simp add: evaluateStrategy_def decideOneForAll_def listSiblings_def sample_world_def
        taskToSibling_def taskToRef_def failed_child_of_def isInFlight_def a_def b_def
        sample_task_def Let_def)
  then obtain rs where d: "evaluateStrategy OneForAll (failed_child_of a None)
      (listSiblings (sample_world ''one_for_all'' ph) ''root'' ''ns'') =
    \<lparr>sd_action = RestartTree, sd_strategy = OneForAll, sd_targets = [taskToRef b, taskToRef a], sd_reason = rs\<rparr>"
    (is "_ = ?d") ..
  have t: "\<exists>w1. dispatchDecision (sample_world ''one_for_all'' ph) ?d (sample_lead ''one_for_all'')
      (sample_task ''root'' None PhDispatched) = (w1, []) \<and>
    map st_phase (sw_tasks w1) = [Some PhDispatched, Some PhFailed, Some PhFailed]"
    by (simp add: dispatchDecision_def dispatch_target_def fetchTaskByUid_def terminate_target_def
        markTerminatedBySupervision_def patch_status_def emit_def sample_world_def sample_task_def
        taskToRef_def a_def b_def task_key_def nextPhase_def Let_def ns_of_def)
  have f: "st_phase a = Some PhFailed" "st_namespace a = Some ''ns''" "st_parentUid a = Some ''root''"
    by (simp_all add: a_def sample_task_def)
  have "map st_phase (sw_tasks (fst (escalate_loop (Suc n) 0 ''ns''
      (sample_world ''one_for_all'' ph) a None))) = [Some PhDispatched, Some PhFailed, Some PhFailed]" for n
    using t by (auto simp: f l s d emit_def Let_def)
  from this [of 7] have "map st_phase (sw_tasks (fst (escalate_loop 8 0 ''ns''
      (sample_world ''one_for_all'' ph) a None))) = [Some PhDispatched, Some PhFailed, Some PhFailed]"
    by (simp del: escalate_loop.simps)
  then show ?thesis
    by (simp add: routeFailureForSupervision_def f r c a_def [symmetric])
qed

theorem routing_is_safe_witness:
  "list_all2 (\<lambda>t t'. phase_le (st_phase t) (st_phase t') \<and>
          (restarts t' = restarts t \<or> restarts t' = restarts t + 1))
     (sw_tasks (sample_world ''one_for_all'' PhDispatched))
     (sw_tasks (fst (routeFailureForSupervision 8 (sample_world ''one_for_all'' PhDispatched)
        (sample_task ''a'' (Some ''root'') PhFailed)))) \<and>
   map st_phase (sw_tasks (fst (routeFailureForSupervision 8
     (sample_world ''one_for_all'' PhDispatched) (sample_task ''a'' (Some ''root'') PhFailed)))) =
     [Some PhDispatched, Some PhFailed, Some PhFailed]"
  using routing_is_safe [of 8 "sample_world ''one_for_all'' PhDispatched"
      "sample_task ''a'' (Some ''root'') PhFailed"] sample_coherent sample_terminates
  by blast

text \<open>
  The server holds \<open>b\<close> completed, the cache still has it running: the termination overwrites the
  completed phase, since the guard \<open>nextPhase\<close> is asked about the view and not about the server.
\<close>

lemma stale_view_fails_completed:
  "map st_phase (sw_tasks (sample_world ''one_for_all'' PhCompleted)) =
     [Some PhDispatched, Some PhFailed, Some PhCompleted] \<and>
   map st_phase (sw_tasks (fst (routeFailureForSupervision 8
     (sample_world ''one_for_all'' PhCompleted) (sample_task ''a'' (Some ''root'') PhFailed)))) =
     [Some PhDispatched, Some PhFailed, Some PhFailed]"
  using sample_terminates by (simp add: sample_world_def sample_task_def)

section \<open>Repeated events of one failure\<close>

text \<open>
  One informer event: the cache of tasks has caught up with the server, and the router sees the
  task as the server holds it.
\<close>

definition held :: "sup_world \<Rightarrow> string \<Rightarrow> sup_task option" where
  "held w uid = find (\<lambda>t. st_uid t = Some uid) (sw_tasks w)"

definition synced :: "sup_world \<Rightarrow> sup_world" where
  "synced w = w\<lparr>sw_cachedTask := held w,
     sw_cachedChildren := (\<lambda>u ns. filter (\<lambda>t. ns_of t = ns \<and> st_parentUid t = Some u) (sw_tasks w))\<rparr>"

definition observe :: "nat \<Rightarrow> string \<Rightarrow> sup_world \<Rightarrow> sup_world" where
  "observe cap uid w =
     (case held w uid of
        None \<Rightarrow> w
      | Some t \<Rightarrow> fst (routeFailureForSupervision cap (synced w) t))"

lemma held_mem: "held w u = Some t \<Longrightarrow> t \<in> set (sw_tasks w) \<and> st_uid t = Some u"
  by (auto simp: held_def find_Some_iff)

lemma synced_fetch: "held w u = Some t \<Longrightarrow> fetchTaskByUid (synced w) ns u = Some t"
  by (simp add: fetchTaskByUid_def synced_def)

lemma synced_same [simp]:
  "sw_tasks (synced w) = sw_tasks w" "sw_patchFails (synced w) = sw_patchFails w"
  "sw_agents (synced w) = sw_agents w" "sw_now (synced w) = sw_now w"
  "sw_cachedAgent (synced w) = sw_cachedAgent w" "sw_getFails (synced w) = sw_getFails w"
  by (simp_all add: synced_def)

lemma synced_agent [simp]: "fetchAgent (synced w) p = fetchAgent w p"
  by (simp only: fetchAgent_def synced_same)

lemma synced_condition [simp]:
  "supervision_condition (synced w) t ty rs msg = supervision_condition w t ty rs msg"
  by (simp add: supervision_condition_def)

definition quiet :: "sup_task \<Rightarrow> bool" where
  "quiet t \<longleftrightarrow>
     (\<forall>c\<in>set (or_empty (st_conditions t)). reason_holds c \<longrightarrow> \<not> isInfraFault (tc_reason c)) \<and>
     (\<forall>e. st_error t = Some e \<longrightarrow> \<not> isInfraFault (Some (error_reason e)))"

text \<open>A failed child the router can patch, under a parent whose agent restarts one for one.\<close>

definition supervised_child :: "sup_world \<Rightarrow> string \<Rightarrow> sup_agent \<Rightarrow> sup_task \<Rightarrow> sup_task \<Rightarrow> bool" where
  "supervised_child w u ag t p \<longleftrightarrow>
     distinct (map task_key (sw_tasks w)) \<and> u \<noteq> [] \<and> held w u = Some t \<and> st_phase t = Some PhFailed \<and> quiet t \<and>
     (\<exists>n. st_name t = Some n \<and> n \<noteq> [] \<and> n \<notin> set (sw_patchFails w)) \<and>
     (\<exists>pu. st_parentUid t = Some pu \<and> pu \<noteq> [] \<and> pu \<noteq> u \<and> held w pu = Some p) \<and>
     fetchAgent w p = Some ag \<and> resolveStrategy ag = OneForOne"

lemma find_map_pres:
  "(\<And>x. x \<in> set xs \<Longrightarrow> P (g x) = P x) \<Longrightarrow> find P (map g xs) = map_option g (find P xs)"
  by (induction xs) auto

lemma mergeCondition_members:
  "c \<in> set (mergeCondition cs i) \<Longrightarrow> c \<in> set (or_empty cs) \<or> tc_reason c = tc_reason i"
proof -
  have "replace_first xs i = Some r \<Longrightarrow> c \<in> set r \<Longrightarrow> c \<in> set xs \<or> tc_reason c = tc_reason i" for xs r
    by (induction xs arbitrary: r) (auto simp: merged_condition_def split: if_splits)
  then show "c \<in> set (mergeCondition cs i) \<Longrightarrow> ?thesis"
    by (auto simp: mergeCondition_def Let_def split: option.splits)
qed

lemma quiet_reason:
  assumes "quiet t"
  shows "\<not> isInfraFault (extractFailureReason t)"
proof (cases "find reason_holds (rev (or_empty (st_conditions t)))")
  case None
  with assms show ?thesis
    by (auto simp: extractFailureReason_def quiet_def isInfraFault_def classifyFailure_def
        split: option.splits)
next
  case (Some c)
  then have "c \<in> set (or_empty (st_conditions t))" "reason_holds c"
    by (auto simp: find_Some_iff) (metis length_rev nth_mem set_rev)
  with Some assms show ?thesis by (simp add: extractFailureReason_def quiet_def)
qed

lemma own_reasons_not_infra:
  "\<not> isInfraFault (Some ''supervision_restart'')" "\<not> isInfraFault (Some ''restart_limit_exceeded'')"
  by code_simp+

lemma quiet_merge:
  assumes "quiet t" "\<not> isInfraFault (tc_reason i)"
  shows "quiet (t\<lparr>st_restartCount := n, st_conditions := Some (mergeCondition (st_conditions t) i)\<rparr>)"
  using assms mergeCondition_members [of _ "st_conditions t" i] by (fastforce simp: quiet_def)

text \<open>The event patches exactly the failed child.\<close>

definition replayed :: "sup_world \<Rightarrow> sup_agent \<Rightarrow> sup_task \<Rightarrow> sup_task" where
  "replayed w ag t =
     (let n = restarts t + 1; mx = resolveMaxRestarts ag;
          rs = ''one_for_one: restart only the failed child (reason=''
                 @ js_or (extractFailureReason t) [] @ '')''
      in if n > mx
         then t\<lparr>st_conditions := Some (mergeCondition (st_conditions t)
                (supervision_condition w t ''RestartLimitExceeded'' ''restart_limit_exceeded''
                  (''restartCount '' @ string_of_int n @ '' exceeds maxRestarts '' @ string_of_int mx)))\<rparr>
         else t\<lparr>st_restartCount := Some n, st_conditions := Some (mergeCondition (st_conditions t)
                (supervision_condition w t ''SupervisionRestart'' ''supervision_restart''
                  (''restart #'' @ string_of_int n @ '' ('' @ rs @ '')'')))\<rparr>)"

lemma replayed_fields:
  "restarts (replayed w ag t) = (if restarts t < resolveMaxRestarts ag then restarts t + 1 else restarts t)"
  "st_uid (replayed w ag t) = st_uid t" "st_name (replayed w ag t) = st_name t"
  "st_phase (replayed w ag t) = st_phase t" "st_parentUid (replayed w ag t) = st_parentUid t"
  "quiet t \<Longrightarrow> quiet (replayed w ag t)"
  using quiet_merge [of t _ "st_restartCount t"] quiet_merge [of t _ "Some (restarts t + 1)"]
  by (auto simp: replayed_def Let_def restarts_def supervision_condition_def own_reasons_not_infra)

lemma route_supervised:
  assumes "supervised_child w u ag t p"
  shows "\<exists>d tr. routeFailureForSupervision (Suc cap) (synced w) t =
      (emit (fst (restart_target (synced w) d ag t u)) (applied_event p ag d t (extractFailureReason t)),
       AppliedDecision d (snd (restart_target (synced w) d ag t u))) \<and>
      d = decideOneForOne OneForOne (failed_child_of t (extractFailureReason t))"
proof -
  from assms have t: "held w u = Some t" "st_uid t = Some u" "st_phase t = Some PhFailed" "u \<noteq> []"
    by (auto simp: supervised_child_def dest: held_mem)
  from assms obtain pu where pu: "st_parentUid t = Some pu" "pu \<noteq> []" "held w pu = Some p"
    "fetchAgent w p = Some ag" "resolveStrategy ag = OneForOne"
    by (auto simp: supervised_child_def)
  have fp: "fetchParentTask (synced w) ns t = Some p" for ns
    using pu by (simp add: fetchParentTask_def synced_fetch)
  have ni: "\<not> isInfraFault (extractFailureReason t)"
    using assms quiet_reason by (simp add: supervised_child_def)
  then have cls: "classifyFailure (extractFailureReason t) = Structured \<or>
      classifyFailure (extractFailureReason t) = Unknown"
    by (cases "classifyFailure (extractFailureReason t)") (simp_all add: isInfraFault_def)
  define d where "d = decideOneForOne OneForOne (failed_child_of t (extractFailureReason t))"
  have tg: "sd_targets d = [taskToRef t]" "tr_uid (taskToRef t) = u" "sd_action d = Restart"
    using t by (simp_all add: d_def decideOneForOne_def failed_child_of_def taskToRef_def)
  have "dispatchDecision (synced w) d ag p =
      (fst (restart_target (synced w) d ag t u), snd (restart_target (synced w) d ag t u))"
    using t tg by (simp add: dispatchDecision_def dispatch_target_def synced_fetch Let_def split: prod.split)
  then show ?thesis
    using t pu fp ni cls tg
    by (auto simp: routeFailureForSupervision_def evaluateStrategy_def d_def [symmetric] Let_def
        case_prod_unfold)
qed

lemma observe_supervised:
  assumes s: "supervised_child w u ag t p"
  shows "supervised_child (observe (Suc cap) u w) u ag (replayed w ag t) p"
proof -
  obtain n where n: "st_name t = Some n" "n \<noteq> []" "n \<notin> set (sw_patchFails w)"
    using s by (auto simp: supervised_child_def)
  obtain pu where pu: "st_parentUid t = Some pu" "pu \<noteq> []" "pu \<noteq> u" "held w pu = Some p"
    using s by (auto simp: supervised_child_def)
  have t: "held w u = Some t" "distinct (map task_key (sw_tasks w))" using s by (auto simp: supervised_child_def)
  define g where "g = (\<lambda>x. if task_key x = task_key t then replayed w ag t else x)"
  define w' where "w' = observe (Suc cap) u w"
  have uniq: "x = t" if "x \<in> set (sw_tasks w)" "task_key x = task_key t" for x
    using that t held_mem [OF t(1)] by (auto simp: distinct_map inj_on_def)
  obtain d where d: "w' = emit (fst (restart_target (synced w) d ag t u)) (applied_event p ag d t (extractFailureReason t))"
    "d = decideOneForOne OneForOne (failed_child_of t (extractFailureReason t))"
    using route_supervised [OF s, of cap] t by (auto simp: w'_def observe_def)
  have tasks: "sw_tasks w' = map g (sw_tasks w)"
    using n by (auto simp: d restart_target_def emit_def appendCondition_def patchRestartCount_def
        patch_status_def replayed_def restarts_def decideOneForOne_def failed_child_of_def Let_def
        g_def dest: uniq)
  have agents: "sw_agents w' = sw_agents w" and fails: "sw_patchFails w' = sw_patchFails w"
    and caches: "sw_cachedAgent w' = sw_cachedAgent w" "sw_getFails w' = sw_getFails w"
    using n by (simp_all add: d restart_target_def emit_def appendCondition_def patchRestartCount_def
        patch_status_def Let_def)
  have find_g: "held w' v = map_option g (held w v)" for v
    unfolding held_def tasks
    by (rule find_map_pres) (use uniq in \<open>auto simp: g_def replayed_fields\<close>)
  have "task_key p \<noteq> task_key t"
    using uniq [of p] held_mem [OF pu(4)] held_mem [OF t(1)] pu(3) by auto
  then have p: "held w' pu = Some p" by (simp add: find_g pu(4) g_def)
  have t': "held w' u = Some (replayed w ag t)" by (simp add: find_g t(1) g_def)
  have "map task_key (sw_tasks w') = map task_key (sw_tasks w)"
    by (auto simp: tasks g_def task_key_def replayed_def Let_def dest!: uniq)
  with t(2) have "distinct (map task_key (sw_tasks w'))" by simp
  moreover have "fetchAgent w' p = Some ag"
    using s unfolding supervised_child_def fetchAgent_def agents caches by blast
  ultimately show ?thesis
    using s p t' pu n fails by (auto simp: supervised_child_def replayed_fields w'_def [symmetric])
qed

lemma observe_iterated:
  assumes "supervised_child w u ag t p" "restarts t \<le> resolveMaxRestarts ag"
  shows "\<exists>t'. supervised_child ((observe (Suc cap) u ^^ k) w) u ag t' p \<and>
    restarts t' = min (restarts t + int k) (resolveMaxRestarts ag)"
proof (induction k)
  case 0
  with assms show ?case by auto
next
  case (Suc k)
  then obtain t' where t': "supervised_child ((observe (Suc cap) u ^^ k) w) u ag t' p"
    "restarts t' = min (restarts t + int k) (resolveMaxRestarts ag)" by blast
  from observe_supervised [OF t'(1), of cap] show ?case
    using t'(2) by (auto simp: replayed_fields intro!: exI)
qed

text \<open>
  The restart count counts events, not failures: a single failed child under a
  \<open>one_for_one\<close> parent, observed \<open>k\<close> times without ever running again, has \<open>k\<close> restarts up to the
  limit, and from then on every further event reports the restart limit as tripped. The patch of
  the router is itself such an event.
\<close>

theorem one_failure_replays_to_the_limit:
  assumes "supervised_child w u ag t p" "restarts t \<le> resolveMaxRestarts ag"
  shows "\<exists>t' d. held ((observe (Suc cap) u ^^ k) w) u = Some t' \<and>
    restarts t' = min (restarts t + int k) (resolveMaxRestarts ag) \<and>
    snd (routeFailureForSupervision (Suc cap) (synced ((observe (Suc cap) u ^^ k) w)) t') =
      AppliedDecision d (if restarts t + int k < resolveMaxRestarts ag then [] else [u])"
proof -
  obtain t' where t': "supervised_child ((observe (Suc cap) u ^^ k) w) u ag t' p"
    "restarts t' = min (restarts t + int k) (resolveMaxRestarts ag)"
    using observe_iterated [OF assms] by blast
  moreover have "held ((observe (Suc cap) u ^^ k) w) u = Some t'"
    using t'(1) by (simp add: supervised_child_def)
  moreover obtain d where "snd (routeFailureForSupervision (Suc cap) (synced ((observe (Suc cap) u ^^ k) w)) t') =
      AppliedDecision d (snd (restart_target (synced ((observe (Suc cap) u ^^ k) w)) d ag t' u))"
    using route_supervised [OF t'(1), of cap] by auto
  moreover have "snd (restart_target w' d ag t' u) =
      (if restarts t + int k < resolveMaxRestarts ag then [] else [u])" for w'
    using t'(2) by (auto simp: restart_target_def restarts_def Let_def)
  ultimately show ?thesis by auto
qed

theorem one_failure_replays_to_the_limit_witness:
  "\<exists>t' d. held ((observe 8 ''a'' ^^ 3) (sample_world ''one_for_one'' PhDispatched)) ''a'' = Some t' \<and>
    restarts t' = 2 \<and>
    snd (routeFailureForSupervision 8 (synced ((observe 8 ''a'' ^^ 3) (sample_world ''one_for_one'' PhDispatched))) t') =
      AppliedDecision d [''a'']"
proof -
  have "supervised_child (sample_world ''one_for_one'' PhDispatched) ''a'' (sample_lead ''one_for_one'')
      (sample_task ''a'' (Some ''root'') PhFailed) (sample_task ''root'' None PhDispatched)"
    by (simp add: supervised_child_def sample_world_def sample_task_def sample_lead_def quiet_def
        held_def fetchAgent_def ns_of_def task_key_def resolveStrategy_def ALL_SUPERVISION_STRATEGIES_def
        strategy_of_name_def)
  from one_failure_replays_to_the_limit [OF this, where cap = 7 and k = 3] show ?thesis
    by (simp add: sample_max restarts_def sample_task_def)
qed

end
