(* ===== verification/StatusPatch.thy ===== *)
theory StatusPatch
  imports StatusTransitions
begin

text \<open>
  Status writes of the operator, \<^verbatim>\<open>patchStatusWithRetry\<close> and its build closures in
  \<^verbatim>\<open>packages/operator/src/reconcile.ts\<close>. The API server holds one task object, or none once it is
  deleted. An attempt reads it, builds a patch from what it read, and sends a merge patch; other
  writers may act before the read and between the read and the patch, both calls may fail, and the
  patch may be answered with a conflict, which starts the next attempt. The children projection of
  a status is not part of the record.
\<close>

section \<open>The object and the patch\<close>

record output_ref =
  or_name :: string
  or_ref :: string

record task_status =
  st_phase :: "phase option"
  st_podName :: "string option"
  st_startedAt :: "string option"
  st_completedAt :: "string option"
  st_error :: "string option"
  st_outputs :: "output_ref list option"
  st_observedGeneration :: "int option"
  st_conditions :: "task_condition list option"

record task_object =
  to_generation :: "int option"
  to_status :: task_status

type_synonym server = "task_object option"

text \<open>A patch has the same fields; an absent one is left alone by the merge.\<close>

definition empty_status :: task_status where
  "empty_status = \<lparr>st_phase = None, st_podName = None, st_startedAt = None, st_completedAt = None,
     st_error = None, st_outputs = None, st_observedGeneration = None, st_conditions = None\<rparr>"

definition over :: "'a option \<Rightarrow> 'a option \<Rightarrow> 'a option" where
  "over new old = (case new of None \<Rightarrow> old | Some v \<Rightarrow> Some v)"

definition merge_patch :: "task_status \<Rightarrow> task_object \<Rightarrow> task_object" where
  "merge_patch p obj =
     (let s = to_status obj in
      obj\<lparr>to_status :=
        \<lparr>st_phase = over (st_phase p) (st_phase s),
         st_podName = over (st_podName p) (st_podName s),
         st_startedAt = over (st_startedAt p) (st_startedAt s),
         st_completedAt = over (st_completedAt p) (st_completedAt s),
         st_error = over (st_error p) (st_error s),
         st_outputs = over (st_outputs p) (st_outputs s),
         st_observedGeneration = over (st_observedGeneration p) (st_observedGeneration s),
         st_conditions = over (st_conditions p) (st_conditions s)\<rparr>\<rparr>)"

section \<open>Read, build, write\<close>

text \<open>How the server answers a patch; \<open>PutLost\<close> lands and still reports an error.\<close>

datatype put_answer = PutOk | PutConflict | PutError | PutLost

record attempt_env =
  ae_before :: "server \<Rightarrow> server"
  ae_getFails :: bool
  ae_between :: "server \<Rightarrow> server"
  ae_put :: put_answer

datatype patch_result = Patched | SkippedRegression | SkippedNotFound | NoName | Threw

text \<open>
  The loop: the server afterwards, the result, and the object the last build looked at.
\<close>

fun patch_attempts ::
  "nat \<Rightarrow> (nat \<Rightarrow> attempt_env) \<Rightarrow> nat \<Rightarrow> (task_object \<Rightarrow> task_status option) \<Rightarrow> server \<Rightarrow>
   task_object option \<Rightarrow> server \<times> patch_result \<times> task_object option"
where
  "patch_attempts 0 env i build sv seen = (sv, Threw, seen)"
| "patch_attempts (Suc n) env i build sv seen =
     (let e = env i; sv1 = ae_before e sv in
      if ae_getFails e then (sv1, Threw, seen)
      else
        (case sv1 of
           None \<Rightarrow> (None, SkippedNotFound, seen)
         | Some current \<Rightarrow>
             (case build current of
                None \<Rightarrow> (sv1, SkippedRegression, Some current)
              | Some p \<Rightarrow>
                  (let sv2 = ae_between e sv1 in
                   case ae_put e of
                     PutOk \<Rightarrow>
                       (case sv2 of
                          None \<Rightarrow> (None, SkippedNotFound, Some current)
                        | Some obj \<Rightarrow> (Some (merge_patch p obj), Patched, Some current))
                   | PutLost \<Rightarrow> (map_option (merge_patch p) sv2, Threw, Some current)
                   | PutError \<Rightarrow> (sv2, Threw, Some current)
                   | PutConflict \<Rightarrow> patch_attempts n env (Suc i) build sv2 (Some current)))))"

definition patchStatusWithRetry ::
  "string option \<Rightarrow> (nat \<Rightarrow> attempt_env) \<Rightarrow> (task_object \<Rightarrow> task_status option) \<Rightarrow> nat \<Rightarrow> server \<Rightarrow>
   server \<times> patch_result \<times> task_object option"
where
  "patchStatusWithRetry name env build maxRetries sv =
     (if js_or name [] = [] then (sv, NoName, None)
      else patch_attempts (Suc maxRetries) env 0 build sv None)"

section \<open>The build closures\<close>

definition phase_of :: "task_object \<Rightarrow> phase option" where
  "phase_of obj = st_phase (to_status obj)"

definition stamped :: "task_object \<Rightarrow> string \<Rightarrow> string \<Rightarrow> string \<Rightarrow> string \<Rightarrow> task_condition" where
  "stamped current ty reason message ts =
     \<lparr>tc_type = ty, tc_status = ''True'', tc_reason = Some reason, tc_message = Some message,
      tc_lastTransitionTime = ts, tc_observedGeneration = to_generation current\<rparr>"

definition with_condition :: "task_object \<Rightarrow> task_condition \<Rightarrow> task_status \<Rightarrow> task_status" where
  "with_condition current c p =
     p\<lparr>st_observedGeneration := Some (js_or (to_generation current) 0),
       st_conditions := Some (mergeCondition (st_conditions (to_status current)) c)\<rparr>"

text \<open>Seeding \<open>Pending\<close> (step 1 of the reconcile).\<close>

definition pending_build :: "task_object \<Rightarrow> task_status option" where
  "pending_build current =
     (if phase_of current \<noteq> None then None
      else Some (empty_status\<lparr>st_phase := Some PhPending,
                  st_observedGeneration := Some (js_or (to_generation current) 0)\<rparr>))"

text \<open>Recording the dispatch (step 8).\<close>

definition dispatched_build :: "string \<Rightarrow> string \<Rightarrow> task_object \<Rightarrow> task_status option" where
  "dispatched_build jobName ts current =
     (case nextPhase (phase_of current) PhDispatched of
        None \<Rightarrow> None
      | Some proposed \<Rightarrow>
          Some (with_condition current
            (stamped current ''Dispatched'' ''JobCreated'' (''Job '' @ jobName @ '' created'') ts)
            (empty_status\<lparr>st_phase := Some proposed, st_podName := Some jobName, st_startedAt := Some ts\<rparr>)))"

text \<open>\<open>markFailed\<close>: a terminal phase stays, the reason is kept as a condition.\<close>

definition failed_build :: "string \<Rightarrow> string \<Rightarrow> task_object \<Rightarrow> task_status option" where
  "failed_build reason ts current =
     (case nextPhase (phase_of current) PhFailed of
        None \<Rightarrow>
          Some (with_condition current
            (stamped current ''ReconcileError'' ''ReconcileFailedAfterTerminal'' reason ts) empty_status)
      | Some proposed \<Rightarrow>
          Some (with_condition current (stamped current ''Failed'' ''ReconcileError'' reason ts)
            (empty_status\<lparr>st_phase := Some proposed, st_error := Some reason, st_completedAt := Some ts\<rparr>)))"

text \<open>\<open>markCompletedFromIdempotentReplay\<close>.\<close>

definition replay_build :: "output_ref list \<Rightarrow> string \<Rightarrow> task_object \<Rightarrow> task_status option" where
  "replay_build outputs ts current =
     (case nextPhase (phase_of current) PhCompleted of
        None \<Rightarrow> None
      | Some proposed \<Rightarrow>
          Some (with_condition current
            (stamped current ''IdempotentReplay'' ''IdempotencyReplay''
              ''replayed cached outputs from prior task with same idempotencyKey'' ts)
            (empty_status\<lparr>st_phase := Some proposed, st_completedAt := Some ts, st_outputs := Some outputs\<rparr>)))"

section \<open>Failures seen from outside\<close>

record external_failure =
  ef_reason :: string
  ef_message :: string
  ef_fromJob :: bool

definition error_prefix :: "external_failure \<Rightarrow> string" where
  "error_prefix f = ''['' @ (if ef_fromJob f then ''job'' else ''pod'') @ ''/'' @ ef_reason f @ ''] ''"

definition external_condition :: "external_failure \<Rightarrow> string \<Rightarrow> task_object \<Rightarrow> task_condition" where
  "external_condition f ts current =
     stamped current
       (if phase_of current = Some PhCompleted then ''JobFailedAfterComplete''
        else if phase_of current = Some PhFailed then
          (if ef_reason f = [] then ''AdditionalFailure'' else ef_reason f)
        else ''Failed'')
       (ef_reason f) (error_prefix f @ ef_message f) ts"

definition external_build :: "external_failure \<Rightarrow> string \<Rightarrow> task_object \<Rightarrow> task_status option" where
  "external_build f ts current =
     (let c = external_condition f ts current in
      if phase_of current = Some PhCompleted \<or> phase_of current = Some PhFailed
      then Some (with_condition current c empty_status)
      else
        (case nextPhase (phase_of current) PhFailed of
           None \<Rightarrow> Some (with_condition current c empty_status)
         | Some proposed \<Rightarrow>
             Some (with_condition current c
               (empty_status\<lparr>st_phase := Some proposed, st_error := Some (error_prefix f @ ef_message f),
                  st_completedAt := Some ts\<rparr>))))"

datatype mark_failure_action =
    MarkedFailed "phase option"
  | ConditionAppended phase
  | MarkSkippedNotFound

text \<open>The verdict read off the last build; \<^term>\<open>None\<close> is a throw.\<close>

definition terminal_or_failed :: "phase option \<Rightarrow> phase" where
  "terminal_or_failed prior =
     (case prior of
        Some p \<Rightarrow> (if p = PhCompleted \<or> p = PhFailed then p else PhFailed)
      | None \<Rightarrow> PhFailed)"

definition appends_only :: "task_object option \<Rightarrow> bool" where
  "appends_only seen =
     (case seen of
        None \<Rightarrow> False
      | Some current \<Rightarrow>
          phase_of current = Some PhCompleted \<or> phase_of current = Some PhFailed \<or>
          nextPhase (phase_of current) PhFailed = None)"

definition markAgentTaskFailedFromExternal ::
  "string \<Rightarrow> external_failure \<Rightarrow> string \<Rightarrow> (nat \<Rightarrow> attempt_env) \<Rightarrow> server \<Rightarrow>
   server \<times> mark_failure_action option"
where
  "markAgentTaskFailedFromExternal name f ts env sv =
     (let (sv', result, seen) = patchStatusWithRetry (Some name) env (external_build f ts) 3 sv;
          prior = (case seen of None \<Rightarrow> None | Some current \<Rightarrow> phase_of current)
      in
      (sv',
       if result = Threw then None
       else if result = SkippedNotFound then Some MarkSkippedNotFound
       else if result = SkippedRegression then Some (ConditionAppended (terminal_or_failed prior))
       else if appends_only seen then Some (ConditionAppended (terminal_or_failed prior))
       else Some (MarkedFailed prior)))"

section \<open>The order on phases of a task that may be gone\<close>

definition server_le :: "server \<Rightarrow> server \<Rightarrow> bool" where
  "server_le a b \<longleftrightarrow>
     (case b of
        None \<Rightarrow> True
      | Some y \<Rightarrow> (case a of None \<Rightarrow> False | Some x \<Rightarrow> phase_le (phase_of x) (phase_of y)))"

lemma server_le_refl [simp]: "server_le a a"
  by (simp add: server_le_def split: option.split)

lemma server_le_trans: "server_le a b \<Longrightarrow> server_le b c \<Longrightarrow> server_le a c"
  by (auto simp: server_le_def split: option.splits intro: phase_le_trans)

lemma server_le_None [simp]: "server_le a None"
  by (simp add: server_le_def)

lemma server_le_Some [simp]: "server_le (Some x) (Some y) \<longleftrightarrow> phase_le (phase_of x) (phase_of y)"
  by (simp add: server_le_def)

lemma phase_of_merge: "phase_of (merge_patch p obj) = over (st_phase p) (phase_of obj)"
  by (simp add: phase_of_def merge_patch_def Let_def)

lemma phase_of_merge_cong: "phase_of x = phase_of y \<Longrightarrow> phase_of (merge_patch p x) = phase_of (merge_patch p y)"
  by (simp add: phase_of_merge)

text \<open>
  Writers around the attempts: those before a read move the phase forward or delete the task;
  between a read and its patch the phase does not change.
\<close>

definition forward :: "(nat \<Rightarrow> attempt_env) \<Rightarrow> bool" where
  "forward env \<longleftrightarrow> (\<forall>i sv. server_le sv (ae_before (env i) sv))"

definition quiet_window :: "(nat \<Rightarrow> attempt_env) \<Rightarrow> bool" where
  "quiet_window env \<longleftrightarrow>
     (\<forall>i obj. case ae_between (env i) (Some obj) of None \<Rightarrow> True | Some obj' \<Rightarrow> phase_of obj' = phase_of obj)"

lemma quiet_windowD: "quiet_window env \<Longrightarrow> ae_between (env i) (Some obj) = Some obj' \<Longrightarrow> phase_of obj' = phase_of obj"
  unfolding quiet_window_def by (drule spec [of _ i], drule spec [of _ obj]) simp

section \<open>The contract of a build closure\<close>

locale guarded_build =
  fixes build :: "task_object \<Rightarrow> task_status option"
  assumes guarded: "build current = Some p \<Longrightarrow> phase_le (phase_of current) (phase_of (merge_patch p current))"
begin

lemma merge_le:
  "build current = Some p \<Longrightarrow> phase_of obj = phase_of current \<Longrightarrow>
     phase_le (phase_of current) (phase_of (merge_patch p obj))"
  using guarded phase_of_merge_cong by metis

lemma attempts_le:
  assumes "forward env" "quiet_window env"
  shows "server_le sv (fst (patch_attempts n env i build sv seen))"
proof (induction n arbitrary: i sv seen)
  case (Suc n)
  let ?e = "env i"
  have b: "server_le sv (ae_before ?e sv)" using assms(1) by (simp add: forward_def)
  show ?case
  proof (cases "ae_before ?e sv")
    case None
    then show ?thesis using b by (simp add: Let_def)
  next
    case (Some cur)
    show ?thesis
    proof (cases "build cur")
      case None
      with b Some show ?thesis by (simp add: Let_def)
    next
      case p: (Some p)
      have fin: "server_le sv t" if "server_le (Some cur) t" for t
        using b that Some server_le_trans by metis
      have win1: "server_le sv (ae_between ?e (Some cur))"
        using quiet_windowD [OF assms(2), of i cur]
        by (intro fin) (cases "ae_between ?e (Some cur)"; simp)
      have win2: "server_le sv (map_option (merge_patch p) (ae_between ?e (Some cur)))"
        using quiet_windowD [OF assms(2), of i cur] merge_le [OF p]
        by (intro fin) (cases "ae_between ?e (Some cur)"; simp)
      note step = patch_attempts.simps(2) Let_def Some option.case p
      show ?thesis
      proof (cases "ae_getFails ?e")
        case True
        with b show ?thesis by (simp only: step if_True fst_conv)
      next
        case False
        show ?thesis
        proof (cases "ae_put ?e")
          case PutOk
          with False win2 show ?thesis
            by (cases "ae_between ?e (Some cur)") (simp_all only: step if_False put_answer.case fst_conv, simp_all)
        next
          case PutConflict
          with False server_le_trans [OF win1 Suc.IH] show ?thesis
            by (simp only: step if_False put_answer.case)
        next
          case PutError
          with False win1 show ?thesis by (simp only: step if_False put_answer.case fst_conv)
        next
          case PutLost
          with False win2 show ?thesis by (simp only: step if_False put_answer.case fst_conv)
        qed
      qed
    qed
  qed
qed simp

lemma retry_le: "forward env \<Longrightarrow> quiet_window env \<Longrightarrow> server_le sv (fst (patchStatusWithRetry name env build n sv))"
  using attempts_le by (simp add: patchStatusWithRetry_def del: patch_attempts.simps)

end

text \<open>The call sites of the write, each with its closure.\<close>

datatype status_writer =
    SeedPending
  | RecordDispatch string string
  | MarkFailed string string
  | ReplayOutputs "output_ref list" string
  | ExternalFailure external_failure string

fun writer_build :: "status_writer \<Rightarrow> task_object \<Rightarrow> task_status option" where
  "writer_build SeedPending = pending_build"
| "writer_build (RecordDispatch jobName ts) = dispatched_build jobName ts"
| "writer_build (MarkFailed reason ts) = failed_build reason ts"
| "writer_build (ReplayOutputs outputs ts) = replay_build outputs ts"
| "writer_build (ExternalFailure f ts) = external_build f ts"

lemma with_condition_phase [simp]: "st_phase (with_condition cur c p) = st_phase p"
  by (simp add: with_condition_def)

lemma empty_status_phase [simp]: "st_phase empty_status = None"
  by (simp add: empty_status_def)

text \<open>What phase a closure proposes: none, or the next phase as the guard allows it.\<close>

lemma pending_build_phase: "pending_build cur = Some p \<Longrightarrow> phase_of cur = None \<and> st_phase p = Some PhPending"
  by (auto simp: pending_build_def split: if_splits)

lemma dispatched_build_phase:
  "dispatched_build j ts cur = Some p \<Longrightarrow> nextPhase (phase_of cur) PhDispatched = Some PhDispatched \<and> st_phase p = Some PhDispatched"
  by (cases "nextPhase (phase_of cur) PhDispatched") (auto simp: dispatched_build_def dest: nextPhase_le)

lemma replay_build_phase:
  "replay_build outs ts cur = Some p \<Longrightarrow>
     nextPhase (phase_of cur) PhCompleted = Some PhCompleted \<and> st_phase p = Some PhCompleted \<and> st_outputs p = Some outs"
  by (cases "nextPhase (phase_of cur) PhCompleted")
    (auto simp: replay_build_def with_condition_def dest: nextPhase_le)

lemma failed_build_phase:
  "failed_build r ts cur = Some p \<Longrightarrow>
     nextPhase (phase_of cur) PhFailed = Some PhFailed \<and> st_phase p = Some PhFailed \<or> st_phase p = None"
  by (cases "nextPhase (phase_of cur) PhFailed") (auto simp: failed_build_def dest: nextPhase_le)

lemma external_build_phase:
  "external_build f ts cur = Some p \<Longrightarrow>
     (if appends_only (Some cur) then st_phase p = None
      else nextPhase (phase_of cur) PhFailed = Some PhFailed \<and> st_phase p = Some PhFailed)"
  by (cases "nextPhase (phase_of cur) PhFailed")
    (auto simp: external_build_def Let_def appends_only_def dest: nextPhase_le split: if_splits)

lemma over_simps [simp]: "over (Some v) x = Some v" "over None x = x"
  by (simp_all add: over_def)

lemma proposed_le:
  "nextPhase (phase_of cur) q = Some q \<and> st_phase p = Some q \<or> st_phase p = None \<Longrightarrow>
     phase_le (phase_of cur) (phase_of (merge_patch p cur))"
  using nextPhase_le [of "phase_of cur" q q] by (auto simp: phase_of_merge)

interpretation writer: guarded_build "writer_build w" for w
proof
  fix current p
  assume b: "writer_build w current = Some p"
  show "phase_le (phase_of current) (phase_of (merge_patch p current))"
  proof (cases w)
    case SeedPending
    with b pending_build_phase show ?thesis by fastforce
  next
    case (RecordDispatch j ts)
    with b dispatched_build_phase proposed_le show ?thesis by simp blast
  next
    case (MarkFailed r ts)
    with b failed_build_phase proposed_le show ?thesis by simp blast
  next
    case (ReplayOutputs outs ts)
    with b replay_build_phase proposed_le show ?thesis by simp blast
  next
    case (ExternalFailure f ts)
    with b external_build_phase [of f ts current p] proposed_le show ?thesis by (simp split: if_splits) blast+
  qed
qed

lemma external_retry_le:
  "forward env \<Longrightarrow> quiet_window env \<Longrightarrow> server_le sv (fst (patchStatusWithRetry name env (external_build f ts) n sv))"
  using writer.retry_le [of env sv name "ExternalFailure f ts"] by simp

lemma attempts_result:
  assumes "patch_attempts n env i build sv seen = (sv', r, seen')"
  shows "case r of
      Patched \<Rightarrow> \<exists>cur p obj j. seen' = Some cur \<and> build cur = Some p \<and>
        ae_between (env j) (Some cur) = Some obj \<and> sv' = Some (merge_patch p obj)
    | SkippedNotFound \<Rightarrow> sv' = None
    | SkippedRegression \<Rightarrow> \<exists>cur. seen' = Some cur \<and> build cur = None
    | NoName \<Rightarrow> False
    | Threw \<Rightarrow> True"
  using assms
proof (induction n arbitrary: i sv seen)
  case (Suc n)
  show ?case
  proof (cases "ae_before (env i) sv")
    case None
    with Suc.prems show ?thesis by (auto simp: Let_def split: if_splits)
  next
    case (Some cur)
    note step = patch_attempts.simps(2) Let_def Some option.case
    show ?thesis
    proof (cases "build cur")
      case None
      with Suc.prems show ?thesis unfolding step by (auto split: if_splits)
    next
      case p: (Some p)
      have d: "\<exists>cur p obj j. seen' = Some cur \<and> build cur = Some p \<and>
          ae_between (env j) (Some cur) = Some obj \<and> sv' = Some (merge_patch p obj)"
        if "seen' = Some cur" "ae_between (env i) (Some cur) = Some obj" "sv' = Some (merge_patch p obj)" for obj
        using that p by blast
      show ?thesis
        using Suc.prems Suc.IH d unfolding step p
        by (cases "ae_getFails (env i)"; cases "ae_put (env i)"; cases "ae_between (env i) (Some cur)") auto
    qed
  qed
qed simp

section \<open>Properties of the status writes\<close>


definition calm :: attempt_env where
  "calm = \<lparr>ae_before = id, ae_getFails = False, ae_between = id, ae_put = PutOk\<rparr>"

definition sample_object :: "phase option \<Rightarrow> task_object" where
  "sample_object ph = \<lparr>to_generation = Some 1, to_status = empty_status\<lparr>st_phase := ph\<rparr>\<rparr>"

lemma calm_env: "forward (\<lambda>i. calm)" "quiet_window (\<lambda>i. calm)"
  by (simp_all add: forward_def quiet_window_def calm_def)

lemma calm_retry:
  "js_or name [] \<noteq> [] \<Longrightarrow> patchStatusWithRetry name (\<lambda>i. calm) build n (Some obj) =
     (case build obj of
        None \<Rightarrow> (Some obj, SkippedRegression, Some obj)
      | Some p \<Rightarrow> (Some (merge_patch p obj), Patched, Some obj))"
  by (simp add: patchStatusWithRetry_def calm_def Let_def split: option.split)

lemma merge_patch_outputs: "st_outputs (to_status (merge_patch p obj)) = over (st_outputs p) (st_outputs (to_status obj))"
  by (simp add: merge_patch_def Let_def)

lemma merge_patch_podName: "st_podName (to_status (merge_patch p obj)) = over (st_podName p) (st_podName (to_status obj))"
  by (simp add: merge_patch_def Let_def)


text \<open>
  The window matters. The patch carries no version, so the server never answers a conflict of
  its own: when the agent completes the task between the read and the patch of a failure writer,
  the write goes through, and a completed task ends up failed.
\<close>

theorem racing_failure_overwrites_success:
  assumes "name \<noteq> []" "phase_of obj = None \<or> phase_of obj = Some PhPending \<or> phase_of obj = Some PhDispatched"
    and "phase_of done = Some PhCompleted"
    and "env 0 = \<lparr>ae_before = id, ae_getFails = False, ae_between = (\<lambda>_. Some done), ae_put = PutOk\<rparr>"
  shows "\<exists>obj'. patchStatusWithRetry (Some name) env (writer_build (MarkFailed reason ts)) n (Some obj) =
      (Some obj', Patched, Some obj) \<and>
    phase_of obj' = Some PhFailed \<and> st_outputs (to_status obj') = st_outputs (to_status done)"
proof -
  have "nextPhase (phase_of obj) PhFailed = Some PhFailed" using assms(2) by (auto simp: nextPhase_def)
  then obtain p where p: "failed_build reason ts obj = Some p" "st_phase p = Some PhFailed" "st_outputs p = None"
    by (auto simp: failed_build_def with_condition_def empty_status_def)
  with assms(1,4) show ?thesis
    by (auto simp: patchStatusWithRetry_def Let_def phase_of_merge) (simp add: merge_patch_def Let_def)
qed

theorem racing_failure_overwrites_success_witness:
  "\<exists>obj'. patchStatusWithRetry (Some ''t'')
      (\<lambda>i. \<lparr>ae_before = id, ae_getFails = False,
            ae_between = (\<lambda>_. Some (sample_object (Some PhCompleted))), ae_put = PutOk\<rparr>)
      (writer_build (MarkFailed ''r'' ''now'')) 3 (Some (sample_object (Some PhDispatched))) =
    (Some obj', Patched, Some (sample_object (Some PhDispatched))) \<and> phase_of obj' = Some PhFailed"
  using racing_failure_overwrites_success [of "''t''" "sample_object (Some PhDispatched)"
      "sample_object (Some PhCompleted)"
      "\<lambda>i. \<lparr>ae_before = id, ae_getFails = False,
            ae_between = (\<lambda>_. Some (sample_object (Some PhCompleted))), ae_put = PutOk\<rparr>" "''r''" "''now''" 3]
  by (auto simp: sample_object_def phase_of_def)

text \<open>What a patch that landed in a quiet window leaves, by what the build looked at.\<close>

lemma external_patched:
  assumes "external_build f ts cur = Some p" "phase_of obj = phase_of cur"
  shows "if appends_only (Some cur)
    then \<exists>q\<in>{PhCompleted, PhFailed}. terminal_or_failed (phase_of cur) = q \<and> phase_of (merge_patch p obj) = Some q
    else phase_of cur \<notin> {Some PhCompleted, Some PhFailed} \<and> phase_of (merge_patch p obj) = Some PhFailed"
proof (cases "appends_only (Some cur)")
  case True
  then have "phase_of cur = Some PhCompleted \<or> phase_of cur = Some PhFailed"
    by (cases "phase_of cur"; cases "the (phase_of cur)") (auto simp: appends_only_def nextPhase_def)
  with True assms(2) external_build_phase [OF assms(1)] show ?thesis
    by (auto simp: terminal_or_failed_def phase_of_merge)
next
  case False
  with assms(2) external_build_phase [OF assms(1)] show ?thesis
    by (auto simp: phase_of_merge appends_only_def)
qed

text \<open>
  A failure reported from outside never erases success: with quiet windows the verdict tells
  what happened. \<open>marked-failed\<close> means the task had not finished and is failed now;
  \<open>condition-appended\<close> means it had finished in the reported phase and still is in it;
  \<open>not-found\<close> means it is gone.
\<close>

theorem external_failure_verdict:
  assumes "quiet_window env" "name \<noteq> []" "markAgentTaskFailedFromExternal name f ts env sv = (sv', r)"
  shows "case r of
      None \<Rightarrow> True
    | Some (MarkedFailed prior) \<Rightarrow>
        prior \<notin> {Some PhCompleted, Some PhFailed} \<and> (\<exists>obj. sv' = Some obj \<and> phase_of obj = Some PhFailed)
    | Some (ConditionAppended p) \<Rightarrow>
        p \<in> {PhCompleted, PhFailed} \<and> (\<exists>obj. sv' = Some obj \<and> phase_of obj = Some p)
    | Some MarkSkippedNotFound \<Rightarrow> sv' = None"
proof -
  obtain t res seen where run: "patch_attempts (Suc 3) env 0 (external_build f ts) sv None = (t, res, seen)"
    by (metis prod_cases3)
  have m: "markAgentTaskFailedFromExternal name f ts env sv =
      (t, if res = Threw then None else if res = SkippedNotFound then Some MarkSkippedNotFound
          else if res = SkippedRegression then Some (ConditionAppended (terminal_or_failed (case seen of None \<Rightarrow> None | Some c \<Rightarrow> phase_of c)))
          else if appends_only seen then Some (ConditionAppended (terminal_or_failed (case seen of None \<Rightarrow> None | Some c \<Rightarrow> phase_of c)))
          else Some (MarkedFailed (case seen of None \<Rightarrow> None | Some c \<Rightarrow> phase_of c)))"
    unfolding markAgentTaskFailedFromExternal_def patchStatusWithRetry_def js_or.simps Let_def
    using assms(2) by (simp only: run if_False prod.case)
  show ?thesis
  proof (cases res)
    case Patched
    with attempts_result [OF run] obtain cur p obj j where c: "seen = Some cur" "external_build f ts cur = Some p"
      "ae_between (env j) (Some cur) = Some obj" "t = Some (merge_patch p obj)" by auto
    have ph: "phase_of obj = phase_of cur" using quiet_windowD [OF assms(1) c(3)] .
    from external_patched [OF c(2) ph] c assms(3) show ?thesis
      by (auto simp: m Patched split: if_splits)
  next
    case SkippedRegression
    with attempts_result [OF run] obtain cur where "external_build f ts cur = None" by auto
    then have False by (auto simp: external_build_def Let_def split: option.splits if_splits)
    then show ?thesis ..
  next
    case SkippedNotFound
    with attempts_result [OF run] assms(3) show ?thesis by (auto simp: m)
  next
    case NoName
    with attempts_result [OF run] show ?thesis by simp
  next
    case Threw
    with assms(3) show ?thesis by (auto simp: m)
  qed
qed

theorem external_failure_verdict_witness:
  "\<exists>obj. fst (markAgentTaskFailedFromExternal ''t'' \<lparr>ef_reason = ''OOMKilled'', ef_message = ''m'', ef_fromJob = False\<rparr>
     ''now'' (\<lambda>i. calm) (Some (sample_object (Some PhCompleted)))) = Some obj \<and> phase_of obj = Some PhCompleted"
proof -
  let ?f = "\<lparr>ef_reason = ''OOMKilled'', ef_message = ''m'', ef_fromJob = False\<rparr>"
  obtain sv' r where run: "markAgentTaskFailedFromExternal ''t'' ?f ''now'' (\<lambda>i. calm)
      (Some (sample_object (Some PhCompleted))) = (sv', r)" by fastforce
  have "snd (markAgentTaskFailedFromExternal ''t'' ?f ''now'' (\<lambda>i. calm)
      (Some (sample_object (Some PhCompleted)))) = Some (ConditionAppended PhCompleted)" by code_simp
  with external_failure_verdict [OF calm_env(2) _ run] run show ?thesis by auto
qed

end
