(* ===== verification/Idempotency.thy ===== *)
theory Idempotency
  imports StatusPatch
begin

text \<open>
  Idempotent submission of tasks: the cache of \<^verbatim>\<open>packages/operator/src/task-admission.ts\<close>
  (\<open>IdempotencyCache\<close>, \<open>deriveIdempotencyKey\<close>, \<open>validateRequiredOutputsPresent\<close>) and its two
  users in \<^verbatim>\<open>reconcile.ts\<close>, the dedupe before dispatch and the completion contract after the
  agent's terminal write. What \<open>hashTaskInputs\<close> yields for a task is a field of the task here.
\<close>

section \<open>The cache\<close>

record idempotency_key =
  ik_namespace :: string
  ik_agentName :: string
  ik_idempotencyKey :: string

record idempotency_entry =
  ic_inputHash :: string
  ic_originalTaskUid :: string
  ic_outputs :: "output_ref list"
  ic_insertedAtMs :: int

datatype idempotency_decision =
    Miss
  | Replay string "output_ref list"
  | Conflict string string string

record idempotency_cache =
  ica_entries :: "(string \<times> idempotency_entry) list"
  ica_ttlMs :: int

definition DEFAULT_IDEMPOTENCY_TTL_MS :: int where
  "DEFAULT_IDEMPOTENCY_TTL_MS = 24 * 60 * 60 * 1000"

definition new_cache :: "int option \<Rightarrow> idempotency_cache" where
  "new_cache ttl = \<lparr>ica_entries = [], ica_ttlMs = js_or ttl DEFAULT_IDEMPOTENCY_TTL_MS\<rparr>"

definition keyOf :: "idempotency_key \<Rightarrow> string" where
  "keyOf k = ik_namespace k @ ''|'' @ ik_agentName k @ ''|'' @ ik_idempotencyKey k"

definition evictExpired :: "idempotency_cache \<Rightarrow> int \<Rightarrow> idempotency_cache" where
  "evictExpired c now =
     (let cutoff = now - ica_ttlMs c in
      c\<lparr>ica_entries := filter (\<lambda>(k, v). \<not> ic_insertedAtMs v \<le> cutoff) (ica_entries c)\<rparr>)"

definition checkAndStore ::
  "idempotency_cache \<Rightarrow> int \<Rightarrow> idempotency_key \<Rightarrow> string \<Rightarrow> string
    \<Rightarrow> idempotency_cache \<times> idempotency_decision"
where
  "checkAndStore c now key inputHash originalTaskUid =
     (let c1 = evictExpired c now; k = keyOf key in
      case map_of (ica_entries c1) k of
        None \<Rightarrow>
          (c1\<lparr>ica_entries := AList.update k \<lparr>ic_inputHash = inputHash,
              ic_originalTaskUid = originalTaskUid, ic_outputs = [], ic_insertedAtMs = now\<rparr>
              (ica_entries c1)\<rparr>, Miss)
      | Some e \<Rightarrow>
          (if ic_inputHash e \<noteq> inputHash
           then (c1, Conflict (ic_originalTaskUid e) (ic_inputHash e) inputHash)
           else (c1, Replay (ic_originalTaskUid e) (ic_outputs e))))"

definition recordOutputs ::
  "idempotency_cache \<Rightarrow> idempotency_key \<Rightarrow> output_ref list \<Rightarrow> idempotency_cache"
where
  "recordOutputs c key outputs =
     (case map_of (ica_entries c) (keyOf key) of
        None \<Rightarrow> c
      | Some e \<Rightarrow> c\<lparr>ica_entries := AList.update (keyOf key) (e\<lparr>ic_outputs := outputs\<rparr>) (ica_entries c)\<rparr>)"

definition seed ::
  "idempotency_cache \<Rightarrow> int \<Rightarrow> idempotency_key \<Rightarrow> string \<Rightarrow> string \<Rightarrow> output_ref list
    \<Rightarrow> idempotency_cache \<times> bool"
where
  "seed c now key inputHash originalTaskUid outputs =
     (if map_of (ica_entries c) (keyOf key) \<noteq> None then (c, False)
      else (c\<lparr>ica_entries := AList.update (keyOf key) \<lparr>ic_inputHash = inputHash,
              ic_originalTaskUid = originalTaskUid, ic_outputs = outputs, ic_insertedAtMs = now\<rparr>
              (ica_entries c)\<rparr>, True))"

definition cache_size :: "idempotency_cache \<Rightarrow> int \<Rightarrow> idempotency_cache \<times> nat" where
  "cache_size c now = (let c1 = evictExpired c now in (c1, length (ica_entries c1)))"

section \<open>Dedupe before dispatch\<close>

text \<open>
  What the informer delivers of a task; \<open>dt_object\<close> is its cached generation and status, which may
  lag behind the server.
\<close>

record dedupe_task =
  dt_uid :: "string option"
  dt_name :: "string option"
  dt_namespace :: "string option"
  dt_idempotencyKey :: "string option"
  dt_inputHash :: string
  dt_object :: task_object

definition deriveIdempotencyKey :: "dedupe_task \<Rightarrow> string \<Rightarrow> idempotency_key option" where
  "deriveIdempotencyKey task resolvedAgentName =
     (case dt_idempotencyKey task of
        None \<Rightarrow> None
      | Some k \<Rightarrow>
          (if k = [] then None
           else if resolvedAgentName = [] then None
           else Some \<lparr>ik_namespace = js_or (dt_namespace task) ''default'',
                      ik_agentName = resolvedAgentName, ik_idempotencyKey = k\<rparr>))"

text \<open>What the reconciler does with the task: go on, or finish it from the cache.\<close>

datatype dedupe_outcome =
    Proceed
  | IdempotentReplay string
  | IdempotencyConflict string

text \<open>Both writes are best effort: what the retry loop throws is logged and dropped.\<close>

definition markCompletedFromIdempotentReplay ::
  "dedupe_task \<Rightarrow> output_ref list \<Rightarrow> string \<Rightarrow> (nat \<Rightarrow> attempt_env) \<Rightarrow> server \<Rightarrow> server" where
  "markCompletedFromIdempotentReplay task outputs ts env sv =
     fst (patchStatusWithRetry (dt_name task) env (replay_build outputs ts) 3 sv)"

definition markFailed :: "string option \<Rightarrow> string \<Rightarrow> string \<Rightarrow> (nat \<Rightarrow> attempt_env) \<Rightarrow> server \<Rightarrow> server" where
  "markFailed name reason ts env sv = fst (patchStatusWithRetry name env (failed_build reason ts) 3 sv)"

definition conflict_message :: "string \<Rightarrow> string \<Rightarrow> string \<Rightarrow> string \<Rightarrow> string" where
  "conflict_message k orig stored incoming =
     ''idempotencyKey '' @ [CHR 0x27] @ k @ [CHR 0x27] @ '' was first used by task '' @ orig
     @ '' with a different input hash (stored='' @ stored @ '', incoming='' @ incoming
     @ ''); idempotency requires same key + same inputs to dedupe.''"

definition applyIdempotencyDedupe ::
  "idempotency_cache \<Rightarrow> int \<Rightarrow> string \<Rightarrow> (nat \<Rightarrow> attempt_env) \<Rightarrow> dedupe_task \<Rightarrow> string \<Rightarrow> server
    \<Rightarrow> idempotency_cache \<times> server \<times> dedupe_outcome"
where
  "applyIdempotencyDedupe c now ts env task agentName sv =
     (case deriveIdempotencyKey task agentName of
        None \<Rightarrow> (c, sv, Proceed)
      | Some key \<Rightarrow>
          (let taskUid = js_or (dt_uid task) [];
               (c1, decision) = checkAndStore c now key (dt_inputHash task) taskUid
           in
           case decision of
             Miss \<Rightarrow> (c1, sv, Proceed)
           | Replay orig outputs \<Rightarrow>
               (if orig = taskUid then (c1, sv, Proceed)
                else (c1, markCompletedFromIdempotentReplay task outputs ts env sv, IdempotentReplay orig))
           | Conflict orig stored incoming \<Rightarrow>
               (if orig = taskUid then (c1, sv, Proceed)
                else (let message = conflict_message (ik_idempotencyKey key) orig stored incoming in
                      (c1, markFailed (dt_name task)
                             (''policy_denied:IdempotencyConflict '' @ em_dash @ '' '' @ message) ts env sv,
                       IdempotencyConflict message)))))"

section \<open>The completion contract\<close>

text \<open>
  \<open>requiredOutputNames\<close> and \<open>outputsByName\<close> of \<^verbatim>\<open>crds/agent.ts\<close> and \<^verbatim>\<open>crds/agent-task.ts\<close>: a
  declaration is a name with its optional \<open>required\<close> flag.
\<close>

definition outputIsRequired :: "string \<times> bool option \<Rightarrow> bool" where
  "outputIsRequired decl \<longleftrightarrow> snd decl \<noteq> Some False"

definition requiredOutputNames :: "(string \<times> bool option) list \<Rightarrow> string list" where
  "requiredOutputNames outputs = map fst (filter outputIsRequired outputs)"

definition outputsByName :: "output_ref list \<Rightarrow> (string \<times> string) list" where
  "outputsByName refs =
     foldl (\<lambda>out r. if or_name r \<noteq> [] then AList.update (or_name r) (or_ref r) out else out) [] refs"

definition missing_outputs :: "(string \<times> bool option) list \<Rightarrow> output_ref list option \<Rightarrow> string list" where
  "missing_outputs outputs taskOutputs =
     (let present = outputsByName (or_empty taskOutputs) in
      filter (\<lambda>n. map_of present n = None) (requiredOutputNames outputs))"

text \<open>\<open>None\<close> is \<open>ok\<close>; otherwise the missing names, with the message of the refusal.\<close>

definition validateRequiredOutputsPresent ::
  "(string \<times> bool option) list \<Rightarrow> output_ref list option \<Rightarrow> (string \<times> string list) option"
where
  "validateRequiredOutputsPresent outputs taskOutputs =
     (if requiredOutputNames outputs = [] then None
      else
        (let missing = missing_outputs outputs taskOutputs in
         if missing = [] then None
         else Some (''agent-pod published phase=Completed but required outputs are missing: [''
                    @ js_join '', '' missing @ '']'', missing)))"

datatype contract_result = ContractNoOp | ForcedFailed | CachedReplay

text \<open>
  The forced failure is a raw merge patch built from the cached object, without a read and without
  the phase guard; it fails when the task is gone.
\<close>

definition raw_patch :: "put_answer \<Rightarrow> task_status \<Rightarrow> server \<Rightarrow> server \<times> bool" where
  "raw_patch put p sv =
     (case put of
        PutOk \<Rightarrow> (map_option (merge_patch p) sv, sv \<noteq> None)
      | PutLost \<Rightarrow> (map_option (merge_patch p) sv, False)
      | _ \<Rightarrow> (sv, False))"

definition violation_patch :: "dedupe_task \<Rightarrow> string \<Rightarrow> string \<Rightarrow> task_status" where
  "violation_patch task message ts =
     (let snap = dt_object task in
      empty_status\<lparr>st_phase := Some PhFailed,
        st_error := Some (''policy_denied:MissingRequiredOutputs '' @ em_dash @ '' '' @ message),
        st_completedAt := Some ts,
        st_observedGeneration := to_generation snap,
        st_conditions := Some (mergeCondition (st_conditions (to_status snap))
          (stamped snap ''MissingRequiredOutputs'' ''MissingRequiredOutputs'' message ts))\<rparr>)"

definition record_for_key ::
  "idempotency_cache \<Rightarrow> dedupe_task \<Rightarrow> string \<Rightarrow> output_ref list \<Rightarrow> idempotency_cache" where
  "record_for_key c task agentName outs =
     (case deriveIdempotencyKey task agentName of None \<Rightarrow> c | Some key \<Rightarrow> recordOutputs c key outs)"

definition enforceCompletionContract ::
  "idempotency_cache \<Rightarrow> dedupe_task \<Rightarrow> string \<Rightarrow> put_answer \<Rightarrow> string \<Rightarrow> (string \<times> bool option) list \<Rightarrow> server
    \<Rightarrow> idempotency_cache \<times> server \<times> contract_result"
where
  "enforceCompletionContract c task ts put agentName outputs sv =
     (if phase_of (dt_object task) \<noteq> Some PhCompleted then (c, sv, ContractNoOp)
      else
        (let outs = st_outputs (to_status (dt_object task)) in
         case validateRequiredOutputsPresent outputs outs of
           None \<Rightarrow> (record_for_key c task agentName (or_empty outs), sv, CachedReplay)
         | Some (message, missing) \<Rightarrow>
             (if js_or (dt_name task) [] = [] then (c, sv, ContractNoOp)
              else
                (let (sv', landed) = raw_patch put (violation_patch task message ts) sv in
                 if \<not> landed then (c, sv', ContractNoOp)
                 else (record_for_key c task agentName [], sv', ForcedFailed)))))"

section \<open>Facts about the cache\<close>

definition entry_of :: "idempotency_cache \<Rightarrow> string \<Rightarrow> idempotency_entry option" where
  "entry_of c k = map_of (ica_entries c) k"

definition live_entry :: "idempotency_cache \<Rightarrow> int \<Rightarrow> idempotency_entry \<Rightarrow> bool" where
  "live_entry c now e \<longleftrightarrow> now < ic_insertedAtMs e + ica_ttlMs c"

definition cache_ok :: "idempotency_cache \<Rightarrow> bool" where
  "cache_ok c \<longleftrightarrow> distinct (map fst (ica_entries c))"

lemma map_of_filter_val:
  "distinct (map fst xs) \<Longrightarrow>
    map_of (filter (\<lambda>(k, v). P v) xs) k =
      (case map_of xs k of Some v \<Rightarrow> (if P v then Some v else None) | None \<Rightarrow> None)"
proof (induction xs)
  case (Cons x xs)
  have "map_of xs (fst x) = None" using Cons.prems by (auto simp: map_of_eq_None_iff)
  with Cons show ?case by (cases x) (auto split: option.splits)
qed simp

lemma evict_entry:
  "cache_ok c \<Longrightarrow>
    entry_of (evictExpired c now) k =
      (case entry_of c k of Some e \<Rightarrow> (if live_entry c now e then Some e else None) | None \<Rightarrow> None)"
  using map_of_filter_val [of "ica_entries c" "\<lambda>v. \<not> ic_insertedAtMs v \<le> now - ica_ttlMs c" k]
  by (auto simp: evictExpired_def entry_of_def cache_ok_def live_entry_def Let_def split: option.splits)

lemma evict_ok [inv_intros]: "cache_ok c \<Longrightarrow> cache_ok (evictExpired c now)"
  unfolding cache_ok_def evictExpired_def Let_def
  by simp (metis (no_types, lifting) distinct_map_filter)

lemma evict_ttl [simp]: "ica_ttlMs (evictExpired c now) = ica_ttlMs c"
  by (simp add: evictExpired_def Let_def)

lemma checkAndStore_ok [inv_intros]: "cache_ok c \<Longrightarrow> cache_ok (fst (checkAndStore c now key h u))"
  using evict_ok [of c now]
  by (auto simp: checkAndStore_def Let_def cache_ok_def distinct_update split: option.splits)

lemma recordOutputs_ok [inv_intros]: "cache_ok c \<Longrightarrow> cache_ok (recordOutputs c key outs)"
  by (auto simp: recordOutputs_def cache_ok_def distinct_update split: option.splits)

lemma seed_ok [inv_intros]: "cache_ok c \<Longrightarrow> cache_ok (fst (seed c now key h u outs))"
  by (auto simp: seed_def cache_ok_def distinct_update)

lemma checkAndStore_entry:
  assumes "cache_ok c"
  shows "entry_of (fst (checkAndStore c now key h u)) k =
    (case entry_of (evictExpired c now) k of
       Some e \<Rightarrow> Some e
     | None \<Rightarrow> (if k = keyOf key then Some \<lparr>ic_inputHash = h, ic_originalTaskUid = u, ic_outputs = [],
                   ic_insertedAtMs = now\<rparr> else None))"
  using assms
  by (auto simp: checkAndStore_def Let_def entry_of_def update_conv' split: option.splits)

lemma recordOutputs_entry:
  "entry_of (recordOutputs c key outs) k =
    (if k = keyOf key then map_option (\<lambda>e. e\<lparr>ic_outputs := outs\<rparr>) (entry_of c k) else entry_of c k)"
  by (auto simp: recordOutputs_def entry_of_def update_conv' split: option.splits)

lemma seed_entry:
  "entry_of (fst (seed c now key h u outs)) k =
    (case entry_of c k of
       Some e \<Rightarrow> Some e
     | None \<Rightarrow> (if k = keyOf key then Some \<lparr>ic_inputHash = h, ic_originalTaskUid = u, ic_outputs = outs,
                   ic_insertedAtMs = now\<rparr> else None))"
  by (auto simp: seed_def entry_of_def update_conv' split: option.splits)

lemma checkAndStore_decision:
  "snd (checkAndStore c now key h u) =
    (case entry_of (evictExpired c now) (keyOf key) of
       None \<Rightarrow> Miss
     | Some e \<Rightarrow> (if ic_inputHash e \<noteq> h then Conflict (ic_originalTaskUid e) (ic_inputHash e) h
                else Replay (ic_originalTaskUid e) (ic_outputs e)))"
  by (auto simp: checkAndStore_def Let_def entry_of_def split: option.splits)

text \<open>The joined key separates namespace, agent and key when the first two have no bar.\<close>

lemma split_bar:
  "CHR ''|'' \<notin> set a \<Longrightarrow> CHR ''|'' \<notin> set c \<Longrightarrow> a @ CHR ''|'' # b = c @ CHR ''|'' # d \<Longrightarrow> a = c \<and> b = d"
proof (induction a arbitrary: c)
  case Nil
  then show ?case by (cases c) auto
next
  case (Cons x a)
  then show ?case by (cases c) auto
qed

lemma keyOf_inject:
  assumes "CHR ''|'' \<notin> set (ik_namespace k1)" "CHR ''|'' \<notin> set (ik_agentName k1)"
    "CHR ''|'' \<notin> set (ik_namespace k2)" "CHR ''|'' \<notin> set (ik_agentName k2)"
  shows "keyOf k1 = keyOf k2 \<longleftrightarrow> (k1 :: idempotency_key) = k2"
proof
  assume "keyOf k1 = keyOf k2"
  then have "ik_namespace k1 @ CHR ''|'' # (ik_agentName k1 @ CHR ''|'' # ik_idempotencyKey k1) =
      ik_namespace k2 @ CHR ''|'' # (ik_agentName k2 @ CHR ''|'' # ik_idempotencyKey k2)"
    by (simp add: keyOf_def)
  from split_bar [OF assms(1,3) this] split_bar [OF assms(2,4)] show "k1 = k2"
    by (cases k1; cases k2) auto
qed simp

section \<open>Histories\<close>

text \<open>The operations of the reconciler on the cache, with the clock at which each runs.\<close>

datatype cache_op =
    Check idempotency_key string string
  | Record idempotency_key "output_ref list"
  | Seed idempotency_key string string "output_ref list"
  | Size

fun cache_step :: "idempotency_cache \<Rightarrow> int \<times> cache_op \<Rightarrow> idempotency_cache" where
  "cache_step c (now, Check key h u) = fst (checkAndStore c now key h u)"
| "cache_step c (now, Record key outs) = recordOutputs c key outs"
| "cache_step c (now, Seed key h u outs) = fst (seed c now key h u outs)"
| "cache_step c (now, Size) = fst (cache_size c now)"

lemma cache_step_ttl [simp]: "ica_ttlMs (cache_step c ev) = ica_ttlMs c"
  by (induction c ev rule: cache_step.induct)
     (auto simp: checkAndStore_def recordOutputs_def seed_def cache_size_def Let_def split: option.splits)

lemma cache_step_ok: "cache_ok c \<Longrightarrow> cache_ok (cache_step c ev)"
  by (induction c ev rule: cache_step.induct)
     (simp_all add: checkAndStore_ok recordOutputs_ok seed_ok evict_ok cache_size_def Let_def)

text \<open>
  A live entry keeps its owner, hash and time through every operation before it expires, and its
  outputs are the last ones recorded under its key.
\<close>

definition owned ::
  "idempotency_cache \<Rightarrow> string \<Rightarrow> string \<Rightarrow> string \<Rightarrow> int \<Rightarrow> output_ref list \<Rightarrow> bool"
where
  "owned c k u h t outs \<longleftrightarrow>
     entry_of c k = Some \<lparr>ic_inputHash = h, ic_originalTaskUid = u, ic_outputs = outs, ic_insertedAtMs = t\<rparr>"

fun record_step :: "string \<Rightarrow> output_ref list \<Rightarrow> int \<times> cache_op \<Rightarrow> output_ref list" where
  "record_step k outs (now, Record key new) = (if keyOf key = k then new else outs)"
| "record_step k outs (now, op) = outs"

definition recorded :: "string \<Rightarrow> (int \<times> cache_op) list \<Rightarrow> output_ref list" where
  "recorded k evs = foldl (record_step k) [] evs"

lemma cache_step_owned:
  assumes "cache_ok c" "owned c k u h t outs" "fst ev < t + ica_ttlMs c"
  shows "owned (cache_step c ev) k u h t (record_step k outs ev)"
proof -
  obtain now op where ev: "ev = (now, op)" by (cases ev)
  have "entry_of (evictExpired c now) k = entry_of c k"
    using evict_entry [OF assms(1)] assms(2,3) by (simp add: ev live_entry_def owned_def)
  then show ?thesis
    using assms(1,2)
    by (cases op)
       (auto simp: ev owned_def checkAndStore_entry recordOutputs_entry seed_entry cache_size_def Let_def)
qed

lemma cache_run_owned:
  assumes "cache_ok c" "owned c k u h t outs" "\<forall>ev\<in>set evs. fst ev < t + ica_ttlMs c"
  shows "cache_ok (foldl cache_step c evs) \<and>
    owned (foldl cache_step c evs) k u h t (foldl (record_step k) outs evs) \<and>
    ica_ttlMs (foldl cache_step c evs) = ica_ttlMs c"
  using assms
proof (induction evs arbitrary: c outs)
  case (Cons ev evs)
  have "cache_ok (cache_step c ev)" "owned (cache_step c ev) k u h t (record_step k outs ev)"
    using Cons.prems by (auto intro: cache_step_ok cache_step_owned)
  with Cons.IH [of "cache_step c ev"] Cons.prems(3) show ?case by simp
qed simp

lemma miss_owned:
  assumes "cache_ok c" "snd (checkAndStore c t key h u) = Miss"
  shows "owned (fst (checkAndStore c t key h u)) (keyOf key) u h t []"
  using assms by (auto simp: checkAndStore_decision checkAndStore_entry owned_def split: option.splits if_splits)

lemma checkAndStore_ttl [simp]: "ica_ttlMs (fst (checkAndStore c now key h u)) = ica_ttlMs c"
  using cache_step_ttl [of c "(now, Check key h u)"] by simp

lemma owned_decision:
  assumes "cache_ok c" "owned c (keyOf key) u h t outs" "now < t + ica_ttlMs c"
  shows "snd (checkAndStore c now key h' u') = (if h' = h then Replay u outs else Conflict u h h')"
  using assms by (auto simp: checkAndStore_decision evict_entry owned_def live_entry_def)

section \<open>Properties\<close>

text \<open>
  C30. One run per key: after a submission that missed, and whatever the reconciler does with the
  cache before the entry expires, every further submission of the key is a replay of the outputs
  recorded last when its inputs hash the same, and a conflict naming both hashes otherwise; it
  never misses again, so the agent is dispatched at most once per key and lifetime.
\<close>

theorem one_run_per_key:
  assumes "cache_ok c" "snd (checkAndStore c t key h u) = Miss"
    and "\<forall>ev\<in>set evs. fst ev < t + ica_ttlMs c" "now < t + ica_ttlMs c"
  shows "snd (checkAndStore (foldl cache_step (fst (checkAndStore c t key h u)) evs) now key h' u') =
    (if h' = h then Replay u (recorded (keyOf key) evs) else Conflict u h h')"
proof -
  let ?c = "fst (checkAndStore c t key h u)"
  have "cache_ok ?c" using assms(1) by (rule checkAndStore_ok)
  from cache_run_owned [OF this miss_owned [OF assms(1,2)]] assms(3,4) show ?thesis
    by (intro owned_decision [where t = t]) (simp_all add: recorded_def)
qed

definition sample_key :: idempotency_key where
  "sample_key = \<lparr>ik_namespace = ''ns'', ik_agentName = ''a'', ik_idempotencyKey = ''k''\<rparr>"

theorem one_run_per_key_witness:
  "snd (checkAndStore
     (foldl cache_step (fst (checkAndStore (new_cache (Some 1000)) 0 sample_key ''h'' ''u1''))
       [(10, Size), (20, Record sample_key [\<lparr>or_name = ''o'', or_ref = ''r''\<rparr>])])
     900 sample_key ''h'' ''u2'') = Replay ''u1'' [\<lparr>or_name = ''o'', or_ref = ''r''\<rparr>]"
proof -
  have "snd (checkAndStore (new_cache (Some 1000)) 0 sample_key ''h'' ''u1'') = Miss"
    by (simp add: checkAndStore_def new_cache_def evictExpired_def)
  from one_run_per_key [OF _ this, of "[(10, Size), (20, Record sample_key [\<lparr>or_name = ''o'', or_ref = ''r''\<rparr>])]"
      900 "''h''" "''u2''"]
  show ?thesis by (simp add: new_cache_def cache_ok_def recorded_def)
qed

text \<open>
  A replay does not wait for the original: while no outputs have been recorded for the key,
  because the first task is still running, failed, or was failed for missing outputs, a second
  task with the same inputs is marked completed with no outputs at all and its agent never runs.
\<close>

theorem replay_without_result:
  assumes "cache_ok c" "snd (checkAndStore c t key (dt_inputHash task) u) = Miss"
    and "\<forall>ev\<in>set evs. fst ev < t + ica_ttlMs c" "now < t + ica_ttlMs c"
    and "recorded (keyOf key) evs = []"
    and "deriveIdempotencyKey task agentName = Some key" "js_or (dt_uid task) [] \<noteq> u"
    and "js_or (dt_name task) [] \<noteq> []" "phase_of obj = None \<or> phase_of obj = Some PhPending"
  shows "\<exists>obj'. snd (applyIdempotencyDedupe
      (foldl cache_step (fst (checkAndStore c t key (dt_inputHash task) u)) evs) now ts (\<lambda>i. calm)
      task agentName (Some obj)) = (Some obj', IdempotentReplay u) \<and>
    phase_of obj' = Some PhCompleted \<and> st_outputs (to_status obj') = Some []"
proof -
  define c' where "c' = foldl cache_step (fst (checkAndStore c t key (dt_inputHash task) u)) evs"
  let ?c = "fst (checkAndStore c t key (dt_inputHash task) u)"
  have "cache_ok ?c" using assms(1) by (rule checkAndStore_ok)
  from cache_run_owned [OF this miss_owned [OF assms(1,2)], of evs] assms(3,5)
  have c': "cache_ok c'" "owned c' (keyOf key) u (dt_inputHash task) t []" "ica_ttlMs c' = ica_ttlMs c"
    by (simp_all add: recorded_def c'_def)
  have "snd (checkAndStore c' now key (dt_inputHash task) (js_or (dt_uid task) [])) = Replay u []"
    using owned_decision [OF c'(1,2)] assms(4) c'(3) by simp
  then obtain c2 where "checkAndStore c' now key (dt_inputHash task) (js_or (dt_uid task) []) = (c2, Replay u [])"
    by (metis prod.collapse)
  then have "snd (applyIdempotencyDedupe c' now ts (\<lambda>i. calm) task agentName (Some obj)) =
      (markCompletedFromIdempotentReplay task [] ts (\<lambda>i. calm) (Some obj), IdempotentReplay u)"
    using assms(6,7) by (auto simp: applyIdempotencyDedupe_def Let_def)
  moreover have "\<exists>obj'. markCompletedFromIdempotentReplay task [] ts (\<lambda>i. calm) (Some obj) = Some obj' \<and>
      phase_of obj' = Some PhCompleted \<and> st_outputs (to_status obj') = Some []"
  proof -
    have "nextPhase (phase_of obj) PhCompleted = Some PhCompleted" using assms(9) by (auto simp: nextPhase_def)
    then obtain p where "replay_build [] ts obj = Some p" "st_phase p = Some PhCompleted" "st_outputs p = Some []"
      by (auto simp: replay_build_def with_condition_def)
    with assms(8) show ?thesis
      by (simp add: markCompletedFromIdempotentReplay_def calm_retry phase_of_merge merge_patch_outputs)
  qed
  ultimately show ?thesis by (auto simp: c'_def)
qed

definition sample_retry :: "phase option \<Rightarrow> dedupe_task" where
  "sample_retry ph = \<lparr>dt_uid = Some ''u2'', dt_name = Some ''retry'', dt_namespace = Some ''ns'',
     dt_idempotencyKey = Some ''k'', dt_inputHash = ''h'', dt_object = sample_object ph\<rparr>"

theorem replay_without_result_witness:
  "\<exists>obj'. snd (applyIdempotencyDedupe (fst (checkAndStore (new_cache None) 0 sample_key ''h'' ''u1'')) 5 ''now''
     (\<lambda>i. calm) (sample_retry None) ''a'' (Some (sample_object None))) = (Some obj', IdempotentReplay ''u1'') \<and>
   phase_of obj' = Some PhCompleted"
proof -
  have "snd (checkAndStore (new_cache None) 0 sample_key (dt_inputHash (sample_retry None)) ''u1'') = Miss"
    by (simp add: checkAndStore_def new_cache_def evictExpired_def)
  from replay_without_result [OF _ this, of "[]" 5 "''a''" "sample_object None" "''now''"] show ?thesis
    by (auto simp: new_cache_def cache_ok_def recorded_def sample_retry_def sample_key_def sample_object_def
        phase_of_def empty_status_def deriveIdempotencyKey_def DEFAULT_IDEMPOTENCY_TTL_MS_def)
qed

text \<open>The map of present outputs has exactly the named refs of the list.\<close>

lemma outputsByName_dom:
  "map_of (outputsByName refs) n = None \<longleftrightarrow> n = [] \<or> n \<notin> or_name ` set refs"
proof -
  have "map_of (foldl (\<lambda>out r. if or_name r \<noteq> [] then AList.update (or_name r) (or_ref r) out else out) out refs) n = None
      \<longleftrightarrow> map_of out n = None \<and> (n = [] \<or> n \<notin> or_name ` set refs)" for out
    by (induction refs arbitrary: out) (auto simp: update_conv')
  from this [of "[]"] show ?thesis by (simp add: outputsByName_def)
qed

text \<open>The check passes exactly when every output that is not optional is there.\<close>

lemma required_outputs_iff:
  assumes "[] \<notin> fst ` set outputs"
  shows "validateRequiredOutputsPresent outputs refs = None \<longleftrightarrow>
      (\<forall>n. (n, None) \<in> set outputs \<or> (n, Some True) \<in> set outputs \<longrightarrow> n \<in> or_name ` set (or_empty refs))"
proof -
  have bools: "(\<exists>b::bool option. P b) \<longleftrightarrow> P None \<or> P (Some True) \<or> P (Some False)" for P
    by (metis (full_types) option.exhaust)
  have "n \<in> set (requiredOutputNames outputs) \<longleftrightarrow> (\<exists>b. (n, b) \<in> set outputs \<and> b \<noteq> Some False)" for n
    by (auto simp: requiredOutputNames_def outputIsRequired_def image_iff)
  then have req: "set (requiredOutputNames outputs) = {n. (n, None) \<in> set outputs \<or> (n, Some True) \<in> set outputs}"
    unfolding bools by auto
  have "validateRequiredOutputsPresent outputs refs = None \<longleftrightarrow>
      (\<forall>n\<in>set (requiredOutputNames outputs). n \<in> or_name ` set (or_empty refs))"
  proof -
    have "[] \<notin> set (requiredOutputNames outputs)"
      using assms by (auto simp: requiredOutputNames_def image_iff)
    then show ?thesis
      by (auto simp: validateRequiredOutputsPresent_def missing_outputs_def Let_def filter_empty_conv
          outputsByName_dom)
  qed
  with req show ?thesis by blast
qed

text \<open>
  The completion contract: a task reported complete stays complete, and its outputs are what
  the cache replays, exactly when every required output is present under its name; otherwise it
  is failed, and a task that is not complete is left alone.
\<close>

theorem completion_contract:
  assumes "enforceCompletionContract c task ts PutOk agentName outputs (Some obj) = (c', sv', r)"
    and "[] \<notin> fst ` set outputs" "js_or (dt_name task) [] \<noteq> []"
  shows "(r = ContractNoOp \<longleftrightarrow> phase_of (dt_object task) \<noteq> Some PhCompleted) \<and>
    (r = CachedReplay \<longleftrightarrow> phase_of (dt_object task) = Some PhCompleted \<and>
       (\<forall>n. (n, None) \<in> set outputs \<or> (n, Some True) \<in> set outputs \<longrightarrow>
          n \<in> or_name ` set (or_empty (st_outputs (to_status (dt_object task)))))) \<and>
    (if r = ForcedFailed then \<exists>obj'. sv' = Some obj' \<and> phase_of obj' = Some PhFailed else sv' = Some obj) \<and>
    (\<forall>key e. deriveIdempotencyKey task agentName = Some key \<and> entry_of c (keyOf key) = Some e \<and>
        r \<noteq> ContractNoOp \<longrightarrow>
      entry_of c' (keyOf key) =
        Some (e\<lparr>ic_outputs := (if r = CachedReplay then or_empty (st_outputs (to_status (dt_object task))) else [])\<rparr>))"
proof -
  note ok = required_outputs_iff [OF assms(2)]
  show ?thesis
  proof (cases "phase_of (dt_object task) = Some PhCompleted")
    case False
    with assms(1) show ?thesis by (auto simp: enforceCompletionContract_def)
  next
    case True
    let ?outs = "st_outputs (to_status (dt_object task))"
    show ?thesis
    proof (cases "validateRequiredOutputsPresent outputs ?outs")
      case None
      with assms(1) True ok show ?thesis
        by (auto simp: enforceCompletionContract_def Let_def record_for_key_def recordOutputs_entry)
    next
      case (Some mm)
      then have "\<not> (\<forall>n. (n, None) \<in> set outputs \<or> (n, Some True) \<in> set outputs \<longrightarrow>
          n \<in> or_name ` set (or_empty ?outs))" using ok by (metis option.distinct(1))
      moreover have "r = ForcedFailed" "c' = record_for_key c task agentName []"
        "sv' = Some (merge_patch (violation_patch task (fst mm) ts) obj)"
        using assms(1,3) True Some
        by (auto simp: enforceCompletionContract_def raw_patch_def Let_def split: prod.splits)
      ultimately show ?thesis
        using True by (auto simp: record_for_key_def recordOutputs_entry phase_of_merge violation_patch_def Let_def)
    qed
  qed
qed

theorem completion_contract_witness:
  "snd (snd (enforceCompletionContract (new_cache None) (sample_retry (Some PhCompleted)) ''now'' PutOk
     ''a'' [(''o'', None)] (Some (sample_object (Some PhCompleted))))) = ForcedFailed"
proof -
  obtain c' t' r where e: "enforceCompletionContract (new_cache None) (sample_retry (Some PhCompleted)) ''now'' PutOk
      ''a'' [(''o'', None)] (Some (sample_object (Some PhCompleted))) = (c', t', r)"
    by (metis prod_cases3)
  from completion_contract [OF this] have "r \<noteq> ContractNoOp" "r \<noteq> CachedReplay"
    by (auto simp: sample_retry_def sample_object_def phase_of_def empty_status_def)
  with e show ?thesis by (cases r) simp_all
qed

end
