(* ===== verification/TaskAdmission.thy ===== *)
theory TaskAdmission
  imports CapIssuer
begin

text \<open>
  Admission of a task before its job is built, \<^verbatim>\<open>packages/operator/src/task-admission.ts\<close>: the
  typed-input contract (with \<^verbatim>\<open>crds/agent-task.ts\<close> and \<^verbatim>\<open>crds/agent.ts\<close>), the capability
  bounds, the tenant of a task and its namespace, and the topics of an agent against its claims
  (with \<^verbatim>\<open>packages/events/src/types.ts\<close> and \<^verbatim>\<open>validate.ts\<close>).
\<close>

section \<open>Typed inputs\<close>

record input_decl =
  nd_name :: string
  nd_kind :: string
  nd_optional :: "bool option"
  nd_required :: "bool option"
  nd_mountPath :: "string option"

text \<open>A binding as it comes off the API server: name and source are untrusted values.\<close>

record input_binding =
  nb_name :: json
  nb_from :: json

datatype from_kind = FromWorkspace | FromTaskUid | FromScalar

definition inputIsRequired :: "input_decl \<Rightarrow> bool" where
  "inputIsRequired d \<longleftrightarrow>
     (if nd_optional d = Some True then False
      else if nd_required d = Some False then False
      else True)"

fun is_json_string :: "json \<Rightarrow> bool" where
  "is_json_string (JStr s) = True"
| "is_json_string _ = False"

definition isFromWorkspace :: "(string \<times> json) list \<Rightarrow> bool" where
  "isFromWorkspace kvs \<longleftrightarrow> obj_has kvs ''workspace'' \<and> is_json_string (obj_get kvs ''workspace'')"

definition isFromTaskUidOutput :: "(string \<times> json) list \<Rightarrow> bool" where
  "isFromTaskUidOutput kvs \<longleftrightarrow>
     obj_has kvs ''taskUid'' \<and> is_json_string (obj_get kvs ''taskUid'') \<and>
     obj_has kvs ''output'' \<and> is_json_string (obj_get kvs ''output'')"

definition isFromScalar :: "(string \<times> json) list \<Rightarrow> bool" where
  "isFromScalar kvs \<longleftrightarrow>
     obj_has kvs ''scalar'' \<and> \<not> obj_has kvs ''workspace'' \<and> \<not> obj_has kvs ''taskUid''"

text \<open>An array is an object without any of the keys.\<close>

definition fromKindOrNull :: "json \<Rightarrow> from_kind option" where
  "fromKindOrNull from =
     (case from of
        JObj kvs \<Rightarrow>
          (let hasWs = isFromWorkspace kvs; hasTask = isFromTaskUidOutput kvs;
               hasScalar = isFromScalar kvs;
               cnt = (if hasWs then 1 else 0) + (if hasTask then 1 else 0)
                     + (if hasScalar then 1 else (0::nat))
           in if cnt \<noteq> 1 then None
              else if hasWs then Some FromWorkspace
              else if hasTask then Some FromTaskUid
              else Some FromScalar)
      | _ \<Rightarrow> None)"

record input_validation =
  iv_missing :: "string list"
  iv_unknown :: "string list"
  iv_malformed :: "string list"

text \<open>The loop over the bindings: the bound names by name, and the malformed ones.\<close>

fun bind_inputs ::
  "input_binding list \<Rightarrow> (string \<times> input_binding) list \<times> string list
    \<Rightarrow> (string \<times> input_binding) list \<times> string list"
where
  "bind_inputs [] acc = acc"
| "bind_inputs (b # bs) (boundByName, malformed) =
     (case nb_name b of
        JStr n \<Rightarrow>
          (if n = [] then bind_inputs bs (boundByName, malformed @ [''<unnamed>''])
           else if fromKindOrNull (nb_from b) = None then bind_inputs bs (boundByName, malformed @ [n])
           else bind_inputs bs (AList.update n b boundByName, malformed))
      | _ \<Rightarrow> bind_inputs bs (boundByName, malformed @ [''<unnamed>'']))"

definition validateInputBindings :: "input_decl list \<Rightarrow> input_binding list \<Rightarrow> input_validation" where
  "validateInputBindings declared bound =
     (let (boundByName, malformed) = bind_inputs bound ([], []);
          missing = map nd_name (filter (\<lambda>d. inputIsRequired d \<and> map_of boundByName (nd_name d) = None) declared);
          unknown = filter (\<lambda>n. n \<notin> nd_name ` set declared) (map fst boundByName)
      in \<lparr>iv_missing = missing, iv_unknown = unknown, iv_malformed = malformed\<rparr>)"

definition inputsMissingMountPath :: "input_decl list \<Rightarrow> string list" where
  "inputsMissingMountPath inputs =
     map nd_name (filter (\<lambda>d. nd_kind d \<noteq> ''scalar'' \<and> (nd_mountPath d = None \<or> nd_mountPath d = Some [])) inputs)"

definition bracketed :: "string \<Rightarrow> string list \<Rightarrow> string" where
  "bracketed what names = what @ ''['' @ js_join '', '' names @ '']''"

definition invalid_inputs_message :: "input_validation \<Rightarrow> string list \<Rightarrow> string" where
  "invalid_inputs_message r mounts =
     js_join ''; ''
       ((if iv_missing r \<noteq> [] then [bracketed ''missing required inputs: '' (iv_missing r)] else [])
        @ (if iv_unknown r \<noteq> [] then [bracketed ''unknown input bindings: '' (iv_unknown r)] else [])
        @ (if iv_malformed r \<noteq> [] then [bracketed ''malformed input bindings: '' (iv_malformed r)] else [])
        @ (if mounts \<noteq> [] then [bracketed ''Agent.spec.inputs missing mountPath: '' mounts
              @ '' (required for kind: workspace | artifact)''] else []))"

text \<open>\<open>None\<close> is \<open>ok\<close>; otherwise the message, the validation and the inputs without a mount path.\<close>

definition validateAgentTaskInputs ::
  "input_decl list \<Rightarrow> input_binding list \<Rightarrow> (string \<times> input_validation \<times> string list) option"
where
  "validateAgentTaskInputs declared bound =
     (let r = validateInputBindings declared bound; mounts = inputsMissingMountPath declared;
          anyFailure = (length (iv_missing r) > 0 \<or> length (iv_unknown r) > 0 \<or>
                        length (iv_malformed r) > 0 \<or> length mounts > 0)
      in if \<not> anyFailure then None else Some (invalid_inputs_message r mounts, r, mounts))"

section \<open>Capability bounds\<close>

definition validateCapabilityBounds :: "agent \<Rightarrow> capability_bundle option \<Rightarrow> string option" where
  "validateCapabilityBounds ag parentBundle =
     (case parentBundle of
        None \<Rightarrow> None
      | Some pb \<Rightarrow>
          (let violations = claimsSubsetViolations (resolveAgentClaims ag) (cb_claims pb) in
           if length violations = 0 then None
           else Some (''policy_denied:capability_violation '' @ em_dash
                  @ '' Agent claims escalate past parent cap (jti='' @ cb_jti pb @ ''): ''
                  @ formatViolations violations)))"

section \<open>Tenants\<close>

definition resolveTenantForTask ::
  "agent_task \<Rightarrow> agent \<Rightarrow> string option \<Rightarrow> (string \<Rightarrow> tenant option) \<Rightarrow> tenant option"
where
  "resolveTenantForTask task ag defaultTenantName lookupTenant =
     (let try_label = (\<lambda>l. case l of
            None \<Rightarrow> None
          | Some n \<Rightarrow> (if n = [] then None else lookupTenant n))
      in
      case try_label (tk_tenantLabel task) of
        Some t \<Rightarrow> Some t
      | None \<Rightarrow>
          (case try_label (ag_tenantLabel ag) of
             Some t \<Rightarrow> Some t
           | None \<Rightarrow> try_label defaultTenantName))"

record tenant_refusal =
  tx_message :: string
  tx_tenantName :: string
  tx_namespace :: string

definition TENANT_NAMESPACE_REFUSAL_REASON :: string where
  "TENANT_NAMESPACE_REFUSAL_REASON = ''policy_denied:tenant_namespace_mismatch''"

definition validateTenantNamespace ::
  "agent_task \<Rightarrow> tenant option \<Rightarrow> bool \<Rightarrow> tenant_refusal + tenant option"
where
  "validateTenantNamespace task resolvedTenant tenancyEnforced =
     (let ns = js_or (tk_namespace task) ''default'' in
      case resolvedTenant of
        None \<Rightarrow>
          (if tenancyEnforced then
             Inl \<lparr>tx_message = TENANT_NAMESPACE_REFUSAL_REASON @ '' '' @ em_dash
                    @ '' no tenant resolved for AgentTask in namespace '' @ ns
                    @ '' and KAGENT_TENANCY_ENFORCED=true'',
                  tx_tenantName = [], tx_namespace = ns\<rparr>
           else Inr None)
      | Some t \<Rightarrow>
          (if \<not> tenantAdmitsNamespace t ns then
             Inl \<lparr>tx_message = TENANT_NAMESPACE_REFUSAL_REASON @ '' '' @ em_dash
                    @ '' AgentTask in namespace '' @ ns @ '' is not in tenant '' @ tn_name t
                    @ '' allowlist ('' @ js_join '', '' (tn_namespaceAllowlist t) @ '')'',
                  tx_tenantName = tn_name t, tx_namespace = ns\<rparr>
           else Inr (Some t)))"

section \<open>Event topics\<close>

definition topic_char :: "char \<Rightarrow> bool" where
  "topic_char c \<longleftrightarrow>
     (let n = of_char c :: nat in (97 \<le> n \<and> n \<le> 122) \<or> (48 \<le> n \<and> n \<le> 57) \<or> n = 95 \<or> n = 45)"

text \<open>The regular expression: non-empty segments of topic characters, joined by dots.\<close>

definition TOPIC_RE :: "string \<Rightarrow> bool" where
  "TOPIC_RE raw \<longleftrightarrow> list_all (\<lambda>seg. seg \<noteq> [] \<and> list_all topic_char seg) (js_split CHR ''.'' raw)"

definition TOPIC_MAX_LEN :: nat where "TOPIC_MAX_LEN = 128"

definition TOPIC_SEGMENT_MAX_LEN :: nat where "TOPIC_SEGMENT_MAX_LEN = 64"

definition validateTopic :: "string \<Rightarrow> string option" where
  "validateTopic raw =
     (if raw = [] then Some ''topic must be a non-empty string''
      else if length raw > TOPIC_MAX_LEN then
        Some (''topic exceeds '' @ string_of_nat TOPIC_MAX_LEN @ '' chars (got ''
              @ string_of_nat (length raw) @ '')'')
      else if \<not> TOPIC_RE raw then
        Some (''topic '' @ quoted raw @ '' must match [a-z0-9_-]+(.[a-z0-9_-]+)* '' @ em_dash
              @ '' lowercase ASCII, dot-separated segments, no NATS wildcards (*/>) or whitespace'')
      else
        (case find (\<lambda>seg. length seg > TOPIC_SEGMENT_MAX_LEN) (js_split CHR ''.'' raw) of
           Some seg \<Rightarrow> Some (''topic segment '' @ quoted seg @ '' exceeds ''
                         @ string_of_nat TOPIC_SEGMENT_MAX_LEN @ '' chars'')
         | None \<Rightarrow> None))"

definition isValidTopic :: "string \<Rightarrow> bool" where
  "isValidTopic raw \<longleftrightarrow> validateTopic raw = None"

definition isTopicAdmittedByPublishClaims :: "string \<Rightarrow> string list option \<Rightarrow> bool" where
  "isTopicAdmittedByPublishClaims topic publishClaims =
     (if \<not> isValidTopic topic then False else globMatchAny publishClaims topic)"

datatype topic_reason = InvalidTopic | NotAdmittedByClaims

record topic_violation =
  tv_category :: string
  tv_topic :: string
  tv_reason :: topic_reason

fun collectViolations :: "string list \<Rightarrow> string list option \<Rightarrow> string \<Rightarrow> topic_violation list" where
  "collectViolations [] claims category = []"
| "collectViolations (t # ts) claims category =
     (if validateTopic t \<noteq> None then
        \<lparr>tv_category = category, tv_topic = t, tv_reason = InvalidTopic\<rparr>
          # collectViolations ts claims category
      else if \<not> globMatchAny claims t then
        \<lparr>tv_category = category, tv_topic = t, tv_reason = NotAdmittedByClaims\<rparr>
          # collectViolations ts claims category
      else collectViolations ts claims category)"

definition topicSubsetViolations ::
  "string list option \<Rightarrow> string list option \<Rightarrow> string list option \<Rightarrow> string list option
    \<Rightarrow> topic_violation list"
where
  "topicSubsetViolations publishes subscribes publishClaims subscribeClaims =
     collectViolations (or_empty publishes) publishClaims ''publish''
     @ collectViolations (or_empty subscribes) subscribeClaims ''subscribe''"

definition topic_line :: "topic_violation \<Rightarrow> string" where
  "topic_line v = tv_category v @ '' topic '' @ quoted (tv_topic v) @ '' '' @ [CHR 0xE2, CHR 0x86, CHR 0x92]
     @ '' '' @ (if tv_reason v = InvalidTopic then ''malformed'' else ''not admitted by claims'')"

definition validateEventTopicsAgainstClaims :: "agent \<Rightarrow> (string \<times> topic_violation list) option" where
  "validateEventTopicsAgainstClaims ag =
     (let publishes = or_empty (ag_publishes ag); subscribes = or_empty (ag_subscribes ag) in
      if length publishes = 0 \<and> length subscribes = 0 then None
      else
        (let claims = js_or (ag_capabilityClaims ag) no_claims;
             violations = topicSubsetViolations (Some publishes) (Some subscribes)
                            (cl_publish claims) (cl_subscribe claims)
         in if length violations = 0 then None
            else Some (''Agent.spec.publishes/subscribes admission failed: ''
                   @ js_join ''; '' (map topic_line violations), violations)))"

section \<open>Facts\<close>

text \<open>A binding the validator accepts under a name.\<close>

definition binds :: "input_binding \<Rightarrow> string \<Rightarrow> bool" where
  "binds b n \<longleftrightarrow> nb_name b = JStr n \<and> n \<noteq> [] \<and> fromKindOrNull (nb_from b) \<noteq> None"

lemma binds_unique: "binds b n \<Longrightarrow> binds b m \<Longrightarrow> n = m"
  by (simp add: binds_def)

lemma bind_inputs_dom:
  "map_of (fst (bind_inputs bs acc)) n = None \<longleftrightarrow>
    map_of (fst acc) n = None \<and> (\<forall>b\<in>set bs. \<not> binds b n)"
proof (induction bs acc rule: bind_inputs.induct)
  case (2 b bs m mal)
  show ?case
  proof (cases "nb_name b")
    case (JStr k)
    with 2 show ?thesis
      by (cases "k = []"; cases "fromKindOrNull (nb_from b)") (auto simp: binds_def update_conv')
  qed (use 2 in \<open>simp_all add: binds_def\<close>)
qed simp

lemma bind_inputs_malformed:
  "snd (bind_inputs bs acc) = [] \<longleftrightarrow> snd acc = [] \<and> (\<forall>b\<in>set bs. \<exists>n. binds b n)"
proof (induction bs arbitrary: acc)
  case (Cons b bs)
  obtain m mal where acc: "acc = (m, mal)" by (cases acc)
  show ?case
    using Cons.IH by (cases "nb_name b") (auto simp: acc binds_def)
qed (cases acc, simp)

text \<open>Every name bound by some binding is declared, and none is malformed, when each binding names a
  declared input.\<close>

lemma bindings_declared:
  assumes "\<And>n. n \<in> bound_names \<longleftrightarrow> (\<exists>b\<in>set bound. binds b n)"
  shows "(\<forall>n\<in>bound_names. n \<in> declared) \<and> (\<forall>b\<in>set bound. \<exists>n. binds b n) \<longleftrightarrow>
    (\<forall>b\<in>set bound. \<exists>n\<in>declared. binds b n)"
  using assms binds_unique by blast

text \<open>
  The typed-input contract: a task is accepted exactly when every binding is well formed and
  names a declared input, every required input is bound, and every non-scalar input of the agent
  has a mount path.
\<close>

theorem inputs_accepted_iff:
  "validateAgentTaskInputs declared bound = None \<longleftrightarrow>
     (\<forall>b\<in>set bound. \<exists>n\<in>nd_name ` set declared. binds b n) \<and>
     (\<forall>d\<in>set declared. nd_optional d = Some True \<or> nd_required d = Some False \<or>
        (\<exists>b\<in>set bound. binds b (nd_name d))) \<and>
     (\<forall>d\<in>set declared. nd_kind d = ''scalar'' \<or> (\<exists>p. nd_mountPath d = Some p \<and> p \<noteq> []))"
proof -
  obtain m mal where bi: "bind_inputs bound ([], []) = (m, mal)" by fastforce
  have dom: "n \<in> set (map fst m) \<longleftrightarrow> (\<exists>b\<in>set bound. binds b n)" for n
    using bind_inputs_dom [of bound "([], [])" n] map_of_dom_fst [of m n] by (auto simp: bi)
  have mal: "mal = [] \<longleftrightarrow> (\<forall>b\<in>set bound. \<exists>n. binds b n)"
    using bind_inputs_malformed [of bound "([], [])"] by (simp add: bi)
  have miss: "map_of m n = None \<longleftrightarrow> \<not> (\<exists>b\<in>set bound. binds b n)" for n
    using dom [of n] map_of_dom_fst [of m n] by auto
  have "validateAgentTaskInputs declared bound = None \<longleftrightarrow>
      (\<forall>d\<in>set declared. inputIsRequired d \<longrightarrow> map_of m (nd_name d) \<noteq> None) \<and>
      (\<forall>n\<in>set (map fst m). n \<in> nd_name ` set declared) \<and> mal = [] \<and>
      (\<forall>d\<in>set declared. nd_kind d = ''scalar'' \<or> (\<exists>p. nd_mountPath d = Some p \<and> p \<noteq> []))"
    by (auto simp: validateAgentTaskInputs_def validateInputBindings_def bi Let_def
        inputsMissingMountPath_def filter_empty_conv)
  moreover have "(\<forall>n\<in>set (map fst m). n \<in> nd_name ` set declared) \<and> mal = [] \<longleftrightarrow>
      (\<forall>b\<in>set bound. \<exists>n\<in>nd_name ` set declared. binds b n)"
    unfolding mal using dom by (rule bindings_declared)
  ultimately show ?thesis
    unfolding miss inputIsRequired_def by (auto split: if_splits)
qed

theorem inputs_accepted_iff_witness:
  "validateAgentTaskInputs
     [\<lparr>nd_name = ''repo'', nd_kind = ''workspace'', nd_optional = None, nd_required = None, nd_mountPath = Some ''/ws''\<rparr>,
      \<lparr>nd_name = ''hint'', nd_kind = ''scalar'', nd_optional = Some True, nd_required = None, nd_mountPath = None\<rparr>]
     [\<lparr>nb_name = JStr ''repo'', nb_from = JObj [(''workspace'', JStr ''w1'')]\<rparr>] = None"
  unfolding inputs_accepted_iff
  by (simp add: binds_def fromKindOrNull_def isFromWorkspace_def isFromTaskUidOutput_def isFromScalar_def
      obj_has_def obj_get_def)

text \<open>
  Two discriminants at once are not always refused: a source that names a workspace and carries a
  scalar counts as a workspace, although a source must have exactly one discriminant.
\<close>

lemma workspace_with_scalar_accepted:
  "fromKindOrNull (JObj [(''workspace'', JStr w), (''scalar'', v)]) = Some FromWorkspace"
  by (simp add: fromKindOrNull_def isFromWorkspace_def isFromTaskUidOutput_def isFromScalar_def
      obj_has_def obj_get_def)

lemma admitted_patterns_all:
  "patternListIsSubset c p \<Longrightarrow> admitted_patterns c p = or_empty c"
  by (auto simp: patternListIsSubset_iff admitted_patterns_def patternIsAdmittedByList_iff
      filter_id_conv)

lemma globMatchAny_or_empty: "or_empty a = or_empty b \<Longrightarrow> globMatchAny a t = globMatchAny b t"
  by (cases a; cases b) auto

lemma narrow_sub_subset_id:
  "patternListIsSubset c p \<Longrightarrow> globMatchAny (narrow_sub c p) t = globMatchAny c t"
  by (rule globMatchAny_or_empty) (simp add: admitted_patterns_all)

text \<open>
  Admission and issuance agree: when the capability gate admits an agent under a parent, the
  issuer's narrowing takes nothing away, in no category and not on the blackboard, and the tenant
  is the agent's own or, when it declares none, the parent's.
\<close>

theorem admitted_claims_survive_narrowing:
  assumes "validateCapabilityBounds ag (Some pb) = None"
  defines "declared \<equiv> resolveAgentClaims ag"
    and "narrowed \<equiv> narrowClaimsByParent (resolveAgentClaims ag) (cb_claims pb)"
  shows "authorizes narrowed cat t = authorizes declared cat t \<and>
    bb_authorizes_read narrowed key = bb_authorizes_read declared key \<and>
    bb_authorizes_write narrowed key = bb_authorizes_write declared key \<and>
    cl_tenant narrowed = (case cl_tenant declared of Some x \<Rightarrow> Some x | None \<Rightarrow> cl_tenant (cb_claims pb))"
proof -
  have "claimsAreSubsetOf declared (cb_claims pb)"
    using assms(1)
    by (simp add: validateCapabilityBounds_def claimsAreSubsetOf_def declared_def Let_def split: if_splits)
  then show ?thesis
    unfolding claimsAreSubsetOf_iff
    by (auto simp: authorizes_def bb_authorizes_read_def bb_authorizes_write_def narrowed_def
        narrowClaimsByParent_list narrowClaimsByParent_blackboard narrowClaimsByParent_tenant
        narrow_sub_subset_id declared_def [symmetric] split: option.split)
qed

theorem admitted_claims_survive_narrowing_witness:
  "authorizes (narrowClaimsByParent
     (resolveAgentClaims (sample_agent (no_claims\<lparr>cl_tools := Some [''read_file'']\<rparr>)))
     (no_claims\<lparr>cl_tools := Some [''read_*'']\<rparr>)) Tools ''read_file''"
proof -
  let ?ag = "sample_agent (no_claims\<lparr>cl_tools := Some [''read_file'']\<rparr>)"
  let ?pb = "sample_bundle (no_claims\<lparr>cl_tools := Some [''read_*'']\<rparr>)"
  have sub: "globPatternIsSubset ''read_file'' ''read_*''"
    by (simp add: globPatternIsSubset_def globMatch_def glob_loop.simps skip_stars_def)
  have m: "globMatch ''read_file'' ''read_file''"
    by (simp add: globMatch_def glob_loop.simps skip_stars_def)
  have "patternListIsSubset (claims_list (no_claims\<lparr>cl_tools := Some [''read_file'']\<rparr>) cat)
      (claims_list (no_claims\<lparr>cl_tools := Some [''read_*'']\<rparr>) cat)" for cat
    using sub by (cases cat) (simp_all add: no_claims_def patternListIsSubset_iff)
  then have "claimsAreSubsetOf (resolveAgentClaims ?ag) (cb_claims ?pb)"
    by (simp add: claimsAreSubsetOf_iff resolveAgentClaims_def sample_agent_def sample_bundle_def)
  then have "validateCapabilityBounds ?ag (Some ?pb) = None"
    by (simp add: validateCapabilityBounds_def claimsAreSubsetOf_def)
  from admitted_claims_survive_narrowing [OF this, of Tools "''read_file''"] show ?thesis
    by (simp add: resolveAgentClaims_def authorizes_def sample_agent_def sample_bundle_def m)
qed

text \<open>
  A task runs under a tenant only if that tenant admits the task's namespace, and the tenant
  is the one its own label names when that exists, else the agent's, else the cluster default;
  with enforcement on, no task is admitted without a tenant.
\<close>

theorem tenant_admission:
  assumes "validateTenantNamespace task (resolveTenantForTask task ag dflt lookup) enforced = Inr r"
  shows "(case r of
      Some t \<Rightarrow> js_or (tk_namespace task) ''default'' \<in> set (tn_namespaceAllowlist t) \<and>
        (\<exists>n. n \<noteq> [] \<and> lookup n = Some t \<and>
           (tk_tenantLabel task = Some n \<or> ag_tenantLabel ag = Some n \<or> dflt = Some n))
    | None \<Rightarrow> \<not> enforced) \<and>
    (\<forall>n t. tk_tenantLabel task = Some n \<and> n \<noteq> [] \<and> lookup n = Some t \<longrightarrow> r = Some t)"
  using assms
  by (auto simp: validateTenantNamespace_def resolveTenantForTask_def tenantAdmitsNamespace_def
      list_ex_iff Let_def split: option.splits if_splits)

definition sample_tenant :: tenant where
  "sample_tenant = \<lparr>tn_name = ''acme'', tn_issuer = None, tn_namespaceAllowlist = [''ns'']\<rparr>"

theorem tenant_admission_witness:
  "js_or (tk_namespace (sample_task\<lparr>tk_namespace := Some ''ns'', tk_tenantLabel := Some ''acme''\<rparr>)) ''default''
     \<in> set (tn_namespaceAllowlist sample_tenant)"
proof -
  let ?task = "sample_task\<lparr>tk_namespace := Some ''ns'', tk_tenantLabel := Some ''acme''\<rparr>"
  have "validateTenantNamespace ?task (resolveTenantForTask ?task (sample_agent no_claims) None
      (\<lambda>n. if n = ''acme'' then Some sample_tenant else None)) True = Inr (Some sample_tenant)"
    by (simp add: validateTenantNamespace_def resolveTenantForTask_def sample_tenant_def
        tenantAdmitsNamespace_def)
  from tenant_admission [OF this] show ?thesis by simp
qed

lemma collectViolations_Nil:
  "collectViolations ts claims cat = [] \<longleftrightarrow> (\<forall>t\<in>set ts. isValidTopic t \<and> globMatchAny claims t)"
  by (induction ts) (auto simp: isValidTopic_def)

lemma js_split_chars: "c \<noteq> d \<Longrightarrow> c \<in> set s \<longleftrightarrow> (\<exists>seg\<in>set (js_split d s). c \<in> set seg)"
  by (induction s) (auto split: list.splits)

lemma js_split_not_Nil [simp]: "js_split d s \<noteq> []"
  by (induction s) (auto split: list.splits)

lemma valid_topic_exact: "isValidTopic t \<Longrightarrow> star \<notin> set t \<and> CHR ''>'' \<notin> set t \<and> CHR '' '' \<notin> set t"
proof -
  assume v: "isValidTopic t"
  then have "\<forall>seg\<in>set (js_split CHR ''.'' t). list_all topic_char seg"
    by (auto simp: isValidTopic_def validateTopic_def TOPIC_RE_def list_all_iff split: if_splits)
  then have "c \<notin> set t" if "c \<noteq> CHR ''.''" "\<not> topic_char c" for c
    using that js_split_chars [of c "CHR ''.''" t] by (auto simp: list_all_iff)
  then show ?thesis by (simp add: topic_char_def)
qed

text \<open>
  An agent's topics are accepted exactly when each is a well-formed concrete topic, free of
  wildcards, that its own claims authorise in the matching category.
\<close>

theorem topics_accepted_iff:
  "validateEventTopicsAgainstClaims ag = None \<longleftrightarrow>
     (\<forall>t\<in>set (or_empty (ag_publishes ag)). isValidTopic t \<and> star \<notin> set t \<and>
        authorizes (js_or (ag_capabilityClaims ag) no_claims) Publish t) \<and>
     (\<forall>t\<in>set (or_empty (ag_subscribes ag)). isValidTopic t \<and> star \<notin> set t \<and>
        authorizes (js_or (ag_capabilityClaims ag) no_claims) Subscribe t)"
  using valid_topic_exact
  by (auto simp: validateEventTopicsAgainstClaims_def topicSubsetViolations_def Let_def
      collectViolations_Nil authorizes_def)

theorem topics_accepted_iff_witness:
  "validateEventTopicsAgainstClaims ((sample_agent (no_claims\<lparr>cl_publish := Some [''ci.*'']\<rparr>))
     \<lparr>ag_publishes := Some [''ci.build_done''], ag_subscribes := None\<rparr>) = None"
proof -
  have v: "isValidTopic ''ci.build_done''" by code_simp
  have g: "globMatchAny (Some [''ci.*'']) ''ci.build_done''" by code_simp
  show ?thesis
    unfolding topics_accepted_iff
    using v g by (simp add: sample_agent_def authorizes_def)
qed

end
