(* ===== verification/Reconcile.thy ===== *)
theory Reconcile
  imports Idempotency TaskAdmission
begin

text \<open>
  The reconcile of one task, \<^verbatim>\<open>reconcileAgentTask\<close> in \<^verbatim>\<open>packages/operator/src/reconcile.ts\<close> with
  the Job helpers of \<^verbatim>\<open>job-annotator.ts\<close>: seeding, agent resolution, input validation, dedupe,
  config map, capability secret, suspended Job, publish, annotation, unsuspend and the status
  write. The cluster is explicit; every call that can fail has its answer in the environment, and a
  failing call may have landed all the same. What \<open>mintCapabilityForTask\<close> returns (see
  \<open>CapIssuer\<close>), what the capability registry and the agent store hold, and the text of thrown
  errors are parameters. The rendered Job and config map carry no content here.
\<close>

section \<open>The cluster\<close>

record kjob =
  kj_suspend :: bool
  kj_published :: bool

text \<open>A message on the bus, with the broker's dedupe id.\<close>

record bus_message =
  bm_taskId :: string
  bm_agentId :: string
  bm_dedupeId :: string

record cluster =
  cl_server :: server
  cl_configMap :: "unit option"
  cl_secret :: "string option"
  cl_capabilityRef :: "string option"
  cl_job :: "kjob option"
  cl_bus :: "bus_message list"

text \<open>\<open>CallLost\<close> takes effect and still throws.\<close>

datatype call_answer = CallOk | CallFails string | CallLost string

fun thrown :: "call_answer \<Rightarrow> string option" where
  "thrown CallOk = None"
| "thrown (CallFails e) = Some e"
| "thrown (CallLost e) = Some e"

fun lands :: "call_answer \<Rightarrow> bool" where
  "lands (CallFails e) = False"
| "lands _ = True"

text \<open>A read by name.\<close>

datatype 'a read_answer = ReadOk 'a | ReadNotFound | ReadFails string

text \<open>Creation is idempotent: an object that exists already stays and the call succeeds.\<close>

definition create_idempotent :: "call_answer \<Rightarrow> 'a \<Rightarrow> 'a option \<Rightarrow> 'a option" where
  "create_idempotent ans new old =
     (if lands ans then (case old of None \<Rightarrow> Some new | Some x \<Rightarrow> Some x) else old)"

section \<open>Target agent\<close>

record target_agent =
  ta_name :: "string option"
  ta_inputs :: "input_decl list"

record reconcile_task =
  rt_deleting :: bool
  rt_targetAgent :: "string option"
  rt_targetCapability :: "string option"
  rt_inputs :: "input_binding list"
  rt_task :: dedupe_task

definition resolveTargetAgent ::
  "reconcile_task \<Rightarrow> (string \<Rightarrow> string + string option) \<Rightarrow> (string \<Rightarrow> string + target_agent option) \<Rightarrow>
   string + target_agent" where
  "resolveTargetAgent task registry getAgent =
     (let namespace = js_or (dt_namespace (rt_task task)) ''default'';
          fetch = (\<lambda>agentName. case getAgent agentName of
            Inl e \<Rightarrow> Inl e
          | Inr None \<Rightarrow> Inl (''Agent '' @ namespace @ ''/'' @ agentName @ '' returned malformed shape'')
          | Inr (Some a) \<Rightarrow> Inr a)
      in
      if js_or (rt_targetAgent task) [] \<noteq> [] then fetch (js_or (rt_targetAgent task) [])
      else if js_or (rt_targetCapability task) [] \<noteq> [] then
        (case registry (js_or (rt_targetCapability task) []) of
           Inl e \<Rightarrow> Inl e
         | Inr None \<Rightarrow>
             Inl (''no live agent satisfies capability '' @ [CHR 0x27] @ js_or (rt_targetCapability task) []
                  @ [CHR 0x27] @ '' (check NATS KV registry; agent pods write heartbeats on boot)'')
         | Inr (Some agentName) \<Rightarrow> fetch agentName)
      else Inl ''AgentTask has neither targetAgent nor targetCapability'')"

section \<open>Capability\<close>

datatype mint_outcome = MintDisabled | Minted string | MintFailed string

text \<open>
  \<open>mintAndPersistCapabilityIfEnabled\<close>: the mint is \<open>Inl (violation, message)\<close> or the token's id;
  the secret of the task keeps the token it was created with, the status gets the new id.
\<close>

definition patchCapabilityRef :: "dedupe_task \<Rightarrow> call_answer \<Rightarrow> string \<Rightarrow> cluster \<Rightarrow> cluster \<times> string option" where
  "patchCapabilityRef task ans jti cl =
     (if js_or (dt_name task) [] = [] then (cl, None)
      else if cl_server cl = None then (cl, Some (js_or (thrown ans) ''not found''))
      else ((if lands ans then cl\<lparr>cl_capabilityRef := Some jti\<rparr> else cl), thrown ans))"

definition mintAndPersistCapabilityIfEnabled ::
  "bool \<Rightarrow> bool \<Rightarrow> (bool \<times> string) + string \<Rightarrow> call_answer \<Rightarrow> call_answer \<Rightarrow> dedupe_task \<Rightarrow> cluster \<Rightarrow>
   cluster \<times> mint_outcome" where
  "mintAndPersistCapabilityIfEnabled enabled hasCore minted secretAns refAns task cl =
     (if \<not> enabled then (cl, MintDisabled)
      else if \<not> hasCore then
        (cl, MintFailed ''capability minting enabled but CoreV1Api is unavailable'')
      else
        (case minted of
           Inl (violation, message) \<Rightarrow>
             (cl, MintFailed ((if violation then ''policy_denied:capability_violation''
                               else ''capability mint failed'') @ '': '' @ message))
         | Inr jti \<Rightarrow>
             (if js_or (dt_uid task) [] = [] then
                (cl, MintFailed (''capability mint failed: AgentTask is missing metadata.uid ''
                     @ em_dash @ '' cannot derive capability Secret name''))
              else if js_or (dt_name task) [] = [] then
                (cl, MintFailed (''capability mint failed: AgentTask is missing metadata.name ''
                     @ em_dash @ '' cannot build capability Secret''))
              else
                (let cl1 = cl\<lparr>cl_secret := create_idempotent secretAns jti (cl_secret cl)\<rparr> in
                 case thrown secretAns of
                   Some e \<Rightarrow> (cl1, MintFailed (''capability mint failed: '' @ e))
                 | None \<Rightarrow>
                     (case patchCapabilityRef task refAns jti cl1 of
                        (cl2, Some e) \<Rightarrow> (cl2, MintFailed (''capability mint failed: '' @ e))
                      | (cl2, None) \<Rightarrow> (cl2, Minted jti))))))"

section \<open>Job helpers\<close>

definition isDispatchPublished :: "kjob option \<Rightarrow> bool" where
  "isDispatchPublished job = (case job of None \<Rightarrow> False | Some j \<Rightarrow> kj_published j)"

definition markJobPublished :: "call_answer \<Rightarrow> cluster \<Rightarrow> cluster" where
  "markJobPublished ans cl =
     (if lands ans then cl\<lparr>cl_job := map_option (\<lambda>j. j\<lparr>kj_published := True\<rparr>) (cl_job cl)\<rparr> else cl)"

definition unsuspendJob :: "call_answer \<Rightarrow> cluster \<Rightarrow> cluster \<times> string option" where
  "unsuspendJob ans cl =
     (if cl_job cl = None then (cl, Some (js_or (thrown ans) ''not found''))
      else ((if lands ans then cl\<lparr>cl_job := map_option (\<lambda>j. j\<lparr>kj_suspend := False\<rparr>) (cl_job cl)\<rparr> else cl),
            thrown ans))"

definition jobNameForTask :: "dedupe_task \<Rightarrow> string option" where
  "jobNameForTask task =
     (if js_or (dt_uid task) [] = [] then None else Some (''kat-'' @ take 50 (js_or (dt_uid task) [])))"

text \<open>
  The broker drops a message whose id it has seen, as long as that id is in its window
  (\<open>remembers\<close>).
\<close>

definition publish :: "bool \<Rightarrow> call_answer \<Rightarrow> bus_message \<Rightarrow> cluster \<Rightarrow> cluster" where
  "publish remembers ans m cl =
     (if lands ans \<and> \<not> (remembers \<and> bm_dedupeId m \<noteq> [] \<and> bm_dedupeId m \<in> bm_dedupeId ` set (cl_bus cl))
      then cl\<lparr>cl_bus := cl_bus cl @ [m]\<rparr> else cl)"

section \<open>The reconcile\<close>

record reconcile_config =
  rc_core :: bool
  rc_capCa :: bool
  rc_admissionControl :: bool

record reconcile_env =
  rv_now :: int
  rv_ts :: string
  rv_seed :: "nat \<Rightarrow> attempt_env"
  rv_fail :: "nat \<Rightarrow> attempt_env"
  rv_dedupe :: "nat \<Rightarrow> attempt_env"
  rv_final :: "nat \<Rightarrow> attempt_env"
  rv_registry :: "string \<Rightarrow> string + string option"
  rv_agent :: "string \<Rightarrow> string + target_agent option"
  rv_configMap :: call_answer
  rv_minted :: "(bool \<times> string) + string"
  rv_secret :: call_answer
  rv_capRef :: call_answer
  rv_buildFails :: bool
  rv_createJob :: call_answer
  rv_jobRace :: "kjob option \<Rightarrow> kjob option"
  rv_readFails :: bool
  rv_remembers :: bool
  rv_publish :: call_answer
  rv_annotate :: call_answer
  rv_unsuspend :: call_answer

datatype reconcile_action =
    RSkipped
  | RDispatched string
  | RAdmissionPending string
  | RFailed string
  | RInvalidInputs string
  | RIdempotentReplay string
  | RIdempotencyConflict string
  | RThrew

definition fail_task :: "reconcile_env \<Rightarrow> dedupe_task \<Rightarrow> string \<Rightarrow> cluster \<Rightarrow> cluster" where
  "fail_task env task reason cl =
     cl\<lparr>cl_server := markFailed (dt_name task) reason (rv_ts env) (rv_fail env) (cl_server cl)\<rparr>"

definition seed_pending :: "reconcile_env \<Rightarrow> dedupe_task \<Rightarrow> cluster \<Rightarrow> cluster" where
  "seed_pending env task cl =
     (if phase_of (dt_object task) = None
      then cl\<lparr>cl_server := fst (patchStatusWithRetry (dt_name task) (rv_seed env) pending_build 3 (cl_server cl))\<rparr>
      else cl)"

text \<open>Step 8, which lets what the retry loop throws through.\<close>

definition record_dispatch ::
  "reconcile_env \<Rightarrow> dedupe_task \<Rightarrow> string \<Rightarrow> cluster \<Rightarrow> cluster \<times> reconcile_action" where
  "record_dispatch env task jobName cl =
     (let (sv, result, seen) = patchStatusWithRetry (dt_name task) (rv_final env)
            (dispatched_build jobName (rv_ts env)) 3 (cl_server cl)
      in (cl\<lparr>cl_server := sv\<rparr>, if result = Threw then RThrew else RDispatched jobName))"

text \<open>Step 7: release the Job, unless admission control owns that.\<close>

definition release_job ::
  "reconcile_config \<Rightarrow> reconcile_env \<Rightarrow> dedupe_task \<Rightarrow> string \<Rightarrow> bool \<Rightarrow> cluster \<Rightarrow> cluster \<times> reconcile_action" where
  "release_job cfg env task jobName admitted cl =
     (if rc_admissionControl cfg then
        (if \<not> admitted then (cl, RAdmissionPending jobName) else record_dispatch env task jobName cl)
      else
        (case unsuspendJob (rv_unsuspend env) cl of
           (cl1, Some e) \<Rightarrow> (cl1, RFailed ''unsuspend failed'')
         | (cl1, None) \<Rightarrow> record_dispatch env task jobName cl1))"

text \<open>Steps 4 to 6: look at the Job that is there, publish once, leave the marker.\<close>

definition publish_job ::
  "reconcile_config \<Rightarrow> reconcile_env \<Rightarrow> dedupe_task \<Rightarrow> string \<Rightarrow> string \<Rightarrow> cluster \<Rightarrow> cluster \<times> reconcile_action" where
  "publish_job cfg env task agentName jobName cl =
     (let live = cl_job cl;
          alreadyPublished = (\<not> rv_readFails env \<and> isDispatchPublished live);
          admitted = (\<not> rv_readFails env \<and> (case live of None \<Rightarrow> False | Some j \<Rightarrow> \<not> kj_suspend j));
          uid = js_or (dt_uid task) []
      in
      if alreadyPublished then release_job cfg env task jobName admitted cl
      else
        (let cl1 = publish (rv_remembers env) (rv_publish env)
                     \<lparr>bm_taskId = uid, bm_agentId = agentName, bm_dedupeId = uid\<rparr> cl in
         case thrown (rv_publish env) of
           Some e \<Rightarrow> (let reason = ''dispatch failed: '' @ e in (fail_task env task reason cl1, RFailed reason))
         | None \<Rightarrow> release_job cfg env task jobName admitted (markJobPublished (rv_annotate env) cl1)))"

text \<open>Step 3: the suspended Job; another writer may touch it before it is read again.\<close>

definition create_and_publish ::
  "reconcile_config \<Rightarrow> reconcile_env \<Rightarrow> dedupe_task \<Rightarrow> string \<Rightarrow> cluster \<Rightarrow> cluster \<times> reconcile_action" where
  "create_and_publish cfg env task agentName cl =
     (case (jobNameForTask task, rv_buildFails env) of
        (Some jobName, False) \<Rightarrow>
          (let cl1 = cl\<lparr>cl_job := create_idempotent (rv_createJob env)
                          \<lparr>kj_suspend = True, kj_published = False\<rparr> (cl_job cl)\<rparr> in
           case thrown (rv_createJob env) of
             Some e \<Rightarrow> (let reason = ''job creation failed: '' @ e in (fail_task env task reason cl1, RFailed reason))
           | None \<Rightarrow> publish_job cfg env task agentName jobName (cl1\<lparr>cl_job := rv_jobRace env (cl_job cl1)\<rparr>))
      | _ \<Rightarrow> (cl, RThrew))"

definition mint_and_create ::
  "reconcile_config \<Rightarrow> reconcile_env \<Rightarrow> dedupe_task \<Rightarrow> string \<Rightarrow> cluster \<Rightarrow> cluster \<times> reconcile_action" where
  "mint_and_create cfg env task agentName cl =
     (case mintAndPersistCapabilityIfEnabled (rc_capCa cfg) (rc_core cfg) (rv_minted env) (rv_secret env)
             (rv_capRef env) task cl of
        (cl1, MintFailed reason) \<Rightarrow> (fail_task env task reason cl1, RFailed reason)
      | (cl1, _) \<Rightarrow> create_and_publish cfg env task agentName cl1)"

definition configure_and_create ::
  "reconcile_config \<Rightarrow> reconcile_env \<Rightarrow> dedupe_task \<Rightarrow> string \<Rightarrow> cluster \<Rightarrow> cluster \<times> reconcile_action" where
  "configure_and_create cfg env task agentName cl =
     (if \<not> rc_core cfg then mint_and_create cfg env task agentName cl
      else
        (let nameless = (js_or (dt_uid task) [] = []);
             cl1 = (if nameless then cl
                    else cl\<lparr>cl_configMap := create_idempotent (rv_configMap env) () (cl_configMap cl)\<rparr>);
             err = (if nameless then Some (''AgentTask is missing metadata.uid '' @ em_dash
                                           @ '' cannot derive ConfigMap name'')
                    else thrown (rv_configMap env))
         in
         case err of
           Some e \<Rightarrow>
             (let reason = ''config-map creation failed: '' @ e in (fail_task env task reason cl1, RFailed reason))
         | None \<Rightarrow> mint_and_create cfg env task agentName cl1))"

definition admit_and_configure ::
  "reconcile_config \<Rightarrow> reconcile_env \<Rightarrow> idempotency_cache option \<Rightarrow> reconcile_task \<Rightarrow> target_agent \<Rightarrow> cluster \<Rightarrow>
   idempotency_cache option \<times> cluster \<times> reconcile_action" where
  "admit_and_configure cfg env cache rtask ag cl =
     (let task = rt_task rtask; agentName = js_or (ta_name ag) [] in
      case validateAgentTaskInputs (ta_inputs ag) (rt_inputs rtask) of
        Some (message, _) \<Rightarrow>
          (cache, fail_task env task (''policy_denied:InvalidInputs '' @ em_dash @ '' '' @ message) cl,
           RInvalidInputs message)
      | None \<Rightarrow>
          (case cache of
             None \<Rightarrow> (None, configure_and_create cfg env task agentName cl)
           | Some c \<Rightarrow>
               (let (c1, sv, outcome) = applyIdempotencyDedupe c (rv_now env) (rv_ts env) (rv_dedupe env) task
                      agentName (cl_server cl); cl1 = cl\<lparr>cl_server := sv\<rparr> in
                case outcome of
                  Proceed \<Rightarrow> (Some c1, configure_and_create cfg env task agentName cl1)
                | IdempotentReplay orig \<Rightarrow> (Some c1, cl1, RIdempotentReplay orig)
                | IdempotencyConflict message \<Rightarrow> (Some c1, cl1, RIdempotencyConflict message))))"

definition reconcileAgentTask ::
  "reconcile_config \<Rightarrow> reconcile_env \<Rightarrow> idempotency_cache option \<Rightarrow> reconcile_task \<Rightarrow> cluster \<Rightarrow>
   idempotency_cache option \<times> cluster \<times> reconcile_action" where
  "reconcileAgentTask cfg env cache rtask cl =
     (let task = rt_task rtask; phase = phase_of (dt_object task) in
      if rt_deleting rtask then (cache, cl, RSkipped)
      else if phase = Some PhCompleted \<or> phase = Some PhFailed \<or> phase = Some PhDispatched
      then (cache, cl, RSkipped)
      else
        (let cl1 = seed_pending env task cl in
         case resolveTargetAgent rtask (rv_registry env) (rv_agent env) of
           Inl reason \<Rightarrow> (cache, fail_task env task reason cl1, RFailed reason)
         | Inr ag \<Rightarrow> admit_and_configure cfg env cache rtask ag cl1))"

end
