(* ===== verification/Dispatch.thy ===== *)
theory Dispatch
  imports Reconcile
begin

text \<open>
  What the reconcile of \<open>Reconcile\<close> guarantees over the life of a task: the suspended-publish
  ordering of \<^verbatim>\<open>packages/operator/src/reconcile.ts\<close> under any sequence of reconciles with any
  answers of the cluster, recovery from every half-finished state, and the drift of the capability
  reference. The properties are about the definitions of \<open>Reconcile\<close>; this theory adds the event
  sequences they quantify over.
\<close>

section \<open>Published before released\<close>

definition on_bus :: "string \<Rightarrow> cluster \<Rightarrow> bool" where
  "on_bus u cl \<longleftrightarrow> u \<in> bm_dedupeId ` set (cl_bus cl)"

definition released :: "cluster \<Rightarrow> bool" where
  "released cl \<longleftrightarrow> (case cl_job cl of None \<Rightarrow> False | Some j \<Rightarrow> \<not> kj_suspend j)"

definition marked :: "cluster \<Rightarrow> bool" where
  "marked cl \<longleftrightarrow> isDispatchPublished (cl_job cl)"

definition publish_inv :: "reconcile_config \<Rightarrow> string \<Rightarrow> cluster \<Rightarrow> bool" where
  "publish_inv cfg u cl \<longleftrightarrow> (marked cl \<or> released cl \<and> \<not> rc_admissionControl cfg \<longrightarrow> on_bus u cl)"

text \<open>
  What others do to the Job between its creation and the read that follows: it is left alone, deleted,
  or, with admission control on, released by the admission reconciler, which does not look at the
  marker.
\<close>

definition let_go :: "kjob option \<Rightarrow> kjob option" where
  "let_go j = map_option (\<lambda>j. j\<lparr>kj_suspend := False\<rparr>) j"

definition benign_race :: "reconcile_config \<Rightarrow> reconcile_env \<Rightarrow> bool" where
  "benign_race cfg env \<longleftrightarrow>
     (\<forall>j. rv_jobRace env j = None \<or> rv_jobRace env j = j \<or> rc_admissionControl cfg \<and> rv_jobRace env j = let_go j)"

lemma let_go_fields [simp]: "isDispatchPublished (let_go j) = isDispatchPublished j" "let_go j = None \<longleftrightarrow> j = None"
  by (cases j; simp add: let_go_def isDispatchPublished_def)+

lemma publish_inv_on_bus: "on_bus u cl \<Longrightarrow> publish_inv cfg u cl"
  by (simp add: publish_inv_def)

lemma publish_inv_cong:
  "publish_inv cfg u cl \<Longrightarrow> cl_job cl' = cl_job cl \<Longrightarrow> on_bus u cl \<longrightarrow> on_bus u cl' \<Longrightarrow> publish_inv cfg u cl'"
  by (auto simp: publish_inv_def released_def marked_def)

lemma publish_inv_server [simp]: "publish_inv cfg u (cl\<lparr>cl_server := sv\<rparr>) = publish_inv cfg u cl"
  by (simp add: publish_inv_def released_def marked_def on_bus_def)

lemma publish_inv_job:
  "publish_inv cfg u cl \<Longrightarrow>
     j = None \<or> j = cl_job cl \<or> j = Some \<lparr>kj_suspend = True, kj_published = False\<rparr> \<or>
     rc_admissionControl cfg \<and> j = let_go (cl_job cl) \<Longrightarrow>
     publish_inv cfg u (cl\<lparr>cl_job := j\<rparr>)"
  by (cases "cl_job cl") (auto simp: publish_inv_def released_def marked_def isDispatchPublished_def on_bus_def let_go_def)

lemma fail_task_inv [simp]: "publish_inv cfg u (fail_task env task reason cl) = publish_inv cfg u cl"
  by (simp add: fail_task_def)

lemma record_dispatch_bus [simp]: "cl_bus (fst (record_dispatch env task n cl)) = cl_bus cl"
  by (simp add: record_dispatch_def Let_def case_prod_unfold)

lemma release_job_bus [simp]: "cl_bus (fst (release_job cfg env task n a cl)) = cl_bus cl"
  by (auto simp: release_job_def unsuspendJob_def split: option.splits prod.splits)

lemma on_bus_publish:
  "on_bus u cl \<Longrightarrow> on_bus u (publish r ans m cl)"
  by (auto simp: publish_def on_bus_def)

lemma publish_puts:
  "lands ans \<Longrightarrow> on_bus (bm_dedupeId m) (publish r ans m cl)"
  by (auto simp: publish_def on_bus_def)

lemma publish_job_field [simp]: "cl_job (publish r ans m cl) = cl_job cl"
  by (simp add: publish_def)

lemma thrown_None_lands: "thrown ans = None \<Longrightarrow> lands ans"
  by (cases ans) simp_all

lemma markJobPublished_bus [simp]: "cl_bus (markJobPublished ans cl) = cl_bus cl"
  by (simp add: markJobPublished_def)

lemma fail_task_fields [simp]:
  "cl_job (fail_task env task reason cl) = cl_job cl" "cl_bus (fail_task env task reason cl) = cl_bus cl"
  by (simp_all add: fail_task_def)

lemma publish_job_inv:
  assumes "publish_inv cfg u cl" "dt_uid task = Some u"
  shows "publish_inv cfg u (fst (publish_job cfg env task ag n cl))"
proof -
  let ?m = "\<lparr>bm_taskId = u, bm_agentId = ag, bm_dedupeId = u\<rparr>"
  let ?cl1 = "publish (rv_remembers env) (rv_publish env) ?m cl"
  have rel: "publish_inv cfg u (fst (release_job cfg env task n a x))" if "on_bus u x" for a x
    using that by (intro publish_inv_on_bus) (simp add: on_bus_def)
  have "publish_inv cfg u ?cl1"
    using assms(1) by (rule publish_inv_cong) (simp_all add: on_bus_publish)
  moreover have "on_bus u (markJobPublished (rv_annotate env) ?cl1)" if "thrown (rv_publish env) = None"
    using publish_puts [OF thrown_None_lands [OF that], of ?m] by (simp add: on_bus_def)
  moreover have "on_bus u cl" if "isDispatchPublished (cl_job cl)"
    using assms(1) that by (simp add: publish_inv_def marked_def)
  ultimately show ?thesis
    using assms(2) rel by (auto simp: publish_job_def Let_def split: option.split)
qed

lemma create_and_publish_inv:
  assumes "publish_inv cfg u cl" "dt_uid task = Some u" "benign_race cfg env"
  shows "publish_inv cfg u (fst (create_and_publish cfg env task ag cl))"
proof -
  let ?job = "create_idempotent (rv_createJob env) \<lparr>kj_suspend = True, kj_published = False\<rparr> (cl_job cl)"
  have 1: "publish_inv cfg u (cl\<lparr>cl_job := ?job\<rparr>)"
    using assms(1) by (rule publish_inv_job) (auto simp: create_idempotent_def split: option.split)
  have 2: "publish_inv cfg u (cl\<lparr>cl_job := rv_jobRace env ?job\<rparr>)"
    using publish_inv_job [OF 1, of "rv_jobRace env ?job"] assms(3) by (auto simp: benign_race_def)
  show ?thesis
    using assms(1) 1 publish_job_inv [OF 2 assms(2)]
    by (auto simp: create_and_publish_def Let_def split: option.split bool.split)
qed

lemma mint_fields:
  "cl_job (fst (mintAndPersistCapabilityIfEnabled en hc mi sa ra task cl)) = cl_job cl \<and>
   cl_bus (fst (mintAndPersistCapabilityIfEnabled en hc mi sa ra task cl)) = cl_bus cl"
  by (auto simp: mintAndPersistCapabilityIfEnabled_def patchCapabilityRef_def Let_def
      split: sum.splits option.splits prod.splits if_splits)

lemma mint_and_create_inv:
  assumes "publish_inv cfg u cl" "dt_uid task = Some u" "benign_race cfg env"
  shows "publish_inv cfg u (fst (mint_and_create cfg env task ag cl))"
proof -
  obtain cl1 out where m: "mintAndPersistCapabilityIfEnabled (rc_capCa cfg) (rc_core cfg) (rv_minted env)
      (rv_secret env) (rv_capRef env) task cl = (cl1, out)" by fastforce
  then have "publish_inv cfg u cl1"
    using mint_fields [of "rc_capCa cfg" "rc_core cfg" "rv_minted env" "rv_secret env" "rv_capRef env" task cl]
      assms(1) by (auto simp: publish_inv_def released_def marked_def on_bus_def)
  with create_and_publish_inv [OF this assms(2,3)] show ?thesis
    by (cases out) (simp_all add: mint_and_create_def m)
qed

lemma configure_inv:
  assumes "publish_inv cfg u cl" "dt_uid task = Some u" "benign_race cfg env"
  shows "publish_inv cfg u (fst (configure_and_create cfg env task ag cl))"
proof -
  have c: "publish_inv cfg u (cl\<lparr>cl_configMap := x\<rparr>)" for x
    using assms(1) by (simp add: publish_inv_def released_def marked_def on_bus_def)
  show ?thesis
    using mint_and_create_inv [OF assms] mint_and_create_inv [OF c assms(2,3)] assms(1) c
    by (auto simp: configure_and_create_def Let_def split: option.split)
qed

lemma admit_inv:
  assumes "publish_inv cfg u cl" "dt_uid (rt_task rtask) = Some u" "benign_race cfg env"
  shows "publish_inv cfg u (fst (snd (admit_and_configure cfg env cache rtask ag cl)))"
proof -
  have sv: "publish_inv cfg u (fst (configure_and_create cfg env (rt_task rtask) nm (cl\<lparr>cl_server := x\<rparr>)))" for x nm
    using configure_inv [OF _ assms(2,3)] assms(1) by simp
  show ?thesis
    using assms(1) configure_inv [OF assms] sv
    by (auto simp: admit_and_configure_def Let_def split: option.split prod.split dedupe_outcome.split)
qed

lemma reconcile_inv:
  assumes "publish_inv cfg u cl" "dt_uid (rt_task rtask) = Some u" "benign_race cfg env"
  shows "publish_inv cfg u (fst (snd (reconcileAgentTask cfg env cache rtask cl)))"
proof -
  have seed: "publish_inv cfg u (seed_pending env t cl)" for t
    using assms(1) by (simp add: seed_pending_def)
  show ?thesis
    using assms(1) seed admit_inv [OF seed assms(2,3)]
    by (auto simp: reconcileAgentTask_def Let_def split: sum.split)
qed

section \<open>The bus\<close>

lemma publish_job_bus:
  assumes "dt_uid task = Some u"
  shows "cl_bus (fst (publish_job cfg env task ag n cl)) = cl_bus cl \<or>
    cl_bus (fst (publish_job cfg env task ag n cl)) =
      cl_bus (publish (rv_remembers env) (rv_publish env) \<lparr>bm_taskId = u, bm_agentId = ag, bm_dedupeId = u\<rparr> cl)"
  using assms by (auto simp: publish_job_def Let_def split: option.split)

lemma cl_bus_publish:
  "cl_bus (publish r ans m cl) =
     (if lands ans \<and> \<not> (r \<and> bm_dedupeId m \<noteq> [] \<and> bm_dedupeId m \<in> bm_dedupeId ` set (cl_bus cl))
      then cl_bus cl @ [m] else cl_bus cl)"
  by (simp add: publish_def)

text \<open>A reconcile leaves the bus alone or publishes the task's one message.\<close>

definition bus_step :: "reconcile_env \<Rightarrow> string \<Rightarrow> cluster \<Rightarrow> cluster \<Rightarrow> bool" where
  "bus_step env u cl cl' \<longleftrightarrow>
     cl_bus cl' = cl_bus cl \<or>
     (\<exists>ag. cl_bus cl' = cl_bus (publish (rv_remembers env) (rv_publish env)
        \<lparr>bm_taskId = u, bm_agentId = ag, bm_dedupeId = u\<rparr> cl))"

lemma bus_step_cong: "bus_step env u x cl' \<Longrightarrow> cl_bus x = cl_bus y \<Longrightarrow> bus_step env u y cl'"
  by (simp only: bus_step_def cl_bus_publish)

lemma bus_step_same [simp]: "cl_bus cl' = cl_bus cl \<Longrightarrow> bus_step env u cl cl'"
  by (simp add: bus_step_def)

lemma create_and_publish_bus:
  "dt_uid task = Some u \<Longrightarrow> bus_step env u cl (fst (create_and_publish cfg env task ag cl))"
proof -
  assume u: "dt_uid task = Some u"
  have "bus_step env u cl (fst (publish_job cfg env task ag n (cl\<lparr>cl_job := j\<rparr>)))" for n j
    using publish_job_bus [OF u, of cfg env ag n "cl\<lparr>cl_job := j\<rparr>"]
    by (rule_tac bus_step_cong [of env u "cl\<lparr>cl_job := j\<rparr>"]) (auto simp: bus_step_def)
  then show ?thesis
    by (auto simp: create_and_publish_def Let_def split: option.split bool.split)
qed

lemma mint_and_create_bus:
  "dt_uid task = Some u \<Longrightarrow> bus_step env u cl (fst (mint_and_create cfg env task ag cl))"
proof -
  assume u: "dt_uid task = Some u"
  obtain cl1 out where m: "mintAndPersistCapabilityIfEnabled (rc_capCa cfg) (rc_core cfg) (rv_minted env)
      (rv_secret env) (rv_capRef env) task cl = (cl1, out)" by fastforce
  then have b: "cl_bus cl1 = cl_bus cl"
    using mint_fields [of "rc_capCa cfg" "rc_core cfg" "rv_minted env" "rv_secret env" "rv_capRef env" task cl]
    by simp
  show ?thesis
    using bus_step_cong [OF create_and_publish_bus [OF u] b] b
    by (cases out) (simp_all add: mint_and_create_def m)
qed

lemma configure_bus:
  assumes u: "dt_uid task = Some u"
  shows "bus_step env u cl (fst (configure_and_create cfg env task ag cl))"
proof -
  have "bus_step env u cl (fst (mint_and_create cfg env task ag (cl\<lparr>cl_configMap := x\<rparr>)))" for x
    by (rule bus_step_cong [OF mint_and_create_bus [OF u]]) simp
  with mint_and_create_bus [OF u] show ?thesis
    by (auto simp: configure_and_create_def Let_def split: option.split)
qed

lemma admit_bus:
  assumes u: "dt_uid (rt_task rtask) = Some u"
  shows "bus_step env u cl (fst (snd (admit_and_configure cfg env cache rtask ag cl)))"
proof -
  have c: "bus_step env u cl (fst (configure_and_create cfg env (rt_task rtask) nm (cl\<lparr>cl_server := x\<rparr>)))" for nm x
    by (rule bus_step_cong [OF configure_bus [OF u]]) simp
  show ?thesis
    using c configure_bus [OF u]
    by (simp add: admit_and_configure_def Let_def split: option.split prod.split dedupe_outcome.split)
qed

lemma reconcile_bus:
  assumes u: "dt_uid (rt_task rtask) = Some u"
  shows "bus_step env u cl (fst (snd (reconcileAgentTask cfg env cache rtask cl)))"
proof -
  have seed: "cl_bus (seed_pending env t cl) = cl_bus cl" for t
    by (simp add: seed_pending_def)
  have "bus_step env u cl (fst (snd (admit_and_configure cfg env cache rtask ag (seed_pending env t cl))))" for ag t
    by (rule bus_step_cong [OF admit_bus [OF u] seed])
  then show ?thesis
    by (simp add: reconcileAgentTask_def Let_def seed split: sum.split)
qed

section \<open>The life of a task\<close>

text \<open>
  Reconciles in any order and with any answers the predicate admits, from whatever the informer
  shows of the task; in between the Job may be deleted, or released by the admission reconciler if
  there is one, and the status and the cache may be anything.
\<close>

inductive dispatch_reach :: "(reconcile_env \<Rightarrow> cluster \<Rightarrow> bool) \<Rightarrow> reconcile_config \<Rightarrow> string \<Rightarrow> cluster \<Rightarrow> bool"
  for admits cfg u where
  fresh: "cl_job cl = None \<Longrightarrow> cl_bus cl = [] \<Longrightarrow> dispatch_reach admits cfg u cl"
| reconciled: "dispatch_reach admits cfg u cl \<Longrightarrow> admits env cl \<Longrightarrow> benign_race cfg env \<Longrightarrow>
    dt_uid (rt_task rtask) = Some u \<Longrightarrow>
    dispatch_reach admits cfg u (fst (snd (reconcileAgentTask cfg env cache rtask cl)))"
| job_deleted: "dispatch_reach admits cfg u cl \<Longrightarrow> dispatch_reach admits cfg u (cl\<lparr>cl_job := None\<rparr>)"
| gate_released: "dispatch_reach admits cfg u cl \<Longrightarrow> rc_admissionControl cfg \<Longrightarrow>
    dispatch_reach admits cfg u (cl\<lparr>cl_job := let_go (cl_job cl)\<rparr>)"
| status_written: "dispatch_reach admits cfg u cl \<Longrightarrow> dispatch_reach admits cfg u (cl\<lparr>cl_server := sv\<rparr>)"

inductive_cases dispatch_reachE: "dispatch_reach admits cfg u cl"

lemma dispatch_reach_inv: "dispatch_reach admits cfg u cl \<Longrightarrow> publish_inv cfg u cl"
proof (induction rule: dispatch_reach.induct)
  case (fresh cl)
  then show ?case by (simp add: publish_inv_def released_def marked_def isDispatchPublished_def)
next
  case (reconciled cl env rtask cache)
  then show ?case by (intro reconcile_inv)
next
  case (job_deleted cl)
  then show ?case by (simp add: publish_inv_job)
next
  case (gate_released cl)
  then show ?case by (intro publish_inv_job) simp_all
qed simp

section \<open>What is reported as dispatched\<close>

lemma record_dispatch_fields [simp]: "on_bus u (fst (record_dispatch env task n cl)) = on_bus u cl"
  by (simp add: on_bus_def)

lemma release_on_bus [simp]: "on_bus u (fst (release_job cfg env task n a cl)) = on_bus u cl"
  by (simp add: on_bus_def)

lemma publish_job_dispatched:
  assumes "publish_inv cfg u cl" "dt_uid task = Some u" "snd (publish_job cfg env task ag n cl) = RDispatched m"
  shows "on_bus u (fst (publish_job cfg env task ag n cl))"
proof (cases "\<not> rv_readFails env \<and> isDispatchPublished (cl_job cl)")
  case True
  then have "on_bus u cl" using assms(1) by (simp add: publish_inv_def marked_def)
  with True show ?thesis by (simp add: publish_job_def Let_def)
next
  case False
  then have "thrown (rv_publish env) = None"
    using assms(3) by (auto simp: publish_job_def Let_def split: option.splits)
  moreover from publish_puts [OF thrown_None_lands [OF this], of "\<lparr>bm_taskId = u, bm_agentId = ag, bm_dedupeId = u\<rparr>"]
  have "on_bus u (markJobPublished (rv_annotate env)
      (publish (rv_remembers env) (rv_publish env) \<lparr>bm_taskId = u, bm_agentId = ag, bm_dedupeId = u\<rparr> cl))"
    by (simp add: on_bus_def)
  ultimately show ?thesis using False assms(2) by (auto simp: publish_job_def Let_def)
qed

lemma create_and_publish_dispatched:
  assumes "publish_inv cfg u cl" "dt_uid task = Some u" "benign_race cfg env"
    "snd (create_and_publish cfg env task ag cl) = RDispatched m"
  shows "on_bus u (fst (create_and_publish cfg env task ag cl))"
proof -
  let ?job = "create_idempotent (rv_createJob env) \<lparr>kj_suspend = True, kj_published = False\<rparr> (cl_job cl)"
  have 1: "publish_inv cfg u (cl\<lparr>cl_job := ?job\<rparr>)"
    using assms(1) by (rule publish_inv_job) (auto simp: create_idempotent_def split: option.split)
  have 2: "publish_inv cfg u (cl\<lparr>cl_job := rv_jobRace env ?job\<rparr>)"
    using publish_inv_job [OF 1, of "rv_jobRace env ?job"] assms(3) by (auto simp: benign_race_def)
  show ?thesis
    using assms(4) publish_job_dispatched [OF 2 assms(2)]
    by (auto simp: create_and_publish_def Let_def split: option.splits bool.splits)
qed

lemma mint_and_create_dispatched:
  assumes "publish_inv cfg u cl" "dt_uid task = Some u" "benign_race cfg env"
    "snd (mint_and_create cfg env task ag cl) = RDispatched m"
  shows "on_bus u (fst (mint_and_create cfg env task ag cl))"
proof -
  obtain cl1 out where m: "mintAndPersistCapabilityIfEnabled (rc_capCa cfg) (rc_core cfg) (rv_minted env)
      (rv_secret env) (rv_capRef env) task cl = (cl1, out)" by fastforce
  then have "publish_inv cfg u cl1"
    using mint_fields [of "rc_capCa cfg" "rc_core cfg" "rv_minted env" "rv_secret env" "rv_capRef env" task cl]
      assms(1) by (auto simp: publish_inv_def released_def marked_def on_bus_def)
  from create_and_publish_dispatched [OF this assms(2,3)] assms(4) show ?thesis
    by (cases out) (simp_all add: mint_and_create_def m)
qed

lemma configure_dispatched:
  assumes "publish_inv cfg u cl" "dt_uid task = Some u" "benign_race cfg env"
    "snd (configure_and_create cfg env task ag cl) = RDispatched m"
  shows "on_bus u (fst (configure_and_create cfg env task ag cl))"
proof -
  have c: "publish_inv cfg u (cl\<lparr>cl_configMap := x\<rparr>)" for x
    using assms(1) by (simp add: publish_inv_def released_def marked_def on_bus_def)
  show ?thesis
    using mint_and_create_dispatched [OF assms(1-3)] mint_and_create_dispatched [OF c assms(2,3)] assms(4)
    by (auto simp: configure_and_create_def Let_def split: option.splits if_splits)
qed

lemma reconcile_dispatched:
  assumes "publish_inv cfg u cl" "dt_uid (rt_task rtask) = Some u" "benign_race cfg env"
    "snd (snd (reconcileAgentTask cfg env cache rtask cl)) = RDispatched m"
  shows "on_bus u (fst (snd (reconcileAgentTask cfg env cache rtask cl)))"
proof -
  have seed: "publish_inv cfg u (seed_pending env t cl)" for t
    using assms(1) by (simp add: seed_pending_def)
  have server: "publish_inv cfg u (x\<lparr>cl_server := sv\<rparr>)" if "publish_inv cfg u x" for x sv
    using that by simp
  have admit: "on_bus u (fst (snd (admit_and_configure cfg env cache rtask ag x)))"
    if "publish_inv cfg u x" "snd (snd (admit_and_configure cfg env cache rtask ag x)) = RDispatched m" for ag x
    using that(2) configure_dispatched [OF that(1) assms(2,3)] configure_dispatched [OF server [OF that(1)] assms(2,3)]
    by (auto simp: admit_and_configure_def Let_def split: option.splits prod.splits dedupe_outcome.splits)
  show ?thesis
    using assms(4) admit [OF seed]
    by (auto simp: reconcileAgentTask_def Let_def split: sum.splits if_splits)
qed

text \<open>
  C7. Announced before it runs. Under any sequence of reconciles, whatever calls fail, are lost or
  conflict, and however stale the informer's view is, a Job that carries the published marker has its
  message on the bus; without admission control so has every Job that is released, and with or
  without it every task that a reconcile reports as dispatched. With admission control on, the
  release itself is not covered: the admission reconciler, whose releases happen at any time here,
  does not look at the marker.
\<close>

theorem published_before_released:
  assumes "dispatch_reach (\<lambda>env cl. True) cfg u cl"
  shows "(marked cl \<longrightarrow> on_bus u cl) \<and> (released cl \<and> \<not> rc_admissionControl cfg \<longrightarrow> on_bus u cl) \<and>
    (benign_race cfg env \<and> dt_uid (rt_task rtask) = Some u \<and>
       snd (snd (reconcileAgentTask cfg env cache rtask cl)) = RDispatched n \<longrightarrow>
     on_bus u (fst (snd (reconcileAgentTask cfg env cache rtask cl))))"
  using dispatch_reach_inv [OF assms] reconcile_dispatched [OF dispatch_reach_inv [OF assms]]
  by (auto simp: publish_inv_def)

definition ok_env :: "string \<Rightarrow> target_agent \<Rightarrow> reconcile_env" where
  "ok_env jti ag =
     \<lparr>rv_now = 0, rv_ts = ''now'', rv_seed = (\<lambda>i. calm), rv_fail = (\<lambda>i. calm), rv_dedupe = (\<lambda>i. calm),
      rv_final = (\<lambda>i. calm), rv_registry = (\<lambda>c. Inr None), rv_agent = (\<lambda>n. Inr (Some ag)),
      rv_configMap = CallOk, rv_minted = Inr jti, rv_secret = CallOk, rv_capRef = CallOk, rv_buildFails = False,
      rv_createJob = CallOk, rv_jobRace = (\<lambda>j. j), rv_readFails = False, rv_remembers = True,
      rv_publish = CallOk, rv_annotate = CallOk, rv_unsuspend = CallOk\<rparr>"

definition plain_agent :: target_agent where
  "plain_agent = \<lparr>ta_name = Some ''a'', ta_inputs = []\<rparr>"

definition plain_config :: "bool \<Rightarrow> reconcile_config" where
  "plain_config gate = \<lparr>rc_core = True, rc_capCa = True, rc_admissionControl = gate\<rparr>"

definition plain_task :: "phase option \<Rightarrow> reconcile_task" where
  "plain_task ph = \<lparr>rt_deleting = False, rt_targetAgent = Some ''a'', rt_targetCapability = None, rt_inputs = [],
     rt_task = (sample_retry ph)\<lparr>dt_idempotencyKey := None\<rparr>\<rparr>"

definition plain_cluster :: "phase option \<Rightarrow> cluster" where
  "plain_cluster ph = \<lparr>cl_server = Some (sample_object ph), cl_configMap = None, cl_secret = None,
     cl_capabilityRef = None, cl_job = None, cl_bus = []\<rparr>"

lemma plain_uid: "dt_uid (rt_task (plain_task ph)) = Some ''u2''"
  by (simp add: plain_task_def sample_retry_def)

lemma ok_env_benign: "benign_race cfg (ok_env jti ag)" "benign_race cfg ((ok_env jti ag)\<lparr>rv_unsuspend := a\<rparr>)"
  by (simp_all add: benign_race_def ok_env_def)

text \<open>A reconcile whose unsuspend fails, then one that succeeds.\<close>

definition two_reconciles :: cluster where
  "two_reconciles =
     fst (snd (reconcileAgentTask (plain_config False) (ok_env ''j2'' plain_agent) None (plain_task (Some PhPending))
       (fst (snd (reconcileAgentTask (plain_config False) ((ok_env ''j1'' plain_agent)\<lparr>rv_unsuspend := CallFails ''x''\<rparr>)
          None (plain_task None) (plain_cluster None))))))"

lemma two_reconciles_reach:
  assumes "\<And>cl. admits (ok_env ''j2'' plain_agent) cl"
    "\<And>cl. admits ((ok_env ''j1'' plain_agent)\<lparr>rv_unsuspend := CallFails ''x''\<rparr>) cl"
  shows "dispatch_reach admits (plain_config False) ''u2'' two_reconciles"
  unfolding two_reconciles_def
  using assms
  by (intro dispatch_reach.reconciled dispatch_reach.fresh) (simp_all add: plain_uid ok_env_benign plain_cluster_def)

theorem published_before_released_witness: "released two_reconciles \<and> on_bus ''u2'' two_reconciles"
proof -
  have "released two_reconciles" by code_simp
  with published_before_released [OF two_reconciles_reach] show ?thesis by (simp add: plain_config_def)
qed

text \<open>
  What protects a publication from being repeated: the broker still has the id in its window, or the
  Job carries the marker and the reconcile reads it.
\<close>

definition protected :: "reconcile_env \<Rightarrow> cluster \<Rightarrow> bool" where
  "protected env cl \<longleftrightarrow> cl_bus cl = [] \<or> rv_remembers env \<or>
     marked cl \<and> \<not> rv_readFails env \<and> isDispatchPublished (rv_jobRace env (cl_job cl))"

definition seen_marked :: "reconcile_env \<Rightarrow> kjob option \<Rightarrow> bool" where
  "seen_marked env j \<longleftrightarrow> isDispatchPublished j \<and> \<not> rv_readFails env \<and> isDispatchPublished (rv_jobRace env j)"

lemma marker_publish: "seen_marked env (cl_job cl) \<Longrightarrow> cl_bus (fst (create_and_publish cfg env task ag cl)) = cl_bus cl"
  by (auto simp: create_and_publish_def publish_job_def seen_marked_def Let_def create_idempotent_def
      isDispatchPublished_def split: option.splits bool.splits)

lemma marker_mint:
  assumes "seen_marked env (cl_job cl)"
  shows "cl_bus (fst (mint_and_create cfg env task ag cl)) = cl_bus cl"
proof -
  obtain cl1 out where m: "mintAndPersistCapabilityIfEnabled (rc_capCa cfg) (rc_core cfg) (rv_minted env)
      (rv_secret env) (rv_capRef env) task cl = (cl1, out)" by fastforce
  then have "cl_job cl1 = cl_job cl" "cl_bus cl1 = cl_bus cl"
    using mint_fields [of "rc_capCa cfg" "rc_core cfg" "rv_minted env" "rv_secret env" "rv_capRef env" task cl]
    by simp_all
  with marker_publish [of env cl1] assms show ?thesis
    by (cases out) (simp_all add: mint_and_create_def m)
qed

lemma marker_configure:
  "seen_marked env (cl_job cl) \<Longrightarrow> cl_bus (fst (configure_and_create cfg env task ag cl)) = cl_bus cl"
  by (auto simp: configure_and_create_def Let_def marker_mint split: option.split)

lemma marker_reconcile:
  assumes "seen_marked env (cl_job cl)"
  shows "cl_bus (fst (snd (reconcileAgentTask cfg env cache rtask cl))) = cl_bus cl"
proof -
  have seed: "cl_job (seed_pending env t cl) = cl_job cl" "cl_bus (seed_pending env t cl) = cl_bus cl" for t
    by (simp_all add: seed_pending_def)
  have "cl_bus (fst (snd (admit_and_configure cfg env cache rtask ag (seed_pending env t cl)))) = cl_bus cl" for ag t
    using assms marker_configure [of env "seed_pending env t cl"]
      marker_configure [of env "(seed_pending env t cl)\<lparr>cl_server := _\<rparr>"]
    by (auto simp: admit_and_configure_def Let_def seed split: option.split prod.split dedupe_outcome.split)
  then show ?thesis by (auto simp: reconcileAgentTask_def Let_def seed split: sum.split)
qed

text \<open>
  C6. Dispatched once: no sequence of reconciles, with failures and lost answers anywhere, puts a second
  message for the task on the bus, unless a reconcile runs that neither the window of the broker nor the
  marker of the Job protects.
\<close>

theorem dispatched_at_most_once:
  assumes "dispatch_reach protected cfg u cl" "u \<noteq> []"
  shows "length (cl_bus cl) \<le> 1 \<and> (\<forall>m\<in>set (cl_bus cl). bm_taskId m = u \<and> bm_dedupeId m = u)"
  using assms(1)
proof (induction rule: dispatch_reach.induct)
  case (reconciled cl env rtask cache)
  show ?case
  proof (cases "cl_bus cl = [] \<or> rv_remembers env")
    case True
    have "u \<in> bm_dedupeId ` set (cl_bus cl)" if "cl_bus cl \<noteq> []"
      using that reconciled.IH by (cases "cl_bus cl") (auto intro: rev_image_eqI)
    with True assms(2) have "cl_bus (publish (rv_remembers env) a \<lparr>bm_taskId = u, bm_agentId = ag, bm_dedupeId = u\<rparr> cl) \<in>
        {cl_bus cl, [\<lparr>bm_taskId = u, bm_agentId = ag, bm_dedupeId = u\<rparr>]}" for a ag
      by (cases "cl_bus cl = []") (simp_all add: cl_bus_publish)
    then have "cl_bus (fst (snd (reconcileAgentTask cfg env cache rtask cl))) = cl_bus cl \<or>
        (\<exists>ag. cl_bus (fst (snd (reconcileAgentTask cfg env cache rtask cl))) =
           [\<lparr>bm_taskId = u, bm_agentId = ag, bm_dedupeId = u\<rparr>])"
      using reconcile_bus [OF reconciled.hyps(4), of env cl cfg cache] unfolding bus_step_def by (metis insertE singletonD)
    then show ?thesis using reconciled.IH by (elim disjE exE) simp_all
  next
    case False
    then have "seen_marked env (cl_job cl)"
      using reconciled.hyps(2) by (auto simp: protected_def seen_marked_def marked_def)
    from marker_reconcile [OF this] reconciled.IH show ?thesis by simp
  qed
qed simp_all

theorem dispatched_at_most_once_witness: "length (cl_bus two_reconciles) = 1"
proof -
  have "cl_bus two_reconciles \<noteq> []" by code_simp
  moreover have "length (cl_bus two_reconciles) \<le> 1"
    using dispatched_at_most_once [OF two_reconciles_reach [of protected]]
    by (simp add: ok_env_def protected_def)
  ultimately show ?thesis by (cases "cl_bus two_reconciles") auto
qed

text \<open>Without that protection there is a second message: the marker was lost and the window is over.\<close>

lemma unprotected_dispatched_twice:
  "length (cl_bus (fst (snd (reconcileAgentTask (plain_config False) ((ok_env ''j2'' plain_agent)\<lparr>rv_remembers := False\<rparr>) None
     (plain_task (Some PhPending))
     (fst (snd (reconcileAgentTask (plain_config False)
        ((ok_env ''j1'' plain_agent)\<lparr>rv_annotate := CallFails ''x'', rv_unsuspend := CallFails ''x''\<rparr>)
        None (plain_task None) (plain_cluster None)))))))) = 2"
  by code_simp

section \<open>Recovery\<close>

definition answers_ok :: "reconcile_env \<Rightarrow> bool" where
  "answers_ok env \<longleftrightarrow>
     rv_configMap env = CallOk \<and> rv_secret env = CallOk \<and> rv_capRef env = CallOk \<and> rv_createJob env = CallOk \<and>
     rv_publish env = CallOk \<and> rv_annotate env = CallOk \<and> rv_unsuspend env = CallOk \<and>
     \<not> rv_buildFails env \<and> \<not> rv_readFails env \<and> rv_jobRace env = (\<lambda>j. j) \<and>
     rv_seed env = (\<lambda>i. calm) \<and> rv_final env = (\<lambda>i. calm)"

definition open_phase :: "phase option \<Rightarrow> bool" where
  "open_phase ph \<longleftrightarrow> ph = None \<or> ph = Some PhPending \<or> ph = Some PhDispatched"

text \<open>The task can be dispatched: it has its ids, is seen unfinished and asks for no dedupe.\<close>

definition runnable :: "reconcile_task \<Rightarrow> string \<Rightarrow> bool" where
  "runnable rtask u \<longleftrightarrow>
     \<not> rt_deleting rtask \<and> dt_uid (rt_task rtask) = Some u \<and> u \<noteq> [] \<and> js_or (dt_name (rt_task rtask)) [] \<noteq> [] \<and>
     (phase_of (dt_object (rt_task rtask)) = None \<or> phase_of (dt_object (rt_task rtask)) = Some PhPending) \<and>
     dt_idempotencyKey (rt_task rtask) = None"

text \<open>
  What a reconcile that succeeds leaves behind: the message on the bus and the Job marked; the Job
  released and the status naming it, or, with admission control on and the Job not yet let go by it,
  the Job waiting for that.
\<close>

definition dispatched_state :: "reconcile_config \<Rightarrow> string \<Rightarrow> cluster \<times> reconcile_action \<Rightarrow> bool" where
  "dispatched_state cfg u r \<longleftrightarrow>
     marked (fst r) \<and> on_bus u (fst r) \<and>
     (rc_admissionControl cfg \<and> \<not> released (fst r) \<and> snd r = RAdmissionPending (''kat-'' @ take 50 u) \<or>
      released (fst r) \<and> snd r = RDispatched (''kat-'' @ take 50 u) \<and>
      (\<exists>obj. cl_server (fst r) = Some obj \<and> phase_of obj = Some PhDispatched \<and>
         st_podName (to_status obj) = Some (''kat-'' @ take 50 u)))"

lemma record_dispatch_ok:
  assumes "answers_ok env" "js_or (dt_name task) [] \<noteq> []" "cl_server cl = Some obj" "open_phase (phase_of obj)"
  shows "\<exists>obj'. record_dispatch env task n cl = (cl\<lparr>cl_server := Some obj'\<rparr>, RDispatched n) \<and>
    phase_of obj' = Some PhDispatched \<and> st_podName (to_status obj') = Some n"
proof -
  have "nextPhase (phase_of obj) PhDispatched = Some PhDispatched"
    using assms(4) by (auto simp: open_phase_def nextPhase_def)
  then obtain p where "dispatched_build n (rv_ts env) obj = Some p" "st_phase p = Some PhDispatched" "st_podName p = Some n"
    by (simp add: dispatched_build_def with_condition_def)
  with assms(1-3) show ?thesis
    by (intro exI [of _ "merge_patch p obj"])
      (simp add: record_dispatch_def answers_ok_def calm_retry phase_of_merge merge_patch_podName)
qed

lemma release_ok:
  assumes "answers_ok env" "js_or (dt_name task) [] \<noteq> []" "cl_server cl = Some obj" "open_phase (phase_of obj)"
    "cl_job cl = Some j" "kj_published j" "on_bus u cl" "n = ''kat-'' @ take 50 u" "a = (\<not> kj_suspend j)"
  shows "dispatched_state cfg u (release_job cfg env task n a cl) \<and>
    cl_secret (fst (release_job cfg env task n a cl)) = cl_secret cl \<and>
    cl_capabilityRef (fst (release_job cfg env task n a cl)) = cl_capabilityRef cl"
proof (cases "rc_admissionControl cfg")
  case True
  show ?thesis
  proof (cases a)
    case ad: True
    obtain obj' where "record_dispatch env task n cl = (cl\<lparr>cl_server := Some obj'\<rparr>, RDispatched n)"
      "phase_of obj' = Some PhDispatched" "st_podName (to_status obj') = Some n"
      using record_dispatch_ok [OF assms(1-4)] by blast
    with True ad assms(5-9) show ?thesis
      by (simp add: release_job_def dispatched_state_def marked_def isDispatchPublished_def released_def on_bus_def)
  next
    case False
    with True assms(5-9) show ?thesis
      by (simp add: release_job_def dispatched_state_def marked_def isDispatchPublished_def released_def)
  qed
next
  case False
  let ?cl1 = "cl\<lparr>cl_job := Some (j\<lparr>kj_suspend := False\<rparr>)\<rparr>"
  have "unsuspendJob (rv_unsuspend env) cl = (?cl1, None)"
    using assms(1,5) by (simp add: unsuspendJob_def answers_ok_def)
  moreover obtain obj' where "record_dispatch env task n ?cl1 = (?cl1\<lparr>cl_server := Some obj'\<rparr>, RDispatched n)"
    "phase_of obj' = Some PhDispatched" "st_podName (to_status obj') = Some n"
    using record_dispatch_ok [of env task ?cl1 obj n] assms(1-4) by auto
  ultimately show ?thesis
    using False assms(5-8)
    by (simp add: release_job_def dispatched_state_def marked_def isDispatchPublished_def released_def on_bus_def)
qed

lemma publish_ok:
  assumes "answers_ok env" "js_or (dt_name task) [] \<noteq> []" "cl_server cl = Some obj" "open_phase (phase_of obj)"
    "cl_job cl = Some j" "publish_inv cfg u cl" "dt_uid task = Some u" "n = ''kat-'' @ take 50 u"
  shows "dispatched_state cfg u (publish_job cfg env task ag n cl) \<and>
    cl_secret (fst (publish_job cfg env task ag n cl)) = cl_secret cl \<and>
    cl_capabilityRef (fst (publish_job cfg env task ag n cl)) = cl_capabilityRef cl"
proof (cases "kj_published j")
  case True
  then have "on_bus u cl" using assms(5,6) by (simp add: publish_inv_def marked_def isDispatchPublished_def)
  from release_ok [OF assms(1-5) True this assms(8) refl] True assms(1,5) show ?thesis
    by (simp add: publish_job_def Let_def isDispatchPublished_def answers_ok_def)
next
  case False
  let ?m = "\<lparr>bm_taskId = u, bm_agentId = ag, bm_dedupeId = u\<rparr>"
  let ?cl1 = "markJobPublished (rv_annotate env) (publish (rv_remembers env) (rv_publish env) ?m cl)"
  have f: "cl_server ?cl1 = Some obj" "cl_job ?cl1 = Some (j\<lparr>kj_published := True\<rparr>)"
    "cl_secret ?cl1 = cl_secret cl" "cl_capabilityRef ?cl1 = cl_capabilityRef cl"
    using assms(1,3,5) by (simp_all add: markJobPublished_def answers_ok_def) (simp_all add: publish_def)
  have "on_bus u ?cl1"
    using publish_puts [of "rv_publish env" ?m "rv_remembers env" cl] assms(1) by (simp add: on_bus_def answers_ok_def)
  from release_ok [OF assms(1,2) f(1) assms(4) f(2) _ this assms(8), of "\<not> kj_suspend j"] f assms(1,5,7) False
  show ?thesis
    by (simp add: publish_job_def Let_def isDispatchPublished_def answers_ok_def)
qed

lemma create_ok:
  assumes "answers_ok env" "js_or (dt_name task) [] \<noteq> []" "cl_server cl = Some obj" "open_phase (phase_of obj)"
    "publish_inv cfg u cl" "dt_uid task = Some u" "u \<noteq> []"
  shows "dispatched_state cfg u (create_and_publish cfg env task ag cl) \<and>
    cl_secret (fst (create_and_publish cfg env task ag cl)) = cl_secret cl \<and>
    cl_capabilityRef (fst (create_and_publish cfg env task ag cl)) = cl_capabilityRef cl"
proof -
  define cl1 where "cl1 = cl\<lparr>cl_job := create_idempotent CallOk \<lparr>kj_suspend = True, kj_published = False\<rparr> (cl_job cl)\<rparr>"
  obtain j where j: "cl_job cl1 = Some j"
    unfolding cl1_def by (cases "cl_job cl") (simp_all add: create_idempotent_def)
  have "publish_inv cfg u cl1"
    unfolding cl1_def using assms(5) by (rule publish_inv_job) (auto simp: create_idempotent_def split: option.split)
  from publish_ok [OF assms(1,2) _ assms(4) j this assms(6) refl, of ag] assms(3)
  show ?thesis
    using assms(1,6,7) by (simp add: create_and_publish_def jobNameForTask_def answers_ok_def cl1_def Let_def)
qed

text \<open>Where capabilities are on, a token is minted and the core API is there.\<close>

definition mint_ready :: "reconcile_config \<Rightarrow> reconcile_env \<Rightarrow> string \<Rightarrow> bool" where
  "mint_ready cfg env jti \<longleftrightarrow> (rc_capCa cfg \<longrightarrow> rc_core cfg \<and> rv_minted env = Inr jti)"

lemma mint_ok:
  assumes "answers_ok env" "js_or (dt_name task) [] \<noteq> []" "cl_server cl \<noteq> None" "dt_uid task = Some u" "u \<noteq> []"
    "mint_ready cfg env jti"
  shows "mintAndPersistCapabilityIfEnabled (rc_capCa cfg) (rc_core cfg) (rv_minted env) (rv_secret env) (rv_capRef env) task cl =
    (if rc_capCa cfg then (cl\<lparr>cl_secret := Some (js_or (cl_secret cl) jti), cl_capabilityRef := Some jti\<rparr>, Minted jti)
     else (cl, MintDisabled))"
  using assms
  by (auto simp: mintAndPersistCapabilityIfEnabled_def patchCapabilityRef_def Let_def answers_ok_def create_idempotent_def
      mint_ready_def split: option.split)

lemma mint_and_create_ok:
  assumes "answers_ok env" "js_or (dt_name task) [] \<noteq> []" "cl_server cl = Some obj" "open_phase (phase_of obj)"
    "publish_inv cfg u cl" "dt_uid task = Some u" "u \<noteq> []" "mint_ready cfg env jti"
  shows "dispatched_state cfg u (mint_and_create cfg env task ag cl) \<and>
    (rc_capCa cfg \<longrightarrow> cl_secret (fst (mint_and_create cfg env task ag cl)) = Some (js_or (cl_secret cl) jti) \<and>
       cl_capabilityRef (fst (mint_and_create cfg env task ag cl)) = Some jti)"
proof (cases "rc_capCa cfg")
  case True
  let ?cl2 = "cl\<lparr>cl_secret := Some (js_or (cl_secret cl) jti), cl_capabilityRef := Some jti\<rparr>"
  have inv: "publish_inv cfg u ?cl2"
    using assms(5) by (simp add: publish_inv_def released_def marked_def on_bus_def)
  from create_ok [OF assms(1,2) _ assms(4) inv assms(6,7), of ag] assms(3) mint_ok [OF assms(1,2) _ assms(6-8), of cl] True
  show ?thesis by (simp add: mint_and_create_def)
next
  case False
  with create_ok [OF assms(1-7), of ag] mint_ok [OF assms(1,2) _ assms(6-8), of cl] assms(3) show ?thesis
    by (simp add: mint_and_create_def)
qed

lemma configure_ok:
  assumes "answers_ok env" "js_or (dt_name task) [] \<noteq> []" "cl_server cl = Some obj" "open_phase (phase_of obj)"
    "publish_inv cfg u cl" "dt_uid task = Some u" "u \<noteq> []" "mint_ready cfg env jti"
  shows "dispatched_state cfg u (configure_and_create cfg env task ag cl) \<and>
    (rc_capCa cfg \<longrightarrow> cl_secret (fst (configure_and_create cfg env task ag cl)) = Some (js_or (cl_secret cl) jti) \<and>
       cl_capabilityRef (fst (configure_and_create cfg env task ag cl)) = Some jti)"
proof (cases "rc_core cfg")
  case True
  let ?cl1 = "cl\<lparr>cl_configMap := create_idempotent CallOk () (cl_configMap cl)\<rparr>"
  have inv: "publish_inv cfg u ?cl1"
    using assms(5) by (simp add: publish_inv_def released_def marked_def on_bus_def)
  from mint_and_create_ok [OF assms(1,2) _ assms(4) inv assms(6-8), of ag] assms(1,3,6,7) True
  show ?thesis by (simp add: configure_and_create_def Let_def answers_ok_def)
next
  case False
  with mint_and_create_ok [OF assms, of ag] show ?thesis by (simp add: configure_and_create_def)
qed

lemma seed_pending_ok:
  assumes "answers_ok env" "js_or (dt_name task) [] \<noteq> []" "cl_server cl = Some obj" "open_phase (phase_of obj)"
  shows "\<exists>obj'. seed_pending env task cl = cl\<lparr>cl_server := Some obj'\<rparr> \<and> open_phase (phase_of obj')"
proof (cases "phase_of (dt_object task) = None")
  case True
  have "case pending_build obj of None \<Rightarrow> True | Some p \<Rightarrow> open_phase (phase_of (merge_patch p obj))"
    by (auto simp: phase_of_merge open_phase_def dest: pending_build_phase split: option.split)
  then show ?thesis
    using True assms by (cases "pending_build obj") (auto simp: seed_pending_def answers_ok_def calm_retry)
next
  case False
  moreover have "cl = cl\<lparr>cl_server := Some obj\<rparr>" using assms(3) by (cases cl) simp
  ultimately show ?thesis using assms(4) unfolding seed_pending_def by auto
qed

lemma reconcile_completes:
  assumes "publish_inv cfg u cl" "cl_server cl = Some obj" "open_phase (phase_of obj)"
    and "answers_ok env" "mint_ready cfg env jti" "runnable rtask u"
    and "resolveTargetAgent rtask (rv_registry env) (rv_agent env) = Inr ag"
    and "validateAgentTaskInputs (ta_inputs ag) (rt_inputs rtask) = None"
  shows "dispatched_state cfg u (snd (reconcileAgentTask cfg env cache rtask cl)) \<and>
    (rc_capCa cfg \<longrightarrow>
       cl_secret (fst (snd (reconcileAgentTask cfg env cache rtask cl))) = Some (js_or (cl_secret cl) jti) \<and>
       cl_capabilityRef (fst (snd (reconcileAgentTask cfg env cache rtask cl))) = Some jti)"
proof -
  let ?task = "rt_task rtask"
  have t: "js_or (dt_name ?task) [] \<noteq> []" "dt_uid ?task = Some u" "u \<noteq> []"
    "deriveIdempotencyKey ?task nm = None" for nm
    using assms(6) by (simp_all add: runnable_def deriveIdempotencyKey_def)
  obtain obj' where s: "seed_pending env ?task cl = cl\<lparr>cl_server := Some obj'\<rparr>" "open_phase (phase_of obj')"
    using seed_pending_ok [OF assms(4) t(1) assms(2,3)] by blast
  let ?cl1 = "cl\<lparr>cl_server := Some obj'\<rparr>"
  have inv: "publish_inv cfg u ?cl1" using assms(1) by simp
  have "snd (admit_and_configure cfg env cache rtask ag ?cl1) = configure_and_create cfg env ?task (js_or (ta_name ag) []) ?cl1"
    using assms(8) t(4)
    by (cases cache) (simp_all add: admit_and_configure_def applyIdempotencyDedupe_def Let_def)
  moreover have "reconcileAgentTask cfg env cache rtask cl = admit_and_configure cfg env cache rtask ag ?cl1"
    using assms(6,7) s(1) by (auto simp: reconcileAgentTask_def Let_def runnable_def)
  ultimately show ?thesis
    using configure_ok [OF assms(4) t(1) _ s(2) inv t(2,3) assms(5), of "js_or (ta_name ag) []"] by simp
qed

text \<open>
  C28. One good reconcile completes a half-finished dispatch: from any state of Job, secret, config map
  and bus in which what is marked, or released without admission control, is on the bus, with an
  unfinished task without idempotency key on the server and its agent and inputs valid, a reconcile
  whose calls succeed leaves the Job marked and the message on the bus. Without admission control the
  Job then is released and the status names it; with it, either this has already happened to the Job or
  it waits for the admission reconciler, and the action says which. Where capabilities are on, the mint
  has to succeed.
\<close>

theorem reconcile_recovers:
  assumes "publish_inv cfg u cl" "cl_server cl = Some obj" "open_phase (phase_of obj)"
    and "answers_ok env" "mint_ready cfg env jti" "runnable rtask u"
    and "resolveTargetAgent rtask (rv_registry env) (rv_agent env) = Inr ag"
    and "validateAgentTaskInputs (ta_inputs ag) (rt_inputs rtask) = None"
  shows "dispatched_state cfg u (snd (reconcileAgentTask cfg env cache rtask cl))"
  using reconcile_completes [OF assms] by blast

lemma half_dispatched:
  fixes cl
  defines "cl \<equiv> (plain_cluster (Some PhPending))\<lparr>cl_secret := Some ''j1'', cl_job := Some \<lparr>kj_suspend = True, kj_published = False\<rparr>\<rparr>"
  shows "publish_inv (plain_config False) ''u2'' cl" "cl_server cl = Some (sample_object (Some PhPending))"
    "open_phase (phase_of (sample_object (Some PhPending)))" "answers_ok (ok_env ''j2'' plain_agent)"
    "mint_ready (plain_config False) (ok_env ''j2'' plain_agent) ''j2''" "runnable (plain_task (Some PhPending)) ''u2''"
    "resolveTargetAgent (plain_task (Some PhPending)) (rv_registry (ok_env ''j2'' plain_agent))
       (rv_agent (ok_env ''j2'' plain_agent)) = Inr plain_agent"
    "validateAgentTaskInputs (ta_inputs plain_agent) (rt_inputs (plain_task (Some PhPending))) = None"
proof -
  show "publish_inv (plain_config False) ''u2'' cl" unfolding cl_def by code_simp
  show "cl_server cl = Some (sample_object (Some PhPending))" by (simp add: cl_def plain_cluster_def)
  show "open_phase (phase_of (sample_object (Some PhPending)))" by code_simp
  show "answers_ok (ok_env ''j2'' plain_agent)" by (simp add: answers_ok_def ok_env_def)
  show "mint_ready (plain_config False) (ok_env ''j2'' plain_agent) ''j2''"
    by (simp add: mint_ready_def ok_env_def plain_config_def)
  show "runnable (plain_task (Some PhPending)) ''u2''" by code_simp
  show "resolveTargetAgent (plain_task (Some PhPending)) (rv_registry (ok_env ''j2'' plain_agent))
      (rv_agent (ok_env ''j2'' plain_agent)) = Inr plain_agent"
    by (simp add: resolveTargetAgent_def plain_task_def ok_env_def Let_def)
  show "validateAgentTaskInputs (ta_inputs plain_agent) (rt_inputs (plain_task (Some PhPending))) = None" by code_simp
qed

theorem reconcile_recovers_witness:
  "dispatched_state (plain_config False) ''u2''
     (snd (reconcileAgentTask (plain_config False) (ok_env ''j2'' plain_agent) None (plain_task (Some PhPending))
        ((plain_cluster (Some PhPending))\<lparr>cl_secret := Some ''j1'', cl_job := Some \<lparr>kj_suspend = True, kj_published = False\<rparr>\<rparr>)))"
  by (rule reconcile_recovers [OF half_dispatched])

text \<open>
  The retried dispatch mints again: the secret keeps the token of the first mint, the capability
  reference of the status names the second.
\<close>

lemma retried_mint_drifts:
  "let cl' = fst (snd (reconcileAgentTask (plain_config False) (ok_env ''j2'' plain_agent) None (plain_task (Some PhPending))
        ((plain_cluster (Some PhPending))\<lparr>cl_secret := Some ''j1'', cl_job := Some \<lparr>kj_suspend = True, kj_published = False\<rparr>\<rparr>)))
   in cl_secret cl' = Some ''j1'' \<and> cl_capabilityRef cl' = Some ''j2''"
  using reconcile_completes [OF half_dispatched, of None] unfolding Let_def by (simp add: plain_config_def)

end
