(* ===== verification/JsNumber.thy ===== *)
theory JsNumber
  imports Prelude
begin

text \<open>
  \<open>Number(s)\<close> of a string, as the durations, depths and limits read from text use it, and its value
  on printed natural numbers.
\<close>

section \<open>Number of a string\<close>

text \<open>
  \<open>Number(s)\<close>: white space around it is ignored, the empty string is zero, then a radix literal or
  a signed decimal literal; anything else is not a number, and what rounds to an infinity is not
  finite either. A finite value is exact: the rounding to 53 bits is left out.
\<close>

definition digit_of :: "char \<Rightarrow> nat option" where
  "digit_of c =
     (let n = of_char c :: nat in
      if 48 \<le> n \<and> n \<le> 57 then Some (n - 48)
      else if 97 \<le> n \<and> n \<le> 102 then Some (n - 87)
      else if 65 \<le> n \<and> n \<le> 70 then Some (n - 55)
      else None)"

fun radix_value :: "nat \<Rightarrow> nat \<Rightarrow> string \<Rightarrow> nat option" where
  "radix_value r acc [] = Some acc"
| "radix_value r acc (c # cs) =
     (case digit_of c of
        None \<Rightarrow> None
      | Some d \<Rightarrow> (if d < r then radix_value r (acc * r + d) cs else None))"

definition digits_nat :: "nat \<Rightarrow> string \<Rightarrow> nat option" where
  "digits_nat r s = (if s = [] then None else radix_value r 0 s)"

definition exponent_value :: "string \<Rightarrow> int option" where
  "exponent_value s =
     (case s of
        [] \<Rightarrow> None
      | c # cs \<Rightarrow>
          (if c = CHR ''-'' then map_option (\<lambda>n. - int n) (digits_nat 10 cs)
           else if c = CHR ''+'' then map_option int (digits_nat 10 cs)
           else map_option int (digits_nat 10 s)))"

definition scale10 :: "rat \<Rightarrow> int \<Rightarrow> rat" where
  "scale10 q e = (if 0 \<le> e then q * 10 ^ nat e else q / 10 ^ nat (- e))"

definition unsigned_decimal :: "string \<Rightarrow> rat option" where
  "unsigned_decimal s =
     (let is_e = (\<lambda>c. c = CHR ''e'' \<or> c = CHR ''E'');
          m = takeWhile (\<lambda>c. \<not> is_e c) s;
          ex = dropWhile (\<lambda>c. \<not> is_e c) s;
          whole = takeWhile (\<lambda>c. c \<noteq> CHR ''.'') m;
          frac = drop 1 (dropWhile (\<lambda>c. c \<noteq> CHR ''.'') m)
      in case (digits_nat 10 (whole @ frac), if ex = [] then Some 0 else exponent_value (drop 1 ex)) of
           (Some n, Some e) \<Rightarrow> Some (scale10 (of_nat n) (e - int (length frac)))
         | _ \<Rightarrow> None)"

definition overflow_bound :: rat where
  "overflow_bound = 2 ^ 1024 - 2 ^ 970"

lemma overflow_bound_code [code]:
  "overflow_bound =
     179769313486231580793728971405303415079934132710037826936173778980444968292764750946649017977587207096330286416692887910946555547851940402630657488671505820681908902000708383676273854845817711531764475730270069855571366959622842914819860834936475292719074168444365510704342711559699508093042880177904174497792"
  by (simp add: overflow_bound_def)

definition js_bounded :: "rat \<Rightarrow> jsnum" where
  "js_bounded q = (if \<bar>q\<bar> < overflow_bound then Fin q else NonFinite)"

definition js_Number :: "string \<Rightarrow> jsnum" where
  "js_Number str =
     (let s = js_trim str;
          num = (\<lambda>v. case v of None \<Rightarrow> NonFinite | Some q \<Rightarrow> js_bounded q);
          prefix = map to_lower (take 2 s)
      in if s = [] then Fin 0
         else if prefix = ''0x'' then num (map_option of_nat (digits_nat 16 (drop 2 s)))
         else if prefix = ''0o'' then num (map_option of_nat (digits_nat 8 (drop 2 s)))
         else if prefix = ''0b'' then num (map_option of_nat (digits_nat 2 (drop 2 s)))
         else if hd s = CHR ''-'' then num (map_option uminus (unsigned_decimal (tl s)))
         else if hd s = CHR ''+'' then num (unsigned_decimal (tl s))
         else num (unsigned_decimal s))"

section \<open>Printed numbers\<close>

definition decimal_digit :: "char \<Rightarrow> bool" where
  "decimal_digit c \<longleftrightarrow> (let n = of_char c :: nat in 48 \<le> n \<and> n \<le> 57)"

lemma digit_char_decimal: "d < 10 \<Longrightarrow> decimal_digit (digit_char d) \<and> digit_of (digit_char d) = Some d"
  by (simp add: decimal_digit_def digit_char_def digit_of_def Let_def)

lemma string_of_nat_decimal: "list_all decimal_digit (string_of_nat n)"
proof (induction n rule: string_of_nat.induct)
  case (1 n)
  then show ?case by (subst string_of_nat.simps) (auto simp: digit_char_decimal)
qed

lemma radix_value_snoc:
  "radix_value r a (xs @ [c]) =
     (case radix_value r a xs of None \<Rightarrow> None
      | Some n \<Rightarrow> (case digit_of c of None \<Rightarrow> None | Some d \<Rightarrow> if d < r then Some (n * r + d) else None))"
  by (induction xs arbitrary: a) (auto split: option.splits)

lemma radix_value_string_of_nat: "radix_value 10 0 (string_of_nat n) = Some n"
proof (induction n rule: string_of_nat.induct)
  case (1 n)
  show ?case
  proof (cases "n < 10")
    case True
    then show ?thesis by (subst string_of_nat.simps) (simp add: digit_char_decimal)
  next
    case False
    then show ?thesis
      using 1 [OF False] by (subst string_of_nat.simps) (simp add: radix_value_snoc digit_char_decimal)
  qed
qed

lemma decimal_digit_not:
  "decimal_digit c \<Longrightarrow> \<not> js_space c \<and> c \<noteq> CHR ''e'' \<and> c \<noteq> CHR ''E'' \<and> c \<noteq> CHR ''.'' \<and> c \<noteq> CHR ''-'' \<and>
     c \<noteq> CHR ''+'' \<and> to_lower c = c \<and> c \<notin> {CHR ''x'', CHR ''o'', CHR ''b'', CHR ''s'', CHR ''m'', CHR ''h'', CHR ''d''}"
  by (auto simp: decimal_digit_def js_space_def to_lower_def Let_def)

lemma js_trim_id: "s = [] \<or> \<not> js_space (hd s) \<and> \<not> js_space (last s) \<Longrightarrow> js_trim s = s"
  by (cases s) (auto simp: js_trim_def hd_rev [symmetric] simp del: hd_rev, cases "rev s", auto)

lemma unsigned_decimal_digits:
  assumes "list_all decimal_digit s" "radix_value 10 0 s = Some n" "s \<noteq> []"
  shows "unsigned_decimal s = Some (of_nat n)"
proof -
  have "takeWhile (\<lambda>c. \<not> (c = CHR ''e'' \<or> c = CHR ''E'')) s = s" "dropWhile (\<lambda>c. \<not> (c = CHR ''e'' \<or> c = CHR ''E'')) s = []"
    "takeWhile (\<lambda>c. c \<noteq> CHR ''.'') s = s" "dropWhile (\<lambda>c. c \<noteq> CHR ''.'') s = []"
    using assms(1) decimal_digit_not
    unfolding takeWhile_eq_all_conv dropWhile_eq_Nil_conv list_all_iff by blast+
  with assms(2,3) show ?thesis
    unfolding unsigned_decimal_def Let_def digits_nat_def scale10_def by (simp only:) simp
qed

lemma js_bounded_nat: "n < 2 ^ 1023 \<Longrightarrow> js_bounded (of_nat n) = Fin (of_nat n)"
proof -
  assume "n < 2 ^ 1023"
  then have "of_nat n < (of_nat (2 ^ 1023) :: rat)" by (simp only: of_nat_less_iff)
  then show ?thesis by (simp add: js_bounded_def overflow_bound_def)
qed

lemma js_Number_digits:
  assumes "list_all decimal_digit s" "radix_value 10 0 s = Some n" "s \<noteq> []"
  shows "js_Number s = js_bounded (of_nat n)"
proof -
  have trim: "js_trim s = s"
    using assms(1,3) decimal_digit_not by (intro js_trim_id) (auto simp: list_all_iff)
  have nopre: "map to_lower (take 2 s) \<noteq> [CHR ''0'', c]" if "c \<in> {CHR ''x'', CHR ''o'', CHR ''b''}" for c
  proof
    assume m: "map to_lower (take 2 s) = [CHR ''0'', c]"
    then obtain a b where "take 2 s = [a, b]" "to_lower b = c" by (auto simp: map_eq_Cons_conv)
    moreover from this have "b \<in> set s" by (metis in_set_takeD list.set_intros(1) list.set_intros(2))
    ultimately show False using assms(1) decimal_digit_not [of b] that by (auto simp: list_all_iff)
  qed
  have "decimal_digit (hd s)" using assms(1,3) by (simp add: list_all_iff)
  then show ?thesis
    using assms(3) nopre decimal_digit_not [of "hd s"] unsigned_decimal_digits [OF assms]
    by (simp add: js_Number_def trim Let_def)
qed

end
