(* ===== verification/JobAdmission.thy ===== *)
theory JobAdmission
  imports Reconcile JsNumber "HOL-Library.Product_Lexorder" "HOL-Library.Multiset"
begin

text \<open>
  The admission reconciler for suspended Jobs, \<^verbatim>\<open>packages/operator/src/admission.ts\<close>: reading
  model and depth off a Job, the live counts, the choice of the Jobs to release
  (\<open>selectAdmittable\<close>), the decision over a listing of the cluster, one evaluation pass with its
  re-evaluation after a lost race, and the pod-pressure gate. The guard asked before a release is in
  \<open>ReleaseGate\<close>. What the informers list, what the guard answers and how a
  patch ends are parameters; so is what \<open>JSON.parse\<close> makes of an environment value.
\<close>

section \<open>Jobs\<close>

record env_var =
  ev_name :: string
  ev_value :: "string option"
  ev_parsed :: "json option"

record job_volume =
  jo_configMap :: "string option"
  jo_secret :: "string option"

record job_view =
  jv_namespace :: "string option"
  jv_name :: "string option"
  jv_deleting :: bool
  jv_agentLabel :: "string option"
  jv_parentLabel :: "string option"
  jv_taskLabel :: "string option"
  jv_owners :: "owner_ref list"
  jv_created :: "js_time option"
  jv_suspend :: bool
  jv_succeeded :: "int option"
  jv_failed :: "int option"
  jv_env :: "env_var list option"
  jv_volumes :: "job_volume list"

definition env_value :: "string \<Rightarrow> job_view \<Rightarrow> env_var option" where
  "env_value name job = (case jv_env job of None \<Rightarrow> None | Some env \<Rightarrow> find (\<lambda>e. ev_name e = name) env)"

definition extractTaskDepthFromJob :: "job_view \<Rightarrow> rat" where
  "extractTaskDepthFromJob job =
     (case Option.bind (env_value ''KAGENT_TASK_DEPTH'' job) (\<lambda>e. non_empty (ev_value e)) of
        None \<Rightarrow> 0
      | Some value \<Rightarrow>
          (case js_Number value of
             NonFinite \<Rightarrow> 0
           | Fin n \<Rightarrow> (if \<not> js_isInteger n \<or> n < 0 then 0 else n)))"

definition findDepthViolatingJobs :: "job_view list \<Rightarrow> rat option \<Rightarrow> job_view list" where
  "findDepthViolatingJobs jobs maxDepth =
     (case maxDepth of
        None \<Rightarrow> []
      | Some d \<Rightarrow> filter (\<lambda>job. d < extractTaskDepthFromJob job) jobs)"

definition spec_model :: "json option \<Rightarrow> string option" where
  "spec_model parsed =
     (case parsed of
        Some (JObj kvs) \<Rightarrow> (case obj_get kvs ''model'' of JStr m \<Rightarrow> non_empty (Some m) | _ \<Rightarrow> None)
      | _ \<Rightarrow> None)"

definition extractModelFromJob :: "job_view \<Rightarrow> string option" where
  "extractModelFromJob job =
     (case Option.bind (env_value ''KAGENT_AGENT_MODEL'' job) (\<lambda>e. non_empty (ev_value e)) of
        Some m \<Rightarrow> Some m
      | None \<Rightarrow>
          (case env_value ''KAGENT_AGENT_SPEC'' job of
             None \<Rightarrow> None
           | Some e \<Rightarrow> (if non_empty (ev_value e) = None then None else spec_model (ev_parsed e))))"

record model_endpoint =
  me_model :: string
  me_observed :: "rat option"
  me_seed :: rat

definition computeCapacity :: "model_endpoint \<Rightarrow> rat" where
  "computeCapacity endpoint =
     (case me_observed endpoint of
        Some observed \<Rightarrow> (if 0 \<le> observed then observed else me_seed endpoint)
      | None \<Rightarrow> me_seed endpoint)"

definition isTerminalJob :: "job_view \<Rightarrow> bool" where
  "isTerminalJob job \<longleftrightarrow> 0 < js_or (jv_succeeded job) 0 \<or> 0 < js_or (jv_failed job) 0"

definition countInFlightByModel :: "job_view list \<Rightarrow> string \<Rightarrow> nat" where
  "countInFlightByModel jobs model =
     foldl (\<lambda>n job. if jv_suspend job then n else if isTerminalJob job then n
                   else if extractModelFromJob job = Some model then n + 1 else n) 0 jobs"


section \<open>The scheduler\<close>

record job_ref =
  jr_namespace :: string
  jr_name :: string

record select_input =
  si_suspended :: "job_view list"
  si_running :: "job_view list"
  si_endpoints :: "(string \<times> model_endpoint) list"
  si_agentMax :: "(string \<times> rat) list"
  si_maxDepth :: "rat option"
  si_atGateway :: bool
  si_gatewayBaseUrl :: "string option"

definition strip_slashes :: "string \<Rightarrow> string" where
  "strip_slashes s = rev (dropWhile (\<lambda>c. c = CHR ''/'') (rev s))"

definition jobUsesInferenceGateway :: "job_view \<Rightarrow> string option \<Rightarrow> bool" where
  "jobUsesInferenceGateway job gatewayBaseUrl =
     (case gatewayBaseUrl of
        None \<Rightarrow> False
      | Some url \<Rightarrow>
          js_trim url \<noteq> [] \<and>
          (case Option.bind (env_value ''KAGENT_LITELLM_BASE_URL'' job) ev_value of
             None \<Rightarrow> False
           | Some route \<Rightarrow> strip_slashes (js_trim route) = strip_slashes (js_trim url)))"

text \<open>The uid of the first owner of kind \<open>AgentTask\<close>, and a parent label that is set.\<close>

definition owning_task :: "job_view \<Rightarrow> owner_ref option" where
  "owning_task job = find (\<lambda>w. ow_kind w = ''AgentTask'') (jv_owners job)"

definition own_task_uid :: "job_view \<Rightarrow> string option" where
  "own_task_uid job = Option.bind (owning_task job) ow_uid"

definition parents_with_live_child :: "job_view list \<Rightarrow> string list" where
  "parents_with_live_child jobs =
     List.map_filter (\<lambda>job. if isTerminalJob job then None else non_empty (jv_parentLabel job)) jobs"

definition waiting_parents :: "select_input \<Rightarrow> string list" where
  "waiting_parents inp = parents_with_live_child (si_running inp @ si_suspended inp)"

definition lends_slot :: "string list \<Rightarrow> job_view \<Rightarrow> bool" where
  "lends_slot waiting job =
     (case own_task_uid job of None \<Rightarrow> False | Some uid \<Rightarrow> uid \<in> set waiting)"

record admit_state =
  as_byModel :: "string \<Rightarrow> nat"
  as_byAgent :: "string \<Rightarrow> nat"
  as_admit :: "job_view list"

definition count_model :: "string option \<Rightarrow> admit_state \<Rightarrow> admit_state" where
  "count_model model st =
     (case model of
        None \<Rightarrow> st
      | Some m \<Rightarrow> st\<lparr>as_byModel := (as_byModel st)(m := as_byModel st m + 1)\<rparr>)"

definition count_agent :: "job_view \<Rightarrow> admit_state \<Rightarrow> admit_state" where
  "count_agent job st =
     (case non_empty (jv_agentLabel job) of
        None \<Rightarrow> st
      | Some a \<Rightarrow> st\<lparr>as_byAgent := (as_byAgent st)(a := as_byAgent st a + 1)\<rparr>)"

definition count_running :: "string list \<Rightarrow> admit_state \<Rightarrow> job_view \<Rightarrow> admit_state" where
  "count_running waiting st job =
     (if jv_suspend job then st
      else if isTerminalJob job then st
      else count_agent job
             (if lends_slot waiting job then st else count_model (extractModelFromJob job) st))"

definition initial_counts :: "select_input \<Rightarrow> admit_state" where
  "initial_counts inp =
     foldl (count_running (waiting_parents inp))
       \<lparr>as_byModel = \<lambda>_. 0, as_byAgent = \<lambda>_. 0, as_admit = []\<rparr> (si_running inp)"

definition running_task_uids :: "select_input \<Rightarrow> string list" where
  "running_task_uids inp =
     List.map_filter (\<lambda>job. if jv_suspend job \<or> isTerminalJob job then None else own_task_uid job)
       (si_running inp)"

definition childOfRunning :: "string list \<Rightarrow> job_view \<Rightarrow> nat" where
  "childOfRunning running job =
     (case jv_parentLabel job of
        None \<Rightarrow> 1
      | Some parent \<Rightarrow> (if parent \<in> set running then 0 else 1))"

text \<open>Missing and unreadable times are \<open>+Infinity\<close>: the second component tells them apart.\<close>

definition creationTime :: "job_view \<Rightarrow> nat \<times> int" where
  "creationTime job = (case jv_created job of Some (At t) \<Rightarrow> (0, t) | _ \<Rightarrow> (1, 0))"

definition priority :: "select_input \<Rightarrow> job_view \<Rightarrow> nat \<times> nat \<times> int" where
  "priority inp job = (childOfRunning (running_task_uids inp) job, creationTime job)"

definition sorted_jobs :: "select_input \<Rightarrow> job_view list" where
  "sorted_jobs inp = sort_key (priority inp) (si_suspended inp)"

text \<open>What refuses a Job whatever the counts are, and what the counts refuse.\<close>

definition eligible :: "select_input \<Rightarrow> job_view \<Rightarrow> (string \<times> model_endpoint) option" where
  "eligible inp job =
     (if non_empty (jv_name job) = None then None
      else if (case si_maxDepth inp of None \<Rightarrow> False | Some d \<Rightarrow> d < extractTaskDepthFromJob job) then None
      else
        (case extractModelFromJob job of
           None \<Rightarrow> None
         | Some model \<Rightarrow> map_option (\<lambda>e. (model, e)) (map_of (si_endpoints inp) model)))"

definition owned_by_gateway :: "select_input \<Rightarrow> job_view \<Rightarrow> bool" where
  "owned_by_gateway inp job \<longleftrightarrow> si_atGateway inp \<and> jobUsesInferenceGateway job (si_gatewayBaseUrl inp)"

definition agent_full :: "select_input \<Rightarrow> admit_state \<Rightarrow> job_view \<Rightarrow> bool" where
  "agent_full inp st job =
     (case non_empty (jv_agentLabel job) of
        None \<Rightarrow> False
      | Some a \<Rightarrow>
          (case map_of (si_agentMax inp) a of
             None \<Rightarrow> False
           | Some agentCap \<Rightarrow> 0 \<le> agentCap \<and> agentCap \<le> of_nat (as_byAgent st a)))"

definition admit_step :: "select_input \<Rightarrow> admit_state \<Rightarrow> job_view \<Rightarrow> admit_state" where
  "admit_step inp st job =
     (case eligible inp job of
        None \<Rightarrow> st
      | Some (model, endpoint) \<Rightarrow>
          (if \<not> owned_by_gateway inp job \<and> computeCapacity endpoint \<le> of_nat (as_byModel st model) then st
           else if agent_full inp st job then st
           else (count_agent job (count_model (Some model) st))\<lparr>as_admit := as_admit st @ [job]\<rparr>))"

definition final_counts :: "select_input \<Rightarrow> admit_state" where
  "final_counts inp = foldl (admit_step inp) (initial_counts inp) (sorted_jobs inp)"

definition ref_of :: "job_view \<Rightarrow> job_ref" where
  "ref_of job = \<lparr>jr_namespace = js_or (jv_namespace job) ''default'', jr_name = js_or (jv_name job) []\<rparr>"

definition selectAdmittable :: "select_input \<Rightarrow> job_ref list" where
  "selectAdmittable inp = map ref_of (as_admit (final_counts inp))"

section \<open>The decision over a listing\<close>

definition endpoint_map :: "model_endpoint list \<Rightarrow> (string \<times> model_endpoint) list" where
  "endpoint_map es = foldl (\<lambda>m e. AList.update (me_model e) e m) [] es"

text \<open>
  The caps of the agents named by the Jobs: looked up once per namespace and agent, stored under
  the agent's name alone.
\<close>

definition job_key :: "job_view \<Rightarrow> string" where
  "job_key job = js_or (jv_namespace job) ''default'' @ ''/'' @ js_or (jv_name job) []"

definition ref_key :: "job_ref \<Rightarrow> string" where
  "ref_key ref = jr_namespace ref @ ''/'' @ jr_name ref"

definition agent_cap_step ::
  "(string \<Rightarrow> string \<Rightarrow> rat option) \<Rightarrow> string list \<times> (string \<times> rat) list \<Rightarrow> job_view \<Rightarrow>
   string list \<times> (string \<times> rat) list" where
  "agent_cap_step lookupAgent acc job =
     (case non_empty (jv_agentLabel job) of
        None \<Rightarrow> acc
      | Some agentName \<Rightarrow>
          (let namespace = js_or (jv_namespace job) ''default'';
               key = namespace @ ''/'' @ agentName;
               (seen, caps) = acc
           in
           if key \<in> set seen then acc
           else (key # seen,
             (case lookupAgent namespace agentName of
                Some cap \<Rightarrow> (if 0 \<le> cap then AList.update agentName cap caps else caps)
              | None \<Rightarrow> caps))))"

definition agent_caps :: "(string \<Rightarrow> string \<Rightarrow> rat option) \<Rightarrow> job_view list \<Rightarrow> (string \<times> rat) list" where
  "agent_caps lookupAgent jobs = snd (foldl (agent_cap_step lookupAgent) ([], []) jobs)"

datatype guard_answer = GuardOk | GuardRefuses string | GuardThrows string

text \<open>\<open>UnLost\<close>: the patch took effect and the call threw all the same.\<close>

datatype unsuspend_answer = UnOk | UnConflict | UnFails | UnLost

record admission_audit =
  aa_taskUid :: string
  aa_taskNamespace :: string
  aa_taskName :: string
  aa_agentName :: string
  aa_model :: "string option"

text \<open>
  The wiring of the reconciler. The number a listing, a guard and a patch get tells the reads of
  one evaluation apart: 0 is the depth sweep, 1 the first pass, 2 the second.
\<close>

record admission_deps =
  dp_enabled :: bool
  dp_maxDepth :: "rat option"
  dp_atGateway :: bool
  dp_gatewayBaseUrl :: "string option"
  dp_listJobs :: "nat \<Rightarrow> job_view list"
  dp_listEndpoints :: "nat \<Rightarrow> model_endpoint list"
  dp_lookupAgent :: "nat \<Rightarrow> string \<Rightarrow> string \<Rightarrow> rat option"
  dp_markTaskFailed :: "(job_ref \<Rightarrow> bool) option"
  dp_canUnsuspend :: "(nat \<Rightarrow> job_view \<Rightarrow> guard_answer) option"
  dp_unsuspend :: "nat \<Rightarrow> job_ref \<Rightarrow> unsuspend_answer"
  dp_emitAudit :: bool

definition select_input_of :: "admission_deps \<Rightarrow> nat \<Rightarrow> select_input" where
  "select_input_of d k =
     (let jobs = dp_listJobs d k;
          suspended = filter jv_suspend jobs;
          running = filter (\<lambda>j. \<not> jv_suspend j) jobs
      in \<lparr>si_suspended = suspended, si_running = running,
          si_endpoints = endpoint_map (dp_listEndpoints d k),
          si_agentMax = agent_caps (dp_lookupAgent d k) (suspended @ running),
          si_maxDepth = dp_maxDepth d, si_atGateway = dp_atGateway d,
          si_gatewayBaseUrl = dp_gatewayBaseUrl d\<rparr>)"

definition computeDecision :: "admission_deps \<Rightarrow> nat \<Rightarrow> (job_ref \<times> job_view) list \<times> nat" where
  "computeDecision d k =
     (let inp = select_input_of d k;
          refs = selectAdmittable inp;
          jobByKey = map_of (rev (map (\<lambda>j. (job_key j, j)) (si_suspended inp)));
          admittable = List.map_filter (\<lambda>r. map_option (\<lambda>j. (r, j)) (jobByKey (ref_key r))) refs;
          admittedNames = map ref_key refs
      in (admittable, length (filter (\<lambda>j. job_key j \<notin> set admittedNames) (si_suspended inp))))"

section \<open>One evaluation\<close>

datatype admission_effect =
    TaskMarked job_ref rat rat
  | JobReleased job_ref
  | AuditEmitted admission_audit

record admission_run =
  ru_admitted :: nat
  ru_conflicts :: nat
  ru_skipped :: nat
  ru_errors :: nat
  ru_effects :: "admission_effect list"

definition canUnsuspend :: "admission_deps \<Rightarrow> nat \<Rightarrow> job_view \<Rightarrow> string option" where
  "canUnsuspend d k job =
     (case dp_canUnsuspend d of
        None \<Rightarrow> None
      | Some guard \<Rightarrow>
          (case guard k job of
             GuardOk \<Rightarrow> None
           | GuardRefuses reason \<Rightarrow> Some reason
           | GuardThrows e \<Rightarrow> Some (''pre-unsuspend guard failed: '' @ e)))"

definition emitAdmittedAuditEvent :: "admission_deps \<Rightarrow> job_view \<Rightarrow> admission_effect list" where
  "emitAdmittedAuditEvent d job =
     (let ownerRef = (case jv_owners job of [] \<Rightarrow> None | w # _ \<Rightarrow> Some w);
          taskUid = non_empty (Option.bind ownerRef ow_uid);
          taskName = non_empty (case jv_taskLabel job of
             Some t \<Rightarrow> Some t | None \<Rightarrow> Option.bind ownerRef ow_name)
      in
      if \<not> dp_emitAudit d then []
      else
        (case (taskUid, taskName, non_empty (jv_namespace job), non_empty (jv_agentLabel job)) of
           (Some u, Some n, Some ns, Some a) \<Rightarrow>
             [AuditEmitted \<lparr>aa_taskUid = u, aa_taskNamespace = ns, aa_taskName = n, aa_agentName = a,
                aa_model = extractModelFromJob job\<rparr>]
         | _ \<Rightarrow> []))"

text \<open>The sequential patches of one pass; the first lost race ends it.\<close>

fun release_entries ::
  "admission_deps \<Rightarrow> nat \<Rightarrow> (job_ref \<times> job_view) list \<Rightarrow> admission_run \<Rightarrow> admission_run" where
  "release_entries d k [] run = run"
| "release_entries d k ((ref, job) # es) run =
     (case canUnsuspend d k job of
        Some reason \<Rightarrow> release_entries d k es (run\<lparr>ru_skipped := ru_skipped run + 1\<rparr>)
      | None \<Rightarrow>
          (case dp_unsuspend d k ref of
             UnOk \<Rightarrow>
               release_entries d k es
                 (run\<lparr>ru_admitted := ru_admitted run + 1,
                      ru_effects := ru_effects run @ [JobReleased ref] @ emitAdmittedAuditEvent d job\<rparr>)
           | UnConflict \<Rightarrow> run\<lparr>ru_conflicts := ru_conflicts run + 1\<rparr>
           | UnFails \<Rightarrow> release_entries d k es (run\<lparr>ru_errors := ru_errors run + 1\<rparr>)
           | UnLost \<Rightarrow>
               release_entries d k es
                 (run\<lparr>ru_errors := ru_errors run + 1, ru_effects := ru_effects run @ [JobReleased ref]\<rparr>)))"

text \<open>
  The depth sweep. The reason written to the task names the two numbers, which are what the
  effect keeps; \<open>mark\<close> tells whether the call throws.
\<close>

definition mark_violator ::
  "(job_ref \<Rightarrow> bool) \<Rightarrow> rat \<Rightarrow> admission_run \<Rightarrow> job_view \<Rightarrow> admission_run" where
  "mark_violator throws maxDepth run job =
     (case non_empty (jv_taskLabel job) of
        None \<Rightarrow> run
      | Some taskName \<Rightarrow>
          (let ref = \<lparr>jr_namespace = js_or (jv_namespace job) ''default'', jr_name = taskName\<rparr> in
           if throws ref then run\<lparr>ru_errors := ru_errors run + 1\<rparr>
           else run\<lparr>ru_effects := ru_effects run @ [TaskMarked ref (extractTaskDepthFromJob job) maxDepth]\<rparr>))"

definition depth_sweep :: "admission_deps \<Rightarrow> admission_run \<Rightarrow> admission_run" where
  "depth_sweep d run =
     (case (dp_maxDepth d, dp_markTaskFailed d) of
        (Some maxDepth, Some throws) \<Rightarrow>
          foldl (mark_violator throws maxDepth) run
            (findDepthViolatingJobs (filter jv_suspend (dp_listJobs d 0)) (Some maxDepth))
      | _ \<Rightarrow> run)"

definition empty_run :: admission_run where
  "empty_run = \<lparr>ru_admitted = 0, ru_conflicts = 0, ru_skipped = 0, ru_errors = 0, ru_effects = []\<rparr>"

definition runEvaluatePass :: "admission_deps \<Rightarrow> admission_run" where
  "runEvaluatePass d =
     (let swept = depth_sweep d empty_run;
          (entries1, skipped1) = computeDecision d 1;
          run1 = release_entries d 1 entries1 (swept\<lparr>ru_skipped := skipped1\<rparr>)
      in
      if ru_conflicts run1 = 0 then run1
      else
        (let (entries2, skipped2) = computeDecision d 2
         in release_entries d 2 entries2 (run1\<lparr>ru_skipped := max (ru_skipped run1) skipped2\<rparr>)))"

definition evaluate :: "admission_deps \<Rightarrow> admission_run" where
  "evaluate d = (if \<not> dp_enabled d then empty_run else runEvaluatePass d)"

section \<open>Pod pressure\<close>

datatype pod_pressure = PressureOk | PressureRefused rat rat

definition countPendingAgentPods :: "string option list \<Rightarrow> nat" where
  "countPendingAgentPods phases =
     foldl (\<lambda>n p. if p = Some ''Pending'' then n + 1 else n) 0 phases"

definition checkPodPressure :: "jsnum \<Rightarrow> jsnum \<Rightarrow> pod_pressure" where
  "checkPodPressure observed threshold =
     (case threshold of
        NonFinite \<Rightarrow> PressureOk
      | Fin t \<Rightarrow>
          (if t < 0 then PressureOk
           else
             (case observed of
                NonFinite \<Rightarrow> PressureOk
              | Fin n \<Rightarrow> (if n < 0 then PressureOk else if n \<le> t then PressureOk else PressureRefused n t))))"

section \<open>The admission loop\<close>

text \<open>A step either leaves the counts or takes the Job; what blocks it only grows.\<close>

definition blocked :: "select_input \<Rightarrow> admit_state \<Rightarrow> job_view \<Rightarrow> bool" where
  "blocked inp st job =
     (case eligible inp job of
        None \<Rightarrow> True
      | Some (model, endpoint) \<Rightarrow>
          \<not> owned_by_gateway inp job \<and> computeCapacity endpoint \<le> of_nat (as_byModel st model) \<or>
          agent_full inp st job)"

definition admit_job :: "job_view \<Rightarrow> admit_state \<Rightarrow> admit_state" where
  "admit_job job st =
     (count_agent job (count_model (extractModelFromJob job) st))\<lparr>as_admit := as_admit st @ [job]\<rparr>"

lemma eligible_SomeD:
  "eligible inp job = Some (m, e) \<Longrightarrow>
     extractModelFromJob job = Some m \<and> map_of (si_endpoints inp) m = Some e \<and> non_empty (jv_name job) \<noteq> None \<and>
     (\<forall>d. si_maxDepth inp = Some d \<longrightarrow> extractTaskDepthFromJob job \<le> d)"
  by (auto simp: eligible_def split: if_splits option.splits)

lemma admit_step_eq: "admit_step inp st job = (if blocked inp st job then st else admit_job job st)"
proof (cases "eligible inp job")
  case (Some me)
  then obtain m e where me: "eligible inp job = Some (m, e)" by (cases me) simp
  with eligible_SomeD [OF this] show ?thesis
    by (auto simp: admit_step_def blocked_def admit_job_def)
qed (simp add: admit_step_def blocked_def)

lemma count_model_sel [simp]:
  "as_byModel (count_model m st) = (\<lambda>x. as_byModel st x + (if m = Some x then 1 else 0))"
  "as_byAgent (count_model m st) = as_byAgent st"
  "as_admit (count_model m st) = as_admit st"
  by (auto simp: count_model_def split: option.splits)

lemma count_agent_sel [simp]:
  "as_byAgent (count_agent job st) = (\<lambda>x. as_byAgent st x + (if non_empty (jv_agentLabel job) = Some x then 1 else 0))"
  "as_byModel (count_agent job st) = as_byModel st"
  "as_admit (count_agent job st) = as_admit st"
  by (auto simp: count_agent_def split: option.splits)

lemma admit_job_sel [simp]:
  "as_byModel (admit_job job st) = (\<lambda>x. as_byModel st x + (if extractModelFromJob job = Some x then 1 else 0))"
  "as_byAgent (admit_job job st) = (\<lambda>x. as_byAgent st x + (if non_empty (jv_agentLabel job) = Some x then 1 else 0))"
  "as_admit (admit_job job st) = as_admit st @ [job]"
  by (simp_all add: admit_job_def)

definition admit_all :: "select_input \<Rightarrow> admit_state \<Rightarrow> job_view list \<Rightarrow> admit_state" where
  "admit_all inp st jobs = foldl (admit_step inp) st jobs"

lemma admit_all_Nil [simp]: "admit_all inp st [] = st"
  by (simp add: admit_all_def)

lemma admit_all_Cons [simp]: "admit_all inp st (j # js) = admit_all inp (admit_step inp st j) js"
  by (simp add: admit_all_def)

lemma admit_all_append: "admit_all inp st (xs @ ys) = admit_all inp (admit_all inp st xs) ys"
  by (simp add: admit_all_def)

definition counts_le :: "admit_state \<Rightarrow> admit_state \<Rightarrow> bool" where
  "counts_le st st' \<longleftrightarrow>
     as_byModel st \<le> as_byModel st' \<and> as_byAgent st \<le> as_byAgent st' \<and> set (as_admit st) \<subseteq> set (as_admit st')"

lemma counts_le_refl [simp]: "counts_le st st"
  by (simp add: counts_le_def)

lemma counts_le_trans: "counts_le a b \<Longrightarrow> counts_le b c \<Longrightarrow> counts_le a c"
  by (auto simp: counts_le_def)

lemma counts_le_step: "counts_le st (admit_step inp st job)"
  by (simp add: admit_step_eq counts_le_def le_fun_def) auto

lemma counts_le_all: "counts_le st (admit_all inp st jobs)"
  by (induction jobs arbitrary: st) (auto intro: counts_le_trans counts_le_step)

lemma agent_full_mono: "counts_le st st' \<Longrightarrow> agent_full inp st job \<Longrightarrow> agent_full inp st' job"
  by (auto simp: agent_full_def counts_le_def le_fun_def split: option.splits
      intro: order.trans of_nat_mono)

lemma blocked_mono: "counts_le st st' \<Longrightarrow> blocked inp st job \<Longrightarrow> blocked inp st' job"
  using agent_full_mono [of st st' inp job]
  by (auto simp: blocked_def counts_le_def le_fun_def split: option.splits intro: order.trans of_nat_mono)

lemma admitted_or_blocked:
  "job \<in> set jobs \<Longrightarrow> job \<in> set (as_admit (admit_all inp st jobs)) \<or> blocked inp (admit_all inp st jobs) job"
proof (induction jobs arbitrary: st)
  case (Cons j js)
  show ?case
  proof (cases "job \<in> set js")
    case True
    then show ?thesis using Cons.IH by simp
  next
    case False
    with Cons.prems have j: "job = j" by simp
    have le: "counts_le (admit_step inp st j) (admit_all inp (admit_step inp st j) js)"
      by (rule counts_le_all)
    show ?thesis
    proof (cases "blocked inp st j")
      case True
      with le show ?thesis unfolding j by (auto simp: admit_step_eq dest: blocked_mono)
    next
      case False
      with le show ?thesis unfolding j by (auto simp: admit_step_eq counts_le_def)
    qed
  qed
qed simp

lemma admitted_at:
  "job \<in> set (as_admit (admit_all inp st jobs)) \<Longrightarrow> job \<notin> set (as_admit st) \<Longrightarrow>
     \<exists>xs ys. jobs = xs @ job # ys \<and> \<not> blocked inp (admit_all inp st xs) job"
proof (induction jobs arbitrary: st)
  case (Cons j js)
  show ?case
  proof (cases "job = j \<and> \<not> blocked inp st j")
    case True
    then have "j # js = [] @ job # js \<and> \<not> blocked inp (admit_all inp st []) job" by simp
    then show ?thesis by blast
  next
    case False
    then have "job \<notin> set (as_admit (admit_step inp st j))"
      using Cons.prems(2) by (auto simp: admit_step_eq)
    with Cons.IH [of "admit_step inp st j"] Cons.prems(1)
    obtain xs ys where "js = xs @ job # ys" "\<not> blocked inp (admit_all inp (admit_step inp st j) xs) job"
      by auto
    then have "j # js = (j # xs) @ job # ys \<and> \<not> blocked inp (admit_all inp st (j # xs)) job" by simp
    then show ?thesis by blast
  qed
qed simp

section \<open>Counts\<close>

lemma admit_all_new:
  "\<exists>new. as_admit (admit_all inp st jobs) = as_admit st @ new \<and> set new \<subseteq> set jobs \<and>
     (\<forall>x. as_byModel (admit_all inp st jobs) x =
            as_byModel st x + length (filter (\<lambda>j. extractModelFromJob j = Some x) new)) \<and>
     (\<forall>x. as_byAgent (admit_all inp st jobs) x =
            as_byAgent st x + length (filter (\<lambda>j. non_empty (jv_agentLabel j) = Some x) new))"
proof (induction jobs arbitrary: st)
  case (Cons j js)
  from Cons.IH [of "admit_step inp st j"] obtain new where
    new: "as_admit (admit_all inp st (j # js)) = as_admit (admit_step inp st j) @ new" "set new \<subseteq> set js"
      "\<forall>x. as_byModel (admit_all inp st (j # js)) x = as_byModel (admit_step inp st j) x +
             length (filter (\<lambda>j. extractModelFromJob j = Some x) new)"
      "\<forall>x. as_byAgent (admit_all inp st (j # js)) x = as_byAgent (admit_step inp st j) x +
             length (filter (\<lambda>j. non_empty (jv_agentLabel j) = Some x) new)"
    by auto
  show ?case
  proof (cases "blocked inp st j")
    case True
    with new show ?thesis by (intro exI [of _ new]) (auto simp: admit_step_eq)
  next
    case False
    with new show ?thesis by (intro exI [of _ "j # new"]) (auto simp: admit_step_eq)
  qed
qed simp






text \<open>The Jobs that hold a slot of a model, and of an agent, in a listing.\<close>

definition takes_slot :: "string list \<Rightarrow> string \<Rightarrow> job_view \<Rightarrow> bool" where
  "takes_slot waiting model job \<longleftrightarrow>
     \<not> jv_suspend job \<and> \<not> isTerminalJob job \<and> \<not> lends_slot waiting job \<and> extractModelFromJob job = Some model"

definition live_slots :: "string \<Rightarrow> job_view list \<Rightarrow> nat" where
  "live_slots model jobs = length (filter (takes_slot (parents_with_live_child jobs) model) jobs)"

definition takes_agent_slot :: "string \<Rightarrow> job_view \<Rightarrow> bool" where
  "takes_agent_slot a job \<longleftrightarrow> \<not> jv_suspend job \<and> \<not> isTerminalJob job \<and> jv_agentLabel job = Some a"




lemma count_running_counts:
  assumes "non_empty (Some a) = Some a"
  shows "as_byModel (foldl (count_running w) st jobs) m = as_byModel st m + length (filter (takes_slot w m) jobs)"
    and "as_byAgent (foldl (count_running w) st jobs) a = as_byAgent st a + length (filter (takes_agent_slot a) jobs)"
    and "as_admit (foldl (count_running w) st jobs) = as_admit st"
  using assms
  by (induction jobs arbitrary: st)
     (auto simp: count_running_def takes_slot_def takes_agent_slot_def non_empty_def split: if_splits)


section \<open>Releasing what was chosen\<close>

definition release_refs :: "job_ref list \<Rightarrow> job_view list \<Rightarrow> job_view list" where
  "release_refs refs jobs =
     map (\<lambda>j. if job_key j \<in> ref_key ` set refs then j\<lparr>jv_suspend := False\<rparr> else j) jobs"

lemma ref_key_of [simp]: "ref_key (ref_of j) = job_key j"
  by (simp add: ref_key_def ref_of_def job_key_def)

lemma env_value_unsuspended [simp]: "env_value n (j\<lparr>jv_suspend := b\<rparr>) = env_value n j"
  by (simp add: env_value_def)

lemma unsuspended_view [simp]:
  "isTerminalJob (j\<lparr>jv_suspend := b\<rparr>) = isTerminalJob j"
  "jv_parentLabel (j\<lparr>jv_suspend := b\<rparr>) = jv_parentLabel j"
  "jv_agentLabel (j\<lparr>jv_suspend := b\<rparr>) = jv_agentLabel j"
  "extractModelFromJob (j\<lparr>jv_suspend := b\<rparr>) = extractModelFromJob j"
  "lends_slot w (j\<lparr>jv_suspend := b\<rparr>) = lends_slot w j"
  unfolding isTerminalJob_def extractModelFromJob_def env_value_unsuspended lends_slot_def
    own_task_uid_def owning_task_def by simp_all



lemma final_counts_eq: "final_counts inp = admit_all inp (initial_counts inp) (sorted_jobs inp)"
  by (simp add: final_counts_def admit_all_def)

lemma set_sorted_jobs [simp]: "set (sorted_jobs inp) = set (si_suspended inp)"
  by (simp add: sorted_jobs_def)

lemma initial_admit [simp]: "as_admit (initial_counts inp) = []"
  by (simp add: initial_counts_def count_running_counts(3) [of "''a''"] non_empty_def)

lemma admitted_suspended: "job \<in> set (as_admit (final_counts inp)) \<Longrightarrow> job \<in> set (si_suspended inp)"
  using admit_all_new [of inp "initial_counts inp" "sorted_jobs inp"] by (auto simp: final_counts_eq)


lemma distinct_key_inj: "distinct (map job_key jobs) \<Longrightarrow> i \<in> set jobs \<Longrightarrow> j \<in> set jobs \<Longrightarrow> job_key i = job_key j \<Longrightarrow> i = j"
  by (auto simp: distinct_map inj_on_def)

text \<open>What the listing gives the scheduler.\<close>

lemma select_input_sel [simp]:
  "si_suspended (select_input_of d k) = filter jv_suspend (dp_listJobs d k)"
  "si_running (select_input_of d k) = filter (\<lambda>j. \<not> jv_suspend j) (dp_listJobs d k)"
  "si_endpoints (select_input_of d k) = endpoint_map (dp_listEndpoints d k)"
  "si_maxDepth (select_input_of d k) = dp_maxDepth d"
  "si_atGateway (select_input_of d k) = dp_atGateway d"
  "si_gatewayBaseUrl (select_input_of d k) = dp_gatewayBaseUrl d"
  by (simp_all add: select_input_of_def Let_def)

lemma released_from_admitted:
  assumes "distinct (map job_key (dp_listJobs d k))" "j \<in> set (dp_listJobs d k)"
    "job_key j \<in> ref_key ` set (selectAdmittable (select_input_of d k))"
  shows "j \<in> set (as_admit (final_counts (select_input_of d k)))"
proof -
  from assms(3) obtain i where i: "i \<in> set (as_admit (final_counts (select_input_of d k)))" "job_key j = job_key i"
    by (auto simp: selectAdmittable_def)
  from admitted_suspended [OF i(1)] have "i \<in> set (dp_listJobs d k)" by simp
  from distinct_key_inj [OF assms(1,2) this i(2)] i(1) show ?thesis by simp
qed










lemma not_chosen_blocked:
  "job \<in> set (si_suspended inp) \<Longrightarrow> job \<notin> set (as_admit (final_counts inp)) \<Longrightarrow> blocked inp (final_counts inp) job"
  using admitted_or_blocked [of job "sorted_jobs inp" inp "initial_counts inp"] by (auto simp: final_counts_eq)

lemma chosen_at:
  "job \<in> set (as_admit (final_counts inp)) \<Longrightarrow>
     \<exists>xs ys. sorted_jobs inp = xs @ job # ys \<and> \<not> blocked inp (admit_all inp (initial_counts inp) xs) job"
  using admitted_at [of job inp "initial_counts inp" "sorted_jobs inp"] by (simp add: final_counts_eq)

lemma not_blocked_eligible: "\<not> blocked inp st job \<Longrightarrow> \<exists>m e. eligible inp job = Some (m, e)"
  by (cases "eligible inp job") (auto simp: blocked_def)

text \<open>
  The choice is fail-closed and leaves nothing behind. A chosen Job is suspended in the listing,
  has a name, a depth within the limit and a model with a declared endpoint. A suspended Job that
  is not chosen is either not eligible at all, or the counts after the pass leave no room for it:
  its model is full (and the gateway does not own its admission) or its agent is.
\<close>

theorem choice_is_maximal:
  "(job \<in> set (as_admit (final_counts inp)) \<longrightarrow>
      job \<in> set (si_suspended inp) \<and> non_empty (jv_name job) \<noteq> None \<and>
      (\<forall>d. si_maxDepth inp = Some d \<longrightarrow> extractTaskDepthFromJob job \<le> d) \<and>
      (\<exists>m e. extractModelFromJob job = Some m \<and> map_of (si_endpoints inp) m = Some e)) \<and>
   (job \<in> set (si_suspended inp) \<and> job \<notin> set (as_admit (final_counts inp)) \<longrightarrow>
      (case eligible inp job of
         None \<Rightarrow> True
       | Some (m, e) \<Rightarrow>
           \<not> owned_by_gateway inp job \<and> computeCapacity e \<le> of_nat (as_byModel (final_counts inp) m) \<or>
           agent_full inp (final_counts inp) job))"
proof (intro conjI impI)
  assume chosen: "job \<in> set (as_admit (final_counts inp))"
  from chosen_at [OF this] not_blocked_eligible obtain m e where "eligible inp job = Some (m, e)" by blast
  from eligible_SomeD [OF this] admitted_suspended [OF chosen]
  show "job \<in> set (si_suspended inp)" "non_empty (jv_name job) \<noteq> None"
    "\<forall>d. si_maxDepth inp = Some d \<longrightarrow> extractTaskDepthFromJob job \<le> d"
    "\<exists>m e. extractModelFromJob job = Some m \<and> map_of (si_endpoints inp) m = Some e"
    by auto
next
  assume "job \<in> set (si_suspended inp) \<and> job \<notin> set (as_admit (final_counts inp))"
  then show "case eligible inp job of
         None \<Rightarrow> True
       | Some (m, e) \<Rightarrow>
           \<not> owned_by_gateway inp job \<and> computeCapacity e \<le> of_nat (as_byModel (final_counts inp) m) \<or>
           agent_full inp (final_counts inp) job"
    using not_chosen_blocked [of job inp] by (simp add: blocked_def)
qed

lemma blocked_same_class:
  assumes "extractModelFromJob i = extractModelFromJob j" "jv_agentLabel i = jv_agentLabel j"
    "owned_by_gateway inp i = owned_by_gateway inp j" "eligible inp i \<noteq> None" "blocked inp st i"
  shows "blocked inp st j"
proof -
  have "agent_full inp st i = agent_full inp st j" by (simp add: agent_full_def assms(2))
  with assms show ?thesis
    by (auto simp: blocked_def dest!: eligible_SomeD split: option.splits)
qed

lemma sorted_before:
  assumes "sorted (map f (xs @ j # ys))" "i \<in> set (xs @ j # ys)" "f i < (f j :: 'k :: linorder)"
  shows "i \<in> set xs"
  using assms by (auto simp: sorted_append)

text \<open>The order of precedence, as it is meant: children of running tasks, then the older Job.\<close>

definition running_task :: "select_input \<Rightarrow> string \<Rightarrow> bool" where
  "running_task inp uid \<longleftrightarrow>
     (\<exists>r\<in>set (si_running inp). \<not> jv_suspend r \<and> \<not> isTerminalJob r \<and> own_task_uid r = Some uid)"

definition helps_running_parent :: "select_input \<Rightarrow> job_view \<Rightarrow> bool" where
  "helps_running_parent inp job \<longleftrightarrow> (\<exists>p. jv_parentLabel job = Some p \<and> running_task inp p)"

definition created_before :: "job_view \<Rightarrow> job_view \<Rightarrow> bool" where
  "created_before i j \<longleftrightarrow>
     (\<exists>t. jv_created i = Some (At t) \<and> (\<forall>t'. jv_created j = Some (At t') \<longrightarrow> t < t'))"

definition goes_first :: "select_input \<Rightarrow> job_view \<Rightarrow> job_view \<Rightarrow> bool" where
  "goes_first inp i j \<longleftrightarrow>
     helps_running_parent inp i \<and> \<not> helps_running_parent inp j \<or>
     (helps_running_parent inp i \<longleftrightarrow> helps_running_parent inp j) \<and> created_before i j"

lemma running_task_uids_set: "uid \<in> set (running_task_uids inp) \<longleftrightarrow> running_task inp uid"
proof -
  have "x \<in> set (List.map_filter g xs) \<longleftrightarrow> (\<exists>r\<in>set xs. g r = Some x)" for x :: string and g and xs :: "job_view list"
    by (induction xs) (auto simp: List.map_filter_simps split: option.splits)
  then show ?thesis by (simp add: running_task_uids_def running_task_def) (metis option.distinct(1))
qed

lemma childOfRunning_eq:
  "childOfRunning (running_task_uids inp) job = (if helps_running_parent inp job then 0 else 1)"
  by (auto simp: childOfRunning_def helps_running_parent_def running_task_uids_set split: option.split)

lemma created_before_time: "created_before i j \<Longrightarrow> creationTime i < creationTime j"
  by (auto simp: created_before_def creationTime_def split: option.split js_time.split)

lemma goes_first_priority: "goes_first inp i j \<Longrightarrow> priority inp i < priority inp j"
  by (auto simp: goes_first_def priority_def childOfRunning_eq dest: created_before_time)

text \<open>
  C26. No Job is overtaken by an equal: take two suspended Jobs for the same model and agent, both or
  neither of which go through an inference gateway with its own queue. If the first one can be
  chosen at all (it has a name, its depth is allowed and its model declared), and it goes first
  because it is a child of a running task and the other is not, or else because they are alike in
  this and it was created earlier or is the only dated one, then it is chosen whenever the other is.
\<close>

theorem no_overtaking:
  assumes "i \<in> set (si_suspended inp)" "j \<in> set (as_admit (final_counts inp))"
    and "goes_first inp i j"
    and "extractModelFromJob i = extractModelFromJob j" "jv_agentLabel i = jv_agentLabel j"
    and "owned_by_gateway inp i = owned_by_gateway inp j" "eligible inp i \<noteq> None"
  shows "i \<in> set (as_admit (final_counts inp))"
proof -
  obtain xs ys where xs: "sorted_jobs inp = xs @ j # ys"
    and free: "\<not> blocked inp (admit_all inp (initial_counts inp) xs) j"
    using chosen_at [OF assms(2)] by blast
  have "sorted (map (priority inp) (sorted_jobs inp))" by (simp add: sorted_jobs_def)
  moreover have "i \<in> set (xs @ j # ys)" using assms(1) xs by (metis set_sorted_jobs)
  ultimately have "i \<in> set xs"
    using goes_first_priority [OF assms(3)] unfolding xs by (rule sorted_before)
  then have "i \<in> set (as_admit (admit_all inp (initial_counts inp) xs))"
    using admitted_or_blocked [of i xs inp "initial_counts inp"] free assms(4-7) blocked_same_class by blast
  then show ?thesis
    using counts_le_all [of "admit_all inp (initial_counts inp) xs" inp "j # ys"]
    unfolding final_counts_eq xs admit_all_append by (auto simp: counts_le_def)
qed

section \<open>The evaluation\<close>

lemma decision_entry:
  assumes "(ref, job) \<in> set (fst (computeDecision d k))" "distinct (map job_key (dp_listJobs d k))"
  shows "job \<in> set (as_admit (final_counts (select_input_of d k))) \<and> ref_key ref = job_key job"
proof -
  let ?inp = "select_input_of d k"
  from assms(1) have ref: "ref \<in> set (selectAdmittable ?inp)"
    and look: "map_of (rev (map (\<lambda>j. (job_key j, j)) (si_suspended ?inp))) (ref_key ref) = Some job"
    by (auto simp: computeDecision_def Let_def List.map_filter_def split: if_splits option.splits)
  from map_of_SomeD [OF look] have job: "job \<in> set (dp_listJobs d k)" "job_key job = ref_key ref" by auto
  with released_from_admitted [OF assms(2), of job] ref show ?thesis by simp
qed

lemma release_entries_effects:
  "JobReleased ref \<in> set (ru_effects (release_entries d k es run)) \<Longrightarrow>
     JobReleased ref \<in> set (ru_effects run) \<or>
     (\<exists>job. (ref, job) \<in> set es \<and> canUnsuspend d k job = None \<and> dp_unsuspend d k ref \<in> {UnOk, UnLost})"
  by (induction d k es run rule: release_entries.induct)
     (auto simp: emitAdmittedAuditEvent_def Let_def split: option.splits unsuspend_answer.splits if_splits)

lemma sweep_releases_nothing: "JobReleased ref \<notin> set (ru_effects (depth_sweep d empty_run))"
proof -
  have "JobReleased ref \<notin> set (ru_effects run) \<Longrightarrow>
      JobReleased ref \<notin> set (ru_effects (foldl (mark_violator t m) run jobs))" for t m run jobs
    by (induction jobs arbitrary: run)
       (auto simp: mark_violator_def Let_def split: option.splits)
  then show ?thesis by (simp add: depth_sweep_def empty_run_def split: option.split)
qed

lemma evaluated_effects:
  assumes "JobReleased ref \<in> set (ru_effects (evaluate d))"
  shows "dp_enabled d \<and> (\<exists>k job. k \<in> {1, 2} \<and> (ref, job) \<in> set (fst (computeDecision d k)) \<and>
     canUnsuspend d k job = None \<and> dp_unsuspend d k ref \<in> {UnOk, UnLost})"
proof -
  have en: "dp_enabled d" using assms by (auto simp: evaluate_def empty_run_def split: if_splits)
  define run1 where "run1 = release_entries d 1 (fst (computeDecision d 1))
     ((depth_sweep d empty_run)\<lparr>ru_skipped := snd (computeDecision d 1)\<rparr>)"
  have "JobReleased ref \<in> set (ru_effects run1) \<or>
      (\<exists>run2. ru_effects run2 = ru_effects run1 \<and>
         JobReleased ref \<in> set (ru_effects (release_entries d 2 (fst (computeDecision d 2)) run2)))"
    using assms en
    by (auto simp: evaluate_def runEvaluatePass_def Let_def run1_def case_prod_unfold split: if_splits
        intro!: exI [of _ "run1\<lparr>ru_skipped := max (ru_skipped run1) (snd (computeDecision d 2))\<rparr>"])
  then show ?thesis
    using release_entries_effects [of ref d 1 "fst (computeDecision d 1)"]
      release_entries_effects [of ref d 2 "fst (computeDecision d 2)"] sweep_releases_nothing [of ref d] en
    unfolding run1_def by fastforce
qed

text \<open>
  C27. Every release of an evaluation was decided and cleared: the controller is enabled, the Job
  was suspended in the listing of that pass, chosen by the scheduler (so its depth is allowed and
  its model declared), and the guard, asked about that very Job, did not refuse.
\<close>

theorem release_was_cleared:
  assumes "JobReleased ref \<in> set (ru_effects (evaluate d))"
    and "\<And>k. distinct (map job_key (dp_listJobs d k))"
  shows "dp_enabled d \<and>
    (\<exists>k job. k \<in> {1, 2} \<and> job \<in> set (dp_listJobs d k) \<and> jv_suspend job \<and> job_key job = ref_key ref \<and>
       (\<forall>m. dp_maxDepth d = Some m \<longrightarrow> extractTaskDepthFromJob job \<le> m) \<and>
       (\<exists>model e. extractModelFromJob job = Some model \<and>
          map_of (endpoint_map (dp_listEndpoints d k)) model = Some e) \<and>
       (\<forall>guard. dp_canUnsuspend d = Some guard \<longrightarrow> guard k job = GuardOk))"
proof -
  from evaluated_effects [OF assms(1)] obtain k job where k: "dp_enabled d" "k \<in> {1, 2}"
    "(ref, job) \<in> set (fst (computeDecision d k))" "canUnsuspend d k job = None"
    by blast
  from decision_entry [OF k(3) assms(2)]
  have job: "job \<in> set (as_admit (final_counts (select_input_of d k)))" "ref_key ref = job_key job" by simp_all
  from chosen_at [OF job(1)] not_blocked_eligible obtain m e where "eligible (select_input_of d k) job = Some (m, e)"
    by blast
  note el = eligible_SomeD [OF this]
  have guard: "\<forall>guard. dp_canUnsuspend d = Some guard \<longrightarrow> guard k job = GuardOk"
    using k(4) by (auto simp: canUnsuspend_def split: option.splits guard_answer.splits)
  have "job \<in> set (dp_listJobs d k)" "jv_suspend job"
    using admitted_suspended [OF job(1)] by simp_all
  with k(1,2) job(2) el guard show ?thesis by (intro conjI exI [of _ k] exI [of _ job]) auto
qed

section \<open>Concrete runs\<close>

definition sample_env :: "string \<Rightarrow> env_var list" where
  "sample_env model = [\<lparr>ev_name = ''KAGENT_AGENT_MODEL'', ev_value = Some model, ev_parsed = None\<rparr>]"

definition sample_job :: "string \<Rightarrow> string \<Rightarrow> string option \<Rightarrow> int \<Rightarrow> bool \<Rightarrow> job_view" where
  "sample_job name model parent created suspended =
     \<lparr>jv_namespace = Some ''prod'', jv_name = Some name, jv_deleting = False, jv_agentLabel = Some ''bot'',
      jv_parentLabel = parent, jv_taskLabel = Some (''task-'' @ name),
      jv_owners = [\<lparr>ow_kind = ''AgentTask'', ow_name = Some (''task-'' @ name), ow_uid = Some (''uid-'' @ name)\<rparr>],
      jv_created = Some (At created), jv_suspend = suspended, jv_succeeded = None, jv_failed = None,
      jv_env = Some (sample_env model), jv_volumes = []\<rparr>"

definition sample_deps :: "job_view list \<Rightarrow> rat \<Rightarrow> admission_deps" where
  "sample_deps jobs slots =
     \<lparr>dp_enabled = True, dp_maxDepth = Some 4, dp_atGateway = False, dp_gatewayBaseUrl = None,
      dp_listJobs = \<lambda>_. jobs, dp_listEndpoints = \<lambda>_. [\<lparr>me_model = ''m'', me_observed = None, me_seed = slots\<rparr>],
      dp_lookupAgent = \<lambda>_ _ _. Some 3, dp_markTaskFailed = Some (\<lambda>_. False),
      dp_canUnsuspend = Some (\<lambda>_ _. GuardOk), dp_unsuspend = \<lambda>_ _. UnOk, dp_emitAudit = True\<rparr>"

definition sample_queue :: "job_view list" where
  "sample_queue =
     [sample_job ''late'' ''m'' None 9 True, sample_job ''early'' ''m'' None 5 True,
      sample_job ''parent'' ''m'' None 1 False, sample_job ''child'' ''m'' (Some ''uid-parent'') 20 True]"


lemma sample_distinct: "distinct (map job_key sample_queue)"
  by code_simp


text \<open>The parent lends its slot, its child goes first, then the earliest of the rest.\<close>

lemma sample_choice:
  "map jr_name (selectAdmittable (select_input_of (sample_deps sample_queue 2) 1)) = [''child'', ''early'']"
  by code_simp


theorem choice_is_maximal_witness:
  "sample_job ''late'' ''m'' None 9 True
     \<notin> set (as_admit (final_counts (select_input_of (sample_deps sample_queue 2) 1))) \<and>
   (2 :: rat) \<le> of_nat (as_byModel (final_counts (select_input_of (sample_deps sample_queue 2) 1)) ''m'')"
proof -
  let ?inp = "select_input_of (sample_deps sample_queue 2) 1"
  let ?job = "sample_job ''late'' ''m'' None 9 True"
  have out: "?job \<notin> set (as_admit (final_counts ?inp))" by code_simp
  have "?job \<in> set (si_suspended ?inp)" by code_simp
  moreover have "eligible ?inp ?job = Some (''m'', \<lparr>me_model = ''m'', me_observed = None, me_seed = 2\<rparr>)"
    by code_simp
  moreover have "\<not> agent_full ?inp (final_counts ?inp) ?job \<or> as_byModel (final_counts ?inp) ''m'' = 2"
    by code_simp
  ultimately show ?thesis
    using choice_is_maximal [of ?job ?inp] out by (auto simp: computeCapacity_def)
qed

theorem no_overtaking_witness:
  "sample_job ''child'' ''m'' (Some ''uid-parent'') 20 True
     \<in> set (as_admit (final_counts (select_input_of (sample_deps sample_queue 2) 1)))"
proof (rule no_overtaking)
  let ?inp = "select_input_of (sample_deps sample_queue 2) 1"
  let ?i = "sample_job ''child'' ''m'' (Some ''uid-parent'') 20 True"
  let ?j = "sample_job ''early'' ''m'' None 5 True"
  show "?i \<in> set (si_suspended ?inp)" by code_simp
  show "?j \<in> set (as_admit (final_counts ?inp))" by code_simp
  have "childOfRunning (running_task_uids ?inp) ?i = 0" by code_simp
  then have "helps_running_parent ?inp ?i" by (simp add: childOfRunning_eq split: if_splits)
  moreover have "\<not> helps_running_parent ?inp ?j" by (simp add: helps_running_parent_def sample_job_def)
  ultimately show "goes_first ?inp ?i ?j" by (simp add: goes_first_def)
  show "extractModelFromJob ?i = extractModelFromJob ?j" by code_simp
  show "jv_agentLabel ?i = jv_agentLabel ?j" by code_simp
  show "owned_by_gateway ?inp ?i = owned_by_gateway ?inp ?j" by code_simp
  have "extractModelFromJob ?i = Some ''m'' \<and> map_option (\<lambda>_. ()) (eligible ?inp ?i) = Some ()" by code_simp
  then show "eligible ?inp ?i \<noteq> None" by auto
qed

theorem release_was_cleared_witness:
  "\<exists>job \<in> set sample_queue. jv_suspend job \<and> job_key job = ''prod/early'' \<and> extractTaskDepthFromJob job \<le> 4"
proof -
  let ?d = "sample_deps sample_queue 2"
  have jobs: "dp_listJobs ?d k = sample_queue" for k by (simp add: sample_deps_def)
  have "JobReleased \<lparr>jr_namespace = ''prod'', jr_name = ''early''\<rparr> \<in> set (ru_effects (evaluate ?d))"
    by code_simp
  from release_was_cleared [OF this] sample_distinct show ?thesis
    by (auto simp: jobs ref_key_def sample_deps_def)
qed

text \<open>
  Two evaluations over a listing that lags: the first releases a Job, the second does not see that
  yet and releases a child that was queued in between. The release carries no resource version,
  so nothing conflicts, and two Jobs run in a model of capacity one.
\<close>

definition lagging_queue :: "job_view list" where
  "lagging_queue = [sample_job ''parent'' ''other'' None 1 False, sample_job ''first'' ''m'' None 5 True]"

lemma stale_listing_overadmits:
  fixes first second
  defines "first \<equiv> \<lparr>jr_namespace = ''prod'', jr_name = ''first''\<rparr>"
    and "second \<equiv> \<lparr>jr_namespace = ''prod'', jr_name = ''second''\<rparr>"
    and "later \<equiv> lagging_queue @ [sample_job ''second'' ''m'' (Some ''uid-parent'') 9 True]"
  shows "JobReleased first \<in> set (ru_effects (evaluate (sample_deps lagging_queue 1))) \<and>
    JobReleased second \<in> set (ru_effects (evaluate (sample_deps later 1))) \<and>
    ru_conflicts (evaluate (sample_deps later 1)) = 0 \<and>
    live_slots ''m'' (release_refs [first, second] later) = 2"
  unfolding first_def second_def later_def by code_simp

end
