(* ===== verification/ReleaseGate.thy ===== *)
theory ReleaseGate
  imports Dispatch JobAdmission
begin

text \<open>
  The guard that the admission reconciler asks before a release, \<open>canUnsuspendManagedAgentJob\<close> of
  \<^verbatim>\<open>packages/operator/src/main.ts\<close>, what it accepts exactly, and its composition with the dispatch
  of a task: what is released after a dispatch that failed. The answers of the API server are
  parameters.
\<close>

section \<open>The guard before a release\<close>

record owning_object =
  oo_deleting :: bool
  oo_uid :: "string option"
  oo_phase :: "phase option"

definition read_exists :: "string \<Rightarrow> string \<Rightarrow> string \<Rightarrow> unit read_answer \<Rightarrow> string option" where
  "read_exists kind namespace name ans =
     (case ans of
        ReadOk _ \<Rightarrow> None
      | ReadNotFound \<Rightarrow> Some (''missing '' @ kind @ '' '' @ namespace @ ''/'' @ name)
      | ReadFails e \<Rightarrow> Some (''failed to verify '' @ kind @ '' '' @ namespace @ ''/'' @ name @ '': '' @ e))"

fun mounts_missing ::
  "string \<Rightarrow> (string \<Rightarrow> unit read_answer) \<Rightarrow> (string \<Rightarrow> unit read_answer) \<Rightarrow> job_volume list \<Rightarrow> string option" where
  "mounts_missing namespace readConfigMap readSecret [] = None"
| "mounts_missing namespace readConfigMap readSecret (v # vs) =
     (case Option.bind (non_empty (jo_configMap v))
             (\<lambda>n. read_exists ''ConfigMap'' namespace n (readConfigMap n)) of
        Some reason \<Rightarrow> Some reason
      | None \<Rightarrow>
          (case Option.bind (non_empty (jo_secret v))
                  (\<lambda>n. read_exists ''Secret'' namespace n (readSecret n)) of
             Some reason \<Rightarrow> Some reason
           | None \<Rightarrow> mounts_missing namespace readConfigMap readSecret vs))"

definition canUnsuspendManagedAgentJob ::
  "(string \<Rightarrow> owning_object read_answer) \<Rightarrow> (string \<Rightarrow> unit read_answer) \<Rightarrow> (string \<Rightarrow> unit read_answer) \<Rightarrow>
   job_view \<Rightarrow> guard_answer" where
  "canUnsuspendManagedAgentJob getTask readConfigMap readSecret job =
     (let namespace = js_or (jv_namespace job) ''default'';
          jobName = js_or (jv_name job) ''(no-name)'';
          ownerRef = owning_task job;
          taskName = non_empty (case jv_taskLabel job of
             Some t \<Rightarrow> Some t | None \<Rightarrow> Option.bind ownerRef ow_name)
      in
      if jv_deleting job then GuardRefuses ''Job is deleting''
      else
        (case taskName of
           None \<Rightarrow> GuardRefuses ''missing owning AgentTask reference''
         | Some t \<Rightarrow>
             (case getTask t of
                ReadNotFound \<Rightarrow> GuardRefuses (''owning AgentTask '' @ namespace @ ''/'' @ t @ '' not found'')
              | ReadFails e \<Rightarrow>
                  GuardRefuses (''failed to verify owning AgentTask '' @ namespace @ ''/'' @ t @ '': '' @ e)
              | ReadOk task \<Rightarrow>
                  (if oo_deleting task
                   then GuardRefuses (''owning AgentTask '' @ namespace @ ''/'' @ t @ '' is deleting'')
                   else if (case (non_empty (own_task_uid job), non_empty (oo_uid task)) of
                              (Some a, Some b) \<Rightarrow> a \<noteq> b | _ \<Rightarrow> False)
                   then GuardRefuses (''owning AgentTask UID mismatch for '' @ namespace @ ''/'' @ t)
                   else
                     (case mounts_missing namespace readConfigMap readSecret (jv_volumes job) of
                        Some reason \<Rightarrow> GuardRefuses reason
                      | None \<Rightarrow>
                          (if jobName = ''(no-name)'' then GuardRefuses ''Job is missing metadata.name''
                           else GuardOk))))))"

section \<open>What it accepts\<close>

text \<open>All named mounts of the Job can be read.\<close>

definition readable :: "(string \<Rightarrow> unit read_answer) \<Rightarrow> string option \<Rightarrow> bool" where
  "readable rd mount = (case non_empty mount of None \<Rightarrow> True | Some n \<Rightarrow> rd n = ReadOk ())"

definition mounts_present ::
  "(string \<Rightarrow> unit read_answer) \<Rightarrow> (string \<Rightarrow> unit read_answer) \<Rightarrow> job_volume list \<Rightarrow> bool" where
  "mounts_present readConfigMap readSecret vs \<longleftrightarrow>
     list_all (\<lambda>v. readable readConfigMap (jo_configMap v) \<and> readable readSecret (jo_secret v)) vs"

lemma readable_iff:
  "Option.bind (non_empty mount) (\<lambda>n. read_exists kind ns n (rd n)) = None \<longleftrightarrow> readable rd mount"
  by (cases "non_empty mount")
     (simp_all add: readable_def read_exists_def split: read_answer.split)

lemma mounts_missing_None: "mounts_missing ns rc rs vs = None \<longleftrightarrow> mounts_present rc rs vs"
proof (induction vs)
  case (Cons v vs)
  show ?case
    using Cons.IH readable_iff [of "jo_configMap v" "''ConfigMap''" ns rc]
      readable_iff [of "jo_secret v" "''Secret''" ns rs]
    by (simp add: mounts_present_def split: option.split) auto
qed (simp add: mounts_present_def)

definition task_name_of :: "job_view \<Rightarrow> string option" where
  "task_name_of job =
     non_empty (case jv_taskLabel job of Some t \<Rightarrow> Some t | None \<Rightarrow> Option.bind (owning_task job) ow_name)"

text \<open>
  The guard accepts a Job if and only if the Job is not being deleted and has a name, it names
  an owning task that can be read, that is not being deleted and whose uid is not another one than
  the owner reference records, and every config map and secret it mounts can be read. The phase of
  the task plays no part.
\<close>

theorem guard_exact:
  "canUnsuspendManagedAgentJob getTask rc rs job = GuardOk \<longleftrightarrow>
     \<not> jv_deleting job \<and> jv_name job \<noteq> None \<and> jv_name job \<noteq> Some ''(no-name)'' \<and>
     (\<exists>t task. task_name_of job = Some t \<and> getTask t = ReadOk task \<and> \<not> oo_deleting task \<and>
        (\<forall>a b. non_empty (own_task_uid job) = Some a \<and> non_empty (oo_uid task) = Some b \<longrightarrow> a = b)) \<and>
     mounts_present rc rs (jv_volumes job)"
proof -
  have name: "js_or (jv_name job) ''(no-name)'' = ''(no-name)'' \<longleftrightarrow> jv_name job = None \<or> jv_name job = Some ''(no-name)''"
    by (cases "jv_name job") simp_all
  show ?thesis
  proof (cases "task_name_of job")
    case None
    then show ?thesis by (simp add: canUnsuspendManagedAgentJob_def task_name_of_def Let_def)
  next
    case (Some t)
    show ?thesis
    proof (cases "getTask t")
      case (ReadOk task)
      with Some show ?thesis
        unfolding canUnsuspendManagedAgentJob_def task_name_of_def [symmetric] Let_def name
        by (auto simp: mounts_missing_None [symmetric, of _ _ _ "js_or (jv_namespace job) ''default''"]
            split: option.splits)
    qed (use Some in \<open>simp_all add: canUnsuspendManagedAgentJob_def task_name_of_def Let_def\<close>)
  qed
qed

theorem guard_exact_witness:
  "canUnsuspendManagedAgentJob (\<lambda>_. ReadOk \<lparr>oo_deleting = False, oo_uid = Some ''uid-x'', oo_phase = Some PhFailed\<rparr>)
     (\<lambda>_. ReadNotFound) (\<lambda>_. ReadNotFound) (sample_job ''x'' ''m'' None 5 True) = GuardOk"
  by (simp add: guard_exact sample_job_def task_name_of_def own_task_uid_def owning_task_def non_empty_def
      mounts_present_def)

section \<open>After a failed dispatch\<close>

text \<open>The Job of a cluster as the informer shows it, and the owning task as the API server does.\<close>

definition job_of_cluster :: "cluster \<Rightarrow> job_view list" where
  "job_of_cluster cl =
     (case cl_job cl of
        None \<Rightarrow> []
      | Some j \<Rightarrow>
          [(sample_job ''kat-u2'' ''m'' None 5 (kj_suspend j))
             \<lparr>jv_taskLabel := Some ''t'',
              jv_owners := [\<lparr>ow_kind = ''AgentTask'', ow_name = Some ''t'', ow_uid = Some ''u2''\<rparr>]\<rparr>])"

definition task_of_cluster :: "cluster \<Rightarrow> string \<Rightarrow> owning_object read_answer" where
  "task_of_cluster cl name =
     (case cl_server cl of
        None \<Rightarrow> ReadNotFound
      | Some obj \<Rightarrow> ReadOk \<lparr>oo_deleting = False, oo_uid = Some ''u2'', oo_phase = phase_of obj\<rparr>)"

definition failed_dispatch :: "idempotency_cache option \<times> cluster \<times> reconcile_action" where
  "failed_dispatch =
     reconcileAgentTask (plain_config True) ((ok_env ''j1'' plain_agent)\<lparr>rv_publish := CallFails ''timeout''\<rparr>)
       None (plain_task None) (plain_cluster None)"

definition gate_deps :: "cluster \<Rightarrow> admission_deps" where
  "gate_deps cl = (sample_deps (job_of_cluster cl) 1)
     \<lparr>dp_canUnsuspend := Some (\<lambda>_. canUnsuspendManagedAgentJob (task_of_cluster cl) (\<lambda>_. ReadOk ()) (\<lambda>_. ReadOk ()))\<rparr>"

text \<open>
  With admission control on and a publish that fails, the task is marked \<open>Failed\<close>, nothing is on
  the bus and the Job stays suspended and unmarked; the next evaluation releases that Job.
\<close>

lemma failed_dispatch_is_released:
  "snd (snd failed_dispatch) = RFailed ''dispatch failed: timeout'' \<and>
   map_option phase_of (cl_server (fst (snd failed_dispatch))) = Some (Some PhFailed) \<and>
   cl_bus (fst (snd failed_dispatch)) = [] \<and>
   cl_job (fst (snd failed_dispatch)) = Some \<lparr>kj_suspend = True, kj_published = False\<rparr> \<and>
   JobReleased \<lparr>jr_namespace = ''prod'', jr_name = ''kat-u2''\<rparr>
     \<in> set (ru_effects (evaluate (gate_deps (fst (snd failed_dispatch)))))"
  by code_simp

end
