(* ===== verification/TaskGraph.thy ===== *)
theory TaskGraph
  imports Reconcile "HOL-Library.Multiset"
begin

text \<open>
  Parent and child tasks: \<^verbatim>\<open>packages/operator/src/task-graph.ts\<close> and the projection of the
  children into the status of the parent, \<open>reconcileParentFromChildEvent\<close> of
  \<^verbatim>\<open>packages/operator/src/reconcile.ts\<close>. The children that the informer lists and the lookup
  by uid are parameters; so is how the API server answers the read and the patch.
\<close>

section \<open>Tasks of the graph\<close>

record graph_task =
  gk_apiVersion :: string
  gk_kind :: string
  gk_name :: "string option"
  gk_namespace :: "string option"
  gk_uid :: "string option"
  gk_labels :: "(string \<times> string) list"
  gk_annotations :: "(string \<times> string) list"
  gk_owners :: "owner_ref list"
  gk_targetAgent :: "string option"
  gk_targetCapability :: "string option"
  gk_payload :: json
  gk_parentTask :: "string option"
  gk_originalUserMessage :: string
  gk_parentDistillation :: "string option"
  gk_expectedTools :: "string list option"
  gk_timeoutSeconds :: "jsnum option"
  gk_phase :: "phase option"
  gk_completedAt :: "string option"
  gk_error :: "string option"

record child_spec =
  cs_name :: string
  cs_namespace :: string
  cs_targetAgent :: "string option"
  cs_targetCapability :: "string option"
  cs_originalUserMessage :: string
  cs_parentDistillation :: "string option"
  cs_expectedTools :: "string list option"
  cs_payload :: json
  cs_timeoutSeconds :: "jsnum option"

definition PARENT_TASK_UID_LABEL :: string where
  "PARENT_TASK_UID_LABEL = ''kagent.knuteson.io/parent-task-uid''"

definition PARENT_TASK_NAME_LABEL :: string where
  "PARENT_TASK_NAME_LABEL = ''kagent.knuteson.io/parent-task-name''"

definition PARENT_TASK_NAME_ANNOTATION :: string where
  "PARENT_TASK_NAME_ANNOTATION = ''kagent.knuteson.io/parent-task-name-full''"

definition ROOT_TASK_UID_LABEL :: string where
  "ROOT_TASK_UID_LABEL = ''kagent.knuteson.io/root-task-uid''"

definition label_alnum :: "char \<Rightarrow> bool" where
  "label_alnum c \<longleftrightarrow> (let n = of_char c :: nat in 48 \<le> n \<and> n \<le> 57 \<or> 65 \<le> n \<and> n \<le> 90 \<or> 97 \<le> n \<and> n \<le> 122)"

definition isValidLabelValue :: "string \<Rightarrow> bool" where
  "isValidLabelValue value \<longleftrightarrow>
     length value \<le> 63 \<and> value \<noteq> [] \<and> label_alnum (hd value) \<and> label_alnum (last value) \<and>
     list_all (\<lambda>c. label_alnum c \<or> c = CHR ''-'' \<or> c = CHR ''_'' \<or> c = CHR ''.'') value"

section \<open>Building a child\<close>

definition root_uid_for_child :: "graph_task \<Rightarrow> string \<Rightarrow> string" where
  "root_uid_for_child parent parentUid = js_or (non_empty (map_of (gk_labels parent) ROOT_TASK_UID_LABEL)) parentUid"

definition buildChildTaskManifest :: "graph_task \<Rightarrow> child_spec \<Rightarrow> string + graph_task" where
  "buildChildTaskManifest parent spec =
     (case non_empty (gk_uid parent) of
        None \<Rightarrow> Inl (''parent AgentTask is missing metadata.uid '' @ em_dash @ '' cannot build child manifest'')
      | Some parentUid \<Rightarrow>
          (case non_empty (gk_name parent) of
             None \<Rightarrow> Inl (''parent AgentTask is missing metadata.name '' @ em_dash @ '' cannot build child manifest'')
           | Some parentName \<Rightarrow>
               (let hasAgent = non_empty (cs_targetAgent spec) \<noteq> None;
                    hasCapability = non_empty (cs_targetCapability spec) \<noteq> None;
                    parentNamespace = js_or (gk_namespace parent) ''default''
                in
                if hasAgent \<and> hasCapability then
                  Inl ''ChildTaskSpec must set exactly one of {targetAgent, targetCapability}, not both''
                else if \<not> hasAgent \<and> \<not> hasCapability then
                  Inl ''ChildTaskSpec must set exactly one of {targetAgent, targetCapability}''
                else if cs_namespace spec \<noteq> parentNamespace then
                  Inl (''child namespace '' @ [CHR 0x27] @ cs_namespace spec @ [CHR 0x27]
                       @ '' must equal parent namespace '' @ [CHR 0x27] @ parentNamespace @ [CHR 0x27])
                else
                  Inr \<lparr>gk_apiVersion = ''kagent.knuteson.io/v1alpha1'', gk_kind = ''AgentTask'',
                     gk_name = Some (cs_name spec), gk_namespace = Some parentNamespace, gk_uid = None,
                     gk_labels = [(PARENT_TASK_UID_LABEL, parentUid)]
                       @ (if isValidLabelValue parentName then [(PARENT_TASK_NAME_LABEL, parentName)] else [])
                       @ [(ROOT_TASK_UID_LABEL, root_uid_for_child parent parentUid)],
                     gk_annotations = [(PARENT_TASK_NAME_ANNOTATION, parentName)],
                     gk_owners = [\<lparr>ow_kind = gk_kind parent, ow_name = Some parentName, ow_uid = Some parentUid\<rparr>],
                     gk_targetAgent = (if hasAgent then cs_targetAgent spec else None),
                     gk_targetCapability = (if hasCapability then cs_targetCapability spec else None),
                     gk_payload = cs_payload spec, gk_parentTask = Some parentUid,
                     gk_originalUserMessage = cs_originalUserMessage spec,
                     gk_parentDistillation = cs_parentDistillation spec,
                     gk_expectedTools = cs_expectedTools spec, gk_timeoutSeconds = cs_timeoutSeconds spec,
                     gk_phase = None, gk_completedAt = None, gk_error = None\<rparr>)))"

record parent_ref =
  pf_name :: string
  pf_namespace :: string
  pf_uid :: "string option"

definition firstNonEmpty :: "string option list \<Rightarrow> string option" where
  "firstNonEmpty values = Option.bind (find (\<lambda>v. non_empty v \<noteq> None) values) (\<lambda>v. v)"

definition parentTaskRefFromChild :: "graph_task \<Rightarrow> parent_ref option" where
  "parentTaskRefFromChild child =
     (let ownerRef = find (\<lambda>w. ow_kind w = ''AgentTask'') (gk_owners child);
          name = (case firstNonEmpty [map_of (gk_labels child) PARENT_TASK_NAME_LABEL,
                         map_of (gk_annotations child) PARENT_TASK_NAME_ANNOTATION] of
                    Some n \<Rightarrow> Some n | None \<Rightarrow> Option.bind ownerRef ow_name);
          uid = firstNonEmpty [map_of (gk_labels child) PARENT_TASK_UID_LABEL, Option.bind ownerRef ow_uid]
      in case (non_empty name, non_empty (gk_namespace child)) of
           (Some n, Some ns) \<Rightarrow> Some \<lparr>pf_name = n, pf_namespace = ns, pf_uid = non_empty uid\<rparr>
         | _ \<Rightarrow> None)"

section \<open>Folding the children\<close>

record child_ref =
  cr_name :: string
  cr_namespace :: string
  cr_uid :: "string option"
  cr_phase :: "phase option"
  cr_completedAt :: "string option"
  cr_error :: "string option"

datatype aggregate_phase = AggPending | AggDispatched | AggPartiallyComplete | AggAllComplete | AggAnyFailed

record projection =
  pp_children :: "child_ref list"
  pp_aggregatePhase :: aggregate_phase
  pp_successCount :: nat
  pp_failureCount :: nat
  pp_inFlightCount :: nat

definition childRef :: "graph_task \<Rightarrow> child_ref" where
  "childRef child =
     \<lparr>cr_name = js_or (gk_name child) [], cr_namespace = js_or (gk_namespace child) [], cr_uid = gk_uid child,
      cr_phase = gk_phase child, cr_completedAt = gk_completedAt child, cr_error = gk_error child\<rparr>"

fun count_refs :: "child_ref list \<Rightarrow> nat \<times> nat \<times> nat \<Rightarrow> nat \<times> nat \<times> nat" where
  "count_refs [] counts = counts"
| "count_refs (r # rs) (success, failure, inFlight) =
     count_refs rs
       (if cr_phase r = Some PhCompleted then (success + 1, failure, inFlight)
        else if cr_phase r = Some PhFailed then (success, failure + 1, inFlight)
        else (success, failure, inFlight + 1))"

definition aggregateChildren :: "graph_task list \<Rightarrow> projection" where
  "aggregateChildren children =
     (let projected = map childRef children;
          (success, failure, inFlight) = count_refs projected (0, 0, 0)
      in \<lparr>pp_children = projected,
          pp_aggregatePhase =
            (if length projected = 0 then AggPending
             else if failure > 0 then AggAnyFailed
             else if inFlight = 0 then AggAllComplete
             else if success > 0 then AggPartiallyComplete
             else AggDispatched),
          pp_successCount = success, pp_failureCount = failure, pp_inFlightCount = inFlight\<rparr>)"

section \<open>The walk up the parent chain\<close>

datatype cycle_check = CycleOk | CycleFound "string list"

text \<open>The loop of \<open>cycleCheck\<close>, which may run forever on an infinite chain.\<close>

partial_function (option) cycle_walk ::
  "(string \<Rightarrow> graph_task option) \<Rightarrow> string \<Rightarrow> string list \<Rightarrow> string list \<Rightarrow> string \<Rightarrow> cycle_check option" where
  "cycle_walk getParent candidate visited path cursor =
     (if cursor = [] then Some CycleOk
      else if cursor \<in> set visited then Some CycleOk
      else
        (case getParent cursor of
           None \<Rightarrow> Some CycleOk
         | Some node \<Rightarrow>
             (case non_empty (gk_parentTask node) of
                None \<Rightarrow> Some CycleOk
              | Some nextUid \<Rightarrow>
                  (if nextUid = candidate then Some (CycleFound (path @ [nextUid]))
                   else cycle_walk getParent candidate (cursor # visited) (path @ [nextUid]) nextUid))))"

definition cycleCheck :: "string \<Rightarrow> string \<Rightarrow> (string \<Rightarrow> graph_task option) \<Rightarrow> cycle_check option" where
  "cycleCheck parentUid candidateChildUid getParent =
     (if parentUid = candidateChildUid then Some (CycleFound [parentUid, candidateChildUid])
      else cycle_walk getParent candidateChildUid [] [parentUid] parentUid)"

section \<open>The projection into the parent\<close>

record parent_status =
  ps_phase :: "phase option"
  ps_children :: "child_ref list option"
  ps_aggregatePhase :: "aggregate_phase option"
  ps_successCount :: "nat option"
  ps_failureCount :: "nat option"
  ps_inFlightCount :: "nat option"

record parent_object =
  po_name :: "string option"
  po_uid :: "string option"
  po_status :: "parent_status option"

definition projectionMatchesStatus :: "projection \<Rightarrow> parent_status option \<Rightarrow> bool" where
  "projectionMatchesStatus p current =
     (case current of
        None \<Rightarrow> False
      | Some s \<Rightarrow>
          ps_aggregatePhase s = Some (pp_aggregatePhase p) \<and> ps_successCount s = Some (pp_successCount p) \<and>
          ps_failureCount s = Some (pp_failureCount p) \<and> ps_inFlightCount s = Some (pp_inFlightCount p) \<and>
          (case ps_children s of None \<Rightarrow> pp_children p = [] | Some cs \<Rightarrow> cs = pp_children p))"

definition patch_projection :: "projection \<Rightarrow> parent_object \<Rightarrow> parent_object" where
  "patch_projection p obj =
     obj\<lparr>po_status := Some
       \<lparr>ps_phase = Option.bind (po_status obj) ps_phase, ps_children = Some (pp_children p),
        ps_aggregatePhase = Some (pp_aggregatePhase p), ps_successCount = Some (pp_successCount p),
        ps_failureCount = Some (pp_failureCount p), ps_inFlightCount = Some (pp_inFlightCount p)\<rparr>\<rparr>"

text \<open>The first child that is an ancestor of the parent; \<open>None\<close> outside when a walk does not end.\<close>

fun first_cycle ::
  "string \<Rightarrow> (string \<Rightarrow> graph_task option) \<Rightarrow> graph_task list \<Rightarrow> string list option option" where
  "first_cycle parentUid getTaskByUid [] = Some None"
| "first_cycle parentUid getTaskByUid (child # cs) =
     (case non_empty (gk_uid child) of
        None \<Rightarrow> first_cycle parentUid getTaskByUid cs
      | Some childUid \<Rightarrow>
          (case cycleCheck parentUid childUid getTaskByUid of
             None \<Rightarrow> None
           | Some CycleOk \<Rightarrow> first_cycle parentUid getTaskByUid cs
           | Some (CycleFound path) \<Rightarrow> Some (Some path)))"

datatype parent_action =
    ParentUpdated aggregate_phase nat
  | ParentUnchanged aggregate_phase nat
  | ParentNotFound
  | ParentMissingUid
  | ParentCycle "string list"
  | ParentThrew

record parent_env =
  pe_getFails :: bool
  pe_children :: "string \<Rightarrow> graph_task list"
  pe_getTaskByUid :: "(string \<Rightarrow> graph_task option) option"
  pe_patch :: call_answer

text \<open>
  The server's parent afterwards and the verdict; \<open>None\<close> when a walk does not end. A cycle is
  also reported as an event, best effort, with the path the verdict carries here.
\<close>

definition reconcileParentFromChildEvent ::
  "parent_env \<Rightarrow> parent_object option \<Rightarrow> (parent_object option \<times> parent_action) option" where
  "reconcileParentFromChildEvent env server =
     (if pe_getFails env then Some (server, ParentThrew)
      else
        (case server of
           None \<Rightarrow> Some (server, ParentNotFound)
         | Some parent \<Rightarrow>
             (case non_empty (po_uid parent) of
                None \<Rightarrow> Some (server, ParentMissingUid)
              | Some parentUid \<Rightarrow>
                  (let items = pe_children env parentUid;
                       projection = aggregateChildren items;
                       agg = pp_aggregatePhase projection;
                       n = length (pp_children projection)
                   in
                   case (case pe_getTaskByUid env of None \<Rightarrow> Some None | Some look \<Rightarrow> first_cycle parentUid look items) of
                     None \<Rightarrow> None
                   | Some (Some path) \<Rightarrow> Some (server, ParentCycle path)
                   | Some None \<Rightarrow>
                       (if projectionMatchesStatus projection (po_status parent)
                        then Some (server, ParentUnchanged agg n)
                        else if non_empty (po_name parent) = None then Some (server, ParentThrew)
                        else
                          Some (if lands (pe_patch env) then Some (patch_projection projection parent) else server,
                                if thrown (pe_patch env) = None then ParentUpdated agg n else ParentThrew))))))"

section \<open>Aggregation\<close>

lemma count_refs_eq:
  "count_refs rs (a, b, c) =
     (a + length (filter (\<lambda>r. cr_phase r = Some PhCompleted) rs),
      b + length (filter (\<lambda>r. cr_phase r = Some PhFailed) rs),
      c + length (filter (\<lambda>r. cr_phase r \<noteq> Some PhCompleted \<and> cr_phase r \<noteq> Some PhFailed) rs))"
  by (induction rs arbitrary: a b c) auto

definition settled :: "graph_task \<Rightarrow> bool" where
  "settled t \<longleftrightarrow> gk_phase t = Some PhCompleted \<or> gk_phase t = Some PhFailed"

lemma childRef_phase [simp]: "cr_phase (childRef t) = gk_phase t"
  by (simp add: childRef_def)

lemma aggregate_counts:
  "pp_successCount (aggregateChildren ts) = length (filter (\<lambda>t. gk_phase t = Some PhCompleted) ts)"
  "pp_failureCount (aggregateChildren ts) = length (filter (\<lambda>t. gk_phase t = Some PhFailed) ts)"
  "pp_inFlightCount (aggregateChildren ts) = length (filter (\<lambda>t. \<not> settled t) ts)"
  "pp_children (aggregateChildren ts) = map childRef ts"
  by (simp_all add: aggregateChildren_def count_refs_eq filter_map o_def settled_def Let_def)

lemma aggregate_phase_eq:
  "pp_aggregatePhase (aggregateChildren ts) =
     (if ts = [] then AggPending
      else if \<exists>t\<in>set ts. gk_phase t = Some PhFailed then AggAnyFailed
      else if \<forall>t\<in>set ts. settled t then AggAllComplete
      else if \<exists>t\<in>set ts. gk_phase t = Some PhCompleted then AggPartiallyComplete
      else AggDispatched)"
  by (auto simp: aggregateChildren_def count_refs_eq filter_map o_def settled_def filter_empty_conv Let_def)

text \<open>
  The fold of the children is the documented truth table, in any order: the aggregate is
  \<open>AnyFailed\<close> exactly when some child failed, else \<open>AllComplete\<close> when all completed, else
  \<open>PartiallyComplete\<close> when some did, else \<open>Dispatched\<close>, and \<open>Pending\<close> only without children; the
  three counts add up to the children, and aggregate and counts depend on the multiset of the
  children alone.
\<close>

theorem aggregate_truth_table:
  "(case pp_aggregatePhase (aggregateChildren ts) of
      AggPending \<Rightarrow> ts = []
    | AggAnyFailed \<Rightarrow> \<exists>t\<in>set ts. gk_phase t = Some PhFailed
    | AggAllComplete \<Rightarrow> ts \<noteq> [] \<and> (\<forall>t\<in>set ts. gk_phase t = Some PhCompleted)
    | AggPartiallyComplete \<Rightarrow>
        (\<exists>t\<in>set ts. gk_phase t = Some PhCompleted) \<and> (\<exists>t\<in>set ts. \<not> settled t) \<and>
        \<not> (\<exists>t\<in>set ts. gk_phase t = Some PhFailed)
    | AggDispatched \<Rightarrow> ts \<noteq> [] \<and> (\<forall>t\<in>set ts. \<not> settled t)) \<and>
   pp_successCount (aggregateChildren ts) + pp_failureCount (aggregateChildren ts) +
     pp_inFlightCount (aggregateChildren ts) = length ts \<and>
   (mset us = mset ts \<longrightarrow>
      pp_aggregatePhase (aggregateChildren us) = pp_aggregatePhase (aggregateChildren ts) \<and>
      pp_successCount (aggregateChildren us) = pp_successCount (aggregateChildren ts) \<and>
      pp_failureCount (aggregateChildren us) = pp_failureCount (aggregateChildren ts) \<and>
      pp_inFlightCount (aggregateChildren us) = pp_inFlightCount (aggregateChildren ts))"
proof (intro conjI impI)
  show "pp_successCount (aggregateChildren ts) + pp_failureCount (aggregateChildren ts) +
     pp_inFlightCount (aggregateChildren ts) = length ts"
    unfolding aggregate_counts by (induction ts) (auto simp: settled_def)
next
  have len: "mset us = mset ts \<Longrightarrow> length (filter P us) = length (filter P ts)" for P
    by (metis mset_filter size_mset)
  show "mset us = mset ts \<Longrightarrow> pp_successCount (aggregateChildren us) = pp_successCount (aggregateChildren ts)"
    "mset us = mset ts \<Longrightarrow> pp_failureCount (aggregateChildren us) = pp_failureCount (aggregateChildren ts)"
    "mset us = mset ts \<Longrightarrow> pp_inFlightCount (aggregateChildren us) = pp_inFlightCount (aggregateChildren ts)"
    unfolding aggregate_counts by (rule len, assumption)+
  assume m: "mset us = mset ts"
  then have "set us = set ts" "us = [] \<longleftrightarrow> ts = []" by (metis set_mset_mset) (metis m mset_zero_iff)
  then show "pp_aggregatePhase (aggregateChildren us) = pp_aggregatePhase (aggregateChildren ts)"
    by (simp add: aggregate_phase_eq)
qed (auto simp: aggregate_phase_eq settled_def)

section \<open>Building and reading back\<close>

lemma label_keys: "PARENT_TASK_NAME_LABEL \<noteq> PARENT_TASK_UID_LABEL" "ROOT_TASK_UID_LABEL \<noteq> PARENT_TASK_UID_LABEL"
  "ROOT_TASK_UID_LABEL \<noteq> PARENT_TASK_NAME_LABEL"
  by code_simp+

lemma non_empty_Some: "non_empty v = Some x \<longleftrightarrow> v = Some x \<and> x \<noteq> []"
  by (auto simp: non_empty_def)

lemma built_fields:
  assumes "buildChildTaskManifest parent spec = Inr child"
  obtains n u where "gk_name parent = Some n" "n \<noteq> []" "gk_uid parent = Some u" "u \<noteq> []"
    "gk_labels child = [(PARENT_TASK_UID_LABEL, u)]
       @ (if isValidLabelValue n then [(PARENT_TASK_NAME_LABEL, n)] else [])
       @ [(ROOT_TASK_UID_LABEL, root_uid_for_child parent u)]"
    "gk_annotations child = [(PARENT_TASK_NAME_ANNOTATION, n)]" "gk_parentTask child = Some u"
    "gk_namespace child = Some (js_or (gk_namespace parent) ''default'')"
    "(non_empty (gk_targetAgent child) = None) \<noteq> (non_empty (gk_targetCapability child) = None)"
proof -
  from assms obtain n u where nu: "non_empty (gk_name parent) = Some n" "non_empty (gk_uid parent) = Some u"
    by (auto simp: buildChildTaskManifest_def split: option.splits)
  note child = assms [unfolded buildChildTaskManifest_def nu option.case Let_def]
  have none: "non_empty None = None" by (simp add: non_empty_def)
  show ?thesis
  proof (rule that [of n u])
    show "(non_empty (gk_targetAgent child) = None) \<noteq> (non_empty (gk_targetCapability child) = None)"
      using child by (auto simp: none split: if_splits)
  qed (use nu child in \<open>simp_all add: non_empty_Some split: if_splits\<close>, auto)
qed

text \<open>
  A child that was built leads back to its parent: whatever the length and characters of the
  parent's name, the reference read off the child's metadata is the parent's name, namespace and
  uid; the child has exactly one target, names the parent as its parent task, and carries the
  root of the parent's tree.
\<close>

theorem child_manifest_roundtrip:
  assumes "buildChildTaskManifest parent spec = Inr child"
  shows "(js_or (gk_namespace parent) ''default'' \<noteq> [] \<longrightarrow>
      (\<exists>n u. gk_name parent = Some n \<and> gk_uid parent = Some u \<and>
        parentTaskRefFromChild child =
          Some \<lparr>pf_name = n, pf_namespace = js_or (gk_namespace parent) ''default'', pf_uid = Some u\<rparr>)) \<and>
    gk_parentTask child = gk_uid parent \<and>
    (non_empty (gk_targetAgent child) = None) \<noteq> (non_empty (gk_targetCapability child) = None) \<and>
    map_of (gk_labels child) ROOT_TASK_UID_LABEL =
      (case non_empty (map_of (gk_labels parent) ROOT_TASK_UID_LABEL) of None \<Rightarrow> gk_uid parent | Some r \<Rightarrow> Some r)"
proof -
  from built_fields [OF assms] obtain n u where nu: "gk_name parent = Some n" "n \<noteq> []" "gk_uid parent = Some u" "u \<noteq> []"
    and lab: "gk_labels child = [(PARENT_TASK_UID_LABEL, u)]
       @ (if isValidLabelValue n then [(PARENT_TASK_NAME_LABEL, n)] else [])
       @ [(ROOT_TASK_UID_LABEL, root_uid_for_child parent u)]"
    and ch: "gk_annotations child = [(PARENT_TASK_NAME_ANNOTATION, n)]" "gk_parentTask child = Some u"
      "gk_namespace child = Some (js_or (gk_namespace parent) ''default'')"
      "(non_empty (gk_targetAgent child) = None) \<noteq> (non_empty (gk_targetCapability child) = None)" .
  note keys = label_keys label_keys [symmetric]
  have look: "map_of (gk_labels child) PARENT_TASK_UID_LABEL = Some u"
    "map_of (gk_labels child) ROOT_TASK_UID_LABEL = Some (root_uid_for_child parent u)"
    "map_of (gk_labels child) PARENT_TASK_NAME_LABEL = (if isValidLabelValue n then Some n else None)"
    unfolding lab by (simp_all add: keys)
  have first: "firstNonEmpty (Some v # vs) = Some v" "firstNonEmpty (None # vs) = firstNonEmpty vs" if "v \<noteq> []" for v vs
    using that by (simp_all add: firstNonEmpty_def non_empty_def)
  have "parentTaskRefFromChild child =
      Some \<lparr>pf_name = n, pf_namespace = js_or (gk_namespace parent) ''default'', pf_uid = Some u\<rparr>"
    if "js_or (gk_namespace parent) ''default'' \<noteq> []"
    using nu that by (simp add: parentTaskRefFromChild_def look ch first non_empty_def Let_def)
  moreover have "root_uid_for_child parent u =
      (case non_empty (map_of (gk_labels parent) ROOT_TASK_UID_LABEL) of None \<Rightarrow> u | Some r \<Rightarrow> r)"
    by (cases "non_empty (map_of (gk_labels parent) ROOT_TASK_UID_LABEL)") (simp_all add: root_uid_for_child_def)
  ultimately show ?thesis
    using nu ch look(2) by (auto split: option.split)
qed

section \<open>The walk ends and decides ancestry\<close>

text \<open>One step up the chain.\<close>

definition up :: "(string \<Rightarrow> graph_task option) \<Rightarrow> (string \<times> string) set" where
  "up getParent = {(u, v). u \<noteq> [] \<and> (\<exists>t. getParent u = Some t \<and> non_empty (gk_parentTask t) = Some v)}"

lemma up_unique: "(u, v) \<in> up g \<Longrightarrow> (u, w) \<in> up g \<Longrightarrow> v = w"
  by (auto simp: up_def)

lemma walk_induct [consumes 1, case_names step]:
  assumes fin: "finite {u. getParent u \<noteq> None}"
    and step: "\<And>visited path cursor.
      (\<And>path' n. cursor \<notin> set visited \<Longrightarrow> getParent cursor \<noteq> None \<Longrightarrow> P (cursor # visited) path' n) \<Longrightarrow>
      P visited path cursor"
  shows "P visited path cursor"
proof (induction "card ({u. getParent u \<noteq> None} - set visited)" arbitrary: visited path cursor rule: less_induct)
  case (less visited path cursor)
  show ?case
  proof (rule step)
    fix path' n
    assume c: "cursor \<notin> set visited" "getParent cursor \<noteq> None"
    then have "{u. getParent u \<noteq> None} - set (cursor # visited) \<subset> {u. getParent u \<noteq> None} - set visited" by auto
    then have "card ({u. getParent u \<noteq> None} - set (cursor # visited)) < card ({u. getParent u \<noteq> None} - set visited)"
      using fin by (intro psubset_card_mono) simp_all
    then show "P (cursor # visited) path' n" by (rule less)
  qed
qed

lemma walk_cases:
  "cycle_walk g c visited path cursor =
     (if cursor \<notin> set visited \<and> (\<exists>n. (cursor, n) \<in> up g)
      then (let n = (THE n. (cursor, n) \<in> up g) in
            if n = c then Some (CycleFound (path @ [n])) else cycle_walk g c (cursor # visited) (path @ [n]) n)
      else Some CycleOk)"
proof (cases "cursor \<notin> set visited \<and> (\<exists>n. (cursor, n) \<in> up g)")
  case True
  then obtain n t where n: "(cursor, n) \<in> up g" "cursor \<noteq> []" "g cursor = Some t" "non_empty (gk_parentTask t) = Some n"
    by (auto simp: up_def)
  then have "(THE n. (cursor, n) \<in> up g) = n" by (auto intro: up_unique)
  with True n show ?thesis by (simp add: cycle_walk.simps [of g c visited path cursor])
next
  case False
  then show ?thesis
    by (auto simp: cycle_walk.simps [of g c visited path cursor] up_def split: option.split)
qed

lemma walk_step:
  "cursor \<notin> set visited \<Longrightarrow> (cursor, n) \<in> up g \<Longrightarrow>
     cycle_walk g c visited path cursor =
       (if n = c then Some (CycleFound (path @ [n])) else cycle_walk g c (cursor # visited) (path @ [n]) n)"
proof -
  assume n: "cursor \<notin> set visited" "(cursor, n) \<in> up g"
  then have "(THE n. (cursor, n) \<in> up g) = n" by (auto intro: up_unique)
  with n show ?thesis unfolding walk_cases [of g c visited path cursor] Let_def by auto
qed

lemma walk_stop:
  "cursor \<in> set visited \<or> (\<forall>n. (cursor, n) \<notin> up g) \<Longrightarrow> cycle_walk g c visited path cursor = Some CycleOk"
  unfolding walk_cases [of g c visited path cursor] by auto

lemma up_known: "(u, v) \<in> up g \<Longrightarrow> g u \<noteq> None"
  by (auto simp: up_def)

lemma walk_returns:
  assumes "finite {u. g u \<noteq> None}"
  shows "\<exists>r. cycle_walk g c visited path cursor = Some r"
  using assms
proof (induction visited path cursor rule: walk_induct)
  case (step visited path cursor)
  show ?case
  proof (cases "cursor \<in> set visited \<or> (\<forall>n. (cursor, n) \<notin> up g)")
    case False
    then obtain n where n: "cursor \<notin> set visited" "(cursor, n) \<in> up g" by blast
    from step [OF n(1) up_known [OF n(2)], of "path @ [n]" n] show ?thesis by (simp add: walk_step [OF n])
  qed (simp add: walk_stop)
qed

text \<open>A path found goes up step by step to the candidate.\<close>

lemma chain_path:
  assumes "finite {u. g u \<noteq> None}"
    and "cycle_walk g c visited path cursor = Some (CycleFound found)"
    and "path \<noteq> []" "last path = cursor" "successively (\<lambda>a b. (a, b) \<in> up g) path"
  shows "hd found = hd path \<and> last found = c \<and> successively (\<lambda>a b. (a, b) \<in> up g) found \<and> 1 < length found"
  using assms
proof (induction visited path cursor rule: walk_induct)
  case (step visited path cursor)
  then have "\<not> (cursor \<in> set visited \<or> (\<forall>n. (cursor, n) \<notin> up g))"
    using walk_stop [of cursor visited g c path] by (metis cycle_check.distinct(1) option.inject)
  then obtain n where n: "cursor \<notin> set visited" "(cursor, n) \<in> up g" by blast
  have succ: "successively (\<lambda>a b. (a, b) \<in> up g) (path @ [n])"
    using step.prems n by (simp add: successively_append_iff)
  show ?case
  proof (cases "n = c")
    case True
    with step.prems n succ show ?thesis by (auto simp: walk_step length_Suc_conv Suc_le_eq)
  next
    case False
    with step.prems n succ step.IH [OF n(1) up_known [OF n(2)], of "path @ [n]" n]
    show ?thesis by (simp add: walk_step)
  qed
qed

text \<open>What was visited has its steps behind it and does not step to the candidate.\<close>

lemma walk_ok_no_ancestor:
  assumes "finite {u. g u \<noteq> None}"
    and "cycle_walk g c visited path cursor = Some CycleOk"
    and "\<forall>u v. u \<in> set visited \<longrightarrow> (u, v) \<in> up g \<longrightarrow> v \<noteq> c \<and> (v \<in> set visited \<or> v = cursor)"
  shows "(cursor, c) \<notin> (up g)\<^sup>+"
  using assms
proof (induction visited path cursor rule: walk_induct)
  case (step visited path cursor)
  show ?case
  proof (cases "cursor \<in> set visited")
    case True
    have "v \<in> set visited \<and> v \<noteq> c" if "(cursor, v) \<in> (up g)\<^sup>+" for v
      using that
    proof (induction rule: trancl_induct)
      case (base y)
      with True step.prems(2) show ?case by blast
    next
      case (step y z)
      with True \<open>\<forall>u v. u \<in> set visited \<longrightarrow> (u, v) \<in> up g \<longrightarrow> v \<noteq> c \<and> (v \<in> set visited \<or> v = cursor)\<close>
      show ?case by blast
    qed
    then show ?thesis by blast
  next
    case False
    show ?thesis
    proof
      assume reach: "(cursor, c) \<in> (up g)\<^sup>+"
      then obtain n where n: "(cursor, n) \<in> up g" "n = c \<or> (n, c) \<in> (up g)\<^sup>+"
        using tranclD [OF reach] by (auto simp: rtrancl_eq_or_trancl)
      with False step.prems(1) have nc: "n \<noteq> c" and w: "cycle_walk g c (cursor # visited) (path @ [n]) n = Some CycleOk"
        by (simp_all add: walk_step [OF False n(1)] split: if_splits)
      have "(n, c) \<notin> (up g)\<^sup>+"
      proof (rule step.IH [OF False up_known [OF n(1)] w], intro allI impI)
        fix u v
        assume uv: "u \<in> set (cursor # visited)" "(u, v) \<in> up g"
        show "v \<noteq> c \<and> (v \<in> set (cursor # visited) \<or> v = n)"
        proof (cases "u = cursor")
          case True
          with up_unique [OF n(1)] uv nc show ?thesis by auto
        next
          case False
          with uv step.prems(2) show ?thesis by auto
        qed
      qed
      with n nc show False by blast
    qed
  qed
qed

lemma cycleCheck_total:
  assumes "finite {u. getParent u \<noteq> None}"
  obtains (ok) "cycleCheck p c getParent = Some CycleOk" "p \<noteq> c" "(p, c) \<notin> (up getParent)\<^sup>+"
  | (found) path where "cycleCheck p c getParent = Some (CycleFound path)" "hd path = p" "last path = c"
      "p = c \<or> (p, c) \<in> (up getParent)\<^sup>+" "p \<noteq> c \<longrightarrow> successively (\<lambda>a b. (a, b) \<in> up getParent) path"
proof (cases "p = c")
  case False
  obtain r where r: "cycle_walk getParent c [] [p] p = Some r" using walk_returns [OF assms] by blast
  have up: "(a, b) \<in> R\<^sup>+" if "successively (\<lambda>a b. (a, b) \<in> R) xs" "1 < length xs" "hd xs = a" "last xs = b" for R xs a b
    using that
  proof (induction xs arbitrary: a rule: induct_list012)
    case (3 x y zs)
    show ?case
    proof (cases zs)
      case Nil
      with "3.prems" show ?thesis by auto
    next
      case (Cons z zs')
      with "3.prems" "3.IH"(2) [of y] have "(x, y) \<in> R" "(y, b) \<in> R\<^sup>+" by auto
      with "3.prems" show ?thesis by (auto intro: trancl_into_trancl2)
    qed
  qed simp_all
  show ?thesis
  proof (cases r)
    case CycleOk
    with r False walk_ok_no_ancestor [OF assms, of c "[]" "[p]" p] show ?thesis
      by (intro ok) (simp_all add: cycleCheck_def)
  next
    case (CycleFound path)
    with r chain_path [OF assms, of c "[]" "[p]" p path]
    have "hd path = p" "last path = c" "successively (\<lambda>a b. (a, b) \<in> up getParent) path" "1 < length path"
      by simp_all
    with r False CycleFound up show ?thesis by (intro found [of path]) (simp_all add: cycleCheck_def)
  qed
qed (rule found [of "[p, c]"], simp_all add: cycleCheck_def)

text \<open>
  C25. The cycle check always ends when the lookup knows finitely many tasks, even on a chain that
  is already a loop, and it decides ancestry: it refuses a candidate exactly when the candidate is
  the parent itself or an ancestor of it, and then reports the chain from the parent up to the
  candidate.
\<close>

theorem cycleCheck_decides:
  assumes "finite {u. getParent u \<noteq> None}"
  shows "\<exists>r. cycleCheck p c getParent = Some r \<and>
    (case r of
       CycleOk \<Rightarrow> p \<noteq> c \<and> (p, c) \<notin> (up getParent)\<^sup>+
     | CycleFound path \<Rightarrow>
         hd path = p \<and> last path = c \<and> (p = c \<or> (p, c) \<in> (up getParent)\<^sup>+) \<and>
         (p \<noteq> c \<longrightarrow> successively (\<lambda>a b. (a, b) \<in> up getParent) path))"
  by (rule cycleCheck_total [OF assms, of p c]) auto

section \<open>The projection settles\<close>

lemma first_cycle_returns:
  assumes "finite {u. look u \<noteq> None}"
  shows "\<exists>r. first_cycle p look cs = Some r \<and>
    (\<forall>path. r = Some path \<longrightarrow> (\<exists>c\<in>set cs. \<exists>u. gk_uid c = Some u \<and> (p = u \<or> (p, u) \<in> (up look)\<^sup>+)))"
proof (induction cs)
  case (Cons c cs)
  show ?case
  proof (cases "non_empty (gk_uid c)")
    case None
    with Cons.IH show ?thesis by auto
  next
    case (Some u)
    then have u: "gk_uid c = Some u" by (simp add: non_empty_Some)
    show ?thesis
    proof (rule cycleCheck_total [OF assms, of p u])
      assume "cycleCheck p u look = Some CycleOk"
      with Some Cons.IH show ?thesis by auto
    next
      fix path
      assume "cycleCheck p u look = Some (CycleFound path)" "p = u \<or> (p, u) \<in> (up look)\<^sup>+"
      with Some u show ?thesis by auto
    qed
  qed
qed simp

lemma patched_matches [simp]:
  "projectionMatchesStatus p (po_status (patch_projection p obj))"
  "po_uid (patch_projection p obj) = po_uid obj"
  "Option.bind (po_status (patch_projection p obj)) ps_phase = Option.bind (po_status obj) ps_phase"
  by (simp_all add: projectionMatchesStatus_def patch_projection_def)

lemma matched_unchanged:
  assumes "\<not> pe_getFails env" "po_uid parent = Some u" "u \<noteq> []"
    "(case pe_getTaskByUid env of None \<Rightarrow> Some None | Some look \<Rightarrow> first_cycle u look (pe_children env u)) = Some None"
    "projectionMatchesStatus (aggregateChildren (pe_children env u)) (po_status parent)"
  shows "reconcileParentFromChildEvent env (Some parent) =
    Some (Some parent, ParentUnchanged (pp_aggregatePhase (aggregateChildren (pe_children env u)))
      (length (pe_children env u)))"
  using assms by (simp add: reconcileParentFromChildEvent_def non_empty_def Let_def aggregate_counts)

text \<open>
  The projection settles: with answers that succeed, an event ends with a verdict; an update
  leaves the parent with exactly the fold of its listed children and its own phase untouched, and
  the next event with the same children finds nothing to do; every other verdict writes nothing,
  and a cycle is reported only when a listed child is the parent or one of its ancestors.
\<close>

theorem projection_settles:
  assumes "\<not> pe_getFails env" "pe_patch env = CallOk" "non_empty (po_name parent) \<noteq> None"
    and "\<And>look. pe_getTaskByUid env = Some look \<Longrightarrow> finite {u. look u \<noteq> None}"
  shows "\<exists>server action. reconcileParentFromChildEvent env (Some parent) = Some (server, action) \<and>
    (case action of
       ParentUpdated agg n \<Rightarrow>
         (\<exists>obj u. server = Some obj \<and> po_uid parent = Some u \<and>
            projectionMatchesStatus (aggregateChildren (pe_children env u)) (po_status obj) \<and>
            Option.bind (po_status obj) ps_phase = Option.bind (po_status parent) ps_phase \<and>
            reconcileParentFromChildEvent env server = Some (server, ParentUnchanged agg n))
     | ParentCycle path \<Rightarrow> server = Some parent \<and>
         (\<exists>u look. po_uid parent = Some u \<and> pe_getTaskByUid env = Some look \<and>
            (\<exists>c\<in>set (pe_children env u). \<exists>v. gk_uid c = Some v \<and> (u = v \<or> (u, v) \<in> (up look)\<^sup>+)))
     | _ \<Rightarrow> server = Some parent)"
proof (cases "non_empty (po_uid parent)")
  case (Some u)
  then have u: "po_uid parent = Some u" "u \<noteq> []" by (simp_all add: non_empty_Some)
  define check where "check =
    (case pe_getTaskByUid env of None \<Rightarrow> Some None | Some look \<Rightarrow> first_cycle u look (pe_children env u))"
  obtain r where r: "check = Some r"
    "\<And>path. r = Some path \<Longrightarrow> \<exists>look. pe_getTaskByUid env = Some look \<and>
       (\<exists>c\<in>set (pe_children env u). \<exists>v. gk_uid c = Some v \<and> (u = v \<or> (u, v) \<in> (up look)\<^sup>+))"
    using first_cycle_returns [OF assms(4), of _ u "pe_children env u"]
    by (cases "pe_getTaskByUid env") (auto simp: check_def)
  let ?p = "aggregateChildren (pe_children env u)"
  have run: "reconcileParentFromChildEvent env (Some parent) =
      (case r of Some path \<Rightarrow> Some (Some parent, ParentCycle path)
       | None \<Rightarrow> Some (if projectionMatchesStatus ?p (po_status parent)
           then (Some parent, ParentUnchanged (pp_aggregatePhase ?p) (length (pe_children env u)))
           else (Some (patch_projection ?p parent), ParentUpdated (pp_aggregatePhase ?p) (length (pe_children env u)))))"
    unfolding reconcileParentFromChildEvent_def
    using assms(1-3) Some r(1) by (auto simp: Let_def check_def [symmetric] aggregate_counts split: option.split)
  show ?thesis
  proof (cases r)
    case None
    with matched_unchanged [of env "patch_projection ?p parent" u] assms(1) u r(1) show ?thesis
      unfolding run by (auto simp: check_def [symmetric])
  next
    case (Some path)
    with run r u show ?thesis by simp
  qed
qed (use assms in \<open>simp add: reconcileParentFromChildEvent_def\<close>)

section \<open>Concrete graphs\<close>

definition sample_node :: "string \<Rightarrow> string option \<Rightarrow> phase option \<Rightarrow> graph_task" where
  "sample_node uid parent ph =
     \<lparr>gk_apiVersion = ''kagent.knuteson.io/v1alpha1'', gk_kind = ''AgentTask'', gk_name = Some (''t-'' @ uid),
      gk_namespace = Some ''prod'', gk_uid = Some uid, gk_labels = [], gk_annotations = [], gk_owners = [],
      gk_targetAgent = Some ''bot'', gk_targetCapability = None, gk_payload = JNull, gk_parentTask = parent,
      gk_originalUserMessage = ''hello'', gk_parentDistillation = None, gk_expectedTools = None,
      gk_timeoutSeconds = None, gk_phase = ph, gk_completedAt = None, gk_error = None\<rparr>"

definition sample_lookup :: "string \<Rightarrow> graph_task option" where
  "sample_lookup = map_of
     [(''a'', sample_node ''a'' None None), (''b'', sample_node ''b'' (Some ''a'') None),
      (''c'', sample_node ''c'' (Some ''b'') None), (''x'', sample_node ''x'' (Some ''y'') None),
      (''y'', sample_node ''y'' (Some ''x'') None)]"

lemma sample_lookup_finite: "finite {u. sample_lookup u \<noteq> None}"
  using finite_dom_map_of [of "[(''a'', sample_node ''a'' None None), (''b'', sample_node ''b'' (Some ''a'') None),
      (''c'', sample_node ''c'' (Some ''b'') None), (''x'', sample_node ''x'' (Some ''y'') None),
      (''y'', sample_node ''y'' (Some ''x'') None)]"]
  by (simp add: sample_lookup_def dom_def del: map_of.simps)

text \<open>An ancestor is refused with the chain, and the walk on a loop comes back.\<close>

theorem cycleCheck_decides_witness:
  "cycleCheck ''c'' ''a'' sample_lookup = Some (CycleFound [''c'', ''b'', ''a'']) \<and>
   (''c'', ''a'') \<in> (up sample_lookup)\<^sup>+ \<and>
   cycleCheck ''x'' ''z'' sample_lookup = Some CycleOk \<and> (''x'', ''z'') \<notin> (up sample_lookup)\<^sup>+"
proof -
  have found: "cycleCheck ''c'' ''a'' sample_lookup = Some (CycleFound [''c'', ''b'', ''a''])"
    and ok: "cycleCheck ''x'' ''z'' sample_lookup = Some CycleOk"
    by (simp_all add: cycleCheck_def cycle_walk.simps sample_lookup_def sample_node_def non_empty_def)
  with cycleCheck_decides [OF sample_lookup_finite, of "''c''" "''a''"]
    cycleCheck_decides [OF sample_lookup_finite, of "''x''" "''z''"]
  show ?thesis by simp
qed

theorem aggregate_truth_table_witness:
  "pp_aggregatePhase (aggregateChildren [sample_node ''a'' None (Some PhFailed), sample_node ''b'' None None]) =
   pp_aggregatePhase (aggregateChildren [sample_node ''b'' None None, sample_node ''a'' None (Some PhFailed)])"
  using aggregate_truth_table [of "[sample_node ''b'' None None, sample_node ''a'' None (Some PhFailed)]"
      "[sample_node ''a'' None (Some PhFailed), sample_node ''b'' None None]"]
  by (simp add: add_mset_commute)

definition sample_child :: child_spec where
  "sample_child = \<lparr>cs_name = ''kid'', cs_namespace = ''prod'', cs_targetAgent = Some ''bot'',
     cs_targetCapability = None, cs_originalUserMessage = ''hello'', cs_parentDistillation = None,
     cs_expectedTools = None, cs_payload = JNull, cs_timeoutSeconds = None\<rparr>"

theorem child_manifest_roundtrip_witness:
  "\<exists>child. buildChildTaskManifest (sample_node ''a'' None None) sample_child = Inr child \<and>
     parentTaskRefFromChild child = Some \<lparr>pf_name = ''t-a'', pf_namespace = ''prod'', pf_uid = Some ''a''\<rparr>"
proof -
  obtain child where c: "buildChildTaskManifest (sample_node ''a'' None None) sample_child = Inr child"
    by (simp add: buildChildTaskManifest_def sample_node_def sample_child_def non_empty_def Let_def)
  from child_manifest_roundtrip [OF c] c show ?thesis by (auto simp: sample_node_def)
qed

definition sample_parent :: parent_object where
  "sample_parent = \<lparr>po_name = Some ''t-b'', po_uid = Some ''b'', po_status = None\<rparr>"

definition sample_parent_env :: parent_env where
  "sample_parent_env = \<lparr>pe_getFails = False, pe_children = \<lambda>_. [sample_node ''c'' (Some ''b'') (Some PhCompleted)],
     pe_getTaskByUid = Some sample_lookup, pe_patch = CallOk\<rparr>"

theorem projection_settles_witness:
  "\<exists>server. reconcileParentFromChildEvent sample_parent_env (Some sample_parent) =
      Some (server, ParentUpdated AggAllComplete 1) \<and>
    reconcileParentFromChildEvent sample_parent_env server = Some (server, ParentUnchanged AggAllComplete 1)"
proof -
  have run: "\<exists>server. reconcileParentFromChildEvent sample_parent_env (Some sample_parent) =
      Some (server, ParentUpdated AggAllComplete 1)"
    by (simp add: reconcileParentFromChildEvent_def sample_parent_env_def sample_parent_def non_empty_def Let_def
        cycleCheck_def cycle_walk.simps sample_lookup_def sample_node_def aggregateChildren_def childRef_def
        projectionMatchesStatus_def)
  have "\<And>look. pe_getTaskByUid sample_parent_env = Some look \<Longrightarrow> finite {u. look u \<noteq> None}"
    using sample_lookup_finite by (simp add: sample_parent_env_def)
  with projection_settles [of sample_parent_env sample_parent] run show ?thesis
    by (fastforce simp: sample_parent_env_def sample_parent_def non_empty_def)
qed

end
