(* ===== verification/Quota.thy ===== *)
theory Quota
  imports Aimd
begin

text \<open>
  Counting of slots. \<open>slot_counter\<close> is the interface both in-flight counters of the system meet:
  the gateway's per (model, endpoint) one (\<^verbatim>\<open>packages/llm-gateway/src/inflight-counter.ts\<close>) and the
  operator's per-tenant one (\<^verbatim>\<open>packages/quota-controller/src/gateway.ts\<close>), which is modelled here
  with its admission check.
\<close>

section \<open>The interface\<close>

datatype 'k slot_op = Take 'k | Give 'k

fun slot_run :: "('s \<Rightarrow> 'k \<Rightarrow> 's) \<Rightarrow> ('s \<Rightarrow> 'k \<Rightarrow> 's) \<Rightarrow> 's \<Rightarrow> 'k slot_op list \<Rightarrow> 's" where
  "slot_run up down s [] = s"
| "slot_run up down s (Take k # ops) = slot_run up down (up s k) ops"
| "slot_run up down s (Give k # ops) = slot_run up down (down s k) ops"

fun slot_key :: "'k slot_op \<Rightarrow> 'k" where
  "slot_key (Take k) = k"
| "slot_key (Give k) = k"

definition takes :: "('k \<Rightarrow> bool) \<Rightarrow> 'k slot_op list \<Rightarrow> nat" where
  "takes p ops = length (filter (\<lambda>op. \<exists>k. op = Take k \<and> p k) ops)"

definition gives :: "('k \<Rightarrow> bool) \<Rightarrow> 'k slot_op list \<Rightarrow> nat" where
  "gives p ops = length (filter (\<lambda>op. \<exists>k. op = Give k \<and> p k) ops)"

text \<open>No release without a slot held: at every moment at most as many gives as slots taken.\<close>

definition balanced :: "('k \<Rightarrow> bool) \<Rightarrow> nat \<Rightarrow> 'k slot_op list \<Rightarrow> bool" where
  "balanced p n ops \<longleftrightarrow> (\<forall>i\<le>length ops. gives p (take i ops) \<le> n + takes p (take i ops))"

lemma takes_gives_simps [simp]:
  "takes p [] = 0" "gives p [] = 0"
  "takes p (Take k # ops) = (if p k then Suc (takes p ops) else takes p ops)"
  "takes p (Give k # ops) = takes p ops"
  "gives p (Take k # ops) = gives p ops"
  "gives p (Give k # ops) = (if p k then Suc (gives p ops) else gives p ops)"
  by (simp_all add: takes_def gives_def)

lemma balanced_Take: "balanced p n (Take k # ops) \<Longrightarrow> balanced p (if p k then Suc n else n) ops"
  unfolding balanced_def by (auto dest: spec [of _ "Suc _"])

lemma balanced_Give:
  assumes "balanced p n (Give k # ops)"
  shows "(p k \<longrightarrow> 0 < n) \<and> balanced p (if p k then n - 1 else n) ops"
proof -
  have step: "gives p (take (Suc i) (Give k # ops)) \<le> n + takes p (take (Suc i) (Give k # ops))"
    if "i \<le> length ops" for i
    using assms that unfolding balanced_def by (metis Suc_le_mono length_Cons)
  from step [of 0] have "p k \<longrightarrow> 0 < n" by (auto split: if_splits)
  with step show ?thesis by (fastforce simp: balanced_def)
qed

locale slot_counter =
  fixes up :: "'s \<Rightarrow> 'k \<Rightarrow> 's"
    and down :: "'s \<Rightarrow> 'k \<Rightarrow> 's"
    and cnt :: "'s \<Rightarrow> 'k \<Rightarrow> nat"
    and same :: "'k \<Rightarrow> 'k \<Rightarrow> bool"
    and valid :: "'k \<Rightarrow> bool"
  assumes count_up: "valid k \<Longrightarrow> cnt (up s k) k' = (if same k k' then Suc (cnt s k') else cnt s k')"
    and count_down: "valid k \<Longrightarrow> cnt (down s k) k' = (if same k k' then cnt s k' - 1 else cnt s k')"
begin

lemma count_exact:
  assumes "\<forall>op\<in>set ops. valid (slot_key op)" "balanced (\<lambda>x. same x k) (cnt s k) ops"
  shows "cnt (slot_run up down s ops) k + gives (\<lambda>x. same x k) ops = cnt s k + takes (\<lambda>x. same x k) ops"
  using assms
proof (induction ops arbitrary: s)
  case (Cons op ops)
  show ?case
  proof (cases op)
    case (Take x)
    with Cons.prems have "balanced (\<lambda>x. same x k) (cnt (up s x) k) ops"
      using balanced_Take [of "\<lambda>x. same x k" "cnt s k" x ops] by (simp add: count_up)
    with Cons.IH [of "up s x"] Cons.prems Take show ?thesis by (simp add: count_up)
  next
    case (Give x)
    with Cons.prems balanced_Give [of "\<lambda>x. same x k" "cnt s k" x ops]
    have b: "same x k \<longrightarrow> 0 < cnt s k" "balanced (\<lambda>x. same x k) (cnt (down s x) k) ops"
      by (simp_all add: count_down)
    with Cons.IH [of "down s x"] Cons.prems Give show ?thesis by (auto simp: count_down)
  qed
qed simp

end

definition pair_key :: "string \<times> string \<Rightarrow> string" where
  "pair_key p = makeKey (fst p) (snd p)"

definition pair_acquire :: "inflight \<Rightarrow> string \<times> string \<Rightarrow> inflight" where
  "pair_acquire m p = if_acquire m (fst p) (snd p)"

definition pair_release :: "inflight \<Rightarrow> string \<times> string \<Rightarrow> inflight" where
  "pair_release m p = if_release m (fst p) (snd p)"

definition pair_current :: "inflight \<Rightarrow> string \<times> string \<Rightarrow> nat" where
  "pair_current m p = if_current m (fst p) (snd p)"

lemma pair_current_key: "pair_key p = pair_key q \<Longrightarrow> pair_current m p = pair_current m q"
  by (simp add: pair_current_def pair_key_def if_current_def)

interpretation gateway_slots: slot_counter pair_acquire pair_release pair_current
  "\<lambda>p q. pair_key p = pair_key q" "\<lambda>_. True"
proof unfold_locales
  fix m p q
  show "pair_current (pair_acquire m p) q =
      (if pair_key p = pair_key q then Suc (pair_current m q) else pair_current m q)"
    using pair_current_key [of p q m]
    by (auto simp: pair_current_def pair_acquire_def pair_key_def if_current_acquire)
  show "pair_current (pair_release m p) q =
      (if pair_key p = pair_key q then pair_current m q - 1 else pair_current m q)"
    using pair_current_key [of p q m]
    by (auto simp: pair_current_def pair_release_def pair_key_def if_current_release)
qed

section \<open>The tenant counter\<close>

type_synonym tenant_counts = "(string \<times> nat) list"

definition GATEWAY_INFLIGHT_REFUSAL_REASON :: string where
  "GATEWAY_INFLIGHT_REFUSAL_REASON = ''policy_denied:tenant_gateway_inflight_exceeded''"

text \<open>A cap is a number of requests; the message prints it in a form the model leaves open.\<close>

datatype acquire_result =
    Acquired nat "rat option"
  | AcquireRefused nat rat string

definition observed :: "tenant_counts \<Rightarrow> string \<Rightarrow> nat" where
  "observed counts tenant = (case map_of counts tenant of None \<Rightarrow> 0 | Some n \<Rightarrow> n)"

definition tryAcquire ::
  "(string \<Rightarrow> rat option) \<Rightarrow> tenant_counts \<Rightarrow> string option \<Rightarrow> tenant_counts \<times> acquire_result"
where
  "tryAcquire capLookup counts tenant =
     (case tenant of
        None \<Rightarrow> (counts, Acquired 0 None)
      | Some t \<Rightarrow>
          (if t = [] then (counts, Acquired 0 None)
           else
             (let current = observed counts t; taken = AList.update t (current + 1) counts in
              case capLookup t of
                None \<Rightarrow> (taken, Acquired (current + 1) None)
              | Some cap \<Rightarrow>
                  (if cap < 0 then (taken, Acquired (current + 1) None)
                   else if of_nat current \<ge> cap then (counts, AcquireRefused current cap t)
                   else (taken, Acquired (current + 1) (Some cap))))))"

definition release_slot :: "tenant_counts \<Rightarrow> string option \<Rightarrow> tenant_counts" where
  "release_slot counts tenant =
     (case tenant of
        None \<Rightarrow> counts
      | Some t \<Rightarrow>
          (if t = [] then counts
           else (let current = observed counts t in
                 if current \<le> 1 then AList.delete t counts
                 else AList.update t (current - 1) counts)))"

record task_shape =
  ts_phase :: "string option"
  ts_tenantLabel :: "string option"

fun rebuild_step :: "tenant_counts \<Rightarrow> task_shape \<Rightarrow> tenant_counts" where
  "rebuild_step counts t =
     (if ts_phase t = Some ''Completed'' \<or> ts_phase t = Some ''Failed'' then counts
      else (case ts_tenantLabel t of
              None \<Rightarrow> counts
            | Some tn \<Rightarrow> (if tn = [] then counts
                        else AList.update tn (observed counts tn + 1) counts)))"

definition rebuildFromTasks :: "task_shape list \<Rightarrow> tenant_counts" where
  "rebuildFromTasks tasks = foldl rebuild_step [] tasks"

definition checkGatewayInFlight :: "string \<Rightarrow> nat \<Rightarrow> rat option \<Rightarrow> acquire_result" where
  "checkGatewayInFlight tenant obs cap =
     (case cap of
        None \<Rightarrow> Acquired obs None
      | Some c \<Rightarrow>
          (if c < 0 then Acquired obs None
           else if of_nat obs \<ge> c then AcquireRefused obs c tenant
           else Acquired obs (Some c)))"

text \<open>The admission gate over it: \<open>checkTenantGatewayInFlight\<close>; \<open>None\<close> is \<open>ok\<close>.\<close>

definition checkTenantGatewayInFlight ::
  "string option \<Rightarrow> nat \<Rightarrow> rat option \<Rightarrow> (nat \<times> rat \<times> string) option"
where
  "checkTenantGatewayInFlight tenant obs cap =
     (case tenant of
        None \<Rightarrow> None
      | Some t \<Rightarrow>
          (if t = [] then None
           else (case checkGatewayInFlight t obs cap of
                   Acquired _ _ \<Rightarrow> None
                 | AcquireRefused ob c tn \<Rightarrow> Some (ob, c, tn))))"

definition checkTenantStorage :: "string option \<Rightarrow> string set \<Rightarrow> string option" where
  "checkTenantStorage tenant overCap =
     (case tenant of
        None \<Rightarrow> None
      | Some t \<Rightarrow> (if t = [] \<or> t \<notin> overCap then None else Some t))"

section \<open>Facts\<close>

lemma observed_update:
  "observed (AList.update k n counts) k' = (if k' = k then n else observed counts k')"
  by (simp add: observed_def update_conv')

lemma observed_acquire:
  "observed (fst (tryAcquire caps counts (Some t))) t' =
     (if t' = t \<and> (\<exists>n c. snd (tryAcquire caps counts (Some t)) = Acquired n c) \<and> t \<noteq> []
      then observed counts t + 1 else observed counts t')"
  by (auto simp: tryAcquire_def observed_def Let_def update_conv' split: option.splits)

lemma observed_release:
  "observed (release_slot counts (Some t)) t' =
     (if t' = t \<and> t \<noteq> [] then observed counts t - 1 else observed counts t')"
  by (auto simp: release_slot_def observed_def Let_def update_conv' delete_conv' split: option.splits)

text \<open>Without a cap in force the counter meets the interface.\<close>

interpretation tenant_slots: slot_counter
  "\<lambda>c t. fst (tryAcquire (\<lambda>_. None) c (Some t))" "\<lambda>c t. release_slot c (Some t)" observed
  "(=)" "\<lambda>t. t \<noteq> []"
  by unfold_locales (auto simp: observed_release observed_update tryAcquire_def Let_def)

section \<open>Properties\<close>

fun quota_step :: "(string \<Rightarrow> rat option) \<Rightarrow> tenant_counts \<Rightarrow> string slot_op \<Rightarrow> tenant_counts" where
  "quota_step caps counts (Take t) = fst (tryAcquire caps counts (Some t))"
| "quota_step caps counts (Give t) = release_slot counts (Some t)"

text \<open>
  A tenant never holds more slots than its cap lets it: under any history of attempts and
  releases the number of slots held stays below the cap rounded up, an attempt is refused exactly
  when the cap is reached, and the read-only check refuses exactly when the attempt would.
\<close>

theorem tenant_cap_respected:
  assumes "caps t = Some cap" "0 \<le> cap" "t \<noteq> []"
  shows "of_nat (observed (foldl (quota_step caps) [] ops) t) < cap + 1 \<and>
    ((\<exists>n c x. snd (tryAcquire caps (foldl (quota_step caps) [] ops) (Some t)) = AcquireRefused n c x) \<longleftrightarrow>
       cap \<le> of_nat (observed (foldl (quota_step caps) [] ops) t)) \<and>
    (checkTenantGatewayInFlight (Some t) n (caps t) \<noteq> None \<longleftrightarrow> cap \<le> of_nat n)"
proof -
  have "of_nat (observed (foldl (quota_step caps) counts ops) t) < cap + 1"
    if "of_nat (observed counts t) < cap + 1" for counts
    using that
  proof (induction ops arbitrary: counts)
    case (Cons op ops)
    have "of_nat (observed (quota_step caps counts op) t) < cap + 1"
    proof (cases op)
      case (Take t')
      with Cons.prems assms show ?thesis
        by (auto simp: tryAcquire_def observed_def Let_def update_conv' split: option.splits)
    next
      case (Give t')
      have "(of_nat (observed counts t - 1) :: rat) \<le> of_nat (observed counts t)" by simp
      with Give Cons.prems show ?thesis by (auto simp: observed_release)
    qed
    with Cons.IH show ?case by simp
  qed simp
  from this [of "[]"] assms show ?thesis
    by (auto simp: tryAcquire_def Let_def checkTenantGatewayInFlight_def checkGatewayInFlight_def observed_def)
qed

theorem tenant_cap_respected_witness:
  "\<exists>n c x. snd (tryAcquire (\<lambda>_. Some 1) (foldl (quota_step (\<lambda>_. Some 1)) [] [Take ''a'', Take ''a'']) (Some ''a''))
     = AcquireRefused n c x"
proof -
  have "observed (foldl (quota_step (\<lambda>_. Some 1)) [] [Take ''a'', Take ''a'']) ''a'' = 1"
    by (simp add: tryAcquire_def observed_def)
  with tenant_cap_respected [of "\<lambda>_. Some 1" "''a''" 1 "[Take ''a'', Take ''a'']"] show ?thesis by simp
qed

text \<open>
  After a failover the rebuilt counter is right: every tenant is counted once for each of its
  tasks that is neither completed nor failed, and no task without a tenant counts.
\<close>

theorem rebuild_counts_live_tasks:
  "observed (rebuildFromTasks tasks) t =
     (if t = [] then 0
      else length (filter (\<lambda>x. ts_tenantLabel x = Some t \<and> ts_phase x \<noteq> Some ''Completed'' \<and>
             ts_phase x \<noteq> Some ''Failed'') tasks))"
proof -
  let ?live = "\<lambda>x. ts_tenantLabel x = Some t \<and> ts_phase x \<noteq> Some ''Completed'' \<and> ts_phase x \<noteq> Some ''Failed''"
  have "observed (foldl rebuild_step counts tasks) t =
      observed counts t + (if t = [] then 0 else length (filter ?live tasks))" for counts
    by (induction tasks arbitrary: counts) (auto simp: observed_def update_conv' split: option.splits)
  from this [of "[]"] show ?thesis by (simp add: rebuildFromTasks_def observed_def)
qed

text \<open>
  The gateway's in-flight books balance: as long as every release follows an acquire of the
  same pair, the count of a (model, endpoint) is exactly the number of acquires not yet released.
\<close>

theorem gateway_inflight_exact:
  assumes "balanced (\<lambda>q. pair_key q = pair_key p) 0 ops"
  shows "pair_current (slot_run pair_acquire pair_release [] ops) p + gives (\<lambda>q. pair_key q = pair_key p) ops
    = takes (\<lambda>q. pair_key q = pair_key p) ops"
proof -
  have "pair_current [] p = 0" by (simp add: pair_current_def if_current_def)
  with gateway_slots.count_exact [of ops p "[]"] assms show ?thesis by simp
qed

theorem gateway_inflight_exact_witness:
  "pair_current (slot_run pair_acquire pair_release []
     [Take (''m'', ''e''), Take (''m'', ''e''), Give (''m'', ''e'')]) (''m'', ''e'') = 1"
proof -
  have "balanced (\<lambda>q. pair_key q = pair_key (''m'', ''e'')) 0
      [Take (''m'', ''e''), Take (''m'', ''e''), Give (''m'', ''e'')]"
    unfolding balanced_def by (auto simp: le_Suc_eq numeral_eq_Suc)
  from gateway_inflight_exact [OF this] show ?thesis by simp
qed

text \<open>
  Releases are not idempotent: a task whose end is seen twice gives two slots back, so that one
  more task than the cap is running.
\<close>

lemma double_release_overadmits:
  "observed (foldl (quota_step (\<lambda>_. Some 2)) [] [Take ''t'', Take ''t'', Give ''t'', Give ''t'']) ''t'' = 0"
  by (simp add: tryAcquire_def release_slot_def observed_def)

end
