(* ===== verification/Versions.thy ===== *)
theory Versions
  imports Crds
begin

text \<open>
  Versions of agents: the multi-version registry \<^verbatim>\<open>packages/versioning-controller/src/version-index.ts\<close>,
  the deprecation lifecycle \<^verbatim>\<open>lifecycle.ts\<close>, and the two admission helpers over them in
  \<^verbatim>\<open>packages/operator/src/task-admission.ts\<close>. The registry refines a finite map from name and
  version to agents.
\<close>

section \<open>The registry\<close>

text \<open>The removal annotation carries its text and what \<open>Date.parse\<close> makes of it.\<close>

record versioned_agent =
  va_namespace :: "string option"
  va_name :: "string option"
  va_version :: json
  va_deprecated :: "string option"
  va_removedAt :: "(string \<times> js_time) option"

record version_entry =
  ve_version :: string
  ve_agent :: versioned_agent
  ve_insertedSeq :: nat

record version_bucket =
  vb_versions :: "(string \<times> version_entry) list"
  vb_insertionCounter :: nat

record version_index =
  vx_byKey :: "(string \<times> version_bucket) list"
  vx_seq :: nat

definition empty_versions :: version_index where
  "empty_versions = \<lparr>vx_byKey = [], vx_seq = 0\<rparr>"

definition DEFAULT_AGENT_VERSION :: string where
  "DEFAULT_AGENT_VERSION = ''0.0.0''"

definition resolveAgentVersion :: "versioned_agent \<Rightarrow> string" where
  "resolveAgentVersion a =
     (case va_version a of
        JStr raw \<Rightarrow> (if raw \<noteq> [] then raw else DEFAULT_AGENT_VERSION)
      | _ \<Rightarrow> DEFAULT_AGENT_VERSION)"

definition version_key :: "string \<Rightarrow> string \<Rightarrow> string" where
  "version_key ns name = ns @ ''/'' @ name"

definition compareVersions :: "string \<Rightarrow> string \<Rightarrow> int" where
  "compareVersions a b = (if a < b then -1 else if a > b then 1 else 0)"

definition bucket_of :: "version_index \<Rightarrow> string \<Rightarrow> version_bucket" where
  "bucket_of ix key =
     (case map_of (vx_byKey ix) key of
        None \<Rightarrow> \<lparr>vb_versions = [], vb_insertionCounter = 0\<rparr>
      | Some b \<Rightarrow> b)"

datatype add_result = Inserted | Updated

definition onAdd :: "version_index \<Rightarrow> versioned_agent \<Rightarrow> version_index \<times> add_result" where
  "onAdd ix a =
     (let ns = js_or (va_namespace a) ''default'' in
      case va_name a of
        None \<Rightarrow> (ix, Updated)
      | Some name \<Rightarrow>
          (if name = [] then (ix, Updated)
           else
             (let version = resolveAgentVersion a; key = version_key ns name;
                  bucket = bucket_of ix key
              in
              case map_of (vb_versions bucket) version of
                Some e \<Rightarrow>
                  (ix\<lparr>vx_byKey := AList.update key
                      (bucket\<lparr>vb_versions := AList.update version
                         \<lparr>ve_version = version, ve_agent = a, ve_insertedSeq = ve_insertedSeq e\<rparr>
                         (vb_versions bucket)\<rparr>) (vx_byKey ix)\<rparr>, Updated)
              | None \<Rightarrow>
                  (ix\<lparr>vx_byKey := AList.update key
                      (bucket\<lparr>vb_versions := AList.update version
                         \<lparr>ve_version = version, ve_agent = a, ve_insertedSeq = vx_seq ix + 1\<rparr>
                         (vb_versions bucket),
                       vb_insertionCounter := vb_insertionCounter bucket + 1\<rparr>) (vx_byKey ix),
                     vx_seq := vx_seq ix + 1\<rparr>, Inserted))))"

definition onDelete :: "version_index \<Rightarrow> versioned_agent \<Rightarrow> version_index \<times> bool" where
  "onDelete ix a =
     (let ns = js_or (va_namespace a) ''default'' in
      case va_name a of
        None \<Rightarrow> (ix, False)
      | Some name \<Rightarrow>
          (if name = [] then (ix, False)
           else
             (let version = resolveAgentVersion a; key = version_key ns name in
              case map_of (vx_byKey ix) key of
                None \<Rightarrow> (ix, False)
              | Some bucket \<Rightarrow>
                  (if map_of (vb_versions bucket) version = None then (ix, False)
                   else
                     (let rest = AList.delete version (vb_versions bucket) in
                      (ix\<lparr>vx_byKey :=
                          (if rest = [] then AList.delete key (vx_byKey ix)
                           else AList.update key (bucket\<lparr>vb_versions := rest\<rparr>) (vx_byKey ix))\<rparr>,
                       True))))))"

definition lookupExact :: "version_index \<Rightarrow> string \<Rightarrow> string \<Rightarrow> string \<Rightarrow> versioned_agent option" where
  "lookupExact ix ns name version =
     (case map_of (vx_byKey ix) (version_key ns name) of
        None \<Rightarrow> None
      | Some bucket \<Rightarrow> map_option ve_agent (map_of (vb_versions bucket) version))"

definition better :: "version_entry option \<Rightarrow> version_entry \<Rightarrow> version_entry option" where
  "better winner entry =
     (case winner of
        None \<Rightarrow> Some entry
      | Some w \<Rightarrow>
          (let cmp = compareVersions (ve_version entry) (ve_version w) in
           if cmp > 0 then Some entry
           else if cmp = 0 \<and> ve_insertedSeq entry > ve_insertedSeq w then Some entry
           else Some w))"

definition lookupLatest :: "version_index \<Rightarrow> string \<Rightarrow> string \<Rightarrow> versioned_agent option" where
  "lookupLatest ix ns name =
     (case map_of (vx_byKey ix) (version_key ns name) of
        None \<Rightarrow> None
      | Some bucket \<Rightarrow> map_option ve_agent (foldl better None (map snd (vb_versions bucket))))"

definition versionsOf :: "version_index \<Rightarrow> string \<Rightarrow> string \<Rightarrow> string list" where
  "versionsOf ix ns name =
     (case map_of (vx_byKey ix) (version_key ns name) of
        None \<Rightarrow> []
      | Some bucket \<Rightarrow> sort (map fst (vb_versions bucket)))"

definition version_count :: "version_index \<Rightarrow> nat" where
  "version_count ix = foldl (\<lambda>n (k, b). n + length (vb_versions b)) 0 (vx_byKey ix)"

section \<open>Lifecycle\<close>

datatype lifecycle_status = LActive | LDeprecated | LRemoved

record lifecycle_evaluation =
  lc_status :: lifecycle_status
  lc_message :: string
  lc_removedAtMs :: "int option"

text \<open>\<open>toISO\<close> is \<open>toISOString\<close> of the clock.\<close>

definition evaluateLifecycle :: "(int \<Rightarrow> string) \<Rightarrow> versioned_agent \<Rightarrow> int \<Rightarrow> lifecycle_evaluation" where
  "evaluateLifecycle toISO a now =
     (let removedAtMs = (case va_removedAt a of
            Some (raw, At ms) \<Rightarrow> (if raw \<noteq> [] then Some ms else None)
          | _ \<Rightarrow> None);
          ns = js_or (va_namespace a) ''default''; nm = js_or (va_name a) ''(no-name)'';
          deprecated = \<lparr>lc_status = LDeprecated,
            lc_message = ''agent.deprecated_used '' @ em_dash @ '' Agent '' @ ns @ ''/'' @ nm
              @ '' is deprecated; migrate to a newer version. Removal scheduled: ''
              @ (case va_removedAt a of Some (raw, _) \<Rightarrow> raw | None \<Rightarrow> ''(none)''),
            lc_removedAtMs = removedAtMs\<rparr>;
          active = \<lparr>lc_status = LActive, lc_message = [], lc_removedAtMs = removedAtMs\<rparr>;
          unremoved = (case va_deprecated a of
            Some d \<Rightarrow> (if map to_lower (js_trim d) = ''true'' then deprecated else active)
          | None \<Rightarrow> active)
      in
      case removedAtMs of
        Some ms \<Rightarrow>
          (if ms \<le> now then
             \<lparr>lc_status = LRemoved,
              lc_message = ''policy_denied:agent_removed '' @ em_dash @ '' Agent '' @ ns @ ''/'' @ nm
                @ '' (removed-at='' @ (case va_removedAt a of Some (raw, _) \<Rightarrow> raw | None \<Rightarrow> [])
                @ '', now='' @ toISO now @ '')'',
              lc_removedAtMs = Some ms\<rparr>
           else unremoved)
      | None \<Rightarrow> unremoved)"

text \<open>\<open>evaluateAgentLifecycleAtAdmission\<close>: the refusal message, or the evaluation.\<close>

definition evaluateAgentLifecycleAtAdmission ::
  "(int \<Rightarrow> string) \<Rightarrow> versioned_agent \<Rightarrow> int \<Rightarrow> string + lifecycle_evaluation"
where
  "evaluateAgentLifecycleAtAdmission toISO a now =
     (let lifecycle = evaluateLifecycle toISO a now in
      if lc_status lifecycle = LRemoved
      then Inl (''policy_denied:agent_removed '' @ em_dash @ '' '' @ lc_message lifecycle)
      else Inr lifecycle)"

text \<open>\<open>pinAgentVersion\<close>: the pinned version and whether it was there before.\<close>

definition pinAgentVersion :: "agent_task \<Rightarrow> versioned_agent \<Rightarrow> string \<times> bool" where
  "pinAgentVersion task a =
     (case tk_agentVersion task of
        Some v \<Rightarrow> (if v \<noteq> [] then (v, True) else (resolveAgentVersion a, False))
      | None \<Rightarrow> (resolveAgentVersion a, False))"

section \<open>The lookup interface\<close>

text \<open>
  \<open>AgentVersionLookup\<close>: the reads the admission and the dispatcher rely on. The versions listed
  are exactly those an exact lookup finds, in order, and the latest is the last of them.
\<close>

locale agent_version_lookup =
  fixes exact :: "'x \<Rightarrow> string \<Rightarrow> string \<Rightarrow> string \<Rightarrow> versioned_agent option"
    and latest :: "'x \<Rightarrow> string \<Rightarrow> string \<Rightarrow> versioned_agent option"
    and versions :: "'x \<Rightarrow> string \<Rightarrow> string \<Rightarrow> string list"
    and valid :: "'x \<Rightarrow> bool"
  assumes versions_sorted: "valid x \<Longrightarrow> sorted (versions x ns n) \<and> distinct (versions x ns n)"
    and versions_exact: "valid x \<Longrightarrow> v \<in> set (versions x ns n) \<longleftrightarrow> exact x ns n v \<noteq> None"
    and latest_last: "valid x \<Longrightarrow>
      latest x ns n = (if versions x ns n = [] then None else exact x ns n (last (versions x ns n)))"
    and exact_version: "valid x \<Longrightarrow> exact x ns n v = Some a \<Longrightarrow> resolveAgentVersion a = v"
begin

lemma latest_greatest:
  assumes "valid x" "latest x ns n = Some a"
  shows "exact x ns n (resolveAgentVersion a) = Some a \<and>
    (\<forall>v. exact x ns n v \<noteq> None \<longrightarrow> v \<le> resolveAgentVersion a)"
proof -
  from assms latest_last have ne: "versions x ns n \<noteq> []"
    and l: "exact x ns n (last (versions x ns n)) = Some a" by (auto split: if_splits)
  have r: "resolveAgentVersion a = last (versions x ns n)" by (rule exact_version [OF assms(1) l])
  have "v \<le> last (versions x ns n)" if "v \<in> set (versions x ns n)" for v
    using sorted_le_last versions_sorted [OF assms(1)] that by blast
  with r l versions_exact [OF assms(1)] show ?thesis by auto
qed

lemma latest_exists: "valid x \<Longrightarrow> exact x ns n v \<noteq> None \<Longrightarrow> latest x ns n \<noteq> None"
  using latest_last versions_exact by (metis empty_iff last_in_set list.set(1))

text \<open>Admission pins the latest version; dispatch finds that agent again.\<close>

lemma pinned_dispatch:
  assumes "valid x" "latest x ns n = Some a" "tk_agentVersion task = None"
  shows "exact x ns n (fst (pinAgentVersion task a)) = Some a"
  using latest_greatest [OF assms(1,2)] assms(3) by (simp add: pinAgentVersion_def)

end

section \<open>Invariant and refinement\<close>

definition bucket_ok :: "version_bucket \<Rightarrow> bool" where
  "bucket_ok b \<longleftrightarrow>
     vb_versions b \<noteq> [] \<and> distinct (map fst (vb_versions b)) \<and>
     (\<forall>(v, e)\<in>set (vb_versions b). ve_version e = v \<and> resolveAgentVersion (ve_agent e) = v)"

definition versions_ok :: "version_index \<Rightarrow> bool" where
  "versions_ok ix \<longleftrightarrow> (\<forall>k b. map_of (vx_byKey ix) k = Some b \<longrightarrow> bucket_ok b)"

text \<open>The finite map the registry stands for.\<close>

definition vmap :: "version_index \<Rightarrow> string \<times> string \<Rightarrow> versioned_agent option" where
  "vmap ix = (\<lambda>(k, v). case map_of (vx_byKey ix) k of
      None \<Rightarrow> None | Some b \<Rightarrow> map_option ve_agent (map_of (vb_versions b) v))"

definition agent_key :: "versioned_agent \<Rightarrow> (string \<times> string) option" where
  "agent_key a =
     (case va_name a of
        None \<Rightarrow> None
      | Some n \<Rightarrow> (if n = [] then None
                else Some (version_key (js_or (va_namespace a) ''default'') n, resolveAgentVersion a)))"

lemma set_update_mem:
  "distinct (map fst xs) \<Longrightarrow> (k', v') \<in> set (AList.update k v xs) \<Longrightarrow>
    (k', v') = (k, v) \<or> (k' \<noteq> k \<and> (k', v') \<in> set xs)"
  by (induction xs) (force split: if_splits)+

lemma update_not_Nil [simp]: "AList.update k v xs \<noteq> []"
  by (cases xs) auto

lemma bucket_ok_update:
  assumes "vb_versions b = [] \<or> bucket_ok b" "ve_version e = v" "resolveAgentVersion (ve_agent e) = v"
  shows "bucket_ok (b\<lparr>vb_versions := AList.update v e (vb_versions b)\<rparr>)"
proof -
  have d: "distinct (map fst (vb_versions b))" using assms(1) by (auto simp: bucket_ok_def)
  then show ?thesis
    using assms by (auto simp: bucket_ok_def distinct_update dest!: set_update_mem)
qed

lemma bucket_ok_counter: "bucket_ok (b\<lparr>vb_insertionCounter := n\<rparr>) = bucket_ok b"
  by (simp add: bucket_ok_def)

lemma onAdd_ok [inv_intros]:
  assumes ok: "versions_ok ix"
  shows "versions_ok (fst (onAdd ix a))"
proof (cases "agent_key a")
  case None
  with ok show ?thesis by (auto simp: onAdd_def agent_key_def Let_def split: option.splits if_splits)
next
  case (Some kv)
  then obtain name where n: "va_name a = Some name" "name \<noteq> []"
    by (auto simp: agent_key_def split: option.splits if_splits)
  define key where "key = version_key (js_or (va_namespace a) ''default'') name"
  define b where "b = bucket_of ix key"
  have b: "vb_versions b = [] \<or> bucket_ok b"
    using ok by (auto simp: b_def bucket_of_def versions_ok_def split: option.splits)
  have e: "bucket_ok (b\<lparr>vb_versions := AList.update (resolveAgentVersion a)
      \<lparr>ve_version = resolveAgentVersion a, ve_agent = a, ve_insertedSeq = s\<rparr> (vb_versions b)\<rparr>)" for s
    using b by (rule bucket_ok_update) simp_all
  have e': "bucket_ok (b\<lparr>vb_versions := AList.update (resolveAgentVersion a)
      \<lparr>ve_version = resolveAgentVersion a, ve_agent = a, ve_insertedSeq = s\<rparr> (vb_versions b),
      vb_insertionCounter := k\<rparr>)" for s k
    using e [of s] bucket_ok_counter by simp
  have "\<exists>nb. vx_byKey (fst (onAdd ix a)) = AList.update key nb (vx_byKey ix) \<and> bucket_ok nb"
    using n e e'
    by (cases "map_of (vb_versions b) (resolveAgentVersion a)")
       (auto simp: onAdd_def Let_def key_def [symmetric] b_def [symmetric])
  with ok show ?thesis by (auto simp: versions_ok_def update_conv' split: if_splits)
qed

lemma distinct_delete_keys: "distinct (map fst xs) \<Longrightarrow> distinct (map fst (AList.delete k xs))"
  by (rule distinct_delete)

lemma onDelete_ok [inv_intros]:
  assumes ok: "versions_ok ix"
  shows "versions_ok (fst (onDelete ix a))"
proof -
  have "bucket_ok (b\<lparr>vb_versions := AList.delete v (vb_versions b)\<rparr>)"
    if "bucket_ok b" "AList.delete v (vb_versions b) \<noteq> []" for b v
    using that by (auto simp: bucket_ok_def distinct_delete dest!: set_delete_mem)
  with ok show ?thesis
    by (auto simp: onDelete_def Let_def versions_ok_def update_conv' delete_conv'
        split: option.splits if_splits)
qed

lemma onAdd_vmap:
  "vmap (fst (onAdd ix a)) = (case agent_key a of None \<Rightarrow> vmap ix | Some kv \<Rightarrow> (vmap ix)(kv \<mapsto> a))"
  by (rule ext)
     (auto simp: onAdd_def vmap_def agent_key_def bucket_of_def Let_def update_conv' split: option.splits if_splits)

lemma delete_empty_lookup: "AList.delete k xs = [] \<Longrightarrow> k' \<noteq> k \<Longrightarrow> map_of xs k' = None"
  by (metis delete_conv' fun_upd_other map_of.simps(1))

lemma onDelete_vmap:
  "vmap (fst (onDelete ix a)) = (case agent_key a of None \<Rightarrow> vmap ix | Some kv \<Rightarrow> (vmap ix)(kv := None))"
  by (rule ext)
     (auto simp: onDelete_def vmap_def agent_key_def Let_def update_conv' delete_conv'
       dest: delete_empty_lookup split: option.splits if_splits)

lemma lookupExact_vmap: "lookupExact ix ns n v = vmap ix (version_key ns n, v)"
  by (simp add: lookupExact_def vmap_def)

lemma better_step:
  "\<exists>w'. better (Some w) x = Some w' \<and> (w' = w \<or> w' = x) \<and>
    ve_version w \<le> ve_version w' \<and> ve_version x \<le> ve_version w'"
  using linorder_less_linear [of "ve_version x" "ve_version w"]
  by (auto simp: better_def compareVersions_def Let_def)

lemma better_foldl:
  "\<exists>e\<in>set (w # es). foldl better (Some w) es = Some e \<and> (\<forall>x\<in>set (w # es). ve_version x \<le> ve_version e)"
proof (induction es arbitrary: w)
  case (Cons x es)
  obtain w' where w': "better (Some w) x = Some w'" "w' = w \<or> w' = x"
    "ve_version w \<le> ve_version w'" "ve_version x \<le> ve_version w'"
    using better_step by blast
  with Cons.IH [of w'] show ?case by (auto intro: order.trans)
qed simp

lemma latest_entry:
  assumes "bucket_ok b"
  shows "\<exists>e. foldl better None (map snd (vb_versions b)) = Some e \<and>
    map_of (vb_versions b) (last (sort (map fst (vb_versions b)))) = Some e"
proof -
  let ?ks = "sort (map fst (vb_versions b))"
  obtain w es where es: "map snd (vb_versions b) = w # es"
    using assms by (cases "vb_versions b") (auto simp: bucket_ok_def)
  obtain e where e: "e \<in> set (w # es)" "foldl better (Some w) es = Some e"
    "\<forall>x\<in>set (w # es). ve_version x \<le> ve_version e" using better_foldl by blast
  have v: "ve_version x = k" if "(k, x) \<in> set (vb_versions b)" for k x
    using assms that by (auto simp: bucket_ok_def)
  from e(1) es obtain k where k: "(k, e) \<in> set (vb_versions b)"
    by (metis (no_types, lifting) in_set_conv_nth length_map nth_map surjective_pairing nth_mem)
  have ne: "?ks \<noteq> []" using es by (metis list.distinct(1) map_is_Nil_conv set_empty set_sort)
  have "last ?ks = k"
  proof (rule antisym)
    have "last ?ks \<in> set (map fst (vb_versions b))" using last_in_set [OF ne] by simp
    then obtain x where "(last ?ks, x) \<in> set (vb_versions b)" by auto
    then have "x \<in> set (w # es)" "ve_version x = last ?ks" using es v
      by (metis in_set_zipE set_map snd_conv image_eqI, metis)
    with e(3) v [OF k] show "last ?ks \<le> k" by auto
  next
    have "k \<in> set ?ks" using k by force
    then show "k \<le> last ?ks" by (intro sorted_le_last) simp_all
  qed
  with e es k assms show ?thesis
    by (auto simp: bucket_ok_def better_def intro: map_of_is_SomeI)
qed

interpretation registry: agent_version_lookup lookupExact lookupLatest versionsOf versions_ok
proof
  fix x ns n v a assume ok: "versions_ok x"
  show "sorted (versionsOf x ns n) \<and> distinct (versionsOf x ns n)"
    using ok by (auto simp: versionsOf_def versions_ok_def bucket_ok_def split: option.split)
  show "v \<in> set (versionsOf x ns n) \<longleftrightarrow> lookupExact x ns n v \<noteq> None"
  proof (cases "map_of (vx_byKey x) (version_key ns n)")
    case (Some b)
    then show ?thesis
      using map_of_dom_fst [of "vb_versions b" v] by (simp add: versionsOf_def lookupExact_def)
  qed (simp add: versionsOf_def lookupExact_def)
  show "lookupLatest x ns n =
      (if versionsOf x ns n = [] then None else lookupExact x ns n (last (versionsOf x ns n)))"
  proof (cases "map_of (vx_byKey x) (version_key ns n)")
    case (Some b)
    with ok have b: "bucket_ok b" by (simp add: versions_ok_def)
    then have "sort (map fst (vb_versions b)) \<noteq> []"
      by (metis bucket_ok_def map_is_Nil_conv set_empty set_sort)
    with latest_entry [OF b] Some show ?thesis
      by (auto simp: lookupLatest_def versionsOf_def lookupExact_def)
  qed (simp add: lookupLatest_def versionsOf_def)
  show "lookupExact x ns n v = Some a \<Longrightarrow> resolveAgentVersion a = v"
    using ok by (fastforce simp: lookupExact_def versions_ok_def bucket_ok_def
        split: option.splits dest: map_of_SomeD)
qed

section \<open>Properties\<close>

datatype agent_event = AgentAdded versioned_agent | AgentDeleted versioned_agent

fun registry_step :: "version_index \<Rightarrow> agent_event \<Rightarrow> version_index" where
  "registry_step ix (AgentAdded a) = fst (onAdd ix a)"
| "registry_step ix (AgentDeleted a) = fst (onDelete ix a)"

fun map_step ::
  "(string \<times> string \<Rightarrow> versioned_agent option) \<Rightarrow> agent_event \<Rightarrow> (string \<times> string \<Rightarrow> versioned_agent option)"
where
  "map_step m (AgentAdded a) = (case agent_key a of None \<Rightarrow> m | Some kv \<Rightarrow> m(kv \<mapsto> a))"
| "map_step m (AgentDeleted a) = (case agent_key a of None \<Rightarrow> m | Some kv \<Rightarrow> m(kv := None))"

lemma registry_run:
  "versions_ok ix \<Longrightarrow>
    versions_ok (foldl registry_step ix evs) \<and> vmap (foldl registry_step ix evs) = foldl map_step (vmap ix) evs"
proof (induction evs arbitrary: ix)
  case (Cons ev evs)
  have "versions_ok (registry_step ix ev)" "vmap (registry_step ix ev) = map_step (vmap ix) ev"
    using Cons.prems by (cases ev; simp add: onAdd_ok onDelete_ok onAdd_vmap onDelete_vmap)+
  with Cons.IH show ?case by simp
qed simp

lemma empty_versions_ok: "versions_ok empty_versions"
  by (simp add: versions_ok_def empty_versions_def)

lemma vmap_empty: "vmap empty_versions = Map.empty"
  by (rule ext) (auto simp: vmap_def empty_versions_def)

text \<open>
  The registry is a finite map: after any history of informer events an exact lookup returns
  what the last event for that name and version left, the latest is the lexically greatest
  version present, and the versions listed are exactly those present, in order.
\<close>

theorem registry_refines_map:
  defines "ix evs \<equiv> foldl registry_step empty_versions evs"
    and "m evs \<equiv> foldl map_step Map.empty evs"
  shows "lookupExact (ix evs) ns n v = m evs (version_key ns n, v) \<and>
    versionsOf (ix evs) ns n = sorted_list_of_set {v. m evs (version_key ns n, v) \<noteq> None} \<and>
    lookupLatest (ix evs) ns n =
      (if {v. m evs (version_key ns n, v) \<noteq> None} = {} then None
       else m evs (version_key ns n, Max {v. m evs (version_key ns n, v) \<noteq> None}))"
proof -
  have ok: "versions_ok (ix evs)" and vm: "vmap (ix evs) = m evs"
    using registry_run [OF empty_versions_ok, of evs] by (simp_all add: ix_def m_def vmap_empty)
  have ex: "lookupExact (ix evs) ns n v = m evs (version_key ns n, v)" for v
    by (simp add: lookupExact_vmap vm)
  have st: "set (versionsOf (ix evs) ns n) = {v. m evs (version_key ns n, v) \<noteq> None}"
    using registry.versions_exact [OF ok, of _ ns n] ex by auto
  have vs: "versionsOf (ix evs) ns n = sorted_list_of_set {v. m evs (version_key ns n, v) \<noteq> None}"
    using registry.versions_sorted [OF ok, of ns n] st
    by (metis sorted_list_of_set.idem_if_sorted_distinct)
  have "last (versionsOf (ix evs) ns n) = Max (set (versionsOf (ix evs) ns n))"
    if ne: "versionsOf (ix evs) ns n \<noteq> []"
    using registry.versions_sorted [OF ok, of ns n] ne
    by (intro Max_eqI [symmetric]) (auto intro: sorted_le_last)
  then show ?thesis
    using registry.latest_last [OF ok, of ns n] ex st vs by auto
qed

text \<open>
  Admission pins what dispatch will find: when the latest version of an agent is pinned on a
  new task, the exact lookup of the pin returns that agent, and no registered version of the
  agent is lexically greater; a pin that is there already is kept.
\<close>

theorem pin_then_dispatch:
  assumes "lookupLatest (foldl registry_step empty_versions evs) ns n = Some a"
  shows "(tk_agentVersion task = None \<longrightarrow>
       lookupExact (foldl registry_step empty_versions evs) ns n (fst (pinAgentVersion task a)) = Some a \<and>
       (\<forall>v. lookupExact (foldl registry_step empty_versions evs) ns n v \<noteq> None \<longrightarrow>
          v \<le> fst (pinAgentVersion task a))) \<and>
    (\<forall>v. tk_agentVersion task = Some v \<and> v \<noteq> [] \<longrightarrow> pinAgentVersion task a = (v, True))"
proof -
  have ok: "versions_ok (foldl registry_step empty_versions evs)"
    using registry_run [OF empty_versions_ok] by blast
  from registry.latest_greatest [OF ok assms] registry.pinned_dispatch [OF ok assms]
  show ?thesis by (auto simp: pinAgentVersion_def)
qed

definition sample_version :: "string \<Rightarrow> versioned_agent" where
  "sample_version v = \<lparr>va_namespace = Some ''ns'', va_name = Some ''a'', va_version = JStr v,
     va_deprecated = None, va_removedAt = None\<rparr>"

definition fresh_task :: agent_task where
  "fresh_task = \<lparr>tk_uid = None, tk_namespace = None, tk_tenantLabel = None,
     tk_targetAgent = None, tk_runConfigTimeout = None, tk_timeoutSeconds = None,
     tk_idempotencyKey = None, tk_agentVersion = None\<rparr>"

theorem pin_then_dispatch_witness:
  "lookupExact (foldl registry_step empty_versions
      [AgentAdded (sample_version ''1.0.0''), AgentAdded (sample_version ''1.1.0'')]) ''ns'' ''a''
     (fst (pinAgentVersion fresh_task (sample_version ''1.1.0''))) = Some (sample_version ''1.1.0'')"
proof -
  have "lookupLatest (foldl registry_step empty_versions
      [AgentAdded (sample_version ''1.0.0''), AgentAdded (sample_version ''1.1.0'')]) ''ns'' ''a'' =
      Some (sample_version ''1.1.0'')"
    by code_simp
  from pin_then_dispatch [OF this, of fresh_task] show ?thesis by (simp add: fresh_task_def)
qed

text \<open>
  New tasks of an agent are refused exactly from its removal time on, whatever its deprecation
  mark; an unparseable removal time never refuses, and before the removal time the agent counts
  as deprecated exactly when its mark reads true.
\<close>

theorem lifecycle_gate:
  "case evaluateAgentLifecycleAtAdmission toISO a now of
     Inl refusal \<Rightarrow> (\<exists>raw ms. va_removedAt a = Some (raw, At ms) \<and> raw \<noteq> [] \<and> ms \<le> now)
   | Inr ev \<Rightarrow> \<not> (\<exists>raw ms. va_removedAt a = Some (raw, At ms) \<and> raw \<noteq> [] \<and> ms \<le> now) \<and>
       (lc_status ev = LDeprecated) = (\<exists>d. va_deprecated a = Some d \<and> map to_lower (js_trim d) = ''true'')"
  by (auto simp: evaluateAgentLifecycleAtAdmission_def evaluateLifecycle_def Let_def
      split: option.splits js_time.splits prod.splits if_splits)

end
