(* ===== verification/ArtifactUri.thy ===== *)
theory ArtifactUri
  imports Prelude
begin

text \<open>
  Artifact references, \<^verbatim>\<open>packages/operator/src/crds/artifact-ref.ts\<close>: building and parsing the
  content-addressed, volume and inline URIs, the reference guard and the inline decision. Scheme
  names and hashes are compared after \<open>toLowerCase\<close>, which is modelled on ASCII; no other
  character lowers to one of theirs.
\<close>

section \<open>Definitions\<close>

definition DEFAULT_ARTIFACT_PVC :: string where
  "DEFAULT_ARTIFACT_PVC = ''kagent-artifacts''"

definition pvcUri :: "string \<Rightarrow> string \<Rightarrow> string option \<Rightarrow> string + string" where
  "pvcUri taskUid name pvc =
     (if taskUid = [] then Inl ''pvcUri: taskUid required''
      else if name = [] then Inl ''pvcUri: name required''
      else if starts_with name ''/'' then Inl (''pvcUri: name must not begin with '' @ [CHR 0x22] @ ''/'' @ [CHR 0x22])
      else if ''..'' \<in> set (js_split CHR ''/'' name) then
        Inl (''pvcUri: name must not contain '' @ [CHR 0x22] @ ''..'' @ [CHR 0x22] @ '' segment'')
      else Inr (''pvc://'' @ js_or pvc DEFAULT_ARTIFACT_PVC @ ''/'' @ taskUid @ ''/'' @ name))"

definition hex_char :: "char \<Rightarrow> bool" where
  "hex_char c \<longleftrightarrow> (let n = of_char c :: nat in (48 \<le> n \<and> n \<le> 57) \<or> (97 \<le> n \<and> n \<le> 102))"

definition SHA256_HEX_RE :: "string \<Rightarrow> bool" where
  "SHA256_HEX_RE h \<longleftrightarrow> length h = 64 \<and> list_all hex_char h"

definition casUri :: "string \<Rightarrow> string \<Rightarrow> string + string" where
  "casUri contentHash name =
     (if contentHash = [] then Inl ''casUri: contentHash required''
      else if name = [] then Inl ''casUri: name required''
      else
        (let hash = map to_lower contentHash in
         if \<not> SHA256_HEX_RE hash then
           Inl (''casUri: contentHash must be a 64-char lowercase sha256 hex string (got ''
                @ string_of_nat (length contentHash) @ '' chars)'')
         else if starts_with name ''/'' then Inl (''casUri: name must not begin with '' @ [CHR 0x22] @ ''/'' @ [CHR 0x22])
         else if ''..'' \<in> set (js_split CHR ''/'' name) then
           Inl (''casUri: name must not contain '' @ [CHR 0x22] @ ''..'' @ [CHR 0x22] @ '' segment'')
         else Inr (''cas://sha256:'' @ hash @ ''/'' @ name)))"

datatype artifact_scheme = PvcScheme | MinioScheme | HttpScheme | HttpsScheme | S3Scheme | InlineScheme

record parsed_artifact_uri =
  pa_scheme :: artifact_scheme
  pa_bucket :: "string option"
  pa_path :: string

text \<open>The cut at \<open>'://'\<close>: the lowered scheme and the remainder, if both are there.\<close>

definition split_scheme :: "string \<Rightarrow> (string \<times> string) option" where
  "split_scheme uri =
     (case js_index_of uri ''://'' of
        None \<Rightarrow> None
      | Some sepIdx \<Rightarrow>
          (if sepIdx = 0 then None
           else
             (let remainder = drop (sepIdx + 3) uri in
              if remainder = [] then None
              else Some (map to_lower (take sepIdx uri), remainder))))"

definition bucket_path :: "artifact_scheme \<Rightarrow> string \<Rightarrow> parsed_artifact_uri option" where
  "bucket_path scheme remainder =
     (case js_index_of remainder ''/'' of
        None \<Rightarrow> None
      | Some slashIdx \<Rightarrow>
          (if slashIdx = 0 then None
           else
             (let path = drop (slashIdx + 1) remainder in
              if path = [] then None
              else Some \<lparr>pa_scheme = scheme, pa_bucket = Some (take slashIdx remainder), pa_path = path\<rparr>)))"

definition http_path :: "artifact_scheme \<Rightarrow> string \<Rightarrow> parsed_artifact_uri option" where
  "http_path scheme remainder =
     Some \<lparr>pa_scheme = scheme, pa_bucket = None,
           pa_path = (case js_index_of remainder ''/'' of None \<Rightarrow> [] | Some i \<Rightarrow> drop (i + 1) remainder)\<rparr>"

definition parseArtifactUri :: "string \<Rightarrow> parsed_artifact_uri option" where
  "parseArtifactUri uri =
     (case split_scheme uri of
        None \<Rightarrow> None
      | Some (scheme, remainder) \<Rightarrow>
          (if scheme = ''pvc'' then bucket_path PvcScheme remainder
           else if scheme = ''s3'' then bucket_path S3Scheme remainder
           else if scheme = ''minio'' then bucket_path MinioScheme remainder
           else if scheme = ''http'' then http_path HttpScheme remainder
           else if scheme = ''https'' then http_path HttpsScheme remainder
           else if scheme = ''inline'' then
             Some \<lparr>pa_scheme = InlineScheme, pa_bucket = None, pa_path = remainder\<rparr>
           else None))"

datatype parsed_uri =
    CasUri string string
  | PvcUri string string string
  | InlineUri string

text \<open>\<open><algo>:<hash>\<close> with the only algorithm, both lowered.\<close>

definition parse_digest :: "string \<Rightarrow> string option" where
  "parse_digest head =
     (case js_index_of head '':'' of
        None \<Rightarrow> None
      | Some colonIdx \<Rightarrow>
          (if colonIdx = 0 then None
           else
             (let hash = map to_lower (drop (colonIdx + 1) head) in
              if map to_lower (take colonIdx head) \<noteq> ''sha256'' then None
              else if \<not> SHA256_HEX_RE hash then None
              else Some hash)))"

definition last_segment :: "string \<Rightarrow> string" where
  "last_segment tail = rev (takeWhile (\<lambda>c. c \<noteq> CHR ''/'') (rev tail))"

definition parse_cas :: "string \<Rightarrow> parsed_uri option" where
  "parse_cas remainder =
     (case js_index_of remainder ''/'' of
        None \<Rightarrow> None
      | Some slashIdx \<Rightarrow>
          (if slashIdx = 0 then None
           else
             (let name = drop (slashIdx + 1) remainder in
              if name = [] then None
              else (case parse_digest (take slashIdx remainder) of
                      None \<Rightarrow> None | Some hash \<Rightarrow> Some (CasUri hash name)))))"

definition parse_pvc :: "string \<Rightarrow> parsed_uri option" where
  "parse_pvc remainder =
     (case js_index_of remainder ''/'' of
        None \<Rightarrow> None
      | Some firstSlash \<Rightarrow>
          (if firstSlash = 0 then None
           else
             (let rest = drop (firstSlash + 1) remainder in
              if rest = [] then None
              else
                (case js_index_of rest ''/'' of
                   None \<Rightarrow> None
                 | Some secondSlash \<Rightarrow>
                     (if secondSlash = 0 then None
                      else
                        (let tail = drop (secondSlash + 1) rest in
                         if tail = [] then None
                         else if last_segment tail = [] then None
                         else Some (PvcUri (take firstSlash remainder) (take secondSlash rest)
                                (last_segment tail))))))))"

definition parseUri :: "string \<Rightarrow> parsed_uri option" where
  "parseUri uri =
     (case split_scheme uri of
        None \<Rightarrow> None
      | Some (scheme, remainder) \<Rightarrow>
          (if scheme = ''cas'' then parse_cas remainder
           else if scheme = ''pvc'' then parse_pvc remainder
           else if scheme = ''inline'' then map_option InlineUri (parse_digest remainder)
           else None))"

section \<open>Guard and inline decision\<close>

definition undefined_or_string :: "json \<Rightarrow> bool" where
  "undefined_or_string v \<longleftrightarrow> (case v of JUndefined \<Rightarrow> True | JStr _ \<Rightarrow> True | _ \<Rightarrow> False)"

definition isArtifactRef :: "json \<Rightarrow> bool" where
  "isArtifactRef value =
     (case value of
        JObj v \<Rightarrow>
          (case obj_get v ''uri'' of JStr u \<Rightarrow> u \<noteq> [] | _ \<Rightarrow> False) \<and>
          undefined_or_string (obj_get v ''mediaType'') \<and>
          (case obj_get v ''sizeBytes'' of
             JUndefined \<Rightarrow> True | JNum (Fin q) \<Rightarrow> 0 \<le> q | _ \<Rightarrow> False) \<and>
          undefined_or_string (obj_get v ''checksum'') \<and>
          undefined_or_string (obj_get v ''name'') \<and>
          undefined_or_string (obj_get v ''producedAt'') \<and>
          undefined_or_string (obj_get v ''contentHash'')
      | _ \<Rightarrow> False)"

definition INLINE_DEFAULT_MAX_BYTES :: nat where
  "INLINE_DEFAULT_MAX_BYTES = 8 * 1024"

definition INLINE_SAFE_MEDIA_TYPES :: "string list" where
  "INLINE_SAFE_MEDIA_TYPES =
     [''text/plain'', ''text/markdown'', ''text/x-diff'', ''text/x-patch'', ''application/json'']"

text \<open>UTF-8 length of the code units the model has.\<close>

definition utf8_length :: "string \<Rightarrow> nat" where
  "utf8_length s = sum_list (map (\<lambda>c. if (of_char c :: nat) < 128 then 1 else 2) s)"

datatype inline_decision = Inline string | ReferenceNeeded

definition inlineSafe :: "string \<Rightarrow> string \<Rightarrow> nat option \<Rightarrow> inline_decision" where
  "inlineSafe content mediaType maxBytes =
     (if map to_lower mediaType \<notin> set INLINE_SAFE_MEDIA_TYPES then ReferenceNeeded
      else if utf8_length content > js_or maxBytes INLINE_DEFAULT_MAX_BYTES then ReferenceNeeded
      else Inline content)"

section \<open>Facts\<close>

lemma js_index_of_char:
  "c \<notin> set xs \<Longrightarrow> js_index_of (xs @ c # ys) [c] = Some (length xs)"
  by (induction xs) auto

lemma js_index_of_char_Some:
  "js_index_of s [c] = Some i \<Longrightarrow> i < length s \<and> s = take i s @ c # drop (Suc i) s \<and> c \<notin> set (take i s)"
proof (induction s arbitrary: i)
  case (Cons x s)
  then show ?case by (cases i) (auto split: if_splits)
qed simp

lemma to_lower_hex: "hex_char c \<Longrightarrow> to_lower c = c"
  by (auto simp: hex_char_def to_lower_def Let_def)

lemma map_to_lower_hex: "list_all hex_char h \<Longrightarrow> map to_lower h = h"
  by (induction h) (auto simp: to_lower_hex)

lemma SHA256_lower: "SHA256_HEX_RE h \<Longrightarrow> map to_lower h = h"
  by (simp add: SHA256_HEX_RE_def map_to_lower_hex)

lemma SHA256_no_slash: "SHA256_HEX_RE h \<Longrightarrow> CHR ''/'' \<notin> set h \<and> h \<noteq> []"
  by (auto simp: SHA256_HEX_RE_def list_all_iff hex_char_def)

lemma parse_digest_build: "SHA256_HEX_RE h \<Longrightarrow> parse_digest (''sha256:'' @ h) = Some h"
  by (simp add: parse_digest_def SHA256_lower to_lower_def)

lemma parse_digest_hex: "parse_digest head = Some h \<Longrightarrow> SHA256_HEX_RE h"
  by (auto simp: parse_digest_def Let_def split: option.splits if_splits)

lemma parse_cas_build:
  assumes "SHA256_HEX_RE h" "n \<noteq> []"
  shows "parse_cas (''sha256:'' @ h @ ''/'' @ n) = Some (CasUri h n)"
proof -
  have "js_index_of ((''sha256:'' @ h) @ CHR ''/'' # n) ''/'' = Some (length (''sha256:'' @ h))"
    using SHA256_no_slash [OF assms(1)] by (intro js_index_of_char) auto
  moreover have "take (length (''sha256:'' @ h)) ((''sha256:'' @ h) @ CHR ''/'' # n) = ''sha256:'' @ h"
    "drop (length (''sha256:'' @ h) + 1) ((''sha256:'' @ h) @ CHR ''/'' # n) = n" by simp_all
  ultimately have "parse_cas ((''sha256:'' @ h) @ CHR ''/'' # n) = Some (CasUri h n)"
    unfolding parse_cas_def using assms parse_digest_build [OF assms(1)]
    by (simp only: option.case Let_def) simp
  then show ?thesis by simp
qed

lemma split_scheme_cas: "r \<noteq> [] \<Longrightarrow> split_scheme (''cas://'' @ r) = Some (''cas'', r)"
  by (simp add: split_scheme_def to_lower_def)

lemma split_scheme_pvc: "r \<noteq> [] \<Longrightarrow> split_scheme (''pvc://'' @ r) = Some (''pvc'', r)"
  by (simp add: split_scheme_def to_lower_def)

lemma parseUri_cas_hex: "parseUri u = Some (CasUri h n) \<Longrightarrow> SHA256_HEX_RE h \<and> n \<noteq> []"
  by (auto simp: parseUri_def parse_cas_def parse_pvc_def Let_def dest: parse_digest_hex
      split: option.splits prod.splits if_splits)

lemma casUri_Inr:
  "casUri c n = Inr u \<longleftrightarrow>
     SHA256_HEX_RE (map to_lower c) \<and> n \<noteq> [] \<and> \<not> starts_with n ''/'' \<and> ''..'' \<notin> set (js_split CHR ''/'' n) \<and>
     u = ''cas://sha256:'' @ map to_lower c @ ''/'' @ n"
  using SHA256_no_slash [of "map to_lower c"] by (auto simp: casUri_def Let_def)

lemma parseUri_build:
  "SHA256_HEX_RE k \<Longrightarrow> x \<noteq> [] \<Longrightarrow> parseUri (''cas://sha256:'' @ k @ ''/'' @ x) = Some (CasUri k x)"
  using split_scheme_cas [of "''sha256:'' @ k @ ''/'' @ x"] parse_cas_build [of k x]
  by (simp add: parseUri_def)

lemma casUri_parse: "casUri c n = Inr u \<Longrightarrow> parseUri u = Some (CasUri (map to_lower c) n)"
  using parseUri_build by (auto simp: casUri_Inr)

section \<open>Properties\<close>

text \<open>
  Content-addressed URIs round-trip: what \<open>casUri\<close> builds parses to the lowered hash and the
  very name, so equal URIs mean equal hash and name; and every content-addressed URI the parser
  accepts, with a name the builder would take, is rebuilt to a URI that parses the same.
\<close>

theorem cas_uri_roundtrip:
  "(casUri c n = Inr u \<longrightarrow> parseUri u = Some (CasUri (map to_lower c) n)) \<and>
   (parseUri v = Some (CasUri h m) \<and> \<not> starts_with m ''/'' \<and> ''..'' \<notin> set (js_split CHR ''/'' m) \<longrightarrow>
      (\<exists>w. casUri h m = Inr w \<and> parseUri w = Some (CasUri h m)))"
proof (intro conjI impI)
  show "parseUri u = Some (CasUri (map to_lower c) n)" if "casUri c n = Inr u"
    using that by (rule casUri_parse)
  assume v: "parseUri v = Some (CasUri h m) \<and> \<not> starts_with m ''/'' \<and> ''..'' \<notin> set (js_split CHR ''/'' m)"
  then have hm: "SHA256_HEX_RE h" "m \<noteq> []" using parseUri_cas_hex by blast+
  then have "casUri h m = Inr (''cas://sha256:'' @ h @ ''/'' @ m)"
    using v SHA256_lower by (simp add: casUri_Inr)
  with parseUri_build [OF hm] show "\<exists>w. casUri h m = Inr w \<and> parseUri w = Some (CasUri h m)" by blast
qed

theorem cas_uri_roundtrip_witness:
  "parseUri (''cas://sha256:'' @ replicate 64 CHR ''a'' @ ''/x/y.md'') =
     Some (CasUri (replicate 64 CHR ''a'') ''x/y.md'')"
proof -
  have "casUri (replicate 64 CHR ''A'') ''x/y.md'' =
      Inr (''cas://sha256:'' @ replicate 64 CHR ''a'' @ ''/x/y.md'')"
    by code_simp
  moreover have "map to_lower (replicate 64 CHR ''A'') = replicate 64 CHR ''a''" by code_simp
  ultimately show ?thesis
    using cas_uri_roundtrip [of "replicate 64 CHR ''A''" "''x/y.md''"
      "''cas://sha256:'' @ replicate 64 CHR ''a'' @ ''/x/y.md''"]
    by (simp only:)
qed

text \<open>
  Volume URIs: for a volume and a task id without slashes the two parsers agree with the
  builder; the legacy parser returns the whole nested name behind the task id, the discriminated
  one its last segment only, so a nested name does not survive the round trip.
\<close>

theorem pvc_uri_parse:
  assumes "pvcUri t n (Some p) = Inr u" "CHR ''/'' \<notin> set p" "CHR ''/'' \<notin> set t" "p \<noteq> []"
  shows "parseArtifactUri u =
      Some \<lparr>pa_scheme = PvcScheme, pa_bucket = Some p, pa_path = t @ ''/'' @ n\<rparr> \<and>
    parseUri u = (if last_segment n = [] then None else Some (PvcUri p t (last_segment n)))"
proof -
  have u: "u = ''pvc://'' @ p @ CHR ''/'' # t @ CHR ''/'' # n" and ne: "t \<noteq> []" "n \<noteq> []"
    using assms(1) by (auto simp: pvcUri_def split: if_splits)
  have i1: "js_index_of (p @ CHR ''/'' # t @ CHR ''/'' # n) ''/'' = Some (length p)"
    by (rule js_index_of_char [OF assms(2)])
  have i2: "js_index_of (t @ CHR ''/'' # n) ''/'' = Some (length t)"
    by (rule js_index_of_char [OF assms(3)])
  have sp: "split_scheme u = Some (''pvc'', p @ CHR ''/'' # t @ CHR ''/'' # n)"
    unfolding u by (rule split_scheme_pvc) simp
  show ?thesis
    using sp i1 i2 ne assms(4)
    by (simp add: parseArtifactUri_def parseUri_def bucket_path_def parse_pvc_def Let_def)
qed

theorem pvc_uri_parse_witness:
  "parseUri ''pvc://v/t/shots/01.png'' = Some (PvcUri ''v'' ''t'' ''01.png'')"
proof -
  have "pvcUri ''t'' ''shots/01.png'' (Some ''v'') = Inr ''pvc://v/t/shots/01.png''"
    by code_simp
  from pvc_uri_parse [OF this] show ?thesis by (simp add: last_segment_def)
qed

text \<open>The parser takes names the builder refuses, a parent segment among them.\<close>

lemma parse_accepts_dotdot:
  "parseUri (''cas://sha256:'' @ replicate 64 CHR ''a'' @ ''/../x'') =
     Some (CasUri (replicate 64 CHR ''a'') ''../x'')"
  by code_simp

end
