(* ===== verification/CasGc.thy ===== *)
theory CasGc
  imports ArtifactUri Idempotency JsNumber
begin

text \<open>
  The collector of content-addressed blobs, \<^verbatim>\<open>packages/operator/src/cas-gc.ts\<close>: the retention
  window, the hashes that unfinished tasks refer to, the directory walk and one sweep. The blob
  tree is an explicit value: the shard directories under the resolved root
  \<open>resolve(mountPath, 'cas', 'sha256')\<close>, each with its entries; \<^term>\<open>None\<close> is a call that throws.
  A path is the shard and the entry under that root. Which \<open>unlinkSync\<close> calls fail is a parameter.
\<close>

section \<open>Retention\<close>

definition MIN_RETENTION_MS :: rat where
  "MIN_RETENTION_MS = 60 * 1000"

definition unit_multiplier :: "char \<Rightarrow> rat option" where
  "unit_multiplier u =
     (if u = CHR ''s'' then Some 1000
      else if u = CHR ''m'' then Some (60 * 1000)
      else if u = CHR ''h'' then Some (60 * 60 * 1000)
      else if u = CHR ''d'' then Some (24 * 60 * 60 * 1000)
      else None)"

definition parseRetention :: "string \<Rightarrow> rat option" where
  "parseRetention raw =
     (let trimmed = js_trim raw in
      if length trimmed < 2 then None
      else
        (case js_Number (butlast trimmed) of
           NonFinite \<Rightarrow> None
         | Fin n \<Rightarrow>
             (if \<not> js_isInteger n \<or> n < 0 then None
              else map_option (\<lambda>k. n * k) (unit_multiplier (to_lower (last trimmed))))))"

section \<open>Reachable hashes\<close>

record gc_task =
  gt_phase :: "phase option"
  gt_outputs :: "output_ref list option"

definition output_hash :: "output_ref \<Rightarrow> string set" where
  "output_hash ref =
     (case parseUri (or_ref ref) of
        Some (CasUri hash _) \<Rightarrow> {hash}
      | Some (InlineUri hash) \<Rightarrow> {hash}
      | _ \<Rightarrow> {})"

definition buildReachabilitySet :: "gc_task list \<Rightarrow> string set" where
  "buildReachabilitySet tasks =
     foldl (\<lambda>reachable task.
        if gt_phase task = Some PhCompleted then reachable
        else foldl (\<lambda>acc ref. acc \<union> output_hash ref) reachable (or_empty (gt_outputs task))) {} tasks"

section \<open>Walk and sweep\<close>

record file_stat =
  fst_isFile :: bool
  fst_mtimeMs :: rat

type_synonym shard_dir = "(string \<times> file_stat option) list"
type_synonym cas_disk = "(string \<times> shard_dir option) list option"

record cas_blob =
  cb_hash :: string
  cb_path :: "string \<times> string"
  cb_mtimeMs :: rat

definition two_hex :: "string \<Rightarrow> bool" where
  "two_hex s \<longleftrightarrow> length s = 2 \<and> list_all hex_char s"

definition ends_with :: "string \<Rightarrow> string \<Rightarrow> bool" where
  "ends_with s p \<longleftrightarrow> drop (length s - length p) s = p"

definition entry_blob :: "string \<Rightarrow> string \<times> file_stat option \<Rightarrow> cas_blob list" where
  "entry_blob shard ent =
     (let (entry, st) = ent; hash = shard @ entry in
      if ends_with entry ''.tmp'' then []
      else if \<not> SHA256_HEX_RE hash then []
      else (case st of
              None \<Rightarrow> []
            | Some s \<Rightarrow>
                (if \<not> fst_isFile s then []
                 else [\<lparr>cb_hash = hash, cb_path = (shard, entry), cb_mtimeMs = fst_mtimeMs s\<rparr>])))"

definition shard_blobs :: "string \<times> shard_dir option \<Rightarrow> cas_blob list" where
  "shard_blobs sd =
     (if \<not> two_hex (fst sd) then []
      else (case snd sd of None \<Rightarrow> [] | Some entries \<Rightarrow> concat (map (entry_blob (fst sd)) entries)))"

definition walkCasBlobs :: "cas_disk \<Rightarrow> cas_blob list" where
  "walkCasBlobs disk =
     (case disk of None \<Rightarrow> [] | Some shards \<Rightarrow> concat (map shard_blobs shards))"

definition unlink :: "cas_disk \<Rightarrow> string \<times> string \<Rightarrow> cas_disk" where
  "unlink disk p =
     map_option (map (\<lambda>(n, d). (n, if n = fst p then map_option (AList.delete (snd p)) d else d))) disk"

record cas_gc_config =
  gc_retentionMs :: rat
  gc_intervalMs :: rat
  gc_dryRun :: bool

record sweep_result =
  sw_scanned :: nat
  sw_reachableSkipped :: nat
  sw_tooFreshSkipped :: nat
  sw_eligible :: nat
  sw_deleted :: nat
  sw_errors :: nat

definition shouldDelete :: "cas_blob \<Rightarrow> string set \<Rightarrow> rat \<Rightarrow> rat \<Rightarrow> bool" where
  "shouldDelete blob reachable now retentionMs =
     (if cb_hash blob \<in> reachable then False else retentionMs \<le> now - cb_mtimeMs blob)"

definition sweep_blob ::
  "cas_gc_config \<Rightarrow> rat \<Rightarrow> (string \<times> string \<Rightarrow> bool) \<Rightarrow> string set \<Rightarrow> cas_disk \<times> sweep_result \<Rightarrow>
   cas_blob \<Rightarrow> cas_disk \<times> sweep_result" where
  "sweep_blob config now unlink_fails reachable st blob =
     (let (disk, r) = st in
      if cb_hash blob \<in> reachable then
        (disk, r\<lparr>sw_reachableSkipped := Suc (sw_reachableSkipped r)\<rparr>)
      else if now - cb_mtimeMs blob < gc_retentionMs config then
        (disk, r\<lparr>sw_tooFreshSkipped := Suc (sw_tooFreshSkipped r)\<rparr>)
      else
        (let r1 = r\<lparr>sw_eligible := Suc (sw_eligible r)\<rparr> in
         if gc_dryRun config then (disk, r1)
         else if unlink_fails (cb_path blob) then (disk, r1\<lparr>sw_errors := Suc (sw_errors r1)\<rparr>)
         else (unlink disk (cb_path blob), r1\<lparr>sw_deleted := Suc (sw_deleted r1)\<rparr>)))"

definition runOnce ::
  "cas_gc_config \<Rightarrow> rat \<Rightarrow> (string \<times> string \<Rightarrow> bool) \<Rightarrow> gc_task list \<Rightarrow> cas_disk \<Rightarrow>
   rat + cas_disk \<times> sweep_result" where
  "runOnce config now unlink_fails tasks disk =
     (if gc_retentionMs config < MIN_RETENTION_MS then Inl (gc_retentionMs config)
      else
        (let reachable = buildReachabilitySet tasks; blobs = walkCasBlobs disk in
         Inr (foldl (sweep_blob config now unlink_fails reachable)
                (disk, \<lparr>sw_scanned = length blobs, sw_reachableSkipped = 0, sw_tooFreshSkipped = 0,
                        sw_eligible = 0, sw_deleted = 0, sw_errors = 0\<rparr>) blobs)))"

text \<open>The controller refuses a short interval; a tick whose sweep throws leaves everything as it is.\<close>

definition startCasGc :: "cas_gc_config \<Rightarrow> rat + cas_gc_config" where
  "startCasGc config =
     (if gc_intervalMs config < MIN_RETENTION_MS then Inl (gc_intervalMs config) else Inr config)"

definition tick ::
  "cas_gc_config \<Rightarrow> rat \<Rightarrow> (string \<times> string \<Rightarrow> bool) \<Rightarrow> gc_task list \<Rightarrow> cas_disk \<Rightarrow> cas_disk" where
  "tick config now unlink_fails tasks disk =
     (case runOnce config now unlink_fails tasks disk of Inl _ \<Rightarrow> disk | Inr (disk', _) \<Rightarrow> disk')"

section \<open>Facts\<close>

definition disk_entry :: "cas_disk \<Rightarrow> string \<Rightarrow> string \<Rightarrow> file_stat option option" where
  "disk_entry disk s e =
     (case disk of
        None \<Rightarrow> None
      | Some shards \<Rightarrow> (case map_of shards s of Some (Some es) \<Rightarrow> map_of es e | _ \<Rightarrow> None))"

text \<open>Names are unique in a directory.\<close>

definition disk_ok :: "cas_disk \<Rightarrow> bool" where
  "disk_ok disk \<longleftrightarrow>
     (case disk of
        None \<Rightarrow> True
      | Some shards \<Rightarrow>
          distinct (map fst shards) \<and>
          list_all (\<lambda>(n, d). case d of None \<Rightarrow> True | Some es \<Rightarrow> distinct (map fst es)) shards)"

lemma disk_entry_unlink:
  "disk_entry (unlink disk p) s e = (if (s, e) = p then None else disk_entry disk s e)"
proof (cases disk)
  case (Some shards)
  obtain n x where p: "p = (n, x)" by (cases p)
  have "map_of (map (\<lambda>(m, d). (m, if m = n then map_option (AList.delete x) d else d)) shards) s =
      map_option (\<lambda>d. if s = n then map_option (AList.delete x) d else d) (map_of shards s)"
    by (induction shards) auto
  then have "disk_entry (unlink disk p) s e =
      (case map_option (\<lambda>d. if s = n then map_option (AList.delete x) d else d) (map_of shards s) of
         Some (Some es) \<Rightarrow> map_of es e | _ \<Rightarrow> None)"
    unfolding disk_entry_def unlink_def Some p option.map(2) option.case fst_conv snd_conv by (simp only:)
  also have "\<dots> = (if (s, e) = p then None else disk_entry disk s e)"
  proof (cases "map_of shards s")
    case (Some d)
    then show ?thesis by (cases d) (auto simp: \<open>disk = _\<close> disk_entry_def p delete_conv')
  qed (simp add: disk_entry_def Some)
  finally show ?thesis .
qed (simp add: disk_entry_def unlink_def)


lemma not_tmp:
  assumes "SHA256_HEX_RE (s @ e)"
  shows "\<not> ends_with e ''.tmp''"
proof
  assume "ends_with e ''.tmp''"
  then have "CHR ''.'' \<in> set e" unfolding ends_with_def by (metis in_set_dropD list.set_intros(1))
  moreover have "\<not> hex_char CHR ''.''" by code_simp
  ultimately show False using assms by (auto simp: SHA256_HEX_RE_def list_all_iff)
qed

lemma entry_blob_iff:
  "b \<in> set (entry_blob s (e, st)) \<longleftrightarrow>
     (\<exists>f. st = Some f \<and> fst_isFile f \<and> SHA256_HEX_RE (s @ e) \<and> \<not> ends_with e ''.tmp'' \<and>
        b = \<lparr>cb_hash = s @ e, cb_path = (s, e), cb_mtimeMs = fst_mtimeMs f\<rparr>)"
  by (cases st) (auto simp: entry_blob_def Let_def)

lemma shard_blobs_iff:
  "b \<in> set (shard_blobs (s, d)) \<longleftrightarrow>
     two_hex s \<and> (\<exists>es e x. d = Some es \<and> (e, x) \<in> set es \<and> b \<in> set (entry_blob s (e, x)))"
  by (cases d) (auto simp: shard_blobs_def)

lemma walk_raw:
  "b \<in> set (walkCasBlobs (Some shards)) \<longleftrightarrow>
     (\<exists>s es e x. (s, Some es) \<in> set shards \<and> (e, x) \<in> set es \<and> two_hex s \<and> b \<in> set (entry_blob s (e, x)))"
proof -
  have "b \<in> set (walkCasBlobs (Some shards)) \<longleftrightarrow> (\<exists>s d. (s, d) \<in> set shards \<and> b \<in> set (shard_blobs (s, d)))"
    by (auto simp: walkCasBlobs_def)
  then show ?thesis unfolding shard_blobs_iff by blast
qed

lemma walk_iff:
  assumes "disk_ok disk"
  shows "b \<in> set (walkCasBlobs disk) \<longleftrightarrow>
    (\<exists>s e f. two_hex s \<and> disk_entry disk s e = Some (Some f) \<and> fst_isFile f \<and> SHA256_HEX_RE (s @ e) \<and>
       \<not> ends_with e ''.tmp'' \<and> b = \<lparr>cb_hash = s @ e, cb_path = (s, e), cb_mtimeMs = fst_mtimeMs f\<rparr>)"
proof (cases disk)
  case (Some shards)
  have d: "distinct (map fst shards)" using assms by (simp add: disk_ok_def Some)
  have de: "distinct (map fst es)" if "(s, Some es) \<in> set shards" for s es
    using assms that by (force simp: disk_ok_def Some list_all_iff)
  have ent: "disk_entry disk s e = Some x \<longleftrightarrow> (\<exists>es. (s, Some es) \<in> set shards \<and> (e, x) \<in> set es)" for s e x
    using d de by (fastforce simp: disk_entry_def Some split: option.splits dest: map_of_SomeD map_of_is_SomeI)
  have "b \<in> set (walkCasBlobs disk) \<longleftrightarrow>
      (\<exists>s es e x. (s, Some es) \<in> set shards \<and> (e, x) \<in> set es \<and> two_hex s \<and> b \<in> set (entry_blob s (e, x)))"
    unfolding Some by (rule walk_raw)
  then show ?thesis unfolding entry_blob_iff ent by blast
qed (simp add: walkCasBlobs_def disk_entry_def)

lemma walk_path: "disk_ok disk \<Longrightarrow> b \<in> set (walkCasBlobs disk) \<Longrightarrow> cb_hash b = fst (cb_path b) @ snd (cb_path b)"
  by (auto simp: walk_iff)

text \<open>One sweep over any list of blobs: what is removed, and the tallies.\<close>

definition removes :: "cas_gc_config \<Rightarrow> rat \<Rightarrow> (string \<times> string \<Rightarrow> bool) \<Rightarrow> string set \<Rightarrow> cas_blob \<Rightarrow> bool" where
  "removes config now unlink_fails reachable b \<longleftrightarrow>
     shouldDelete b reachable now (gc_retentionMs config) \<and> \<not> gc_dryRun config \<and> \<not> unlink_fails (cb_path b)"

lemma sweep_blob_entry:
  "disk_entry (fst (sweep_blob config now fails R st b)) s e =
     (if removes config now fails R b \<and> cb_path b = (s, e) then None else disk_entry (fst st) s e)"
  by (cases st) (auto simp: sweep_blob_def removes_def shouldDelete_def Let_def disk_entry_unlink)

lemma sweep_entries:
  "disk_entry (fst (foldl (sweep_blob config now fails R) st blobs)) s e =
     (if list_ex (\<lambda>b. removes config now fails R b \<and> cb_path b = (s, e)) blobs then None
      else disk_entry (fst st) s e)"
  by (induction blobs arbitrary: st) (auto simp: sweep_blob_entry)

lemma sweep_counts:
  "sw_scanned (snd (foldl (sweep_blob config now fails R) st blobs)) = sw_scanned (snd st) \<and>
   sw_reachableSkipped (snd (foldl (sweep_blob config now fails R) st blobs)) =
     sw_reachableSkipped (snd st) + length (filter (\<lambda>b. cb_hash b \<in> R) blobs) \<and>
   sw_eligible (snd (foldl (sweep_blob config now fails R) st blobs)) =
     sw_eligible (snd st) + length (filter (\<lambda>b. shouldDelete b R now (gc_retentionMs config)) blobs) \<and>
   sw_deleted (snd (foldl (sweep_blob config now fails R) st blobs)) =
     sw_deleted (snd st) + length (filter (removes config now fails R) blobs)"
  by (induction blobs arbitrary: st)
    (auto simp: sweep_blob_def removes_def shouldDelete_def Let_def split: prod.splits if_splits)

lemma sweep_tally:
  "sw_reachableSkipped r + sw_tooFreshSkipped r + sw_eligible r + length blobs =
     (let r' = snd (foldl (sweep_blob config now fails R) (disk, r) blobs) in
      sw_reachableSkipped r' + sw_tooFreshSkipped r' + sw_eligible r') \<and>
   (let r' = snd (foldl (sweep_blob config now fails R) (disk, r) blobs) in
    (if gc_dryRun config then sw_deleted r' + sw_errors r' = sw_deleted r + sw_errors r
     else sw_deleted r' + sw_errors r' + sw_eligible r = sw_eligible r' + sw_deleted r + sw_errors r))"
proof (induction blobs arbitrary: disk r)
  case (Cons b bs)
  obtain d1 r1 where 1: "sweep_blob config now fails R (disk, r) b = (d1, r1)" by fastforce
  have "sw_reachableSkipped r1 + sw_tooFreshSkipped r1 + sw_eligible r1 =
      Suc (sw_reachableSkipped r + sw_tooFreshSkipped r + sw_eligible r) \<and>
    (if gc_dryRun config then sw_deleted r1 + sw_errors r1 = sw_deleted r + sw_errors r
     else sw_deleted r1 + sw_errors r1 + sw_eligible r = sw_eligible r1 + sw_deleted r + sw_errors r)"
    using 1 by (auto simp: sweep_blob_def Let_def split: if_splits)
  with Cons [of r1 d1] show ?case by (auto simp: 1 Let_def split: if_splits)
qed simp

text \<open>What a sweep leaves under a name, from what was there.\<close>

definition swept_entry ::
  "cas_gc_config \<Rightarrow> rat \<Rightarrow> (string \<times> string \<Rightarrow> bool) \<Rightarrow> string set \<Rightarrow> string \<Rightarrow> string \<Rightarrow>
   file_stat option option \<Rightarrow> file_stat option option" where
  "swept_entry config now fails R s e ent =
     (case ent of
        Some (Some f) \<Rightarrow>
          (if fst_isFile f \<and> two_hex s \<and> SHA256_HEX_RE (s @ e) \<and> s @ e \<notin> R \<and>
              gc_retentionMs config \<le> now - fst_mtimeMs f \<and> \<not> gc_dryRun config \<and> \<not> fails (s, e)
           then None else Some (Some f))
      | x \<Rightarrow> x)"

lemma hits_iff:
  assumes "disk_ok disk"
  shows "list_ex (\<lambda>b. removes config now fails R b \<and> cb_path b = (s, e)) (walkCasBlobs disk) \<longleftrightarrow>
    (\<exists>f. disk_entry disk s e = Some (Some f) \<and> fst_isFile f \<and> two_hex s \<and> SHA256_HEX_RE (s @ e) \<and>
       s @ e \<notin> R \<and> gc_retentionMs config \<le> now - fst_mtimeMs f \<and> \<not> gc_dryRun config \<and> \<not> fails (s, e))"
    (is "?l \<longleftrightarrow> ?r")
proof
  assume ?l
  then obtain b where b: "b \<in> set (walkCasBlobs disk)" "removes config now fails R b" "cb_path b = (s, e)"
    by (auto simp: list_ex_iff)
  then show ?r by (auto simp: walk_iff [OF assms] removes_def shouldDelete_def split: if_splits)
next
  assume ?r
  then obtain f where f: "disk_entry disk s e = Some (Some f)" "fst_isFile f" "two_hex s" "SHA256_HEX_RE (s @ e)"
    "s @ e \<notin> R" "gc_retentionMs config \<le> now - fst_mtimeMs f" "\<not> gc_dryRun config" "\<not> fails (s, e)" by blast
  then have "\<lparr>cb_hash = s @ e, cb_path = (s, e), cb_mtimeMs = fst_mtimeMs f\<rparr> \<in> set (walkCasBlobs disk)"
    by (auto simp: walk_iff [OF assms] not_tmp)
  with f show ?l by (force simp: list_ex_iff removes_def shouldDelete_def)
qed

section \<open>Properties of a sweep\<close>

text \<open>
  A sweep changes exactly what it should. With a retention of at least a minute, an entry of
  the blob tree is gone afterwards iff it is a well-formed blob whose hash no unfinished task refers
  to, whose age has reached the retention, in no dry run, with its unlink succeeding; every other
  entry is as before; and the tallies add up: each blob found is reachable, fresh or eligible, and
  outside a dry run each eligible one is deleted or an error.
\<close>

theorem sweep_exact:
  assumes "disk_ok disk" "runOnce config now fails tasks disk = Inr (disk', r)"
  shows "MIN_RETENTION_MS \<le> gc_retentionMs config \<and>
    disk_entry disk' s e = swept_entry config now fails (buildReachabilitySet tasks) s e (disk_entry disk s e) \<and>
    sw_scanned r = sw_reachableSkipped r + sw_tooFreshSkipped r + sw_eligible r \<and>
    sw_deleted r + sw_errors r = (if gc_dryRun config then 0 else sw_eligible r)"
proof -
  define R where "R = buildReachabilitySet tasks"
  define r0 where "r0 = \<lparr>sw_scanned = length (walkCasBlobs disk), sw_reachableSkipped = 0,
    sw_tooFreshSkipped = 0, sw_eligible = 0, sw_deleted = 0, sw_errors = 0\<rparr>"
  have ret: "MIN_RETENTION_MS \<le> gc_retentionMs config"
    and run: "foldl (sweep_blob config now fails R) (disk, r0) (walkCasBlobs disk) = (disk', r)"
    using assms(2) by (auto simp: runOnce_def Let_def R_def r0_def split: if_splits)
  have entry: "disk_entry disk' s e = swept_entry config now fails R s e (disk_entry disk s e)"
    using sweep_entries [of config now fails R "(disk, r0)" "walkCasBlobs disk" s e]
    unfolding run hits_iff [OF assms(1)] fst_conv swept_entry_def
    by (auto split: option.splits)
  have "sw_scanned r = sw_reachableSkipped r + sw_tooFreshSkipped r + sw_eligible r"
    using sweep_tally [of r0 "walkCasBlobs disk" config now fails R disk]
      sweep_counts [of config now fails R "(disk, r0)" "walkCasBlobs disk"]
    unfolding run by (simp add: r0_def Let_def)
  moreover have "sw_deleted r + sw_errors r = (if gc_dryRun config then 0 else sw_eligible r)"
    using sweep_tally [of r0 "walkCasBlobs disk" config now fails R disk]
    unfolding run by (simp add: r0_def Let_def split: if_splits)
  ultimately show ?thesis using ret entry by (simp add: R_def)
qed


definition sample_hash :: string where
  "sample_hash = replicate 64 CHR ''a''"

definition sample_disk :: cas_disk where
  "sample_disk =
     Some [(''aa'', Some [(replicate 62 CHR ''a'', Some \<lparr>fst_isFile = True, fst_mtimeMs = 0\<rparr>),
                          (replicate 62 CHR ''b'', Some \<lparr>fst_isFile = True, fst_mtimeMs = 0\<rparr>)])]"

definition sample_gc_task :: "phase \<Rightarrow> gc_task" where
  "sample_gc_task ph =
     \<lparr>gt_phase = Some ph,
      gt_outputs = Some [\<lparr>or_name = ''report'', or_ref = ''cas://sha256:'' @ sample_hash @ ''/report.md''\<rparr>]\<rparr>"

definition sample_gc_config :: cas_gc_config where
  "sample_gc_config = \<lparr>gc_retentionMs = 60000, gc_intervalMs = 60000, gc_dryRun = False\<rparr>"

text \<open>The blob an unfinished task refers to stays, the other one goes.\<close>

theorem sweep_exact_witness:
  "disk_entry (tick sample_gc_config 60000 (\<lambda>p. False) [sample_gc_task PhFailed] sample_disk)
     ''aa'' (replicate 62 CHR ''a'') = Some (Some \<lparr>fst_isFile = True, fst_mtimeMs = 0\<rparr>) \<and>
   disk_entry (tick sample_gc_config 60000 (\<lambda>p. False) [sample_gc_task PhFailed] sample_disk)
     ''aa'' (replicate 62 CHR ''b'') = None"
proof -
  define d r where "d = tick sample_gc_config 60000 (\<lambda>p. False) [sample_gc_task PhFailed] sample_disk"
    and "r = snd (projr (runOnce sample_gc_config 60000 (\<lambda>p. False) [sample_gc_task PhFailed] sample_disk))"
  have ok: "disk_ok sample_disk" by code_simp
  have run: "runOnce sample_gc_config 60000 (\<lambda>p. False) [sample_gc_task PhFailed] sample_disk = Inr (d, r)"
    unfolding d_def r_def tick_def
    by (simp add: runOnce_def sample_gc_config_def MIN_RETENTION_MS_def Let_def case_prod_unfold)
  have "swept_entry sample_gc_config 60000 (\<lambda>p. False) (buildReachabilitySet [sample_gc_task PhFailed])
      ''aa'' (replicate 62 CHR ''a'') (disk_entry sample_disk ''aa'' (replicate 62 CHR ''a'')) =
      Some (Some \<lparr>fst_isFile = True, fst_mtimeMs = 0\<rparr>)" by code_simp
  moreover have "swept_entry sample_gc_config 60000 (\<lambda>p. False) (buildReachabilitySet [sample_gc_task PhFailed])
      ''aa'' (replicate 62 CHR ''b'') (disk_entry sample_disk ''aa'' (replicate 62 CHR ''b'')) = None" by code_simp
  ultimately show ?thesis
    using sweep_exact [OF ok run, of "''aa''" "replicate 62 CHR ''a''"]
      sweep_exact [OF ok run, of "''aa''" "replicate 62 CHR ''b''"]
    unfolding d_def [symmetric] by simp
qed









section \<open>Reading a retention\<close>

lemma unit_multiplier_seconds:
  assumes "unit_multiplier u = Some k"
  shows "\<exists>m::int. k = of_int m * 1000 \<and> 0 \<le> m"
proof -
  have "k \<in> (\<lambda>m::int. of_int m * 1000) ` {1, 60, 3600, 86400}"
    using assms by (auto simp: unit_multiplier_def split: if_splits)
  then show ?thesis by fastforce
qed

lemma space_no_unit:
  assumes "js_space u"
  shows "unit_multiplier (to_lower u) = None"
proof -
  have all: "list_all (\<lambda>k. unit_multiplier (to_lower (char_of k)) = None) [9, 10, 11, 12, 13, 32, 160 :: nat]"
    by code_simp
  have u: "(of_char u :: nat) \<in> set [9, 10, 11, 12, 13, 32, 160]"
    using assms unfolding js_space_def by simp
  have "unit_multiplier (to_lower (char_of (of_char u :: nat))) = None"
    using all u unfolding list_all_iff by (rule bspec)
  then show ?thesis by simp
qed

text \<open>
  Reading a retention: a decimal number with one unit letter is that many milliseconds, in
  either case of the letter; with any other last character it is refused; and whatever string is
  accepted, the result is a non-negative whole number of seconds.
\<close>

theorem retention_parse:
  assumes "n < 2 ^ 1023"
  shows "parseRetention (string_of_nat n @ [u]) = map_option (\<lambda>k. of_nat n * k) (unit_multiplier (to_lower u)) \<and>
   (case parseRetention raw of None \<Rightarrow> True | Some ms \<Rightarrow> 0 \<le> ms \<and> js_isInteger (ms / 1000))"
proof
  have dig: "js_Number (string_of_nat n) = Fin (of_nat n)"
    using js_Number_digits [OF string_of_nat_decimal radix_value_string_of_nat] js_bounded_nat [OF assms] by simp
  have hd: "\<not> js_space (hd (string_of_nat n))"
    using string_of_nat_decimal [of n] decimal_digit_not by (cases "string_of_nat n") auto
  show "parseRetention (string_of_nat n @ [u]) = map_option (\<lambda>k. of_nat n * k) (unit_multiplier (to_lower u))"
  proof (cases "js_space u")
    case False
    then have "js_trim (string_of_nat n @ [u]) = string_of_nat n @ [u]"
      using hd by (intro js_trim_id) (simp add: hd_append)
    then show ?thesis
      by (simp add: parseRetention_def Let_def dig js_isInteger_def Suc_le_eq not_less_eq_eq [symmetric])
  next
    case True
    have last: "decimal_digit (last (string_of_nat n))"
      using string_of_nat_decimal [of n] by (simp add: list_all_iff)
    have "js_trim (string_of_nat n @ [u]) = js_trim (string_of_nat n)"
      using True hd by (cases "string_of_nat n") (simp_all add: js_trim_def)
    also have "\<dots> = string_of_nat n"
      using hd last decimal_digit_not by (intro js_trim_id) auto
    finally have trim: "js_trim (string_of_nat n @ [u]) = string_of_nat n" .
    have "unit_multiplier (to_lower (last (string_of_nat n))) = None"
      using decimal_digit_not [OF last] by (simp add: unit_multiplier_def)
    then have "parseRetention (string_of_nat n @ [u]) = None"
      unfolding parseRetention_def Let_def trim by (simp split: jsnum.split)
    moreover have "unit_multiplier (to_lower u) = None"
      using True by (rule space_no_unit)
    ultimately show ?thesis by simp
  qed
  show "case parseRetention raw of None \<Rightarrow> True | Some ms \<Rightarrow> 0 \<le> ms \<and> js_isInteger (ms / 1000)"
  proof (cases "parseRetention raw")
    case (Some ms)
    then obtain q k where "js_isInteger q" "0 \<le> q" "unit_multiplier (to_lower (last (js_trim raw))) = Some k" "ms = q * k"
      by (auto simp: parseRetention_def Let_def split: jsnum.splits if_splits)
    moreover from unit_multiplier_seconds [OF this(3)] obtain m :: int where "k = of_int m * 1000" "0 \<le> m"
      by blast
    moreover obtain z where "q = of_int z" using calculation(1) unfolding js_isInteger_def by metis
    ultimately have "ms / 1000 = of_int (z * m)" "0 \<le> ms" by simp_all
    then show ?thesis unfolding Some js_isInteger_def option.case by (simp only: floor_of_int)
  qed simp
qed

text \<open>Composite and signed durations; radix and exponent literals are read as numbers.\<close>

lemma retention_examples:
  "parseRetention ''1d6h'' = None" "parseRetention ''-1d'' = None" "parseRetention '' 7d '' = Some 604800000"
  "parseRetention ''0x10s'' = Some 16000" "parseRetention ''1e3s'' = Some 1000000" "parseRetention ''0d'' = Some 0"
  by code_simp+

end
