(* ===== verification/SseStream.thy ===== *)
theory SseStream
  imports Prelude
begin

text \<open>
  Reading server-sent events: the line reader \<open>sseData\<close> of
  \<^verbatim>\<open>packages/openai-compat/src/stream-assembler.ts\<close> and of
  \<^verbatim>\<open>packages/llm-gateway/src/stream-assembler.ts\<close>, and the event parser of
  \<^verbatim>\<open>packages/openai-compat/src/sse-parser.ts\<close> with \<^verbatim>\<open>stop-reason-map.ts\<close>. A body is the list of
  what its reads return, decoded text or a failure; its end is the end of the list. What
  \<open>JSON.parse\<close> makes of a payload is a parameter. The checks of the abort signal sit around the
  reads, so an abort is one of the failures a read can have.
\<close>

section \<open>Chunks of a streamed completion\<close>

record usage =
  ug_promptTokens :: "rat option"
  ug_completionTokens :: "rat option"
  ug_totalTokens :: "rat option"
  ug_costUsd :: "rat option"

record tool_fragment =
  tf_index :: "nat option"
  tf_id :: "string option"
  tf_name :: "string option"
  tf_args :: "string option"

text \<open>Fields whose type the code tests are JSON values.\<close>

record stream_delta =
  dl_content :: json
  dl_reasoning :: json
  dl_reasoningContent :: json
  dl_toolCalls :: "tool_fragment list option"

record stream_choice =
  sc_delta :: "stream_delta option"
  sc_finishReason :: json

record stream_error =
  er_message :: "string option"
  er_status :: "rat option"
  er_retryAfterSec :: "rat option"

record stream_chunk =
  ck_error :: "stream_error option"
  ck_id :: "string option"
  ck_created :: "rat option"
  ck_model :: "string option"
  ck_usage :: "usage option"
  ck_choices :: "stream_choice list option"

section \<open>Lines\<close>

abbreviation LF :: char where "LF \<equiv> CHR 0x0A"
abbreviation CR :: char where "CR \<equiv> CHR 0x0D"

text \<open>\<open>s.split(/\r?\n/)\<close>.\<close>

function split_lines :: "string \<Rightarrow> string list" where
  "split_lines [] = [[]]"
| "split_lines (c # cs) =
     (if c = LF then [] # split_lines cs
      else if c = CR \<and> cs \<noteq> [] \<and> hd cs = LF then [] # split_lines (tl cs)
      else (case split_lines cs of [] \<Rightarrow> [[c]] | l # ls \<Rightarrow> (c # l) # ls))"
  by pat_completeness auto
termination by (relation "measure length") (auto simp: less_Suc_eq_le)

definition data_payload :: "string \<Rightarrow> string option" where
  "data_payload line =
     (if \<not> starts_with line ''data:'' then None
      else
        (let payload = js_trim (drop 5 line) in
         if payload = [] \<or> payload = ''[DONE]'' then None else Some payload))"

section \<open>The line reader\<close>

datatype sse_read = ReadText string | ReadAborted | ReadBroken

datatype sse_end = SseDone | SseAborted | SseBroken | SseBadJson string

text \<open>The payloads of complete lines, up to the first that is not JSON.\<close>

fun take_lines :: "(string \<Rightarrow> 'a option) \<Rightarrow> string list \<Rightarrow> 'a list \<times> string option" where
  "take_lines parse [] = ([], None)"
| "take_lines parse (line # ls) =
     (case data_payload line of
        None \<Rightarrow> take_lines parse ls
      | Some payload \<Rightarrow>
          (case parse payload of
             None \<Rightarrow> ([], Some payload)
           | Some v \<Rightarrow> (let (vs, bad) = take_lines parse ls in (v # vs, bad))))"

fun sseData :: "(string \<Rightarrow> 'a option) \<Rightarrow> string \<Rightarrow> sse_read list \<Rightarrow> 'a list \<times> sse_end" where
  "sseData parse buffer [] = ([], SseDone)"
| "sseData parse buffer (ReadAborted # rs) = ([], SseAborted)"
| "sseData parse buffer (ReadBroken # rs) = ([], SseBroken)"
| "sseData parse buffer (ReadText v # rs) =
     (let ls = split_lines (buffer @ v); (ys, bad) = take_lines parse (butlast ls) in
      case bad of
        Some payload \<Rightarrow> (ys, SseBadJson payload)
      | None \<Rightarrow> (let (zs, e) = sseData parse (last ls) rs in (ys @ zs, e)))"

text \<open>The reader of the gateway looks at no abort signal: an aborted read is a broken one.\<close>

fun gatewaySseData :: "(string \<Rightarrow> 'a option) \<Rightarrow> string \<Rightarrow> sse_read list \<Rightarrow> 'a list \<times> sse_end" where
  "gatewaySseData parse buffer [] = ([], SseDone)"
| "gatewaySseData parse buffer (ReadAborted # rs) = ([], SseBroken)"
| "gatewaySseData parse buffer (ReadBroken # rs) = ([], SseBroken)"
| "gatewaySseData parse buffer (ReadText v # rs) =
     (let ls = split_lines (buffer @ v); (ys, bad) = take_lines parse (butlast ls) in
      case bad of
        Some payload \<Rightarrow> (ys, SseBadJson payload)
      | None \<Rightarrow> (let (zs, e) = gatewaySseData parse (last ls) rs in (ys @ zs, e)))"

section \<open>The event parser\<close>

datatype stop_reason = EndTurn | ToolUse | MaxTokens | StopSequence

definition mapFinishReason :: "string option \<Rightarrow> stop_reason option" where
  "mapFinishReason finishReason =
     (case finishReason of
        None \<Rightarrow> None
      | Some r \<Rightarrow>
          (if r = ''stop'' then Some EndTurn
           else if r = ''tool_calls'' then Some ToolUse
           else if r = ''function_call'' then Some ToolUse
           else if r = ''length'' then Some MaxTokens
           else if r = ''content_filter'' then Some EndTurn
           else None))"

record chat_usage =
  cu_inputTokens :: "rat option"
  cu_outputTokens :: "rat option"
  cu_costUsd :: "rat option"

record chat_delta =
  cd_content :: "json option"
  cd_toolCalls :: "tool_fragment list option"
  cd_stopReason :: "stop_reason option"
  cd_usage :: "chat_usage option"

definition mapStreamUsage :: "usage \<Rightarrow> chat_usage option" where
  "mapStreamUsage raw =
     (if ug_promptTokens raw = None \<and> ug_completionTokens raw = None then None
      else Some \<lparr>cu_inputTokens = ug_promptTokens raw, cu_outputTokens = ug_completionTokens raw, cu_costUsd = None\<rparr>)"

record sse_state =
  ss_buffer :: string
  ss_pendingCR :: bool
  ss_usage :: "chat_usage option"
  ss_stopReason :: "stop_reason option"

definition buildTerminalDelta :: "sse_state \<Rightarrow> chat_delta list" where
  "buildTerminalDelta st =
     (if ss_usage st = None \<and> ss_stopReason st = None then []
      else [\<lparr>cd_content = None, cd_toolCalls = None, cd_stopReason = ss_stopReason st, cd_usage = ss_usage st\<rparr>])"

text \<open>\<open>incoming.replace(/\r\n/g, '\n').replace(/\r/g, '\n')\<close>.\<close>

fun normalize_newlines :: "string \<Rightarrow> string" where
  "normalize_newlines [] = []"
| "normalize_newlines (c # cs) =
     (if c = CR then (case cs of [] \<Rightarrow> [LF] | d # ds \<Rightarrow> (if d = LF then normalize_newlines cs else LF # normalize_newlines cs))
      else c # normalize_newlines cs)"

text \<open>A carriage return at the end of a read waits for the next one.\<close>

definition incoming_text :: "bool \<Rightarrow> string \<Rightarrow> string \<times> bool" where
  "incoming_text pendingCR value =
     (let incoming = (if pendingCR then CR # value else value) in
      if incoming \<noteq> [] \<and> last incoming = CR then (normalize_newlines (butlast incoming), True)
      else (normalize_newlines incoming, False))"

definition truthy :: "json \<Rightarrow> bool" where
  "truthy j =
     (case j of
        JUndefined \<Rightarrow> False
      | JNull \<Rightarrow> False
      | JBool b \<Rightarrow> b
      | JNum n \<Rightarrow> n \<noteq> Fin 0
      | JStr s \<Rightarrow> s \<noteq> []
      | _ \<Rightarrow> True)"

definition event_data :: "string \<Rightarrow> string option" where
  "event_data event = find (\<lambda>l. starts_with l ''data:'') (js_split LF event)"

text \<open>The delta of a chunk with a choice, and the stop reason it leaves pending.\<close>

definition choice_delta :: "sse_state \<Rightarrow> stream_choice \<Rightarrow> chat_delta \<times> sse_state" where
  "choice_delta st choice =
     (let d = sc_delta choice;
          content = (case d of None \<Rightarrow> JUndefined | Some x \<Rightarrow> dl_content x);
          calls = Option.bind d dl_toolCalls;
          finished = truthy (sc_finishReason choice);
          st1 = (if finished
                 then st\<lparr>ss_stopReason := mapFinishReason
                        (case sc_finishReason choice of JStr r \<Rightarrow> Some r | _ \<Rightarrow> None)\<rparr>
                 else st)
      in (\<lparr>cd_content = (if content = JUndefined \<or> content = JStr [] then None else Some content),
           cd_toolCalls = (if or_empty calls = [] then None else calls),
           cd_stopReason = (if finished then ss_stopReason st1 else None),
           cd_usage = (if finished then ss_usage st1 else None)\<rparr>, st1))"

definition delta_empty :: "chat_delta \<Rightarrow> bool" where
  "delta_empty d \<longleftrightarrow> cd_content d = None \<and> cd_toolCalls d = None \<and> cd_stopReason d = None \<and> cd_usage d = None"

datatype event_outcome = EventOn "chat_delta list" sse_state | EventReturns "chat_delta list" | EventThrows string

definition handle_event :: "(string \<Rightarrow> stream_chunk option) \<Rightarrow> sse_state \<Rightarrow> string \<Rightarrow> event_outcome" where
  "handle_event parse st event =
     (case event_data event of
        None \<Rightarrow> EventOn [] st
      | Some dataLine \<Rightarrow>
          (let payload = js_trim (drop 5 dataLine) in
           if payload = [] then EventOn [] st
           else if payload = ''[DONE]'' then EventReturns (buildTerminalDelta st)
           else
             (case parse payload of
                None \<Rightarrow> EventThrows payload
              | Some chunk \<Rightarrow>
                  (case (or_empty (ck_choices chunk), ck_usage chunk) of
                     ([], Some u) \<Rightarrow> EventOn [] (st\<lparr>ss_usage := mapStreamUsage u\<rparr>)
                   | ([], None) \<Rightarrow> EventOn [] st
                   | (choice # _, _) \<Rightarrow>
                       (let (delta, st1) = choice_delta st choice in
                        EventOn (if delta_empty delta then [] else [delta]) st1)))))"

datatype stream_end = StreamDone | StreamBadJson string | StreamAborted | StreamBroken

datatype drain_outcome = Drained "chat_delta list" sse_state | Finished "chat_delta list" stream_end

text \<open>The inner loop over the events that are complete in the buffer.\<close>

function drain_events :: "(string \<Rightarrow> stream_chunk option) \<Rightarrow> sse_state \<Rightarrow> drain_outcome" where
  "drain_events parse st =
     (case js_index_of (ss_buffer st) [LF, LF] of
        None \<Rightarrow> Drained [] st
      | Some sep \<Rightarrow>
          (case handle_event parse (st\<lparr>ss_buffer := drop (sep + 2) (ss_buffer st)\<rparr>) (take sep (ss_buffer st)) of
             EventReturns ds \<Rightarrow> Finished ds StreamDone
           | EventThrows p \<Rightarrow> Finished [] (StreamBadJson p)
           | EventOn ds st1 \<Rightarrow>
               (case drain_events parse (st1\<lparr>ss_buffer := drop (sep + 2) (ss_buffer st)\<rparr>) of
                  Drained es st2 \<Rightarrow> Drained (ds @ es) st2
                | Finished es e \<Rightarrow> Finished (ds @ es) e)))"
  by pat_completeness auto


lemma js_index_of_bound: "js_index_of s pat = Some k \<Longrightarrow> pat \<noteq> [] \<Longrightarrow> k + length pat \<le> length s"
proof (induction s arbitrary: k)
  case (Cons c cs)
  show ?case
  proof (cases "take (length pat) (c # cs) = pat")
    case True
    then have "min (length (c # cs)) (length pat) = length pat" by (metis length_take)
    with True Cons.prems show ?thesis by simp
  next
    case False
    with Cons.prems obtain j where "js_index_of cs pat = Some j" "k = Suc j" by auto
    with Cons.IH [of j] Cons.prems show ?thesis by simp
  qed
qed simp

termination drain_events
  by (relation "measure (\<lambda>(parse, st). length (ss_buffer st))")
     (auto dest!: js_index_of_bound)

definition parse_start :: sse_state where
  "parse_start = \<lparr>ss_buffer = [], ss_pendingCR = False, ss_usage = None, ss_stopReason = None\<rparr>"

fun parseSSEStream ::
  "(string \<Rightarrow> stream_chunk option) \<Rightarrow> sse_state \<Rightarrow> sse_read list \<Rightarrow> chat_delta list \<times> stream_end" where
  "parseSSEStream parse st [] = (buildTerminalDelta st, StreamDone)"
| "parseSSEStream parse st (ReadAborted # rs) = ([], StreamAborted)"
| "parseSSEStream parse st (ReadBroken # rs) = ([], StreamBroken)"
| "parseSSEStream parse st (ReadText v # rs) =
     (let (text, pending) = incoming_text (ss_pendingCR st) v;
          st1 = st\<lparr>ss_buffer := ss_buffer st @ text, ss_pendingCR := pending\<rparr>
      in case drain_events parse st1 of
           Finished ds e \<Rightarrow> (ds, e)
         | Drained ds st2 \<Rightarrow> (let (es, e) = parseSSEStream parse st2 rs in (ds @ es, e)))"

section \<open>Where the reads cut does not matter: the line reader\<close>

lemma split_lines_not_Nil [simp]: "split_lines s \<noteq> []"
  by (induction s rule: split_lines.induct) (auto split: list.splits)

lemma split_lines_single: "split_lines s = [l] \<Longrightarrow> l = s"
proof (induction s arbitrary: l rule: split_lines.induct)
  case (2 c cs)
  then show ?case by (auto split: if_splits list.splits)
qed simp

text \<open>The unfinished line is all that a later text can touch.\<close>

lemma split_lines_append:
  "split_lines (s @ t) = butlast (split_lines s) @ split_lines (last (split_lines s) @ t)"
proof (induction s rule: split_lines.induct)
  case (2 c cs)
  show ?case
  proof (cases "c = LF \<or> c = CR \<and> cs \<noteq> [] \<and> hd cs = LF")
    case True
    then show ?thesis
    proof
      assume "c = LF"
      with 2 show ?thesis by simp
    next
      assume c: "c = CR \<and> cs \<noteq> [] \<and> hd cs = LF"
      then have "tl (cs @ t) = tl cs @ t" "hd (cs @ t) = LF" by simp_all
      with c 2 show ?thesis by simp
    qed
  next
    case False
    obtain l ls where ls: "split_lines cs = l # ls" by (cases "split_lines cs") auto
    show ?thesis
    proof (cases "ls = []")
      case True
      with ls split_lines_single have "l = cs" by blast
      with True False ls show ?thesis by auto
    next
      case more: False
      then have "cs \<noteq> []" using ls by auto
      with False have "\<not> (c = LF \<or> c = CR \<and> cs @ t \<noteq> [] \<and> hd (cs @ t) = LF)" by simp
      with 2(3) [unfolded ls] False more ls show ?thesis by auto
    qed
  qed
qed simp

lemma take_lines_append:
  "take_lines parse (xs @ ys) =
     (case take_lines parse xs of
        (vs, Some bad) \<Rightarrow> (vs, Some bad)
      | (vs, None) \<Rightarrow> (let (ws, bad) = take_lines parse ys in (vs @ ws, bad)))"
  by (induction xs) (auto split: option.splits prod.splits)

lemma sseData_join:
  "sseData parse buffer (ReadText v # ReadText w # rs) = sseData parse buffer (ReadText (v @ w) # rs)"
proof -
  let ?ls = "split_lines (buffer @ v)"
  have split: "split_lines (buffer @ v @ w) = butlast ?ls @ split_lines (last ?ls @ w)"
    using split_lines_append [of "buffer @ v" w] by simp
  then have "butlast (split_lines (buffer @ v @ w)) = butlast ?ls @ butlast (split_lines (last ?ls @ w))"
    "last (split_lines (buffer @ v @ w)) = last (split_lines (last ?ls @ w))"
    by (simp_all add: butlast_append)
  then show ?thesis
    by (simp add: Let_def take_lines_append split: option.splits prod.splits)
qed

lemma sseData_concat:
  "sseData parse [] (map ReadText vs @ rs) = sseData parse [] (ReadText (concat vs) # rs)"
proof (cases vs)
  case (Cons v ws)
  have "sseData parse b (ReadText v # map ReadText ws @ rs) = sseData parse b (ReadText (v @ concat ws) # rs)" for b v
  proof (induction ws arbitrary: v)
    case (Cons w ws)
    have "sseData parse b (ReadText v # map ReadText (w # ws) @ rs) =
        sseData parse b (ReadText (v @ w) # map ReadText ws @ rs)"
      using sseData_join [of parse b v w "map ReadText ws @ rs"] by (simp del: sseData.simps)
    also have "\<dots> = sseData parse b (ReadText ((v @ w) @ concat ws) # rs)" by (rule Cons.IH)
    finally show ?case by (simp del: sseData.simps)
  qed (simp del: sseData.simps)
  with Cons show ?thesis by (simp del: sseData.simps)
qed (simp add: Let_def)

lemma gateway_reads_alike: "ReadAborted \<notin> set rs \<Longrightarrow> gatewaySseData parse b rs = sseData parse b rs"
  by (induction parse b rs rule: gatewaySseData.induct) (auto simp: Let_def split: option.split prod.split)

section \<open>Where the reads cut does not matter: the event parser\<close>

lemma normalize_append:
  "a = [] \<or> last a \<noteq> CR \<or> b = [] \<or> hd b \<noteq> LF \<Longrightarrow>
     normalize_newlines (a @ b) = normalize_newlines a @ normalize_newlines b"
proof (induction a)
  case (Cons c cs)
  have ih: "normalize_newlines (cs @ b) = normalize_newlines cs @ normalize_newlines b" if "cs \<noteq> []"
    using Cons that by simp
  show ?case
  proof (cases cs)
    case Nil
    with Cons.prems show ?thesis by (cases b) auto
  next
    case (Cons d ds)
    with ih show ?thesis by (cases "d = LF") (simp_all del: normalize_newlines.simps(2) add: normalize_newlines.simps(2) [of c])
  qed
qed simp

lemma incoming_append:
  assumes "incoming_text p v = (t, p1)" "incoming_text p1 w = (u, p2)"
  shows "incoming_text p (v @ w) = (t @ u, p2)"
proof -
  define x where "x = (if p then CR # v else v)"
  have pre: "(if p then CR # (v @ w) else v @ w) = x @ w" by (simp add: x_def)
  show ?thesis
  proof (cases "x \<noteq> [] \<and> last x = CR")
    case True
    then have x: "x @ w = butlast x @ (CR # w)" by (metis append_butlast_last_id append_Cons append_Nil append_assoc)
    have t: "t = normalize_newlines (butlast x)" "p1"
      using assms(1) True by (simp_all add: incoming_text_def x_def [symmetric] Let_def)
    have cut: "normalize_newlines (butlast x @ y) = t @ normalize_newlines y" if "y = [] \<or> hd y = CR" for y
    proof -
      from that have "y = [] \<or> hd y \<noteq> LF" by auto
      then show ?thesis unfolding t(1) by (intro normalize_append) blast
    qed
    have "hd (butlast (CR # w)) = CR" if "butlast (CR # w) \<noteq> []" using that by (cases w) auto
    then show ?thesis
      using assms(2) t(2) cut [of "CR # w"] cut [of "butlast (CR # w)"]
      unfolding incoming_text_def [of p] pre Let_def x
      by (auto simp: incoming_text_def Let_def butlast_append split: if_splits)
  next
    case False
    then have "t = normalize_newlines x" "\<not> p1"
      using assms(1) by (auto simp: incoming_text_def x_def [symmetric] Let_def split: if_splits)
    then show ?thesis
      using assms(2) False normalize_append [of x] unfolding incoming_text_def [of p] pre Let_def
      by (auto simp: incoming_text_def Let_def butlast_append split: if_splits)
  qed
qed

lemma js_index_of_append:
  "js_index_of s pat = Some k \<Longrightarrow> pat \<noteq> [] \<Longrightarrow> js_index_of (s @ t) pat = Some k"
proof (induction s arbitrary: k)
  case (Cons c cs)
  show ?case
  proof (cases "take (length pat) (c # cs) = pat")
    case True
    then have "length pat \<le> length (c # cs)" by (metis length_take min.cobounded1)
    with True have "take (length pat) ((c # cs) @ t) = pat" by (simp del: append_Cons)
    with True Cons.prems show ?thesis by simp
  next
    case False
    with Cons.prems obtain j where j: "js_index_of cs pat = Some j" "k = Suc j" by auto
    have "take (length pat) (c # cs @ t) \<noteq> pat"
    proof
      assume "take (length pat) (c # cs @ t) = pat"
      moreover have "length pat \<le> length (c # cs)" using js_index_of_bound [OF j(1) Cons.prems(2)] by simp
      ultimately have "take (length pat) (c # cs) = pat"
        by (metis append_Cons append_eq_conv_conj diff_is_0_eq take0 take_append append_Nil2)
      with False show False by simp
    qed
    with j Cons.IH [OF j(1) Cons.prems(2)] show ?thesis by simp
  qed
qed simp

text \<open>
  Draining a longer buffer drains the shorter one first; \<open>pend\<close> sets the flag, which the loop
  does not look at.
\<close>

definition with_text :: "sse_state \<Rightarrow> string \<Rightarrow> bool \<Rightarrow> sse_state" where
  "with_text st t p = st\<lparr>ss_buffer := ss_buffer st @ t, ss_pendingCR := p\<rparr>"

lemma handle_event_text:
  "handle_event parse (st\<lparr>ss_buffer := b, ss_pendingCR := q\<rparr>) ev =
     (case handle_event parse st ev of
        EventOn ds st1 \<Rightarrow> EventOn ds (st1\<lparr>ss_buffer := b, ss_pendingCR := q\<rparr>)
      | EventReturns ds \<Rightarrow> EventReturns ds
      | EventThrows e \<Rightarrow> EventThrows e)"
  by (auto simp: handle_event_def choice_delta_def buildTerminalDelta_def Let_def
      split: option.split list.split)

declare drain_events.simps [simp del]

lemma reset_buffer: "st\<lparr>ss_buffer := b, ss_pendingCR := q, ss_buffer := b\<rparr> = st\<lparr>ss_buffer := b, ss_pendingCR := q\<rparr>"
  by (cases st) simp

lemma drain_step:
  "js_index_of (ss_buffer st) [LF, LF] = Some sep \<Longrightarrow>
   drain_events parse st =
     (case handle_event parse st (take sep (ss_buffer st)) of
        EventReturns ds \<Rightarrow> Finished ds StreamDone
      | EventThrows e \<Rightarrow> Finished [] (StreamBadJson e)
      | EventOn ds st1 \<Rightarrow>
          (case drain_events parse (st1\<lparr>ss_buffer := drop (sep + 2) (ss_buffer st), ss_pendingCR := ss_pendingCR st\<rparr>) of
             Drained es st2 \<Rightarrow> Drained (ds @ es) st2
           | Finished es e \<Rightarrow> Finished (ds @ es) e))"
  using handle_event_text [of parse "ss_pendingCR st" "drop (sep + 2) (ss_buffer st)" st "take sep (ss_buffer st)"]
  unfolding drain_events.simps [of parse st] by (simp add: reset_buffer split: event_outcome.split)

lemma drain_with_text:
  "drain_events parse (with_text st t p) =
     (case drain_events parse st of
        Finished ds e \<Rightarrow> Finished ds e
      | Drained ds st1 \<Rightarrow>
          (case drain_events parse (with_text st1 t p) of
             Drained es st2 \<Rightarrow> Drained (ds @ es) st2
           | Finished es e \<Rightarrow> Finished (ds @ es) e))"
proof (induction "length (ss_buffer st)" arbitrary: st rule: less_induct)
  case less
  show ?case
  proof (cases "js_index_of (ss_buffer st) [LF, LF]")
    case None
    then have "drain_events parse st = Drained [] st" by (simp add: drain_events.simps)
    then show ?thesis by (simp split: drain_outcome.split)
  next
    case (Some sep)
    from js_index_of_bound [OF Some] have sep: "sep + 2 \<le> length (ss_buffer st)" by simp
    have idx: "js_index_of (ss_buffer (with_text st t p)) [LF, LF] = Some sep"
      using js_index_of_append [OF Some] by (simp add: with_text_def)
    have buf: "take sep (ss_buffer (with_text st t p)) = take sep (ss_buffer st)"
      "drop (sep + 2) (ss_buffer (with_text st t p)) = drop (sep + 2) (ss_buffer st) @ t"
      "ss_pendingCR (with_text st t p) = p"
      using sep by (simp_all add: with_text_def)
    have ev: "handle_event parse (with_text st t p) e =
        (case handle_event parse st e of
           EventOn ds st1 \<Rightarrow> EventOn ds (st1\<lparr>ss_buffer := ss_buffer st @ t, ss_pendingCR := p\<rparr>)
         | EventReturns ds \<Rightarrow> EventReturns ds | EventThrows e \<Rightarrow> EventThrows e)" for e
      unfolding with_text_def by (rule handle_event_text)
    show ?thesis
    proof (cases "handle_event parse st (take sep (ss_buffer st))")
      case (EventOn ds st1)
      define st2 where "st2 = st1\<lparr>ss_buffer := drop (sep + 2) (ss_buffer st), ss_pendingCR := ss_pendingCR st\<rparr>"
      have "with_text st2 t p = st1\<lparr>ss_buffer := drop (sep + 2) (ss_buffer st) @ t, ss_pendingCR := p\<rparr>"
        by (simp add: with_text_def st2_def)
      then have "drain_events parse (with_text st t p) =
          (case drain_events parse (with_text st2 t p) of
             Drained es st3 \<Rightarrow> Drained (ds @ es) st3 | Finished es e \<Rightarrow> Finished (ds @ es) e)"
        unfolding drain_step [OF idx] buf ev EventOn by simp
      moreover have "length (ss_buffer st2) < length (ss_buffer st)" using sep by (simp add: st2_def)
      note less.hyps [OF this]
      moreover have "drain_events parse st =
          (case drain_events parse st2 of
             Drained es st3 \<Rightarrow> Drained (ds @ es) st3 | Finished es e \<Rightarrow> Finished (ds @ es) e)"
        unfolding drain_step [OF Some] EventOn st2_def by simp
      ultimately show ?thesis by (simp split: drain_outcome.split)
    qed (simp_all add: drain_step [OF idx] drain_step [OF Some] buf ev)
  qed
qed

lemma drain_pending: "drain_events parse st = Drained ds st' \<Longrightarrow> ss_pendingCR st' = ss_pendingCR st"
proof (induction "length (ss_buffer st)" arbitrary: st ds rule: less_induct)
  case less
  show ?case
  proof (cases "js_index_of (ss_buffer st) [LF, LF]")
    case None
    with less.prems show ?thesis by (simp add: drain_events.simps)
  next
    case (Some sep)
    from js_index_of_bound [OF Some] have sep: "sep + 2 \<le> length (ss_buffer st)" by simp
    from less.prems obtain es st1 where
      "drain_events parse (st1\<lparr>ss_buffer := drop (sep + 2) (ss_buffer st), ss_pendingCR := ss_pendingCR st\<rparr>) = Drained es st'"
      unfolding drain_step [OF Some] by (auto split: event_outcome.splits drain_outcome.splits)
    from less.hyps [OF _ this] sep show ?thesis by simp
  qed
qed

lemma parseSSEStream_text:
  "incoming_text (ss_pendingCR st) v = (t, p) \<Longrightarrow>
   parseSSEStream parse st (ReadText v # rs) =
     (case drain_events parse (with_text st t p) of
        Finished ds e \<Rightarrow> (ds, e)
      | Drained ds st2 \<Rightarrow> (let (es, e) = parseSSEStream parse st2 rs in (ds @ es, e)))"
  by (simp add: with_text_def)

lemma parseSSEStream_join:
  "parseSSEStream parse st (ReadText v # ReadText w # rs) = parseSSEStream parse st (ReadText (v @ w) # rs)"
proof -
  obtain t p1 where t: "incoming_text (ss_pendingCR st) v = (t, p1)" by fastforce
  obtain u p2 where u: "incoming_text p1 w = (u, p2)" by fastforce
  have joined: "with_text st (t @ u) p2 = with_text (with_text st t p1) u p2"
    by (simp add: with_text_def)
  have two: "parseSSEStream parse st (ReadText (v @ w) # rs) =
     (case drain_events parse (with_text (with_text st t p1) u p2) of
        Finished ds e \<Rightarrow> (ds, e)
      | Drained ds st2 \<Rightarrow> (let (es, e) = parseSSEStream parse st2 rs in (ds @ es, e)))"
    unfolding parseSSEStream_text [OF incoming_append [OF t u]] joined ..
  show ?thesis
  proof (cases "drain_events parse (with_text st t p1)")
    case (Drained ds st1)
    have "ss_pendingCR st1 = p1" using drain_pending [OF Drained] by (simp add: with_text_def)
    then show ?thesis
      unfolding two drain_with_text [of parse "with_text st t p1"] parseSSEStream_text [OF t] Drained
      using parseSSEStream_text [of st1 w u p2 parse rs] u
      by (simp add: Let_def split: drain_outcome.split prod.split)
  next
    case (Finished ds e)
    then show ?thesis
      unfolding two drain_with_text [of parse "with_text st t p1"] parseSSEStream_text [OF t] by simp
  qed
qed

text \<open>Reads can be joined one by one into a single one, for any reader that ignores one cut.\<close>

lemma reads_concat:
  assumes "\<And>v w rs. reader (ReadText v # ReadText w # rs) = reader (ReadText (v @ w) # rs)"
  shows "reader (ReadText [] # map ReadText vs @ rs) = reader (ReadText (concat vs) # rs)"
proof -
  have "reader (ReadText v # map ReadText vs @ rs) = reader (ReadText (v @ concat vs) # rs)" for v
    by (induction vs arbitrary: v) (simp_all add: assms)
  from this [of "[]"] show ?thesis by simp
qed

lemma parseSSEStream_start: "parseSSEStream parse parse_start (ReadText [] # rs) = parseSSEStream parse parse_start rs"
  by (simp add: parse_start_def incoming_text_def drain_events.simps Let_def)

text \<open>
  C32. How the transport cuts a body is invisible: two sequences of reads with the same text and the
  same ending give the same payloads, deltas and verdict, in the line reader of the agent, in that
  of the gateway and in the event parser, also when a cut falls inside a line, between the two
  characters of a line end or inside an event terminator.
\<close>

theorem sse_chunking_irrelevant:
  assumes "concat vs = concat ws"
  shows "sseData parse [] (map ReadText vs @ rs) = sseData parse [] (map ReadText ws @ rs) \<and>
    (ReadAborted \<notin> set rs \<longrightarrow>
      gatewaySseData parse [] (map ReadText vs @ rs) = gatewaySseData parse [] (map ReadText ws @ rs)) \<and>
    parseSSEStream chunk_of parse_start (map ReadText vs @ rs) =
      parseSSEStream chunk_of parse_start (map ReadText ws @ rs)"
proof (intro conjI impI)
  show a: "sseData parse [] (map ReadText vs @ rs) = sseData parse [] (map ReadText ws @ rs)"
    using sseData_concat [of parse vs rs] sseData_concat [of parse ws rs] assms by simp
  show "gatewaySseData parse [] (map ReadText vs @ rs) = gatewaySseData parse [] (map ReadText ws @ rs)"
    if "ReadAborted \<notin> set rs"
  proof -
    from that have "ReadAborted \<notin> set (map ReadText us @ rs)" for us by auto
    with a show ?thesis by (simp add: gateway_reads_alike)
  qed
  have "parseSSEStream chunk_of parse_start (ReadText [] # map ReadText us @ rs) =
      parseSSEStream chunk_of parse_start (ReadText (concat us) # rs)" for us
    by (rule reads_concat [of "parseSSEStream chunk_of parse_start", OF parseSSEStream_join])
  then show "parseSSEStream chunk_of parse_start (map ReadText vs @ rs) =
      parseSSEStream chunk_of parse_start (map ReadText ws @ rs)"
    unfolding parseSSEStream_start by (simp only: assms)
qed

definition sample_frame :: "string \<Rightarrow> string" where
  "sample_frame payload = ''data: '' @ payload @ [CR, LF, CR, LF]"

theorem sse_chunking_irrelevant_witness:
  "sseData (\<lambda>s. Some s) [] (map ReadText [''data: a'' @ [CR], [LF, CR], LF # ''data: b'' @ [LF], []]) =
   ([''a'', ''b''], SseDone)"
proof -
  have "concat [''data: a'' @ [CR], [LF, CR], LF # ''data: b'' @ [LF], []] =
      concat [sample_frame ''a'' @ ''data: b'' @ [LF]]"
    by (simp add: sample_frame_def)
  from sse_chunking_irrelevant [OF this, of "\<lambda>s. Some s" "[]" "\<lambda>_. None"]
  have "sseData (\<lambda>s. Some s) [] (map ReadText [''data: a'' @ [CR], [LF, CR], LF # ''data: b'' @ [LF], []]) =
      sseData (\<lambda>s. Some s) [] (map ReadText [sample_frame ''a'' @ ''data: b'' @ [LF]])"
    by simp
  also have "\<dots> = ([''a'', ''b''], SseDone)" by code_simp
  finally show ?thesis .
qed

end
