(* ===== verification/StreamAssembler.thy ===== *)
theory StreamAssembler
  imports SseStream
begin

text \<open>
  Assembling a streamed completion: \<open>assembleChatCompletion\<close> of the agent
  (\<^verbatim>\<open>packages/openai-compat/src/stream-assembler.ts\<close>) and of the gateway
  (\<^verbatim>\<open>packages/llm-gateway/src/stream-assembler.ts\<close>), the gateway's in-band reply
  (\<^verbatim>\<open>packages/llm-gateway/src/sse-reply.ts\<close>), and their composition: what an agent
  assembles from a reply that relays a backend's stream. The clock and what the gateway's errors
  say are parameters.
\<close>

section \<open>Tool calls by index\<close>

record tool_slot =
  sl_id :: string
  sl_name :: string
  sl_args :: string

definition empty_slot :: tool_slot where
  "empty_slot = \<lparr>sl_id = [], sl_name = [], sl_args = []\<rparr>"

text \<open>The sparse array of calls: an index that was never touched is a hole.\<close>

type_synonym call_table = "(nat \<times> tool_slot) list"

definition fill_slot :: "tool_fragment \<Rightarrow> tool_slot \<Rightarrow> tool_slot" where
  "fill_slot tc slot =
     \<lparr>sl_id = (case tf_id tc of Some i \<Rightarrow> (if i \<noteq> [] then i else sl_id slot) | None \<Rightarrow> sl_id slot),
      sl_name = sl_name slot @ js_or (tf_name tc) [],
      sl_args = sl_args slot @ js_or (tf_args tc) []\<rparr>"

definition add_fragment :: "call_table \<Rightarrow> tool_fragment \<Rightarrow> call_table" where
  "add_fragment calls tc =
     (let i = js_or (tf_index tc) 0 in
      AList.update i (fill_slot tc (js_or (map_of calls i) empty_slot)) calls)"

record tool_call_wire =
  tw_id :: string
  tw_name :: string
  tw_arguments :: string

definition wire_calls :: "call_table \<Rightarrow> tool_call_wire list" where
  "wire_calls calls =
     map (\<lambda>(i, c). \<lparr>tw_id = sl_id c, tw_name = sl_name c, tw_arguments = sl_args c\<rparr>) (sort_key fst calls)"

text \<open>\<open>typeof v === 'string' ? v : ''\<close>.\<close>

definition text_of :: "json \<Rightarrow> string" where
  "text_of v = (case v of JStr s \<Rightarrow> s | _ \<Rightarrow> [])"

section \<open>The agent's assembler\<close>

record assembly =
  ay_id :: "string option"
  ay_model :: "string option"
  ay_content :: string
  ay_reasoning :: string
  ay_finish :: "string option"
  ay_usage :: "usage option"
  ay_calls :: call_table

definition empty_assembly :: assembly where
  "empty_assembly = \<lparr>ay_id = None, ay_model = None, ay_content = [], ay_reasoning = [], ay_finish = None,
     ay_usage = None, ay_calls = []\<rparr>"

definition add_choice :: "stream_choice \<Rightarrow> assembly \<Rightarrow> assembly" where
  "add_choice choice st =
     (let d = sc_delta choice;
          part = (\<lambda>f. case d of None \<Rightarrow> [] | Some x \<Rightarrow> text_of (f x))
      in st\<lparr>ay_content := ay_content st @ part dl_content,
            ay_reasoning := ay_reasoning st @ part dl_reasoning @ part dl_reasoningContent,
            ay_calls := foldl add_fragment (ay_calls st) (or_empty (Option.bind d dl_toolCalls)),
            ay_finish := (case sc_finishReason choice of JStr r \<Rightarrow> Some r | _ \<Rightarrow> ay_finish st)\<rparr>)"

definition add_chunk :: "stream_chunk \<Rightarrow> assembly \<Rightarrow> assembly" where
  "add_chunk chunk st =
     (let st1 = st\<lparr>ay_id := (case ay_id st of None \<Rightarrow> ck_id chunk | Some i \<Rightarrow> Some i),
                   ay_model := (case ay_model st of None \<Rightarrow> ck_model chunk | Some m \<Rightarrow> Some m),
                   ay_usage := (case ck_usage chunk of None \<Rightarrow> ay_usage st | Some u \<Rightarrow> Some u)\<rparr>
      in case or_empty (ck_choices chunk) of [] \<Rightarrow> st1 | choice # _ \<Rightarrow> add_choice choice st1)"

datatype assembly_error =
    HttpError rat string "string option" "rat option"
  | ProtocolError string

record completion =
  cp_id :: "string option"
  cp_model :: "string option"
  cp_content :: string
  cp_reasoning :: "string option"
  cp_toolCalls :: "tool_call_wire list option"
  cp_finishReason :: string
  cp_usage :: "usage option"

definition finish_assembly :: "assembly \<Rightarrow> assembly_error + completion" where
  "finish_assembly st =
     (case ay_finish st of
        None \<Rightarrow> Inl (ProtocolError ''stream ended without a finish_reason (cut short)'')
      | Some r \<Rightarrow>
          Inr \<lparr>cp_id = ay_id st, cp_model = ay_model st, cp_content = ay_content st,
               cp_reasoning = (if ay_reasoning st \<noteq> [] then Some (ay_reasoning st) else None),
               cp_toolCalls = (if wire_calls (ay_calls st) \<noteq> [] then Some (wire_calls (ay_calls st)) else None),
               cp_finishReason = r, cp_usage = ay_usage st\<rparr>)"

fun assemble_from :: "assembly \<Rightarrow> stream_chunk list \<Rightarrow> assembly_error + completion" where
  "assemble_from st [] = finish_assembly st"
| "assemble_from st (chunk # cs) =
     (case ck_error chunk of
        Some e \<Rightarrow>
          Inl (HttpError (js_or (er_status e) 502) (js_or (er_message e) ''backend reported an error mid-stream'')
                (ay_id st) (er_retryAfterSec e))
      | None \<Rightarrow> assemble_from (add_chunk chunk st) cs)"

definition assembleChatCompletion :: "stream_chunk list \<Rightarrow> assembly_error + completion" where
  "assembleChatCompletion chunks = assemble_from empty_assembly chunks"

section \<open>The gateway's assembler\<close>

record gateway_assembly =
  ga_id :: string
  ga_created :: rat
  ga_model :: string
  ga_content :: string
  ga_reasoning :: string
  ga_finish :: "string option"
  ga_usage :: "usage option"
  ga_calls :: call_table

definition gateway_choice :: "stream_choice \<Rightarrow> gateway_assembly \<Rightarrow> gateway_assembly" where
  "gateway_choice choice st =
     (let d = sc_delta choice;
          part = (\<lambda>f. case d of None \<Rightarrow> [] | Some x \<Rightarrow> text_of (f x))
      in st\<lparr>ga_content := ga_content st @ part dl_content,
            ga_reasoning := ga_reasoning st @ part dl_reasoning @ part dl_reasoningContent,
            ga_calls := foldl add_fragment (ga_calls st) (or_empty (Option.bind d dl_toolCalls)),
            ga_finish := (case sc_finishReason choice of JStr r \<Rightarrow> Some r | _ \<Rightarrow> ga_finish st)\<rparr>)"

definition gateway_chunk :: "stream_chunk \<Rightarrow> gateway_assembly \<Rightarrow> gateway_assembly" where
  "gateway_chunk chunk st =
     (let st1 = st\<lparr>ga_id := (if ga_id st = [] then js_or (ck_id chunk) [] else ga_id st),
                   ga_created := js_or (ck_created chunk) (ga_created st),
                   ga_model := (if ga_model st = [] then js_or (ck_model chunk) [] else ga_model st),
                   ga_usage := (case ck_usage chunk of None \<Rightarrow> ga_usage st | Some u \<Rightarrow> Some u)\<rparr>
      in case or_empty (ck_choices chunk) of [] \<Rightarrow> st1 | choice # _ \<Rightarrow> gateway_choice choice st1)"

text \<open>A message as the gateway keeps it; a backend that ignored \<open>stream\<close> may send any content.\<close>

record reply_message =
  rm_content :: json
  rm_reasoning :: "string option"
  rm_toolCalls :: "tool_call_wire list option"

record gateway_completion =
  gc_id :: string
  gc_created :: rat
  gc_model :: string
  gc_choice :: "(reply_message \<times> string option) option"
  gc_usage :: usage

definition zero_usage :: usage where
  "zero_usage = \<lparr>ug_promptTokens = Some 0, ug_completionTokens = Some 0, ug_totalTokens = Some 0,
     ug_costUsd = None\<rparr>"

definition finish_gateway :: "gateway_assembly \<Rightarrow> string + gateway_completion" where
  "finish_gateway st =
     (case ga_finish st of
        None \<Rightarrow> Inl ''backend stream ended without a finish_reason''
      | Some r \<Rightarrow>
          Inr \<lparr>gc_id = ga_id st, gc_created = ga_created st, gc_model = ga_model st,
               gc_choice = Some
                 (\<lparr>rm_content = JStr (ga_content st),
                   rm_reasoning = (if ga_reasoning st \<noteq> [] then Some (ga_reasoning st) else None),
                   rm_toolCalls = (if wire_calls (ga_calls st) \<noteq> [] then Some (wire_calls (ga_calls st)) else None)\<rparr>,
                  Some r),
               gc_usage = js_or (ga_usage st) zero_usage\<rparr>)"

fun gateway_from :: "gateway_assembly \<Rightarrow> stream_chunk list \<Rightarrow> string + gateway_completion" where
  "gateway_from st [] = finish_gateway st"
| "gateway_from st (chunk # cs) =
     (case ck_error chunk of
        Some e \<Rightarrow> Inl (''backend reported mid-stream: '' @ js_or (er_message e) ''error'')
      | None \<Rightarrow> gateway_from (gateway_chunk chunk st) cs)"

definition gatewayAssembleChatCompletion :: "rat \<Rightarrow> stream_chunk list \<Rightarrow> string + gateway_completion" where
  "gatewayAssembleChatCompletion nowSec chunks =
     gateway_from \<lparr>ga_id = [], ga_created = nowSec, ga_model = [], ga_content = [], ga_reasoning = [],
       ga_finish = None, ga_usage = None, ga_calls = []\<rparr> chunks"

section \<open>The gateway's reply\<close>

text \<open>A whole call becomes one fragment, numbered by its place.\<close>

definition whole_fragment :: "nat \<Rightarrow> tool_call_wire \<Rightarrow> tool_fragment" where
  "whole_fragment i tc =
     \<lparr>tf_index = Some i, tf_id = Some (tw_id tc), tf_name = Some (tw_name tc), tf_args = Some (tw_arguments tc)\<rparr>"

definition reply_delta :: "reply_message \<Rightarrow> stream_delta" where
  "reply_delta m =
     \<lparr>dl_content = rm_content m,
      dl_reasoning = (case rm_reasoning m of None \<Rightarrow> JUndefined | Some r \<Rightarrow> JStr r),
      dl_reasoningContent = JUndefined,
      dl_toolCalls = map_option (\<lambda>cs. map2 whole_fragment [0..<length cs] cs) (rm_toolCalls m)\<rparr>"

definition no_message :: reply_message where
  "no_message = \<lparr>rm_content = JUndefined, rm_reasoning = None, rm_toolCalls = None\<rparr>"

definition head_chunk :: "gateway_completion \<Rightarrow> stream_chunk" where
  "head_chunk r = \<lparr>ck_error = None, ck_id = Some (gc_id r), ck_created = Some (gc_created r),
     ck_model = Some (gc_model r), ck_usage = None, ck_choices = Some []\<rparr>"

definition toChunks :: "gateway_completion \<Rightarrow> stream_chunk list" where
  "toChunks r =
     (let message = (case gc_choice r of None \<Rightarrow> no_message | Some (m, _) \<Rightarrow> m);
          finish = js_or (Option.bind (gc_choice r) snd) ''stop''
      in [(head_chunk r)\<lparr>ck_choices :=
            Some [\<lparr>sc_delta = Some (reply_delta message), sc_finishReason = JStr finish\<rparr>]\<rparr>,
          (head_chunk r)\<lparr>ck_usage := Some (gc_usage r)\<rparr>])"

text \<open>
  What \<open>finish\<close> sends before \<open>[DONE]\<close>: the outcome of a request is its status with a completion,
  or with the message of an error body and a retry hint.
\<close>

datatype gateway_outcome = GatewayOk gateway_completion | GatewayError rat "string option" "rat option"

definition finish_reply :: "gateway_outcome \<Rightarrow> stream_chunk list" where
  "finish_reply outcome =
     (case outcome of
        GatewayOk r \<Rightarrow> toChunks r
      | GatewayError status message retryAfter \<Rightarrow>
          [\<lparr>ck_error = Some \<lparr>er_message = message, er_status = Some status, er_retryAfterSec = retryAfter\<rparr>,
            ck_id = None, ck_created = None, ck_model = None, ck_usage = None, ck_choices = None\<rparr>])"

section \<open>A stream as a whole\<close>

text \<open>What the chunks say when read at once: the specification of both assemblers.\<close>

definition chunk_choice :: "stream_chunk \<Rightarrow> stream_choice option" where
  "chunk_choice ck = (case or_empty (ck_choices ck) of [] \<Rightarrow> None | choice # _ \<Rightarrow> Some choice)"

definition delta_text :: "(stream_delta \<Rightarrow> json) \<Rightarrow> stream_chunk \<Rightarrow> string" where
  "delta_text f ck =
     (case Option.bind (chunk_choice ck) sc_delta of None \<Rightarrow> [] | Some d \<Rightarrow> text_of (f d))"

definition fragments :: "stream_chunk list \<Rightarrow> tool_fragment list" where
  "fragments cks =
     concat (map (\<lambda>ck. or_empty (Option.bind (Option.bind (chunk_choice ck) sc_delta) dl_toolCalls)) cks)"

definition fragment_index :: "tool_fragment \<Rightarrow> nat" where
  "fragment_index tc = js_or (tf_index tc) 0"

definition last_given :: "'a option list \<Rightarrow> 'a option" where
  "last_given vs = foldl (\<lambda>acc v. case v of None \<Rightarrow> acc | Some x \<Rightarrow> Some x) None vs"

definition spec_slot :: "tool_fragment list \<Rightarrow> tool_slot" where
  "spec_slot fs =
     \<lparr>sl_id = js_or (last_given (map (\<lambda>tc. non_empty (tf_id tc)) fs)) [],
      sl_name = concat (map (\<lambda>tc. js_or (tf_name tc) []) fs),
      sl_args = concat (map (\<lambda>tc. js_or (tf_args tc) []) fs)\<rparr>"

definition slot_wire :: "tool_slot \<Rightarrow> tool_call_wire" where
  "slot_wire c = \<lparr>tw_id = sl_id c, tw_name = sl_name c, tw_arguments = sl_args c\<rparr>"

text \<open>One call per index, in the order of the indexes, each from its own fragments alone.\<close>

definition spec_calls :: "tool_fragment list \<Rightarrow> tool_call_wire list" where
  "spec_calls fs =
     map (\<lambda>i. slot_wire (spec_slot (filter (\<lambda>tc. fragment_index tc = i) fs)))
       (sorted_list_of_set (fragment_index ` set fs))"

definition spec_finish :: "stream_chunk list \<Rightarrow> string option" where
  "spec_finish cks =
     last_given (map (\<lambda>ck. case map_option sc_finishReason (chunk_choice ck) of Some (JStr r) \<Rightarrow> Some r | _ \<Rightarrow> None) cks)"

section \<open>Folding fragments\<close>

lemma last_given_snoc: "last_given (vs @ [v]) = (case v of None \<Rightarrow> last_given vs | Some x \<Rightarrow> Some x)"
  by (cases v) (simp_all add: last_given_def)

lemma spec_slot_Nil: "spec_slot [] = empty_slot"
  by (simp add: spec_slot_def empty_slot_def last_given_def)

lemma spec_slot_snoc: "spec_slot (fs @ [tc]) = fill_slot tc (spec_slot fs)"
  by (cases "tf_id tc") (simp_all add: spec_slot_def fill_slot_def last_given_snoc non_empty_def)

text \<open>The table after some fragments: a slot per index seen, holding what its fragments say.\<close>

definition table_of :: "tool_fragment list \<Rightarrow> call_table \<Rightarrow> bool" where
  "table_of fs calls \<longleftrightarrow>
     distinct (map fst calls) \<and> fst ` set calls = fragment_index ` set fs \<and>
     (\<forall>(i, c)\<in>set calls. c = spec_slot (filter (\<lambda>tc. fragment_index tc = i) fs))"

lemma table_lookup:
  assumes "table_of fs calls"
  shows "js_or (map_of calls i) empty_slot = spec_slot (filter (\<lambda>tc. fragment_index tc = i) fs)"
proof (cases "map_of calls i")
  case None
  then have "i \<notin> fragment_index ` set fs" using assms by (auto simp: table_of_def map_of_eq_None_iff)
  then have "filter (\<lambda>tc. fragment_index tc = i) fs = []" by (auto simp: filter_empty_conv)
  with None show ?thesis by (simp add: spec_slot_Nil)
next
  case (Some c)
  then have "(i, c) \<in> set calls" by (rule map_of_SomeD)
  with assms Some show ?thesis by (auto simp: table_of_def)
qed

lemma table_add:
  assumes "table_of fs calls"
  shows "table_of (fs @ [tc]) (add_fragment calls tc)"
proof -
  let ?i = "fragment_index tc"
  have add: "add_fragment calls tc = AList.update ?i (spec_slot (filter (\<lambda>t. fragment_index t = ?i) (fs @ [tc]))) calls"
    using table_lookup [OF assms, of ?i]
    by (simp add: add_fragment_def fragment_index_def [symmetric] Let_def spec_slot_snoc)
  have d: "distinct (map fst (add_fragment calls tc))"
    using assms unfolding add by (simp add: table_of_def distinct_update)
  have "c = spec_slot (filter (\<lambda>t. fragment_index t = i) (fs @ [tc]))" if "(i, c) \<in> set (add_fragment calls tc)" for i c
  proof -
    from d that have "map_of (add_fragment calls tc) i = Some c" by simp
    then show ?thesis
      using assms unfolding add
      by (auto simp: update_conv' table_of_def dest!: map_of_SomeD split: if_splits)
  qed
  moreover have "fst ` set (add_fragment calls tc) = insert ?i (fragment_index ` set fs)"
    using assms unfolding add by (simp add: table_of_def dom_update [simplified dom_map_of_conv_image_fst] dom_map_of_conv_image_fst)
  ultimately show ?thesis using d by (auto simp: table_of_def)
qed

lemma table_fold: "table_of fs calls \<Longrightarrow> table_of (fs @ gs) (foldl add_fragment calls gs)"
proof (induction gs arbitrary: fs calls)
  case (Cons g gs)
  from Cons.IH [OF table_add [OF Cons.prems]] show ?case by simp
qed simp

lemma table_wire:
  assumes "table_of fs calls"
  shows "wire_calls calls = spec_calls fs"
proof -
  have keys: "map fst (sort_key fst calls) = sorted_list_of_set (fragment_index ` set fs)"
  proof (rule sorted_distinct_set_unique)
    show "distinct (map fst (sort_key fst calls))"
      using assms by (simp add: table_of_def distinct_map)
    show "set (map fst (sort_key fst calls)) = set (sorted_list_of_set (fragment_index ` set fs))"
      using assms by (simp add: table_of_def)
  qed simp_all
  have "spec_calls fs = map (\<lambda>p. slot_wire (spec_slot (filter (\<lambda>tc. fragment_index tc = fst p) fs))) (sort_key fst calls)"
    unfolding spec_calls_def keys [symmetric] by (simp add: o_def)
  also have "\<dots> = wire_calls calls"
    using assms unfolding wire_calls_def by (intro map_cong) (auto simp: table_of_def slot_wire_def)
  finally show ?thesis ..
qed

section \<open>What the assemblers keep\<close>

definition first_given :: "'a option list \<Rightarrow> 'a option" where
  "first_given vs = foldl (\<lambda>acc v. case acc of None \<Rightarrow> v | Some x \<Rightarrow> Some x) None vs"

definition spec_reasoning :: "stream_chunk list \<Rightarrow> string" where
  "spec_reasoning cks = concat (map (\<lambda>ck. delta_text dl_reasoning ck @ delta_text dl_reasoningContent ck) cks)"

definition spec_content :: "stream_chunk list \<Rightarrow> string" where
  "spec_content cks = concat (map (delta_text dl_content) cks)"

lemma first_given_snoc: "first_given (vs @ [v]) = (case first_given vs of None \<Rightarrow> v | Some x \<Rightarrow> Some x)"
  by (simp add: first_given_def)

lemmas spec_snoc = last_given_snoc first_given_snoc

lemma spec_content_snoc: "spec_content (cks @ [ck]) = spec_content cks @ delta_text dl_content ck"
  by (simp add: spec_content_def)

lemma spec_reasoning_snoc:
  "spec_reasoning (cks @ [ck]) = spec_reasoning cks @ delta_text dl_reasoning ck @ delta_text dl_reasoningContent ck"
  by (simp add: spec_reasoning_def)

lemma fragments_snoc:
  "fragments (cks @ [ck]) = fragments cks @ or_empty (Option.bind (Option.bind (chunk_choice ck) sc_delta) dl_toolCalls)"
  by (simp add: fragments_def)

lemma spec_finish_snoc:
  "spec_finish (cks @ [ck]) =
     (case map_option sc_finishReason (chunk_choice ck) of Some (JStr r) \<Rightarrow> Some r | _ \<Rightarrow> spec_finish cks)"
  by (simp add: spec_finish_def last_given_snoc split: option.split json.split)

definition agent_sound :: "stream_chunk list \<Rightarrow> assembly \<Rightarrow> bool" where
  "agent_sound cks st \<longleftrightarrow>
     ay_content st = spec_content cks \<and> ay_reasoning st = spec_reasoning cks \<and>
     ay_finish st = spec_finish cks \<and> table_of (fragments cks) (ay_calls st) \<and>
     ay_usage st = last_given (map ck_usage cks) \<and>
     ay_id st = first_given (map ck_id cks) \<and> ay_model st = first_given (map ck_model cks)"

lemma agent_sound_empty: "agent_sound [] empty_assembly"
  by (simp add: agent_sound_def empty_assembly_def spec_content_def spec_reasoning_def spec_finish_def
      last_given_def first_given_def fragments_def table_of_def)

lemma add_chunk_fields:
  "ay_content (add_chunk ck st) = ay_content st @ delta_text dl_content ck"
  "ay_reasoning (add_chunk ck st) =
     ay_reasoning st @ delta_text dl_reasoning ck @ delta_text dl_reasoningContent ck"
  "ay_finish (add_chunk ck st) =
     (case map_option sc_finishReason (chunk_choice ck) of Some (JStr r) \<Rightarrow> Some r | _ \<Rightarrow> ay_finish st)"
  "ay_calls (add_chunk ck st) =
     foldl add_fragment (ay_calls st) (or_empty (Option.bind (Option.bind (chunk_choice ck) sc_delta) dl_toolCalls))"
  "ay_usage (add_chunk ck st) = (case ck_usage ck of None \<Rightarrow> ay_usage st | Some u \<Rightarrow> Some u)"
  "ay_id (add_chunk ck st) = (case ay_id st of None \<Rightarrow> ck_id ck | Some i \<Rightarrow> Some i)"
  "ay_model (add_chunk ck st) = (case ay_model st of None \<Rightarrow> ck_model ck | Some m \<Rightarrow> Some m)"
  by (simp_all add: add_chunk_def add_choice_def chunk_choice_def delta_text_def Let_def split: list.split option.split json.split)

lemma agent_sound_add: "agent_sound cks st \<Longrightarrow> agent_sound (cks @ [ck]) (add_chunk ck st)"
  by (simp add: agent_sound_def add_chunk_fields spec_content_snoc spec_reasoning_snoc spec_finish_snoc fragments_snoc
      spec_snoc table_fold split: option.split json.split)

definition no_error :: "stream_chunk list \<Rightarrow> bool" where
  "no_error cks \<longleftrightarrow> list_all (\<lambda>ck. ck_error ck = None) cks"

lemma agent_prefix:
  assumes "agent_sound done_cks st" "no_error cks"
  shows "\<exists>st'. assemble_from st (cks @ rest) = assemble_from st' rest \<and> agent_sound (done_cks @ cks) st'"
  using assms
proof (induction cks arbitrary: done_cks st)
  case (Cons ck cks)
  from Cons.IH [OF agent_sound_add [OF Cons.prems(1)]] Cons.prems(2) show ?case by (simp add: no_error_def)
qed auto

lemma agent_assembles:
  assumes "no_error cks"
  obtains st where "assembleChatCompletion cks = finish_assembly st" "agent_sound cks st"
  using agent_prefix [OF agent_sound_empty assms, of "[]"] by (auto simp: assembleChatCompletion_def)

definition spec_completion :: "stream_chunk list \<Rightarrow> string \<Rightarrow> completion" where
  "spec_completion cks r =
     \<lparr>cp_id = first_given (map ck_id cks), cp_model = first_given (map ck_model cks),
      cp_content = spec_content cks,
      cp_reasoning = (if spec_reasoning cks \<noteq> [] then Some (spec_reasoning cks) else None),
      cp_toolCalls = (if spec_calls (fragments cks) \<noteq> [] then Some (spec_calls (fragments cks)) else None),
      cp_finishReason = r, cp_usage = last_given (map ck_usage cks)\<rparr>"

lemma agent_completion:
  assumes "no_error cks"
  shows "assembleChatCompletion cks =
    (case spec_finish cks of
       None \<Rightarrow> Inl (ProtocolError ''stream ended without a finish_reason (cut short)'')
     | Some r \<Rightarrow> Inr (spec_completion cks r))"
proof -
  from assms obtain st where st: "assembleChatCompletion cks = finish_assembly st" "agent_sound cks st"
    by (rule agent_assembles)
  have "wire_calls (ay_calls st) = spec_calls (fragments cks)"
    using st(2) by (simp add: agent_sound_def table_wire)
  with st show ?thesis
    by (simp add: finish_assembly_def spec_completion_def agent_sound_def split: option.split)
qed

definition gateway_sound :: "rat \<Rightarrow> stream_chunk list \<Rightarrow> gateway_assembly \<Rightarrow> bool" where
  "gateway_sound nowSec cks st \<longleftrightarrow>
     ga_content st = spec_content cks \<and> ga_reasoning st = spec_reasoning cks \<and>
     ga_finish st = spec_finish cks \<and> table_of (fragments cks) (ga_calls st) \<and>
     ga_usage st = last_given (map ck_usage cks) \<and> ga_created st = js_or (last_given (map ck_created cks)) nowSec"

lemma gateway_chunk_fields:
  "ga_content (gateway_chunk ck st) = ga_content st @ delta_text dl_content ck"
  "ga_reasoning (gateway_chunk ck st) =
     ga_reasoning st @ delta_text dl_reasoning ck @ delta_text dl_reasoningContent ck"
  "ga_finish (gateway_chunk ck st) =
     (case map_option sc_finishReason (chunk_choice ck) of Some (JStr r) \<Rightarrow> Some r | _ \<Rightarrow> ga_finish st)"
  "ga_calls (gateway_chunk ck st) =
     foldl add_fragment (ga_calls st) (or_empty (Option.bind (Option.bind (chunk_choice ck) sc_delta) dl_toolCalls))"
  "ga_usage (gateway_chunk ck st) = (case ck_usage ck of None \<Rightarrow> ga_usage st | Some u \<Rightarrow> Some u)"
  "ga_created (gateway_chunk ck st) = js_or (ck_created ck) (ga_created st)"
  by (simp_all add: gateway_chunk_def gateway_choice_def chunk_choice_def delta_text_def Let_def
      split: list.split option.split json.split)

lemma gateway_sound_add: "gateway_sound now cks st \<Longrightarrow> gateway_sound now (cks @ [ck]) (gateway_chunk ck st)"
  by (simp add: gateway_sound_def gateway_chunk_fields spec_content_snoc spec_reasoning_snoc spec_finish_snoc
      fragments_snoc spec_snoc table_fold split: option.split json.split)

lemma gateway_sound_run:
  assumes "gateway_sound now done_cks st" "no_error cks"
  shows "\<exists>st'. gateway_from st cks = finish_gateway st' \<and> gateway_sound now (done_cks @ cks) st'"
  using assms
proof (induction cks arbitrary: done_cks st)
  case (Cons ck cks)
  from Cons.IH [OF gateway_sound_add [OF Cons.prems(1)]] Cons.prems(2) show ?case by (simp add: no_error_def)
qed auto

definition spec_message :: "stream_chunk list \<Rightarrow> reply_message" where
  "spec_message cks =
     \<lparr>rm_content = JStr (spec_content cks),
      rm_reasoning = (if spec_reasoning cks \<noteq> [] then Some (spec_reasoning cks) else None),
      rm_toolCalls = (if spec_calls (fragments cks) \<noteq> [] then Some (spec_calls (fragments cks)) else None)\<rparr>"

lemma gateway_completes:
  assumes "no_error cks"
  shows "case spec_finish cks of
       None \<Rightarrow> gatewayAssembleChatCompletion now cks = Inl ''backend stream ended without a finish_reason''
     | Some f \<Rightarrow> \<exists>r. gatewayAssembleChatCompletion now cks = Inr r \<and> gc_choice r = Some (spec_message cks, Some f) \<and>
         gc_usage r = js_or (last_given (map ck_usage cks)) zero_usage"
proof -
  have "gateway_sound now [] \<lparr>ga_id = [], ga_created = now, ga_model = [], ga_content = [], ga_reasoning = [],
       ga_finish = None, ga_usage = None, ga_calls = []\<rparr>"
    by (simp add: gateway_sound_def spec_content_def spec_reasoning_def spec_finish_def last_given_def fragments_def table_of_def)
  from gateway_sound_run [OF this assms] obtain st
    where st: "gatewayAssembleChatCompletion now cks = finish_gateway st" "gateway_sound now cks st"
    by (auto simp: gatewayAssembleChatCompletion_def)
  have "wire_calls (ga_calls st) = spec_calls (fragments cks)"
    using st(2) by (simp add: gateway_sound_def table_wire)
  with st show ?thesis
    by (simp add: finish_gateway_def spec_message_def gateway_sound_def split: option.split)
qed

lemma gateway_from_error: "\<not> no_error cks \<Longrightarrow> \<exists>m. gateway_from st cks = Inl m"
  by (induction cks arbitrary: st) (auto simp: no_error_def split: option.split)

lemma assemble_from_error: "\<not> no_error cks \<Longrightarrow> \<exists>e. assemble_from st cks = Inl e"
  by (induction cks arbitrary: st) (auto simp: no_error_def split: option.split)

section \<open>A relayed reply\<close>

lemma fragment_index_whole [simp]: "fragment_index (whole_fragment i c) = i"
  by (simp add: fragment_index_def whole_fragment_def)

lemma whole_index_set: "fragment_index ` set (map2 whole_fragment [0..<length cs] cs) = {0..<length cs}"
proof -
  have "map fragment_index (map2 whole_fragment [0..<length cs] cs) = [0..<length cs]"
    by (rule nth_equalityI) auto
  then show ?thesis by (metis set_map set_upt)
qed

lemma whole_filter:
  "i < length cs \<Longrightarrow>
     filter (\<lambda>tc. fragment_index tc = i) (map2 whole_fragment [0..<length cs] cs) = [whole_fragment i (cs ! i)]"
proof (induction cs rule: rev_induct)
  case (snoc c cs)
  have none: "filter (\<lambda>tc. fragment_index tc = length cs) (map2 whole_fragment [0..<length cs] cs) = []"
  proof (rule filter_False, rule ballI)
    fix tc assume "tc \<in> set (map2 whole_fragment [0..<length cs] cs)"
    then have "fragment_index tc \<in> {0..<length cs}" using whole_index_set [of cs] by blast
    then show "fragment_index tc \<noteq> length cs" by simp
  qed
  show ?case
  proof (cases "i = length cs")
    case True
    with none show ?thesis by simp
  next
    case False
    with snoc show ?thesis by (simp add: nth_append)
  qed
qed simp

lemma whole_slot: "slot_wire (spec_slot [whole_fragment i c]) = c"
  by (cases "tw_id c") (simp_all add: slot_wire_def spec_slot_def whole_fragment_def last_given_def non_empty_def)

lemma whole_calls: "spec_calls (map2 whole_fragment [0..<length cs] cs) = cs"
proof -
  have "spec_calls (map2 whole_fragment [0..<length cs] cs) = map (\<lambda>i. cs ! i) [0..<length cs]"
    unfolding spec_calls_def whole_index_set
    by (simp add: whole_filter whole_slot del: map2_map_map cong: map_cong)
  then show ?thesis by (simp add: map_nth)
qed

lemma toChunks_parts:
  assumes "gc_choice r = Some (m, Some f)"
  shows "no_error (toChunks r)"
    "spec_finish (toChunks r) = Some f"
    "spec_content (toChunks r) = text_of (rm_content m)"
    "spec_reasoning (toChunks r) = js_or (rm_reasoning m) []"
    "fragments (toChunks r) = (case rm_toolCalls m of None \<Rightarrow> [] | Some cs \<Rightarrow> map2 whole_fragment [0..<length cs] cs)"
    "first_given (map ck_id (toChunks r)) = Some (gc_id r)"
    "first_given (map ck_model (toChunks r)) = Some (gc_model r)"
    "last_given (map ck_usage (toChunks r)) = Some (gc_usage r)"
  using assms
  by (simp_all add: toChunks_def head_chunk_def reply_delta_def no_error_def spec_finish_def spec_content_def spec_reasoning_def
      fragments_def delta_text_def chunk_choice_def text_of_def last_given_def first_given_def Let_def split: option.split)

lemma toChunks_completion:
  assumes "gc_choice r = Some (spec_message cks, Some f)"
  shows "assembleChatCompletion (toChunks r) =
    Inr ((spec_completion cks f)\<lparr>cp_id := Some (gc_id r), cp_model := Some (gc_model r), cp_usage := Some (gc_usage r)\<rparr>)"
proof -
  note parts = toChunks_parts [OF assms]
  have words: "spec_content (toChunks r) = spec_content cks" "spec_reasoning (toChunks r) = spec_reasoning cks"
    by (simp_all only: parts) (simp_all add: spec_message_def text_of_def)
  have calls: "spec_calls (fragments (toChunks r)) = spec_calls (fragments cks)"
  proof (cases "spec_calls (fragments cks) = []")
    case True
    moreover have "spec_calls [] = []" by (simp add: spec_calls_def)
    ultimately show ?thesis by (simp add: parts spec_message_def)
  next
    case False
    then show ?thesis by (simp add: parts spec_message_def whole_calls)
  qed
  show ?thesis
    by (simp add: agent_completion [OF parts(1)] parts(2) spec_completion_def words calls parts(6-8))
qed

lemma find_after: "\<forall>c\<in>set pre. \<not> P c \<Longrightarrow> P ck \<Longrightarrow> find P (pre @ ck # post) = Some ck"
  by (induction pre) auto

section \<open>Theorems\<close>

lemma assembled_spec:
  "assembleChatCompletion cks =
     (case find (\<lambda>ck. ck_error ck \<noteq> None) cks of
        None \<Rightarrow>
          (case spec_finish cks of
             None \<Rightarrow> Inl (ProtocolError ''stream ended without a finish_reason (cut short)'')
           | Some r \<Rightarrow> Inr (spec_completion cks r))
      | Some ck \<Rightarrow>
          Inl (HttpError (js_or (er_status (the (ck_error ck))) 502)
                (js_or (er_message (the (ck_error ck))) ''backend reported an error mid-stream'')
                (first_given (map ck_id (takeWhile (\<lambda>c. ck_error c = None) cks)))
                (er_retryAfterSec (the (ck_error ck)))))"
proof (cases "no_error cks")
  case True
  then have "find (\<lambda>ck. ck_error ck \<noteq> None) cks = None" by (auto simp: find_None_iff no_error_def list_all_iff)
  with agent_completion [OF True] show ?thesis by simp
next
  case False
  then have ex: "\<exists>ck\<in>set cks. ck_error ck \<noteq> None" by (auto simp: no_error_def list_all_iff)
  then obtain pre ck post where split: "cks = pre @ ck # post" and ck: "ck_error ck \<noteq> None"
    and pre: "\<forall>c\<in>set pre. \<not> ck_error c \<noteq> None"
    using split_list_first_prop [OF ex] by blast
  from pre have ok: "no_error pre" by (auto simp: no_error_def list_all_iff)
  from ck obtain e where e: "ck_error ck = Some e" by auto
  obtain st where st: "assemble_from empty_assembly (pre @ ck # post) = assemble_from st (ck # post)" "agent_sound pre st"
    using agent_prefix [OF agent_sound_empty ok, of "ck # post"] by auto
  have "find (\<lambda>ck. ck_error ck \<noteq> None) cks = Some ck"
    unfolding split by (rule find_after) (use pre ck in auto)
  moreover have "takeWhile (\<lambda>c. ck_error c = None) cks = pre"
    unfolding split using pre e by (simp add: takeWhile_append2)
  moreover have "ay_id st = first_given (map ck_id pre)" using st(2) by (simp add: agent_sound_def)
  ultimately show ?thesis using st(1) e by (simp add: assembleChatCompletion_def split)
qed

text \<open>
  C20. What the agent makes of a stream does not depend on how the backend cut it into chunks or
  interleaved its tool calls: the content and the reasoning are what the chunks carry, in order;
  there is one tool call for each index seen, in the order of the indexes, whose name and arguments
  are the fragments of that index put together and whose id is the last one given; the usage is the
  last one given. A stream with no finish reason is an error and never a short answer; a stream with
  an error chunk is that error.
\<close>

theorem assembled_by_concatenation:
  "assembleChatCompletion cks =
     (case find (\<lambda>ck. ck_error ck \<noteq> None) cks of
        None \<Rightarrow>
          (case spec_finish cks of
             None \<Rightarrow> Inl (ProtocolError ''stream ended without a finish_reason (cut short)'')
           | Some r \<Rightarrow> Inr (spec_completion cks r))
      | Some ck \<Rightarrow>
          Inl (HttpError (js_or (er_status (the (ck_error ck))) 502)
                (js_or (er_message (the (ck_error ck))) ''backend reported an error mid-stream'')
                (first_given (map ck_id (takeWhile (\<lambda>c. ck_error c = None) cks)))
                (er_retryAfterSec (the (ck_error ck)))))"
  by (rule assembled_spec)

text \<open>
  C19. The gateway is transparent: a stream it can assemble is one the agent could have assembled, and
  what the agent reads from the gateway's reply, under whatever id and model name the gateway puts on
  it, is what it would have read from the backend: the same content, reasoning, tool calls and finish
  reason, and the same usage, or zeros where the backend gave none.
\<close>

theorem relay_transparent:
  assumes "gatewayAssembleChatCompletion now cks = Inr r"
  shows "\<exists>c. assembleChatCompletion cks = Inr c \<and>
     assembleChatCompletion (finish_reply (GatewayOk (r\<lparr>gc_id := i, gc_model := m\<rparr>))) =
       Inr (c\<lparr>cp_id := Some i, cp_model := Some m, cp_usage := Some (js_or (cp_usage c) zero_usage)\<rparr>)"
proof -
  have ok: "no_error cks"
    using assms gateway_from_error [of cks] unfolding gatewayAssembleChatCompletion_def by (metis Inl_Inr_False)
  from gateway_completes [OF ok, of now] assms obtain f where f: "spec_finish cks = Some f"
    and r: "gc_choice r = Some (spec_message cks, Some f)" "gc_usage r = js_or (last_given (map ck_usage cks)) zero_usage"
    by (auto split: option.splits)
  have "gc_choice (r\<lparr>gc_id := i, gc_model := m\<rparr>) = Some (spec_message cks, Some f)" using r(1) by simp
  from toChunks_completion [OF this] r(2) agent_completion [OF ok] f show ?thesis
    by (simp add: finish_reply_def spec_completion_def)
qed

definition sample_chunk :: "stream_delta \<Rightarrow> json \<Rightarrow> stream_chunk" where
  "sample_chunk d f = \<lparr>ck_error = None, ck_id = Some ''c1'', ck_created = Some 9, ck_model = Some ''m'', ck_usage = None,
     ck_choices = Some [\<lparr>sc_delta = Some d, sc_finishReason = f\<rparr>]\<rparr>"

definition sample_delta :: "json \<Rightarrow> tool_fragment list \<Rightarrow> stream_delta" where
  "sample_delta v fs = \<lparr>dl_content = v, dl_reasoning = JUndefined, dl_reasoningContent = JUndefined, dl_toolCalls = Some fs\<rparr>"

definition sample_fragment :: "nat \<Rightarrow> string option \<Rightarrow> string \<Rightarrow> tool_fragment" where
  "sample_fragment i name args =
     \<lparr>tf_index = Some i, tf_id = map_option (\<lambda>n. CHR ''#'' # n) name, tf_name = name, tf_args = Some args\<rparr>"

text \<open>Two calls cut into pieces and interleaved, the second opened first.\<close>

definition sample_stream :: "stream_chunk list" where
  "sample_stream =
     [sample_chunk (sample_delta (JStr ''ok'') [sample_fragment 4 (Some ''b'') ''{'']) JNull,
      sample_chunk (sample_delta JNull [sample_fragment 1 (Some ''a'') ''['', sample_fragment 4 None ''}'']) JNull,
      sample_chunk (sample_delta JNull [sample_fragment 1 None '']'']) (JStr ''tool_calls'')]"

definition sample_calls :: "tool_call_wire list" where
  "sample_calls = [\<lparr>tw_id = ''#a'', tw_name = ''a'', tw_arguments = ''[]''\<rparr>, \<lparr>tw_id = ''#b'', tw_name = ''b'', tw_arguments = ''{}''\<rparr>]"

definition sample_reply :: gateway_completion where
  "sample_reply = \<lparr>gc_id = ''c1'', gc_created = 9, gc_model = ''m'',
     gc_choice = Some (\<lparr>rm_content = JStr ''ok'', rm_reasoning = None, rm_toolCalls = Some sample_calls\<rparr>, Some ''tool_calls''),
     gc_usage = zero_usage\<rparr>"

lemma sample_assembles: "gatewayAssembleChatCompletion 0 sample_stream = Inr sample_reply"
  by code_simp

theorem relay_transparent_witness:
  "\<exists>c. assembleChatCompletion sample_stream = Inr c \<and>
     assembleChatCompletion (finish_reply (GatewayOk (sample_reply\<lparr>gc_id := ''x'', gc_model := ''y''\<rparr>))) =
       Inr (c\<lparr>cp_id := Some ''x'', cp_model := Some ''y'', cp_usage := Some (js_or (cp_usage c) zero_usage)\<rparr>)"
  by (rule relay_transparent [OF sample_assembles])

text \<open>
  The gateway and the agent agree on which streams are whole; and an error the gateway reports in
  the stream, after its status line has gone out, reaches the agent with the status, the message and
  the retry hint it was given.
\<close>

theorem relay_errors:
  "isl (gatewayAssembleChatCompletion now cks) = isl (assembleChatCompletion cks) \<and>
   assembleChatCompletion (finish_reply (GatewayError status message retryAfter)) =
     Inl (HttpError status (js_or message ''backend reported an error mid-stream'') None retryAfter)"
proof
  show "isl (gatewayAssembleChatCompletion now cks) = isl (assembleChatCompletion cks)"
  proof (cases "no_error cks")
    case True
    with gateway_completes [OF True, of now] agent_completion [OF True] show ?thesis
      by (auto split: option.splits)
  next
    case False
    from gateway_from_error [OF this] assemble_from_error [OF this] show ?thesis
      by (metis assembleChatCompletion_def gatewayAssembleChatCompletion_def isl_def)
  qed
qed (simp add: finish_reply_def assembleChatCompletion_def empty_assembly_def)

end
