(* ===== verification/JsonText.thy ===== *)
theory JsonText
  imports JsNumber
begin

text \<open>
  \<open>JSON.stringify\<close> of a JSON value, as the agent loop uses it on tool arguments and tool results.
  How a number is printed is a parameter, \<open>num\<close>. A field that is undefined is left out of its
  object, an undefined entry of an array and a number that is not finite are printed as null.
\<close>

definition hex_char :: "nat \<Rightarrow> char" where
  "hex_char d = char_of (if d < 10 then 48 + d else 87 + d)"

definition escape_char :: "char \<Rightarrow> string" where
  "escape_char c =
     (let n = of_char c :: nat; b = CHR 0x5C in
      if n = 34 \<or> n = 92 then [b, c]
      else if n = 8 then b # ''b''
      else if n = 9 then b # ''t''
      else if n = 10 then b # ''n''
      else if n = 12 then b # ''f''
      else if n = 13 then b # ''r''
      else if n < 32 then b # ''u00'' @ [hex_char (n div 16), hex_char (n mod 16)]
      else [c])"

definition quote_text :: "string \<Rightarrow> string" where
  "quote_text s = [CHR 0x22] @ concat (map escape_char s) @ [CHR 0x22]"

fun json_text :: "(rat \<Rightarrow> string) \<Rightarrow> json \<Rightarrow> string"
and json_items :: "(rat \<Rightarrow> string) \<Rightarrow> json list \<Rightarrow> string list"
and json_entries :: "(rat \<Rightarrow> string) \<Rightarrow> (string \<times> json) list \<Rightarrow> string list"
where
  "json_text num JUndefined = ''null''"
| "json_text num JNull = ''null''"
| "json_text num (JBool b) = (if b then ''true'' else ''false'')"
| "json_text num (JNum n) = (case n of Fin q \<Rightarrow> num q | NonFinite \<Rightarrow> ''null'')"
| "json_text num (JStr s) = quote_text s"
| "json_text num (JArr vs) = ''['' @ js_join '','' (json_items num vs) @ '']''"
| "json_text num (JObj kvs) = ''{'' @ js_join '','' (json_entries num kvs) @ ''}''"
| "json_items num [] = []"
| "json_items num (v # vs) = json_text num v # json_items num vs"
| "json_entries num [] = []"
| "json_entries num ((k, v) # kvs) =
     (if v = JUndefined then json_entries num kvs
      else (quote_text k @ '':'' @ json_text num v) # json_entries num kvs)"

text \<open>\<open>JSON.stringify(v ?? {})\<close>.\<close>

definition args_text :: "(rat \<Rightarrow> string) \<Rightarrow> json \<Rightarrow> string" where
  "args_text num v = (if v = JUndefined \<or> v = JNull then ''{}'' else json_text num v)"

section \<open>Lengths of printed numbers\<close>

lemma string_of_nat_length: "length (string_of_nat n) \<le> Suc (n div 10)"
proof (induction n rule: string_of_nat.induct)
  case (1 n)
  show ?case
  proof (cases "n < 10")
    case False
    with 1 [OF False] show ?thesis by (subst string_of_nat.simps) simp
  qed (subst string_of_nat.simps, simp)
qed

lemma escape_char_nonempty: "0 < length (escape_char c)"
  by (simp add: escape_char_def Let_def)

lemma escape_decimal: "decimal_digit c \<Longrightarrow> escape_char c = [c]"
  by (simp add: decimal_digit_def escape_char_def Let_def)

lemma escape_number: "concat (map escape_char (string_of_nat n)) = string_of_nat n"
proof -
  have "concat (map escape_char s) = s" if "list_all decimal_digit s" for s
    using that by (induction s) (simp_all add: escape_decimal)
  from this [OF string_of_nat_decimal] show ?thesis .
qed

end
