(* ===== verification/Compaction.thy ===== *)
theory Compaction
  imports JsonText
begin

text \<open>
  The conversation of the agent loop and its compaction: \<open>messageChars\<close>,
  \<open>conversationChars\<close> and \<open>compactConversation\<close> of
  \<^verbatim>\<open>packages/agent-loop/src/executor.ts\<close> over the messages of \<^verbatim>\<open>llm-client.ts\<close>. Token counts and
  shares are exact rationals. Compaction works in place and may throw in the middle; what it throws
  is the left part of its result.
\<close>

section \<open>Messages\<close>

datatype role = RSystem | RUser | RAssistant | RTool

record tool_call =
  tc_id :: string
  tc_name :: string
  tc_args :: json

record chat_message =
  cm_role :: role
  cm_content :: string
  cm_toolCalls :: "tool_call list option"
  cm_toolCallId :: "string option"
  cm_name :: "string option"

definition messageChars :: "(rat \<Rightarrow> string) \<Rightarrow> chat_message \<Rightarrow> nat" where
  "messageChars num m =
     length (cm_content m) + 1 +
     (\<Sum>tc\<leftarrow>or_empty (cm_toolCalls m). length (args_text num (tc_args tc)) + length (tc_name tc))"

definition conversationChars :: "(rat \<Rightarrow> string) \<Rightarrow> chat_message list \<Rightarrow> nat" where
  "conversationChars num ms = (\<Sum>m\<leftarrow>ms. messageChars num m)"

section \<open>The policy\<close>

definition COMPACT_AT :: rat where "COMPACT_AT = 6 / 10"
definition COMPACT_TO :: rat where "COMPACT_TO = 45 / 100"
definition KEEP_RECENT_TOOL_RESULTS :: nat where "KEEP_RECENT_TOOL_RESULTS = 6"
definition FIT_AT :: rat where "FIT_AT = 85 / 100"
definition FIT_TO :: rat where "FIT_TO = 75 / 100"
definition DEFAULT_TOKENS_PER_CHAR :: rat where "DEFAULT_TOKENS_PER_CHAR = 1 / 4"
definition COMPACTED_ARGS_KEY :: string where "COMPACTED_ARGS_KEY = ''__compacted''"
definition COMPACT_ARGS_OVER_CHARS :: nat where "COMPACT_ARGS_OVER_CHARS = 200"

record fit_request =
  fr_num :: "rat \<Rightarrow> string"
  fr_window :: rat
  fr_tokensPerChar :: rat
  fr_lastInput :: "rat option"
  fr_schemaChars :: nat
  fr_reserve :: rat

definition estimate :: "fit_request \<Rightarrow> chat_message list \<Rightarrow> rat" where
  "estimate fr ms =
     of_int \<lceil>of_nat (conversationChars (fr_num fr) ms + fr_schemaChars fr) * fr_tokensPerChar fr\<rceil>"

definition fits :: "fit_request \<Rightarrow> rat \<Rightarrow> chat_message list \<Rightarrow> bool" where
  "fits fr share ms \<longleftrightarrow> estimate fr ms + fr_reserve fr \<le> share * fr_window fr"

section \<open>Stubs\<close>

datatype js_throw = TypeError | RangeError

text \<open>
  The length of a call's arguments, and whether they are big. The operator \<open>in\<close> throws on a
  value that is no object.
\<close>

definition args_chars :: "fit_request \<Rightarrow> tool_call \<Rightarrow> nat" where
  "args_chars fr tc = length (args_text (fr_num fr) (tc_args tc))"

definition compacted_in :: "json \<Rightarrow> js_throw + bool" where
  "compacted_in v =
     (case v of
        JUndefined \<Rightarrow> Inr False
      | JNull \<Rightarrow> Inr False
      | JArr vs \<Rightarrow> Inr False
      | JObj kvs \<Rightarrow> Inr (obj_has kvs COMPACTED_ARGS_KEY)
      | _ \<Rightarrow> Inl TypeError)"

definition bigArgs :: "fit_request \<Rightarrow> tool_call \<Rightarrow> js_throw + bool" where
  "bigArgs fr tc =
     (case compacted_in (tc_args tc) of
        Inl e \<Rightarrow> Inl e
      | Inr c \<Rightarrow> Inr (\<not> c \<and> COMPACT_ARGS_OVER_CHARS < args_chars fr tc))"

fun some_big :: "fit_request \<Rightarrow> tool_call list \<Rightarrow> js_throw + bool" where
  "some_big fr [] = Inr False"
| "some_big fr (tc # tcs) =
     (case bigArgs fr tc of Inl e \<Rightarrow> Inl e | Inr True \<Rightarrow> Inr True | Inr False \<Rightarrow> some_big fr tcs)"

definition compacted_mark :: string where "compacted_mark = ''[compacted''"

definition result_stub :: "chat_message \<Rightarrow> string" where
  "result_stub m =
     ''[compacted: an earlier tool result'' @ (case cm_name m of None \<Rightarrow> [] | Some n \<Rightarrow> '' of '' @ n) @ '' ('' @
     string_of_nat (length (cm_content m)) @
     '' chars) was elided to fit the context window. Run the tool again if you still need it.]''"

definition text_stub :: "chat_message \<Rightarrow> string" where
  "text_stub m =
     ''[compacted: earlier assistant text ('' @ string_of_nat (length (cm_content m)) @
     '' chars) was elided to fit the context window.]''"

definition stub_args :: "fit_request \<Rightarrow> tool_call \<Rightarrow> tool_call" where
  "stub_args fr tc =
     (if COMPACT_ARGS_OVER_CHARS < args_chars fr tc
      then tc\<lparr>tc_args := JObj [(COMPACTED_ARGS_KEY, JStr (string_of_nat (args_chars fr tc) @ '' chars of arguments elided''))]\<rparr>
      else tc)"

text \<open>The stub of one message, if it is eligible.\<close>

definition stub_message :: "fit_request \<Rightarrow> bool \<Rightarrow> chat_message \<Rightarrow> js_throw + chat_message option" where
  "stub_message fr alltext m =
     (if cm_role m = RTool then
        (if starts_with (cm_content m) compacted_mark \<or> length (cm_content m) \<le> length (result_stub m) then Inr None
         else Inr (Some (m\<lparr>cm_content := result_stub m\<rparr>)))
      else if cm_role m \<noteq> RAssistant then Inr None
      else
        (case some_big fr (or_empty (cm_toolCalls m)) of
           Inl e \<Rightarrow> Inl e
         | Inr big \<Rightarrow>
             (let prose = alltext \<and> COMPACT_ARGS_OVER_CHARS < length (cm_content m) \<and>
                    \<not> starts_with (cm_content m) compacted_mark
              in if \<not> big \<and> \<not> prose then Inr None
                 else Inr (Some (m\<lparr>cm_content := (if prose then text_stub m else cm_content m),
                                   cm_toolCalls := (if big then map_option (map (stub_args fr)) (cm_toolCalls m)
                                                    else cm_toolCalls m)\<rparr>)))))"

definition stub_at :: "fit_request \<Rightarrow> nat \<Rightarrow> bool \<Rightarrow> chat_message list \<Rightarrow> js_throw + chat_message list option" where
  "stub_at fr i alltext ms =
     (if i < length ms then
        (case stub_message fr alltext (ms ! i) of
           Inl e \<Rightarrow> Inl e
         | Inr None \<Rightarrow> Inr None
         | Inr (Some m) \<Rightarrow> Inr (Some (ms[i := m])))
      else Inr None)"

section \<open>First pass: the largest of the old items\<close>

definition protect_from :: "chat_message list \<Rightarrow> int" where
  "protect_from ms =
     (let tools = filter (\<lambda>i. cm_role (ms ! i) = RTool) [0..<length ms];
          recent = drop (length tools - KEEP_RECENT_TOOL_RESULTS) tools
      in case recent of [] \<Rightarrow> int (length ms) | i # _ \<Rightarrow> int i - 1)"

definition by_size :: "fit_request \<Rightarrow> chat_message list \<Rightarrow> nat \<Rightarrow> nat list" where
  "by_size fr ms n =
     sort_key (\<lambda>i. - int (if i < length ms then messageChars (fr_num fr) (ms ! i) else 0)) [0..<n]"

fun stub_largest ::
    "fit_request \<Rightarrow> nat \<Rightarrow> rat \<Rightarrow> nat list \<Rightarrow> chat_message list \<times> nat \<Rightarrow> js_throw + chat_message list \<times> nat" where
  "stub_largest fr startChars mustRemove [] (ms, n) = Inr (ms, n)"
| "stub_largest fr startChars mustRemove (i # order) (ms, n) =
     (case stub_at fr i False ms of
        Inl e \<Rightarrow> Inl e
      | Inr None \<Rightarrow> stub_largest fr startChars mustRemove order (ms, n)
      | Inr (Some ms') \<Rightarrow>
          (if mustRemove \<le> of_int (int startChars - int (conversationChars (fr_num fr) ms')) \<and>
              estimate fr ms' \<le> COMPACT_TO * fr_window fr
           then Inr (ms', n + 1)
           else stub_largest fr startChars mustRemove order (ms', n + 1)))"

section \<open>Second pass: old text, then whole exchanges\<close>

definition latest_assistant :: "chat_message list \<Rightarrow> nat" where
  "latest_assistant ms =
     (case filter (\<lambda>i. cm_role (ms ! i) = RAssistant) [0..<length ms] of [] \<Rightarrow> 0 | is \<Rightarrow> last is)"

definition after_last_user :: "chat_message list \<Rightarrow> nat \<Rightarrow> nat" where
  "after_last_user ms latest =
     (case filter (\<lambda>i. cm_role (ms ! i) = RUser) [0..<latest] of [] \<Rightarrow> 0 | is \<Rightarrow> last is + 1)"

definition exchange_start :: "chat_message list \<Rightarrow> nat \<Rightarrow> nat \<Rightarrow> nat" where
  "exchange_start ms from before =
     from + length (takeWhile (\<lambda>m. cm_role m \<noteq> RAssistant) (take (before - from) (drop from ms)))"

definition exchange_end :: "chat_message list \<Rightarrow> nat \<Rightarrow> nat" where
  "exchange_end ms start = start + 1 + length (takeWhile (\<lambda>m. cm_role m = RTool) (drop (start + 1) ms))"

text \<open>The state of the closure: the messages, the index of the latest assistant message, the count.\<close>

function drop_exchanges ::
    "fit_request \<Rightarrow> nat \<Rightarrow> nat \<Rightarrow> chat_message list \<times> nat \<times> nat \<Rightarrow> chat_message list \<times> nat \<times> nat" where
  "drop_exchanges fr from before (ms, latest, n) =
     (if fits fr FIT_TO ms then (ms, latest, n)
      else
        (let s = exchange_start ms from before; e = exchange_end ms s in
         if before \<le> s \<or> before < e then (ms, latest, n)
         else drop_exchanges fr from (before - (e - s))
                (take s ms @ drop e ms, latest - (e - s), n + (e - s))))"
  by pat_completeness auto
termination by (relation "measure (\<lambda>(fr, from, before, st). before)") (auto simp: exchange_end_def Let_def)

declare drop_exchanges.simps [simp del]

fun stub_until_fits ::
    "fit_request \<Rightarrow> nat list \<Rightarrow> chat_message list \<times> nat \<Rightarrow> js_throw + chat_message list \<times> nat" where
  "stub_until_fits fr [] (ms, n) = Inr (ms, n)"
| "stub_until_fits fr (i # is) (ms, n) =
     (if fits fr FIT_TO ms then Inr (ms, n)
      else
        (case stub_at fr i True ms of
           Inl e \<Rightarrow> Inl e
         | Inr None \<Rightarrow> stub_until_fits fr is (ms, n)
         | Inr (Some ms') \<Rightarrow> stub_until_fits fr is (ms', n + 1)))"

definition drop_pass :: "fit_request \<Rightarrow> int \<Rightarrow> chat_message list \<times> nat \<Rightarrow> js_throw + chat_message list \<times> nat" where
  "drop_pass fr protectFrom mn =
     (let (ms, n) = mn;
          latest = latest_assistant ms;
          from = after_last_user ms latest;
          (ms1, latest1, n1) = drop_exchanges fr from (nat (min protectFrom (int latest))) (ms, latest, n)
      in case stub_until_fits fr [0..<latest1] (ms1, n1) of
           Inl e \<Rightarrow> Inl e
         | Inr (ms2, n2) \<Rightarrow>
             (let (ms3, latest3, n3) = drop_exchanges fr from latest1 (ms2, latest1, n2) in Inr (ms3, n3)))"

section \<open>Compaction\<close>

definition over :: "fit_request \<Rightarrow> chat_message list \<Rightarrow> rat" where
  "over fr ms = max (estimate fr ms) (js_or (fr_lastInput fr) 0)"

definition stub_pass :: "fit_request \<Rightarrow> int \<Rightarrow> chat_message list \<Rightarrow> js_throw + chat_message list \<times> nat" where
  "stub_pass fr protectFrom ms =
     (if over fr ms \<le> COMPACT_AT * fr_window fr then Inr (ms, 0)
      else if protectFrom < 0 then Inl RangeError
      else stub_largest fr (conversationChars (fr_num fr) ms)
             (max 0 ((over fr ms - COMPACT_TO * fr_window fr) / fr_tokensPerChar fr))
             (by_size fr ms (nat protectFrom)) (ms, 0))"

definition compactConversation :: "fit_request \<Rightarrow> chat_message list \<Rightarrow> js_throw + chat_message list \<times> nat" where
  "compactConversation fr ms =
     (if over fr ms \<le> COMPACT_AT * fr_window fr \<and> fits fr FIT_AT ms then Inr (ms, 0)
      else
        (case stub_pass fr (protect_from ms) ms of
           Inl e \<Rightarrow> Inl e
         | Inr (ms1, n1) \<Rightarrow>
             (if fits fr FIT_AT ms1 then Inr (ms1, n1) else drop_pass fr (protect_from ms) (ms1, n1))))"

section \<open>What a stub keeps\<close>

text \<open>What the backend checks of a message: its role, the ids it calls and the id it answers.\<close>

definition shell :: "chat_message \<Rightarrow> role \<times> string list \<times> string option" where
  "shell m = (cm_role m, map tc_id (or_empty (cm_toolCalls m)), cm_toolCallId m)"

definition is_prompt :: "chat_message \<Rightarrow> bool" where
  "is_prompt m \<longleftrightarrow> cm_role m \<in> {RSystem, RUser}"

lemma stub_args_id [simp]: "tc_id (stub_args fr tc) = tc_id tc" "tc_name (stub_args fr tc) = tc_name tc"
  by (simp_all add: stub_args_def)

lemma stub_args_length: "args_chars fr (stub_args fr tc) \<le> args_chars fr tc"
  "COMPACT_ARGS_OVER_CHARS < args_chars fr tc \<Longrightarrow> args_chars fr (stub_args fr tc) < args_chars fr tc"
proof -
  have "args_chars fr (stub_args fr tc) < args_chars fr tc" if "COMPACT_ARGS_OVER_CHARS < args_chars fr tc"
  proof -
    define k where "k = args_chars fr tc"
    have s: "stub_args fr tc = tc\<lparr>tc_args := JObj [(COMPACTED_ARGS_KEY, JStr (string_of_nat k @ '' chars of arguments elided''))]\<rparr>"
      using that by (simp add: stub_args_def k_def)
    have "args_chars fr (stub_args fr tc) = 44 + length (string_of_nat k)"
      unfolding s by (simp add: args_chars_def args_text_def quote_text_def escape_number COMPACTED_ARGS_KEY_def escape_char_def Let_def)
    with string_of_nat_length [of k] that show ?thesis by (simp add: k_def COMPACT_ARGS_OVER_CHARS_def)
  qed
  then show "COMPACT_ARGS_OVER_CHARS < args_chars fr tc \<Longrightarrow> args_chars fr (stub_args fr tc) < args_chars fr tc"
    "args_chars fr (stub_args fr tc) \<le> args_chars fr tc"
    by (auto simp: stub_args_def)
qed

lemma some_big_witness: "some_big fr tcs = Inr True \<Longrightarrow> \<exists>tc\<in>set tcs. COMPACT_ARGS_OVER_CHARS < args_chars fr tc"
  by (induction tcs) (auto simp: bigArgs_def split: sum.splits bool.splits)

definition call_chars :: "fit_request \<Rightarrow> tool_call \<Rightarrow> nat" where
  "call_chars fr tc = args_chars fr tc + length (tc_name tc)"

lemma messageChars_alt:
  "messageChars (fr_num fr) m = length (cm_content m) + 1 + (\<Sum>tc\<leftarrow>or_empty (cm_toolCalls m). call_chars fr tc)"
  by (simp add: messageChars_def call_chars_def args_chars_def)

lemma stub_calls_le: "(\<Sum>tc\<leftarrow>map (stub_args fr) tcs. call_chars fr tc) \<le> (\<Sum>tc\<leftarrow>tcs. call_chars fr tc)"
  by (induction tcs) (simp_all add: call_chars_def add_mono stub_args_length(1))

lemma stub_calls_less:
  "some_big fr tcs = Inr True \<Longrightarrow> (\<Sum>tc\<leftarrow>map (stub_args fr) tcs. call_chars fr tc) < (\<Sum>tc\<leftarrow>tcs. call_chars fr tc)"
proof (drule some_big_witness, induction tcs)
  case (Cons tc tcs)
  show ?case
  proof (cases "COMPACT_ARGS_OVER_CHARS < args_chars fr tc")
    case True
    with stub_args_length(2) [OF True] stub_calls_le [of fr tcs] show ?thesis by (simp add: call_chars_def)
  next
    case False
    with Cons show ?thesis using stub_args_length(1) [of fr tc] by (simp add: call_chars_def)
  qed
qed simp

lemma text_stub_length:
  assumes "COMPACT_ARGS_OVER_CHARS < length (cm_content m)"
  shows "length (text_stub m) < length (cm_content m)"
  using string_of_nat_length [of "length (cm_content m)"] assms by (simp add: text_stub_def COMPACT_ARGS_OVER_CHARS_def)

text \<open>A stub changes only tool results and assistant messages, keeps their shell and is smaller.\<close>

lemma stub_message_keeps:
  assumes "stub_message fr alltext m = Inr (Some m')"
  shows "shell m' = shell m" "cm_role m \<in> {RTool, RAssistant}"
    "messageChars (fr_num fr) m' < messageChars (fr_num fr) m"
proof -
  have role: "cm_role m \<in> {RTool, RAssistant}"
    using assms by (cases "cm_role m") (simp_all add: stub_message_def)
  have "shell m' = shell m \<and> messageChars (fr_num fr) m' < messageChars (fr_num fr) m"
  proof (cases "cm_role m = RTool")
    case True
    then have "m' = m\<lparr>cm_content := result_stub m\<rparr>" "length (result_stub m) < length (cm_content m)"
      using assms by (auto simp: stub_message_def split: if_splits)
    then show ?thesis by (simp add: shell_def messageChars_def)
  next
    case False
    with role have r: "cm_role m = RAssistant" by simp
    from assms r obtain big where big: "some_big fr (or_empty (cm_toolCalls m)) = Inr big"
      by (auto simp: stub_message_def split: sum.splits)
    define prose where "prose = (alltext \<and> COMPACT_ARGS_OVER_CHARS < length (cm_content m) \<and>
      \<not> starts_with (cm_content m) compacted_mark)"
    from assms r big have some: "big \<or> prose"
      and m': "m' = m\<lparr>cm_content := (if prose then text_stub m else cm_content m),
         cm_toolCalls := (if big then map_option (map (stub_args fr)) (cm_toolCalls m) else cm_toolCalls m)\<rparr>"
      by (auto simp: stub_message_def prose_def Let_def split: if_splits)
    have calls: "or_empty (cm_toolCalls m') =
        (if big then map (stub_args fr) (or_empty (cm_toolCalls m)) else or_empty (cm_toolCalls m))"
      unfolding m' by (cases "cm_toolCalls m") simp_all
    have text_len: "prose \<Longrightarrow> length (text_stub m) < length (cm_content m)"
      by (rule text_stub_length) (simp add: prose_def)
    have "messageChars (fr_num fr) m' < messageChars (fr_num fr) m"
      unfolding messageChars_alt calls
      using some text_len stub_calls_less [of fr "or_empty (cm_toolCalls m)"] big
      by (cases big; cases prose) (simp_all add: m' del: map_map)
    moreover have "shell m' = shell m" unfolding shell_def calls by (simp add: m' o_def)
    ultimately show ?thesis by simp
  qed
  with role show "shell m' = shell m" "cm_role m \<in> {RTool, RAssistant}"
    "messageChars (fr_num fr) m' < messageChars (fr_num fr) m" by simp_all
qed

section \<open>What the stub passes keep\<close>

text \<open>Some messages below an index were stubbed.\<close>

definition stubbed :: "fit_request \<Rightarrow> nat \<Rightarrow> chat_message list \<Rightarrow> chat_message list \<Rightarrow> bool" where
  "stubbed fr bound ms ms' \<longleftrightarrow>
     map shell ms' = map shell ms \<and> filter is_prompt ms' = filter is_prompt ms \<and> drop bound ms' = drop bound ms \<and>
     conversationChars (fr_num fr) ms' \<le> conversationChars (fr_num fr) ms"

lemma stubbed_refl [simp]: "stubbed fr bound ms ms"
  by (simp add: stubbed_def)

lemma stubbed_trans: "stubbed fr bound ms ms1 \<Longrightarrow> stubbed fr bound ms1 ms2 \<Longrightarrow> stubbed fr bound ms ms2"
  by (simp add: stubbed_def)

lemma stubbed_mono: "stubbed fr b ms ms' \<Longrightarrow> b \<le> c \<Longrightarrow> stubbed fr c ms ms'"
  by (auto simp: stubbed_def) (metis drop_drop le_add_diff_inverse2)

lemma filter_update_other: "\<not> P x \<Longrightarrow> i < length xs \<Longrightarrow> \<not> P (xs ! i) \<Longrightarrow> filter P (xs[i := x]) = filter P xs"
  by (induction xs arbitrary: i) (auto split: nat.splits)

lemma chars_update:
  assumes "i < length ms" "messageChars num m < messageChars num (ms ! i)"
  shows "conversationChars num (ms[i := m]) < conversationChars num ms"
proof -
  have "conversationChars num ms = conversationChars num (take i ms) + messageChars num (ms ! i) + conversationChars num (drop (Suc i) ms)"
    by (subst id_take_nth_drop [OF assms(1)]) (simp add: conversationChars_def)
  moreover have "conversationChars num (ms[i := m]) = conversationChars num (take i ms) + messageChars num m + conversationChars num (drop (Suc i) ms)"
    using assms(1) by (simp add: upd_conv_take_nth_drop conversationChars_def)
  ultimately show ?thesis using assms(2) by simp
qed

lemma stub_at_stubbed:
  assumes "stub_at fr i alltext ms = Inr (Some ms')" "i < bound"
  shows "stubbed fr bound ms ms'"
proof -
  from assms(1) obtain m where i: "i < length ms" and m: "stub_message fr alltext (ms ! i) = Inr (Some m)"
    and ms': "ms' = ms[i := m]"
    by (auto simp: stub_at_def split: if_splits sum.splits option.splits)
  note keeps = stub_message_keeps [OF m]
  have "map shell ms' = map shell ms"
    using keeps(1) i by (simp add: ms' map_update) (metis length_map list_update_id nth_map)
  moreover have "cm_role m = cm_role (ms ! i)" using keeps(1) by (simp add: shell_def)
  then have "filter is_prompt ms' = filter is_prompt ms"
    unfolding ms' using keeps(2) i by (intro filter_update_other) (auto simp: is_prompt_def)
  moreover have "conversationChars (fr_num fr) ms' \<le> conversationChars (fr_num fr) ms"
    using chars_update [OF i keeps(3)] by (simp add: ms')
  ultimately show ?thesis using assms(2) by (simp add: stubbed_def ms')
qed

lemma stub_largest_keeps:
  "stub_largest fr start must order (ms, n) = Inr (ms', n') \<Longrightarrow> list_all (\<lambda>i. i < bound) order \<Longrightarrow>
     stubbed fr bound ms ms' \<and> n \<le> n' \<and> (n' = n \<longrightarrow> ms' = ms)"
proof (induction order arbitrary: ms n)
  case (Cons i order)
  show ?case
  proof (cases "stub_at fr i False ms")
    case (Inr r)
    show ?thesis
    proof (cases r)
      case None
      from Cons.prems Inr None show ?thesis by (intro Cons.IH) simp_all
    next
      case (Some ms1)
      with Inr have s: "stubbed fr bound ms ms1" using Cons.prems(2) by (simp add: stub_at_stubbed)
      show ?thesis
        using Cons.prems Cons.IH [of ms1 "n + 1"] stubbed_trans [OF s] s Inr Some
        by (simp split: if_splits)
    qed
  qed (use Cons.prems in simp)
qed simp

lemma stub_until_fits_keeps:
  "stub_until_fits fr order (ms, n) = Inr (ms', n') \<Longrightarrow> list_all (\<lambda>i. i < bound) order \<Longrightarrow>
     stubbed fr bound ms ms' \<and> n \<le> n' \<and> (n' = n \<longrightarrow> ms' = ms)"
proof (induction order arbitrary: ms n)
  case (Cons i order)
  show ?case
  proof (cases "fits fr FIT_TO ms")
    case False
    show ?thesis
    proof (cases "stub_at fr i True ms")
      case (Inr r)
      show ?thesis
      proof (cases r)
        case None
        from Cons.prems Inr None False show ?thesis by (intro Cons.IH) simp_all
      next
        case (Some ms1)
        with Inr have s: "stubbed fr bound ms ms1" using Cons.prems(2) by (simp add: stub_at_stubbed)
        show ?thesis
          using Cons.prems Cons.IH [of ms1 "n + 1"] stubbed_trans [OF s] s Inr Some False by simp
      qed
    qed (use Cons.prems False in simp)
  qed (use Cons.prems in simp)
qed simp

section \<open>The tool-call protocol\<close>

text \<open>
  A conversation a backend accepts: every assistant message that calls tools is followed by one
  result for each call, in order, and a result answers nothing else. \<open>protocol\<close> reads messages with
  the ids still to be answered and gives those left open.
\<close>

fun protocol :: "string list \<Rightarrow> (role \<times> string list \<times> string option) list \<Rightarrow> string list option" where
  "protocol open_ids [] = Some open_ids"
| "protocol open_ids ((r, calls, answers) # ms) =
     (if r = RTool then
        (case open_ids of [] \<Rightarrow> None | i # is \<Rightarrow> if answers = Some i then protocol is ms else None)
      else if open_ids \<noteq> [] then None
      else protocol (if r = RAssistant then calls else []) ms)"

definition well_formed :: "chat_message list \<Rightarrow> bool" where
  "well_formed ms \<longleftrightarrow> protocol [] (map shell ms) = Some []"

lemma protocol_append: "protocol ids (xs @ ys) = Option.bind (protocol ids xs) (\<lambda>is. protocol is ys)"
  by (induction ids xs rule: protocol.induct) (auto split: list.split)

lemma protocol_nontool:
  "protocol ids (x # ms) = Some r \<Longrightarrow> fst x \<noteq> RTool \<Longrightarrow> ids = []"
  by (cases x) (auto split: if_splits)

text \<open>A whole exchange can be cut out.\<close>

lemma protocol_drop_exchange:
  assumes ok: "protocol [] (xs @ a # ts @ ys) = Some r" and a: "fst a = RAssistant"
    and ys: "ys = [] \<and> r = [] \<or> ys \<noteq> [] \<and> fst (hd ys) \<noteq> RTool"
  shows "protocol [] (xs @ ys) = Some r"
proof -
  from ok obtain i1 where x: "protocol [] xs = Some i1" and rest: "protocol i1 (a # ts @ ys) = Some r"
    by (auto simp: protocol_append bind_eq_Some_conv)
  from protocol_nontool [OF rest] a have i1: "i1 = []" by simp
  have "protocol i1 ((a # ts) @ ys) = Some r" using rest by simp
  then obtain i2 where "protocol i2 ys = Some r"
    by (auto simp only: protocol_append bind_eq_Some_conv)
  moreover from this ys have "i2 = []"
    using protocol_nontool [of i2 "hd ys" "tl ys" r] by (cases ys) auto
  ultimately show ?thesis using x i1 by (simp add: protocol_append)
qed

section \<open>What the drop pass keeps\<close>

text \<open>Where an exchange starts and ends.\<close>

lemma exchange_start_role:
  assumes "exchange_start ms from before < before" "before \<le> length ms"
  shows "cm_role (ms ! exchange_start ms from before) = RAssistant" "from \<le> exchange_start ms from before"
proof -
  let ?w = "take (before - from) (drop from ms)"
  let ?k = "length (takeWhile (\<lambda>m. cm_role m \<noteq> RAssistant) ?w)"
  show "from \<le> exchange_start ms from before" by (simp add: exchange_start_def)
  from assms have k: "?k < before - from" by (simp add: exchange_start_def)
  with assms(2) have l: "?k < length ?w" by simp
  from nth_length_takeWhile [OF l] k l have "cm_role (?w ! ?k) = RAssistant" by simp
  with k l show "cm_role (ms ! exchange_start ms from before) = RAssistant"
    by (simp add: exchange_start_def)
qed

lemma exchange_end_bounds:
  assumes "s < length ms"
  shows "s < exchange_end ms s" "exchange_end ms s \<le> length ms"
    "exchange_end ms s < length ms \<Longrightarrow> cm_role (ms ! exchange_end ms s) \<noteq> RTool"
    "\<forall>j. s < j \<and> j < exchange_end ms s \<longrightarrow> cm_role (ms ! j) = RTool"
proof -
  let ?w = "drop (s + 1) ms"
  let ?t = "takeWhile (\<lambda>m. cm_role m = RTool) ?w"
  show "s < exchange_end ms s" by (simp add: exchange_end_def)
  show "exchange_end ms s \<le> length ms"
    using length_takeWhile_le [of "\<lambda>m. cm_role m = RTool" ?w] assms by (simp add: exchange_end_def)
  show "cm_role (ms ! exchange_end ms s) \<noteq> RTool" if "exchange_end ms s < length ms"
  proof -
    from that have "length ?t < length ?w" by (simp add: exchange_end_def)
    from nth_length_takeWhile [OF this] that show ?thesis by (simp add: exchange_end_def)
  qed
  show "\<forall>j. s < j \<and> j < exchange_end ms s \<longrightarrow> cm_role (ms ! j) = RTool"
  proof (intro allI impI)
    fix j assume j: "s < j \<and> j < exchange_end ms s"
    then have l: "j - (s + 1) < length ?t" by (auto simp: exchange_end_def)
    then have "?t ! (j - (s + 1)) \<in> set ?t" by (rule nth_mem)
    then have "cm_role (?t ! (j - (s + 1))) = RTool" by (auto dest: set_takeWhileD)
    moreover have "?t ! (j - (s + 1)) = ?w ! (j - (s + 1))" using l by (rule takeWhile_nth)
    moreover have "?w ! (j - (s + 1)) = ms ! j" using j assms by simp
    ultimately show "cm_role (ms ! j) = RTool" by simp
  qed
qed

text \<open>One step of the drop loop, read as a cut in the list.\<close>

lemma cut_exchange:
  assumes "s < before" "before \<le> length ms" "from \<le> s" "exchange_end ms s \<le> before" "cm_role (ms ! s) = RAssistant"
  obtains xs a ts ys where "ms = xs @ a # ts @ ys" "xs = take s ms" "ys = drop (exchange_end ms s) ms"
    "cm_role a = RAssistant" "list_all (\<lambda>m. cm_role m = RTool) ts" "length (a # ts) = exchange_end ms s - s"
proof -
  let ?e = "exchange_end ms s"
  have s: "s < length ms" using assms by simp
  note e = exchange_end_bounds [OF s]
  define ts where "ts = take (?e - (s + 1)) (drop (s + 1) ms)"
  have "drop (s + 1) ms = ts @ drop ?e ms"
    unfolding ts_def using e(1) append_take_drop_id [of "?e - (s + 1)" "drop (s + 1) ms"] by simp
  then have "ms = take s ms @ ms ! s # ts @ drop ?e ms"
    using id_take_nth_drop [OF s] by simp
  moreover have "list_all (\<lambda>m. cm_role m = RTool) ts"
    unfolding list_all_length
  proof (intro allI impI)
    fix n assume "n < length ts"
    then have "ts ! n = ms ! (s + 1 + n)" "s + 1 + n < ?e" using e(2) s by (simp_all add: ts_def)
    with e(4) show "cm_role (ts ! n) = RTool" by simp
  qed
  moreover have "length (ms ! s # ts) = ?e - s" using e(1,2) by (simp add: ts_def)
  ultimately show thesis using that assms(5) by blast
qed

text \<open>Whole exchanges before an index were cut out: what the index pointed at is still there.\<close>

definition cut_before :: "chat_message list \<Rightarrow> nat \<Rightarrow> chat_message list \<Rightarrow> nat \<Rightarrow> bool" where
  "cut_before ms latest ms' latest' \<longleftrightarrow>
     latest' \<le> latest \<and> latest \<le> length ms \<and> drop latest' ms' = drop latest ms \<and> length ms' + latest = length ms + latest' \<and>
     filter is_prompt ms' = filter is_prompt ms \<and>
     (well_formed ms \<longrightarrow> well_formed ms') \<and>
     (\<forall>num. conversationChars num ms' \<le> conversationChars num ms)"

lemma cut_one:
  assumes "s < before" "before \<le> latest" "latest \<le> length ms" "from \<le> s" "exchange_end ms s \<le> before"
    and "cm_role (ms ! s) = RAssistant"
  shows "cut_before ms latest (take s ms @ drop (exchange_end ms s) ms) (latest - (exchange_end ms s - s))"
proof -
  let ?e = "exchange_end ms s"
  have b: "before \<le> length ms" using assms by simp
  from cut_exchange [OF assms(1) b assms(4,5,6)] obtain xs a ts ys where c:
    "ms = xs @ a # ts @ ys" "xs = take s ms" "ys = drop ?e ms" "cm_role a = RAssistant"
    "list_all (\<lambda>m. cm_role m = RTool) ts" "length (a # ts) = ?e - s" by blast
  have s: "s < length ms" using assms by simp
  note e = exchange_end_bounds [OF s]
  have lx: "length xs = s" using s c(2) by simp
  have prompts: "filter is_prompt (xs @ ys) = filter is_prompt ms"
  proof -
    have "filter is_prompt ts = []" using c(5) by (induction ts) (auto simp: is_prompt_def)
    then show ?thesis using c(4) by (simp add: c(1) is_prompt_def)
  qed
  have wf: "well_formed (xs @ ys)" if "well_formed ms"
  proof -
    from that have "protocol [] (map shell xs @ shell a # map shell ts @ map shell ys) = Some []"
      unfolding well_formed_def c(1) by simp
    moreover have "fst (shell a) = RAssistant" using c(4) by (simp add: shell_def)
    moreover have "ys = [] \<or> ys \<noteq> [] \<and> cm_role (hd ys) \<noteq> RTool"
      using e(3) by (cases "?e < length ms") (simp_all add: c(3) hd_drop_conv_nth)
    then have "map shell ys = [] \<and> ([] :: string list) = [] \<or> map shell ys \<noteq> [] \<and> fst (hd (map shell ys)) \<noteq> RTool"
      by (auto simp: hd_map shell_def)
    ultimately have "protocol [] (map shell xs @ map shell ys) = Some []"
      by (rule protocol_drop_exchange)
    then show ?thesis by (simp add: well_formed_def)
  qed
  have tail: "drop (latest - (?e - s)) (xs @ ys) = drop latest ms"
  proof -
    have "latest - (?e - s) = s + (latest - ?e)" using assms(2,5) e(1) by linarith
    then have "drop (latest - (?e - s)) (xs @ ys) = drop (latest - ?e) ys" by (simp add: lx)
    also have "\<dots> = drop latest ms" using assms(2,5) by (simp add: c(3))
    finally show ?thesis .
  qed
  have "length (xs @ ys) + latest = length ms + (latest - (?e - s))"
    using assms e(1,2) lx by (simp add: c(3))
  moreover have "conversationChars num (xs @ ys) \<le> conversationChars num ms" for num
    by (simp add: c(1) conversationChars_def)
  ultimately show ?thesis
    using prompts wf tail assms(3) unfolding cut_before_def c(2) [symmetric] c(3) [symmetric] by simp
qed

lemma cut_refl: "latest \<le> length ms \<Longrightarrow> cut_before ms latest ms latest"
  by (simp add: cut_before_def)

lemma cut_trans:
  "cut_before ms l ms1 l1 \<Longrightarrow> cut_before ms1 l1 ms2 l2 \<Longrightarrow> cut_before ms l ms2 l2"
  unfolding cut_before_def by (auto intro: order_trans)

text \<open>After the loop the request fits, or no whole exchange is left before the bound.\<close>

definition no_exchange :: "chat_message list \<Rightarrow> nat \<Rightarrow> nat \<Rightarrow> bool" where
  "no_exchange ms from before \<longleftrightarrow>
     (let s = exchange_start ms from before in before \<le> s \<or> before < exchange_end ms s)"

lemma drop_exchanges_keeps:
  "drop_exchanges fr low before (ms, latest, n) = (ms', latest', n') \<Longrightarrow> before \<le> latest \<Longrightarrow> latest \<le> length ms \<Longrightarrow>
     cut_before ms latest ms' latest' \<and> n' + length ms' = n + length ms \<and> take low ms' = take low ms \<and>
     (low \<le> latest \<longrightarrow> low \<le> latest') \<and> n \<le> n' \<and> (n' = n \<longrightarrow> ms' = ms) \<and>
     (fits fr FIT_TO ms' \<or> no_exchange ms' low (before - (latest - latest')))"
proof (induction fr low before "(ms, latest, n)" arbitrary: ms latest n rule: drop_exchanges.induct)
  case (1 fr low before ms latest n)
  let ?s = "exchange_start ms low before"
  let ?e = "exchange_end ms ?s"
  let ?ms = "take ?s ms @ drop ?e ms"
  show ?case
  proof (cases "fits fr FIT_TO ms \<or> no_exchange ms low before")
    case True
    then have "drop_exchanges fr low before (ms, latest, n) = (ms, latest, n)"
      by (subst drop_exchanges.simps) (auto simp: no_exchange_def Let_def)
    with True 1(2-4) show ?thesis by (auto simp: cut_refl)
  next
    case False
    then have b: "?s < before" "?e \<le> before" "\<not> fits fr FIT_TO ms" by (auto simp: no_exchange_def Let_def)
    have bl: "before \<le> length ms" using 1(3,4) by simp
    note r = exchange_start_role [OF b(1) bl]
    note e = exchange_end_bounds [of ?s ms]
    have s: "?s < length ms" using b(1) bl by simp
    have cut: "cut_before ms latest ?ms (latest - (?e - ?s))"
      by (rule cut_one [OF b(1) 1(3,4) r(2) b(2) r(1)])
    have step: "drop_exchanges fr low (before - (?e - ?s)) (?ms, latest - (?e - ?s), n + (?e - ?s)) = (ms', latest', n')"
      using 1(2) b by (subst (asm) drop_exchanges.simps) (simp add: Let_def)
    have ih: "cut_before ?ms (latest - (?e - ?s)) ms' latest' \<and> n' + length ms' = n + (?e - ?s) + length ?ms \<and>
        take low ms' = take low ?ms \<and> (low \<le> latest - (?e - ?s) \<longrightarrow> low \<le> latest') \<and>
        n + (?e - ?s) \<le> n' \<and> (n' = n + (?e - ?s) \<longrightarrow> ms' = ?ms) \<and>
        (fits fr FIT_TO ms' \<or> no_exchange ms' low (before - (?e - ?s) - (latest - (?e - ?s) - latest')))"
      using b(1,3) 1(3,4) e(1) [OF s] e(2) [OF s]
      by (intro 1(1) [OF _ refl refl _ step]) (auto simp: b(2) not_le not_less)
    have "before - (?e - ?s) - (latest - (?e - ?s) - latest') = before - (latest - latest')"
    proof -
      have "latest' \<le> latest - (?e - ?s)" using ih by (simp only: cut_before_def)
      then show ?thesis using b(2) 1(3) by linarith
    qed
    moreover have "take low ?ms = take low ms" using r(2) s by (simp add: min_def)
    moreover have "n + (?e - ?s) + length ?ms = n + length ms"
      using e(1) [OF s] e(2) [OF s] by simp
    moreover have "n < n'"
      using ih e(1) [OF s] unfolding cut_before_def by linarith
    moreover have "low \<le> latest - (?e - ?s)" using r(2) b(1,2) 1(3) by linarith
    ultimately show ?thesis using ih cut_trans [OF cut] by auto
  qed
qed

text \<open>The latest assistant message, by position and role.\<close>

lemma roles_of_shell: "map shell ms' = map shell ms \<Longrightarrow> map cm_role ms' = map cm_role ms"
  by (auto simp: list_eq_iff_nth_eq shell_def)

lemma latest_assistant_le: "latest_assistant ms \<le> length ms"
proof -
  have "last is < length ms" if "is = filter (\<lambda>i. cm_role (ms ! i) = RAssistant) [0..<length ms]" "is \<noteq> []" for "is"
    using last_in_set [OF that(2)] that(1) by auto
  then show ?thesis by (auto simp: latest_assistant_def split: list.split intro: less_imp_le)
qed

lemma latest_assistant_bound: "latest_assistant ms = 0 \<or> latest_assistant ms < length ms"
proof -
  have "last js < length ms" if "js = filter (\<lambda>i. cm_role (ms ! i) = RAssistant) [0..<length ms]" "js \<noteq> []" for js
    using last_in_set [OF that(2)] that(1) by auto
  then show ?thesis by (auto simp: latest_assistant_def split: list.split)
qed

lemma latest_assistant_role: "latest_assistant ms = 0 \<or> cm_role (ms ! latest_assistant ms) = RAssistant"
proof -
  define found where "found = filter (\<lambda>i. cm_role (ms ! i) = RAssistant) [0..<length ms]"
  have l: "latest_assistant ms = (if found = [] then 0 else last found)"
    by (simp add: latest_assistant_def found_def split: list.split)
  show ?thesis
  proof (cases "found = []")
    case False
    then have "last found \<in> set found" by simp
    then have "cm_role (ms ! last found) = RAssistant" unfolding found_def by simp
    with l False show ?thesis by simp
  qed (simp add: l)
qed

lemma filter_index_cong:
  "map cm_role ms' = map cm_role ms \<Longrightarrow> n \<le> length ms \<Longrightarrow>
     filter (\<lambda>i. cm_role (ms' ! i) = r) [0..<n] = filter (\<lambda>i. cm_role (ms ! i) = r) [0..<n]"
  by (rule filter_cong) (auto simp: list_eq_iff_nth_eq)

lemma latest_assistant_shell: "map shell ms' = map shell ms \<Longrightarrow> latest_assistant ms' = latest_assistant ms"
  using filter_index_cong [OF roles_of_shell, of ms' ms "length ms" RAssistant] map_eq_imp_length_eq [of shell ms' shell ms]
  by (simp add: latest_assistant_def)

lemma after_last_user_shell:
  "map shell ms' = map shell ms \<Longrightarrow> n \<le> length ms \<Longrightarrow> after_last_user ms' n = after_last_user ms n"
  using filter_index_cong [OF roles_of_shell, of ms' ms n RUser] by (simp add: after_last_user_def)

lemma after_last_user_le: "after_last_user ms n \<le> n"
proof -
  have "last is < n" if "is = filter (\<lambda>i. cm_role (ms ! i) = RUser) [0..<n]" "is \<noteq> []" for "is"
    using last_in_set [OF that(2)] that(1) by auto
  then show ?thesis by (auto simp: after_last_user_def Suc_le_eq split: list.split)
qed

lemma well_formed_stubbed: "stubbed fr b ms ms' \<Longrightarrow> well_formed ms' = well_formed ms"
  by (simp add: stubbed_def well_formed_def)

lemma protect_from_le: "nat (protect_from ms) \<le> length ms"
proof -
  define tools where "tools = filter (\<lambda>i. cm_role (ms ! i) = RTool) [0..<length ms]"
  define recent where "recent = drop (length tools - KEEP_RECENT_TOOL_RESULTS) tools"
  have p: "protect_from ms = (case recent of [] \<Rightarrow> int (length ms) | i # _ \<Rightarrow> int i - 1)"
    by (simp add: protect_from_def Let_def recent_def tools_def)
  show ?thesis
  proof (cases recent)
    case (Cons i js)
    then have "i \<in> set recent" by simp
    then have "i \<in> set tools" unfolding recent_def by (rule in_set_dropD)
    then have "i < length ms" by (simp add: tools_def)
    then show ?thesis unfolding p Cons by simp
  qed (simp add: p)
qed

section \<open>The passes together\<close>

lemma cut_stubbed:
  assumes "stubbed fr latest ms ms'" "latest \<le> length ms"
  shows "cut_before ms latest ms' latest \<longleftrightarrow> (\<forall>num. conversationChars num ms' \<le> conversationChars num ms)"
  using assms well_formed_stubbed [OF assms(1)] map_eq_imp_length_eq [of shell ms' shell ms]
  by (simp add: stubbed_def cut_before_def)

text \<open>Both passes, with the characters counted by the number printer of the request.\<close>

definition compacted :: "fit_request \<Rightarrow> nat \<Rightarrow> chat_message list \<Rightarrow> nat \<Rightarrow> chat_message list \<Rightarrow> nat \<Rightarrow> bool" where
  "compacted fr low ms latest ms' latest' \<longleftrightarrow>
     latest' \<le> latest \<and> latest \<le> length ms \<and> low \<le> latest' \<and> drop latest' ms' = drop latest ms \<and>
     map shell (take low ms') = map shell (take low ms) \<and> length ms' + latest = length ms + latest' \<and>
     filter is_prompt ms' = filter is_prompt ms \<and>
     (well_formed ms \<longrightarrow> well_formed ms') \<and> conversationChars (fr_num fr) ms' \<le> conversationChars (fr_num fr) ms"

lemma compacted_trans:
  "compacted fr low ms l ms1 l1 \<Longrightarrow> compacted fr low ms1 l1 ms2 l2 \<Longrightarrow> compacted fr low ms l ms2 l2"
  unfolding compacted_def by (auto intro: order_trans)

lemma compacted_stub:
  assumes "stubbed fr latest ms ms'" "latest \<le> length ms" "low \<le> latest"
  shows "compacted fr low ms latest ms' latest"
proof -
  have "map shell (take low ms') = map shell (take low ms)"
    using assms(1) unfolding stubbed_def by (metis take_map)
  with assms well_formed_stubbed [OF assms(1)] map_eq_imp_length_eq [of shell ms' shell ms]
  show ?thesis by (simp add: stubbed_def compacted_def)
qed

lemma compacted_drop:
  assumes "drop_exchanges fr low before (ms, latest, n) = (ms', latest', n')" "before \<le> latest" "latest \<le> length ms" "low \<le> latest"
  shows "compacted fr low ms latest ms' latest'"
  using drop_exchanges_keeps [OF assms(1-3)] assms(4) by (simp add: compacted_def cut_before_def)

lemma drop_exchanges_compacted:
  assumes "drop_exchanges fr low before (ms, latest, n) = (ms', latest', n')" "before \<le> latest" "latest \<le> length ms" "low \<le> latest"
  shows "compacted fr low ms latest ms' latest'" "n \<le> n'" "n' = n \<Longrightarrow> ms' = ms"
    "fits fr FIT_TO ms' \<or> no_exchange ms' low (before - (latest - latest'))"
  using compacted_drop [OF assms] drop_exchanges_keeps [OF assms(1-3)] by simp_all

text \<open>No whole exchange is left when no assistant message is left.\<close>

lemma no_exchange_none:
  assumes "no_exchange ms low latest" "latest \<le> length ms" "latest = 0 \<or> latest < length ms \<and> cm_role (ms ! latest) = RAssistant"
  shows "\<forall>m\<in>set (drop low (take latest ms)). cm_role m \<noteq> RAssistant"
proof -
  let ?s = "exchange_start ms low latest"
  have "latest \<le> ?s \<or> latest = 0"
  proof (rule ccontr)
    assume n: "\<not> ?thesis"
    then have s: "?s < length ms" using assms(2) by simp
    have "latest < exchange_end ms ?s" using assms(1) n by (auto simp: no_exchange_def Let_def)
    with exchange_end_bounds(4) [OF s] n have "cm_role (ms ! latest) = RTool" by simp
    with assms(3) n show False by auto
  qed
  then show ?thesis
  proof
    assume le: "latest \<le> ?s"
    let ?w = "take (latest - low) (drop low ms)"
    have "length ?w \<le> length (takeWhile (\<lambda>m. cm_role m \<noteq> RAssistant) ?w)"
      using le assms(2) by (simp add: exchange_start_def)
    then have "takeWhile (\<lambda>m. cm_role m \<noteq> RAssistant) ?w = ?w"
      by (metis append_eq_conv_conj length_takeWhile_le le_antisym takeWhile_dropWhile_id append_Nil2)
    then have "\<forall>m\<in>set ?w. cm_role m \<noteq> RAssistant" by (simp only: takeWhile_eq_all_conv)
    then show ?thesis by (simp add: drop_take)
  qed simp
qed

definition drop_done :: "fit_request \<Rightarrow> nat \<Rightarrow> chat_message list \<Rightarrow> nat \<Rightarrow> bool" where
  "drop_done fr low ms latest \<longleftrightarrow>
     fits fr FIT_TO ms \<or> (\<forall>m\<in>set (drop low (take latest ms)). cm_role m \<noteq> RAssistant)"

lemma drop_pass_keeps:
  assumes "drop_pass fr protectFrom (ms, n) = Inr (ms', n')"
  shows "\<exists>latest'. compacted fr (after_last_user ms (latest_assistant ms)) ms (latest_assistant ms) ms' latest' \<and>
     n \<le> n' \<and> (n' = n \<longrightarrow> ms' = ms) \<and> drop_done fr (after_last_user ms (latest_assistant ms)) ms' latest'"
proof -
  define latest where "latest = latest_assistant ms"
  define low where "low = after_last_user ms latest"
  have l: "latest \<le> length ms" "low \<le> latest"
    unfolding latest_def low_def by (rule latest_assistant_le, rule after_last_user_le)
  obtain ms1 l1 n1 where d1: "drop_exchanges fr low (nat (min protectFrom (int latest))) (ms, latest, n) = (ms1, l1, n1)"
    by (cases "drop_exchanges fr low (nat (min protectFrom (int latest))) (ms, latest, n)") auto
  obtain ms2 n2 where st: "stub_until_fits fr [0..<l1] (ms1, n1) = Inr (ms2, n2)"
    using assms d1 by (auto simp: drop_pass_def latest_def low_def Let_def split: sum.splits)
  obtain ms3 l3 n3 where d3: "drop_exchanges fr low l1 (ms2, l1, n2) = (ms3, l3, n3)"
    by (cases "drop_exchanges fr low l1 (ms2, l1, n2)") auto
  have out: "ms' = ms3" "n' = n3"
    using assms d1 st d3 by (simp_all add: drop_pass_def latest_def low_def Let_def)
  have low_bound: "nat (min protectFrom (int latest)) \<le> latest" by simp
  note k1 = drop_exchanges_compacted [OF d1 low_bound l]
  note c1 = k1(1)
  then have l1: "l1 \<le> length ms1" "low \<le> l1" by (simp_all add: compacted_def)
  have s2: "stubbed fr l1 ms1 ms2 \<and> n1 \<le> n2 \<and> (n2 = n1 \<longrightarrow> ms2 = ms1)"
    by (rule stub_until_fits_keeps [OF st]) (simp add: list_all_iff)
  then have c2: "compacted fr low ms1 l1 ms2 l1" using compacted_stub l1 by blast
  then have l2: "l1 \<le> length ms2" using l1 by (simp add: compacted_def)
  note k3 = drop_exchanges_compacted [OF d3 le_refl l2 l1(2)]
  note c3 = k3(1)
  have c: "compacted fr low ms latest ms3 l3" by (rule compacted_trans [OF compacted_trans [OF c1 c2] c3])
  have "drop_done fr low ms3 l3"
  proof (cases "fits fr FIT_TO ms3")
    case False
    have "l1 - (l1 - l3) = l3" using c3 by (simp add: compacted_def)
    with k3(4) False have e: "no_exchange ms3 low l3" by simp
    have "l3 = 0 \<or> l3 < length ms3 \<and> cm_role (ms3 ! l3) = RAssistant"
    proof -
      have t: "drop l3 ms3 = drop latest ms" "length ms3 + latest = length ms + l3" "l3 \<le> latest" "latest \<le> length ms"
        using c by (simp_all add: compacted_def)
      from latest_assistant_role [of ms] show ?thesis
      proof
        assume r: "cm_role (ms ! latest_assistant ms) = RAssistant"
        show ?thesis
        proof (cases "latest < length ms")
          case True
          then have "l3 < length ms3" using t(2) by simp
          moreover have "ms3 ! l3 = ms ! latest" using t(1) True calculation by (metis hd_drop_conv_nth)
          ultimately show ?thesis using r by (simp add: latest_def)
        next
          case False
          then have "latest = 0" using latest_assistant_bound [of ms] by (simp add: latest_def)
          then show ?thesis using t(3) by simp
        qed
      qed (use t(3) in \<open>simp add: latest_def\<close>)
    qed
    with no_exchange_none [OF e] c3 show ?thesis by (auto simp: drop_done_def compacted_def)
  qed (simp add: drop_done_def)
  moreover have "n \<le> n3" "n3 = n \<longrightarrow> ms3 = ms" using k1(2,3) s2 k3(2,3) by auto
  ultimately show ?thesis using c unfolding out low_def latest_def by blast
qed

lemma stub_pass_keeps:
  assumes "stub_pass fr protectFrom ms = Inr (ms', n)"
  shows "stubbed fr (nat protectFrom) ms ms' \<and> (n = 0 \<longrightarrow> ms' = ms)"
proof (cases "over fr ms \<le> COMPACT_AT * fr_window fr")
  case False
  have "list_all (\<lambda>i. i < nat protectFrom) (by_size fr ms (nat protectFrom))"
    by (auto simp: by_size_def list_all_iff)
  with assms False stub_largest_keeps show ?thesis
    by (fastforce simp: stub_pass_def split: if_splits)
qed (use assms in \<open>simp add: stub_pass_def\<close>)

text \<open>What the last exchange and the newest results start at.\<close>

definition kept_from :: "chat_message list \<Rightarrow> nat" where
  "kept_from ms = max (nat (protect_from ms)) (latest_assistant ms)"

definition last_user_from :: "chat_message list \<Rightarrow> nat" where
  "last_user_from ms = after_last_user ms (latest_assistant ms)"

text \<open>
  What compaction promises. Prompts stay, the protocol stays, characters only go, the messages from
  \<open>kept_from\<close> on stay, and a request that still does not fit has no whole exchange left to drop.
\<close>

definition compaction_ok :: "fit_request \<Rightarrow> chat_message list \<Rightarrow> chat_message list \<Rightarrow> nat \<Rightarrow> bool" where
  "compaction_ok fr ms ms' n \<longleftrightarrow>
     filter is_prompt ms' = filter is_prompt ms \<and> (well_formed ms \<longrightarrow> well_formed ms') \<and>
     conversationChars (fr_num fr) ms' \<le> conversationChars (fr_num fr) ms \<and> (n = 0 \<longrightarrow> ms' = ms) \<and>
     (\<exists>pre. ms' = pre @ drop (kept_from ms) ms) \<and>
     (\<exists>pre. map shell ms' = pre @ map shell (drop (latest_assistant ms) ms)) \<and>
     (fits fr FIT_AT ms' \<or> fits fr FIT_TO ms' \<or>
      (\<exists>mid. map shell ms' = map shell (take (last_user_from ms) ms) @ mid @ map shell (drop (latest_assistant ms) ms) \<and>
        (\<forall>x\<in>set mid. fst x \<noteq> RAssistant)))"

lemma stubbed_tail:
  assumes "stubbed fr (nat (protect_from ms)) ms ms1"
  shows "drop (kept_from ms) ms1 = drop (kept_from ms) ms"
  using stubbed_mono [OF assms, of "kept_from ms"] by (simp add: kept_from_def stubbed_def)

lemma stub_case:
  assumes "stubbed fr (nat (protect_from ms)) ms ms1" "n = 0 \<longrightarrow> ms1 = ms" "fits fr FIT_AT ms1"
  shows "compaction_ok fr ms ms1 n"
proof -
  have "ms1 = take (kept_from ms) ms1 @ drop (kept_from ms) ms"
    using append_take_drop_id [of "kept_from ms" ms1] stubbed_tail [OF assms(1)] by simp
  moreover have "map shell ms1 = map shell (take (latest_assistant ms) ms) @ map shell (drop (latest_assistant ms) ms)"
    using assms(1) by (simp add: stubbed_def flip: map_append)
  ultimately show ?thesis
    using assms well_formed_stubbed [OF assms(1)] unfolding stubbed_def compaction_ok_def by blast
qed

text \<open>The parts of a conversation after the drop pass, up to the text of its messages.\<close>

lemma drop_parts:
  assumes "compacted fr low ms1 latest ms' l" "map shell ms1 = map shell ms"
  shows "map shell ms' = map shell (take low ms) @ map shell (drop low (take l ms')) @ map shell (drop latest ms)"
proof -
  note c = assms(1) [unfolded compacted_def]
  have "ms' = take low ms' @ drop low (take l ms') @ drop l ms'"
    using c by (metis append.assoc append_take_drop_id min.absorb1 take_take)
  then have "map shell ms' = map shell (take low ms') @ map shell (drop low (take l ms')) @ map shell (drop l ms')"
    by (metis map_append)
  moreover have "map shell (take low ms') = map shell (take low ms)"
    using c assms(2) by (metis take_map)
  moreover have "map shell (drop l ms') = map shell (drop latest ms)"
    using c assms(2) by (metis drop_map)
  ultimately show ?thesis by simp
qed

lemma drop_case:
  assumes st: "stubbed fr (nat (protect_from ms)) ms ms1" "n1 = 0 \<longrightarrow> ms1 = ms"
    and d: "drop_pass fr (protect_from ms) (ms1, n1) = Inr (ms', n)"
  shows "compaction_ok fr ms ms' n"
proof -
  from drop_pass_keeps [OF d] obtain l where
    c: "compacted fr (last_user_from ms1) ms1 (latest_assistant ms1) ms' l" "n1 \<le> n" "n = n1 \<longrightarrow> ms' = ms1"
    "drop_done fr (last_user_from ms1) ms' l" unfolding last_user_from_def by blast
  have shells: "map shell ms1 = map shell ms" using st(1) by (simp add: stubbed_def)
  have la: "latest_assistant ms1 = latest_assistant ms" by (rule latest_assistant_shell [OF shells])
  have lu: "last_user_from ms1 = last_user_from ms"
    using after_last_user_shell [OF shells latest_assistant_le [of ms]] by (simp add: last_user_from_def la)
  note cc = c(1) [unfolded la lu]
  have "drop (kept_from ms) ms1 = drop (kept_from ms - latest_assistant ms + l) ms'"
    using cc unfolding compacted_def by (metis drop_drop kept_from_def le_add_diff_inverse2 max.cobounded2)
  then have "ms' = take (kept_from ms - latest_assistant ms + l) ms' @ drop (kept_from ms) ms"
    using stubbed_tail [OF st(1)] by (metis append_take_drop_id)
  then have pre: "\<exists>pre. ms' = pre @ drop (kept_from ms) ms" by blast
  have "fits fr FIT_TO ms' \<or> (\<forall>x\<in>set (map shell (drop (last_user_from ms) (take l ms'))). fst x \<noteq> RAssistant)"
    using c(4) by (auto simp: drop_done_def lu shell_def)
  moreover have "\<exists>p. map shell ms' = p @ map shell (drop (latest_assistant ms) ms)"
    using drop_parts [OF cc shells] by (metis append.assoc)
  ultimately show ?thesis using drop_parts [OF cc shells] pre cc c(2,3) st well_formed_stubbed [OF st(1)]
    by (auto simp: stubbed_def compacted_def compaction_ok_def intro: order_trans)
qed

lemma compaction_shape:
  assumes "compactConversation fr ms = Inr (ms', n)"
  shows "compaction_ok fr ms ms' n"
proof (cases "over fr ms \<le> COMPACT_AT * fr_window fr \<and> fits fr FIT_AT ms")
  case True
  then have "ms' = ms" using assms by (simp add: compactConversation_def)
  moreover have "\<exists>pre. ms = pre @ drop (kept_from ms) ms" by (metis append_take_drop_id)
  moreover have "\<exists>pre. map shell ms = pre @ map shell (drop (latest_assistant ms) ms)"
    by (metis append_take_drop_id map_append)
  ultimately show ?thesis using True by (simp add: compaction_ok_def)
next
  case False
  then obtain ms1 n1 where s: "stub_pass fr (protect_from ms) ms = Inr (ms1, n1)"
    and rest: "(if fits fr FIT_AT ms1 then Inr (ms1, n1) else drop_pass fr (protect_from ms) (ms1, n1)) = Inr (ms', n)"
    using assms by (auto simp: compactConversation_def split: sum.splits)
  note k = stub_pass_keeps [OF s, THEN conjunct1] stub_pass_keeps [OF s, THEN conjunct2]
  show ?thesis
  proof (cases "fits fr FIT_AT ms1")
    case True
    with stub_case [OF k] rest show ?thesis by simp
  next
    case False
    with drop_case [OF k] rest show ?thesis by simp
  qed
qed






section \<open>Theorems\<close>


text \<open>
  Compaction does all it may: when the request still passes the line it fits to, no exchange is
  left between the last user message and the latest assistant message, and everything before and
  after is still there.
\<close>

theorem compaction_exhaustive:
  assumes "compactConversation fr ms = Inr (ms', n)" "\<not> fits fr FIT_AT ms'" "0 \<le> fr_window fr"
  shows "\<exists>mid. map shell ms' = map shell (take (after_last_user ms (latest_assistant ms)) ms) @ mid @
      map shell (drop (latest_assistant ms) ms) \<and> (\<forall>x\<in>set mid. fst x \<noteq> RAssistant)"
proof -
  have "FIT_TO * fr_window fr \<le> FIT_AT * fr_window fr"
    using assms(3) by (intro mult_right_mono) (simp_all add: FIT_TO_def FIT_AT_def)
  with assms(2) have "\<not> fits fr FIT_TO ms'" by (simp add: fits_def)
  with compaction_shape [OF assms(1)] assms(2) show ?thesis
    unfolding compaction_ok_def last_user_from_def by blast
qed

definition sample_num :: "rat \<Rightarrow> string" where
  "sample_num q = string_of_int \<lfloor>q\<rfloor>"

definition sample_request :: "rat \<Rightarrow> fit_request" where
  "sample_request w = \<lparr>fr_num = sample_num, fr_window = w, fr_tokensPerChar = 1 / 4, fr_lastInput = None,
     fr_schemaChars = 0, fr_reserve = 0\<rparr>"

definition user_says :: "string \<Rightarrow> chat_message" where
  "user_says t = \<lparr>cm_role = RUser, cm_content = t, cm_toolCalls = None, cm_toolCallId = None, cm_name = None\<rparr>"

definition calls_tools :: "(string \<times> json) list \<Rightarrow> chat_message" where
  "calls_tools cs = \<lparr>cm_role = RAssistant, cm_content = [],
     cm_toolCalls = Some (map (\<lambda>(i, v). \<lparr>tc_id = i, tc_name = ''t'', tc_args = v\<rparr>) cs), cm_toolCallId = None, cm_name = None\<rparr>"

definition tool_says :: "string \<Rightarrow> string \<Rightarrow> chat_message" where
  "tool_says i t = \<lparr>cm_role = RTool, cm_content = t, cm_toolCalls = None, cm_toolCallId = Some i, cm_name = Some ''t''\<rparr>"

text \<open>Two exchanges, the older one of which is dropped whole.\<close>

definition sample_messages :: "chat_message list" where
  "sample_messages =
     [user_says ''do it'', calls_tools [(''1'', JNull)], tool_says ''1'' ''0123456789012345678901234567890123456789'',
      calls_tools [(''2'', JNull)], tool_says ''2'' ''9876543210987654321098765432109876543210'']"

definition sample_compacted :: "chat_message list" where
  "sample_compacted =
     [user_says ''do it'', calls_tools [(''2'', JNull)], tool_says ''2'' ''9876543210987654321098765432109876543210'']"



lemma sample_stuck: "compactConversation (sample_request 10) sample_messages = Inr (sample_compacted, 2)"
  by code_simp

theorem compaction_exhaustive_witness:
  "\<exists>mid. map shell sample_compacted = map shell [user_says ''do it''] @ mid @
      map shell (drop 3 sample_messages) \<and> (\<forall>x\<in>set mid. fst x \<noteq> RAssistant)"
proof -
  have "\<not> fits (sample_request 10) FIT_AT sample_compacted" "latest_assistant sample_messages = 3"
    "take (after_last_user sample_messages 3) sample_messages = [user_says ''do it'']" by code_simp+
  with compaction_exhaustive [OF sample_stuck] show ?thesis by (simp add: sample_request_def)
qed

section \<open>Two boundaries\<close>

text \<open>
  The newest results are counted one by one: of a turn with eight calls the first result is elided
  before the model has seen it.
\<close>

definition long_result :: string where
  "long_result = replicate 200 (CHR ''z'')"

definition eight_calls :: "chat_message list" where
  "eight_calls = user_says [] # calls_tools (map (\<lambda>i. ([i], JNull)) ''12345678'') #
     tool_says ''1'' long_result # map (\<lambda>i. tool_says [i] ''ok'') ''2345678''"

lemma unseen_result_elided:
  "compactConversation (sample_request 80) eight_calls =
     Inr (eight_calls[2 := tool_says ''1'' (result_stub (tool_says ''1'' long_result))], 1)"
  by code_simp

text \<open>Arguments that are no object make compaction throw, and the run with it.\<close>

lemma primitive_args_throw:
  "compactConversation (sample_request 1)
     (user_says [] # calls_tools [(''1'', JNum (Fin 5))] # tool_says ''1'' ''ok'' #
      calls_tools (map (\<lambda>i. ([i], JNull)) ''234567'') # map (\<lambda>i. tool_says [i] ''ok'') ''234567'') =
   Inl TypeError"
  by code_simp

end
