(* ===== verification/LoopState.thy ===== *)
theory LoopState
  imports Compaction
begin

text \<open>
  The state of a run of the agent loop (\<^verbatim>\<open>packages/agent-loop/src/executor.ts\<close>): configuration, budget,
  trace, and the environment it talks to. Every await is a tick: a model call, a tool call, a poll of
  the operator, a sleep, and the emission of a trace entry. The environment answers by tick, and the
  abort signal is up from some tick on or never. \<open>ls_effects\<close> is a history variable: what the run
  did to the outside, in order. Of a trace entry the model keeps its kind, ids, counts and verdicts;
  timestamps and captured texts are left out.
\<close>

section \<open>Model and tool answers\<close>

record chat_result =
  cr_content :: string
  cr_toolCalls :: "tool_call list option"
  cr_inputTokens :: "rat option"
  cr_outputTokens :: "rat option"
  cr_costUsd :: "rat option"

text \<open>An HTTP error has a status, a body, a message and a retry hint.\<close>

datatype chat_error =
    ChatHttp rat "string option" string "rat option"
  | ChatAborted string
  | ChatOther string

fun error_message :: "chat_error \<Rightarrow> string" where
  "error_message (ChatHttp status body msg after) = msg"
| "error_message (ChatAborted msg) = msg"
| "error_message (ChatOther msg) = msg"

datatype chat_answer = ChatReturns chat_result | ChatThrows chat_error
datatype tool_answer = ToolReturns json bool | ToolThrows string
datatype poll_answer = PollReturns "string list" | PollThrows

section \<open>Configuration\<close>

record run_config =
  rc_num :: "rat \<Rightarrow> string"
  rc_systemPrompt :: "string option"
  rc_maxTokens :: "rat option"
  rc_maxIterations :: nat
  rc_window :: "rat option"
  rc_threshold :: rat
  rc_tokenLimit :: "rat option"
  rc_costLimit :: "rat option"
  rc_selfCheck :: "string option"
  rc_timeBudget :: "(rat \<times> rat) option"
  rc_polls :: bool
  rc_tools :: "json list"
  rc_owners :: "(string \<times> string) list"
  rc_maxRetries :: nat
  rc_backoff :: "rat list"
  rc_maxIdentical :: nat
  rc_maxPerTool :: "nat option"
  rc_maxResultChars :: nat

section \<open>Environment\<close>

record environment =
  en_abortAt :: "nat option"
  en_now :: "nat \<Rightarrow> rat"
  en_chat :: "nat \<Rightarrow> chat_answer"
  en_tool :: "nat \<Rightarrow> tool_answer"
  en_poll :: "nat \<Rightarrow> poll_answer"

definition aborted :: "environment \<Rightarrow> nat \<Rightarrow> bool" where
  "aborted env tick = (case en_abortAt env of None \<Rightarrow> False | Some a \<Rightarrow> a \<le> tick)"

section \<open>Trace and effects\<close>

datatype run_status = StCompleted | StFailed | StTimeout | StBudgetExceeded | StCancelled

datatype trace_body =
    TrBoundary nat
  | TrLlmStarted nat
  | TrLlmRetried string nat
  | TrLlmFailed nat string "nat option"
  | TrLlmDone nat rat rat bool "rat option" nat
  | TrToolStarted string string string
  | TrTool string string "string option" bool "string option"
  | TrComplete run_status "string option" bool rat rat "rat option"

datatype run_effect =
    ModelCalled "chat_message list" bool chat_answer
  | Slept rat
  | ToolRan string json string bool
  | Polled

record budget =
  bg_input :: rat
  bg_output :: rat
  bg_context :: "rat option"
  bg_cost :: "rat option"

record loop_state =
  ls_tick :: nat
  ls_seq :: nat
  ls_traces :: "(nat \<times> trace_body) list"
  ls_messages :: "chat_message list"
  ls_budget :: budget
  ls_tokensPerChar :: rat
  ls_lastInput :: "rat option"
  ls_lastOutput :: rat
  ls_queue :: "string list"
  ls_perTool :: "(string \<times> nat) list"
  ls_identical :: "(string \<times> nat) list"
  ls_selfChecked :: bool
  ls_toolCalls :: nat
  ls_effects :: "run_effect list"

text \<open>Append one entry with the next sequence number and hand it to the sinks.\<close>

definition emit :: "trace_body \<Rightarrow> loop_state \<Rightarrow> loop_state" where
  "emit b st = st\<lparr>ls_seq := ls_seq st + 1, ls_traces := ls_traces st @ [(ls_seq st, b)], ls_tick := ls_tick st + 1\<rparr>"

definition await :: "run_effect \<Rightarrow> loop_state \<Rightarrow> loop_state" where
  "await e st = st\<lparr>ls_tick := ls_tick st + 1, ls_effects := ls_effects st @ [e]\<rparr>"

definition say :: "chat_message \<Rightarrow> loop_state \<Rightarrow> loop_state" where
  "say m st = st\<lparr>ls_messages := ls_messages st @ [m]\<rparr>"

definition plain_message :: "role \<Rightarrow> string \<Rightarrow> chat_message" where
  "plain_message r t = \<lparr>cm_role = r, cm_content = t, cm_toolCalls = None, cm_toolCallId = None, cm_name = None\<rparr>"

section \<open>What every step keeps\<close>

text \<open>Entries are numbered 0, 1, 2 and so on over the whole run.\<close>

definition numbered :: "loop_state \<Rightarrow> bool" where
  "numbered st \<longleftrightarrow> map fst (ls_traces st) = [0..<ls_seq st]"

lemma numbered_emit [simp]: "numbered st \<Longrightarrow> numbered (emit b st)"
  by (simp add: numbered_def emit_def)

lemma emit_fields [simp]:
  "ls_messages (emit b st) = ls_messages st" "ls_budget (emit b st) = ls_budget st"
  "ls_tokensPerChar (emit b st) = ls_tokensPerChar st" "ls_lastInput (emit b st) = ls_lastInput st"
  "ls_lastOutput (emit b st) = ls_lastOutput st" "ls_queue (emit b st) = ls_queue st"
  "ls_perTool (emit b st) = ls_perTool st" "ls_identical (emit b st) = ls_identical st"
  "ls_selfChecked (emit b st) = ls_selfChecked st" "ls_toolCalls (emit b st) = ls_toolCalls st"
  "ls_effects (emit b st) = ls_effects st" "ls_tick (emit b st) = ls_tick st + 1" "ls_seq (emit b st) = ls_seq st + 1"
  "ls_traces (emit b st) = ls_traces st @ [(ls_seq st, b)]"
  by (simp_all add: emit_def)

lemma await_fields [simp]:
  "ls_messages (await e st) = ls_messages st" "ls_budget (await e st) = ls_budget st"
  "ls_tokensPerChar (await e st) = ls_tokensPerChar st" "ls_lastInput (await e st) = ls_lastInput st"
  "ls_lastOutput (await e st) = ls_lastOutput st" "ls_queue (await e st) = ls_queue st"
  "ls_perTool (await e st) = ls_perTool st" "ls_identical (await e st) = ls_identical st"
  "ls_selfChecked (await e st) = ls_selfChecked st" "ls_toolCalls (await e st) = ls_toolCalls st"
  "ls_effects (await e st) = ls_effects st @ [e]" "ls_tick (await e st) = ls_tick st + 1" "ls_seq (await e st) = ls_seq st"
  "ls_traces (await e st) = ls_traces st"
  by (simp_all add: await_def)

lemma say_fields [simp]:
  "ls_messages (say m st) = ls_messages st @ [m]" "ls_budget (say m st) = ls_budget st"
  "ls_tokensPerChar (say m st) = ls_tokensPerChar st" "ls_lastInput (say m st) = ls_lastInput st"
  "ls_lastOutput (say m st) = ls_lastOutput st" "ls_queue (say m st) = ls_queue st"
  "ls_perTool (say m st) = ls_perTool st" "ls_identical (say m st) = ls_identical st"
  "ls_selfChecked (say m st) = ls_selfChecked st" "ls_toolCalls (say m st) = ls_toolCalls st"
  "ls_effects (say m st) = ls_effects st" "ls_tick (say m st) = ls_tick st" "ls_seq (say m st) = ls_seq st"
  "ls_traces (say m st) = ls_traces st"
  by (simp_all add: say_def)

lemma numbered_cong: "ls_traces st' = ls_traces st \<Longrightarrow> ls_seq st' = ls_seq st \<Longrightarrow> numbered st' = numbered st"
  by (simp add: numbered_def)

lemma aborted_mono: "aborted env t \<Longrightarrow> t \<le> u \<Longrightarrow> aborted env u"
  by (auto simp: aborted_def split: option.splits)

end
