(* ===== verification/ChatRetry.thy ===== *)
theory ChatRetry
  imports LoopState
begin

text \<open>
  One model call with its retries: \<open>chatWithRetry\<close>, \<open>pickBackoffMs\<close> and the refusal of a call whose
  context is too large, of \<^verbatim>\<open>packages/agent-loop/src/executor.ts\<close>. The refusal is thrown inside the
  same \<open>try\<close> as the call, and its prefix keeps it out of the retries. A sleep ends early on an abort;
  either way it is one tick.
\<close>

definition CONTEXT_REFUSAL_PREFIX :: string where "CONTEXT_REFUSAL_PREFIX = ''context_window_substrate_refused''"
definition DEFAULT_BACKOFF_SCHEDULE :: "rat list" where
  "DEFAULT_BACKOFF_SCHEDULE = [1000, 2000, 5000, 10000, 20000, 30000]"
definition DEFAULT_MAX_RETRIES :: nat where "DEFAULT_MAX_RETRIES = 40"
definition RETRY_AFTER_MAX_MS :: rat where "RETRY_AFTER_MAX_MS = 30000"

definition pickBackoffMs :: "rat list \<Rightarrow> nat \<Rightarrow> rat option \<Rightarrow> rat" where
  "pickBackoffMs schedule attempt retryAfterSec =
     (case retryAfterSec of
        Some s \<Rightarrow> min (max 0 (of_int \<lfloor>s * 1000\<rfloor>)) RETRY_AFTER_MAX_MS
      | None \<Rightarrow>
          (let i = min (attempt - 1) (length schedule - 1) in
           if i < length schedule then schedule ! i else 0))"

definition is_transient :: "chat_error \<Rightarrow> bool" where
  "is_transient e =
     (case e of
        ChatHttp status body msg after \<Rightarrow>
          status = 429 \<or> status = 502 \<or> status = 503 \<or> status = 504 \<or>
          status = 0 \<and> \<not> starts_with (js_or body []) CONTEXT_REFUSAL_PREFIX
      | _ \<Rightarrow> False)"

definition retry_after :: "chat_error \<Rightarrow> rat option" where
  "retry_after e = (case e of ChatHttp status body msg after \<Rightarrow> after | _ \<Rightarrow> None)"

text \<open>\<open>x.toFixed(0)\<close> of a number that is not negative.\<close>

definition to_fixed0 :: "rat \<Rightarrow> string" where
  "to_fixed0 q = string_of_int \<lfloor>q + 1 / 2\<rfloor>"

definition refusal_reason :: "run_config \<Rightarrow> rat \<Rightarrow> rat \<Rightarrow> string" where
  "refusal_reason cfg used window =
     CONTEXT_REFUSAL_PREFIX @ '': context='' @ rc_num cfg used @ '' window='' @ rc_num cfg window @
     '' threshold='' @ rc_num cfg (rc_threshold cfg) @ '' limit='' @ to_fixed0 (rc_threshold cfg * window)"

text \<open>The context the next call would send, when it has to be refused.\<close>

definition refused :: "run_config \<Rightarrow> rat option \<Rightarrow> budget \<Rightarrow> chat_error option" where
  "refused cfg compactedTokens bg =
     (case rc_window cfg of
        None \<Rightarrow> None
      | Some window \<Rightarrow>
          (let used = js_or compactedTokens (js_or (bg_context bg) 0) in
           if rc_threshold cfg * window \<le> used
           then Some (ChatHttp 0 (Some (refusal_reason cfg used window)) (refusal_reason cfg used window) None)
           else None))"

definition abort_error :: chat_error where
  "abort_error = ChatAborted ''LLM request aborted via AbortSignal''"

text \<open>
  The retries left are \<open>maxRetries - attempt\<close>. The result is an error, or the answer with the number
  of retries it took.
\<close>

fun chatWithRetry ::
    "run_config \<Rightarrow> environment \<Rightarrow> bool \<Rightarrow> rat option \<Rightarrow> nat \<Rightarrow> nat \<Rightarrow> loop_state \<Rightarrow>
       (chat_error + chat_result \<times> nat) \<times> loop_state" where
  "chatWithRetry cfg env noTools compactedTokens left attempt st =
     (case refused cfg compactedTokens (ls_budget st) of
        Some e \<Rightarrow> (Inl e, st)
      | None \<Rightarrow>
          (let answer = en_chat env (ls_tick st);
               st1 = await (ModelCalled (ls_messages st) noTools answer) st
           in case answer of
                ChatReturns r \<Rightarrow> (Inr (r, attempt), st1)
              | ChatThrows e \<Rightarrow>
                  (if \<not> is_transient e then (Inl e, st1)
                   else
                     (case left of
                        0 \<Rightarrow> (Inl e, st1)
                      | Suc left' \<Rightarrow>
                          (let backoff = pickBackoffMs (rc_backoff cfg) (attempt + 1) (retry_after e);
                               st2 = await (Slept backoff) (emit (TrLlmRetried (error_message e) attempt) st1)
                           in if aborted env (ls_tick st2) then (Inl abort_error, st2)
                              else chatWithRetry cfg env noTools compactedTokens left' (attempt + 1) st2)))))"

declare chatWithRetry.simps [simp del]

section \<open>The ladder of attempts\<close>

text \<open>A step that changes only the tick, the trace and the effects.\<close>

definition quiet :: "run_effect list \<Rightarrow> loop_state \<Rightarrow> loop_state \<Rightarrow> bool" where
  "quiet es st st' \<longleftrightarrow>
     ls_effects st' = ls_effects st @ es \<and> (numbered st \<longrightarrow> numbered st') \<and> ls_tick st \<le> ls_tick st' \<and>
     ls_messages st' = ls_messages st \<and> ls_budget st' = ls_budget st \<and> ls_tokensPerChar st' = ls_tokensPerChar st \<and>
     ls_lastInput st' = ls_lastInput st \<and> ls_lastOutput st' = ls_lastOutput st \<and> ls_queue st' = ls_queue st \<and>
     ls_perTool st' = ls_perTool st \<and> ls_identical st' = ls_identical st \<and> ls_selfChecked st' = ls_selfChecked st \<and>
     ls_toolCalls st' = ls_toolCalls st"

lemma quiet_emit: "quiet [] st (emit b st)"
  by (simp add: quiet_def)

lemma numbered_await [simp]: "numbered (await e st) = numbered st"
  by (simp add: numbered_def)

lemma numbered_say [simp]: "numbered (say m st) = numbered st"
  by (simp add: numbered_def)

lemma quiet_await: "quiet [e] st (await e st)"
  by (simp add: quiet_def)

lemma quiet_refl: "quiet [] st st"
  by (simp add: quiet_def)

lemma quiet_trans: "quiet es st st1 \<Longrightarrow> quiet fs st1 st2 \<Longrightarrow> quiet (es @ fs) st st2"
  unfolding quiet_def by auto

text \<open>The longest wait of a schedule, hints included.\<close>

definition longest_wait :: "rat list \<Rightarrow> rat" where
  "longest_wait schedule = Max (set (RETRY_AFTER_MAX_MS # schedule))"

lemma pickBackoffMs_le: "pickBackoffMs schedule attempt after \<le> longest_wait schedule"
proof -
  have m: "RETRY_AFTER_MAX_MS \<le> longest_wait schedule" "0 \<le> longest_wait schedule"
    by (simp_all add: longest_wait_def RETRY_AFTER_MAX_MS_def Max_ge_iff)
  have e: "x \<in> set schedule \<Longrightarrow> x \<le> longest_wait schedule" for x
    by (simp add: longest_wait_def Max_ge)
  show ?thesis
    using m e [OF nth_mem] by (auto simp: pickBackoffMs_def Let_def min_le_iff_disj split: option.split)
qed

inductive ladder ::
    "chat_message list \<Rightarrow> bool \<Rightarrow> rat \<Rightarrow> nat \<Rightarrow> run_effect list \<Rightarrow> chat_error + chat_result \<times> nat \<Rightarrow> bool"
  for ms noTools wait
where
  ladder_refused: "ladder ms noTools wait left [] (Inl e)"
| ladder_answer: "ladder ms noTools wait left [ModelCalled ms noTools (ChatReturns r)] (Inr (r, n))"
| ladder_fails: "\<not> is_transient e \<or> left = 0 \<Longrightarrow> ladder ms noTools wait left [ModelCalled ms noTools (ChatThrows e)] (Inl e)"
| ladder_aborted: "is_transient e \<Longrightarrow> b \<le> wait \<Longrightarrow>
    ladder ms noTools wait (Suc left) [ModelCalled ms noTools (ChatThrows e), Slept b] (Inl abort_error)"
| ladder_retry: "is_transient e \<Longrightarrow> b \<le> wait \<Longrightarrow> ladder ms noTools wait left es out \<Longrightarrow>
    ladder ms noTools wait (Suc left) (ModelCalled ms noTools (ChatThrows e) # Slept b # es) out"

lemma chatWithRetry_ladder:
  "chatWithRetry cfg env noTools ct left attempt st = (out, st') \<Longrightarrow>
     \<exists>es. quiet es st st' \<and> ladder (ls_messages st) noTools (longest_wait (rc_backoff cfg)) left es out"
proof (induction left arbitrary: attempt st)
  case 0
  then show ?case
    by (subst (asm) chatWithRetry.simps)
       (auto simp: Let_def split: option.splits chat_answer.splits if_splits
         intro: quiet_await quiet_refl ladder.intros)
next
  case (Suc left)
  let ?wait = "longest_wait (rc_backoff cfg)"
  show ?case
  proof (cases "refused cfg ct (ls_budget st)")
    case (Some e)
    with Suc.prems show ?thesis
      by (subst (asm) chatWithRetry.simps) (auto intro: quiet_refl ladder_refused)
  next
    case None
    define st1 where "st1 = await (ModelCalled (ls_messages st) noTools (en_chat env (ls_tick st))) st"
    show ?thesis
    proof (cases "en_chat env (ls_tick st)")
      case (ChatReturns r)
      with Suc.prems None show ?thesis
        by (subst (asm) chatWithRetry.simps) (auto simp: Let_def intro: quiet_await ladder_answer)
    next
      case (ChatThrows e)
      show ?thesis
      proof (cases "is_transient e")
        case False
        with Suc.prems None ChatThrows show ?thesis
          by (subst (asm) chatWithRetry.simps) (auto simp: Let_def intro: quiet_await ladder_fails)
      next
        case True
        define b where "b = pickBackoffMs (rc_backoff cfg) (attempt + 1) (retry_after e)"
        define st2 where "st2 = await (Slept b) (emit (TrLlmRetried (error_message e) attempt) st1)"
        have b: "b \<le> ?wait" unfolding b_def by (rule pickBackoffMs_le)
        have step: "chatWithRetry cfg env noTools ct (Suc left) attempt st =
            (if aborted env (ls_tick st2) then (Inl abort_error, st2)
             else chatWithRetry cfg env noTools ct left (attempt + 1) st2)"
          using None ChatThrows True
          by (subst chatWithRetry.simps) (simp add: Let_def st1_def st2_def b_def)
        have q: "quiet ([ModelCalled (ls_messages st) noTools (ChatThrows e)] @ [] @ [Slept b]) st st2"
          unfolding st2_def st1_def ChatThrows
          by (rule quiet_trans [OF quiet_await quiet_trans [OF quiet_emit quiet_await]])
        show ?thesis
        proof (cases "aborted env (ls_tick st2)")
          case True
          with step Suc.prems q b \<open>is_transient e\<close> show ?thesis by (auto intro: ladder_aborted)
        next
          case False
          with step Suc.prems have "chatWithRetry cfg env noTools ct left (attempt + 1) st2 = (out, st')" by simp
          from Suc.IH [OF this] obtain es where "quiet es st2 st'" "ladder (ls_messages st2) noTools ?wait left es out"
            by blast
          moreover have "ls_messages st2 = ls_messages st" using q by (simp add: quiet_def)
          ultimately show ?thesis
            using quiet_trans [OF q] ladder_retry [OF \<open>is_transient e\<close> b] by fastforce
        qed
      qed
    qed
  qed
qed

section \<open>What a ladder says\<close>

definition model_calls :: "run_effect list \<Rightarrow> nat" where
  "model_calls es = length (filter (\<lambda>e. case e of ModelCalled _ _ _ \<Rightarrow> True | _ \<Rightarrow> False) es)"

definition waited :: "run_effect list \<Rightarrow> rat" where
  "waited es = (\<Sum>e\<leftarrow>es. case e of Slept b \<Rightarrow> b | _ \<Rightarrow> 0)"

lemma model_calls_simps [simp]:
  "model_calls [] = 0" "model_calls (es @ fs) = model_calls es + model_calls fs"
  "model_calls (ModelCalled a b c # es) = Suc (model_calls es)" "model_calls (Slept d # es) = model_calls es"
  "model_calls (Polled # es) = model_calls es" "model_calls (ToolRan n args g ok # es) = model_calls es"
  by (simp_all add: model_calls_def)

lemma waited_simps [simp]:
  "waited [] = 0" "waited (es @ fs) = waited es + waited fs"
  "waited (ModelCalled a b c # es) = waited es" "waited (Slept d # es) = d + waited es"
  "waited (Polled # es) = waited es" "waited (ToolRan n args g ok # es) = waited es"
  by (simp_all add: waited_def)

lemma ladder_calls: "ladder ms noTools wait left es out \<Longrightarrow> model_calls es \<le> left + 1"
  by (induction rule: ladder.induct) simp_all

lemma ladder_waits: "ladder ms noTools wait left es out \<Longrightarrow> 0 \<le> wait \<Longrightarrow> waited es \<le> of_nat left * wait"
  by (induction rule: ladder.induct) (simp_all add: algebra_simps add_increasing2)

lemma ladder_requests:
  "ladder ms noTools wait left es out \<Longrightarrow> e \<in> set es \<Longrightarrow> (\<exists>a. e = ModelCalled ms noTools a) \<or> (\<exists>b. e = Slept b)"
  by (induction rule: ladder.induct) auto

lemma ladder_returns: "ladder ms noTools wait left es out \<Longrightarrow> out = Inr (r, n) \<Longrightarrow>
    \<exists>fs. es = fs @ [ModelCalled ms noTools (ChatReturns r)] \<and> (\<forall>e\<in>set fs. \<forall>a b c. e \<noteq> ModelCalled a b (ChatReturns c))"
  by (induction rule: ladder.induct) (fastforce simp: Cons_eq_append_conv)+

lemma ladder_throws:
  "ladder ms noTools wait left es out \<Longrightarrow> out = Inl e \<Longrightarrow> f \<in> set es \<Longrightarrow> f \<noteq> ModelCalled a b (ChatReturns c)"
  by (induction rule: ladder.induct) auto

lemma ladder_retries_transient:
  "ladder ms noTools wait left es out \<Longrightarrow> es = fs @ ModelCalled a b (ChatThrows e) # g # gs \<Longrightarrow> is_transient e"
proof (induction arbitrary: fs rule: ladder.induct)
  case (ladder_retry e' b' left es out)
  then show ?case by (auto simp: Cons_eq_append_conv)
qed (auto simp: Cons_eq_append_conv)

lemma longest_wait_nonneg: "0 \<le> longest_wait schedule"
  by (simp add: longest_wait_def RETRY_AFTER_MAX_MS_def Max_ge_iff)

end
