(* ===== verification/ToolDispatch.thy ===== *)
theory ToolDispatch
  imports ChatRetry
begin

text \<open>
  One tool call of the agent loop (\<^verbatim>\<open>packages/agent-loop/src/executor.ts\<close>) with the name resolution of
  \<^verbatim>\<open>tool-provider.ts\<close> and \<open>malformedToolArgs\<close> of \<^verbatim>\<open>llm-client.ts\<close>: the guards, the note about the
  turns left, the cap on results and the dispatch itself. The horizontal ellipsis of a truncated
  result is in its three UTF-8 bytes.
\<close>

section \<open>Names\<close>

definition ends_with :: "string \<Rightarrow> string \<Rightarrow> bool" where
  "ends_with s p \<longleftrightarrow> length p \<le> length s \<and> drop (length s - length p) s = p"

definition candidatesFor :: "(string \<times> string) list \<Rightarrow> string \<Rightarrow> string list" where
  "candidatesFor owners name =
     (if map_of owners name \<noteq> None then [name]
      else filter (\<lambda>n. starts_with n (name @ ''.'') \<or> ends_with n (''.'' @ name)) (map fst owners))"

definition resolveName :: "(string \<times> string) list \<Rightarrow> string \<Rightarrow> string option" where
  "resolveName owners name = (case candidatesFor owners name of [n] \<Rightarrow> Some n | _ \<Rightarrow> None)"

section \<open>Notes\<close>

definition TURNS_LEFT_NOTE_AT :: int where "TURNS_LEFT_NOTE_AT = 3"
definition TURNS_LEFT_NOTE_SHARE :: rat where "TURNS_LEFT_NOTE_SHARE = 15 / 100"
definition HALFWAY_NOTE_MIN_ITERATIONS :: nat where "HALFWAY_NOTE_MIN_ITERATIONS = 20"

text \<open>The time budget is what has elapsed and what there is.\<close>

definition loopTurnNote :: "nat \<Rightarrow> nat \<Rightarrow> (rat \<times> rat) option \<Rightarrow> string" where
  "loopTurnNote iteration maxIterations timeBudget =
     (let turnsLeft = int maxIterations - int iteration - 1;
          elapsed = (case timeBudget of None \<Rightarrow> 0 | Some (e, t) \<Rightarrow> max 0 e);
          timeNote = (case timeBudget of None \<Rightarrow> []
                      | Some (e, t) \<Rightarrow> '', '' @ string_of_int \<lfloor>max 0 (t - elapsed) / 1000\<rfloor> @ '' seconds remaining'');
          turnNo = ''turn '' @ string_of_nat (iteration + 1) @ '' of '' @ string_of_nat maxIterations @ timeNote;
          noteAt = max TURNS_LEFT_NOTE_AT \<lceil>of_nat maxIterations * TURNS_LEFT_NOTE_SHARE\<rceil>;
          finishTime = (case timeBudget of None \<Rightarrow> False | Some (e, t) \<Rightarrow> t * (1 - TURNS_LEFT_NOTE_SHARE) \<le> elapsed);
          halfTime = (case timeBudget of None \<Rightarrow> False | Some (e, t) \<Rightarrow> t / 2 \<le> elapsed)
      in if turnsLeft \<le> noteAt \<or> finishTime then
           [CHR 0x0A, CHR 0x0A] @ ''[loop: '' @ turnNo @ '', '' @
           (if turnsLeft = 0 then ''this was the last turn of the run''
            else string_of_int turnsLeft @ '' turn'' @ (if turnsLeft = 1 then [] else ''s'') @ '' left in this run'') @
           ''. Do what must still be done (write, post, answer, commit) before reading anything more.]''
         else if halfTime \<or> HALFWAY_NOTE_MIN_ITERATIONS \<le> maxIterations \<and> (of_nat maxIterations :: rat) / 2 \<le> of_nat (iteration + 1) then
           [CHR 0x0A, CHR 0x0A] @ ''[loop: '' @ turnNo @
           ''. Half the run is spent: save what runs so far (commit, post) now, then keep improving.]''
         else [CHR 0x0A, CHR 0x0A] @ ''[loop: '' @ turnNo @ ''.]'')"

definition turns_note :: "run_config \<Rightarrow> environment \<Rightarrow> nat \<Rightarrow> nat \<Rightarrow> string" where
  "turns_note cfg env iteration tick =
     loopTurnNote iteration (rc_maxIterations cfg)
       (map_option (\<lambda>(started, timeout). (en_now env tick - started, timeout)) (rc_timeBudget cfg))"

definition horizontal_ellipsis :: string where "horizontal_ellipsis = [CHR 0xE2, CHR 0x80, CHR 0xA6]"

definition capToolResult :: "string \<Rightarrow> nat \<Rightarrow> string" where
  "capToolResult t max_chars =
     (if length t \<le> max_chars then t
      else
        (let head = max_chars * 3 div 4; tail = max_chars - head in
         take head t @ [CHR 0x0A] @ horizontal_ellipsis @ '' [tool result truncated: '' @
         string_of_nat (length t - max_chars) @ '' of '' @ string_of_nat (length t) @ '' chars elided] '' @
         horizontal_ellipsis @ [CHR 0x0A] @ drop (length t - tail) t))"

definition stringifyToolContent :: "run_config \<Rightarrow> json \<Rightarrow> string" where
  "stringifyToolContent cfg v = (case v of JStr s \<Rightarrow> s | _ \<Rightarrow> json_text (rc_num cfg) v)"

section \<open>Guards\<close>

definition MALFORMED_TOOL_ARGS :: string where "MALFORMED_TOOL_ARGS = ''__kagent_malformed_arguments''"

definition malformedToolArgs :: "json \<Rightarrow> string option" where
  "malformedToolArgs v =
     (case v of
        JObj kvs \<Rightarrow> (case obj_get kvs MALFORMED_TOOL_ARGS of JStr s \<Rightarrow> Some s | _ \<Rightarrow> None)
      | _ \<Rightarrow> None)"

definition is_placeholder :: "json \<Rightarrow> bool" where
  "is_placeholder v = (case v of JObj kvs \<Rightarrow> obj_has kvs COMPACTED_ARGS_KEY | _ \<Rightarrow> False)"

definition call_signature :: "run_config \<Rightarrow> tool_call \<Rightarrow> string" where
  "call_signature cfg tc = tc_name tc @ '':'' @ args_text (rc_num cfg) (tc_args tc)"

definition quoted :: "string \<Rightarrow> string" where
  "quoted s = [CHR 0x22] @ s @ [CHR 0x22]"

text \<open>The counts are those with this call.\<close>

definition guard_message :: "run_config \<Rightarrow> tool_call \<Rightarrow> nat \<Rightarrow> nat \<Rightarrow> string option" where
  "guard_message cfg tc identical perTool =
     (case malformedToolArgs (tc_args tc) of
        Some raw \<Rightarrow>
          Some (''guard: the arguments of '' @ quoted (tc_name tc) @ '' were not valid JSON (they began: '' @
            quote_text (take 160 raw) @ ''). The call was not run. Send it again with valid JSON arguments.'')
      | None \<Rightarrow>
          (if is_placeholder (tc_args tc) then
             Some (''guard: the arguments of '' @ quoted (tc_name tc) @ '' are the '' @ quoted COMPACTED_ARGS_KEY @
               '' placeholder that stands in this conversation for an earlier call's elided arguments, not arguments. The call was not run. Write every argument out in full.'')
           else if rc_maxIdentical cfg < identical then
             Some (''guard: '' @ quoted (tc_name tc) @ '' was already called '' @ string_of_nat (identical - 1) @
               '' times with these exact arguments without an intervening successful different call. Do not call it again; answer with what you have, or say what is missing.'')
           else
             (case rc_maxPerTool cfg of
                Some m \<Rightarrow>
                  (if m < perTool then
                     Some (''guard: '' @ quoted (tc_name tc) @ '' has been called '' @ string_of_nat (perTool - 1) @
                       '' times in this run. Answer with what you have, or say what is missing.'')
                   else None)
              | None \<Rightarrow> None)))"

section \<open>Dispatch\<close>

datatype dispatch = Dispatched loop_state | CancelledMidTool loop_state

definition tool_message :: "tool_call \<Rightarrow> string \<Rightarrow> chat_message" where
  "tool_message raw t =
     \<lparr>cm_role = RTool, cm_content = t, cm_toolCalls = None, cm_toolCallId = Some (tc_id raw), cm_name = Some (tc_name raw)\<rparr>"

definition resolved_call :: "run_config \<Rightarrow> tool_call \<Rightarrow> tool_call" where
  "resolved_call cfg raw =
     (case resolveName (rc_owners cfg) (tc_name raw) of None \<Rightarrow> raw | Some n \<Rightarrow> raw\<lparr>tc_name := n\<rparr>)"

definition count_of :: "(string \<times> nat) list \<Rightarrow> string \<Rightarrow> nat" where
  "count_of m k = js_or (map_of m k) 0"

definition count_call :: "run_config \<Rightarrow> tool_call \<Rightarrow> loop_state \<Rightarrow> loop_state" where
  "count_call cfg tc st =
     st\<lparr>ls_perTool := AList.update (tc_name tc) (count_of (ls_perTool st) (tc_name tc) + 1) (ls_perTool st),
        ls_identical := AList.update (call_signature cfg tc) (count_of (ls_identical st) (call_signature cfg tc) + 1) (ls_identical st)\<rparr>"

definition no_provider_message :: "run_config \<Rightarrow> tool_call \<Rightarrow> string" where
  "no_provider_message cfg tc =
     (let near = candidatesFor (rc_owners cfg) (tc_name tc) in
      ''Tool '' @ quoted (tc_name tc) @ '' has no registered provider'' @
      (if near \<noteq> [] then ''; did you mean '' @ js_join '' or '' near @ ''?'' else []))"

text \<open>A provider was found: run the tool.\<close>

definition run_tool :: "run_config \<Rightarrow> environment \<Rightarrow> nat \<Rightarrow> tool_call \<Rightarrow> tool_call \<Rightarrow> string \<Rightarrow> loop_state \<Rightarrow> dispatch" where
  "run_tool cfg env iteration raw tc provider st =
     (let sig = call_signature cfg tc;
          st1 = emit (TrToolStarted (tc_id tc) (tc_name tc) provider) st
      in case en_tool env (ls_tick st1) of
           ToolReturns v isError \<Rightarrow>
             (let st2 = await (ToolRan (tc_name tc) (tc_args tc) sig (\<not> isError)) st1;
                  st3 = (if isError then st2 else st2\<lparr>ls_identical := [(sig, count_of (ls_identical st2) sig)]\<rparr>);
                  st4 = emit (TrTool (tc_id tc) (tc_name tc) (Some provider) isError None) st3
              in Dispatched
                   (say (tool_message raw (capToolResult (stringifyToolContent cfg v) (rc_maxResultChars cfg) @
                       turns_note cfg env iteration (ls_tick st4))) st4))
         | ToolThrows msg \<Rightarrow>
             (let st2 = await (ToolRan (tc_name tc) (tc_args tc) sig False) st1 in
              if aborted env (ls_tick st2) then CancelledMidTool st2
              else
                (let st3 = emit (TrTool (tc_id tc) (tc_name tc) (Some provider) True (Some msg)) st2 in
                 Dispatched (say (tool_message raw (''Error: '' @ msg @ turns_note cfg env iteration (ls_tick st3))) st3))))"

definition dispatch_call :: "run_config \<Rightarrow> environment \<Rightarrow> nat \<Rightarrow> tool_call \<Rightarrow> loop_state \<Rightarrow> dispatch" where
  "dispatch_call cfg env iteration raw st =
     (if aborted env (ls_tick st) then CancelledMidTool st
      else
        (let tc = resolved_call cfg raw;
             st1 = count_call cfg tc st
         in case guard_message cfg tc (count_of (ls_identical st1) (call_signature cfg tc))
                  (count_of (ls_perTool st1) (tc_name tc)) of
              Some g \<Rightarrow>
                (let st2 = emit (TrTool (tc_id tc) (tc_name tc) None True (Some g)) st1 in
                 Dispatched (say (tool_message raw (g @ turns_note cfg env iteration (ls_tick st2))) st2))
            | None \<Rightarrow>
                (case map_of (rc_owners cfg) (tc_name tc) of
                   None \<Rightarrow>
                     (let msg = no_provider_message cfg tc;
                          st2 = emit (TrTool (tc_id tc) (tc_name tc) None True (Some msg)) st1
                      in Dispatched
                           (say (tool_message raw
                              (msg @ (if rc_timeBudget cfg = None then [] else turns_note cfg env iteration (ls_tick st2)))) st2))
                 | Some provider \<Rightarrow> run_tool cfg env iteration raw tc provider st1)))"

fun dispatch_all :: "run_config \<Rightarrow> environment \<Rightarrow> nat \<Rightarrow> tool_call list \<Rightarrow> loop_state \<Rightarrow> dispatch" where
  "dispatch_all cfg env iteration [] st = Dispatched st"
| "dispatch_all cfg env iteration (tc # tcs) st =
     (case dispatch_call cfg env iteration tc st of
        CancelledMidTool st' \<Rightarrow> CancelledMidTool st'
      | Dispatched st' \<Rightarrow> dispatch_all cfg env iteration tcs st')"

section \<open>What a dispatch keeps\<close>

definition tool_runs :: "run_effect list \<Rightarrow> run_effect list" where
  "tool_runs es = filter (\<lambda>e. case e of ToolRan _ _ _ _ \<Rightarrow> True | _ \<Rightarrow> False) es"

text \<open>
  How often a signature has run since a different call last succeeded, read off the history.
\<close>

definition repeat_step :: "string \<Rightarrow> nat \<Rightarrow> run_effect \<Rightarrow> nat" where
  "repeat_step sig n e =
     (case e of ToolRan _ _ g ok \<Rightarrow> (if g = sig then n + 1 else if ok then 0 else n) | _ \<Rightarrow> n)"

definition repeats :: "string \<Rightarrow> run_effect list \<Rightarrow> nat" where
  "repeats sig es = foldl (repeat_step sig) 0 es"

lemma repeats_snoc [simp]: "repeats sig (es @ [e]) = repeat_step sig (repeats sig es) e"
  by (simp add: repeats_def)

lemma repeats_no_tools: "tool_runs fs = [] \<Longrightarrow> repeats sig (es @ fs) = repeats sig es"
  by (induction fs rule: rev_induct)
     (auto simp: tool_runs_def repeat_step_def simp flip: append_assoc split: run_effect.splits)

text \<open>How often a tool has run.\<close>

definition runs_of :: "string \<Rightarrow> run_effect list \<Rightarrow> nat" where
  "runs_of name es = length (filter (\<lambda>e. case e of ToolRan n _ _ _ \<Rightarrow> n = name | _ \<Rightarrow> False) es)"

lemma runs_of_append [simp]: "runs_of name (es @ fs) = runs_of name es + runs_of name fs"
  by (simp add: runs_of_def)

lemma runs_of_Nil [simp]: "runs_of name [] = 0"
  by (simp add: runs_of_def)

lemma runs_of_Cons [simp]:
  "runs_of name (e # es) = (case e of ToolRan n _ _ _ \<Rightarrow> if n = name then 1 else 0 | _ \<Rightarrow> 0) + runs_of name es"
  by (simp add: runs_of_def split: run_effect.split)

lemma runs_of_no_tools: "tool_runs fs = [] \<Longrightarrow> runs_of name fs = 0"
  by (induction fs) (auto simp: tool_runs_def split: run_effect.splits)

text \<open>A run of a tool that the guards let through: known, well formed and not repeated too often.\<close>

definition run_allowed :: "run_config \<Rightarrow> run_effect list \<Rightarrow> run_effect \<Rightarrow> bool" where
  "run_allowed cfg before e =
     (case e of
        ToolRan name args sig ok \<Rightarrow>
          map_of (rc_owners cfg) name \<noteq> None \<and> repeats sig before < rc_maxIdentical cfg \<and>
          sig = name @ '':'' @ args_text (rc_num cfg) args \<and> malformedToolArgs args = None \<and> \<not> is_placeholder args \<and>
          (\<forall>m. rc_maxPerTool cfg = Some m \<longrightarrow> runs_of name before < m)
      | _ \<Rightarrow> True)"

definition runs_allowed :: "run_config \<Rightarrow> run_effect list \<Rightarrow> bool" where
  "runs_allowed cfg es \<longleftrightarrow> (\<forall>p e q. es = p @ e # q \<longrightarrow> run_allowed cfg p e)"

lemma runs_allowed_Nil [simp]: "runs_allowed cfg []"
  by (simp add: runs_allowed_def)

lemma runs_allowed_snoc: "runs_allowed cfg (es @ [e]) \<longleftrightarrow> runs_allowed cfg es \<and> run_allowed cfg es e"
proof
  assume a: "runs_allowed cfg (es @ [e])"
  show "runs_allowed cfg es \<and> run_allowed cfg es e"
    unfolding runs_allowed_def
  proof (intro conjI allI impI)
    fix p x q assume "es = p @ x # q"
    with a [unfolded runs_allowed_def, rule_format, of p x "q @ [e]"] show "run_allowed cfg p x" by simp
  next
    from a [unfolded runs_allowed_def, rule_format, of es e "[]"] show "run_allowed cfg es e" by simp
  qed
next
  assume a: "runs_allowed cfg es \<and> run_allowed cfg es e"
  show "runs_allowed cfg (es @ [e])"
    unfolding runs_allowed_def
  proof (intro allI impI)
    fix p x q assume e: "es @ [e] = p @ x # q"
    show "run_allowed cfg p x"
    proof (cases q rule: rev_cases)
      case Nil
      with e a show ?thesis by simp
    next
      case (snoc q' y)
      with e have "es = p @ x # q'" by simp
      with a show ?thesis by (simp add: runs_allowed_def)
    qed
  qed
qed

lemma runs_allowed_no_tools: "tool_runs fs = [] \<Longrightarrow> runs_allowed cfg es \<Longrightarrow> runs_allowed cfg (es @ fs)"
proof (induction fs rule: rev_induct)
  case (snoc f fs)
  then have "tool_runs fs = []" "tool_runs [f] = []" by (simp_all add: tool_runs_def)
  with snoc have "runs_allowed cfg (es @ fs)" "run_allowed cfg (es @ fs) f"
    by (simp_all add: run_allowed_def tool_runs_def split: run_effect.splits)
  then show ?case by (simp add: runs_allowed_snoc flip: append_assoc)
qed simp

text \<open>The counters of the loop are never below what the history says.\<close>

definition guarded :: "run_config \<Rightarrow> loop_state \<Rightarrow> bool" where
  "guarded cfg st \<longleftrightarrow>
     runs_allowed cfg (ls_effects st) \<and> (\<forall>sig. repeats sig (ls_effects st) \<le> count_of (ls_identical st) sig) \<and>
     (\<forall>name. runs_of name (ls_effects st) \<le> count_of (ls_perTool st) name)"

lemma guarded_cong:
  "ls_effects st' = ls_effects st \<Longrightarrow> ls_identical st' = ls_identical st \<Longrightarrow> ls_perTool st' = ls_perTool st \<Longrightarrow> guarded cfg st' = guarded cfg st"
  by (simp add: guarded_def)

text \<open>One dispatched call: one message that answers it, and at most one tool run.\<close>

definition answers_call :: "tool_call \<Rightarrow> loop_state \<Rightarrow> loop_state \<Rightarrow> bool" where
  "answers_call raw st st' \<longleftrightarrow>
     (\<exists>t. ls_messages st' = ls_messages st @ [tool_message raw t])"

definition tools_only :: "loop_state \<Rightarrow> loop_state \<Rightarrow> bool" where
  "tools_only st st' \<longleftrightarrow>
     (\<exists>es. ls_effects st' = ls_effects st @ es \<and> tool_runs es = es) \<and>
     (numbered st \<longrightarrow> numbered st') \<and> ls_tick st \<le> ls_tick st' \<and> ls_budget st' = ls_budget st \<and>
     ls_queue st' = ls_queue st \<and> ls_tokensPerChar st' = ls_tokensPerChar st"

lemma tools_only_refl: "tools_only st st"
  by (simp add: tools_only_def tool_runs_def)

lemma tools_only_trans: "tools_only st st1 \<Longrightarrow> tools_only st1 st2 \<Longrightarrow> tools_only st st2"
  unfolding tools_only_def by (clarsimp simp: tool_runs_def)

definition state_of :: "dispatch \<Rightarrow> loop_state" where
  "state_of d = (case d of Dispatched st \<Rightarrow> st | CancelledMidTool st \<Rightarrow> st)"

lemma count_of_update: "count_of (AList.update k v m) x = (if x = k then v else count_of m x)"
  by (simp add: count_of_def update_conv')

lemma count_call_fields [simp]:
  "ls_messages (count_call cfg tc st) = ls_messages st" "ls_effects (count_call cfg tc st) = ls_effects st"
  "ls_tick (count_call cfg tc st) = ls_tick st" "ls_budget (count_call cfg tc st) = ls_budget st"
  "ls_queue (count_call cfg tc st) = ls_queue st" "ls_tokensPerChar (count_call cfg tc st) = ls_tokensPerChar st"
  "numbered (count_call cfg tc st) = numbered st"
  "count_of (ls_identical (count_call cfg tc st)) g =
     (if g = call_signature cfg tc then count_of (ls_identical st) g + 1 else count_of (ls_identical st) g)"
  "count_of (ls_perTool (count_call cfg tc st)) n =
     (if n = tc_name tc then count_of (ls_perTool st) n + 1 else count_of (ls_perTool st) n)"
  by (simp_all add: count_call_def numbered_def count_of_update)

lemma guarded_count: "guarded cfg st \<Longrightarrow> guarded cfg (count_call cfg tc st)"
  by (auto simp: guarded_def le_Suc_eq)

lemma guarded_run:
  assumes "guarded cfg st" "run_allowed cfg (ls_effects st) (ToolRan name args sig ok)"
    "repeats sig (ls_effects st) < count_of (ls_identical st) sig"
    "runs_of name (ls_effects st) < count_of (ls_perTool st) name" "ls_perTool st' = ls_perTool st"
    "ls_effects st' = ls_effects st @ [ToolRan name args sig ok]"
    "ls_identical st' = (if ok then [(sig, count_of (ls_identical st) sig)] else ls_identical st)"
  shows "guarded cfg st'"
  using assms by (auto simp: guarded_def runs_allowed_snoc repeat_step_def count_of_def)

lemma tools_only_emit: "tools_only st (emit b st)"
  by (simp add: tools_only_def tool_runs_def)

lemma tools_only_ran: "tools_only st (await (ToolRan n a g ok) st)"
  by (simp add: tools_only_def tool_runs_def)

lemma tools_only_say: "tools_only st (say m st)"
  by (simp add: tools_only_def tool_runs_def)

lemma tools_only_identical: "tools_only st (st\<lparr>ls_identical := m\<rparr>)"
  by (simp add: tools_only_def tool_runs_def numbered_def)

lemma tools_only_count: "tools_only st (count_call cfg tc st)"
  by (simp add: tools_only_def tool_runs_def count_call_def numbered_def)

lemmas tools_only_steps = tools_only_emit tools_only_ran tools_only_say tools_only_identical tools_only_count

text \<open>What a dispatch comes to: the call is answered, or the run was aborted.\<close>

definition dispatch_ok :: "run_config \<Rightarrow> environment \<Rightarrow> tool_call \<Rightarrow> loop_state \<Rightarrow> dispatch \<Rightarrow> bool" where
  "dispatch_ok cfg env raw st d \<longleftrightarrow>
     guarded cfg (state_of d) \<and> tools_only st (state_of d) \<and>
     (case d of Dispatched st' \<Rightarrow> answers_call raw st st' | CancelledMidTool st' \<Rightarrow> aborted env (ls_tick st'))"

lemma dispatch_okI:
  "guarded cfg st' \<Longrightarrow> tools_only st st' \<Longrightarrow> answers_call raw st st' \<Longrightarrow> dispatch_ok cfg env raw st (Dispatched st')"
  by (simp add: dispatch_ok_def state_of_def)

lemma run_tool_ok:
  assumes "guarded cfg st" "\<And>ok. run_allowed cfg (ls_effects st) (ToolRan (tc_name tc) (tc_args tc) (call_signature cfg tc) ok)"
    "repeats (call_signature cfg tc) (ls_effects st) < count_of (ls_identical st) (call_signature cfg tc)"
    "runs_of (tc_name tc) (ls_effects st) < count_of (ls_perTool st) (tc_name tc)"
  shows "dispatch_ok cfg env raw st (run_tool cfg env iteration raw tc provider st)"
proof -
  let ?d = "run_tool cfg env iteration raw tc provider st"
  show ?thesis
  proof (cases "en_tool env (ls_tick (emit (TrToolStarted (tc_id tc) (tc_name tc) provider) st))")
    case (ToolReturns v isError)
    have "guarded cfg (state_of ?d)"
      by (rule guarded_run [OF assms(1) assms(2) [of "\<not> isError"] assms(3,4)])
         (use ToolReturns in \<open>simp_all add: run_tool_def Let_def state_of_def\<close>)
    with ToolReturns show ?thesis
      by (auto simp: dispatch_ok_def run_tool_def Let_def state_of_def tools_only_def tool_runs_def numbered_def answers_call_def)
  next
    case (ToolThrows msg)
    have "guarded cfg (state_of ?d)"
      by (rule guarded_run [OF assms(1) assms(2) [of False] assms(3,4)])
         (use ToolThrows in \<open>simp_all add: run_tool_def Let_def state_of_def\<close>)
    with ToolThrows show ?thesis
      by (auto simp: dispatch_ok_def run_tool_def Let_def state_of_def tools_only_def tool_runs_def numbered_def answers_call_def)
  qed
qed

text \<open>The guards are read off a call that passes them.\<close>

lemma guard_passes:
  assumes "guard_message cfg tc identical perTool = None"
  shows "identical \<le> rc_maxIdentical cfg" "malformedToolArgs (tc_args tc) = None" "\<not> is_placeholder (tc_args tc)"
    "rc_maxPerTool cfg = Some m \<Longrightarrow> perTool \<le> m"
  using assms by (auto simp: guard_message_def split: option.splits if_splits)

lemma guard_allows:
  assumes "guarded cfg st" "map_of (rc_owners cfg) (tc_name tc) \<noteq> None"
    and "guard_message cfg tc (count_of (ls_identical (count_call cfg tc st)) (call_signature cfg tc))
      (count_of (ls_perTool (count_call cfg tc st)) (tc_name tc)) = None"
  shows "run_allowed cfg (ls_effects st) (ToolRan (tc_name tc) (tc_args tc) (call_signature cfg tc) ok)"
    "repeats (call_signature cfg tc) (ls_effects st) < count_of (ls_identical (count_call cfg tc st)) (call_signature cfg tc)"
    "runs_of (tc_name tc) (ls_effects st) < count_of (ls_perTool (count_call cfg tc st)) (tc_name tc)"
proof -
  show t: "runs_of (tc_name tc) (ls_effects st) < count_of (ls_perTool (count_call cfg tc st)) (tc_name tc)"
    using assms(1) by (simp add: guarded_def less_Suc_eq_le)
  show c: "repeats (call_signature cfg tc) (ls_effects st) < count_of (ls_identical (count_call cfg tc st)) (call_signature cfg tc)"
    using assms(1) by (simp add: guarded_def less_Suc_eq_le)
  show "run_allowed cfg (ls_effects st) (ToolRan (tc_name tc) (tc_args tc) (call_signature cfg tc) ok)"
    using guard_passes [OF assms(3)] c t assms(2) unfolding run_allowed_def call_signature_def by auto
qed

text \<open>A message without a tool run.\<close>

lemma refusal_ok:
  assumes "guarded cfg st"
  shows "dispatch_ok cfg env raw st (Dispatched (say (tool_message raw t) (emit b (count_call cfg tc st))))"
proof (rule dispatch_okI)
  show "guarded cfg (say (tool_message raw t) (emit b (count_call cfg tc st)))"
    using guarded_count [OF assms, of tc] guarded_cong [of "say (tool_message raw t) (emit b (count_call cfg tc st))" "count_call cfg tc st"]
    by simp
  show "tools_only st (say (tool_message raw t) (emit b (count_call cfg tc st)))"
    by (rule tools_only_trans [OF tools_only_count tools_only_trans [OF tools_only_emit tools_only_say]])
qed (auto simp: answers_call_def)

lemma dispatch_after_count:
  "dispatch_ok cfg env raw (count_call cfg tc st) d \<Longrightarrow> dispatch_ok cfg env raw st d"
  using tools_only_trans [OF tools_only_count [of st cfg tc], of "state_of d"]
  by (auto simp: dispatch_ok_def answers_call_def split: dispatch.splits)

lemma dispatch_call_ok:
  assumes "guarded cfg st"
  shows "dispatch_ok cfg env raw st (dispatch_call cfg env iteration raw st)"
proof (cases "aborted env (ls_tick st)")
  case True
  with assms show ?thesis by (simp add: dispatch_call_def dispatch_ok_def state_of_def tools_only_refl)
next
  case na: False
  define tc where "tc = resolved_call cfg raw"
  define st1 where "st1 = count_call cfg tc st"
  define perTool where "perTool = count_of (ls_perTool st1) (tc_name tc)"
  note d = dispatch_call_def [of cfg env iteration raw st, unfolded Let_def, folded tc_def, folded st1_def, folded perTool_def]
  show ?thesis
  proof (cases "guard_message cfg tc (count_of (ls_identical st1) (call_signature cfg tc)) perTool")
    case (Some g)
    with na show ?thesis by (simp add: d refusal_ok [OF assms] st1_def)
  next
    case None
    show ?thesis
    proof (cases "map_of (rc_owners cfg) (tc_name tc)")
      case p: None
      with None na show ?thesis by (simp add: d refusal_ok [OF assms] st1_def)
    next
      case (Some provider)
      note g = guard_allows [OF assms _ None [unfolded perTool_def st1_def]]
      have "dispatch_ok cfg env raw st1 (run_tool cfg env iteration raw tc provider st1)"
        unfolding st1_def by (rule run_tool_ok [OF guarded_count [OF assms]]) (use g Some in simp_all)
      then have "dispatch_ok cfg env raw st (run_tool cfg env iteration raw tc provider st1)"
        unfolding st1_def by (rule dispatch_after_count)
      with None Some na show ?thesis by (simp add: d)
    qed
  qed
qed

section \<open>A batch of calls\<close>

text \<open>Every call of the batch gets one answer, in order, unless the run is aborted.\<close>

lemma dispatch_all_ok:
  "guarded cfg st \<Longrightarrow>
     guarded cfg (state_of (dispatch_all cfg env iteration tcs st)) \<and> tools_only st (state_of (dispatch_all cfg env iteration tcs st)) \<and>
     (case dispatch_all cfg env iteration tcs st of
        Dispatched st' \<Rightarrow> \<exists>ts. length ts = length tcs \<and> ls_messages st' = ls_messages st @ map2 tool_message tcs ts
      | CancelledMidTool st' \<Rightarrow> aborted env (ls_tick st'))"
proof (induction tcs arbitrary: st)
  case Nil
  then show ?case by (simp add: state_of_def tools_only_refl)
next
  case (Cons tc tcs)
  note k = dispatch_call_ok [OF Cons.prems, of env tc iteration]
  show ?case
  proof (cases "dispatch_call cfg env iteration tc st")
    case (Dispatched st1)
    with k have k1: "guarded cfg st1" "tools_only st st1" "answers_call tc st st1"
      by (simp_all add: dispatch_ok_def state_of_def)
    from k1(3) obtain t where t: "ls_messages st1 = ls_messages st @ [tool_message tc t]"
      by (auto simp: answers_call_def)
    note ih = Cons.IH [OF k1(1)]
    have "\<exists>us. length us = Suc (length tcs) \<and> ls_messages st' = ls_messages st @ map2 tool_message (tc # tcs) us"
      if d: "dispatch_all cfg env iteration tcs st1 = Dispatched st'" for st'
    proof -
      from ih d obtain ts where "length ts = length tcs" "ls_messages st' = ls_messages st1 @ map2 tool_message tcs ts" by auto
      with t show ?thesis by (intro exI [of _ "t # ts"]) simp
    qed
    with ih Dispatched tools_only_trans [OF k1(2)] show ?thesis by (auto split: dispatch.splits)
  next
    case (CancelledMidTool st1)
    with k show ?thesis by (simp add: dispatch_ok_def)
  qed
qed

end
