(* ===== verification/AgentLoop.thy ===== *)
theory AgentLoop
  imports ToolDispatch
begin

text \<open>
  A run of the agent loop: \<open>AgentExecutor\<close> of \<^verbatim>\<open>packages/agent-loop/src/executor.ts\<close>, its
  constructor, the checks at the start of \<open>run\<close>, the loop and its result. The federated tool
  descriptors and the owner of each name are given with the run.
\<close>

section \<open>Construction and input checks\<close>

record executor_options =
  eo_defaultMaxIterations :: "jsnum option"
  eo_maxRetries :: "jsnum option"
  eo_backoffSchedule :: "jsnum list option"
  eo_maxIdenticalCalls :: "nat option"
  eo_maxCallsPerTool :: "nat option"
  eo_maxToolResultChars :: "nat option"

record agent_def =
  ad_systemPrompt :: "string option"
  ad_maxTokens :: "rat option"

record run_input =
  ri_messages :: "chat_message list"
  ri_maxIterations :: "jsnum option"
  ri_selfCheck :: "string option"
  ri_tokenLimit :: "rat option"
  ri_costLimit :: "rat option"
  ri_window :: "rat option"
  ri_threshold :: "jsnum option"
  ri_timeBudget :: "(jsnum \<times> jsnum) option"
  ri_polls :: bool

datatype run_error =
    AgentNotFound
  | InvalidConfig string
  | DescribeFailed string
  | CompactionThrew js_throw

text \<open>\<open>!Number.isInteger(n) || n <= 0\<close>, and the like; \<open>None\<close> is a value that was refused.\<close>

definition whole_from :: "rat \<Rightarrow> jsnum \<Rightarrow> nat option" where
  "whole_from lo n = (case n of Fin q \<Rightarrow> (if js_isInteger q \<and> lo \<le> q then Some (nat \<lfloor>q\<rfloor>) else None) | NonFinite \<Rightarrow> None)"

definition backoff_entry_ok :: "jsnum \<Rightarrow> bool" where
  "backoff_entry_ok n = (case n of Fin q \<Rightarrow> 0 \<le> q | NonFinite \<Rightarrow> False)"

definition jsnum_value :: "jsnum \<Rightarrow> rat" where
  "jsnum_value n = (case n of Fin q \<Rightarrow> q | NonFinite \<Rightarrow> 0)"

text \<open>What the constructor keeps, or the field it refuses.\<close>

record executor =
  ex_defaultMaxIterations :: nat
  ex_maxRetries :: nat
  ex_backoff :: "rat list"
  ex_maxIdentical :: nat
  ex_maxPerTool :: "nat option"
  ex_maxResultChars :: nat

definition construct :: "executor_options \<Rightarrow> run_error + executor" where
  "construct opts =
     (case map_option (whole_from 1) (eo_defaultMaxIterations opts) of
        Some None \<Rightarrow> Inl (InvalidConfig ''defaultMaxIterations'')
      | iterations \<Rightarrow>
          (case map_option (whole_from 0) (eo_maxRetries opts) of
             Some None \<Rightarrow> Inl (InvalidConfig ''retryPolicy.maxRetries'')
           | retries \<Rightarrow>
               (if \<not> list_all backoff_entry_ok (or_empty (eo_backoffSchedule opts))
                then Inl (InvalidConfig ''retryPolicy.backoffSchedule'')
                else Inr
                  \<lparr>ex_defaultMaxIterations = js_or (Option.bind iterations id) 8,
                   ex_maxRetries = js_or (Option.bind retries id) DEFAULT_MAX_RETRIES,
                   ex_backoff = (case or_empty (eo_backoffSchedule opts) of
                      [] \<Rightarrow> DEFAULT_BACKOFF_SCHEDULE | ns \<Rightarrow> map jsnum_value ns),
                   ex_maxIdentical = js_or (eo_maxIdenticalCalls opts) 2,
                   ex_maxPerTool = eo_maxCallsPerTool opts,
                   ex_maxResultChars = js_or (eo_maxToolResultChars opts) 16000\<rparr>)))"

definition time_budget_ok :: "jsnum \<times> jsnum \<Rightarrow> bool" where
  "time_budget_ok b = (case b of (Fin s, Fin t) \<Rightarrow> 0 < t | _ \<Rightarrow> False)"

definition threshold_ok :: "jsnum \<Rightarrow> bool" where
  "threshold_ok n = (case n of Fin q \<Rightarrow> 0 < q \<and> q \<le> 1 | NonFinite \<Rightarrow> False)"

definition configure ::
    "(rat \<Rightarrow> string) \<Rightarrow> executor \<Rightarrow> agent_def option \<Rightarrow> run_input \<Rightarrow> (string \<times> string) list \<Rightarrow>
       run_error + run_config" where
  "configure num ex agent inp owners =
     (case agent of
        None \<Rightarrow> Inl AgentNotFound
      | Some ad \<Rightarrow>
          (case map_option (whole_from 1) (ri_maxIterations inp) of
             Some None \<Rightarrow> Inl (InvalidConfig ''maxIterations'')
           | iterations \<Rightarrow>
               (if \<not> (case ri_timeBudget inp of None \<Rightarrow> True | Some b \<Rightarrow> time_budget_ok b)
                then Inl (InvalidConfig ''timeBudget'')
                else if \<not> (case ri_threshold inp of None \<Rightarrow> True | Some t \<Rightarrow> threshold_ok t)
                then Inl (InvalidConfig ''contextSafetyThreshold'')
                else
                  Inr  \<lparr>rc_num = num, rc_systemPrompt = ad_systemPrompt ad, rc_maxTokens = ad_maxTokens ad,
                        rc_maxIterations = js_or (Option.bind iterations id) (ex_defaultMaxIterations ex),
                        rc_window = ri_window inp, rc_threshold = (case ri_threshold inp of None \<Rightarrow> 95 / 100 | Some t \<Rightarrow> jsnum_value t),
                        rc_tokenLimit = ri_tokenLimit inp, rc_costLimit = ri_costLimit inp, rc_selfCheck = ri_selfCheck inp,
                        rc_timeBudget = map_option (\<lambda>(s, t). (jsnum_value s, jsnum_value t)) (ri_timeBudget inp),
                        rc_polls = ri_polls inp, rc_tools = [], rc_owners = owners,
                        rc_maxRetries = ex_maxRetries ex, rc_backoff = ex_backoff ex,
                        rc_maxIdentical = ex_maxIdentical ex, rc_maxPerTool = ex_maxPerTool ex,
                        rc_maxResultChars = ex_maxResultChars ex\<rparr>)))"

section \<open>One turn\<close>

definition OPERATOR_INPUT_PER_TURN :: nat where "OPERATOR_INPUT_PER_TURN = 4"

definition ANSWER_TURN_NOTE :: string where
  "ANSWER_TURN_NOTE = ''[loop: this run is out of turns and no more tool calls will run. Reply now with your final answer.]''"

definition poll_operator :: "run_config \<Rightarrow> environment \<Rightarrow> loop_state \<Rightarrow> loop_state" where
  "poll_operator cfg env st =
     (if \<not> rc_polls cfg then st
      else
        (let drained = (case en_poll env (ls_tick st) of PollReturns ts \<Rightarrow> ts | PollThrows \<Rightarrow> []);
             st1 = await Polled st;
             queue = ls_queue st1 @ drained
         in st1\<lparr>ls_queue := drop OPERATOR_INPUT_PER_TURN queue,
                ls_messages := ls_messages st1 @
                  map (\<lambda>t. plain_message RUser (''[operator message] '' @ t)) (take OPERATOR_INPUT_PER_TURN queue)\<rparr>))"

definition schema_chars :: "run_config \<Rightarrow> nat" where
  "schema_chars cfg = (if rc_tools cfg = [] then 0 else length (json_text (rc_num cfg) (JArr (rc_tools cfg))))"

text \<open>Fit the conversation to the window; the count of what is sent when that made it smaller.\<close>

definition fit_window :: "run_config \<Rightarrow> loop_state \<Rightarrow> js_throw + loop_state \<times> rat option" where
  "fit_window cfg st =
     (case rc_window cfg of
        None \<Rightarrow> Inr (st, None)
      | Some window \<Rightarrow>
          (let before = conversationChars (rc_num cfg) (ls_messages st);
               reserve = max (ls_lastOutput st) (js_or (rc_maxTokens cfg) 0)
           in case compactConversation
                  \<lparr>fr_num = rc_num cfg, fr_window = window, fr_tokensPerChar = ls_tokensPerChar st,
                   fr_lastInput = ls_lastInput st, fr_schemaChars = schema_chars cfg, fr_reserve = reserve\<rparr>
                  (ls_messages st) of
                Inl e \<Rightarrow> Inl e
              | Inr (ms, n) \<Rightarrow>
                  (let after = conversationChars (rc_num cfg) ms in
                   Inr (st\<lparr>ls_messages := ms\<rparr>,
                        if 0 < n \<and> after < before
                        then Some (of_int \<lceil>of_nat (after + schema_chars cfg) * ls_tokensPerChar st\<rceil> + reserve)
                        else None))))"

definition estimateTokens :: "string \<Rightarrow> rat" where
  "estimateTokens t = of_int \<lceil>(of_nat (length t) :: rat) / 4\<rceil>"

definition call_input :: "loop_state \<Rightarrow> chat_result \<Rightarrow> rat" where
  "call_input st r = js_or (cr_inputTokens r) (estimateTokens (js_join [CHR 0x0A] (map cm_content (ls_messages st))))"

definition call_output :: "chat_result \<Rightarrow> rat" where
  "call_output r = js_or (cr_outputTokens r) (estimateTokens (cr_content r))"

definition account :: "run_config \<Rightarrow> nat \<Rightarrow> chat_result \<Rightarrow> nat \<Rightarrow> loop_state \<Rightarrow> loop_state" where
  "account cfg iteration r retries st =
     (let inp = call_input st r; out = call_output r;
          reported = cr_inputTokens r \<noteq> None \<and> cr_outputTokens r \<noteq> None;
          requestChars = conversationChars (rc_num cfg) (ls_messages st) + schema_chars cfg;
          st1 = emit (TrLlmDone iteration inp out reported (cr_costUsd r) retries) st;
          bg = ls_budget st1
      in st1\<lparr>ls_budget :=
                \<lparr>bg_input = bg_input bg + inp, bg_output = bg_output bg + out, bg_context = Some (inp + out),
                 bg_cost = (case cr_costUsd r of None \<Rightarrow> bg_cost bg | Some c \<Rightarrow> Some (js_or (bg_cost bg) 0 + c))\<rparr>,
             ls_lastOutput := out,
             ls_tokensPerChar := (case cr_inputTokens r of
                Some i \<Rightarrow> (if 0 < requestChars then max DEFAULT_TOKENS_PER_CHAR (i / of_nat requestChars) else ls_tokensPerChar st1)
              | None \<Rightarrow> ls_tokensPerChar st1),
             ls_lastInput := (case cr_inputTokens r of
                Some i \<Rightarrow> (if 0 < requestChars then Some i else ls_lastInput st1)
              | None \<Rightarrow> ls_lastInput st1)\<rparr>)"

definition over_budget :: "run_config \<Rightarrow> budget \<Rightarrow> bool" where
  "over_budget cfg bg \<longleftrightarrow>
     (case rc_tokenLimit cfg of None \<Rightarrow> False | Some l \<Rightarrow> l \<le> bg_input bg + bg_output bg) \<or>
     (case (rc_costLimit cfg, bg_cost bg) of (Some l, Some c) \<Rightarrow> l \<le> c | _ \<Rightarrow> False)"

text \<open>A call without an id gets one from its name and the sequence number.\<close>

definition synthesized :: "nat \<Rightarrow> tool_call list \<Rightarrow> tool_call list" where
  "synthesized sequence tcs =
     map2 (\<lambda>idx tc. if tc_id tc \<noteq> [] then tc
                     else tc\<lparr>tc_id := ''call_'' @ tc_name tc @ ''_'' @ string_of_nat (sequence + idx + 1)\<rparr>)
       [0..<length tcs] tcs"

record verdict =
  vd_status :: run_status
  vd_final :: "string option"
  vd_natural :: bool
  vd_error :: "string option"

definition ends_as :: "run_status \<Rightarrow> verdict" where
  "ends_as s = \<lparr>vd_status = s, vd_final = None, vd_natural = True, vd_error = None\<rparr>"

text \<open>Out of turns, with no answer.\<close>

definition out_of_turns :: verdict where
  "out_of_turns = \<lparr>vd_status = StCompleted, vd_final = None, vd_natural = False, vd_error = None\<rparr>"

datatype turn_outcome = TurnNext loop_state | TurnEnds verdict loop_state | TurnThrows js_throw

text \<open>What follows a model answer that was accounted for.\<close>

definition assistant_message :: "string \<Rightarrow> tool_call list \<Rightarrow> chat_message" where
  "assistant_message t tcs =
     \<lparr>cm_role = RAssistant, cm_content = t, cm_toolCalls = Some tcs, cm_toolCallId = None, cm_name = None\<rparr>"

definition act_on :: "run_config \<Rightarrow> environment \<Rightarrow> nat \<Rightarrow> chat_result \<Rightarrow> tool_call list \<Rightarrow> loop_state \<Rightarrow> turn_outcome" where
  "act_on cfg env iteration r calls st =
     (let answerTurn = iteration = rc_maxIterations cfg in
      if answerTurn \<or> calls = [] then
        (if answerTurn \<and> js_trim (cr_content r) = [] then TurnEnds out_of_turns st
         else
           (case rc_selfCheck cfg of
              Some check \<Rightarrow>
                (if \<not> answerTurn \<and> \<not> ls_selfChecked st \<and> ls_toolCalls st = 0
                 then TurnNext (say (plain_message RUser check)
                        (say (plain_message RAssistant (cr_content r)) (st\<lparr>ls_selfChecked := True\<rparr>)))
                 else TurnEnds ((ends_as StCompleted)\<lparr>vd_final := Some (cr_content r)\<rparr>) st)
            | None \<Rightarrow> TurnEnds ((ends_as StCompleted)\<lparr>vd_final := Some (cr_content r)\<rparr>) st))
      else
        (case dispatch_all cfg env iteration calls
               (say (assistant_message (cr_content r) calls) (st\<lparr>ls_toolCalls := ls_toolCalls st + length calls\<rparr>)) of
           CancelledMidTool st' \<Rightarrow> TurnEnds (ends_as StCancelled) st'
         | Dispatched st' \<Rightarrow> TurnNext st'))"

definition failed_retry_mark :: "run_config \<Rightarrow> chat_error \<Rightarrow> nat option" where
  "failed_retry_mark cfg e =
     (case e of ChatHttp status body msg after \<Rightarrow>
        (if status = 429 \<and> 0 < rc_maxRetries cfg then Some (rc_maxRetries cfg) else None)
      | _ \<Rightarrow> None)"

text \<open>The model call of a turn and what follows.\<close>

definition ask_model :: "run_config \<Rightarrow> environment \<Rightarrow> nat \<Rightarrow> rat option \<Rightarrow> loop_state \<Rightarrow> turn_outcome" where
  "ask_model cfg env iteration compactedTokens st =
     (let answerTurn = iteration = rc_maxIterations cfg;
          st1 = emit (TrLlmStarted iteration) st
      in case chatWithRetry cfg env (answerTurn \<and> rc_tools cfg \<noteq> []) compactedTokens (rc_maxRetries cfg) 0 st1 of
           (Inl e, st2) \<Rightarrow>
             (if aborted env (ls_tick st2) then TurnEnds (ends_as StCancelled) st2
              else
                TurnEnds ((ends_as StFailed)\<lparr>vd_error := Some (error_message e)\<rparr>)
                  (emit (TrLlmFailed iteration (error_message e) (failed_retry_mark cfg e)) st2))
         | (Inr (r, retries), st2) \<Rightarrow>
             (let calls = synthesized (ls_seq st2) (or_empty (cr_toolCalls r));
                  st3 = account cfg iteration r retries st2
              in if over_budget cfg (ls_budget st3) then TurnEnds (ends_as StBudgetExceeded) st3
                 else if aborted env (ls_tick st3) then TurnEnds (ends_as StCancelled) st3
                 else act_on cfg env iteration r calls st3))"

definition run_turn :: "run_config \<Rightarrow> environment \<Rightarrow> nat \<Rightarrow> loop_state \<Rightarrow> turn_outcome" where
  "run_turn cfg env iteration st =
     (if aborted env (ls_tick st) then TurnEnds (ends_as StCancelled) st
      else
        (let st1 = poll_operator cfg env st;
             st2 = (if iteration = rc_maxIterations cfg then say (plain_message RUser ANSWER_TURN_NOTE) st1 else st1);
             st3 = emit (TrBoundary iteration) st2
         in case fit_window cfg st3 of
              Inl e \<Rightarrow> TurnThrows e
            | Inr (st4, compactedTokens) \<Rightarrow> ask_model cfg env iteration compactedTokens st4))"

section \<open>The run\<close>

text \<open>The number of turns that are left, the answer turn included.\<close>

fun run_turns :: "run_config \<Rightarrow> environment \<Rightarrow> nat \<Rightarrow> loop_state \<Rightarrow> js_throw + verdict \<times> loop_state" where
  "run_turns cfg env 0 st = Inr (out_of_turns, st)"
| "run_turns cfg env (Suc n) st =
     (case run_turn cfg env (rc_maxIterations cfg - n) st of
        TurnThrows e \<Rightarrow> Inl e
      | TurnEnds v st' \<Rightarrow> Inr (v, st')
      | TurnNext st' \<Rightarrow> run_turns cfg env n st')"

record execution_result =
  xr_status :: run_status
  xr_final :: "string option"
  xr_hitCap :: bool
  xr_budget :: budget
  xr_traces :: "(nat \<times> trace_body) list"
  xr_error :: "string option"

definition initial_state :: "run_config \<Rightarrow> chat_message list \<Rightarrow> loop_state" where
  "initial_state cfg ms =
     \<lparr>ls_tick = 0, ls_seq = 0, ls_traces = [],
      ls_messages = (case rc_systemPrompt cfg of
         Some p \<Rightarrow> (if p \<noteq> [] \<and> (ms = [] \<or> cm_role (hd ms) \<noteq> RSystem) then plain_message RSystem p # ms else ms)
       | None \<Rightarrow> ms),
      ls_budget = \<lparr>bg_input = 0, bg_output = 0, bg_context = None, bg_cost = None\<rparr>,
      ls_tokensPerChar = DEFAULT_TOKENS_PER_CHAR, ls_lastInput = None, ls_lastOutput = 0, ls_queue = [],
      ls_perTool = [], ls_identical = [], ls_selfChecked = False, ls_toolCalls = 0, ls_effects = []\<rparr>"

definition finish_run :: "verdict \<Rightarrow> loop_state \<Rightarrow> execution_result \<times> loop_state" where
  "finish_run v st =
     (let hitCap = (\<not> vd_natural v \<and> vd_status v = StCompleted);
          bg = ls_budget st;
          st1 = emit (TrComplete (vd_status v) (vd_final v) hitCap (bg_input bg) (bg_output bg) (bg_cost bg)) st
      in (\<lparr>xr_status = vd_status v, xr_final = vd_final v, xr_hitCap = hitCap, xr_budget = ls_budget st1,
           xr_traces = ls_traces st1, xr_error = vd_error v\<rparr>, st1))"

text \<open>
  A run over the tools its providers describe, after a configuration without them. The state is
  returned with the result, for what it says of the effects.
\<close>

definition run :: "run_config \<Rightarrow> environment \<Rightarrow> string + json list \<Rightarrow> chat_message list \<Rightarrow> run_error + execution_result \<times> loop_state" where
  "run cfg env described ms =
     (let st = initial_state cfg ms in
      if aborted env 0 then
        Inr (\<lparr>xr_status = StCancelled, xr_final = None, xr_hitCap = False, xr_budget = ls_budget st, xr_traces = [],
              xr_error = None\<rparr>, st)
      else
        (case described of
           Inl e \<Rightarrow> Inl (DescribeFailed e)
         | Inr tools \<Rightarrow>
             (case run_turns (cfg\<lparr>rc_tools := tools\<rparr>) env (rc_maxIterations cfg + 1) (st\<lparr>ls_tick := 1\<rparr>) of
                Inl e \<Rightarrow> Inl (CompactionThrew e)
              | Inr (v, st') \<Rightarrow> Inr (finish_run v st'))))"

definition execute ::
    "(rat \<Rightarrow> string) \<Rightarrow> executor \<Rightarrow> agent_def option \<Rightarrow> run_input \<Rightarrow> string + json list \<Rightarrow> (string \<times> string) list \<Rightarrow>
       environment \<Rightarrow> run_error + execution_result \<times> loop_state" where
  "execute num ex agent inp described owners env =
     (case configure num ex agent inp owners of
        Inl e \<Rightarrow> Inl e
      | Inr cfg \<Rightarrow> run cfg env described (ri_messages inp))"

section \<open>The books of a run\<close>

text \<open>What the calls of the model have cost, read off the history.\<close>

definition spend :: "budget \<Rightarrow> run_effect \<Rightarrow> budget" where
  "spend bg e =
     (case e of
        ModelCalled ms _ (ChatReturns r) \<Rightarrow>
          (let inp = js_or (cr_inputTokens r) (estimateTokens (js_join [CHR 0x0A] (map cm_content ms)));
               out = js_or (cr_outputTokens r) (estimateTokens (cr_content r))
           in \<lparr>bg_input = bg_input bg + inp, bg_output = bg_output bg + out, bg_context = Some (inp + out),
               bg_cost = (case cr_costUsd r of None \<Rightarrow> bg_cost bg | Some c \<Rightarrow> Some (js_or (bg_cost bg) 0 + c))\<rparr>)
      | _ \<Rightarrow> bg)"

definition spent :: "run_effect list \<Rightarrow> budget" where
  "spent es = foldl spend \<lparr>bg_input = 0, bg_output = 0, bg_context = None, bg_cost = None\<rparr> es"

lemma spent_snoc: "spent (es @ [e]) = spend (spent es) e"
  by (simp add: spent_def)

lemma spent_idle: "\<forall>e\<in>set fs. \<forall>a b c. e \<noteq> ModelCalled a b (ChatReturns c) \<Longrightarrow> spent (es @ fs) = spent es"
proof (induction fs rule: rev_induct)
  case (snoc f fs)
  then have "spend bg f = bg" for bg by (auto simp: spend_def split: run_effect.splits chat_answer.splits)
  with snoc show ?case by (simp add: spent_snoc flip: append_assoc)
qed simp

definition requests_ok :: "run_effect list \<Rightarrow> bool" where
  "requests_ok es \<longleftrightarrow> (\<forall>ms b a. ModelCalled ms b a \<in> set es \<longrightarrow> well_formed ms)"

lemma requests_ok_append: "requests_ok (es @ fs) \<longleftrightarrow> requests_ok es \<and> requests_ok fs"
  unfolding requests_ok_def set_append by blast

text \<open>The history is in order whatever the turn came to.\<close>

definition log_ok :: "run_config \<Rightarrow> loop_state \<Rightarrow> bool" where
  "log_ok cfg st \<longleftrightarrow>
     numbered st \<and> guarded cfg st \<and> requests_ok (ls_effects st) \<and> ls_budget st = spent (ls_effects st)"

definition loop_inv :: "run_config \<Rightarrow> loop_state \<Rightarrow> bool" where
  "loop_inv cfg st \<longleftrightarrow> log_ok cfg st \<and> well_formed (ls_messages st)"

lemma tool_runs_all: "tool_runs es = es \<Longrightarrow> \<forall>e\<in>set es. \<exists>n a g k. e = ToolRan n a g k"
proof
  fix e assume "tool_runs es = es" "e \<in> set es"
  then have "e \<in> set (tool_runs es)" by simp
  then show "\<exists>n a g k. e = ToolRan n a g k" by (auto simp: tool_runs_def split: run_effect.splits)
qed

lemma tools_only_log:
  assumes "tools_only st st'" "guarded cfg st'" "log_ok cfg st"
  shows "log_ok cfg st'"
proof -
  from assms(1) obtain es where es: "ls_effects st' = ls_effects st @ es" "tool_runs es = es"
    by (auto simp: tools_only_def)
  note r = tool_runs_all [OF es(2)]
  have "spent (ls_effects st @ es) = spent (ls_effects st)"
    by (rule spent_idle) (use r in fastforce)
  moreover have "requests_ok es" using r unfolding requests_ok_def by fastforce
  ultimately show ?thesis
    using assms es(1) by (simp add: log_ok_def requests_ok_append tools_only_def)
qed

text \<open>How far the effects of one turn go.\<close>

definition bounded_turn :: "run_config \<Rightarrow> loop_state \<Rightarrow> loop_state \<Rightarrow> bool" where
  "bounded_turn cfg st st' \<longleftrightarrow>
     model_calls (ls_effects st') \<le> model_calls (ls_effects st) + rc_maxRetries cfg + 1 \<and>
     waited (ls_effects st') \<le> waited (ls_effects st) + of_nat (rc_maxRetries cfg) * longest_wait (rc_backoff cfg)"

lemma tool_runs_idle: "tool_runs es = es \<Longrightarrow> model_calls es = 0 \<and> waited es = 0"
proof -
  assume "tool_runs es = es"
  from tool_runs_all [OF this] show ?thesis by (induction es) auto
qed

lemma bounded_turn_tools: "bounded_turn cfg st st1 \<Longrightarrow> tools_only st1 st2 \<Longrightarrow> bounded_turn cfg st st2"
  by (auto simp: bounded_turn_def tools_only_def dest: tool_runs_idle)

section \<open>Verdicts\<close>

definition verdict_ok :: "run_config \<Rightarrow> environment \<Rightarrow> verdict \<Rightarrow> loop_state \<Rightarrow> bool" where
  "verdict_ok cfg env v st \<longleftrightarrow>
     (case vd_status v of
        StCompleted \<Rightarrow> vd_error v = None \<and>
          (case vd_final v of
             None \<Rightarrow> \<not> vd_natural v
           | Some t \<Rightarrow> vd_natural v \<and> (\<exists>es ms b r. ls_effects st = es @ [ModelCalled ms b (ChatReturns r)] \<and> cr_content r = t))
      | StFailed \<Rightarrow> vd_natural v \<and> vd_final v = None \<and> vd_error v \<noteq> None
      | StTimeout \<Rightarrow> False
      | StBudgetExceeded \<Rightarrow> vd_natural v \<and> vd_final v = None \<and> vd_error v = None \<and> over_budget cfg (ls_budget st)
      | StCancelled \<Rightarrow> vd_natural v \<and> vd_final v = None \<and> vd_error v = None \<and> aborted env (ls_tick st))"

definition turn_ok :: "run_config \<Rightarrow> environment \<Rightarrow> loop_state \<Rightarrow> turn_outcome \<Rightarrow> bool" where
  "turn_ok cfg env st out \<longleftrightarrow>
     (case out of
        TurnNext st' \<Rightarrow> loop_inv cfg st' \<and> bounded_turn cfg st st'
      | TurnEnds v st' \<Rightarrow> log_ok cfg st' \<and> verdict_ok cfg env v st' \<and> bounded_turn cfg st st'
      | TurnThrows e \<Rightarrow> True)"

section \<open>One turn keeps the books\<close>

lemma protocol_answers:
  "length ts = length tcs \<Longrightarrow> protocol (map tc_id tcs) (map shell (map2 tool_message tcs ts)) = Some []"
  by (induction tcs ts rule: list_induct2') (simp_all add: shell_def tool_message_def)

lemma well_formed_exchange:
  assumes "well_formed ms" "length ts = length tcs"
  shows "well_formed (ms @ [assistant_message t tcs] @ map2 tool_message tcs ts)"
proof -
  have "protocol [] (map shell ([assistant_message t tcs] @ map2 tool_message tcs ts)) = Some []"
    using protocol_answers [OF assms(2)] by (simp add: shell_def assistant_message_def)
  with assms(1) show ?thesis by (simp add: well_formed_def protocol_append)
qed

lemma well_formed_plain: "well_formed ms \<Longrightarrow> r \<noteq> RTool \<Longrightarrow> well_formed (ms @ [plain_message r t])"
  by (simp add: well_formed_def protocol_append shell_def plain_message_def)

lemma well_formed_plains:
  "well_formed ms \<Longrightarrow> r \<noteq> RTool \<Longrightarrow> well_formed (ms @ map (plain_message r) ts)"
proof (induction ts rule: rev_induct)
  case (snoc t ts)
  from well_formed_plain [OF snoc.IH [OF snoc.prems] snoc.prems(2)] show ?case by simp
qed simp

lemma log_ok_cong:
  "ls_traces st' = ls_traces st \<Longrightarrow> ls_seq st' = ls_seq st \<Longrightarrow> ls_effects st' = ls_effects st \<Longrightarrow>
     ls_identical st' = ls_identical st \<Longrightarrow> ls_perTool st' = ls_perTool st \<Longrightarrow> ls_budget st' = ls_budget st \<Longrightarrow> log_ok cfg st' = log_ok cfg st"
  by (simp add: log_ok_def numbered_def guarded_def)

lemma log_ok_emit: "log_ok cfg st \<Longrightarrow> log_ok cfg (emit b st)"
  by (simp add: log_ok_def guarded_def)

lemma log_ok_say: "log_ok cfg (say m st) = log_ok cfg st"
  by (rule log_ok_cong) simp_all

lemma act_on_ok:
  assumes inv: "loop_inv cfg st1" "bounded_turn cfg st st1"
    and last: "\<exists>es ms b. ls_effects st1 = es @ [ModelCalled ms b (ChatReturns r)]"
  shows "turn_ok cfg env st (act_on cfg env iteration r calls st1)"
proof (cases "iteration = rc_maxIterations cfg \<or> calls = []")
  case True
  have answer: "turn_ok cfg env st (TurnEnds ((ends_as StCompleted)\<lparr>vd_final := Some (cr_content r)\<rparr>) st1)"
    using inv last by (auto simp: turn_ok_def loop_inv_def verdict_ok_def ends_as_def)
  have capped: "turn_ok cfg env st (TurnEnds out_of_turns st1)"
    using inv by (simp add: turn_ok_def loop_inv_def verdict_ok_def out_of_turns_def)
  have again: "turn_ok cfg env st (TurnNext (say (plain_message RUser check)
      (say (plain_message RAssistant (cr_content r)) (st1\<lparr>ls_selfChecked := True\<rparr>))))" for check
    using inv well_formed_plain [OF well_formed_plain, of "ls_messages st1" RAssistant RUser "cr_content r" check]
    by (simp add: turn_ok_def loop_inv_def log_ok_say log_ok_cong [of "st1\<lparr>ls_selfChecked := True\<rparr>" st1] bounded_turn_def)
  from True answer capped again show ?thesis
    by (auto simp: act_on_def Let_def split: option.splits)
next
  case False
  define st2 where "st2 = say (assistant_message (cr_content r) calls) (st1\<lparr>ls_toolCalls := ls_toolCalls st1 + length calls\<rparr>)"
  have l2: "log_ok cfg st2"
    using inv(1) unfolding st2_def log_ok_say
    by (simp add: loop_inv_def log_ok_cong [of "st1\<lparr>ls_toolCalls := ls_toolCalls st1 + length calls\<rparr>" st1])
  then have g2: "guarded cfg st2" by (simp add: log_ok_def)
  have b2: "bounded_turn cfg st st2" using inv(2) by (simp add: st2_def bounded_turn_def)
  note k = dispatch_all_ok [OF g2, of env iteration calls]
  have d: "act_on cfg env iteration r calls st1 =
      (case dispatch_all cfg env iteration calls st2 of
         CancelledMidTool st' \<Rightarrow> TurnEnds (ends_as StCancelled) st' | Dispatched st' \<Rightarrow> TurnNext st')"
    using False by (simp add: act_on_def Let_def st2_def)
  show ?thesis
  proof (cases "dispatch_all cfg env iteration calls st2")
    case (Dispatched st')
    with k have t: "tools_only st2 st'" "guarded cfg st'" by (simp_all add: state_of_def)
    from k Dispatched obtain ts where ts: "length ts = length calls"
      "ls_messages st' = ls_messages st2 @ map2 tool_message calls ts" by auto
    have "well_formed (ls_messages st')"
      using well_formed_exchange [OF _ ts(1)] inv(1) ts(2) by (simp add: loop_inv_def st2_def)
    with Dispatched tools_only_log [OF t l2] bounded_turn_tools [OF b2 t(1)] show ?thesis
      by (simp add: d turn_ok_def loop_inv_def)
  next
    case (CancelledMidTool st')
    with k have t: "tools_only st2 st'" "guarded cfg st'" "aborted env (ls_tick st')" by (simp_all add: state_of_def)
    with CancelledMidTool tools_only_log [OF t(1,2) l2] bounded_turn_tools [OF b2 t(1)] show ?thesis
      by (simp add: d turn_ok_def verdict_ok_def ends_as_def)
  qed
qed

text \<open>The model call of a turn: its ladder, then the account of the answer.\<close>

lemma ladder_no_tools: "ladder ms b wait left es out \<Longrightarrow> tool_runs es = []"
  using ladder_requests by (fastforce simp: tool_runs_def filter_empty_conv)

lemma ladder_books:
  assumes "quiet es st st'" "ladder (ls_messages st) b wait left es out" "well_formed (ls_messages st)" "log_ok cfg st"
  shows "numbered st' \<and> guarded cfg st' \<and> requests_ok (ls_effects st')"
proof -
  note n = ladder_no_tools [OF assms(2)]
  have "requests_ok es"
    using ladder_requests [OF assms(2)] assms(3) unfolding requests_ok_def by fastforce
  then show ?thesis
    using assms(1,4) repeats_no_tools [OF n] runs_of_no_tools [OF n] runs_allowed_no_tools [OF n]
    by (simp add: quiet_def log_ok_def guarded_def requests_ok_append)
qed

lemma ladder_bounded:
  assumes "quiet es st st'" "ladder ms b (longest_wait (rc_backoff cfg)) (rc_maxRetries cfg) es out"
  shows "bounded_turn cfg st st'"
  using assms(1) ladder_calls [OF assms(2)] ladder_waits [OF assms(2) longest_wait_nonneg]
  by (simp add: quiet_def bounded_turn_def)

lemma account_fields:
  "ls_effects (account cfg iteration r n st) = ls_effects st" "ls_messages (account cfg iteration r n st) = ls_messages st"
  "ls_identical (account cfg iteration r n st) = ls_identical st" "ls_perTool (account cfg iteration r n st) = ls_perTool st" "numbered st \<Longrightarrow> numbered (account cfg iteration r n st)"
  "ls_budget (account cfg iteration r n st) = spend (ls_budget st) (ModelCalled (ls_messages st) b (ChatReturns r))"
  by (simp_all add: account_def Let_def numbered_def spend_def call_input_def call_output_def split: option.split)

lemma account_ok:
  assumes "quiet es st st1" "ladder (ls_messages st) b wait left es (Inr (r, n))" "loop_inv cfg st"
  shows "loop_inv cfg (account cfg iteration r n st1)"
    "\<exists>fs ms b. ls_effects (account cfg iteration r n st1) = fs @ [ModelCalled ms b (ChatReturns r)]"
proof -
  from ladder_returns [OF assms(2) refl] obtain fs where fs: "es = fs @ [ModelCalled (ls_messages st) b (ChatReturns r)]"
    "\<forall>e\<in>set fs. \<forall>a b c. e \<noteq> ModelCalled a b (ChatReturns c)" by blast
  have "well_formed (ls_messages st)" "log_ok cfg st" using assms(3) by (simp_all add: loop_inv_def)
  note books = ladder_books [OF assms(1,2) this]
  have e1: "ls_effects st1 = (ls_effects st @ fs) @ [ModelCalled (ls_messages st) b (ChatReturns r)]"
    "ls_messages st1 = ls_messages st" "ls_budget st1 = ls_budget st"
    using assms(1) fs(1) by (simp_all add: quiet_def)
  have "spent (ls_effects st1) = spend (ls_budget st1) (ModelCalled (ls_messages st1) b (ChatReturns r))"
    unfolding e1(1) spent_snoc spent_idle [OF fs(2)] using assms(3) e1 by (simp add: loop_inv_def log_ok_def)
  then show "loop_inv cfg (account cfg iteration r n st1)"
    using books assms(3) e1(2)
    by (simp add: loop_inv_def log_ok_def guarded_def account_fields(1-5) account_fields(6) [of _ _ _ _ _ b])
  show "\<exists>fs ms b. ls_effects (account cfg iteration r n st1) = fs @ [ModelCalled ms b (ChatReturns r)]"
    unfolding account_fields(1) e1(1) by blast
qed

lemma failed_ok:
  assumes "quiet es st st1" "ladder (ls_messages st) b wait left es (Inl e)" "loop_inv cfg st"
  shows "log_ok cfg st1"
proof -
  have "well_formed (ls_messages st)" "log_ok cfg st" using assms(3) by (simp_all add: loop_inv_def)
  note books = ladder_books [OF assms(1,2) this]
  have "spent (ls_effects st @ es) = spent (ls_effects st)"
    by (rule spent_idle) (use ladder_throws [OF assms(2) refl] in blast)
  then show ?thesis using books assms(1,3) by (simp add: loop_inv_def log_ok_def quiet_def)
qed

lemma ask_model_ok:
  assumes inv: "loop_inv cfg st" and same: "ls_effects st = ls_effects st0"
  shows "turn_ok cfg env st0 (ask_model cfg env iteration ct st)"
proof -
  define st1 where "st1 = emit (TrLlmStarted iteration) st"
  have inv1: "loop_inv cfg st1" using inv by (simp add: st1_def loop_inv_def log_ok_emit)
  let ?none = "iteration = rc_maxIterations cfg \<and> rc_tools cfg \<noteq> []"
  obtain out st2 where c: "chatWithRetry cfg env ?none ct (rc_maxRetries cfg) 0 st1 = (out, st2)"
    by (cases "chatWithRetry cfg env ?none ct (rc_maxRetries cfg) 0 st1") auto
  from chatWithRetry_ladder [OF c] obtain es where q: "quiet es st1 st2"
    and l: "ladder (ls_messages st1) ?none (longest_wait (rc_backoff cfg)) (rc_maxRetries cfg) es out" by blast
  have "bounded_turn cfg st1 st2" by (rule ladder_bounded [OF q l])
  then have b: "bounded_turn cfg st0 st2" using same by (simp add: st1_def bounded_turn_def)
  show ?thesis
  proof (cases out)
    case (Inl e)
    have "log_ok cfg st2" by (rule failed_ok [OF q l [unfolded Inl] inv1])
    then show ?thesis
      using c Inl b
      by (simp add: ask_model_def Let_def st1_def turn_ok_def verdict_ok_def ends_as_def log_ok_emit bounded_turn_def)
  next
    case (Inr rn)
    then obtain r n where rn: "out = Inr (r, n)" by (cases rn) auto
    define st3 where "st3 = account cfg iteration r n st2"
    note a = account_ok [OF q l [unfolded rn] inv1, of iteration, folded st3_def]
    have b3: "bounded_turn cfg st0 st3" using b by (simp add: st3_def bounded_turn_def account_fields)
    have d: "ask_model cfg env iteration ct st =
       (if over_budget cfg (ls_budget st3) then TurnEnds (ends_as StBudgetExceeded) st3
        else if aborted env (ls_tick st3) then TurnEnds (ends_as StCancelled) st3
        else act_on cfg env iteration r (synthesized (ls_seq st2) (or_empty (cr_toolCalls r))) st3)"
      using c rn by (simp add: ask_model_def Let_def st1_def st3_def)
    show ?thesis
      using act_on_ok [OF a(1) b3 a(2)] a(1) b3
      by (simp add: d turn_ok_def verdict_ok_def ends_as_def loop_inv_def)
  qed
qed

lemma fit_window_ok:
  assumes "loop_inv cfg st" "fit_window cfg st = Inr (st', ct)"
  shows "loop_inv cfg st' \<and> ls_effects st' = ls_effects st"
proof (cases "rc_window cfg")
  case (Some w)
  with assms(2) obtain fr ms n where c: "compactConversation fr (ls_messages st) = Inr (ms, n)" "st' = st\<lparr>ls_messages := ms\<rparr>"
    by (auto simp: fit_window_def Let_def split: sum.splits)
  with assms(1) compaction_shape [OF c(1)] show ?thesis
    by (simp add: loop_inv_def compaction_ok_def log_ok_cong [of "st\<lparr>ls_messages := ms\<rparr>" st])
qed (use assms in \<open>simp add: fit_window_def\<close>)

lemma poll_operator_ok: "loop_inv cfg st \<Longrightarrow>
    loop_inv cfg (poll_operator cfg env st) \<and> bounded_turn cfg st (poll_operator cfg env st) \<and>
    model_calls (ls_effects (poll_operator cfg env st)) = model_calls (ls_effects st) \<and>
    waited (ls_effects (poll_operator cfg env st)) = waited (ls_effects st)"
proof -
  assume inv: "loop_inv cfg st"
  have idle: "tool_runs [Polled] = []" by (simp add: tool_runs_def)
  have "log_ok cfg (await Polled st)"
    using inv repeats_no_tools [OF idle, of _ "ls_effects st"] runs_allowed_no_tools [OF idle, of cfg "ls_effects st"]
    by (auto simp: loop_inv_def log_ok_def guarded_def spent_snoc spend_def requests_ok_append requests_ok_def)
  then have l: "log_ok cfg ((await Polled st)\<lparr>ls_queue := q, ls_messages := ms\<rparr>)" for q ms
    by (simp add: log_ok_def guarded_def numbered_def)
  have w: "well_formed (ls_messages st @ map (\<lambda>t. plain_message RUser (''[operator message] '' @ t)) ts)" for ts
    using inv well_formed_plains [of "ls_messages st" RUser "map (\<lambda>t. ''[operator message] '' @ t) ts"]
    by (simp add: loop_inv_def o_def)
  show ?thesis
  proof (cases "rc_polls cfg")
    case True
    then obtain q ts where "poll_operator cfg env st = (await Polled st)\<lparr>ls_queue := q,
        ls_messages := ls_messages st @ map (\<lambda>t. plain_message RUser (''[operator message] '' @ t)) ts\<rparr>"
      unfolding poll_operator_def Let_def await_fields by (simp only: simp_thms if_False)
    with l w show ?thesis by (simp add: loop_inv_def bounded_turn_def longest_wait_nonneg)
  next
    case False
    with inv show ?thesis by (simp add: poll_operator_def bounded_turn_def longest_wait_nonneg)
  qed
qed

lemma run_turn_ok:
  assumes "loop_inv cfg st"
  shows "turn_ok cfg env st (run_turn cfg env iteration st)"
proof (cases "aborted env (ls_tick st)")
  case True
  with assms show ?thesis
    by (simp add: run_turn_def turn_ok_def verdict_ok_def ends_as_def loop_inv_def bounded_turn_def longest_wait_nonneg)
next
  case False
  define st1 where "st1 = poll_operator cfg env st"
  define st3 where "st3 = emit (TrBoundary iteration)
    (if iteration = rc_maxIterations cfg then say (plain_message RUser ANSWER_TURN_NOTE) st1 else st1)"
  note p = poll_operator_ok [OF assms, of env, folded st1_def]
  have i3: "loop_inv cfg st3"
    using p well_formed_plain [of "ls_messages st1" RUser ANSWER_TURN_NOTE]
    by (simp add: st3_def loop_inv_def log_ok_emit log_ok_say)
  have d: "run_turn cfg env iteration st =
      (case fit_window cfg st3 of Inl e \<Rightarrow> TurnThrows e | Inr (st4, ct) \<Rightarrow> ask_model cfg env iteration ct st4)"
    using False by (simp add: run_turn_def Let_def st1_def st3_def)
  show ?thesis
  proof (cases "fit_window cfg st3")
    case (Inr r)
    obtain st4 ct where r: "r = (st4, ct)" by (cases r)
    note f = fit_window_ok [OF i3 Inr [unfolded r]]
    have "turn_ok cfg env st1 (ask_model cfg env iteration ct st4)"
      by (rule ask_model_ok) (use f in \<open>simp_all add: st3_def\<close>)
    then have "turn_ok cfg env st (ask_model cfg env iteration ct st4)"
      using p by (simp add: turn_ok_def bounded_turn_def split: turn_outcome.splits)
    with Inr r show ?thesis by (simp add: d)
  qed (simp add: d turn_ok_def)
qed

section \<open>A whole run\<close>

lemma run_turns_ok:
  "loop_inv cfg st \<Longrightarrow> run_turns cfg env n st = Inr (v, st') \<Longrightarrow>
     log_ok cfg st' \<and> verdict_ok cfg env v st' \<and>
     model_calls (ls_effects st') \<le> model_calls (ls_effects st) + n * (rc_maxRetries cfg + 1) \<and>
     waited (ls_effects st') \<le> waited (ls_effects st) + of_nat (n * rc_maxRetries cfg) * longest_wait (rc_backoff cfg)"
proof (induction n arbitrary: st)
  case 0
  then show ?case by (auto simp: loop_inv_def verdict_ok_def out_of_turns_def)
next
  case (Suc n)
  have nn: "0 \<le> (of_nat (n * rc_maxRetries cfg) :: rat) * longest_wait (rc_backoff cfg)"
    by (intro mult_nonneg_nonneg longest_wait_nonneg) simp
  note t = run_turn_ok [OF Suc.prems(1), of env "rc_maxIterations cfg - n"]
  show ?case
  proof (cases "run_turn cfg env (rc_maxIterations cfg - n) st")
    case (TurnNext st1)
    with t have "loop_inv cfg st1" "bounded_turn cfg st st1" by (simp_all add: turn_ok_def)
    with Suc.IH [of st1] Suc.prems(2) TurnNext show ?thesis
      by (simp add: bounded_turn_def algebra_simps)
  next
    case (TurnEnds w st1)
    with t Suc.prems(2) nn show ?thesis
      by (simp add: turn_ok_def bounded_turn_def algebra_simps)
  next
    case (TurnThrows e)
    with Suc.prems(2) show ?thesis by simp
  qed
qed

lemma loop_inv_initial:
  assumes "well_formed ms"
  shows "loop_inv cfg ((initial_state cfg ms)\<lparr>ls_tick := t\<rparr>)"
proof -
  have "well_formed (plain_message RSystem p # ms)" for p
    using assms by (simp add: well_formed_def shell_def plain_message_def)
  with assms show ?thesis
    by (auto simp: loop_inv_def log_ok_def initial_state_def numbered_def guarded_def requests_ok_def spent_def
        count_of_def repeats_def split: option.split)
qed

text \<open>Everything that a finished run can be relied on for.\<close>

definition run_ok :: "run_config \<Rightarrow> environment \<Rightarrow> execution_result \<Rightarrow> loop_state \<Rightarrow> bool" where
  "run_ok cfg env res st \<longleftrightarrow>
     (\<exists>v. xr_status res = vd_status v \<and> xr_final res = vd_final v \<and> xr_error res = vd_error v \<and>
        xr_hitCap res = (\<not> vd_natural v \<and> vd_status v = StCompleted) \<and> verdict_ok cfg env v st) \<and>
     xr_budget res = ls_budget st \<and> xr_traces res = ls_traces st \<and> log_ok cfg st \<and>
     model_calls (ls_effects st) \<le> (rc_maxIterations cfg + 1) * (rc_maxRetries cfg + 1) \<and>
     waited (ls_effects st) \<le> of_nat ((rc_maxIterations cfg + 1) * rc_maxRetries cfg) * longest_wait (rc_backoff cfg)"

lemma log_ok_tools: "log_ok (cfg\<lparr>rc_tools := ts\<rparr>) st = log_ok cfg st"
  by (simp add: log_ok_def guarded_def runs_allowed_def run_allowed_def split: run_effect.split)

lemma verdict_ok_tools: "verdict_ok (cfg\<lparr>rc_tools := ts\<rparr>) env v st = verdict_ok cfg env v st"
proof -
  have "over_budget (cfg\<lparr>rc_tools := ts\<rparr>) = over_budget cfg" by (rule ext) (simp add: over_budget_def)
  then show ?thesis by (simp only: verdict_ok_def)
qed

lemma finish_run_ok:
  assumes "log_ok cfg st" "verdict_ok cfg env v st" "finish_run v st = (res, st')"
  shows "log_ok cfg st' \<and> verdict_ok cfg env v st' \<and> ls_effects st' = ls_effects st \<and>
    xr_status res = vd_status v \<and> xr_final res = vd_final v \<and> xr_error res = vd_error v \<and>
    xr_hitCap res = (\<not> vd_natural v \<and> vd_status v = StCompleted) \<and>
    xr_budget res = ls_budget st' \<and> xr_traces res = ls_traces st'"
proof -
  have "aborted env (ls_tick st) \<Longrightarrow> aborted env (Suc (ls_tick st))" by (erule aborted_mono) simp
  with assms show ?thesis
    by (auto simp: finish_run_def Let_def log_ok_emit verdict_ok_def split: run_status.splits option.splits)
qed

lemma run_sound:
  assumes "run cfg env described ms = Inr (res, st)" "well_formed ms"
  shows "run_ok cfg env res st"
proof (cases "aborted env 0")
  case True
  have l: "log_ok cfg (initial_state cfg ms)"
    using loop_inv_initial [OF assms(2), of cfg 0] by (simp add: loop_inv_def log_ok_def guarded_def numbered_def initial_state_def)
  have v: "verdict_ok cfg env (ends_as StCancelled) (initial_state cfg ms)"
    using True by (simp add: verdict_ok_def ends_as_def initial_state_def)
  have e: "ls_effects (initial_state cfg ms) = []" "ls_traces (initial_state cfg ms) = []"
    by (simp_all add: initial_state_def)
  have "(res, st) = (\<lparr>xr_status = StCancelled, xr_final = None, xr_hitCap = False, xr_budget = ls_budget (initial_state cfg ms),
      xr_traces = [], xr_error = None\<rparr>, initial_state cfg ms)"
    using True assms(1) by (auto simp: run_def Let_def)
  then show ?thesis
    using l v unfolding run_ok_def
    by (intro conjI exI [of _ "ends_as StCancelled"]) (simp_all add: ends_as_def e longest_wait_nonneg)
next
  case False
  then obtain ts v st1 where t: "run_turns (cfg\<lparr>rc_tools := ts\<rparr>) env (rc_maxIterations cfg + 1) ((initial_state cfg ms)\<lparr>ls_tick := 1\<rparr>) = Inr (v, st1)"
    and f: "finish_run v st1 = (res, st)"
    using assms(1) by (auto simp: run_def Let_def split: sum.splits)
  have "loop_inv (cfg\<lparr>rc_tools := ts\<rparr>) ((initial_state cfg ms)\<lparr>ls_tick := 1\<rparr>)"
    using loop_inv_initial [OF assms(2), of cfg 1] by (simp add: loop_inv_def log_ok_tools)
  note k = run_turns_ok [OF this t, unfolded log_ok_tools verdict_ok_tools]
  have e0: "ls_effects ((initial_state cfg ms)\<lparr>ls_tick := 1\<rparr>) = []" by (simp add: initial_state_def)
  note fin = finish_run_ok [OF k [THEN conjunct1] k [THEN conjunct2, THEN conjunct1] f]
  show ?thesis
    unfolding run_ok_def using k fin unfolding e0 by (intro conjI exI [of _ v]) simp_all
qed

section \<open>A run, evaluated\<close>

text \<open>
  The model calls a tool by its bare name and without an id, is throttled once, and answers; the
  provider knows the tool under its full name.
\<close>

definition sample_config :: run_config where
  "sample_config =
     \<lparr>rc_num = sample_num, rc_systemPrompt = Some ''be brief'', rc_maxTokens = None, rc_maxIterations = 3,
      rc_window = None, rc_threshold = 95 / 100, rc_tokenLimit = None, rc_costLimit = None, rc_selfCheck = None,
      rc_timeBudget = None, rc_polls = False, rc_tools = [], rc_owners = [(''code.run'', ''p'')],
      rc_maxRetries = 2, rc_backoff = [1000], rc_maxIdentical = 2, rc_maxPerTool = None, rc_maxResultChars = 100\<rparr>"

definition sample_answer :: "string \<Rightarrow> tool_call list option \<Rightarrow> chat_result" where
  "sample_answer t tcs =
     \<lparr>cr_content = t, cr_toolCalls = tcs, cr_inputTokens = Some 10, cr_outputTokens = Some 2, cr_costUsd = None\<rparr>"

definition sample_env :: environment where
  "sample_env =
     \<lparr>en_abortAt = None, en_now = (\<lambda>t. 0),
      en_chat = (\<lambda>t. if t < 5 then ChatReturns (sample_answer [] (Some [\<lparr>tc_id = [], tc_name = ''run'', tc_args = JObj []\<rparr>]))
                     else if t < 11 then ChatThrows (ChatHttp 429 None ''busy'' (Some 2))
                     else ChatReturns (sample_answer ''done'' None)),
      en_tool = (\<lambda>t. ToolReturns (JStr ''42'') False), en_poll = (\<lambda>t. PollThrows)\<rparr>"

fun sample_effects :: "run_effect list \<Rightarrow> bool" where
  "sample_effects [ModelCalled q1 b1 a1, ToolRan n a g ok, ModelCalled q2 b2 a2, Slept w, ModelCalled q3 b3 a3] =
     (n = ''code.run'' \<and> (case a of JObj [] \<Rightarrow> True | _ \<Rightarrow> False) \<and> g = ''code.run:{}'' \<and> ok \<and> w = 2000 \<and> length q1 = 2 \<and> length q2 = 4 \<and> q3 = q2 \<and>
      map cm_toolCallId q2 = [None, None, None, Some ''call_run_3''])"
| "sample_effects es = False"

lemma sample_run:
  "case run sample_config sample_env (Inr []) [user_says ''go''] of
     Inl e \<Rightarrow> False
   | Inr (res, st) \<Rightarrow> xr_status res = StCompleted \<and> xr_final res = Some ''done'' \<and> sample_effects (ls_effects st)"
  by code_simp

lemma sample_run_gives:
  obtains res st q1 q2 b1 b2 a1 a2 rest where "run sample_config sample_env (Inr []) [user_says ''go''] = Inr (res, st)"
    "xr_status res = StCompleted" "xr_final res = Some ''done''"
    "ls_effects st = [ModelCalled q1 b1 a1] @ ToolRan ''code.run'' (JObj []) ''code.run:{}'' True # ModelCalled q2 b2 a2 # rest"
    "length q2 = 4"
proof -
  obtain res st where r: "run sample_config sample_env (Inr []) [user_says ''go''] = Inr (res, st)"
    using sample_run by (cases "run sample_config sample_env (Inr []) [user_says ''go'']") auto
  with sample_run have "xr_status res = StCompleted" "xr_final res = Some ''done''" "sample_effects (ls_effects st)" by simp_all
  with r that show thesis
    by (elim sample_effects.elims(2)) (auto split: json.splits list.splits)
qed

lemma sample_start: "well_formed [user_says ''go'']"
  by code_simp

section \<open>Theorems\<close>

text \<open>
  C3. Every request a run sends to the model is a conversation a backend accepts: each assistant
  message that calls tools is followed by exactly one result for each call, in order, and no result
  stands alone; whatever the tools did, however names were resolved, ids synthesized and calls
  refused, across compaction, retries and operator messages.
\<close>

theorem requests_well_formed:
  assumes "run cfg env described ms = Inr (res, st)" "well_formed ms"
    and "ModelCalled request noTools answer \<in> set (ls_effects st)"
  shows "well_formed request"
  using run_sound [OF assms(1,2)] assms(3) unfolding run_ok_def log_ok_def requests_ok_def by blast

theorem requests_well_formed_witness:
  "\<exists>res st q b a. run sample_config sample_env (Inr []) [user_says ''go''] = Inr (res, st) \<and>
     ModelCalled q b a \<in> set (ls_effects st) \<and> length q = 4 \<and> well_formed q"
proof -
  obtain res st q1 q2 b1 b2 a1 a2 rest where r: "run sample_config sample_env (Inr []) [user_says ''go''] = Inr (res, st)"
    "ls_effects st = [ModelCalled q1 b1 a1] @ ToolRan ''code.run'' (JObj []) ''code.run:{}'' True # ModelCalled q2 b2 a2 # rest"
    "length q2 = 4" by (rule sample_run_gives)
  then have "ModelCalled q2 b2 a2 \<in> set (ls_effects st)" by simp
  with requests_well_formed [OF r(1) sample_start this] r show ?thesis by blast
qed

text \<open>
  C16. A run is bounded: the model is called at most once for each turn and each retry, the answer turn
  included, and all waiting together is at most the longest wait for each retry.
\<close>

theorem run_is_bounded:
  assumes "run cfg env described ms = Inr (res, st)" "well_formed ms"
  shows "model_calls (ls_effects st) \<le> (rc_maxIterations cfg + 1) * (rc_maxRetries cfg + 1) \<and>
    waited (ls_effects st) \<le> of_nat ((rc_maxIterations cfg + 1) * rc_maxRetries cfg) * Max (set (RETRY_AFTER_MAX_MS # rc_backoff cfg))"
  using run_sound [OF assms] unfolding run_ok_def longest_wait_def by blast

theorem run_is_bounded_witness:
  "\<exists>res st. run sample_config sample_env (Inr []) [user_says ''go''] = Inr (res, st) \<and>
     model_calls (ls_effects st) \<le> 12 \<and> waited (ls_effects st) \<le> 240000"
proof -
  obtain res st q1 q2 b1 b2 a1 a2 rest where r: "run sample_config sample_env (Inr []) [user_says ''go''] = Inr (res, st)"
    by (rule sample_run_gives)
  from run_is_bounded [OF r sample_start] r show ?thesis
    by (simp add: sample_config_def RETRY_AFTER_MAX_MS_def)
qed

text \<open>
  C15. The verdict of a run: it has an error exactly when it failed; it has an answer exactly when it
  completed within its turns, and the answer is what the model said last; it hit the cap exactly when
  it completed without an answer; it was cancelled only if the abort signal is up, and out of budget
  only if a limit is reached by what the calls have cost; it never times out by itself.
\<close>

theorem run_verdict:
  assumes "run cfg env described ms = Inr (res, st)" "well_formed ms"
  shows "(xr_error res \<noteq> None \<longleftrightarrow> xr_status res = StFailed) \<and>
    (xr_final res \<noteq> None \<longleftrightarrow> xr_status res = StCompleted \<and> \<not> xr_hitCap res) \<and>
    (xr_hitCap res \<longrightarrow> xr_status res = StCompleted) \<and>
    (\<forall>t. xr_final res = Some t \<longrightarrow> (\<exists>es q b r. ls_effects st = es @ [ModelCalled q b (ChatReturns r)] \<and> cr_content r = t)) \<and>
    (xr_status res = StCancelled \<longrightarrow> aborted env (ls_tick st)) \<and>
    (xr_status res = StBudgetExceeded \<longrightarrow> over_budget cfg (spent (ls_effects st))) \<and> xr_status res \<noteq> StTimeout"
proof -
  note ok = run_sound [OF assms, unfolded run_ok_def]
  from ok obtain v where v: "xr_status res = vd_status v" "xr_final res = vd_final v" "xr_error res = vd_error v"
    "xr_hitCap res = (\<not> vd_natural v \<and> vd_status v = StCompleted)" "verdict_ok cfg env v st" by blast
  have "ls_budget st = spent (ls_effects st)" using ok by (simp add: log_ok_def)
  with v show ?thesis
    by (cases "vd_status v"; cases "vd_final v") (simp_all add: verdict_ok_def)
qed

theorem run_verdict_witness:
  "\<exists>res st es q b r. run sample_config sample_env (Inr []) [user_says ''go''] = Inr (res, st) \<and> xr_error res = None \<and>
     \<not> xr_hitCap res \<and> ls_effects st = es @ [ModelCalled q b (ChatReturns r)] \<and> cr_content r = ''done''"
proof -
  obtain res st q1 q2 b1 b2 a1 a2 rest where r: "run sample_config sample_env (Inr []) [user_says ''go''] = Inr (res, st)"
    "xr_status res = StCompleted" "xr_final res = Some ''done''" by (rule sample_run_gives)
  from run_verdict [OF r(1) sample_start] r show ?thesis by auto
qed

text \<open>
  The books of a run: its trace is numbered from zero without a gap, and the budget it reports is
  the sum over the calls the model answered, with what the backend reported and an estimate where it
  did not; the cost stays unknown until a call reports one.
\<close>

theorem run_books:
  assumes "run cfg env described ms = Inr (res, st)" "well_formed ms"
  shows "map fst (xr_traces res) = [0..<length (xr_traces res)] \<and> xr_budget res = spent (ls_effects st) \<and>
    (bg_cost (xr_budget res) = None \<longleftrightarrow>
       (\<forall>q b r. ModelCalled q b (ChatReturns r) \<in> set (ls_effects st) \<longrightarrow> cr_costUsd r = None))"
proof -
  have ok: "xr_budget res = ls_budget st" "xr_traces res = ls_traces st" "numbered st" "ls_budget st = spent (ls_effects st)"
    using run_sound [OF assms] by (simp_all add: run_ok_def log_ok_def)
  have "length (ls_traces st) = ls_seq st"
    using ok(3) unfolding numbered_def by (metis diff_zero length_map length_upt)
  moreover have "bg_cost (spent es) = None \<longleftrightarrow> (\<forall>q b r. ModelCalled q b (ChatReturns r) \<in> set es \<longrightarrow> cr_costUsd r = None)" for es
  proof (induction es rule: rev_induct)
    case (snoc e es)
    then show ?case
      by (cases e) (auto simp: spent_snoc spend_def Let_def split: chat_answer.splits option.splits)
  qed (simp add: spent_def)
  ultimately show ?thesis using ok by (simp add: numbered_def)
qed

theorem run_books_witness:
  "\<exists>res st. run sample_config sample_env (Inr []) [user_says ''go''] = Inr (res, st) \<and>
     map fst (xr_traces res) = [0..<length (xr_traces res)]"
proof -
  obtain res st q1 q2 b1 b2 a1 a2 rest where r: "run sample_config sample_env (Inr []) [user_says ''go''] = Inr (res, st)"
    by (rule sample_run_gives)
  from run_books [OF r sample_start] r show ?thesis by blast
qed

text \<open>
  C4. A tool runs only under a registered name, with arguments that are neither the marker the
  client puts in the place of arguments it could not parse nor the placeholder of a compacted call,
  never more often with the same arguments than the guard allows unless a different call has
  succeeded in between, and never more often in a run than the cap per tool, if there is one.
\<close>

theorem tool_runs_guarded:
  assumes "run cfg env described ms = Inr (res, st)" "well_formed ms"
    and "ls_effects st = before @ ToolRan name args sig ok # after"
  shows "map_of (rc_owners cfg) name \<noteq> None \<and> malformedToolArgs args = None \<and> \<not> is_placeholder args \<and>
    sig = name @ '':'' @ args_text (rc_num cfg) args \<and> repeats sig before < rc_maxIdentical cfg \<and>
    (\<forall>m. rc_maxPerTool cfg = Some m \<longrightarrow> runs_of name before < m)"
proof -
  have "runs_allowed cfg (ls_effects st)"
    using run_sound [OF assms(1,2)] by (simp add: run_ok_def log_ok_def guarded_def)
  with assms(3) have "run_allowed cfg before (ToolRan name args sig ok)" unfolding runs_allowed_def by blast
  then show ?thesis by (auto simp: run_allowed_def)
qed

theorem tool_runs_guarded_witness:
  "map_of (rc_owners sample_config) ''code.run'' \<noteq> None \<and> \<not> is_placeholder (JObj []) \<and> ''code.run:{}'' = ''code.run:'' @ args_text sample_num (JObj [])"
proof -
  obtain res st q1 q2 b1 b2 a1 a2 rest where r: "run sample_config sample_env (Inr []) [user_says ''go''] = Inr (res, st)"
    "ls_effects st = [ModelCalled q1 b1 a1] @ ToolRan ''code.run'' (JObj []) ''code.run:{}'' True # ModelCalled q2 b2 a2 # rest"
    by (rule sample_run_gives)
  from tool_runs_guarded [OF r(1) sample_start r(2)] show ?thesis by (auto simp: sample_config_def)
qed

end
