(* ===== verification/JudgeText.thy ===== *)
theory JudgeText
  imports JsNumber
begin

text \<open>
  The texts of a verdict by a language model (\<^verbatim>\<open>packages/operator/src/verifier.ts\<close>): what the judge is
  shown of the result of a task, the rendering of its prompt, and how its reply is read. Reading
  JSON is a parameter, \<open>parse\<close>.
\<close>

section \<open>Code fences\<close>

definition fence :: string where
  "fence = replicate 3 (CHR 0x60)"

text \<open>\<open>s.replace(/^```(?:json)?\s*\n?/i, '')\<close>: white space is taken greedily, line ends included.\<close>

definition strip_open :: "string \<Rightarrow> string" where
  "strip_open s =
     (if starts_with s fence then
        (let r = drop 3 s in dropWhile js_space (if map to_lower (take 4 r) = ''json'' then drop 4 r else r))
      else s)"

text \<open>\<open>s.replace(/\n?```\s*$/i, '')\<close>: the first place from which the rest is a fence and white space.\<close>

definition close_at :: "string \<Rightarrow> bool" where
  "close_at s =
     (let r = (if s \<noteq> [] \<and> hd s = CHR 0x0A then tl s else s) in starts_with r fence \<and> list_all js_space (drop 3 r))"

fun strip_close :: "string \<Rightarrow> string" where
  "strip_close [] = []"
| "strip_close (c # cs) = (if close_at (c # cs) then [] else c # strip_close cs)"

section \<open>What the judge is shown\<close>

definition extractParentOutputForJudge :: "(string \<Rightarrow> json option) \<Rightarrow> json \<Rightarrow> json" where
  "extractParentOutputForJudge parse result =
     (case result of
        JUndefined \<Rightarrow> JNull
      | JObj [(k, content)] \<Rightarrow>
          (if k \<noteq> ''content'' then result
           else (case content of
                   JStr text \<Rightarrow>
                     (let trimmed = js_trim text in
                      if trimmed = [] then content else js_or (parse (strip_close (strip_open trimmed))) content)
                 | _ \<Rightarrow> content))
      | _ \<Rightarrow> result)"

text \<open>
  \<open>template.replace(/\{\{\s*outputs\s*\}\}/g, parentResultJson)\<close>: the second argument is a
  replacement pattern, in which a dollar sign followed by a dollar sign, an ampersand, a back quote
  or a quote stands for a dollar sign, the match, the text before it and the text after it.
\<close>

definition placeholder_at :: "string \<Rightarrow> (string \<times> string) option" where
  "placeholder_at s =
     (if \<not> starts_with s ''{{'' then None
      else
        (let r = dropWhile js_space (drop 2 s) in
         if \<not> starts_with r ''outputs'' then None
         else
           (let q = dropWhile js_space (drop 7 r) in
            if starts_with q ''}}'' then Some (take (length s - (length q - 2)) s, drop 2 q) else None)))"

fun expand_pattern :: "string \<Rightarrow> string \<Rightarrow> string \<Rightarrow> string \<Rightarrow> string" where
  "expand_pattern before matched after [] = []"
| "expand_pattern before matched after [c] = [c]"
| "expand_pattern before matched after (c # d # r) =
     (if c = CHR ''$'' \<and> d = CHR ''$'' then c # expand_pattern before matched after r
      else if c = CHR ''$'' \<and> d = CHR ''&'' then matched @ expand_pattern before matched after r
      else if c = CHR ''$'' \<and> d = CHR 0x60 then before @ expand_pattern before matched after r
      else if c = CHR ''$'' \<and> d = CHR 0x27 then after @ expand_pattern before matched after r
      else c # expand_pattern before matched after (d # r))"

lemma placeholder_shrinks: "placeholder_at s = Some (m, r) \<Longrightarrow> length r < length s"
proof -
  assume a: "placeholder_at s = Some (m, r)"
  define q where "q = dropWhile js_space (drop 7 (dropWhile js_space (drop 2 s)))"
  from a have r: "r = drop 2 q" "starts_with s ''{{''" "starts_with q ''}}''"
    by (auto simp: placeholder_at_def q_def Let_def split: if_splits)
  let ?r = "dropWhile js_space (drop 2 s)"
  have "length q \<le> length (drop 7 ?r)" unfolding q_def by (rule length_dropWhile_le)
  also have "\<dots> \<le> length ?r" by simp
  also have "\<dots> \<le> length (drop 2 s)" by (rule length_dropWhile_le)
  finally have "length q \<le> length (drop 2 s)" .
  moreover have "s \<noteq> []" using r(2) by (auto simp: starts_with_def)
  ultimately show ?thesis using r(1) by (cases s) auto
qed

function render_from :: "string \<Rightarrow> string \<Rightarrow> string \<Rightarrow> string" where
  "render_from rep before s =
     (case placeholder_at s of
        Some (matched, after) \<Rightarrow> expand_pattern before matched after rep @ render_from rep (before @ matched) after
      | None \<Rightarrow> (case s of [] \<Rightarrow> [] | c # cs \<Rightarrow> c # render_from rep (before @ [c]) cs))"
  by pat_completeness auto
termination by (relation "measure (\<lambda>(rep, before, s). length s)") (auto dest: placeholder_shrinks)

declare render_from.simps [simp del]

definition renderLlmJudgePrompt :: "string \<Rightarrow> string \<Rightarrow> string" where
  "renderLlmJudgePrompt template parentResultJson = render_from parentResultJson [] template"

section \<open>How the reply is read\<close>

datatype judge_verdict = VerdictPass | VerdictFail

record judge_reply =
  jr_verdict :: judge_verdict
  jr_reason :: string

definition reply_of :: "json \<Rightarrow> judge_reply option" where
  "reply_of parsed =
     (case parsed of
        JObj kvs \<Rightarrow>
          (let reason = (case obj_get kvs ''reason'' of JStr r \<Rightarrow> r | _ \<Rightarrow> []) in
           if obj_get kvs ''verdict'' = JStr ''pass'' then Some \<lparr>jr_verdict = VerdictPass, jr_reason = reason\<rparr>
           else if obj_get kvs ''verdict'' = JStr ''fail'' then Some \<lparr>jr_verdict = VerdictFail, jr_reason = reason\<rparr>
           else None)
      | _ \<Rightarrow> None)"

definition parseVerifierJudgeReply :: "(string \<Rightarrow> json option) \<Rightarrow> string \<Rightarrow> judge_reply option" where
  "parseVerifierJudgeReply parse content =
     (let trimmed = js_trim content in
      if trimmed = [] then None else Option.bind (parse (strip_close (strip_open trimmed))) reply_of)"

section \<open>Fences do not matter\<close>

lemma strip_close_fence: "strip_close (b @ CHR 0x0A # fence) = b"
proof (induction b)
  case Nil
  show ?case by (simp add: close_at_def starts_with_def fence_def)
next
  case (Cons c b)
  have "\<not> close_at ((c # b) @ CHR 0x0A # fence)"
  proof
    assume close: "close_at ((c # b) @ CHR 0x0A # fence)"
    define r where "r = (if c = CHR 0x0A then b else c # b)"
    have fence: "fence = [CHR 0x60, CHR 0x60, CHR 0x60]" by (simp add: fence_def numeral_3_eq_3)
    from close have r: "starts_with (r @ CHR 0x0A # fence) fence" "list_all js_space (drop 3 (r @ CHR 0x0A # fence))"
      by (auto simp: close_at_def r_def Let_def split: if_splits)
    from r(1) have "length r \<ge> 3"
      by (cases r; cases "tl r"; cases "tl (tl r)") (auto simp: starts_with_def fence)
    with r(2) have "js_space (CHR 0x60)" by (simp add: fence)
    then show False by (simp add: js_space_def)
  qed
  with Cons show ?case by simp
qed

lemma strip_close_plain:
  assumes "b \<noteq> []" "\<not> js_space (last b)" "last b \<noteq> CHR 0x60"
  shows "strip_close b = b"
  using assms
proof (induction b)
  case (Cons c b)
  have "\<not> close_at (c # b)"
  proof
    assume close: "close_at (c # b)"
    define r where "r = (if c = CHR 0x0A then b else c # b)"
    from close have r: "starts_with r fence" "list_all js_space (drop 3 r)"
      by (auto simp: close_at_def r_def Let_def split: if_splits)
    then have split: "r = fence @ drop 3 r" by (metis append_take_drop_id fence_def length_replicate starts_with_def)
    then have "r \<noteq> []" by (auto simp: fence_def)
    then have last: "last r = last (c # b)" by (auto simp: r_def)
    show False
    proof (cases "drop 3 r = []")
      case True
      with split have "last r = CHR 0x60" by (simp add: fence_def numeral_3_eq_3)
      with last Cons.prems(3) show False by simp
    next
      case False
      with r(2) have "js_space (last (drop 3 r))" by (metis last_in_set list.pred_set)
      moreover have "last (drop 3 r) = last r" using False by (metis last_drop drop_eq_Nil not_le)
      ultimately show False using last Cons.prems(2) by simp
    qed
  qed
  with Cons show ?case by (cases "b = []") simp_all
qed simp

text \<open>Text that starts with something else than white space or a back quote, and ends so.\<close>

definition bare :: "string \<Rightarrow> bool" where
  "bare b \<longleftrightarrow> b \<noteq> [] \<and> \<not> js_space (hd b) \<and> hd b \<noteq> CHR 0x60 \<and> \<not> js_space (last b) \<and> last b \<noteq> CHR 0x60"

lemma bare_strips:
  assumes "bare b"
  shows "strip_close (strip_open (js_trim b)) = b"
proof -
  from assms have "js_trim b = b" by (intro js_trim_id) (simp add: bare_def)
  moreover from assms have "strip_open b = b"
    by (cases b) (simp_all add: bare_def strip_open_def starts_with_def fence_def numeral_3_eq_3)
  moreover have "strip_close b = b" using assms by (intro strip_close_plain) (simp_all add: bare_def)
  ultimately show ?thesis by simp
qed

lemma fenced_strips:
  assumes "bare b"
  shows "strip_close (strip_open (js_trim (fence @ ''json'' @ [CHR 0x0A] @ b @ [CHR 0x0A] @ fence))) = b"
    "js_trim (fence @ ''json'' @ [CHR 0x0A] @ b @ [CHR 0x0A] @ fence) \<noteq> []"
proof -
  let ?s = "fence @ ''json'' @ [CHR 0x0A] @ b @ [CHR 0x0A] @ fence"
  have trim: "js_trim ?s = ?s"
    by (intro js_trim_id) (simp add: fence_def js_space_def numeral_3_eq_3)
  have "dropWhile js_space ([CHR 0x0A] @ b @ [CHR 0x0A] @ fence) = b @ [CHR 0x0A] @ fence"
    using assms by (cases b) (simp_all add: bare_def js_space_def)
  then have "strip_open ?s = b @ [CHR 0x0A] @ fence"
    by (simp add: strip_open_def starts_with_def fence_def numeral_3_eq_3 to_lower_def Let_def)
  with trim show "strip_close (strip_open (js_trim ?s)) = b" by (simp add: strip_close_fence)
  show "js_trim ?s \<noteq> []" unfolding trim by simp
qed

lemma reply_unfenced:
  assumes "bare b"
  shows "parseVerifierJudgeReply parse (fence @ ''json'' @ [CHR 0x0A] @ b @ [CHR 0x0A] @ fence) =
    parseVerifierJudgeReply parse b"
proof -
  have "js_trim b \<noteq> []" using assms js_trim_id [of b] by (simp add: bare_def)
  then show ?thesis using fenced_strips [OF assms] by (simp add: parseVerifierJudgeReply_def bare_strips [OF assms] Let_def)
qed

section \<open>Rendering\<close>

text \<open>The template with the text in place of every placeholder.\<close>

function fill :: "string \<Rightarrow> string \<Rightarrow> string" where
  "fill rep s =
     (case placeholder_at s of
        Some (matched, after) \<Rightarrow> rep @ fill rep after
      | None \<Rightarrow> (case s of [] \<Rightarrow> [] | c # cs \<Rightarrow> c # fill rep cs))"
  by pat_completeness auto
termination by (relation "measure (\<lambda>(rep, s). length s)") (auto dest: placeholder_shrinks)

declare fill.simps [simp del]

lemma expand_plain: "CHR ''$'' \<notin> set rep \<Longrightarrow> expand_pattern before matched after rep = rep"
  by (induction before matched after rep rule: expand_pattern.induct) auto

text \<open>
  A dollar sign in the result is another matter: the text of the prompt is copied into what the
  judge takes for the output of the task.
\<close>

lemma result_quotes_the_prompt:
  "renderLlmJudgePrompt ''Judge {{ outputs }}. Pass if good.'' [CHR ''$'', CHR 0x27] =
     ''Judge . Pass if good.. Pass if good.''"
  by code_simp

lemma render_from_plain:
  assumes "CHR ''$'' \<notin> set rep"
  shows "render_from rep before s = fill rep s"
  using assms
proof (induction rep before s rule: render_from.induct)
  case (1 rep before s)
  then show ?case
    by (subst render_from.simps, subst fill.simps) (auto simp: expand_plain split: option.splits list.splits)
qed

end
