(* ===== verification/Utf8.thy ===== *)
theory Utf8
  imports Prelude
begin

text \<open>
  UTF-8 as \<open>Buffer\<close> uses it, on lists of code points: encoding (a lone surrogate becomes the
  replacement character) and decoding (each maximal ill-formed piece becomes one replacement
  character); and \<open>truncateReason\<close> of \<^verbatim>\<open>packages/operator/src/verifier.ts\<close>, which cuts a text to
  a number of bytes.
\<close>

section \<open>Encoding and decoding\<close>

definition replacement :: nat where
  "replacement = 0xFFFD"

definition encode_point :: "nat \<Rightarrow> nat list" where
  "encode_point c =
     (if c < 0x80 then [c]
      else if c < 0x800 then [0xC0 + c div 64, 0x80 + c mod 64]
      else if 0xD800 \<le> c \<and> c \<le> 0xDFFF then [0xEF, 0xBF, 0xBD]
      else if c < 0x10000 then [0xE0 + c div 4096, 0x80 + c div 64 mod 64, 0x80 + c mod 64]
      else [0xF0 + c div 262144, 0x80 + c div 4096 mod 64, 0x80 + c div 64 mod 64, 0x80 + c mod 64])"

definition utf8_encode :: "nat list \<Rightarrow> nat list" where
  "utf8_encode cs = concat (map encode_point cs)"

text \<open>What a lead byte asks for: its payload, and the range of each byte that must follow.\<close>

definition lead :: "nat \<Rightarrow> (nat \<times> (nat \<times> nat) list) option" where
  "lead b =
     (let r = (0x80, 0xBF) in
      if b < 0x80 then Some (b, [])
      else if 0xC2 \<le> b \<and> b \<le> 0xDF then Some (b - 0xC0, [r])
      else if b = 0xE0 then Some (0, [(0xA0, 0xBF), r])
      else if b = 0xED then Some (0xD, [(0x80, 0x9F), r])
      else if 0xE1 \<le> b \<and> b \<le> 0xEF then Some (b - 0xE0, [r, r])
      else if b = 0xF0 then Some (0, [(0x90, 0xBF), r, r])
      else if b = 0xF4 then Some (4, [(0x80, 0x8F), r, r])
      else if 0xF1 \<le> b \<and> b \<le> 0xF3 then Some (b - 0xF0, [r, r, r])
      else None)"

text \<open>Take the bytes that must follow; \<open>None\<close> where one is missing or out of its range.\<close>

fun follow :: "nat \<Rightarrow> (nat \<times> nat) list \<Rightarrow> nat list \<Rightarrow> nat option \<times> nat list" where
  "follow acc [] bs = (Some acc, bs)"
| "follow acc (r # rs) [] = (None, [])"
| "follow acc (r # rs) (b # bs) =
     (if fst r \<le> b \<and> b \<le> snd r then follow (acc * 64 + (b - 0x80)) rs bs else (None, b # bs))"

lemma follow_shrinks: "follow acc rs bs = (v, rest) \<Longrightarrow> length rest \<le> length bs"
  by (induction acc rs bs rule: follow.induct) (auto split: if_splits)

function utf8_decode :: "nat list \<Rightarrow> nat list" where
  "utf8_decode [] = []"
| "utf8_decode (b # bs) =
     (case lead b of
        None \<Rightarrow> replacement # utf8_decode bs
      | Some (acc, rs) \<Rightarrow> js_or (fst (follow acc rs bs)) replacement # utf8_decode (snd (follow acc rs bs)))"
  by pat_completeness auto
termination
  by (relation "measure length") (auto simp: less_Suc_eq_le intro: follow_shrinks [OF prod.collapse [symmetric]])

section \<open>Cutting\<close>

text \<open>\<open>'...(truncated)'\<close>, with the one-character ellipsis.\<close>

definition truncated_mark :: "nat list" where
  "truncated_mark = 0x2026 # map of_char ''(truncated)''"

fun cut_back :: "nat list \<Rightarrow> nat \<Rightarrow> nat list" where
  "cut_back buf 0 = truncated_mark"
| "cut_back buf (Suc n) =
     (let candidate = utf8_decode (take (Suc n) buf) in
      if length (utf8_encode candidate) = Suc n then candidate @ truncated_mark else cut_back buf n)"

definition truncateReason :: "nat \<Rightarrow> nat list \<Rightarrow> nat list" where
  "truncateReason maxBytes s =
     (let buf = utf8_encode s in if length buf \<le> maxBytes then s else cut_back buf maxBytes)"

section \<open>Round trip\<close>

text \<open>A code point that is no surrogate.\<close>

definition scalar :: "nat \<Rightarrow> bool" where
  "scalar c \<longleftrightarrow> c < 0xD800 \<or> 0xE000 \<le> c \<and> c \<le> 0x10FFFF"

lemma encode_append [simp]: "utf8_encode (xs @ ys) = utf8_encode xs @ utf8_encode ys" "utf8_encode [] = []"
  "utf8_encode (c # cs) = encode_point c @ utf8_encode cs"
  by (simp_all add: utf8_encode_def)

lemma split64: "c div 64 * 64 + c mod 64 = (c::nat)" "c div 4096 * 64 + c div 64 mod 64 = c div 64"
  "c div 262144 * 64 + c div 4096 mod 64 = c div 4096"
proof -
  have "c div 4096 = c div 64 div 64" "c div 262144 = c div 4096 div 64" by (simp_all add: div_mult2_eq [symmetric])
  then show "c div 64 * 64 + c mod 64 = c" "c div 4096 * 64 + c div 64 mod 64 = c div 64"
    "c div 262144 * 64 + c div 4096 mod 64 = c div 4096"
    by (simp_all only: div_mult_mod_eq)
qed

text \<open>What the first byte of a code point announces, and that what follows keeps to it.\<close>

definition announces :: "nat \<Rightarrow> bool" where
  "announces c \<longleftrightarrow>
     (case encode_point c of
        [] \<Rightarrow> False
      | b # bs \<Rightarrow>
          (case lead b of
             None \<Rightarrow> False
           | Some (acc, rs) \<Rightarrow>
               length rs = length bs \<and> list_all2 (\<lambda>r b. fst r \<le> b \<and> b \<le> snd r) rs bs \<and>
               foldl (\<lambda>a b. a * 64 + (b - 0x80)) acc bs = c))"

lemma lead_two: "2 \<le> a \<Longrightarrow> a \<le> 31 \<Longrightarrow> lead (192 + a) = Some (a, [(128, 191)])"
  by (simp add: lead_def Let_def)

lemma lead_three:
  "a \<le> 15 \<Longrightarrow> lead (224 + a) =
     Some (a, [if a = 0 then (160, 191) else if a = 13 then (128, 159) else (128, 191), (128, 191)])"
  by (auto simp: lead_def Let_def)

lemma lead_four:
  "a \<le> 4 \<Longrightarrow> lead (240 + a) =
     Some (a, [if a = 0 then (144, 191) else if a = 4 then (128, 143) else (128, 191), (128, 191), (128, 191)])"
  by (auto simp: lead_def Let_def)

lemma announces_scalar:
  assumes "scalar c"
  shows "announces c"
proof -
  have m: "c mod 64 \<le> 63" "c div 64 mod 64 \<le> 63" "c div 4096 mod 64 \<le> 63" by simp_all
  consider "c < 128" | "128 \<le> c" "c < 2048" | "2048 \<le> c" "c < 65536" | "65536 \<le> c" by linarith
  then show ?thesis
  proof cases
    case 1
    then show ?thesis by (simp add: announces_def encode_point_def lead_def)
  next
    case 2
    then have e: "encode_point c = [0xC0 + c div 64, 0x80 + c mod 64]" by (simp add: encode_point_def)
    from 2 have "2 \<le> c div 64" "c div 64 \<le> 31" by simp_all
    then show ?thesis using m split64(1) [of c] unfolding announces_def e by (simp add: lead_two)
  next
    case 3
    then have a: "c div 4096 \<le> 15" by simp
    have low: "32 \<le> c div 64 mod 64" if "c div 4096 = 0" using that 3 split64(2) [of c] by simp
    have high: "c div 64 mod 64 \<le> 31" if e: "c div 4096 = 13"
    proof -
      have "\<not> 57344 \<le> c" using e by (simp add: div_eq_dividend_iff)
      with assms have "c < 55296" by (simp add: scalar_def)
      then have "c div 64 < 864" by simp
      with e split64(2) [of c] show ?thesis by simp
    qed
    from 3 assms have e: "encode_point c = [0xE0 + c div 4096, 0x80 + c div 64 mod 64, 0x80 + c mod 64]"
      by (auto simp: scalar_def encode_point_def)
    show ?thesis using a m low high split64(1,2) [of c] unfolding announces_def e by (simp add: lead_three)
  next
    case 4
    then have c: "c \<le> 1114111" using assms by (simp add: scalar_def)
    then have a: "c div 262144 \<le> 4" by simp
    have low: "16 \<le> c div 4096 mod 64" if "c div 262144 = 0" using that 4 split64(3) [of c] by simp
    have high: "c div 4096 mod 64 \<le> 15" if e: "c div 262144 = 4"
    proof -
      from c have "c div 4096 \<le> 271" by simp
      with e split64(3) [of c] show ?thesis by simp
    qed
    from 4 have e: "encode_point c =
        [0xF0 + c div 262144, 0x80 + c div 4096 mod 64, 0x80 + c div 64 mod 64, 0x80 + c mod 64]"
      by (simp add: encode_point_def)
    show ?thesis using a m low high split64 [of c] unfolding announces_def e by (simp add: lead_four)
  qed
qed

lemma follow_all:
  "list_all2 (\<lambda>r b. fst r \<le> b \<and> b \<le> snd r) rs bs \<Longrightarrow>
     follow acc rs (bs @ more) = (Some (foldl (\<lambda>a b. a * 64 + (b - 0x80)) acc bs), more)"
  by (induction rs bs arbitrary: acc rule: list_all2_induct) simp_all

lemma follow_part:
  "list_all2 (\<lambda>r b. fst r \<le> b \<and> b \<le> snd r) rs bs \<Longrightarrow> n < length bs \<Longrightarrow> follow acc rs (take n bs) = (None, [])"
proof (induction rs bs arbitrary: acc n rule: list_all2_induct)
  case (Cons r rs b bs)
  then show ?case by (cases n) simp_all
qed simp

lemma decode_point:
  assumes "scalar c"
  shows "utf8_decode (encode_point c @ bs) = c # utf8_decode bs"
  using announces_scalar [OF assms]
  by (auto simp: announces_def follow_all split: list.splits option.splits)

lemma decode_part:
  assumes "scalar c" "0 < n" "n < length (encode_point c)"
  shows "utf8_decode (take n (encode_point c)) = [replacement]"
  using announces_scalar [OF assms(1)] assms(2,3)
  by (cases n) (auto simp: announces_def follow_part split: list.splits option.splits)

lemma utf8_roundtrip:
  assumes "list_all scalar cs"
  shows "utf8_decode (utf8_encode cs @ bs) = cs @ utf8_decode bs"
  using assms by (induction cs) (simp_all add: decode_point)

section \<open>What a cut leaves\<close>

text \<open>The longest prefix that fits into some bytes.\<close>

fun fitting :: "nat \<Rightarrow> nat list \<Rightarrow> nat list" where
  "fitting n [] = []"
| "fitting n (c # cs) =
     (if length (encode_point c) \<le> n then c # fitting (n - length (encode_point c)) cs else [])"

lemma fitting_splits:
  assumes "n < length (utf8_encode s)"
  shows "\<exists>d more. s = fitting n s @ d # more \<and> length (utf8_encode (fitting n s)) \<le> n \<and>
    n - length (utf8_encode (fitting n s)) < length (encode_point d)"
  using assms
proof (induction n s rule: fitting.induct)
  case (2 n c cs)
  show ?case
  proof (cases "length (encode_point c) \<le> n")
    case True
    with 2(2) have "n - length (encode_point c) < length (utf8_encode cs)" by simp
    from 2(1) [OF True this] obtain d more where "cs = fitting (n - length (encode_point c)) cs @ d # more"
      "length (utf8_encode (fitting (n - length (encode_point c)) cs)) \<le> n - length (encode_point c)"
      "n - length (encode_point c) - length (utf8_encode (fitting (n - length (encode_point c)) cs)) < length (encode_point d)"
      by blast
    with True show ?thesis by (auto intro!: exI [of _ d] exI [of _ more])
  qed simp
qed simp

lemma encode_point_length: "1 \<le> length (encode_point c)" "length (encode_point c) \<le> 4" "encode_point c \<noteq> []"
  by (simp_all add: encode_point_def)

lemma decode_cut:
  assumes "list_all scalar (cs @ d # more)" "j < length (encode_point d)"
  shows "utf8_decode (take (length (utf8_encode cs) + j) (utf8_encode (cs @ d # more))) = cs @ (if j = 0 then [] else [replacement])"
  using assms utf8_roundtrip [of cs "take j (encode_point d)"] decode_part [of d j] by simp

lemma cut_back_from:
  assumes "list_all scalar (cs @ d # more)" "j < length (encode_point d)"
  shows "cut_back (utf8_encode (cs @ d # more)) (length (utf8_encode cs) + j) =
    cs @ (if j = 3 then [replacement] else []) @ truncated_mark"
  using assms(2)
proof (induction j)
  case 0
  show ?case
  proof (cases "length (utf8_encode cs)")
    case 0
    moreover from this have "cs = []" by (cases cs) (simp_all add: encode_point_length(3))
    ultimately show ?thesis by simp
  next
    case (Suc n)
    then show ?thesis using decode_cut [OF assms(1) 0] by simp
  qed
next
  case (Suc j)
  have "utf8_encode [replacement] = [0xEF, 0xBF, 0xBD]" by (simp add: utf8_encode_def encode_point_def replacement_def)
  then have "length (utf8_encode (cs @ [replacement])) = length (utf8_encode cs) + 3" by simp
  moreover have "j < 3" using Suc.prems encode_point_length(2) [of d] by linarith
  moreover have "j \<noteq> 2 \<longrightarrow> cut_back (utf8_encode (cs @ d # more)) (length (utf8_encode cs) + j) = cs @ truncated_mark"
    using Suc.IH Suc.prems \<open>j < 3\<close> by simp
  ultimately show ?case using decode_cut [OF assms(1) Suc.prems] by (auto simp: numeral_3_eq_3)
qed

lemma truncateReason_shape:
  assumes "list_all scalar s" "maxBytes < length (utf8_encode s)"
  shows "truncateReason maxBytes s = fitting maxBytes s @
    (if maxBytes - length (utf8_encode (fitting maxBytes s)) = 3 then [replacement] else []) @ truncated_mark"
proof -
  let ?f = "fitting maxBytes s"
  from fitting_splits [OF assms(2)] obtain d more where d: "s = ?f @ d # more"
    "length (utf8_encode ?f) \<le> maxBytes" "maxBytes - length (utf8_encode ?f) < length (encode_point d)" by blast
  from cut_back_from [of ?f d more "maxBytes - length (utf8_encode ?f)"] d assms(1)
  have "cut_back (utf8_encode s) maxBytes = ?f @ (if maxBytes - length (utf8_encode ?f) = 3 then [replacement] else []) @ truncated_mark"
    by (metis le_add_diff_inverse)
  with assms(2) show ?thesis by (simp add: truncateReason_def Let_def)
qed

text \<open>
  The text a verdict carries never exceeds its bytes by more than the mark; it is the longest prefix
  that fits, except that a four-byte character of which three bytes fit leaves a replacement
  character behind, which the byte count cannot tell from a whole one.
\<close>

theorem truncated_within:
  assumes "list_all scalar s"
  shows "length (utf8_encode (truncateReason maxBytes s)) \<le> maxBytes + length (utf8_encode truncated_mark)"
proof (cases "maxBytes < length (utf8_encode s)")
  case True
  let ?f = "fitting maxBytes s"
  have "length (utf8_encode [replacement]) = 3" by (simp add: utf8_encode_def encode_point_def replacement_def)
  moreover have "length (utf8_encode ?f) \<le> maxBytes" using fitting_splits [OF True] by blast
  ultimately show ?thesis using truncateReason_shape [OF assms True] by auto
qed (simp add: truncateReason_def)

lemma truncation_splits_a_character:
  "truncateReason 4 [0x61, 0x1F600] = 0x61 # replacement # truncated_mark"
  by (simp add: truncateReason_shape scalar_def encode_point_def)

end
