(* ===== verification/Verifier.thy ===== *)
theory Verifier
  imports JudgeText Utf8 JsonText StatusTransitions
begin

text \<open>
  The verifier of finished tasks, \<^verbatim>\<open>packages/operator/src/verifier.ts\<close>: the gate, the choice of the
  mode, the script path with its polling, the judge path with its retries, the verdict that is
  written and what is audited. What the servers, the resolver and the clock answer is a record of
  answers, \<open>verify_env\<close>: for the repeated calls by attempt. Texts of reasons are lists of code points.
\<close>

section \<open>Contract, task, verdict\<close>

datatype verify_mode = VScript | VJudge

record verify_contract =
  vc_scriptRef :: "string option"
  vc_llmJudgePromptRef :: "(string \<times> int option) option"

record verifier_verdict =
  vf_passed :: bool
  vf_mode :: verify_mode
  vf_reason :: "nat list option"
  vf_completedAt :: int

record verify_task =
  vt_apiVersion :: string
  vt_kind :: string
  vt_uid :: "string option"
  vt_namespace :: "string option"
  vt_name :: "string option"
  vt_targetAgent :: "string option"
  vt_payload :: json
  vt_inputs :: json
  vt_contract :: "verify_contract option"
  vt_phase :: "phase option"
  vt_result :: json
  vt_outputs :: json
  vt_verification :: "verifier_verdict option"

definition points :: "string \<Rightarrow> nat list" where
  "points s = map of_char s"

definition shouldRunVerifier :: "verify_task \<Rightarrow> bool" where
  "shouldRunVerifier task =
     (if vt_phase task \<noteq> Some PhCompleted then False
      else (case vt_contract task of
              None \<Rightarrow> False
            | Some c \<Rightarrow>
                (if vt_verification task \<noteq> None then False
                 else \<not> (vc_scriptRef c = None \<and> vc_llmJudgePromptRef c = None))))"

definition both_paths_set :: "nat list" where
  "both_paths_set = points ''verifier_misconfig:both_paths_set''"

definition no_paths_set :: "nat list" where
  "no_paths_set = points ''verifier_misconfig:no_paths_set''"

definition pickDispatchMode :: "verify_contract \<Rightarrow> nat list + verify_mode" where
  "pickDispatchMode contract =
     (let hasScript = vc_scriptRef contract \<noteq> None; hasJudge = vc_llmJudgePromptRef contract \<noteq> None in
      if hasScript \<and> hasJudge then Inl both_paths_set
      else if \<not> hasScript \<and> \<not> hasJudge then Inl no_paths_set
      else if hasScript then Inr VScript
      else Inr VJudge)"

definition describeJudgeRef :: "verify_contract \<Rightarrow> verify_mode \<Rightarrow> string" where
  "describeJudgeRef contract mode =
     (case mode of
        VScript \<Rightarrow> js_or (vc_scriptRef contract) ''(unset-scriptRef)''
      | VJudge \<Rightarrow>
          (case vc_llmJudgePromptRef contract of
             None \<Rightarrow> ''(unset-llmJudgePromptRef)''
           | Some (n, None) \<Rightarrow> n
           | Some (n, Some v) \<Rightarrow> n @ ''@'' @ string_of_int v))"

section \<open>Constants and configuration\<close>

definition DEFAULT_VERIFIER_SCRIPT_TIMEOUT_SECONDS :: int where
  "DEFAULT_VERIFIER_SCRIPT_TIMEOUT_SECONDS = 60"

definition VERIFIER_REASON_MAX_BYTES :: nat where
  "VERIFIER_REASON_MAX_BYTES = 4096"

definition VERIFIER_JOB_POLL_INTERVAL_MS :: int where
  "VERIFIER_JOB_POLL_INTERVAL_MS = 500"

definition VERIFIER_JOB_POLL_INTERVAL_CAP_MS :: int where
  "VERIFIER_JOB_POLL_INTERVAL_CAP_MS = 5000"

definition VERIFIER_TRANSIENT_RETRY_ATTEMPTS :: nat where
  "VERIFIER_TRANSIENT_RETRY_ATTEMPTS = 3"

definition VERIFIER_GATEWAY_CHAT_PATH :: string where
  "VERIFIER_GATEWAY_CHAT_PATH = ''/chat/completions''"

definition DEFAULT_VERIFIER_SCRIPT_IMAGE :: string where
  "DEFAULT_VERIFIER_SCRIPT_IMAGE = ''ghcr.io/ctkadvisors/kagent-verifier-runner:0.1.7-rig.2''"

definition VERIFIER_JOB_LABEL :: string where
  "VERIFIER_JOB_LABEL = ''kagent.knuteson.io/verifier''"

definition VERIFIER_JOB_NAME_SUFFIX :: string where
  "VERIFIER_JOB_NAME_SUFFIX = ''-verify''"

record verify_deps =
  vd_fetchPrompt :: bool
  vd_gatewayBaseUrl :: "string option"
  vd_gatewayApiKey :: "string option"
  vd_defaultModel :: "string option"
  vd_scriptImage :: "string option"
  vd_serviceAccountName :: "string option"
  vd_audit :: bool
  vd_jobPollIntervalMs :: "int option"
  vd_jobPollIntervalCapMs :: "int option"

text \<open>A thrown value: its status fields, name and message where it is an \<open>Error\<close>, the prompt mark.\<close>

record call_error =
  ce_status :: json
  ce_statusCode :: json
  ce_code :: json
  ce_error :: "(string \<times> string) option"
  ce_wrongPromptType :: bool

record job_condition =
  jd_type :: string
  jd_reason :: "string option"
  jd_message :: "string option"

record job_read =
  jo_succeeded :: "nat option"
  jo_failed :: "nat option"
  jo_conditions :: "job_condition list option"

record gateway_response =
  gr_status :: nat
  gr_body :: "json option"

record verify_env =
  ve_startedAt :: int
  ve_dateNow :: int
  ve_endedAt :: int
  ve_agentName :: "string option option option"
  ve_configMap :: "call_error option"
  ve_job :: "call_error option"
  ve_clock :: "nat \<Rightarrow> int"
  ve_reads :: "nat \<Rightarrow> job_read option"
  ve_fetch :: "nat \<Rightarrow> call_error + string"
  ve_gateway :: "nat \<Rightarrow> call_error + gateway_response"

definition passVerdict :: "verify_env \<Rightarrow> verify_mode \<Rightarrow> verifier_verdict" where
  "passVerdict env mode =
     \<lparr>vf_passed = True, vf_mode = mode, vf_reason = None, vf_completedAt = max (ve_startedAt env) (ve_dateNow env)\<rparr>"

definition failVerdict :: "verify_env \<Rightarrow> verify_mode \<Rightarrow> nat list \<Rightarrow> verifier_verdict" where
  "failVerdict env mode reason =
     \<lparr>vf_passed = False, vf_mode = mode, vf_reason = Some reason,
      vf_completedAt = max (ve_startedAt env) (ve_dateNow env)\<rparr>"

section \<open>The Job of a script\<close>

text \<open>\<open>a ?? b\<close> of a JSON value.\<close>

definition json_or :: "json \<Rightarrow> json \<Rightarrow> json" where
  "json_or a b = (if a = JUndefined \<or> a = JNull then b else a)"

definition namespace_of :: "verify_task \<Rightarrow> string" where
  "namespace_of task = js_or (vt_namespace task) ''default''"

definition makeVerifierName :: "string \<Rightarrow> string" where
  "makeVerifierName parentName =
     (if 200 < length parentName then take 200 parentName else parentName) @ VERIFIER_JOB_NAME_SUFFIX"

definition buildVerifierInputJson :: "(rat \<Rightarrow> string) \<Rightarrow> verify_task \<Rightarrow> string" where
  "buildVerifierInputJson num task =
     json_text num (JObj
       [(''taskUid'', JStr (js_or (vt_uid task) [])),
        (''taskNamespace'', JStr (namespace_of task)),
        (''taskName'', JStr (js_or (vt_name task) [])),
        (''payload'', json_or (vt_payload task) JNull),
        (''inputs'', json_or (vt_inputs task) (JArr [])),
        (''result'', json_or (vt_result task) JNull),
        (''outputs'', json_or (vt_outputs task) (JArr []))])"

definition verifier_labels :: "verify_task \<Rightarrow> json" where
  "verifier_labels task =
     JObj [(''kagent.knuteson.io/task'', JStr (js_or (vt_name task) [])),
           (''kagent.knuteson.io/managed-by'', JStr ''kagent-operator''),
           (VERIFIER_JOB_LABEL, JStr ''true'')]"

definition verifier_metadata :: "verify_task \<Rightarrow> string \<Rightarrow> json" where
  "verifier_metadata task name =
     JObj [(''name'', JStr name),
           (''namespace'', JStr (namespace_of task)),
           (''labels'', verifier_labels task),
           (''ownerReferences'', JArr [JObj
             [(''apiVersion'', JStr (vt_apiVersion task)),
              (''kind'', JStr (vt_kind task)),
              (''name'', JStr (js_or (vt_name task) [])),
              (''uid'', JStr (js_or (vt_uid task) [])),
              (''controller'', JBool True),
              (''blockOwnerDeletion'', JBool True)]])]"

definition buildVerifierConfigMap :: "verify_task \<Rightarrow> string \<Rightarrow> string \<Rightarrow> json" where
  "buildVerifierConfigMap task cmName inputJson =
     JObj [(''apiVersion'', JStr ''v1''),
           (''kind'', JStr ''ConfigMap''),
           (''metadata'', verifier_metadata task cmName),
           (''data'', JObj [(''input.json'', JStr inputJson)])]"

definition env_entry :: "string \<Rightarrow> string \<Rightarrow> json" where
  "env_entry n v = JObj [(''name'', JStr n), (''value'', JStr v)]"

definition verifier_pod :: "verify_deps \<Rightarrow> string \<Rightarrow> string \<Rightarrow> string \<Rightarrow> json" where
  "verifier_pod deps cmName jobImage scriptName =
     JObj ([(''restartPolicy'', JStr ''Never'')] @
       (case vd_serviceAccountName deps of None \<Rightarrow> [] | Some n \<Rightarrow> [(''serviceAccountName'', JStr n)]) @
       [(''containers'', JArr [JObj
           [(''name'', JStr ''verifier''),
            (''image'', JStr jobImage),
            (''env'', JArr [env_entry ''KAGENT_VERIFIER_INPUT_PATH'' ''/var/kagent/verify/input.json'',
                            env_entry ''KAGENT_VERIFIER_SCRIPT_NAME'' scriptName]),
            (''volumeMounts'', JArr [JObj
               [(''name'', JStr ''input''),
                (''mountPath'', JStr ''/var/kagent/verify''),
                (''readOnly'', JBool True)]])]]),
        (''volumes'', JArr [JObj [(''name'', JStr ''input''), (''configMap'', JObj [(''name'', JStr cmName)])]])])"

definition buildVerifierJob ::
  "verify_deps \<Rightarrow> verify_task \<Rightarrow> string \<Rightarrow> string \<Rightarrow> string \<Rightarrow> int \<Rightarrow> string \<Rightarrow> json" where
  "buildVerifierJob deps task jobName cmName jobImage timeoutSeconds scriptName =
     JObj [(''apiVersion'', JStr ''batch/v1''),
           (''kind'', JStr ''Job''),
           (''metadata'', verifier_metadata task jobName),
           (''spec'', JObj
             [(''backoffLimit'', JNum (Fin 0)),
              (''ttlSecondsAfterFinished'', JNum (Fin 300)),
              (''activeDeadlineSeconds'', JNum (Fin (of_int timeoutSeconds))),
              (''template'', JObj
                [(''metadata'', JObj [(''labels'', verifier_labels task)]),
                 (''spec'', verifier_pod deps cmName jobImage scriptName)])])]"

text \<open>\<open>job.metadata?.labels?.[key] === 'true'\<close>, on the object of a Job.\<close>

definition field :: "json \<Rightarrow> string \<Rightarrow> json" where
  "field v k = (case v of JObj kvs \<Rightarrow> obj_get kvs k | _ \<Rightarrow> JUndefined)"

definition isVerifierJob :: "json \<Rightarrow> bool" where
  "isVerifierJob job = (field (field (field job ''metadata'') ''labels'') VERIFIER_JOB_LABEL = JStr ''true'')"

section \<open>The script path\<close>

definition isAlreadyExists :: "call_error \<Rightarrow> bool" where
  "isAlreadyExists e \<longleftrightarrow> ce_code e = JNum (Fin 409) \<or> ce_statusCode e = JNum (Fin 409)"

definition readScriptFailureMessage :: "job_read \<Rightarrow> string" where
  "readScriptFailureMessage job =
     (case find (\<lambda>c. (jd_type c = ''Failed'' \<or> jd_type c = ''FailureTarget'') \<and> jd_message c \<noteq> None)
             (or_empty (jo_conditions job)) of
        None \<Rightarrow> []
      | Some c \<Rightarrow> js_or (jd_message c) [])"

definition failed_condition :: "job_read \<Rightarrow> job_condition option" where
  "failed_condition job = find (\<lambda>c. jd_type c = ''Failed'') (or_empty (jo_conditions job))"

text \<open>The digits of the first match of \<open>/exit code (\d+)/i\<close>.\<close>

fun exit_digits :: "string \<Rightarrow> string option" where
  "exit_digits [] = None"
| "exit_digits (c # cs) =
     (let digits = takeWhile decimal_digit (drop 10 (c # cs)) in
      if map to_lower (take 10 (c # cs)) = ''exit code '' \<and> digits \<noteq> [] then Some digits
      else exit_digits cs)"

definition guessExitCode :: "job_read \<Rightarrow> rat option" where
  "guessExitCode job =
     (case exit_digits (js_or (Option.bind (failed_condition job) jd_message) []) of
        None \<Rightarrow> None
      | Some digits \<Rightarrow>
          (case js_Number digits of
             NonFinite \<Rightarrow> None
           | Fin n \<Rightarrow> (if \<not> js_isInteger n \<or> n < 0 then None else Some n)))"

definition failure_reason :: "job_read \<Rightarrow> nat list" where
  "failure_reason job =
     (let tail = readScriptFailureMessage job;
          tag = (if Option.bind (failed_condition job) jd_reason = Some ''DeadlineExceeded'' then ''verifier_timeout''
                 else (case guessExitCode job of
                         Some n \<Rightarrow> ''script_exit_'' @ string_of_int \<lfloor>n\<rfloor>
                       | None \<Rightarrow> ''script_failed''))
      in if tail \<noteq> [] then points tag @ points '': '' @ truncateReason VERIFIER_REASON_MAX_BYTES (points tail)
         else points tag)"

datatype script_outcome = ScriptPassed | ScriptFailed "nat list"

definition decided :: "job_read option \<Rightarrow> script_outcome option" where
  "decided observed =
     (case observed of
        None \<Rightarrow> None
      | Some job \<Rightarrow>
          (if 0 < js_or (jo_succeeded job) 0 then Some ScriptPassed
           else if 0 < js_or (jo_failed job) 0 then Some (ScriptFailed (failure_reason job))
           else None))"

text \<open>
  The polling loop from its \<open>n\<close>-th look at the clock, with the waits so far. It has no bound of its
  own: it ends when a read decides or the clock passes the deadline.
\<close>

partial_function (option) poll_job ::
  "(nat \<Rightarrow> int) \<Rightarrow> (nat \<Rightarrow> job_read option) \<Rightarrow> int \<Rightarrow> int \<Rightarrow> nat \<Rightarrow> int \<Rightarrow> int list \<Rightarrow> (script_outcome \<times> int list) option"
where
  "poll_job clock reads deadline pollCap n interval waits =
     (if clock n < deadline then
        (case decided (reads n) of
           Some out \<Rightarrow> Some (out, waits)
         | None \<Rightarrow> poll_job clock reads deadline pollCap (Suc n) (min (interval * 2) pollCap) (waits @ [max 0 interval]))
      else Some (ScriptFailed (points ''verifier_timeout''), waits))"

datatype verify_call = ConfigMapCreated json | JobCreated json | JobWaited "int list" | PromptFetched string "int option" nat
  | JudgeAsked string "(string \<times> string) list" string nat

definition verifier_name_of :: "verify_task \<Rightarrow> string" where
  "verifier_name_of task = makeVerifierName (js_or (vt_name task) ''unknown'')"

definition script_deadline :: "verify_env \<Rightarrow> int" where
  "script_deadline env = ve_startedAt env + (DEFAULT_VERIFIER_SCRIPT_TIMEOUT_SECONDS + 5) * 1000"

definition created :: "call_error option \<Rightarrow> bool" where
  "created answer = (case answer of None \<Rightarrow> True | Some e \<Rightarrow> isAlreadyExists e)"

definition runScriptVerifier ::
  "(rat \<Rightarrow> string) \<Rightarrow> verify_deps \<Rightarrow> verify_env \<Rightarrow> verify_task \<Rightarrow> verify_contract \<Rightarrow>
   (verifier_verdict \<times> verify_call list) option" where
  "runScriptVerifier num deps env task contract =
     (case vc_scriptRef contract of
        None \<Rightarrow> Some (failVerdict env VScript no_paths_set, [])
      | Some scriptName \<Rightarrow>
          (let jobName = verifier_name_of task; cmName = jobName @ ''-input'';
               cm = ConfigMapCreated (buildVerifierConfigMap task cmName (buildVerifierInputJson num task));
               job = JobCreated (buildVerifierJob deps task jobName cmName
                       (js_or (vd_scriptImage deps) DEFAULT_VERIFIER_SCRIPT_IMAGE)
                       DEFAULT_VERIFIER_SCRIPT_TIMEOUT_SECONDS scriptName) in
           if \<not> created (ve_configMap env) then
             Some (failVerdict env VScript (points ''script_dispatch_error:configmap_create''), [cm])
           else if \<not> created (ve_job env) then
             Some (failVerdict env VScript (points ''script_dispatch_error:job_create''), [cm, job])
           else
             map_option (\<lambda>(out, waits).
               (case out of ScriptPassed \<Rightarrow> passVerdict env VScript | ScriptFailed r \<Rightarrow> failVerdict env VScript r,
                [cm, job, JobWaited waits]))
             (poll_job (ve_clock env) (ve_reads env) (script_deadline env)
                (js_or (vd_jobPollIntervalCapMs deps) VERIFIER_JOB_POLL_INTERVAL_CAP_MS) 0
                (js_or (vd_jobPollIntervalMs deps) VERIFIER_JOB_POLL_INTERVAL_MS) [])))"

section \<open>Retries\<close>

text \<open>\<open>parseInt(s, 10)\<close>.\<close>

definition parse_int10 :: "string \<Rightarrow> int option" where
  "parse_int10 s =
     (let t = dropWhile js_space s;
          neg = (t \<noteq> [] \<and> hd t = CHR ''-'');
          ds = takeWhile decimal_digit (if t \<noteq> [] \<and> (hd t = CHR ''-'' \<or> hd t = CHR ''+'') then tl t else t)
      in map_option (\<lambda>n. if neg then - int n else int n) (digits_nat 10 ds))"

fun transient_status :: "json list \<Rightarrow> rat option" where
  "transient_status [] = None"
| "transient_status (JNum (Fin q) # cs) = Some q"
| "transient_status (JStr s # cs) =
     (case parse_int10 s of Some n \<Rightarrow> Some (of_int n) | None \<Rightarrow> transient_status cs)"
| "transient_status (c # cs) = transient_status cs"

definition transientStatusFromError :: "call_error \<Rightarrow> rat option" where
  "transientStatusFromError e = transient_status [ce_status e, ce_statusCode e, ce_code e]"

definition isTransient5xx :: "rat option \<Rightarrow> bool" where
  "isTransient5xx status \<longleftrightarrow> status = Some 502 \<or> status = Some 503 \<or> status = Some 504"

text \<open>From attempt \<open>i\<close> with some more to come: the number of attempts made, and how the last one ended.\<close>

fun retry_from :: "(nat \<Rightarrow> call_error + 'a) \<Rightarrow> nat \<Rightarrow> nat \<Rightarrow> nat \<times> (call_error + 'a)" where
  "retry_from op i 0 = (Suc i, op i)"
| "retry_from op i (Suc left) =
     (case op i of
        Inr v \<Rightarrow> (Suc i, Inr v)
      | Inl e \<Rightarrow>
          (if \<not> isTransient5xx (transientStatusFromError e) then (Suc i, Inl e)
           else retry_from op (Suc i) left))"

definition retryTransient :: "nat \<Rightarrow> (nat \<Rightarrow> call_error + 'a) \<Rightarrow> nat \<times> (call_error + 'a)" where
  "retryTransient attempts op = retry_from op 0 (attempts - 1)"

section \<open>The judge path\<close>

definition gateway_attempt :: "verify_env \<Rightarrow> nat \<Rightarrow> call_error + gateway_response" where
  "gateway_attempt env i =
     (case ve_gateway env i of
        Inl e \<Rightarrow> Inl e
      | Inr r \<Rightarrow>
          (if isTransient5xx (Some (of_nat (gr_status r))) then
             Inl \<lparr>ce_status = JNum (Fin (of_nat (gr_status r))), ce_statusCode = JUndefined, ce_code = JUndefined,
                  ce_error = Some (''Error'', ''gateway transient '' @ string_of_nat (gr_status r)),
                  ce_wrongPromptType = False\<rparr>
           else Inr r))"

definition is_abort :: "call_error \<Rightarrow> bool" where
  "is_abort e =
     (case ce_error e of
        None \<Rightarrow> False
      | Some (name, message) \<Rightarrow> name = ''TimeoutError'' \<or> name = ''AbortError'' \<or> js_includes message ''aborted'')"

definition gateway_failure :: "call_error \<Rightarrow> string" where
  "gateway_failure e =
     (if is_abort e then ''verifier_timeout''
      else (case transientStatusFromError e of
              Some q \<Rightarrow>
                (if isTransient5xx (Some q) then ''gateway_error:'' @ string_of_int \<lfloor>q\<rfloor> else ''gateway_error:network'')
            | None \<Rightarrow> ''gateway_error:network''))"

definition chat_url :: "string \<Rightarrow> string" where
  "chat_url base = rev (dropWhile (\<lambda>c. c = CHR ''/'') (rev base)) @ VERIFIER_GATEWAY_CHAT_PATH"

definition chat_headers :: "verify_deps \<Rightarrow> (string \<times> string) list" where
  "chat_headers deps =
     [(''content-type'', ''application/json''), (''accept'', ''application/json'')] @
     (case vd_gatewayApiKey deps of
        None \<Rightarrow> []
      | Some k \<Rightarrow> (if k \<noteq> [] then [(''authorization'', ''Bearer '' @ k)] else []))"

definition chat_body :: "(rat \<Rightarrow> string) \<Rightarrow> verify_deps \<Rightarrow> string \<Rightarrow> string" where
  "chat_body num deps renderedPrompt =
     json_text num (JObj
       [(''model'', JStr (js_or (vd_defaultModel deps) [])),
        (''messages'', JArr [JObj [(''role'', JStr ''user''), (''content'', JStr renderedPrompt)]]),
        (''temperature'', JNum (Fin 0))])"

text \<open>
  \<open>parsedBody.choices?.[0]?.message?.content\<close>. Of a body that is \<open>null\<close> it throws, and no \<open>try\<close> of
  the judge path is around it.
\<close>

definition judge_content :: "json \<Rightarrow> json" where
  "judge_content body =
     (let first = (case field body ''choices'' of
                     JArr (c # cs) \<Rightarrow> c
                   | JObj kvs \<Rightarrow> obj_get kvs ''0''
                   | _ \<Rightarrow> JUndefined)
      in field (field first ''message'') ''content'')"

datatype judge_outcome = JudgeThrows | JudgePasses | JudgeFails "nat list"

definition non_json :: "nat list" where
  "non_json = points ''verifier_returned_non_json''"

definition judge_response :: "(string \<Rightarrow> json option) \<Rightarrow> gateway_response \<Rightarrow> judge_outcome" where
  "judge_response parse response =
     (if \<not> (200 \<le> gr_status response \<and> gr_status response < 300) then
        JudgeFails (points (''gateway_error:'' @ string_of_nat (gr_status response)))
      else if gr_body response = None then JudgeFails non_json
      else if gr_body response = Some JNull then JudgeThrows
      else
        (case map_option judge_content (gr_body response) of
           Some (JStr content) \<Rightarrow>
             (if content = [] then JudgeFails non_json
              else
                (case parseVerifierJudgeReply parse content of
                   None \<Rightarrow> JudgeFails non_json
                 | Some reply \<Rightarrow>
                     (if jr_verdict reply = VerdictPass then JudgePasses
                      else if jr_reason reply \<noteq> [] then
                        JudgeFails (points ''verdict:fail: '' @ truncateReason VERIFIER_REASON_MAX_BYTES (points (jr_reason reply)))
                      else JudgeFails (points ''verdict:fail''))))
         | _ \<Rightarrow> JudgeFails non_json))"

definition judge_prompt :: "(rat \<Rightarrow> string) \<Rightarrow> (string \<Rightarrow> json option) \<Rightarrow> verify_task \<Rightarrow> string \<Rightarrow> string" where
  "judge_prompt num parse task template =
     renderLlmJudgePrompt template (json_text num (extractParentOutputForJudge parse (vt_result task)))"

definition runLlmJudgeVerifier ::
  "(rat \<Rightarrow> string) \<Rightarrow> (string \<Rightarrow> json option) \<Rightarrow> verify_deps \<Rightarrow> verify_env \<Rightarrow> verify_task \<Rightarrow> verify_contract \<Rightarrow>
   verifier_verdict option \<times> verify_call list" where
  "runLlmJudgeVerifier num parse deps env task contract =
     (case vc_llmJudgePromptRef contract of
        None \<Rightarrow> (Some (failVerdict env VJudge no_paths_set), [])
      | Some (refName, refVersion) \<Rightarrow>
          (if js_or (vd_gatewayBaseUrl deps) [] = [] then
             (Some (failVerdict env VJudge (points ''verifier_misconfig:gateway_unconfigured'')), [])
           else if \<not> vd_fetchPrompt deps then
             (Some (failVerdict env VJudge (points ''verifier_misconfig:langfuse_unconfigured'')), [])
           else
             (let (k, fetched) = retryTransient VERIFIER_TRANSIENT_RETRY_ATTEMPTS (ve_fetch env);
                  fetching = PromptFetched refName refVersion k in
              case fetched of
                Inl e \<Rightarrow>
                  (Some (failVerdict env VJudge
                     (points (if ce_wrongPromptType e then ''langfuse_wrong_prompt_type'' else ''langfuse_fetch_failed''))),
                   [fetching])
              | Inr template \<Rightarrow>
                  (let (m, answer) = retryTransient VERIFIER_TRANSIENT_RETRY_ATTEMPTS (gateway_attempt env);
                       asking = JudgeAsked (chat_url (js_or (vd_gatewayBaseUrl deps) [])) (chat_headers deps)
                                  (chat_body num deps (judge_prompt num parse task template)) m in
                   (case answer of
                      Inl e \<Rightarrow> Some (failVerdict env VJudge (points (gateway_failure e)))
                    | Inr response \<Rightarrow>
                        (case judge_response parse response of
                           JudgeThrows \<Rightarrow> None
                         | JudgePasses \<Rightarrow> Some (passVerdict env VJudge)
                         | JudgeFails reason \<Rightarrow> Some (failVerdict env VJudge reason)),
                    [fetching, asking])))))"

section \<open>One verification\<close>

datatype verify_effect =
    AuditStarted verify_mode string string
  | VerifierCalled verify_call
  | VerdictPatch verifier_verdict
  | AuditCompleted verify_mode string int string
  | AuditFailed verify_mode string int "nat list" string

definition resolveAgentNameSafely :: "verify_env \<Rightarrow> verify_task \<Rightarrow> string" where
  "resolveAgentNameSafely env task =
     (case ve_agentName env of
        Some (Some (Some n)) \<Rightarrow> (if n \<noteq> [] then n else js_or (vt_targetAgent task) [])
      | _ \<Rightarrow> js_or (vt_targetAgent task) [])"

definition audited :: "verify_deps \<Rightarrow> verify_effect \<Rightarrow> verify_effect list" where
  "audited deps e = (if vd_audit deps then [e] else [])"

definition patchVerificationStatus :: "verify_task \<Rightarrow> verifier_verdict \<Rightarrow> verify_effect list" where
  "patchVerificationStatus task v = (if js_or (vt_name task) [] = [] then [] else [VerdictPatch v])"

definition terminal_audit :: "verify_env \<Rightarrow> string \<Rightarrow> string \<Rightarrow> verifier_verdict \<Rightarrow> verify_effect" where
  "terminal_audit env judgeRef agentName v =
     (let durationMs = max 0 (ve_endedAt env - ve_startedAt env) in
      if vf_passed v then AuditCompleted (vf_mode v) judgeRef durationMs agentName
      else AuditFailed (vf_mode v) judgeRef durationMs (js_or (vf_reason v) (points ''unknown'')) agentName)"

definition misconfig_verdict :: "verify_env \<Rightarrow> verify_contract \<Rightarrow> nat list \<Rightarrow> verifier_verdict" where
  "misconfig_verdict env contract reason =
     \<lparr>vf_passed = False, vf_mode = (if vc_scriptRef contract \<noteq> None then VScript else VJudge),
      vf_reason = Some reason, vf_completedAt = ve_startedAt env\<rparr>"

text \<open>The verdict, or none where the judge path throws; nothing at all where the polling never ends.\<close>

definition verdict_of ::
  "(rat \<Rightarrow> string) \<Rightarrow> (string \<Rightarrow> json option) \<Rightarrow> verify_deps \<Rightarrow> verify_env \<Rightarrow> verify_task \<Rightarrow> verify_contract \<Rightarrow>
   (verifier_verdict option \<times> verify_call list) option" where
  "verdict_of num parse deps env task contract =
     (case pickDispatchMode contract of
        Inl reason \<Rightarrow> Some (Some (misconfig_verdict env contract reason), [])
      | Inr VScript \<Rightarrow> map_option (map_prod Some id) (runScriptVerifier num deps env task contract)
      | Inr VJudge \<Rightarrow> Some (runLlmJudgeVerifier num parse deps env task contract))"

definition mode_of :: "verify_contract \<Rightarrow> verify_mode" where
  "mode_of contract =
     (case pickDispatchMode contract of
        Inl reason \<Rightarrow> (if vc_scriptRef contract \<noteq> None then VScript else VJudge)
      | Inr mode \<Rightarrow> mode)"

text \<open>No verdict is the result of a dispatch that throws: what was done until then stays done.\<close>

definition dispatchVerification ::
  "(rat \<Rightarrow> string) \<Rightarrow> (string \<Rightarrow> json option) \<Rightarrow> verify_deps \<Rightarrow> verify_env \<Rightarrow> verify_task \<Rightarrow> verify_contract \<Rightarrow>
   (verifier_verdict option \<times> verify_effect list) option" where
  "dispatchVerification num parse deps env task contract =
     (let agentName = resolveAgentNameSafely env task;
          judgeRef = describeJudgeRef contract (mode_of contract) in
      map_option (\<lambda>(verdict, calls).
        (verdict,
         audited deps (AuditStarted (mode_of contract) judgeRef agentName) @ map VerifierCalled calls @
         (case verdict of
            None \<Rightarrow> []
          | Some v \<Rightarrow> patchVerificationStatus task v @ audited deps (terminal_audit env judgeRef agentName v))))
      (verdict_of num parse deps env task contract))"

section \<open>Polling\<close>

text \<open>A read that decides in time, the first one that does.\<close>

definition first_decision ::
  "(nat \<Rightarrow> int) \<Rightarrow> (nat \<Rightarrow> job_read option) \<Rightarrow> int \<Rightarrow> nat \<Rightarrow> nat \<Rightarrow> script_outcome \<Rightarrow> bool" where
  "first_decision clock reads deadline m n out \<longleftrightarrow>
     m \<le> n \<and> (\<forall>i. m \<le> i \<and> i \<le> n \<longrightarrow> clock i < deadline) \<and> (\<forall>i. m \<le> i \<and> i < n \<longrightarrow> decided (reads i) = None) \<and>
     decided (reads n) = Some out"

lemma first_decision_later:
  assumes "clock m < deadline" "decided (reads m) = None"
  shows "first_decision clock reads deadline m n out \<longleftrightarrow> first_decision clock reads deadline (Suc m) n out"
proof
  assume d: "first_decision clock reads deadline m n out"
  with assms(2) have "m \<noteq> n" by (auto simp: first_decision_def)
  with d show "first_decision clock reads deadline (Suc m) n out" by (auto simp: first_decision_def)
next
  assume d: "first_decision clock reads deadline (Suc m) n out"
  have "m \<le> i \<longleftrightarrow> i = m \<or> Suc m \<le> i" for i by auto
  with d assms show "first_decision clock reads deadline m n out" by (auto simp: first_decision_def)
qed

lemma poll_decides:
  "first_decision clock reads deadline m n out \<Longrightarrow> \<exists>ws. poll_job clock reads deadline pollCap m interval waits = Some (out, ws)"
proof (induction "n - m" arbitrary: m interval waits)
  case 0
  then have "m = n" by (simp add: first_decision_def)
  with 0(2) show ?case by (subst poll_job.simps) (auto simp: first_decision_def)
next
  case (Suc k)
  then have lt: "m < n" by linarith
  with Suc.prems have now: "clock m < deadline" "decided (reads m) = None" by (auto simp: first_decision_def)
  with Suc.prems first_decision_later have "first_decision clock reads deadline (Suc m) n out" by blast
  moreover have "k = n - Suc m" using Suc(2) by linarith
  ultimately show ?case using Suc(1) now by (subst poll_job.simps) simp
qed

definition decided_or_late :: "(nat \<Rightarrow> int) \<Rightarrow> (nat \<Rightarrow> job_read option) \<Rightarrow> int \<Rightarrow> nat \<Rightarrow> script_outcome \<Rightarrow> bool" where
  "decided_or_late clock reads deadline m out \<longleftrightarrow>
     (\<exists>n. first_decision clock reads deadline m n out) \<or> out = ScriptFailed (points ''verifier_timeout'')"

lemma decided_or_late_step:
  assumes "\<And>y. poll = Some y \<Longrightarrow> decided_or_late clock reads deadline (Suc m) (fst y)"
    and "(if clock m < deadline then (case decided (reads m) of Some out \<Rightarrow> Some (out, waits) | None \<Rightarrow> poll)
       else Some (ScriptFailed (points ''verifier_timeout''), waits)) = Some y"
  shows "decided_or_late clock reads deadline m (fst y)"
proof (cases "clock m < deadline \<and> decided (reads m) = None")
  case True
  with assms(2) have "poll = Some y" by simp
  from assms(1) [OF this] first_decision_later [of clock m deadline reads] True show ?thesis
    unfolding decided_or_late_def by blast
next
  case False
  with assms(2) show ?thesis
    by (cases "decided (reads m)") (auto simp: decided_or_late_def first_decision_def intro!: exI [of _ m] split: if_splits)
qed

lemma poll_was_decided:
  assumes "poll_job clock reads deadline pollCap m interval waits = Some y"
  shows "decided_or_late clock reads deadline m (fst y)"
  by (rule poll_job.raw_induct
        [where P = "\<lambda>clock reads deadline pollCap m interval waits y. decided_or_late clock reads deadline m (fst y)",
         OF _ assms])
     (rule decided_or_late_step)

text \<open>The waits of the loop, and a clock that moves on by at least what was waited for.\<close>

fun wait_at :: "int \<Rightarrow> int \<Rightarrow> nat \<Rightarrow> int" where
  "wait_at interval pollCap 0 = interval"
| "wait_at interval pollCap (Suc k) = wait_at (min (interval * 2) pollCap) pollCap k"

definition clock_runs :: "(nat \<Rightarrow> int) \<Rightarrow> int \<Rightarrow> nat \<Rightarrow> int \<Rightarrow> bool" where
  "clock_runs clock pollCap m interval \<longleftrightarrow> (\<forall>k. clock (m + k) + wait_at interval pollCap k \<le> clock (Suc (m + k)))"

lemma clock_runs_next:
  assumes "clock_runs clock pollCap m interval"
  shows "clock m + interval \<le> clock (Suc m)" "clock_runs clock pollCap (Suc m) (min (interval * 2) pollCap)"
proof -
  from assms have "clock (m + 0) + wait_at interval pollCap 0 \<le> clock (Suc (m + 0))"
    unfolding clock_runs_def by blast
  then show "clock m + interval \<le> clock (Suc m)" by simp
  from assms have "\<forall>k. clock (m + Suc k) + wait_at interval pollCap (Suc k) \<le> clock (Suc (m + Suc k))"
    unfolding clock_runs_def by blast
  then show "clock_runs clock pollCap (Suc m) (min (interval * 2) pollCap)" by (simp add: clock_runs_def)
qed

definition polls_at_most ::
  "nat \<Rightarrow> (nat \<Rightarrow> int) \<Rightarrow> (nat \<Rightarrow> job_read option) \<Rightarrow> int \<Rightarrow> int \<Rightarrow> nat \<Rightarrow> int \<Rightarrow> int list \<Rightarrow> bool" where
  "polls_at_most k clock reads deadline pollCap m interval waits \<longleftrightarrow>
     (\<exists>out ws. poll_job clock reads deadline pollCap m interval waits = Some (out, ws) \<and> length ws \<le> length waits + k)"

lemma polls_step:
  assumes "polls_at_most k clock reads deadline pollCap (Suc m) (min (interval * 2) pollCap) (waits @ [max 0 interval])"
  shows "polls_at_most (Suc k) clock reads deadline pollCap m interval waits"
  using assms unfolding polls_at_most_def by (subst poll_job.simps) (auto split: option.splits)

lemma polls_late: "deadline \<le> clock m \<Longrightarrow> polls_at_most k clock reads deadline pollCap m interval waits"
  unfolding polls_at_most_def by (subst poll_job.simps) simp

lemma poll_returns_within:
  assumes "clock_runs clock pollCap m interval" "0 < interval" "interval \<le> pollCap"
    and "deadline - clock m \<le> interval * int k"
  shows "polls_at_most k clock reads deadline pollCap m interval waits"
  using assms
proof (induction k arbitrary: m interval waits)
  case 0
  then show ?case by (intro polls_late) simp
next
  case (Suc k)
  note next_clock = clock_runs_next [OF Suc.prems(1)]
  let ?i = "min (interval * 2) pollCap"
  have i: "0 < ?i" "?i \<le> pollCap" "interval \<le> ?i" using Suc.prems by auto
  have "deadline - clock (Suc m) \<le> interval * int k"
    using next_clock(1) Suc.prems(4) by (simp add: distrib_left)
  also have "\<dots> \<le> ?i * int k" using i(3) by (intro mult_right_mono) simp_all
  finally show ?case by (intro polls_step Suc.IH [OF next_clock(2) i(1,2)])
qed

lemma default_polling:
  assumes "clock_runs clock 5000 0 500" "deadline \<le> clock 0 + 65000"
  shows "polls_at_most 16 clock reads deadline 5000 0 500 []"
proof -
  note c1 = clock_runs_next [OF assms(1), simplified]
  note c2 = clock_runs_next [OF c1(2), simplified]
  note c3 = clock_runs_next [OF c2(2), simplified]
  note c4 = clock_runs_next [OF c3(2), simplified]
  have "deadline - clock 4 \<le> 5000 * int 12"
    using assms(2) c1(1) c2(1) c3(1) c4(1) by (simp add: eval_nat_numeral)
  then have "polls_at_most 12 clock reads deadline 5000 (Suc (Suc (Suc (Suc 0)))) 5000 ws" for ws
    using c4(2) by (intro poll_returns_within) (simp_all add: eval_nat_numeral)
  then have "polls_at_most (Suc (Suc (Suc (Suc 12)))) clock reads deadline 5000 0 500 []"
    by (intro polls_step) simp
  then show ?thesis by (simp add: eval_nat_numeral)
qed

section \<open>What a verdict rests on\<close>

text \<open>The script ran: both objects were there, and the first read that decided, in time, saw a success.\<close>

definition script_evidence :: "verify_env \<Rightarrow> bool" where
  "script_evidence env \<longleftrightarrow>
     created (ve_configMap env) \<and> created (ve_job env) \<and>
     (\<exists>n job. ve_reads env n = Some job \<and> 0 < js_or (jo_succeeded job) 0 \<and>
        (\<forall>i\<le>n. ve_clock env i < script_deadline env) \<and> (\<forall>i<n. decided (ve_reads env i) = None))"

definition first_answer :: "(nat \<Rightarrow> call_error + 'a) \<Rightarrow> 'a \<Rightarrow> bool" where
  "first_answer op v \<longleftrightarrow>
     (\<exists>k<VERIFIER_TRANSIENT_RETRY_ATTEMPTS. op k = Inr v \<and>
        (\<forall>i<k. \<exists>e. op i = Inl e \<and> isTransient5xx (transientStatusFromError e)))"

text \<open>The judge said so: the prompt was there and the model answered with a verdict of pass.\<close>

definition judge_evidence :: "(string \<Rightarrow> json option) \<Rightarrow> verify_deps \<Rightarrow> verify_env \<Rightarrow> bool" where
  "judge_evidence parse deps env \<longleftrightarrow>
     js_or (vd_gatewayBaseUrl deps) [] \<noteq> [] \<and> vd_fetchPrompt deps \<and> (\<exists>template. first_answer (ve_fetch env) template) \<and>
     (\<exists>response body content reply. first_answer (gateway_attempt env) response \<and>
        200 \<le> gr_status response \<and> gr_status response < 300 \<and> gr_body response = Some body \<and>
        judge_content body = JStr content \<and> parseVerifierJudgeReply parse content = Some reply \<and>
        jr_verdict reply = VerdictPass)"

definition evidence ::
  "(string \<Rightarrow> json option) \<Rightarrow> verify_deps \<Rightarrow> verify_env \<Rightarrow> verify_contract \<Rightarrow> bool" where
  "evidence parse deps env contract =
     (case (vc_scriptRef contract, vc_llmJudgePromptRef contract) of
        (Some s, None) \<Rightarrow> script_evidence env
      | (None, Some r) \<Rightarrow> judge_evidence parse deps env
      | _ \<Rightarrow> False)"

lemma decided_passed: "decided r = Some ScriptPassed \<longleftrightarrow> (\<exists>job. r = Some job \<and> 0 < js_or (jo_succeeded job) 0)"
  by (auto simp: decided_def split: option.splits)

lemma polled_evidence:
  assumes "poll_job (ve_clock env) (ve_reads env) (script_deadline env) pollCap 0 interval waits = Some (out, ws)"
    and "created (ve_configMap env)" "created (ve_job env)"
  shows "out = ScriptPassed \<longleftrightarrow> script_evidence env"
proof
  assume "out = ScriptPassed"
  with poll_was_decided [OF assms(1)] obtain n
    where "first_decision (ve_clock env) (ve_reads env) (script_deadline env) 0 n ScriptPassed"
    by (auto simp: decided_or_late_def)
  then show "script_evidence env" using assms(2,3) by (auto simp: script_evidence_def first_decision_def decided_passed)
next
  assume "script_evidence env"
  then obtain n where "first_decision (ve_clock env) (ve_reads env) (script_deadline env) 0 n ScriptPassed"
    by (auto simp: script_evidence_def first_decision_def decided_passed)
  from poll_decides [OF this, of pollCap interval waits] assms(1) show "out = ScriptPassed" by auto
qed

lemma retry_from_answer:
  "snd (retry_from op i left) = Inr v \<longleftrightarrow>
     (\<exists>k\<le>left. op (i + k) = Inr v \<and> (\<forall>j<k. \<exists>e. op (i + j) = Inl e \<and> isTransient5xx (transientStatusFromError e)))"
proof (induction op i left rule: retry_from.induct)
  case (2 op i left)
  have split: "(\<exists>k\<le>Suc left. P k) \<longleftrightarrow> P 0 \<or> (\<exists>k\<le>left. P (Suc k))" for P
    by (metis Suc_le_mono le0 not0_implies_Suc)
  have all: "(\<forall>j<Suc k. P j) \<longleftrightarrow> P 0 \<and> (\<forall>j<k. P (Suc j))" for k P
    using less_Suc_eq_0_disj by auto
  show ?case
  proof (cases "op i")
    case (Inl e)
    then show ?thesis using 2 [OF Inl] by (auto simp: split all)
  qed (auto simp: split all)
qed simp

lemma retried_answer: "snd (retryTransient VERIFIER_TRANSIENT_RETRY_ATTEMPTS op) = Inr v \<longleftrightarrow> first_answer op v"
proof -
  have "k \<le> 2 \<longleftrightarrow> k < 3" for k :: nat by auto
  then show ?thesis
    unfolding retryTransient_def retry_from_answer first_answer_def VERIFIER_TRANSIENT_RETRY_ATTEMPTS_def by simp
qed

lemma first_answer_unique:
  assumes "first_answer op v" "first_answer op w"
  shows "v = w"
  using assms by (simp add: retried_answer [symmetric])

lemma judge_response_passes:
  "judge_response parse response = JudgePasses \<longleftrightarrow>
     (\<exists>body content reply. 200 \<le> gr_status response \<and> gr_status response < 300 \<and> gr_body response = Some body \<and>
        judge_content body = JStr content \<and> parseVerifierJudgeReply parse content = Some reply \<and>
        jr_verdict reply = VerdictPass)"
proof -
  have "judge_content JNull = JUndefined" "parseVerifierJudgeReply parse [] = None"
    by (simp_all add: judge_content_def field_def parseVerifierJudgeReply_def js_trim_def obj_get_def)
  then show ?thesis
    unfolding judge_response_def by (auto split: option.splits json.splits)
qed

lemma points_nonempty: "points s = [] \<longleftrightarrow> s = []"
  by (simp add: points_def)

text \<open>A verdict is sound when it passes exactly on its evidence and never fails without a reason.\<close>

definition sound_verdict :: "bool \<Rightarrow> verifier_verdict \<Rightarrow> bool" where
  "sound_verdict ev v \<longleftrightarrow> (vf_passed v \<longleftrightarrow> ev) \<and> (\<not> vf_passed v \<longrightarrow> (\<exists>r. vf_reason v = Some r \<and> r \<noteq> []))"

lemma sound_fail: "\<not> ev \<Longrightarrow> r \<noteq> [] \<Longrightarrow> sound_verdict ev (failVerdict env mode r)"
  by (simp add: sound_verdict_def failVerdict_def)

lemma sound_pass: "ev \<Longrightarrow> sound_verdict ev (passVerdict env mode)"
  by (simp add: sound_verdict_def passVerdict_def)

lemma failure_reason_nonempty: "failure_reason job \<noteq> []"
  by (simp add: failure_reason_def Let_def points_nonempty split: option.split)

lemma poll_reason:
  assumes "poll_job clock reads deadline pollCap m interval waits = Some (ScriptFailed r, ws)"
  shows "r \<noteq> []"
  using poll_was_decided [OF assms]
  by (auto simp: decided_or_late_def first_decision_def decided_def failure_reason_nonempty points_nonempty
           split: option.splits if_splits)

lemma script_sound:
  assumes "runScriptVerifier num deps env task contract = Some (v, calls)" "vc_scriptRef contract \<noteq> None"
  shows "sound_verdict (script_evidence env) v"
proof (cases "created (ve_configMap env) \<and> created (ve_job env)")
  case True
  let ?cap = "js_or (vd_jobPollIntervalCapMs deps) VERIFIER_JOB_POLL_INTERVAL_CAP_MS"
  let ?int = "js_or (vd_jobPollIntervalMs deps) VERIFIER_JOB_POLL_INTERVAL_MS"
  from assms True obtain out ws where
    poll: "poll_job (ve_clock env) (ve_reads env) (script_deadline env) ?cap 0 ?int [] = Some (out, ws)"
    and v: "v = (case out of ScriptPassed \<Rightarrow> passVerdict env VScript | ScriptFailed r \<Rightarrow> failVerdict env VScript r)"
    by (auto simp: runScriptVerifier_def Let_def)
  from polled_evidence [OF poll] True have "out = ScriptPassed \<longleftrightarrow> script_evidence env" by blast
  with v poll show ?thesis by (cases out) (auto intro: sound_pass sound_fail dest: poll_reason)
next
  case False
  then have "\<not> script_evidence env" by (auto simp: script_evidence_def)
  with assms False show ?thesis
    by (auto simp: runScriptVerifier_def Let_def points_nonempty intro!: sound_fail split: if_splits)
qed

lemma judge_response_reason: "judge_response parse response = JudgeFails r \<Longrightarrow> r \<noteq> []"
  by (auto simp: judge_response_def points_nonempty points_def non_json_def split: if_splits option.splits json.splits)

lemma gateway_failure_nonempty: "gateway_failure e \<noteq> []"
  by (simp add: gateway_failure_def split: option.split)

lemma judge_sound:
  assumes "runLlmJudgeVerifier num parse deps env task contract = (Some v, calls)" "vc_llmJudgePromptRef contract \<noteq> None"
  shows "sound_verdict (judge_evidence parse deps env) v"
proof -
  obtain refName refVersion where ref: "vc_llmJudgePromptRef contract = Some (refName, refVersion)" using assms(2) by auto
  obtain k fetched m answer where
    f: "retryTransient VERIFIER_TRANSIENT_RETRY_ATTEMPTS (ve_fetch env) = (k, fetched)" and
    g: "retryTransient VERIFIER_TRANSIENT_RETRY_ATTEMPTS (gateway_attempt env) = (m, answer)" by fastforce
  have fa: "first_answer (ve_fetch env) t \<longleftrightarrow> fetched = Inr t" for t
    using retried_answer [of "ve_fetch env" t] by (simp add: f)
  have ga: "first_answer (gateway_attempt env) r \<longleftrightarrow> answer = Inr r" for r
    using retried_answer [of "gateway_attempt env" r] by (simp add: g)
  have ev: "judge_evidence parse deps env \<longleftrightarrow>
      js_or (vd_gatewayBaseUrl deps) [] \<noteq> [] \<and> vd_fetchPrompt deps \<and> (\<exists>t. fetched = Inr t) \<and>
      (\<exists>r. answer = Inr r \<and> judge_response parse r = JudgePasses)"
    unfolding judge_evidence_def fa ga judge_response_passes by blast
  from assms(1) show ?thesis
    unfolding runLlmJudgeVerifier_def ref f g Let_def ev
    by (auto simp: points_nonempty gateway_failure_nonempty no_paths_set_def sound_verdict_def failVerdict_def passVerdict_def
             dest: judge_response_reason split: if_splits sum.splits judge_outcome.splits)
qed

section \<open>Theorems\<close>

text \<open>
C10. A verdict passes exactly on evidence: for a script, both objects exist and the first decisive
  read of its Job, before the deadline, saw a success; for a judge, within three attempts the prompt
  was fetched and the model answered with a verdict of pass; a contract with both paths or none never
  passes. A verdict that does not pass says why. This holds for every behaviour of the cluster, the
  prompt store, the gateway and the clock.
\<close>

theorem verdict_is_evidence:
  assumes "dispatchVerification num parse deps env task contract = Some (Some v, effects)"
  shows "(vf_passed v \<longleftrightarrow> evidence parse deps env contract) \<and>
    (\<not> vf_passed v \<longrightarrow> (\<exists>r. vf_reason v = Some r \<and> r \<noteq> []))"
proof -
  from assms obtain calls where v: "verdict_of num parse deps env task contract = Some (Some v, calls)"
    by (auto simp: dispatchVerification_def Let_def)
  have "sound_verdict (evidence parse deps env contract) v"
  proof (cases "vc_scriptRef contract"; cases "vc_llmJudgePromptRef contract")
    fix s assume "vc_scriptRef contract = Some s" "vc_llmJudgePromptRef contract = None"
    with v script_sound [of num deps env task contract] show ?thesis
      by (auto simp: verdict_of_def pickDispatchMode_def evidence_def)
  next
    fix r assume "vc_scriptRef contract = None" "vc_llmJudgePromptRef contract = Some r"
    with v judge_sound [of num parse deps env task contract] show ?thesis
      by (auto simp: verdict_of_def pickDispatchMode_def evidence_def)
  qed (use v in \<open>auto simp: verdict_of_def pickDispatchMode_def evidence_def misconfig_verdict_def
         sound_verdict_def both_paths_set_def no_paths_set_def points_nonempty\<close>)
  then show ?thesis by (simp add: sound_verdict_def)
qed

definition sample_task :: verify_task where
  "sample_task = \<lparr>vt_apiVersion = ''v1'', vt_kind = ''AgentTask'', vt_uid = Some ''u'', vt_namespace = None, vt_name = Some ''t'',
     vt_targetAgent = None, vt_payload = JNull, vt_inputs = JNull,
     vt_contract = Some \<lparr>vc_scriptRef = Some ''s'', vc_llmJudgePromptRef = None\<rparr>, vt_phase = Some PhCompleted,
     vt_result = JNull, vt_outputs = JNull, vt_verification = None\<rparr>"

definition sample_deps :: verify_deps where
  "sample_deps = \<lparr>vd_fetchPrompt = False, vd_gatewayBaseUrl = None, vd_gatewayApiKey = None, vd_defaultModel = None,
     vd_scriptImage = None, vd_serviceAccountName = None, vd_audit = True, vd_jobPollIntervalMs = None,
     vd_jobPollIntervalCapMs = None\<rparr>"

definition sample_error :: call_error where
  "sample_error = \<lparr>ce_status = JUndefined, ce_statusCode = JUndefined, ce_code = JNum (Fin 409), ce_error = None,
     ce_wrongPromptType = False\<rparr>"

definition sample_env :: verify_env where
  "sample_env = \<lparr>ve_startedAt = 0, ve_dateNow = 1500, ve_endedAt = 1500, ve_agentName = None, ve_configMap = None,
     ve_job = Some sample_error, ve_clock = (\<lambda>n. int n * 1000),
     ve_reads = (\<lambda>n. if n = 0 then None else Some \<lparr>jo_succeeded = Some 1, jo_failed = None, jo_conditions = None\<rparr>),
     ve_fetch = (\<lambda>n. Inl sample_error), ve_gateway = (\<lambda>n. Inl sample_error)\<rparr>"

lemma sample_poll:
  "poll_job (ve_clock sample_env) (ve_reads sample_env) (script_deadline sample_env) 5000 0 500 [] = Some (ScriptPassed, [500])"
  by (subst poll_job.simps, simp add: sample_env_def script_deadline_def DEFAULT_VERIFIER_SCRIPT_TIMEOUT_SECONDS_def decided_def,
      subst poll_job.simps, simp add: decided_def)

lemma sample_dispatch:
  "\<exists>effects. dispatchVerification (\<lambda>q. string_of_int \<lfloor>q\<rfloor>) (\<lambda>s. None) sample_deps sample_env sample_task
       (the (vt_contract sample_task)) =
     Some (Some (passVerdict sample_env VScript), effects) \<and> VerdictPatch (passVerdict sample_env VScript) \<in> set effects"
  using sample_poll
  by (simp add: dispatchVerification_def verdict_of_def pickDispatchMode_def runScriptVerifier_def sample_task_def sample_deps_def
        patchVerificationStatus_def
        VERIFIER_JOB_POLL_INTERVAL_CAP_MS_def VERIFIER_JOB_POLL_INTERVAL_MS_def Let_def)
     (simp add: sample_env_def created_def isAlreadyExists_def sample_error_def)

theorem verdict_is_evidence_witness:
  "evidence (\<lambda>s. None) sample_deps sample_env (the (vt_contract sample_task))"
proof -
  obtain effects where "dispatchVerification (\<lambda>q. string_of_int \<lfloor>q\<rfloor>) (\<lambda>s. None) sample_deps sample_env sample_task
       (the (vt_contract sample_task)) = Some (Some (passVerdict sample_env VScript), effects)"
    using sample_dispatch by blast
  from verdict_is_evidence [OF this] show ?thesis by (simp add: passVerdict_def)
qed

text \<open>
C33. The polling of a verifier Job ends: if the clock moves on by at least what the loop waits for,
  it reaches its deadline after at most sixteen waits with the default intervals, whatever the reads
  answer; a script verification then always yields a verdict.
\<close>

theorem polling_ends:
  assumes "clock_runs (ve_clock env) VERIFIER_JOB_POLL_INTERVAL_CAP_MS 0 VERIFIER_JOB_POLL_INTERVAL_MS"
    and "ve_startedAt env \<le> ve_clock env 0"
    and "vd_jobPollIntervalMs deps = None" "vd_jobPollIntervalCapMs deps = None"
  shows "\<exists>v calls. runScriptVerifier num deps env task contract = Some (v, calls) \<and>
    (\<forall>ws. JobWaited ws \<in> set calls \<longrightarrow> length ws \<le> 16)"
proof -
  have "polls_at_most 16 (ve_clock env) (ve_reads env) (script_deadline env) 5000 0 500 []"
    using assms(1,2)
    by (intro default_polling)
       (simp_all add: VERIFIER_JOB_POLL_INTERVAL_CAP_MS_def VERIFIER_JOB_POLL_INTERVAL_MS_def script_deadline_def
          DEFAULT_VERIFIER_SCRIPT_TIMEOUT_SECONDS_def)
  then show ?thesis
    using assms(3,4)
    by (cases "vc_scriptRef contract")
       (auto simp: polls_at_most_def runScriptVerifier_def VERIFIER_JOB_POLL_INTERVAL_CAP_MS_def
          VERIFIER_JOB_POLL_INTERVAL_MS_def Let_def)
qed

definition pending_env :: verify_env where
  "pending_env = sample_env\<lparr>ve_clock := (\<lambda>n. int n * 5000), ve_reads := (\<lambda>n. None)\<rparr>"

lemma wait_at_capped: "interval \<le> pollCap \<Longrightarrow> wait_at interval pollCap k \<le> pollCap"
  by (induction k arbitrary: interval) simp_all

theorem polling_ends_witness:
  "\<exists>v calls. runScriptVerifier (\<lambda>q. string_of_int \<lfloor>q\<rfloor>) sample_deps pending_env sample_task (the (vt_contract sample_task)) =
     Some (v, calls) \<and> (\<forall>ws. JobWaited ws \<in> set calls \<longrightarrow> length ws \<le> 16)"
proof (rule polling_ends)
  show "clock_runs (ve_clock pending_env) VERIFIER_JOB_POLL_INTERVAL_CAP_MS 0 VERIFIER_JOB_POLL_INTERVAL_MS"
    by (simp add: clock_runs_def pending_env_def VERIFIER_JOB_POLL_INTERVAL_CAP_MS_def VERIFIER_JOB_POLL_INTERVAL_MS_def
          wait_at_capped)
qed (simp_all add: pending_env_def sample_env_def sample_deps_def)

text \<open>
  A gateway that answers with the JSON value null makes the judge path throw: the dispatch ends
  without a verdict, and the task stays open for the next event.
\<close>

lemma null_body_throws:
  "judge_response parse \<lparr>gr_status = 200, gr_body = Some JNull\<rparr> = JudgeThrows"
  by (simp add: judge_response_def)

text \<open>The Jobs and names of the verifier.\<close>

lemma verifier_job_recognised:
  "isVerifierJob (buildVerifierJob deps task jobName cmName jobImage timeoutSeconds scriptName)"
  by (simp add: isVerifierJob_def buildVerifierJob_def verifier_metadata_def verifier_labels_def field_def obj_get_def
        VERIFIER_JOB_LABEL_def)

lemma verifier_name_length: "length (makeVerifierName n) \<le> 207"
  by (simp add: makeVerifierName_def VERIFIER_JOB_NAME_SUFFIX_def)

end
