(* ===== verification/VerifierRuns.thy ===== *)
theory VerifierRuns
  imports Verifier
begin

text \<open>
  The verifier over the events of one task (\<open>onAgentTaskUpdate\<close> of
  \<^verbatim>\<open>packages/operator/src/verifier.ts\<close>): the gate on the snapshot of the informer, the mutex by uid,
  the second look at the server and the merge patch of the verdict, as a step relation in which
  other writers and failing calls interleave.
\<close>

section \<open>One event\<close>

datatype update_result = UpdateSkipped string | UpdateVerified verifier_verdict

definition reReadTask :: "verify_task \<Rightarrow> verify_task option \<Rightarrow> verify_task" where
  "reReadTask task answer = (if js_or (vt_name task) [] = [] then task else js_or answer task)"

text \<open>The event that holds the mutex; the answer of the read is \<^term>\<open>None\<close> where it fails.\<close>

definition onAgentTaskUpdate ::
  "(rat \<Rightarrow> string) \<Rightarrow> (string \<Rightarrow> json option) \<Rightarrow> verify_deps \<Rightarrow> verify_env \<Rightarrow> verify_task \<Rightarrow> verify_task option \<Rightarrow>
   (update_result \<times> verify_effect list) option" where
  "onAgentTaskUpdate num parse deps env task answer =
     (if \<not> shouldRunVerifier task then Some (UpdateSkipped ''gate-false'', [])
      else if js_or (vt_uid task) [] = [] then Some (UpdateSkipped ''missing-uid'', [])
      else
        (let fresh = reReadTask task answer in
         if \<not> shouldRunVerifier fresh then Some (UpdateSkipped ''idempotent-hit'', [])
         else
           (case vt_contract fresh of
              None \<Rightarrow> Some (UpdateSkipped ''no-contract'', [])
            | Some contract \<Rightarrow>
                map_option (\<lambda>(verdict, effects).
                  (case verdict of None \<Rightarrow> UpdateSkipped ''dispatch-error'' | Some v \<Rightarrow> UpdateVerified v, effects))
                (dispatchVerification num parse deps env fresh contract))))"

section \<open>Interleaved events\<close>

datatype flight = Rereading verify_task | Verifying verify_task

record verifier_world =
  vw_task :: verify_task
  vw_flight :: "flight option"
  vw_written :: "verifier_verdict list"

text \<open>
  The steps of one operator and of the world around it. An event of a task whose mutex is held waits
  for the holder and does nothing itself. \<open>rereads_fail\<close> says whether the second look may fail.
\<close>

inductive verifier_step ::
  "(rat \<Rightarrow> string) \<Rightarrow> (string \<Rightarrow> json option) \<Rightarrow> verify_deps \<Rightarrow> bool \<Rightarrow> verifier_world \<Rightarrow> verifier_world \<Rightarrow> bool"
  for num parse deps rereads_fail where
  event: "vw_flight w = None \<Longrightarrow> shouldRunVerifier snapshot \<Longrightarrow> js_or (vt_uid snapshot) [] \<noteq> [] \<Longrightarrow>
     js_or (vt_name snapshot) [] \<noteq> [] \<Longrightarrow>
     verifier_step num parse deps rereads_fail w (w\<lparr>vw_flight := Some (Rereading snapshot)\<rparr>)"
| reread: "vw_flight w = Some (Rereading snapshot) \<Longrightarrow> answer = Some (vw_task w) \<or> rereads_fail \<and> answer = None \<Longrightarrow>
     fresh = reReadTask snapshot answer \<Longrightarrow>
     verifier_step num parse deps rereads_fail w
       (w\<lparr>vw_flight := (if shouldRunVerifier fresh then Some (Verifying fresh) else None)\<rparr>)"
| verdict: "vw_flight w = Some (Verifying fresh) \<Longrightarrow> vt_contract fresh = Some contract \<Longrightarrow>
     dispatchVerification num parse deps env fresh contract = Some (Some v, effects) \<Longrightarrow> VerdictPatch v \<in> set effects \<Longrightarrow>
     verifier_step num parse deps rereads_fail w
       (w\<lparr>vw_task := vw_task w\<lparr>vt_verification := Some v\<rparr>, vw_flight := None, vw_written := vw_written w @ [v]\<rparr>)"
| lost: "vw_flight w = Some (Verifying fresh) \<Longrightarrow>
     verifier_step num parse deps rereads_fail w (w\<lparr>vw_flight := None\<rparr>)"
| other_writer: "vt_verification task = vt_verification (vw_task w) \<Longrightarrow>
     verifier_step num parse deps rereads_fail w (w\<lparr>vw_task := task\<rparr>)"

inductive verifier_reach ::
  "(rat \<Rightarrow> string) \<Rightarrow> (string \<Rightarrow> json option) \<Rightarrow> verify_deps \<Rightarrow> bool \<Rightarrow> verify_task \<Rightarrow> verifier_world \<Rightarrow> bool"
  for num parse deps rereads_fail task where
  start: "verifier_reach num parse deps rereads_fail task \<lparr>vw_task = task, vw_flight = None, vw_written = []\<rparr>"
| step: "verifier_reach num parse deps rereads_fail task w \<Longrightarrow> verifier_step num parse deps rereads_fail w w' \<Longrightarrow>
     verifier_reach num parse deps rereads_fail task w'"

section \<open>One verdict\<close>

definition one_verdict :: "verifier_world \<Rightarrow> bool" where
  "one_verdict w \<longleftrightarrow>
     (case vw_written w of
        [] \<Rightarrow> vt_verification (vw_task w) = None
      | [v] \<Rightarrow> vt_verification (vw_task w) = Some v \<and> (\<forall>t. vw_flight w \<noteq> Some (Verifying t))
      | _ \<Rightarrow> False) \<and>
     (\<forall>t. vw_flight w = Some (Rereading t) \<longrightarrow> js_or (vt_name t) [] \<noteq> [])"

lemma one_verdict_step:
  assumes "verifier_step num parse deps False w w'" "one_verdict w"
  shows "one_verdict w'"
  using assms
proof (cases rule: verifier_step.cases)
  case (reread snapshot answer fresh)
  with assms(2) have "fresh = vw_task w" by (auto simp: one_verdict_def reReadTask_def)
  with reread assms(2) show ?thesis
    by (auto simp: one_verdict_def shouldRunVerifier_def split: list.splits option.splits)
next
  case (verdict fresh contract env v effects)
  with assms(2) show ?thesis by (auto simp: one_verdict_def split: list.splits)
qed (auto simp: one_verdict_def split: list.splits)

lemma one_verdict_reach:
  assumes "verifier_reach num parse deps False task w" "vt_verification task = None"
  shows "one_verdict w"
  using assms by induction (simp add: one_verdict_def, blast intro: one_verdict_step)

text \<open>
C11. As long as the second look at the server works, a task is verified at most once, however its
  events, other writers, lost patches and throwing dispatches interleave and however stale the
  snapshots of the informer are: at most one verdict is ever written, and what the status holds is
  that verdict.
\<close>

theorem verified_once:
  assumes "verifier_reach num parse deps False task w" "vt_verification task = None"
  shows "length (vw_written w) \<le> 1 \<and>
    vt_verification (vw_task w) = (if vw_written w = [] then None else Some (hd (vw_written w)))"
  using one_verdict_reach [OF assms] by (auto simp: one_verdict_def split: list.splits)

definition sample_num :: "rat \<Rightarrow> string" where
  "sample_num q = string_of_int \<lfloor>q\<rfloor>"

definition start_world :: verifier_world where
  "start_world = \<lparr>vw_task = sample_task, vw_flight = None, vw_written = []\<rparr>"

lemma sample_gate: "shouldRunVerifier sample_task" "js_or (vt_uid sample_task) [] \<noteq> []" "js_or (vt_name sample_task) [] \<noteq> []"
  "vt_contract sample_task = Some (the (vt_contract sample_task))"
  by (simp_all add: sample_task_def shouldRunVerifier_def)

text \<open>A world in which the sample task is verified, after its snapshot or anew.\<close>

lemma verified_again:
  assumes "verifier_reach sample_num (\<lambda>s. None) sample_deps fails sample_task w" "vw_flight w = None"
    and "answer = Some (vw_task w) \<and> vw_task w = sample_task \<or> fails \<and> answer = None"
    and "dispatchVerification sample_num (\<lambda>s. None) sample_deps env sample_task (the (vt_contract sample_task)) =
      Some (Some v, effects)" "VerdictPatch v \<in> set effects"
  shows "verifier_reach sample_num (\<lambda>s. None) sample_deps fails sample_task
    (w\<lparr>vw_task := vw_task w\<lparr>vt_verification := Some v\<rparr>, vw_written := vw_written w @ [v]\<rparr>)"
proof -
  let ?reach = "verifier_reach sample_num (\<lambda>s. None) sample_deps fails sample_task"
  let ?w1 = "w\<lparr>vw_flight := Some (Rereading sample_task)\<rparr>"
  let ?w2 = "?w1\<lparr>vw_flight := Some (Verifying sample_task)\<rparr>"
  have "?reach ?w1"
    using assms(1) verifier_step.event [OF assms(2) sample_gate(1-3)] by (rule verifier_reach.step)
  moreover have "reReadTask sample_task answer = sample_task" using assms(3) by (auto simp: reReadTask_def)
  then have "verifier_step sample_num (\<lambda>s. None) sample_deps fails ?w1 ?w2"
    using verifier_step.reread [of ?w1 sample_task answer fails sample_task] assms(3) sample_gate(1) by auto
  ultimately have "?reach ?w2" by (rule verifier_reach.step)
  from verifier_reach.step [OF this verifier_step.verdict [OF _ sample_gate(4) assms(4,5)]] assms(2)
  show ?thesis by (cases w) simp
qed

lemma first_verdict:
  "verifier_reach sample_num (\<lambda>s. None) sample_deps fails sample_task
     \<lparr>vw_task = sample_task\<lparr>vt_verification := Some (passVerdict sample_env VScript)\<rparr>, vw_flight = None,
      vw_written = [passVerdict sample_env VScript]\<rparr>"
proof -
  obtain effects where e: "dispatchVerification sample_num (\<lambda>s. None) sample_deps sample_env sample_task
      (the (vt_contract sample_task)) = Some (Some (passVerdict sample_env VScript), effects)"
    "VerdictPatch (passVerdict sample_env VScript) \<in> set effects"
    using sample_dispatch unfolding sample_num_def by blast
  have "verifier_reach sample_num (\<lambda>s. None) sample_deps fails sample_task start_world"
    unfolding start_world_def by (rule verifier_reach.start)
  from verified_again [OF this _ _ e, of "Some sample_task"] show ?thesis by (simp add: start_world_def)
qed

theorem verified_once_witness:
  "\<exists>w. verifier_reach sample_num (\<lambda>s. None) sample_deps False sample_task w \<and>
     vw_written w = [passVerdict sample_env VScript] \<and> vt_verification (vw_task w) = Some (passVerdict sample_env VScript)"
  using first_verdict [of False] verified_once [OF first_verdict [of False]] by (auto simp: sample_task_def)

text \<open>
  A failing second look falls back to the snapshot of the informer: a stale one is verified again and
  its verdict replaces the first.
\<close>

definition broken_env :: verify_env where
  "broken_env = sample_env\<lparr>ve_configMap := Some (sample_error\<lparr>ce_code := JNull\<rparr>)\<rparr>"

lemma stale_snapshot_verified_twice:
  "\<exists>w. verifier_reach sample_num (\<lambda>s. None) sample_deps True sample_task w \<and>
     map vf_passed (vw_written w) = [True, False] \<and> map_option vf_passed (vt_verification (vw_task w)) = Some False"
proof -
  let ?v = "failVerdict broken_env VScript (points ''script_dispatch_error:configmap_create'')"
  obtain effects where e: "dispatchVerification sample_num (\<lambda>s. None) sample_deps broken_env sample_task
      (the (vt_contract sample_task)) = Some (Some ?v, effects)" "VerdictPatch ?v \<in> set effects"
    by (simp add: dispatchVerification_def verdict_of_def pickDispatchMode_def runScriptVerifier_def Let_def
          broken_env_def sample_env_def sample_task_def sample_error_def sample_deps_def created_def isAlreadyExists_def
          patchVerificationStatus_def)
  note verified_again [OF first_verdict [of True] _ _ e, of None, simplified]
  then show ?thesis by (intro exI conjI) (assumption, simp_all add: passVerdict_def failVerdict_def)
qed

end
