(* ===== verification/OpenAiWire.thy ===== *)
theory OpenAiWire
  imports StreamAssembler ToolDispatch
begin

text \<open>
  The translation between the agent loop and the OpenAI wire format, of
  \<^verbatim>\<open>packages/openai-compat/src\<close>: tool calls (\<^verbatim>\<open>tool-mapper.ts\<close>), messages and request bodies
  (\<^verbatim>\<open>request-builder.ts\<close>) and responses (\<^verbatim>\<open>response-mapper.ts\<close>). Wire values are JSON values, so
  that a backend may answer anything; a field access that throws is the left part of a result. What
  \<open>JSON.parse\<close> makes of a text is a parameter.
\<close>

section \<open>Calls to the wire\<close>

text \<open>\<open>v.k\<close> of a value that is neither null nor undefined; a text has no such fields.\<close>

definition member :: "json \<Rightarrow> string \<Rightarrow> json" where
  "member v k = (case v of JObj kvs \<Rightarrow> obj_get kvs k | _ \<Rightarrow> JUndefined)"

definition toOpenAITools :: "json list option \<Rightarrow> json list option" where
  "toOpenAITools tools =
     (if or_empty tools = [] then None
      else Some (map (\<lambda>t. JObj
        [(''type'', JStr ''function''),
         (''function'', JObj [(''name'', member t ''name''), (''description'', member t ''description''),
                              (''parameters'', member t ''inputSchema'')])]) (or_empty tools)))"

definition wire_call :: "(rat \<Rightarrow> string) \<Rightarrow> tool_call \<Rightarrow> json" where
  "wire_call num c =
     JObj [(''id'', JStr (tc_id c)), (''type'', JStr ''function''),
           (''function'', JObj [(''name'', JStr (tc_name c)), (''arguments'', JStr (args_text num (tc_args c)))])]"

definition toOpenAIToolCalls :: "(rat \<Rightarrow> string) \<Rightarrow> tool_call list option \<Rightarrow> json list option" where
  "toOpenAIToolCalls num calls = (if or_empty calls = [] then None else Some (map (wire_call num) (or_empty calls)))"

section \<open>Names that leak markup\<close>

text \<open>
  The scan for the bracket that closes the first one: depth, whether it stands in a string, whether
  the next character is escaped. The result is the number of characters up to it.
\<close>

fun closing_at :: "char \<Rightarrow> char \<Rightarrow> nat \<Rightarrow> bool \<Rightarrow> bool \<Rightarrow> string \<Rightarrow> nat option" where
  "closing_at opener closer depth inString escaping [] = None"
| "closing_at opener closer depth inString escaping (c # cs) =
     (if inString then
        map_option Suc
          (if escaping then closing_at opener closer depth True False cs
           else if c = CHR 0x5C then closing_at opener closer depth True True cs
           else closing_at opener closer depth (c \<noteq> CHR 0x22) False cs)
      else if c = CHR 0x22 then map_option Suc (closing_at opener closer depth True escaping cs)
      else if c = opener then map_option Suc (closing_at opener closer (Suc depth) False escaping cs)
      else if c = closer then
        (if depth = 1 then Some 1 else map_option Suc (closing_at opener closer (depth - 1) False escaping cs))
      else map_option Suc (closing_at opener closer depth False escaping cs))"

definition parseInlineJsonSuffix :: "(string \<Rightarrow> json option) \<Rightarrow> string \<Rightarrow> json option" where
  "parseInlineJsonSuffix parse suffix =
     (let trimmed = js_trim suffix in
      case trimmed of
        [] \<Rightarrow> None
      | opener # _ \<Rightarrow>
          (if opener \<noteq> CHR ''{'' \<and> opener \<noteq> CHR ''['' then None
           else
             (case closing_at opener (if opener = CHR ''{'' then CHR ''}'' else CHR '']'') 0 False False trimmed of
                None \<Rightarrow> None
              | Some n \<Rightarrow> parse (take n trimmed))))"

definition isEmptyPlainObject :: "json \<Rightarrow> bool" where
  "isEmptyPlainObject v \<longleftrightarrow> v = JObj []"

definition name_tags :: "string list" where
  "name_tags = [''</tool_call'', ''<parameter='', [CHR 0x0A], [CHR 0x0D], ''('', ''{'', ''['']"

definition tag_index :: "string \<Rightarrow> nat option" where
  "tag_index name =
     (let found = concat (map (\<lambda>t. case js_index_of name t of None \<Rightarrow> [] | Some i \<Rightarrow> [i]) name_tags) in
      if found = [] then None else Some (Min (set found)))"

text \<open>\<open>s.replace(/=\s*$/, '')\<close>: the first equals sign from which only white space follows.\<close>

fun strip_equals :: "string \<Rightarrow> string" where
  "strip_equals [] = []"
| "strip_equals (c # cs) = (if c = CHR ''='' \<and> list_all js_space cs then [] else c # strip_equals cs)"

definition sanitizeToolCallName :: "(string \<Rightarrow> json option) \<Rightarrow> string \<Rightarrow> string \<times> json option" where
  "sanitizeToolCallName parse name =
     (case tag_index name of
        None \<Rightarrow> (js_trim (strip_equals name), None)
      | Some i \<Rightarrow> (js_trim (strip_equals (take i name)), parseInlineJsonSuffix parse (drop i name)))"

section \<open>Calls from the wire\<close>

text \<open>\<open>String(v)\<close>, which \<open>JSON.parse\<close> applies to what it is given.\<close>

fun js_String :: "(rat \<Rightarrow> string) \<Rightarrow> json \<Rightarrow> string" where
  "js_String num JUndefined = ''undefined''"
| "js_String num JNull = ''null''"
| "js_String num (JBool b) = (if b then ''true'' else ''false'')"
| "js_String num (JNum n) = (case n of Fin q \<Rightarrow> num q | NonFinite \<Rightarrow> ''NaN'')"
| "js_String num (JStr s) = s"
| "js_String num (JArr vs) = js_join '','' (map (\<lambda>v. if v = JUndefined \<or> v = JNull then [] else js_String num v) vs)"
| "js_String num (JObj kvs) = ''[object Object]''"

definition nullish :: "json \<Rightarrow> bool" where
  "nullish v \<longleftrightarrow> v = JUndefined \<or> v = JNull"

text \<open>An id that is no text is as good as none for the loop, which then makes one up.\<close>

definition kernel_call :: "(rat \<Rightarrow> string) \<Rightarrow> (string \<Rightarrow> json option) \<Rightarrow> json \<Rightarrow> js_throw + tool_call" where
  "kernel_call num parse tc =
     (if nullish tc \<or> nullish (member tc ''function'') then Inl TypeError
      else
        (let f = member tc ''function'';
             arguments = member f ''arguments'';
             args = js_or (parse (js_String num arguments)) (JObj [(MALFORMED_TOOL_ARGS, arguments)]) in
         case member f ''name'' of
           JStr name \<Rightarrow>
             (let (clean, inlineArgs) = sanitizeToolCallName parse name in
              Inr \<lparr>tc_id = text_of (member tc ''id''), tc_name = clean,
                   tc_args = (if isEmptyPlainObject args then js_or inlineArgs args else args)\<rparr>)
         | _ \<Rightarrow> Inl TypeError))"

fun kernel_calls :: "(rat \<Rightarrow> string) \<Rightarrow> (string \<Rightarrow> json option) \<Rightarrow> json list \<Rightarrow> js_throw + tool_call list" where
  "kernel_calls num parse [] = Inr []"
| "kernel_calls num parse (tc # tcs) =
     (case kernel_call num parse tc of
        Inl e \<Rightarrow> Inl e
      | Inr c \<Rightarrow> (case kernel_calls num parse tcs of Inl e \<Rightarrow> Inl e | Inr cs \<Rightarrow> Inr (c # cs)))"

definition fromOpenAIToolCalls ::
  "(rat \<Rightarrow> string) \<Rightarrow> (string \<Rightarrow> json option) \<Rightarrow> json \<Rightarrow> js_throw + tool_call list option" where
  "fromOpenAIToolCalls num parse raw =
     (if \<not> truthy raw \<or> raw = JArr [] then Inr None
      else (case raw of
              JArr tcs \<Rightarrow> (case kernel_calls num parse tcs of Inl e \<Rightarrow> Inl e | Inr cs \<Rightarrow> Inr (Some cs))
            | _ \<Rightarrow> Inl TypeError))"

section \<open>Messages and bodies\<close>

definition role_text :: "role \<Rightarrow> string" where
  "role_text r = (case r of RSystem \<Rightarrow> ''system'' | RUser \<Rightarrow> ''user'' | RAssistant \<Rightarrow> ''assistant'' | RTool \<Rightarrow> ''tool'')"

definition optional :: "string \<Rightarrow> json option \<Rightarrow> (string \<times> json) list" where
  "optional k v = (case v of None \<Rightarrow> [] | Some j \<Rightarrow> [(k, j)])"

definition toOpenAIWireMessage :: "(rat \<Rightarrow> string) \<Rightarrow> chat_message \<Rightarrow> json" where
  "toOpenAIWireMessage num m =
     JObj ([(''role'', JStr (role_text (cm_role m))), (''content'', JStr (cm_content m))] @
       (if cm_role m = RAssistant then optional ''tool_calls'' (map_option JArr (toOpenAIToolCalls num (cm_toolCalls m))) else []) @
       (if cm_role m = RTool then
          optional ''tool_call_id'' (map_option JStr (cm_toolCallId m)) @ optional ''name'' (map_option JStr (cm_name m))
        else []))"

record chat_request =
  rq_messages :: "chat_message list"
  rq_model :: "string option"
  rq_tools :: "json list option"
  rq_toolChoice :: "string option"
  rq_temperature :: "rat option"
  rq_maxTokens :: "rat option"
  rq_stopSequences :: "string list option"
  rq_systemPrompt :: "string option"
  rq_extraBody :: "(string \<times> json) list option"

definition system_message :: "string \<Rightarrow> chat_message" where
  "system_message s = \<lparr>cm_role = RSystem, cm_content = s, cm_toolCalls = None, cm_toolCallId = None, cm_name = None\<rparr>"

definition kernel_messages :: "chat_request \<Rightarrow> chat_message list" where
  "kernel_messages rq =
     (case rq_systemPrompt rq of
        None \<Rightarrow> rq_messages rq
      | Some s \<Rightarrow> (if s \<noteq> [] then system_message s # rq_messages rq else rq_messages rq))"

text \<open>\<open>Object.assign(body, extra)\<close>: a field that is there is overwritten in place.\<close>

definition assign_fields :: "(string \<times> json) list \<Rightarrow> (string \<times> json) list \<Rightarrow> (string \<times> json) list" where
  "assign_fields body extra = foldl (\<lambda>b (k, v). AList.update k v b) body extra"

definition buildOpenAIRequestBody :: "(rat \<Rightarrow> string) \<Rightarrow> chat_request \<Rightarrow> string \<Rightarrow> bool \<Rightarrow> (string \<times> json) list" where
  "buildOpenAIRequestBody num rq defaultModel stream =
     (let tools = toOpenAITools (rq_tools rq) in
      assign_fields
       ([(''model'', JStr (js_or (rq_model rq) defaultModel)),
         (''messages'', JArr (map (toOpenAIWireMessage num) (kernel_messages rq))),
         (''stream'', JBool stream)] @
        optional ''tools'' (map_option JArr tools) @
        (if tools \<noteq> None then optional ''tool_choice'' (map_option JStr (rq_toolChoice rq)) else []) @
        optional ''temperature'' (map_option (\<lambda>q. JNum (Fin q)) (rq_temperature rq)) @
        optional ''max_tokens'' (map_option (\<lambda>q. JNum (Fin q)) (rq_maxTokens rq)) @
        (if or_empty (rq_stopSequences rq) \<noteq> [] then [(''stop'', JArr (map JStr (or_empty (rq_stopSequences rq))))] else []) @
        (if stream then [(''stream_options'', JObj [(''include_usage'', JBool True)])] else []))
       (or_empty (rq_extraBody rq)))"

definition buildOpenAIHeaders :: "string option \<Rightarrow> (string \<times> string) list \<Rightarrow> bool \<Rightarrow> (string \<times> string) list" where
  "buildOpenAIHeaders apiKey defaultHeaders stream =
     foldl (\<lambda>h (k, v). AList.update k v h)
       ([(''Content-Type'', ''application/json''),
         (''Accept'', if stream then ''text/event-stream'' else ''application/json'')] @
        (case non_empty apiKey of None \<Rightarrow> [] | Some k \<Rightarrow> [(''Authorization'', ''Bearer '' @ k)]))
       defaultHeaders"

section \<open>Responses\<close>

definition extractBlockText :: "json \<Rightarrow> string" where
  "extractBlockText block =
     (if \<not> truthy block then []
      else if member block ''type'' \<noteq> JStr ''text'' then []
      else text_of (member block ''text''))"

definition normalizeContent :: "json \<Rightarrow> string" where
  "normalizeContent content =
     (case content of
        JStr s \<Rightarrow> s
      | JArr blocks \<Rightarrow> concat (map extractBlockText blocks)
      | JObj kvs \<Rightarrow> extractBlockText content
      | _ \<Rightarrow> [])"

text \<open>\<open>typeof v === 'number'\<close>, of a finite number.\<close>

definition number_of :: "json \<Rightarrow> rat option" where
  "number_of v = (case v of JNum (Fin q) \<Rightarrow> Some q | _ \<Rightarrow> None)"

definition mapUsage :: "json \<Rightarrow> chat_usage option" where
  "mapUsage raw =
     (if \<not> truthy raw then None
      else
        (let u = \<lparr>cu_inputTokens = number_of (member raw ''prompt_tokens''),
                  cu_outputTokens = number_of (member raw ''completion_tokens''),
                  cu_costUsd = number_of (member raw ''cost_usd'')\<rparr>
         in if cu_inputTokens u = None \<and> cu_outputTokens u = None \<and> cu_costUsd u = None then None else Some u))"

record mapped_result = chat_result +
  mr_stopReason :: "stop_reason option"

datatype map_error = MapProtocol string | MapThrows js_throw

definition map_choice ::
  "(rat \<Rightarrow> string) \<Rightarrow> (string \<Rightarrow> json option) \<Rightarrow> json \<Rightarrow> json \<Rightarrow> map_error + mapped_result" where
  "map_choice num parse choice raw_usage =
     (let message = member choice ''message'' in
      case fromOpenAIToolCalls num parse (member message ''tool_calls'') of
        Inl e \<Rightarrow> Inl (MapThrows e)
      | Inr toolCalls \<Rightarrow>
          (let content = normalizeContent (member message ''content'');
               reasoning = text_of (member message ''reasoning'');
               u = mapUsage raw_usage
           in Inr \<lparr>cr_content = (if content = [] \<and> toolCalls = None \<and> reasoning \<noteq> [] then reasoning else content),
                   cr_toolCalls = toolCalls,
                   cr_inputTokens = Option.bind u cu_inputTokens,
                   cr_outputTokens = Option.bind u cu_outputTokens,
                   cr_costUsd = Option.bind u cu_costUsd,
                   mr_stopReason = mapFinishReason (case member choice ''finish_reason'' of JStr r \<Rightarrow> Some r | _ \<Rightarrow> None)\<rparr>))"

definition mapOpenAIResponseToChatResult ::
  "(rat \<Rightarrow> string) \<Rightarrow> (string \<Rightarrow> json option) \<Rightarrow> json \<Rightarrow> map_error + mapped_result" where
  "mapOpenAIResponseToChatResult num parse raw =
     (case raw of
        JObj kvs \<Rightarrow>
          (case obj_get kvs ''choices'' of
             JArr (choice # _) \<Rightarrow>
               (if \<not> truthy choice \<or> \<not> truthy (member choice ''message'') then
                  Inl (MapProtocol ''response choice is missing message'')
                else map_choice num parse choice (obj_get kvs ''usage''))
           | _ \<Rightarrow> Inl (MapProtocol ''response is missing choices array''))
      | JArr vs \<Rightarrow> Inl (MapProtocol ''response is missing choices array'')
      | _ \<Rightarrow> Inl (MapProtocol ''response is not an object''))"

text \<open>What \<open>assembleChatCompletion\<close> returns, as the object it is.\<close>

definition usage_json :: "usage \<Rightarrow> json" where
  "usage_json u =
     (let n = (\<lambda>k v. optional k (map_option (\<lambda>q. JNum (Fin q)) v)) in
      JObj (n ''prompt_tokens'' (ug_promptTokens u) @ n ''completion_tokens'' (ug_completionTokens u) @
            n ''total_tokens'' (ug_totalTokens u) @ n ''cost_usd'' (ug_costUsd u)))"

definition wire_json :: "tool_call_wire \<Rightarrow> json" where
  "wire_json c =
     JObj [(''id'', JStr (tw_id c)), (''type'', JStr ''function''),
           (''function'', JObj [(''name'', JStr (tw_name c)), (''arguments'', JStr (tw_arguments c))])]"

definition completion_message :: "completion \<Rightarrow> json" where
  "completion_message c =
     JObj ([(''role'', JStr ''assistant''), (''content'', JStr (cp_content c))] @
       optional ''reasoning'' (map_option JStr (cp_reasoning c)) @
       optional ''tool_calls'' (map_option (\<lambda>cs. JArr (map wire_json cs)) (cp_toolCalls c)))"

definition completion_json :: "completion \<Rightarrow> json" where
  "completion_json c =
     JObj (optional ''id'' (map_option JStr (cp_id c)) @ optional ''model'' (map_option JStr (cp_model c)) @
       [(''object'', JStr ''chat.completion''),
        (''choices'', JArr [JObj
          [(''index'', JNum (Fin 0)),
           (''message'', completion_message c),
           (''finish_reason'', JStr (cp_finishReason c))]])] @
       optional ''usage'' (map_option usage_json (cp_usage c)))"

section \<open>Names\<close>

lemma tag_index_None: "tag_index name = None \<longleftrightarrow> (\<forall>t\<in>set name_tags. js_index_of name t = None)"
  by (auto simp: tag_index_def Let_def split: option.splits)

text \<open>A name without markup, as every tool of this system has one.\<close>

definition plain_name :: "string \<Rightarrow> bool" where
  "plain_name n \<longleftrightarrow> tag_index n = None \<and> js_trim (strip_equals n) = n"

lemma plain_name_kept: "plain_name n \<Longrightarrow> sanitizeToolCallName parse n = (n, None)"
  by (simp add: plain_name_def sanitizeToolCallName_def)

section \<open>The echo of a call\<close>

lemma member_obj [simp]: "member (JObj kvs) k = obj_get kvs k"
  by (simp add: member_def)

lemma obj_get_fields [simp]: "obj_get ((k, v) # kvs) k' = (if k = k' then v else obj_get kvs k')" "obj_get [] k' = JUndefined"
  by (simp_all add: obj_get_def)

text \<open>Arguments that reading gives back: the loop takes no arguments for an empty object.\<close>

definition echo_args :: "json \<Rightarrow> json" where
  "echo_args v = (if nullish v then JObj [] else v)"

lemma kernel_call_echo:
  assumes "parse (args_text num (tc_args c)) = Some (echo_args (tc_args c))" "plain_name (tc_name c)"
  shows "kernel_call num parse (wire_call num c) = Inr (c\<lparr>tc_args := echo_args (tc_args c)\<rparr>)"
  using assms by (cases c) (simp add: kernel_call_def wire_call_def nullish_def plain_name_kept text_of_def Let_def)

lemma kernel_calls_echo:
  assumes "\<forall>c\<in>set cs. parse (args_text num (tc_args c)) = Some (echo_args (tc_args c)) \<and> plain_name (tc_name c)"
  shows "kernel_calls num parse (map (wire_call num) cs) = Inr (map (\<lambda>c. c\<lparr>tc_args := echo_args (tc_args c)\<rparr>) cs)"
  using assms by (induction cs) (simp_all add: kernel_call_echo)

end
