(* ===== verification/OpenAiClient.thy ===== *)
theory OpenAiClient
  imports OpenAiWire AgentLoop
begin

text \<open>
  One call of the client, \<open>chat\<close> of \<^verbatim>\<open>packages/openai-compat/src/client.ts\<close>: from the answer of
  \<open>fetch\<close> to the answer the agent loop gets. Errors of the engine carry texts the code does not choose;
  they are a parameter, \<open>engine\<close>. Every abort of the signal is one of the ways a call can end.
\<close>

section \<open>Errors\<close>

definition truncateForStorage :: "string \<Rightarrow> string" where
  "truncateForStorage s =
     (if length s \<le> 700 then s
      else take 500 s @ [LF] @ ''...[truncated '' @ string_of_nat (length s - 700) @ '' chars]...'' @ [LF] @
           drop (length s - 200) s)"

definition parseRetryAfterSeconds :: "string option \<Rightarrow> rat option" where
  "parseRetryAfterSeconds header =
     (case header of
        None \<Rightarrow> None
      | Some raw \<Rightarrow>
          (let trimmed = js_trim raw in
           if trimmed = [] \<or> \<not> list_all decimal_digit trimmed then None
           else (case js_Number trimmed of NonFinite \<Rightarrow> None | Fin q \<Rightarrow> (if q < 0 then None else Some q))))"

definition http_error :: "(rat \<Rightarrow> string) \<Rightarrow> rat \<Rightarrow> string \<Rightarrow> rat option \<Rightarrow> chat_error" where
  "http_error num status body retryAfterSec =
     ChatHttp status (Some body)
       (if status = 0 \<and> body \<noteq> [] then ''LLM backend returned HTTP 0: '' @ body
        else ''LLM backend returned HTTP '' @ num status)
       retryAfterSec"

definition protocol_error :: "string \<Rightarrow> chat_error" where
  "protocol_error m = ChatOther (''LLM protocol error: '' @ m)"

section \<open>One call\<close>

record http_response =
  hr_status :: nat
  hr_text :: "string option"
  hr_retryAfter :: "string option"
  hr_contentType :: "string option"
  hr_reads :: "sse_read list option"
  hr_json :: "json option"

datatype fetch_answer = FetchAborts | FetchFails string | FetchAnswers http_response

record client_env =
  cl_num :: "rat \<Rightarrow> string"
  cl_parse :: "string \<Rightarrow> json option"
  cl_chunk :: "string \<Rightarrow> stream_chunk option"
  cl_engine :: string

definition assembly_failure :: "client_env \<Rightarrow> assembly_error \<Rightarrow> chat_error" where
  "assembly_failure ce e =
     (case e of
        HttpError status message requestId retryAfterSec \<Rightarrow> http_error (cl_num ce) status message retryAfterSec
      | ProtocolError m \<Rightarrow> protocol_error m)"

text \<open>The assembler reads until an error chunk or the end of the body, whichever comes first.\<close>

definition assembled :: "client_env \<Rightarrow> sse_read list \<Rightarrow> chat_error + completion" where
  "assembled ce reads =
     (let (chunks, ended) = sseData (cl_chunk ce) [] reads in
      if list_ex (\<lambda>c. ck_error c \<noteq> None) chunks \<or> ended = SseDone then
        (case assembleChatCompletion chunks of
           Inl e \<Rightarrow> Inl (assembly_failure ce e)
         | Inr c \<Rightarrow> Inr c)
      else
        (case ended of
           SseAborted \<Rightarrow> Inl abort_error
         | SseBadJson payload \<Rightarrow> Inl (protocol_error (''SSE event is not valid JSON: '' @ cl_engine ce))
         | _ \<Rightarrow> Inl (http_error (cl_num ce) 0 (cl_engine ce) None)))"

definition mapped :: "client_env \<Rightarrow> (js_throw \<Rightarrow> chat_error) \<Rightarrow> json \<Rightarrow> chat_answer" where
  "mapped ce thrown raw =
     (case mapOpenAIResponseToChatResult (cl_num ce) (cl_parse ce) raw of
        Inl (MapProtocol m) \<Rightarrow> ChatThrows (protocol_error m)
      | Inl (MapThrows e) \<Rightarrow> ChatThrows (thrown e)
      | Inr r \<Rightarrow> ChatReturns (chat_result.truncate r))"

text \<open>A backend that ignored \<open>stream\<close> answers with one JSON body.\<close>

definition one_body :: "client_env \<Rightarrow> json option \<Rightarrow> chat_answer" where
  "one_body ce body =
     (case body of
        None \<Rightarrow> ChatThrows (protocol_error (''response body is not valid JSON: '' @ cl_engine ce))
      | Some raw \<Rightarrow> mapped ce (\<lambda>e. ChatOther (cl_engine ce)) raw)"

definition whole_stream :: "client_env \<Rightarrow> sse_read list \<Rightarrow> chat_answer" where
  "whole_stream ce reads =
     (case assembled ce reads of
        Inl e \<Rightarrow> ChatThrows e
      | Inr c \<Rightarrow> mapped ce (\<lambda>e. http_error (cl_num ce) 0 (cl_engine ce) None) (completion_json c))"

definition client_chat :: "client_env \<Rightarrow> bool \<Rightarrow> fetch_answer \<Rightarrow> chat_answer" where
  "client_chat ce preAborted answer =
     (if preAborted then ChatThrows abort_error
      else
        (case answer of
           FetchAborts \<Rightarrow> ChatThrows abort_error
         | FetchFails described \<Rightarrow> ChatThrows (http_error (cl_num ce) 0 described None)
         | FetchAnswers r \<Rightarrow>
             (if \<not> (200 \<le> hr_status r \<and> hr_status r < 300) then
                ChatThrows (http_error (cl_num ce) (of_nat (hr_status r))
                  (truncateForStorage (js_or (hr_text r) ''(body unreadable)'')) (parseRetryAfterSeconds (hr_retryAfter r)))
              else
                (case (js_includes (js_or (hr_contentType r) []) ''text/event-stream'', hr_reads r) of
                   (True, Some reads) \<Rightarrow> whole_stream ce reads
                 | _ \<Rightarrow> one_body ce (hr_json r)))))"

text \<open>\<open>describeFetchError\<close>: what was thrown is no \<open>Error\<close>, or an error with the message of its cause.\<close>

datatype thrown = NoError string | ErrorValue string "string option"

definition describeFetchError :: "thrown \<Rightarrow> string" where
  "describeFetchError err =
     (case err of
        NoError printed \<Rightarrow> printed
      | ErrorValue message cause \<Rightarrow> (case cause of None \<Rightarrow> message | Some c \<Rightarrow> message @ '': '' @ c))"

record client =
  oc_baseUrl :: string
  oc_model :: string
  oc_apiKey :: "string option"
  oc_defaultHeaders :: "(string \<times> string) list"

text \<open>The constructor; the left part is the field it refuses.\<close>

definition new_client :: "string \<Rightarrow> string \<Rightarrow> string option \<Rightarrow> (string \<times> string) list option \<Rightarrow> string + client" where
  "new_client baseUrl model apiKey defaultHeaders =
     (if baseUrl = [] then Inl ''baseUrl''
      else if model = [] then Inl ''model''
      else Inr \<lparr>oc_baseUrl = rev (dropWhile (\<lambda>c. c = CHR ''/'') (rev baseUrl)), oc_model = model, oc_apiKey = apiKey,
                oc_defaultHeaders = or_empty defaultHeaders\<rparr>)"

text \<open>What a call posts: the address, the headers and the body.\<close>

definition posted :: "client_env \<Rightarrow> client \<Rightarrow> chat_request \<Rightarrow> string \<times> (string \<times> string) list \<times> string" where
  "posted ce c rq =
     (oc_baseUrl c @ ''/chat/completions'', buildOpenAIHeaders (oc_apiKey c) (oc_defaultHeaders c) True,
      json_text (cl_num ce) (JObj (buildOpenAIRequestBody (cl_num ce) rq (oc_model c) True)))"

text \<open>
  The streaming call: the deltas it yields and, where it throws, the error. The signal is aborted
  with its default reason, whose name the client recognises.
\<close>

definition client_stream :: "client_env \<Rightarrow> bool \<Rightarrow> fetch_answer \<Rightarrow> chat_delta list \<times> chat_error option" where
  "client_stream ce preAborted answer =
     (if preAborted then ([], Some abort_error)
      else
        (case answer of
           FetchAborts \<Rightarrow> ([], Some abort_error)
         | FetchFails described \<Rightarrow> ([], Some (http_error (cl_num ce) 0 described None))
         | FetchAnswers r \<Rightarrow>
             (if \<not> (200 \<le> hr_status r \<and> hr_status r < 300) then
                ([], Some (http_error (cl_num ce) (of_nat (hr_status r))
                  (truncateForStorage (js_or (hr_text r) ''(body unreadable)'')) (parseRetryAfterSeconds (hr_retryAfter r))))
              else
                (case hr_reads r of
                   None \<Rightarrow> ([], Some (protocol_error ''response body is null on streaming response''))
                 | Some reads \<Rightarrow>
                     (let (deltas, ended) = parseSSEStream (cl_chunk ce) parse_start reads in
                      (deltas,
                       case ended of
                         StreamDone \<Rightarrow> None
                       | StreamAborted \<Rightarrow> Some abort_error
                       | StreamBadJson payload \<Rightarrow> Some (protocol_error (cl_engine ce))
                       | StreamBroken \<Rightarrow> Some (ChatOther (cl_engine ce))))))))"

definition countTokens :: "string \<Rightarrow> int" where
  "countTokens s = \<lceil>of_nat (length s) / (4 :: rat)\<rceil>"

section \<open>A stream is all or nothing\<close>






lemma obj_get_optional: "obj_get (optional k v @ kvs) k' = (if k = k' \<and> v \<noteq> None then the v else obj_get kvs k')"
  "obj_get (optional k v) k' = (if k = k' \<and> v \<noteq> None then the v else JUndefined)"
  by (cases v; simp add: optional_def)+








section \<open>The wire protocol\<close>

text \<open>
  What a backend accepts, read off the wire values alone: every assistant message with calls is
  followed by one tool message for each of their ids, in order, and no tool message stands elsewhere.
\<close>

definition call_ids :: "json \<Rightarrow> json list" where
  "call_ids calls = (case calls of JArr cs \<Rightarrow> map (\<lambda>c. member c ''id'') cs | _ \<Rightarrow> [])"

fun wire_accepts :: "json list \<Rightarrow> json list \<Rightarrow> bool" where
  "wire_accepts open_ids [] = (open_ids = [])"
| "wire_accepts open_ids (m # ms) =
     (if member m ''role'' = JStr ''tool'' then
        (case open_ids of [] \<Rightarrow> False | i # is \<Rightarrow> member m ''tool_call_id'' = i \<and> wire_accepts is ms)
      else open_ids = [] \<and>
        wire_accepts (if member m ''role'' = JStr ''assistant'' then call_ids (member m ''tool_calls'') else []) ms)"

lemma wire_role: "member (toOpenAIWireMessage num m) ''role'' = JStr (role_text (cm_role m))"
  by (simp add: toOpenAIWireMessage_def)

lemma role_text_tool: "role_text r = ''tool'' \<longleftrightarrow> r = RTool" "role_text r = ''assistant'' \<longleftrightarrow> r = RAssistant"
  by (cases r; simp add: role_text_def)+

lemma wire_answer:
  "cm_role m = RTool \<Longrightarrow> member (toOpenAIWireMessage num m) ''tool_call_id'' =
     (case cm_toolCallId m of None \<Rightarrow> JUndefined | Some i \<Rightarrow> JStr i)"
  by (cases "cm_toolCallId m") (simp_all add: toOpenAIWireMessage_def obj_get_optional optional_def split: option.split)

lemma wire_calls_ids:
  "cm_role m = RAssistant \<Longrightarrow>
     call_ids (member (toOpenAIWireMessage num m) ''tool_calls'') = map (JStr \<circ> tc_id) (or_empty (cm_toolCalls m))"
  by (cases "or_empty (cm_toolCalls m) = []")
     (simp_all add: toOpenAIWireMessage_def toOpenAIToolCalls_def call_ids_def obj_get_optional wire_call_def)

lemma accepted_if_protocol:
  "protocol ids (map shell ms) = Some [] \<Longrightarrow> wire_accepts (map JStr ids) (map (toOpenAIWireMessage num) ms)"
proof (induction ms arbitrary: ids)
  case (Cons m ms)
  show ?case
  proof (cases "cm_role m = RTool")
    case True
    with Cons show ?thesis
      by (auto simp: wire_role role_text_tool wire_answer shell_def split: list.splits if_splits)
  next
    case False
    then have "fst (shell m) \<noteq> RTool" by (simp add: shell_def)
    moreover obtain calls answers where sh: "shell m = (cm_role m, calls, answers)" "calls = map tc_id (or_empty (cm_toolCalls m))"
      by (simp add: shell_def)
    ultimately have p: "ids = []"
      "protocol (if cm_role m = RAssistant then map tc_id (or_empty (cm_toolCalls m)) else []) (map shell ms) = Some []"
      using Cons.prems by (auto simp: sh split: if_splits)
    from Cons.IH [OF p(2)] False p(1) show ?thesis
      by (auto simp: wire_role role_text_tool wire_calls_ids split: if_splits)
  qed
qed simp

lemma assigned_field: "k \<notin> fst ` set extra \<Longrightarrow> map_of (assign_fields body extra) k = map_of body k"
  by (induction extra arbitrary: body) (auto simp: assign_fields_def update_conv')

lemma body_messages:
  assumes "''messages'' \<notin> fst ` set (or_empty (rq_extraBody rq))"
  shows "obj_get (buildOpenAIRequestBody num rq model stream) ''messages'' =
    JArr (map (toOpenAIWireMessage num) (kernel_messages rq))"
  using assms by (simp add: buildOpenAIRequestBody_def obj_get_def assigned_field Let_def)

text \<open>
  C5. Every body that a run posts to its backend is one the backend accepts: on the wire, each
  assistant message with calls is followed by exactly one tool message for each of the ids it carries,
  in order, and no tool message stands anywhere else; whatever tools, names, refusals, compactions and
  retries there were, unless the agent's extra body replaces the messages.
\<close>

theorem posted_conversation_accepted:
  assumes "run cfg env described ms = Inr (res, st)" "well_formed ms"
    and "ModelCalled request noTools answer \<in> set (ls_effects st)"
    and "rq_messages rq = request" "js_or (rq_systemPrompt rq) [] = []"
    and "''messages'' \<notin> fst ` set (or_empty (rq_extraBody rq))"
  shows "\<exists>wire. obj_get (buildOpenAIRequestBody num rq model stream) ''messages'' = JArr wire \<and> wire_accepts [] wire"
proof -
  have "well_formed request"
    using run_sound [OF assms(1,2)] assms(3) unfolding run_ok_def log_ok_def requests_ok_def by blast
  then have "wire_accepts (map JStr []) (map (toOpenAIWireMessage num) request)"
    unfolding well_formed_def by (rule accepted_if_protocol)
  moreover have "kernel_messages rq = request"
    using assms(4,5) by (cases "rq_systemPrompt rq") (simp_all add: kernel_messages_def)
  ultimately show ?thesis using body_messages [OF assms(6)] by simp
qed

definition plain_request :: "chat_message list \<Rightarrow> chat_request" where
  "plain_request ms = \<lparr>rq_messages = ms, rq_model = None, rq_tools = None, rq_toolChoice = None, rq_temperature = None,
     rq_maxTokens = None, rq_stopSequences = None, rq_systemPrompt = None, rq_extraBody = None\<rparr>"

theorem posted_conversation_accepted_witness:
  "\<exists>q wire. length q = 4 \<and> wire_accepts [] wire \<and>
     obj_get (buildOpenAIRequestBody Compaction.sample_num (plain_request q) ''m'' True) ''messages'' = JArr wire"
proof -
  obtain res st q1 q2 b1 b2 a1 a2 rest where r: "run sample_config sample_env (Inr []) [user_says ''go''] = Inr (res, st)"
    "ls_effects st = [ModelCalled q1 b1 a1] @ ToolRan ''code.run'' (JObj []) ''code.run:{}'' True # ModelCalled q2 b2 a2 # rest"
    "length q2 = 4" by (rule sample_run_gives)
  then have "ModelCalled q2 b2 a2 \<in> set (ls_effects st)" by simp
  moreover have "rq_messages (plain_request q2) = q2" "js_or (rq_systemPrompt (plain_request q2)) [] = []"
    "''messages'' \<notin> fst ` set (or_empty (rq_extraBody (plain_request q2)))" by (simp_all add: plain_request_def)
  ultimately show ?thesis
    using r(3) posted_conversation_accepted [OF r(1) sample_start, of q2 b2 a2 "plain_request q2"] by blast
qed





end
