(* ===== verification/Workflow.thy ===== *)
theory Workflow
  imports Prelude
begin

text \<open>
  The durable workflows of \<^verbatim>\<open>packages/agent-workflow-runtime/src\<close>: the context whose steps are
  journaled by name, and the runner that crashes and replays an invocation. A handler is a tree of
  the durable steps it takes: it may continue in any way on what a step returns or throws, and that
  is all it may look at, as the contract of \<open>defineWorkflow\<close> asks. Steps are taken one after
  another; a handler that awaits several steps at once is not modelled. What the injected side
  effects answer depends on how many have been issued before.
\<close>

section \<open>Handlers\<close>

record task_handle =
  th_taskUid :: string
  th_namespace :: string
  th_name :: string

record task_outputs =
  to_taskUid :: string
  to_outputs :: "(string \<times> string) list"

datatype input_from = FromWorkspace string | FromOutput string string | FromScalar json

record spawn_config =
  sc_tokenLimit :: "rat option"
  sc_costLimitUsd :: "rat option"
  sc_maxIterations :: "rat option"
  sc_timeoutSeconds :: "rat option"

record spawn_input =
  si_agent :: "string option"
  si_targetCapability :: "string option"
  si_payload :: "json option"
  si_inputs :: "(string \<times> input_from) list option"
  si_idempotencyKey :: "string option"
  si_runConfig :: "spawn_config option"
  si_labels :: "(string \<times> string) list option"

record signal_input =
  sg_topic :: string
  sg_payload :: json

record await_signal_input =
  aw_topic :: string
  aw_selector :: "(string \<times> json) list option"
  aw_timeoutMs :: "rat option"

datatype workflow_error =
    TaskFailedError (we_taskUid: string) (we_reason: string) (we_detail: string)
  | TimeoutError (we_stepName: string) (we_elapsedMs: rat)
  | SyntheticCrash string
  | PlainError string

datatype 'v handler =
    Returns 'v
  | Raises workflow_error
  | SpawnStep string spawn_input "workflow_error + task_handle \<Rightarrow> 'v handler"
  | AwaitTaskStep string task_handle "workflow_error + task_outputs \<Rightarrow> 'v handler"
  | SignalStep string signal_input "workflow_error + unit \<Rightarrow> 'v handler"
  | AwaitSignalStep string await_signal_input "workflow_error + json \<Rightarrow> 'v handler"
  | SleepStep string rat "workflow_error + unit \<Rightarrow> 'v handler"

section \<open>Definition of a workflow\<close>

record ('i, 'v) workflow =
  wf_name :: string
  wf_run :: "'i \<Rightarrow> string option \<Rightarrow> string \<Rightarrow> 'v handler"

definition letter_char :: "char \<Rightarrow> bool" where
  "letter_char c = (let n = of_char c :: nat in 65 \<le> n \<and> n \<le> 90 \<or> 97 \<le> n \<and> n \<le> 122)"

definition is_digit_char :: "char \<Rightarrow> bool" where
  "is_digit_char c = (let n = of_char c :: nat in 48 \<le> n \<and> n \<le> 57)"

text \<open>The pattern \<^verbatim>\<open>/^[a-zA-Z_$][\w$]*$/\<close>.\<close>

fun js_identifier :: "string \<Rightarrow> bool" where
  "js_identifier [] = False"
| "js_identifier (c # cs) =
     ((letter_char c \<or> c \<in> set ''_$'') \<and>
      (\<forall>d \<in> set cs. letter_char d \<or> is_digit_char d \<or> d \<in> set ''_$''))"

definition defineWorkflow ::
  "string option \<Rightarrow> ('i \<Rightarrow> string option \<Rightarrow> string \<Rightarrow> 'v handler) option \<Rightarrow> string + ('i, 'v) workflow" where
  "defineWorkflow name run =
     (case non_empty name of
        None \<Rightarrow> Inl ''defineWorkflow: `name` is required and must be a non-empty string''
      | Some n \<Rightarrow>
          (case run of
             None \<Rightarrow> Inl ''defineWorkflow: `run` must be a function''
           | Some handler \<Rightarrow>
               if \<not> js_identifier n then
                 Inl (''defineWorkflow: name \"'' @ n @ ''\" is not a valid JS-identifier; '' @
                      ''Restate registers the value verbatim and rejects non-identifier names.'')
               else Inr \<lparr>wf_name = n, wf_run = handler\<rparr>))"

section \<open>The journal\<close>

datatype journal_entry =
    JSpawn (je_stepName: string) task_handle
  | JAwaitTask (je_stepName: string) task_outputs
  | JAwaitTaskFailed (je_stepName: string) string string string
  | JSignal (je_stepName: string)
  | JAwaitSignal (je_stepName: string) json
  | JAwaitSignalTimeout (je_stepName: string) rat
  | JSleep (je_stepName: string)

fun je_kind :: "journal_entry \<Rightarrow> string" where
  "je_kind (JSpawn _ _) = ''spawn''"
| "je_kind (JAwaitTask _ _) = ''await-task''"
| "je_kind (JAwaitTaskFailed _ _ _ _) = ''await-task-failed''"
| "je_kind (JSignal _) = ''signal''"
| "je_kind (JAwaitSignal _ _) = ''await-signal''"
| "je_kind (JAwaitSignalTimeout _ _) = ''await-signal-timeout''"
| "je_kind (JSleep _) = ''sleep''"

record call_counts =
  cc_spawnAgentTask :: nat
  cc_awaitTask :: nat
  cc_signal :: nat
  cc_awaitSignal :: nat
  cc_sleep :: nat

text \<open>
  One execution of a handler: the journal of its invocation, the commits of this execution, the
  counts of the runner, and every side effect issued so far, with the invocation and step that
  issued it and whether its outcome was committed. The last field is what the world has seen.
\<close>

type_synonym issued_effect = "string \<times> string \<times> bool"

record execution =
  ex_journal :: "journal_entry list"
  ex_commits :: nat
  ex_counts :: call_counts
  ex_issued :: "issued_effect list"

record run_context =
  ct_invocationId :: string
  ct_crashAfterCommits :: "nat option"
  ct_maxCommits :: nat

record side_effects =
  se_spawnAgentTask :: "nat \<Rightarrow> spawn_input \<Rightarrow> workflow_error + task_handle"
  se_awaitTask :: "nat \<Rightarrow> task_handle \<Rightarrow> workflow_error + task_outputs"
  se_signal :: "nat \<Rightarrow> signal_input \<Rightarrow> workflow_error + unit"
  se_awaitSignal :: "nat \<Rightarrow> await_signal_input \<Rightarrow> workflow_error + json"
  se_sleep :: "nat \<Rightarrow> rat \<Rightarrow> workflow_error + unit"

definition findEntry :: "string \<Rightarrow> journal_entry list \<Rightarrow> journal_entry option" where
  "findEntry stepName journal = find (\<lambda>j. je_stepName j = stepName) journal"

definition mark_committed :: "issued_effect list \<Rightarrow> issued_effect list" where
  "mark_committed xs = (case last xs of (iid, step, _) \<Rightarrow> butlast xs @ [(iid, step, True)])"

text \<open>The error a commit throws, if any: the cap is looked at before the configured crash.\<close>

definition commit_error :: "run_context \<Rightarrow> nat \<Rightarrow> nat \<Rightarrow> workflow_error option" where
  "commit_error ctx entries commits =
     (if ct_maxCommits ctx < entries then
        Some (PlainError (''[in-memory-runner] exceeded maxCommits='' @ string_of_nat (ct_maxCommits ctx) @
          '' (journal has '' @ string_of_nat entries @ '' entries)''))
      else
        (case ct_crashAfterCommits ctx of
           None \<Rightarrow> None
         | Some k \<Rightarrow>
             if k \<le> commits then
               Some (SyntheticCrash (''[in-memory-runner] simulated crash at '' @ string_of_nat commits @ '' commits''))
             else None))"

definition commit :: "run_context \<Rightarrow> journal_entry \<Rightarrow> execution \<Rightarrow> workflow_error option \<times> execution" where
  "commit ctx entry x =
     (let x' = x\<lparr>ex_journal := ex_journal x @ [entry], ex_commits := ex_commits x + 1,
                 ex_issued := mark_committed (ex_issued x)\<rparr> in
      (commit_error ctx (length (ex_journal x')) (ex_commits x'), x'))"

section \<open>The durable steps\<close>

text \<open>
  The body the five methods of the context share: an entry of the journal answers the step; else the
  call is counted, the effect issued, and its outcome committed, where \<open>failed\<close> says which
  thrown errors are outcomes. An error of the commit replaces the outcome.
\<close>

definition durable ::
  "run_context \<Rightarrow> string \<Rightarrow> (journal_entry \<Rightarrow> workflow_error + 'a) \<Rightarrow> (call_counts \<Rightarrow> call_counts) \<Rightarrow>
   (nat \<Rightarrow> workflow_error + 'a) \<Rightarrow> ('a \<Rightarrow> journal_entry) \<Rightarrow> (workflow_error \<Rightarrow> journal_entry option) \<Rightarrow>
   execution \<Rightarrow> (workflow_error + 'a) \<times> execution" where
  "durable ctx stepName recall counted effect entry failed x =
     (case findEntry stepName (ex_journal x) of
        Some existing \<Rightarrow> (recall existing, x)
      | None \<Rightarrow>
          (let x1 = x\<lparr>ex_counts := counted (ex_counts x),
                      ex_issued := ex_issued x @ [(ct_invocationId ctx, stepName, False)]\<rparr> in
           case effect (length (ex_issued x)) of
             Inr v \<Rightarrow>
               (case commit ctx (entry v) x1 of
                  (None, x2) \<Rightarrow> (Inr v, x2)
                | (Some err, x2) \<Rightarrow> (Inl err, x2))
           | Inl err \<Rightarrow>
               (case failed err of
                  None \<Rightarrow> (Inl err, x1)
                | Some e \<Rightarrow>
                    (case commit ctx e x1 of
                       (None, x2) \<Rightarrow> (Inl err, x2)
                     | (Some err', x2) \<Rightarrow> (Inl err', x2)))))"

definition committed_as :: "string \<Rightarrow> journal_entry \<Rightarrow> string \<Rightarrow> workflow_error" where
  "committed_as stepName existing kind =
     PlainError (''[in-memory-runner] step \"'' @ stepName @ ''\" was previously committed as '' @
       je_kind existing @ '', not '' @ kind)"

fun recall_spawn :: "string \<Rightarrow> journal_entry \<Rightarrow> workflow_error + task_handle" where
  "recall_spawn stepName (JSpawn _ handle) = Inr handle"
| "recall_spawn stepName existing = Inl (committed_as stepName existing ''spawn'')"

definition ctx_spawnAgentTask ::
  "side_effects \<Rightarrow> run_context \<Rightarrow> string \<Rightarrow> spawn_input \<Rightarrow> execution \<Rightarrow> (workflow_error + task_handle) \<times> execution" where
  "ctx_spawnAgentTask se ctx stepName input =
     durable ctx stepName (recall_spawn stepName)
       (\<lambda>c. c\<lparr>cc_spawnAgentTask := cc_spawnAgentTask c + 1\<rparr>)
       (\<lambda>n. se_spawnAgentTask se n input) (JSpawn stepName) (\<lambda>_. None)"

fun recall_await_task :: "string \<Rightarrow> journal_entry \<Rightarrow> workflow_error + task_outputs" where
  "recall_await_task stepName (JAwaitTask _ outputs) = Inr outputs"
| "recall_await_task stepName (JAwaitTaskFailed _ uid reason detail) = Inl (TaskFailedError uid reason detail)"
| "recall_await_task stepName existing = Inl (committed_as stepName existing ''await-task'')"

fun task_failure :: "string \<Rightarrow> workflow_error \<Rightarrow> journal_entry option" where
  "task_failure stepName (TaskFailedError uid reason detail) = Some (JAwaitTaskFailed stepName uid reason detail)"
| "task_failure stepName _ = None"

definition ctx_awaitTask ::
  "side_effects \<Rightarrow> run_context \<Rightarrow> string \<Rightarrow> task_handle \<Rightarrow> execution \<Rightarrow> (workflow_error + task_outputs) \<times> execution" where
  "ctx_awaitTask se ctx stepName handle =
     durable ctx stepName (recall_await_task stepName)
       (\<lambda>c. c\<lparr>cc_awaitTask := cc_awaitTask c + 1\<rparr>)
       (\<lambda>n. se_awaitTask se n handle) (JAwaitTask stepName) (task_failure stepName)"

fun recall_signal :: "string \<Rightarrow> journal_entry \<Rightarrow> workflow_error + unit" where
  "recall_signal stepName (JSignal _) = Inr ()"
| "recall_signal stepName existing = Inl (committed_as stepName existing ''signal'')"

definition ctx_signal ::
  "side_effects \<Rightarrow> run_context \<Rightarrow> string \<Rightarrow> signal_input \<Rightarrow> execution \<Rightarrow> (workflow_error + unit) \<times> execution" where
  "ctx_signal se ctx stepName input =
     durable ctx stepName (recall_signal stepName) (\<lambda>c. c\<lparr>cc_signal := cc_signal c + 1\<rparr>)
       (\<lambda>n. se_signal se n input) (\<lambda>_. JSignal stepName) (\<lambda>_. None)"

fun recall_await_signal :: "string \<Rightarrow> journal_entry \<Rightarrow> workflow_error + json" where
  "recall_await_signal stepName (JAwaitSignal _ payload) = Inr payload"
| "recall_await_signal stepName (JAwaitSignalTimeout _ elapsed) = Inl (TimeoutError stepName elapsed)"
| "recall_await_signal stepName existing = Inl (committed_as stepName existing ''await-signal'')"

fun signal_timeout :: "string \<Rightarrow> workflow_error \<Rightarrow> journal_entry option" where
  "signal_timeout stepName (TimeoutError _ elapsed) = Some (JAwaitSignalTimeout stepName elapsed)"
| "signal_timeout stepName _ = None"

definition ctx_awaitSignal ::
  "side_effects \<Rightarrow> run_context \<Rightarrow> string \<Rightarrow> await_signal_input \<Rightarrow> execution \<Rightarrow> (workflow_error + json) \<times> execution" where
  "ctx_awaitSignal se ctx stepName input =
     durable ctx stepName (recall_await_signal stepName)
       (\<lambda>c. c\<lparr>cc_awaitSignal := cc_awaitSignal c + 1\<rparr>)
       (\<lambda>n. se_awaitSignal se n input) (JAwaitSignal stepName) (signal_timeout stepName)"

fun recall_sleep :: "string \<Rightarrow> journal_entry \<Rightarrow> workflow_error + unit" where
  "recall_sleep stepName (JSleep _) = Inr ()"
| "recall_sleep stepName existing = Inl (committed_as stepName existing ''sleep'')"

definition ctx_sleep ::
  "side_effects \<Rightarrow> run_context \<Rightarrow> string \<Rightarrow> rat \<Rightarrow> execution \<Rightarrow> (workflow_error + unit) \<times> execution" where
  "ctx_sleep se ctx stepName ms =
     durable ctx stepName (recall_sleep stepName) (\<lambda>c. c\<lparr>cc_sleep := cc_sleep c + 1\<rparr>)
       (\<lambda>n. se_sleep se n ms) (\<lambda>_. JSleep stepName) (\<lambda>_. None)"

section \<open>The runner\<close>

primrec execute :: "side_effects \<Rightarrow> run_context \<Rightarrow> 'v handler \<Rightarrow> execution \<Rightarrow> (workflow_error + 'v) \<times> execution" where
  "execute se ctx (Returns v) x = (Inr v, x)"
| "execute se ctx (Raises e) x = (Inl e, x)"
| "execute se ctx (SpawnStep s i k) x = (case ctx_spawnAgentTask se ctx s i x of (r, x') \<Rightarrow> execute se ctx (k r) x')"
| "execute se ctx (AwaitTaskStep s h k) x = (case ctx_awaitTask se ctx s h x of (r, x') \<Rightarrow> execute se ctx (k r) x')"
| "execute se ctx (SignalStep s i k) x = (case ctx_signal se ctx s i x of (r, x') \<Rightarrow> execute se ctx (k r) x')"
| "execute se ctx (AwaitSignalStep s i k) x = (case ctx_awaitSignal se ctx s i x of (r, x') \<Rightarrow> execute se ctx (k r) x')"
| "execute se ctx (SleepStep s ms k) x = (case ctx_sleep se ctx s ms x of (r, x') \<Rightarrow> execute se ctx (k r) x')"

record run_state =
  rs_invocationId :: string
  rs_journal :: "journal_entry list"
  rs_completed :: bool

record runner =
  rn_states :: "(string \<times> run_state) list"
  rn_counts :: call_counts
  rn_issued :: "issued_effect list"

datatype 'v outcome = WfCompleted (wf_value: 'v) | WfCrashed string

definition drive ::
  "('i, 'v) workflow \<Rightarrow> side_effects \<Rightarrow> run_state \<Rightarrow> 'i \<Rightarrow> string option \<Rightarrow> nat option \<Rightarrow> nat \<Rightarrow> runner \<Rightarrow>
   (workflow_error + 'v outcome) \<times> runner" where
  "drive flow se state input capabilityRef crashAfterCommits maxCommits rn =
     (let iid = rs_invocationId state;
          ctx = \<lparr>ct_invocationId = iid, ct_crashAfterCommits = crashAfterCommits, ct_maxCommits = maxCommits\<rparr>;
          (r, x) = execute se ctx (wf_run flow input capabilityRef iid)
            \<lparr>ex_journal = rs_journal state, ex_commits = 0, ex_counts = rn_counts rn, ex_issued = rn_issued rn\<rparr>;
          state' = state\<lparr>rs_journal := ex_journal x, rs_completed := (case r of Inr _ \<Rightarrow> True | Inl _ \<Rightarrow> rs_completed state)\<rparr>;
          rn' = rn\<lparr>rn_states := AList.update iid state' (rn_states rn), rn_counts := ex_counts x, rn_issued := ex_issued x\<rparr>
      in case r of
           Inr v \<Rightarrow> (Inr (WfCompleted v), rn')
         | Inl (SyntheticCrash _) \<Rightarrow> (Inr (WfCrashed iid), rn')
         | Inl e \<Rightarrow> (Inl e, rn'))"

record start_opts =
  op_crashAfterCommits :: "nat option"
  op_invocationId :: "string option"
  op_maxCommits :: "nat option"
  op_capabilityRef :: "string option"

text \<open>\<open>fresh\<close> is the random identifier taken when none is given.\<close>

definition start ::
  "('i, 'v) workflow \<Rightarrow> side_effects \<Rightarrow> string \<Rightarrow> 'i \<Rightarrow> start_opts \<Rightarrow> runner \<Rightarrow> (workflow_error + 'v outcome) \<times> runner" where
  "start flow se fresh input opts rn =
     (let iid = js_or (op_invocationId opts) fresh;
          state = \<lparr>rs_invocationId = iid, rs_journal = [], rs_completed = False\<rparr>
      in drive flow se state input (op_capabilityRef opts) (op_crashAfterCommits opts) (js_or (op_maxCommits opts) 1024)
           (rn\<lparr>rn_states := AList.update iid state (rn_states rn)\<rparr>))"

definition no_journal :: "string \<Rightarrow> workflow_error" where
  "no_journal iid = PlainError (''[in-memory-runner] no journal for invocation \"'' @ iid @ ''\"'')"

definition replay ::
  "('i, 'v) workflow \<Rightarrow> side_effects \<Rightarrow> string \<Rightarrow> 'i \<Rightarrow> string option \<Rightarrow> nat option \<Rightarrow> runner \<Rightarrow>
   (workflow_error + 'v) \<times> runner" where
  "replay flow se iid input capabilityRef maxCommits rn =
     (case map_of (rn_states rn) iid of
        None \<Rightarrow> (Inl (no_journal iid), rn)
      | Some state \<Rightarrow>
          if rs_completed state then
            (Inl (PlainError (''[in-memory-runner] invocation \"'' @ iid @ ''\" already completed; cannot replay'')), rn)
          else
            (case drive flow se state input capabilityRef None (js_or maxCommits 1024) rn of
               (Inl e, rn') \<Rightarrow> (Inl e, rn')
             | (Inr (WfCrashed _), rn') \<Rightarrow> (Inl (PlainError ''[in-memory-runner] unexpected crash on replay path''), rn')
             | (Inr (WfCompleted v), rn') \<Rightarrow> (Inr v, rn')))"

definition journal :: "string \<Rightarrow> runner \<Rightarrow> workflow_error + journal_entry list" where
  "journal iid rn =
     (case map_of (rn_states rn) iid of None \<Rightarrow> Inl (no_journal iid) | Some state \<Rightarrow> Inr (rs_journal state))"

definition callCounts :: "runner \<Rightarrow> call_counts" where
  "callCounts rn = rn_counts rn"

definition createInMemoryRunner :: runner where
  "createInMemoryRunner =
     \<lparr>rn_states = [], rn_counts = \<lparr>cc_spawnAgentTask = 0, cc_awaitTask = 0, cc_signal = 0, cc_awaitSignal = 0, cc_sleep = 0\<rparr>,
      rn_issued = []\<rparr>"

section \<open>What a durable step does\<close>

definition calm :: "run_context \<Rightarrow> run_context" where
  "calm ctx = ctx\<lparr>ct_crashAfterCommits := None\<rparr>"

fun crash_error :: "workflow_error \<Rightarrow> bool" where
  "crash_error (SyntheticCrash _) = True"
| "crash_error _ = False"

text \<open>The error a replay throws for a committed failure: a timeout is named after its step.\<close>

fun as_replayed :: "string \<Rightarrow> workflow_error \<Rightarrow> workflow_error" where
  "as_replayed stepName (TimeoutError _ elapsed) = TimeoutError stepName elapsed"
| "as_replayed stepName e = e"

definition replayed :: "string \<Rightarrow> workflow_error + 'a \<Rightarrow> workflow_error + 'a" where
  "replayed stepName r = map_sum (as_replayed stepName) id r"

definition crashed :: "workflow_error + 'a \<Rightarrow> bool" where
  "crashed r = (case r of Inl e \<Rightarrow> crash_error e | Inr _ \<Rightarrow> False)"

lemma crashed_simps [simp]:
  "crashed (Inl e) = crash_error e" "\<not> crashed (Inr v)"
  "replayed s (Inl e) = Inl (as_replayed s e)" "replayed s (Inr v) = Inr v"
  "crash_error (as_replayed s e) = crash_error e"
  by (simp_all add: crashed_def replayed_def) (cases e; simp)

lemma crashedD: "crashed r \<Longrightarrow> \<exists>m. r = Inl (SyntheticCrash m)"
  by (auto simp: crashed_def elim: crash_error.elims split: sum.splits)

lemma findEntry_append [simp]:
  "findEntry s (j @ j') = (case findEntry s j of None \<Rightarrow> findEntry s j' | Some e \<Rightarrow> Some e)"
  by (induction j) (auto simp: findEntry_def)

lemma findEntry_Cons [simp]:
  "findEntry s [] = None" "findEntry s (e # j) = (if je_stepName e = s then Some e else findEntry s j)"
  by (simp_all add: findEntry_def)

lemma findEntry_None: "findEntry s j = None \<longleftrightarrow> s \<notin> je_stepName ` set j"
  by (auto simp: findEntry_def find_None_iff)

lemma commit_error_calm:
  "commit_error (calm ctx) n c = (if ct_maxCommits ctx < n then commit_error ctx n c else None)"
  by (simp add: commit_error_def calm_def)

lemma commit_error_cases:
  "commit_error ctx n c = None \<or> (\<exists>m. commit_error ctx n c = Some (SyntheticCrash m) \<and> n \<le> ct_maxCommits ctx) \<or>
   (\<exists>m. commit_error ctx n c = Some (PlainError m) \<and> ct_maxCommits ctx < n)"
  by (auto simp: commit_error_def split: option.splits)

text \<open>Every outcome of the effect is committed.\<close>

definition settles :: "(workflow_error \<Rightarrow> journal_entry option) \<Rightarrow> (nat \<Rightarrow> workflow_error + 'a) \<Rightarrow> bool" where
  "settles failed effect = (\<forall>n. case effect n of Inr _ \<Rightarrow> True | Inl err \<Rightarrow> failed err \<noteq> None)"

text \<open>What the five methods have in common, as an interface.\<close>

locale durable_step =
  fixes stepName :: string
    and recall :: "journal_entry \<Rightarrow> workflow_error + 'a"
    and entry :: "'a \<Rightarrow> journal_entry"
    and failed :: "workflow_error \<Rightarrow> journal_entry option"
  assumes entry_name: "je_stepName (entry v) = stepName"
    and failed_name: "failed err = Some e \<Longrightarrow> je_stepName e = stepName"
    and recall_entry: "recall (entry v) = Inr v"
    and recall_failed: "failed err = Some e \<Longrightarrow> recall e = Inl (as_replayed stepName err)"
    and recall_replayed: "replayed stepName (recall e) = recall e"
    and recall_calm: "\<not> crashed (recall e)"
    and failed_calm: "crash_error err \<Longrightarrow> failed err = None"
begin

lemma durable_unfold:
  assumes "settles failed effect" and "findEntry stepName (ex_journal x) = None"
  obtains r e x' where
    "durable ctx stepName recall counted effect entry failed x =
       (case commit_error ctx (length (ex_journal x')) (ex_commits x') of None \<Rightarrow> r | Some err \<Rightarrow> Inl err, x')"
    "durable (calm ctx) stepName recall counted effect entry failed x =
       (case commit_error (calm ctx) (length (ex_journal x')) (ex_commits x') of None \<Rightarrow> r | Some err \<Rightarrow> Inl err, x')"
    "ex_journal x' = ex_journal x @ [e]" "je_stepName e = stepName" "recall e = replayed stepName r" "\<not> crashed r"
    "(\<exists>v. r = Inr v) \<or> (\<exists>n err. r = Inl err \<and> effect n = Inl err \<and> failed err \<noteq> None)"
proof -
  define x1 where "x1 = x\<lparr>ex_counts := counted (ex_counts x), ex_issued := ex_issued x @ [(ct_invocationId ctx, stepName, False)]\<rparr>"
  define r where "r = effect (length (ex_issued x))"
  define e where "e = (case r of Inr v \<Rightarrow> entry v | Inl err \<Rightarrow> the (failed err))"
  define x' where "x' = snd (commit ctx e x1)"
  have ok: "(\<exists>v. r = Inr v) \<or> (\<exists>err e'. r = Inl err \<and> failed err = Some e')"
    using assms(1) by (cases r) (auto simp: settles_def r_def split: sum.splits dest!: spec [of _ "length (ex_issued x)"])
  have same: "snd (commit (calm ctx) e x1) = x'"
    by (simp add: x'_def commit_def calm_def)
  have run: "durable c stepName recall counted effect entry failed x =
       (case commit_error c (length (ex_journal x')) (ex_commits x') of None \<Rightarrow> r | Some err \<Rightarrow> Inl err, x')"
    if "c = ctx \<or> c = calm ctx" for c
    using that ok assms(2)
    by (auto simp: durable_def e_def r_def [symmetric] x'_def commit_def x1_def calm_def Let_def split: option.splits sum.splits)
  show thesis
  proof (rule that [of r x' e])
    show "ex_journal x' = ex_journal x @ [e]"
      by (simp add: x'_def commit_def x1_def Let_def)
    show "je_stepName e = stepName" "recall e = replayed stepName r"
      using ok by (auto simp: e_def entry_name recall_entry failed_name recall_failed)
    show "\<not> crashed r"
      using ok failed_calm by (fastforce simp: crashed_def)
    show "(\<exists>v. r = Inr v) \<or> (\<exists>n err. r = Inl err \<and> effect n = Inl err \<and> failed err \<noteq> None)"
      using ok by (auto simp: r_def)
  qed (use run in blast)+
qed

lemma found:
  assumes "findEntry stepName (ex_journal x) = Some e"
  shows "durable ctx stepName recall counted effect entry failed x = (recall e, x)"
  using assms by (simp add: durable_def)

lemma journal_grows:
  assumes "settles failed effect" and "durable ctx stepName recall counted effect entry failed x = (r, x')"
  shows "\<exists>j. ex_journal x' = ex_journal x @ j"
proof (cases "findEntry stepName (ex_journal x)")
  case None
  then show ?thesis by (rule durable_unfold [OF assms(1), where ctx = ctx and counted = counted]) (use assms(2) in auto)
qed (use assms(2) in \<open>simp add: found\<close>)

text \<open>A step that crashes has taken effect: without the crash it returns the outcome it committed.\<close>

lemma crashing_step:
  assumes "settles failed effect" and "durable ctx stepName recall counted effect entry failed x = (r, x')" and "crashed r"
  obtains r' where "durable (calm ctx) stepName recall counted effect entry failed x = (r', x')"
    "\<And>j y. ex_journal y = ex_journal x' @ j \<Longrightarrow>
       durable (calm ctx) stepName recall counted effect entry failed y = (replayed stepName r', y)"
    "(\<exists>v. r' = Inr v) \<or> (\<exists>n err. r' = Inl err \<and> effect n = Inl err \<and> failed err \<noteq> None)"
    "\<not> crashed r'" "length (ex_journal x') \<le> ct_maxCommits ctx"
proof -
  have fresh: "findEntry stepName (ex_journal x) = None"
    using assms(2,3) by (cases "findEntry stepName (ex_journal x)") (auto simp: found recall_calm)
  obtain r0 e x0 where
    run: "durable ctx stepName recall counted effect entry failed x =
       (case commit_error ctx (length (ex_journal x0)) (ex_commits x0) of None \<Rightarrow> r0 | Some err \<Rightarrow> Inl err, x0)"
    "durable (calm ctx) stepName recall counted effect entry failed x =
       (case commit_error (calm ctx) (length (ex_journal x0)) (ex_commits x0) of None \<Rightarrow> r0 | Some err \<Rightarrow> Inl err, x0)"
    and e: "ex_journal x0 = ex_journal x @ [e]" "je_stepName e = stepName" "recall e = replayed stepName r0" "\<not> crashed r0"
    and ok: "(\<exists>v. r0 = Inr v) \<or> (\<exists>n err. r0 = Inl err \<and> effect n = Inl err \<and> failed err \<noteq> None)"
    by (rule durable_unfold [OF assms(1) fresh, where ctx = ctx and counted = counted])
  have cap: "length (ex_journal x0) \<le> ct_maxCommits ctx" and x0: "x0 = x'"
    using assms(2,3) run(1) e(4) commit_error_cases [of ctx "length (ex_journal x0)" "ex_commits x0"] by auto
  then have "durable (calm ctx) stepName recall counted effect entry failed x = (r0, x')"
    using run(2) by (simp add: commit_error_calm)
  then show thesis
  proof (rule that)
    show "durable (calm ctx) stepName recall counted effect entry failed y = (replayed stepName r0, y)"
      if "ex_journal y = ex_journal x' @ j" for j y
      using that e fresh x0 by (simp add: found)
  qed (use ok e(4) cap x0 in auto)
qed

text \<open>A step that does not crash is the step of an execution that never crashes, and a replay recalls it.\<close>

lemma calm_step:
  assumes "settles failed effect" and "durable ctx stepName recall counted effect entry failed x = (r, x')" and "\<not> crashed r"
  shows "durable (calm ctx) stepName recall counted effect entry failed x = (r, x')"
    and "replayed stepName r = r \<or> (\<exists>n err. r = Inl err \<and> effect n = Inl err \<and> failed err \<noteq> None)"
    and "length (ex_journal x') \<le> ct_maxCommits ctx \<Longrightarrow> ex_journal y = ex_journal x' @ j \<Longrightarrow>
      durable (calm ctx) stepName recall counted effect entry failed y = (replayed stepName r, y)"
proof -
  have "durable (calm ctx) stepName recall counted effect entry failed x = (r, x') \<and>
    (replayed stepName r = r \<or> (\<exists>n err. r = Inl err \<and> effect n = Inl err \<and> failed err \<noteq> None)) \<and>
    (length (ex_journal x') \<le> ct_maxCommits ctx \<longrightarrow> ex_journal y = ex_journal x' @ j \<longrightarrow>
      durable (calm ctx) stepName recall counted effect entry failed y = (replayed stepName r, y))"
  proof (cases "findEntry stepName (ex_journal x)")
    case None
    show ?thesis
    proof (rule durable_unfold [OF assms(1) None, where ctx = ctx and counted = counted], goal_cases)
      case (1 r0 e x0)
      then show ?case
        using assms(2,3) None commit_error_cases [of ctx "length (ex_journal x0)" "ex_commits x0"]
        by (auto simp: commit_error_calm found)
    qed
  next
    case (Some e)
    then show ?thesis using assms(2) by (auto simp: found recall_replayed)
  qed
  then show "durable (calm ctx) stepName recall counted effect entry failed x = (r, x')"
    and "replayed stepName r = r \<or> (\<exists>n err. r = Inl err \<and> effect n = Inl err \<and> failed err \<noteq> None)"
    and "length (ex_journal x') \<le> ct_maxCommits ctx \<Longrightarrow> ex_journal y = ex_journal x' @ j \<Longrightarrow>
      durable (calm ctx) stepName recall counted effect entry failed y = (replayed stepName r, y)"
    by blast+
qed

end

interpretation spawn: durable_step s "recall_spawn s" "JSpawn s" "\<lambda>_. None" for s
proof
  show "replayed s (recall_spawn s e) = recall_spawn s e" for e
    by (cases e) (auto simp: committed_as_def)
  show "\<not> crashed (recall_spawn s e)" for e
    by (cases e) (auto simp: committed_as_def)
qed auto

interpretation await_task: durable_step s "recall_await_task s" "JAwaitTask s" "task_failure s" for s
proof
  show "je_stepName e = s" if "task_failure s err = Some e" for err e
    using that by (cases err) auto
  show "recall_await_task s e = Inl (as_replayed s err)" if "task_failure s err = Some e" for err e
    using that by (cases err) auto
  show "replayed s (recall_await_task s e) = recall_await_task s e" for e
    by (cases e) (auto simp: committed_as_def)
  show "\<not> crashed (recall_await_task s e)" for e
    by (cases e) (auto simp: committed_as_def)
  show "task_failure s err = None" if "crash_error err" for err
    using that by (cases err) auto
qed auto

interpretation signal: durable_step s "recall_signal s" "\<lambda>_. JSignal s" "\<lambda>_. None" for s
proof
  show "replayed s (recall_signal s e) = recall_signal s e" for e
    by (cases e) (auto simp: committed_as_def)
  show "\<not> crashed (recall_signal s e)" for e
    by (cases e) (auto simp: committed_as_def)
qed auto

interpretation await_signal: durable_step s "recall_await_signal s" "JAwaitSignal s" "signal_timeout s" for s
proof
  show "je_stepName e = s" if "signal_timeout s err = Some e" for err e
    using that by (cases err) auto
  show "recall_await_signal s e = Inl (as_replayed s err)" if "signal_timeout s err = Some e" for err e
    using that by (cases err) auto
  show "replayed s (recall_await_signal s e) = recall_await_signal s e" for e
    by (cases e) (auto simp: committed_as_def)
  show "\<not> crashed (recall_await_signal s e)" for e
    by (cases e) (auto simp: committed_as_def)
  show "signal_timeout s err = None" if "crash_error err" for err
    using that by (cases err) auto
qed auto

interpretation sleep: durable_step s "recall_sleep s" "\<lambda>_. JSleep s" "\<lambda>_. None" for s
proof
  show "replayed s (recall_sleep s e) = recall_sleep s e" for e
    by (cases e) (auto simp: committed_as_def)
  show "\<not> crashed (recall_sleep s e)" for e
    by (cases e) (auto simp: committed_as_def)
qed auto

section \<open>Crash and replay\<close>

text \<open>
  Side effects that come to an outcome the journal can hold: a task fails with its failure error, a
  wait for a signal ends with a timeout, and the other three do not throw.
\<close>

definition settling :: "side_effects \<Rightarrow> bool" where
  "settling se \<longleftrightarrow>
     (\<forall>n i. \<not> isl (se_spawnAgentTask se n i)) \<and>
     (\<forall>n h e. se_awaitTask se n h = Inl e \<longrightarrow> is_TaskFailedError e) \<and>
     (\<forall>n i. \<not> isl (se_signal se n i)) \<and>
     (\<forall>n i e. se_awaitSignal se n i = Inl e \<longrightarrow> is_TimeoutError e) \<and>
     (\<forall>n ms. \<not> isl (se_sleep se n ms))"

lemma settling_steps:
  assumes "settling se"
  shows "settles (\<lambda>_. None) (\<lambda>n. se_spawnAgentTask se n i)" "settles (task_failure s) (\<lambda>n. se_awaitTask se n h)"
    "settles (\<lambda>_. None) (\<lambda>n. se_signal se n g)" "settles (signal_timeout s) (\<lambda>n. se_awaitSignal se n w)"
    "settles (\<lambda>_. None) (\<lambda>n. se_sleep se n ms)"
proof -
  have "task_failure s e \<noteq> None" if "is_TaskFailedError e" for e
    using that by (cases e) auto
  moreover have "signal_timeout s e \<noteq> None" if "is_TimeoutError e" for e
    using that by (cases e) auto
  ultimately show "settles (\<lambda>_. None) (\<lambda>n. se_spawnAgentTask se n i)" "settles (task_failure s) (\<lambda>n. se_awaitTask se n h)"
    "settles (\<lambda>_. None) (\<lambda>n. se_signal se n g)" "settles (signal_timeout s) (\<lambda>n. se_awaitSignal se n w)"
    "settles (\<lambda>_. None) (\<lambda>n. se_sleep se n ms)"
    using assms unfolding settling_def settles_def by (auto simp: isl_def split: sum.splits) 
qed

text \<open>
  A handler that does not catch the crash, and does not tell the name in a timeout that a replay
  renames from the original one. An uncaught error satisfies both.
\<close>

definition passes_crash :: "(workflow_error + 'a \<Rightarrow> 'v handler) \<Rightarrow> bool" where
  "passes_crash k \<longleftrightarrow> (\<forall>m. k (Inl (SyntheticCrash m)) = Raises (SyntheticCrash m))"

primrec transparent :: "side_effects \<Rightarrow> 'v handler \<Rightarrow> bool" where
  "transparent se (Returns v) = True"
| "transparent se (Raises e) = (\<not> crash_error e)"
| "transparent se (SpawnStep s i k) = (passes_crash k \<and> (\<forall>r. crashed r \<or> transparent se (k r)))"
| "transparent se (AwaitTaskStep s h k) = (passes_crash k \<and> (\<forall>r. crashed r \<or> transparent se (k r)))"
| "transparent se (SignalStep s i k) = (passes_crash k \<and> (\<forall>r. crashed r \<or> transparent se (k r)))"
| "transparent se (AwaitSignalStep s i k) = (passes_crash k \<and> (\<forall>r. crashed r \<or> transparent se (k r)) \<and>
     ((\<forall>n e. se_awaitSignal se n i = Inl e \<longrightarrow> as_replayed s e = e) \<or> (\<forall>e. k (Inl (as_replayed s e)) = k (Inl e))))"
| "transparent se (SleepStep s ms k) = (passes_crash k \<and> (\<forall>r. crashed r \<or> transparent se (k r)))"

definition forget :: "execution \<Rightarrow> execution" where
  "forget x = x\<lparr>ex_commits := 0\<rparr>"

lemma forget_eq:
  "forget x = forget y \<longleftrightarrow> ex_journal x = ex_journal y \<and> ex_counts x = ex_counts y \<and> ex_issued x = ex_issued y"
  by (cases x; cases y) (auto simp: forget_def)

lemma durable_forget:
  assumes "forget x = forget y"
  shows "rel_prod (=) (\<lambda>x' y'. forget x' = forget y')
    (durable (calm ctx) s recall counted effect entry failed x) (durable (calm ctx) s recall counted effect entry failed y)"
  using assms by (auto simp: forget_eq durable_def commit_def commit_error_def calm_def Let_def
      split: option.splits sum.splits)

lemmas ctx_steps = ctx_spawnAgentTask_def ctx_awaitTask_def ctx_signal_def ctx_awaitSignal_def ctx_sleep_def

lemma durable_forget_cont:
  assumes "forget x = forget y" and "\<And>r x' y'. forget x' = forget y' \<Longrightarrow> R (f r x') (f r y')"
  shows "R (case durable (calm ctx) s recall counted effect entry failed x of (r, x') \<Rightarrow> f r x')
    (case durable (calm ctx) s recall counted effect entry failed y of (r, y') \<Rightarrow> f r y')"
  using durable_forget [OF assms(1), of ctx s recall counted effect entry failed] assms(2)
  by (auto split: prod.splits)

lemma execute_forget:
  "forget x = forget y \<Longrightarrow>
   rel_prod (=) (\<lambda>x' y'. forget x' = forget y') (execute se (calm ctx) h x) (execute se (calm ctx) h y)"
  by (induction h arbitrary: x y) (simp_all add: ctx_steps durable_forget_cont)

text \<open>What a crashed execution leaves: its journal, from which the handler goes on as if nothing had happened.\<close>

definition resumable :: "side_effects \<Rightarrow> run_context \<Rightarrow> 'v handler \<Rightarrow> execution \<Rightarrow> execution \<Rightarrow> bool" where
  "resumable se ctx h x x1 \<longleftrightarrow> (\<exists>j. ex_journal x1 = ex_journal x @ j) \<and> length (ex_journal x1) \<le> ct_maxCommits ctx \<and>
     rel_prod (=) (\<lambda>x' y'. forget x' = forget y') (execute se (calm ctx) h x) (execute se (calm ctx) h (forget x1))"

context durable_step
begin

lemma calm_step_no_crash:
  assumes "settles failed effect" and "durable (calm ctx) stepName recall counted effect entry failed x = (r, x')"
  shows "\<not> crashed r"
proof
  assume "crashed r"
  then obtain r' where "durable (calm (calm ctx)) stepName recall counted effect entry failed x = (r', x')" "\<not> crashed r'"
    by (rule crashing_step [OF assms]) (rule that)
  then show False
    using assms(2) \<open>crashed r\<close> by (simp add: calm_def)
qed

lemma resumable_step:
  assumes effect: "settles failed effect" and k: "passes_crash k"
    and same: "\<And>n err. effect n = Inl err \<Longrightarrow> failed err \<noteq> None \<Longrightarrow> k (Inl (as_replayed stepName err)) = k (Inl err)"
    and run: "durable ctx stepName recall counted effect entry failed x = (r, x')"
    and ends: "execute se ctx (k r) x' = (Inl e, x1)" "crash_error e"
    and IH: "\<not> crashed r \<Longrightarrow> resumable se ctx (k r) x' x1"
    and unfold: "\<And>x. execute se (calm ctx) h x =
      (case durable (calm ctx) stepName recall counted effect entry failed x of (r, x') \<Rightarrow> execute se (calm ctx) (k r) x')"
  shows "resumable se ctx h x x1"
proof (cases "crashed r")
  case True
  then have "x1 = x'"
    using ends k by (auto simp: passes_crash_def dest!: crashedD)
  moreover obtain r' where r': "durable (calm ctx) stepName recall counted effect entry failed x = (r', x')"
    "\<And>j y. ex_journal y = ex_journal x' @ j \<Longrightarrow>
       durable (calm ctx) stepName recall counted effect entry failed y = (replayed stepName r', y)"
    "(\<exists>v. r' = Inr v) \<or> (\<exists>n err. r' = Inl err \<and> effect n = Inl err \<and> failed err \<noteq> None)"
    and cap: "length (ex_journal x') \<le> ct_maxCommits ctx"
    by (rule crashing_step [OF effect run True]) (rule that)
  moreover have "k (replayed stepName r') = k r'"
    using r'(3) same by auto
  ultimately show ?thesis
    using journal_grows [OF effect run] execute_forget [of x' "forget x'" se ctx "k r'"]
    by (auto simp: resumable_def unfold forget_def)
next
  case False
  note IH [OF False, unfolded resumable_def]
  moreover from this obtain j where "ex_journal x1 = ex_journal x' @ j" "length (ex_journal x') \<le> ct_maxCommits ctx"
    by auto
  then have "durable (calm ctx) stepName recall counted effect entry failed (forget x1) = (replayed stepName r, forget x1)"
    using calm_step(3) [OF effect run False, of "forget x1" j] by (simp add: forget_def)
  moreover have "k (replayed stepName r) = k r"
    using calm_step(2) [OF effect run False] same by auto
  ultimately show ?thesis
    using journal_grows [OF effect run] calm_step(1) [OF effect run False]
    by (auto simp: resumable_def unfold)
qed

end


lemma crashed_resumable:
  "execute se ctx h x = (Inl e, x1) \<Longrightarrow> transparent se h \<Longrightarrow> crash_error e \<Longrightarrow> settling se \<Longrightarrow>
   resumable se ctx h x x1"
proof (induction h arbitrary: x)
  case (SpawnStep s i k)
  obtain r x' where run: "ctx_spawnAgentTask se ctx s i x = (r, x')" by fastforce
  show ?case
    by (rule spawn.resumable_step [OF settling_steps(1) [OF SpawnStep.prems(4)], where k = k])
      (use SpawnStep run in \<open>auto simp: ctx_steps\<close>)
next
  case (AwaitTaskStep s h k)
  obtain r x' where run: "ctx_awaitTask se ctx s h x = (r, x')" by fastforce
  show ?case
    by (rule await_task.resumable_step [OF settling_steps(2) [OF AwaitTaskStep.prems(4)], where k = k])
      (use AwaitTaskStep run in \<open>auto simp: ctx_steps elim!: task_failure.elims\<close>)
next
  case (SignalStep s i k)
  obtain r x' where run: "ctx_signal se ctx s i x = (r, x')" by fastforce
  show ?case
    by (rule signal.resumable_step [OF settling_steps(3) [OF SignalStep.prems(4)], where k = k])
      (use SignalStep run in \<open>auto simp: ctx_steps\<close>)
next
  case (AwaitSignalStep s i k)
  obtain r x' where run: "ctx_awaitSignal se ctx s i x = (r, x')" by fastforce
  show ?case
    by (rule await_signal.resumable_step [OF settling_steps(4) [OF AwaitSignalStep.prems(4)], where k = k])
      (use AwaitSignalStep run in \<open>auto simp: ctx_steps\<close>)
next
  case (SleepStep s ms k)
  obtain r x' where run: "ctx_sleep se ctx s ms x = (r, x')" by fastforce
  show ?case
    by (rule sleep.resumable_step [OF settling_steps(5) [OF SleepStep.prems(4)], where k = k])
      (use SleepStep run in \<open>auto simp: ctx_steps\<close>)
qed auto


text \<open>The crash can only come from a commit: an execution that is not asked to crash does not.\<close>

lemma calm_no_crash:
  "execute se (calm ctx) h x = (Inl e, x1) \<Longrightarrow> transparent se h \<Longrightarrow> settling se \<Longrightarrow> \<not> crash_error e"
proof (induction h arbitrary: x)
  case (SpawnStep s i k)
  then show ?case
    using spawn.calm_step_no_crash [OF settling_steps(1) [OF SpawnStep.prems(3)]]
    by (fastforce simp: ctx_steps split: prod.splits)
next
  case (AwaitTaskStep s h k)
  then show ?case
    using await_task.calm_step_no_crash [OF settling_steps(2) [OF AwaitTaskStep.prems(3)]]
    by (fastforce simp: ctx_steps split: prod.splits)
next
  case (SignalStep s i k)
  then show ?case
    using signal.calm_step_no_crash [OF settling_steps(3) [OF SignalStep.prems(3)]]
    by (fastforce simp: ctx_steps split: prod.splits)
next
  case (AwaitSignalStep s i k)
  then show ?case
    using await_signal.calm_step_no_crash [OF settling_steps(4) [OF AwaitSignalStep.prems(3)]]
    by (fastforce simp: ctx_steps split: prod.splits)
next
  case (SleepStep s ms k)
  then show ?case
    using sleep.calm_step_no_crash [OF settling_steps(5) [OF SleepStep.prems(3)]]
    by (fastforce simp: ctx_steps split: prod.splits)
qed auto

section \<open>Samples\<close>

text \<open>\<open>await\<close> without a \<open>try\<close>: what is thrown is thrown on.\<close>

definition awaited :: "('a \<Rightarrow> 'v handler) \<Rightarrow> workflow_error + 'a \<Rightarrow> 'v handler" where
  "awaited f r = (case r of Inl e \<Rightarrow> Raises e | Inr v \<Rightarrow> f v)"

lemma transparent_awaited [simp]:
  "passes_crash (awaited f)" "(\<forall>r. crashed r \<or> transparent se (awaited f r)) \<longleftrightarrow> (\<forall>v. transparent se (f v))"
  by (auto simp: passes_crash_def awaited_def crashed_def split: sum.splits)

definition no_input :: spawn_input where
  "no_input = \<lparr>si_agent = Some ''summarizer'', si_targetCapability = None, si_payload = None, si_inputs = None,
     si_idempotencyKey = None, si_runConfig = None, si_labels = None\<rparr>"

definition fan_out :: "(unit, string list) workflow" where
  "fan_out = \<lparr>wf_name = ''fanOut'', wf_run = (\<lambda>_ _ _.
     SpawnStep ''spawn-a'' no_input (awaited (\<lambda>a. SpawnStep ''spawn-b'' no_input (awaited (\<lambda>b.
       AwaitTaskStep ''await-a'' a (awaited (\<lambda>r. Returns [th_taskUid a, th_taskUid b, to_taskUid r])))))))\<rparr>"

definition sample_effects :: side_effects where
  "sample_effects =
     \<lparr>se_spawnAgentTask = (\<lambda>n _. Inr \<lparr>th_taskUid = replicate (n + 1) CHR ''t'', th_namespace = ''default'', th_name = ''task''\<rparr>),
      se_awaitTask = (\<lambda>_ h. Inr \<lparr>to_taskUid = th_taskUid h, to_outputs = []\<rparr>), se_signal = (\<lambda>_ _. Inr ()),
      se_awaitSignal = (\<lambda>_ w. Inl (TimeoutError (aw_topic w) 1000)), se_sleep = (\<lambda>_ _. Inr ())\<rparr>"

definition crash_after :: "nat \<Rightarrow> start_opts" where
  "crash_after k = \<lparr>op_crashAfterCommits = Some k, op_invocationId = Some ''wf-1'', op_maxCommits = None, op_capabilityRef = None\<rparr>"

lemma sample_settling: "settling sample_effects"
  by (simp add: settling_def sample_effects_def isl_def)

lemma sample_transparent: "transparent sample_effects (wf_run fan_out () cap iid)"
  by (simp add: fan_out_def)

definition crashed_run :: "(workflow_error + string list outcome) \<times> runner" where
  "crashed_run = start fan_out sample_effects ''wf-0'' () (crash_after 2) createInMemoryRunner"

lemma sample_crash: "fst crashed_run = Inr (WfCrashed ''wf-1'')"
  by code_simp

lemma sample_journal:
  "map_sum (\<lambda>_. ()) (map je_stepName) (journal ''wf-1'' (snd crashed_run)) = Inr [''spawn-a'', ''spawn-b'']"
  by code_simp

section \<open>The crash is invisible\<close>

text \<open>
  C9. A crash is invisible. The side effects come to outcomes a journal can hold, and the handler
  neither catches the crash nor tells a timeout from its replay. When the invocation has crashed
  after any number of commits, replaying it returns what the invocation would have returned without
  the crash, throws what it would have thrown, and leaves the same journal, the same counts and the
  same side effects issued: nothing is issued twice and nothing is missing.
\<close>

theorem crash_is_invisible:
  assumes "settling se"
    and "transparent se (wf_run flow input (op_capabilityRef opts) (js_or (op_invocationId opts) fresh))"
    and "start flow se fresh input opts rn = (Inr (WfCrashed iid), left)"
  shows "replay flow se iid input (op_capabilityRef opts) (op_maxCommits opts) left =
    map_prod (map_sum id wf_value) id (start flow se fresh input (opts\<lparr>op_crashAfterCommits := None\<rparr>) rn)"
proof -
  define i where "i = js_or (op_invocationId opts) fresh"
  define h where "h = wf_run flow input (op_capabilityRef opts) i"
  define ctx where "ctx = \<lparr>ct_invocationId = i, ct_crashAfterCommits = op_crashAfterCommits opts,
    ct_maxCommits = js_or (op_maxCommits opts) 1024\<rparr>"
  define x where "x = \<lparr>ex_journal = [], ex_commits = 0, ex_counts = rn_counts rn, ex_issued = rn_issued rn\<rparr>"
  obtain r x1 where run: "execute se ctx h x = (r, x1)" by fastforce
  obtain m where r: "r = Inl (SyntheticCrash m)" and iid: "iid = i"
    and left: "left = rn\<lparr>rn_states := AList.update i \<lparr>rs_invocationId = i, rs_journal = ex_journal x1, rs_completed = False\<rparr> (rn_states rn),
      rn_counts := ex_counts x1, rn_issued := ex_issued x1\<rparr>"
    using assms(3) run
    by (auto simp: start_def drive_def Let_def ctx_def [symmetric] x_def [symmetric] h_def [symmetric] i_def [symmetric]
        split: sum.splits workflow_error.splits)
  have same: "rel_prod (=) (\<lambda>x' y'. forget x' = forget y') (execute se (calm ctx) h x) (execute se (calm ctx) h (forget x1))"
    using crashed_resumable [of se ctx h x "SyntheticCrash m" x1] run r assms(1,2)
    by (simp add: h_def i_def resumable_def)
  then obtain r' y z where y: "execute se (calm ctx) h x = (r', y)" and z: "execute se (calm ctx) h (forget x1) = (r', z)"
    and yz: "forget y = forget z"
    by (cases "execute se (calm ctx) h x"; cases "execute se (calm ctx) h (forget x1)") auto
  have "\<not> crash_error e" if "r' = Inl e" for e
    using calm_no_crash y that assms(1,2) by (fastforce simp: h_def i_def)
  moreover have "calm ctx = \<lparr>ct_invocationId = i, ct_crashAfterCommits = None, ct_maxCommits = js_or (op_maxCommits opts) 1024\<rparr>"
    and "forget x1 = \<lparr>ex_journal = ex_journal x1, ex_commits = 0, ex_counts = ex_counts x1, ex_issued = ex_issued x1\<rparr>"
    by (simp_all add: calm_def ctx_def forget_def)
  ultimately show ?thesis
    using y z yz unfolding iid left
    by (cases r')
      (auto simp: start_def replay_def drive_def Let_def x_def h_def i_def [symmetric] update_conv' forget_eq
        split: workflow_error.splits)
qed


theorem crash_is_invisible_witness:
  "replay fan_out sample_effects ''wf-1'' () None None (snd crashed_run) =
    map_prod (map_sum id wf_value) id
      (start fan_out sample_effects ''wf-0'' () ((crash_after 2)\<lparr>op_crashAfterCommits := None\<rparr>) createInMemoryRunner)"
  using crash_is_invisible [OF sample_settling sample_transparent, where fresh = "''wf-0''" and opts = "crash_after 2"
      and rn = createInMemoryRunner and iid = "''wf-1''" and left = "snd crashed_run"] sample_crash
  by (cases crashed_run) (simp add: crashed_run_def crash_after_def)

text \<open>
  A handler that catches what a step throws, to fall back to a default, catches the crash as well and
  completes: the invocation that was to be replayed cannot be.
\<close>

definition falls_back :: "(unit, string) workflow" where
  "falls_back = \<lparr>wf_name = ''fallsBack'', wf_run = (\<lambda>_ _ _.
     SpawnStep ''spawn-a'' no_input (\<lambda>r. case r of Inl _ \<Rightarrow> Returns ''default'' | Inr _ \<Rightarrow> Returns ''spawned''))\<rparr>"

theorem caught_crash_completes:
  "fst (start falls_back sample_effects ''wf-0'' () (crash_after 1) createInMemoryRunner) = Inr (WfCompleted ''default'')"
  by code_simp

text \<open>
  The timeout of a signal is journaled without the name it carried, and a replay names it after the
  step: a handler that looks at the name takes another branch when it is replayed.
\<close>

definition tells_timeouts :: "(unit, string) workflow" where
  "tells_timeouts = \<lparr>wf_name = ''tells'', wf_run = (\<lambda>_ _ _.
     AwaitSignalStep ''wait'' \<lparr>aw_topic = ''approval'', aw_selector = None, aw_timeoutMs = None\<rparr>
       (\<lambda>r. case r of Inl (TimeoutError name _) \<Rightarrow> Returns name | Inl e \<Rightarrow> Raises e | Inr _ \<Rightarrow> Returns ''signal''))\<rparr>"

theorem replayed_timeout_renamed:
  "fst (start tells_timeouts sample_effects ''wf-0'' () ((crash_after 1)\<lparr>op_crashAfterCommits := None\<rparr>) createInMemoryRunner) =
     Inr (WfCompleted ''approval'')"
  "fst (replay tells_timeouts sample_effects ''wf-1'' () None None
     (snd (start tells_timeouts sample_effects ''wf-0'' () (crash_after 1) createInMemoryRunner))) = Inr ''wait''"
  by code_simp+

section \<open>Nothing is issued again\<close>

text \<open>The steps of an invocation whose outcome was committed, in the order in which they were issued.\<close>

definition settled_steps :: "string \<Rightarrow> issued_effect list \<Rightarrow> string list" where
  "settled_steps iid issued = map (\<lambda>(_, s, _). s) (filter (\<lambda>(i, _, c). i = iid \<and> c) issued)"

text \<open>No effect is issued once its outcome has been committed.\<close>

fun no_reissue :: "issued_effect list \<Rightarrow> bool" where
  "no_reissue [] = True"
| "no_reissue ((i, s, c) # xs) = ((c \<longrightarrow> (\<forall>(i', s', c') \<in> set xs. i' = i \<longrightarrow> s' \<noteq> s)) \<and> no_reissue xs)"

lemma settled_steps_append [simp]: "settled_steps i (xs @ ys) = settled_steps i xs @ settled_steps i ys"
  by (simp add: settled_steps_def)

lemma settled_steps_Cons [simp]:
  "settled_steps i [] = []" "settled_steps i ((i', s, c) # xs) = (if i' = i \<and> c then s # settled_steps i xs else settled_steps i xs)"
  by (simp_all add: settled_steps_def)

lemma in_settled_steps: "s \<in> set (settled_steps i xs) \<longleftrightarrow> (i, s, True) \<in> set xs"
  by (auto simp: settled_steps_def image_def)

lemma no_reissue_append [simp]: "no_reissue (xs @ [(i, s, c)]) \<longleftrightarrow> no_reissue xs \<and> (i, s, True) \<notin> set xs"
  by (induction xs rule: no_reissue.induct) auto

lemma mark_committed_append [simp]: "mark_committed (xs @ [(i, s, c)]) = xs @ [(i, s, True)]"
  by (simp add: mark_committed_def)

text \<open>The books of one execution: the settled effects of its invocation are its journal, the others are untouched.\<close>

definition keeps_books :: "run_context \<Rightarrow> execution \<Rightarrow> execution \<Rightarrow> bool" where
  "keeps_books ctx x x' \<longleftrightarrow>
     settled_steps (ct_invocationId ctx) (ex_issued x) = map je_stepName (ex_journal x) \<longrightarrow> no_reissue (ex_issued x) \<longrightarrow>
     settled_steps (ct_invocationId ctx) (ex_issued x') = map je_stepName (ex_journal x') \<and> no_reissue (ex_issued x') \<and>
     (\<forall>i. i \<noteq> ct_invocationId ctx \<longrightarrow> settled_steps i (ex_issued x') = settled_steps i (ex_issued x))"

lemma keeps_books_trans: "keeps_books ctx x y \<Longrightarrow> keeps_books ctx y z \<Longrightarrow> keeps_books ctx x z"
  by (auto simp: keeps_books_def)

lemma keeps_books_refl [simp]: "keeps_books ctx x x"
  by (simp add: keeps_books_def)

context durable_step
begin

lemma durable_books:
  "keeps_books ctx x (snd (durable ctx stepName recall counted effect entry failed x))"
proof (cases "findEntry stepName (ex_journal x)")
  case None
  then have "(ct_invocationId ctx, stepName, True) \<notin> set (ex_issued x)"
    if "settled_steps (ct_invocationId ctx) (ex_issued x) = map je_stepName (ex_journal x)"
    using that by (metis findEntry_None in_settled_steps set_map)
  then show ?thesis
    using None by (auto simp: keeps_books_def durable_def commit_def Let_def entry_name failed_name split: sum.splits option.splits)
qed (simp add: found)

end

lemma books_cont:
  assumes "keeps_books ctx x (snd p)" and "\<And>r x'. keeps_books ctx x' (snd (f r x'))"
  shows "keeps_books ctx x (snd (case p of (r, x') \<Rightarrow> f r x'))"
  using assms by (cases p) (auto intro: keeps_books_trans)

lemma execute_books: "keeps_books ctx x (snd (execute se ctx h x))"
proof (induction h arbitrary: x)
  case (SpawnStep s i k)
  then show ?case by (auto simp: ctx_steps intro!: books_cont spawn.durable_books)
next
  case (AwaitTaskStep s h k)
  then show ?case by (auto simp: ctx_steps intro!: books_cont await_task.durable_books)
next
  case (SignalStep s i k)
  then show ?case by (auto simp: ctx_steps intro!: books_cont signal.durable_books)
next
  case (AwaitSignalStep s i k)
  then show ?case by (auto simp: ctx_steps intro!: books_cont await_signal.durable_books)
next
  case (SleepStep s ms k)
  then show ?case by (auto simp: ctx_steps intro!: books_cont sleep.durable_books)
qed auto

definition journal_of :: "string \<Rightarrow> runner \<Rightarrow> journal_entry list" where
  "journal_of iid rn = (case map_of (rn_states rn) iid of None \<Rightarrow> [] | Some state \<Rightarrow> rs_journal state)"

definition runner_books :: "runner \<Rightarrow> bool" where
  "runner_books rn \<longleftrightarrow> no_reissue (rn_issued rn) \<and>
     (\<forall>iid. settled_steps iid (rn_issued rn) = map je_stepName (journal_of iid rn)) \<and>
     (\<forall>iid state. map_of (rn_states rn) iid = Some state \<longrightarrow> rs_invocationId state = iid)"

lemma runner_booksD:
  assumes "runner_books rn"
  shows "no_reissue (rn_issued rn)" and "settled_steps iid (rn_issued rn) = map je_stepName (journal_of iid rn)"
    and "map_of (rn_states rn) iid = Some state \<Longrightarrow> map_of (rn_states rn) (rs_invocationId state) = Some state"
  using assms by (simp_all add: runner_books_def)

lemma drive_books:
  assumes "runner_books rn" and "map_of (rn_states rn) (rs_invocationId state) = Some state"
  shows "runner_books (snd (drive flow se state input cap crash cap' rn))"
proof -
  define ctx where "ctx = \<lparr>ct_invocationId = rs_invocationId state, ct_crashAfterCommits = crash, ct_maxCommits = cap'\<rparr>"
  define x where "x = \<lparr>ex_journal = rs_journal state, ex_commits = 0, ex_counts = rn_counts rn, ex_issued = rn_issued rn\<rparr>"
  obtain r x' where run: "execute se ctx (wf_run flow input cap (rs_invocationId state)) x = (r, x')" by fastforce
  have "settled_steps (ct_invocationId ctx) (ex_issued x) = map je_stepName (ex_journal x)" "no_reissue (ex_issued x)"
    using runner_booksD(1) [OF assms(1)] runner_booksD(2) [OF assms(1), of "rs_invocationId state"] assms(2)
    by (simp_all add: journal_of_def ctx_def x_def)
  then have "settled_steps (ct_invocationId ctx) (ex_issued x') = map je_stepName (ex_journal x')" "no_reissue (ex_issued x')"
    "\<And>i. i \<noteq> ct_invocationId ctx \<Longrightarrow> settled_steps i (ex_issued x') = settled_steps i (ex_issued x)"
    using execute_books [of ctx x se "wf_run flow input cap (rs_invocationId state)"] run
    by (auto simp: keeps_books_def)
  moreover obtain s where "rn_issued (snd (drive flow se state input cap crash cap' rn)) = ex_issued x'"
    "rn_states (snd (drive flow se state input cap crash cap' rn)) = AList.update (rs_invocationId state) s (rn_states rn)"
    "rs_journal s = ex_journal x'" "rs_invocationId s = rs_invocationId state"
    by (rule that [of "state\<lparr>rs_journal := ex_journal x', rs_completed := (case r of Inr _ \<Rightarrow> True | Inl _ \<Rightarrow> rs_completed state)\<rparr>"])
      (use run in \<open>auto simp: drive_def Let_def ctx_def x_def split: sum.splits workflow_error.splits\<close>)
  moreover note runner_booksD(2) [OF assms(1)] assms(1) [unfolded runner_books_def, THEN conjunct2, THEN conjunct2]
  ultimately show ?thesis
    unfolding runner_books_def journal_of_def
    by (simp add: update_conv' ctx_def x_def)
qed

text \<open>
  The life of a runner: invocations are started under identifiers that are new to it, and replayed at
  any time; the world may answer each of them differently.
\<close>

inductive runner_step :: "('i, 'v) workflow \<Rightarrow> runner \<Rightarrow> runner \<Rightarrow> bool" for flow where
  started: "js_or (op_invocationId opts) fresh \<notin> fst ` set (rn_states rn) \<Longrightarrow>
     runner_step flow rn (snd (start flow se fresh input opts rn))"
| replays: "runner_step flow rn (snd (replay flow se iid input cap maxCommits rn))"

lemma replay_runner:
  "snd (replay flow se iid input cap maxCommits rn) =
     (case map_of (rn_states rn) iid of
        None \<Rightarrow> rn
      | Some state \<Rightarrow> if rs_completed state then rn else snd (drive flow se state input cap None (js_or maxCommits 1024) rn))"
  by (auto simp: replay_def split: option.splits prod.splits sum.splits outcome.splits)

lemma step_books: "runner_step flow rn rn' \<Longrightarrow> runner_books rn \<Longrightarrow> runner_books rn'"
proof (induction rule: runner_step.induct)
  case (started opts fresh rn se input)
  then show ?case
    unfolding start_def Let_def
    by (intro drive_books)
      (auto simp: runner_books_def journal_of_def update_conv' dest: map_of_eq_None_iff [THEN iffD2] split: if_splits)
next
  case (replays rn se iid input cap maxCommits)
  then show ?case
    by (auto simp: replay_runner split: option.splits intro!: drive_books dest: runner_booksD(3))
qed

lemma no_books: "runner_books createInMemoryRunner"
  by (simp add: createInMemoryRunner_def runner_books_def journal_of_def)

text \<open>
  C36. No side effect whose outcome was committed is issued again, whatever handlers catch, wherever
  they crash, however often they are replayed and whatever the effects answer: the effects of an
  invocation that settled are exactly the entries of its journal, in their order.
\<close>

theorem committed_effects_not_reissued:
  assumes "(runner_step flow)\<^sup>*\<^sup>* createInMemoryRunner rn" and "journal iid rn = Inr entries"
  shows "no_reissue (rn_issued rn) \<and> settled_steps iid (rn_issued rn) = map je_stepName entries"
proof -
  have "runner_books rn"
    using assms(1)
    by (induction rule: rtranclp_induct) (auto simp: no_books intro: step_books)
  then show ?thesis
    using assms(2) by (auto simp: runner_books_def journal_of_def journal_def split: option.splits)
qed


theorem committed_effects_not_reissued_witness:
  "no_reissue (rn_issued (snd crashed_run)) \<and>
   (\<exists>entries. journal ''wf-1'' (snd crashed_run) = Inr entries \<and>
     settled_steps ''wf-1'' (rn_issued (snd crashed_run)) = map je_stepName entries)"
proof -
  have "js_or (op_invocationId (crash_after 2)) ''wf-0'' \<notin> fst ` set (rn_states createInMemoryRunner)"
    by (simp add: createInMemoryRunner_def)
  from runner_step.started [OF this, of fan_out sample_effects "()"]
  have "(runner_step fan_out)\<^sup>*\<^sup>* createInMemoryRunner (snd crashed_run)"
    by (auto simp: crashed_run_def)
  moreover obtain entries where "journal ''wf-1'' (snd crashed_run) = Inr entries"
    using sample_journal by (cases "journal ''wf-1'' (snd crashed_run)") auto
  ultimately show ?thesis
    using committed_effects_not_reissued [of fan_out "snd crashed_run" "''wf-1''"] by blast
qed

end
