(* ===== verification/TemplateCandidate.thy ===== *)
theory TemplateCandidate
  imports Prelude
begin

text \<open>
  The validator of candidate templates, \<^verbatim>\<open>packages/dto/src/template-candidate.ts\<close>, over the JSON
  value the YAML parser returns. The parser and the printing of numbers are parameters.
\<close>

section \<open>Pieces\<close>

fun json_typeof :: "json \<Rightarrow> string" where
  "json_typeof JUndefined = ''undefined''"
| "json_typeof (JBool _) = ''boolean''"
| "json_typeof (JNum _) = ''number''"
| "json_typeof (JStr _) = ''string''"
| "json_typeof _ = ''object''"

text \<open>\<open>v[k]\<close> of a value that may be any object.\<close>

fun field :: "json \<Rightarrow> string \<Rightarrow> json" where
  "field (JObj kvs) k = obj_get kvs k"
| "field _ k = JUndefined"

definition KNOWN_PARAMETER_TYPES :: "string list" where
  "KNOWN_PARAMETER_TYPES = [''string'', ''integer'', ''toolSelection'']"

definition ascii_letter :: "char \<Rightarrow> bool" where
  "ascii_letter c = (let n = of_char c :: nat in 65 \<le> n \<and> n \<le> 90 \<or> 97 \<le> n \<and> n \<le> 122)"

definition ascii_digit :: "char \<Rightarrow> bool" where
  "ascii_digit c = (let n = of_char c :: nat in 48 \<le> n \<and> n \<le> 57)"

text \<open>The pattern \<^verbatim>\<open>/^[a-zA-Z][a-zA-Z0-9_]*$/\<close>.\<close>

fun parameter_name :: "string \<Rightarrow> bool" where
  "parameter_name [] = False"
| "parameter_name (c # cs) = (ascii_letter c \<and> list_all (\<lambda>d. ascii_letter d \<or> ascii_digit d \<or> d = CHR ''_'') cs)"

definition integer_within :: "rat \<Rightarrow> rat \<Rightarrow> json \<Rightarrow> bool" where
  "integer_within lo hi v = (case v of JNum (Fin q) \<Rightarrow> js_isInteger q \<and> lo \<le> q \<and> q \<le> hi | _ \<Rightarrow> False)"

definition rendered :: "(jsnum \<Rightarrow> string) \<Rightarrow> json \<Rightarrow> string" where
  "rendered num v = (case v of JNum n \<Rightarrow> num n | _ \<Rightarrow> json_typeof v)"

definition integerInRange :: "(jsnum \<Rightarrow> string) \<Rightarrow> json \<Rightarrow> string \<Rightarrow> nat \<Rightarrow> nat \<Rightarrow> string option" where
  "integerInRange num v name lo hi =
     (if v = JUndefined \<or> integer_within (of_nat lo) (of_nat hi) v then None
      else Some (''AgentTemplateSpec: '' @ name @ '' must be an integer in ['' @ string_of_nat lo @ '', '' @
        string_of_nat hi @ ''], got '' @ rendered num v))"

text \<open>The checks of a sequence of early returns, and of a loop over the entries of an array.\<close>

fun first_error :: "string option list \<Rightarrow> string option" where
  "first_error [] = None"
| "first_error (None # cs) = first_error cs"
| "first_error (Some e # cs) = Some e"

definition each_entry :: "(nat \<Rightarrow> json \<Rightarrow> string option) \<Rightarrow> json list \<Rightarrow> string option" where
  "each_entry check vs = first_error (map (\<lambda>(i, v). check i v) (enumerate 0 vs))"

definition declared :: "json \<Rightarrow> string \<Rightarrow> bool" where
  "declared agent k = (case field agent k of JStr s \<Rightarrow> js_trim s \<noteq> [] | _ \<Rightarrow> False)"

section \<open>The checks\<close>

definition agent_error :: "json \<Rightarrow> string option" where
  "agent_error agent =
     (if agent = JUndefined then Some ''AgentTemplateSpec: agentSpec is required''
      else
        (case agent of
           JObj _ \<Rightarrow>
             if \<not> declared agent ''model'' \<and> \<not> declared agent ''modelClass'' then
               Some ''AgentTemplateSpec: agentSpec must declare model or modelClass''
             else None
         | _ \<Rightarrow> Some ''AgentTemplateSpec: agentSpec must be a non-null object''))"

definition version_error :: "(jsnum \<Rightarrow> string) \<Rightarrow> json \<Rightarrow> string option" where
  "version_error num v =
     (if v = JUndefined then None
      else
        (case v of
           JNum (Fin q) \<Rightarrow>
             if js_isInteger q \<and> 1 \<le> q then None
             else Some (''AgentTemplateSpec: templateVersion must be a positive integer, got '' @ rendered num v)
         | _ \<Rightarrow> Some (''AgentTemplateSpec: templateVersion must be a positive integer, got '' @ rendered num v)))"

definition parameter_error :: "nat \<Rightarrow> json \<Rightarrow> string option" where
  "parameter_error i p =
     (let here = ''AgentTemplateSpec: parameters['' @ string_of_nat i @ '']'' in
      if json_typeof p \<noteq> ''object'' \<or> p = JNull then Some (here @ '' must be an object'')
      else
        (case field p ''name'' of
           JStr name \<Rightarrow>
             if js_trim name = [] then Some (here @ ''.name must be a non-empty string'')
             else if \<not> parameter_name name then Some (here @ ''.name must match pattern ^[a-zA-Z][a-zA-Z0-9_]*$'')
             else
               (case field p ''type'' of
                  JStr t \<Rightarrow>
                    if t \<in> set KNOWN_PARAMETER_TYPES then None
                    else Some (here @ ''.type '' @ [CHR 0x27] @ t @ [CHR 0x27] @ '' is not one of '' @ js_join '', '' KNOWN_PARAMETER_TYPES)
                | other \<Rightarrow>
                    Some (here @ ''.type '' @ [CHR 0x27] @ json_typeof other @ [CHR 0x27] @ '' is not one of '' @ js_join '', '' KNOWN_PARAMETER_TYPES))
         | _ \<Rightarrow> Some (here @ ''.name must be a non-empty string'')))"

definition parameters_error :: "json \<Rightarrow> string option" where
  "parameters_error v =
     (if v = JUndefined then None
      else (case v of JArr ps \<Rightarrow> each_entry parameter_error ps
            | _ \<Rightarrow> Some ''AgentTemplateSpec: parameters must be an array''))"

definition budget_error :: "(jsnum \<Rightarrow> string) \<Rightarrow> json \<Rightarrow> string option" where
  "budget_error num v =
     (if v = JUndefined then None
      else
        (case v of
           JObj budget \<Rightarrow>
             first_error
               [integerInRange num (obj_get budget ''maxIterations'') ''budget.maxIterations'' 1 1000,
                (case obj_get budget ''maxCostUsdPerRun'' of
                   JUndefined \<Rightarrow> None
                 | JNum (Fin q) \<Rightarrow>
                     if q < 0 then Some ''AgentTemplateSpec: budget.maxCostUsdPerRun must be a non-negative finite number''
                     else None
                 | _ \<Rightarrow> Some ''AgentTemplateSpec: budget.maxCostUsdPerRun must be a non-negative finite number''),
                integerInRange num (obj_get budget ''maxParallelInstances'') ''budget.maxParallelInstances'' 1 10000]
         | _ \<Rightarrow> Some ''AgentTemplateSpec: budget must be a non-null object''))"

definition string_entry_error :: "string \<Rightarrow> nat \<Rightarrow> json \<Rightarrow> string option" where
  "string_entry_error name i v =
     (if json_typeof v = ''string'' then None
      else Some (''AgentTemplateSpec: '' @ name @ ''['' @ string_of_nat i @ ''] must be a string''))"

definition strings_error :: "string \<Rightarrow> json \<Rightarrow> string option" where
  "strings_error name v =
     (if v = JUndefined then None
      else (case v of JArr vs \<Rightarrow> each_entry (string_entry_error name) vs
            | _ \<Rightarrow> Some (''AgentTemplateSpec: '' @ name @ '' must be an array'')))"

fun str_of :: "json \<Rightarrow> string" where
  "str_of (JStr s) = s"
| "str_of _ = []"

definition subset_error :: "json \<Rightarrow> json \<Rightarrow> string option" where
  "subset_error defaults allowlist =
     (case (defaults, allowlist) of
        (JArr ds, JArr allowed) \<Rightarrow>
          (let missing = filter (\<lambda>tool. tool \<notin> set allowed) ds in
           if missing \<noteq> [] then
             Some (''AgentTemplateSpec: toolDefaults must be a subset of toolAllowlist; missing '' @
               js_join '', '' (map str_of missing))
           else None)
      | _ \<Rightarrow> None)"

definition template_error :: "(jsnum \<Rightarrow> string) \<Rightarrow> (string \<times> json) list \<Rightarrow> string option" where
  "template_error num doc =
     first_error
       [agent_error (obj_get doc ''agentSpec''), version_error num (obj_get doc ''templateVersion''),
        integerInRange num (obj_get doc ''revisionHistoryLimit'') ''revisionHistoryLimit'' 1 1000,
        integerInRange num (obj_get doc ''idleTtlSeconds'') ''idleTtlSeconds'' 60 86400,
        parameters_error (obj_get doc ''parameters''), budget_error num (obj_get doc ''budget''),
        strings_error ''toolAllowlist'' (obj_get doc ''toolAllowlist''),
        strings_error ''toolDefaults'' (obj_get doc ''toolDefaults''),
        subset_error (obj_get doc ''toolDefaults'') (obj_get doc ''toolAllowlist'')]"

definition parseAgentTemplateSpec ::
  "(jsnum \<Rightarrow> string) \<Rightarrow> (string \<Rightarrow> string + json) \<Rightarrow> string \<Rightarrow> string + json" where
  "parseAgentTemplateSpec num parseYaml yaml =
     (case parseYaml yaml of
        Inl message \<Rightarrow> Inl (''YAML parse error: '' @ message)
      | Inr (JObj doc) \<Rightarrow> (case template_error num doc of Some e \<Rightarrow> Inl e | None \<Rightarrow> Inr (JObj doc))
      | Inr JNull \<Rightarrow> Inl ''AgentTemplateSpec: root must be a non-null object, got null''
      | Inr (JArr _) \<Rightarrow> Inl ''AgentTemplateSpec: root must be a non-null object, got array''
      | Inr v \<Rightarrow> Inl (''AgentTemplateSpec: root must be a non-null object, got '' @ json_typeof v))"

section \<open>What an accepted template is\<close>

lemma first_error_None [simp]: "first_error cs = None \<longleftrightarrow> (\<forall>c \<in> set cs. c = None)"
  by (induction cs rule: first_error.induct) auto

lemma each_entry_None: "each_entry check vs = None \<longleftrightarrow> (\<forall>i < length vs. check i (vs ! i) = None)"
  by (auto simp: each_entry_def all_set_conv_all_nth nth_enumerate_eq)

lemma integerInRange_None:
  "integerInRange num v name lo hi = None \<longleftrightarrow> v = JUndefined \<or> integer_within (of_nat lo) (of_nat hi) v"
  by (simp add: integerInRange_def)

definition optional_integer :: "nat \<Rightarrow> nat \<Rightarrow> json \<Rightarrow> bool" where
  "optional_integer lo hi v \<longleftrightarrow> v = JUndefined \<or> integer_within (of_nat lo) (of_nat hi) v"

text \<open>The shape the custom resource asks for, by fields.\<close>

definition good_parameter :: "json \<Rightarrow> bool" where
  "good_parameter p \<longleftrightarrow> (\<exists>kvs name t. p = JObj kvs \<and> obj_get kvs ''name'' = JStr name \<and> parameter_name name \<and>
     obj_get kvs ''type'' = JStr t \<and> t \<in> set KNOWN_PARAMETER_TYPES)"

lemma parameter_name_not_blank: "parameter_name name \<Longrightarrow> js_trim name \<noteq> []"
proof -
  assume "parameter_name name"
  then obtain c cs where name: "name = c # cs" and c: "ascii_letter c"
    by (cases name) auto
  from c have "\<not> js_space c"
    by (auto simp: ascii_letter_def js_space_def Let_def)
  then have "dropWhile js_space name = c # cs" and "dropWhile js_space (rev (c # cs)) \<noteq> []"
    by (auto simp: name dropWhile_eq_Nil_conv)
  then show ?thesis by (simp add: js_trim_def)
qed

lemma parameter_error_None: "parameter_error i p = None \<longleftrightarrow> good_parameter p"
  by (cases p) (auto simp: parameter_error_def good_parameter_def Let_def parameter_name_not_blank obj_get_def
      split: json.splits if_splits)

definition strings_within :: "json \<Rightarrow> string list option \<Rightarrow> bool" where
  "strings_within v ss \<longleftrightarrow> (case ss of None \<Rightarrow> v = JUndefined | Some ss \<Rightarrow> v = JArr (map JStr ss))"

lemma strings_error_None: "strings_error name v = None \<longleftrightarrow> (\<exists>ss. strings_within v ss)"
proof (cases v)
  case (JArr vs)
  have "(\<forall>i < length vs. json_typeof (vs ! i) = ''string'') \<longleftrightarrow> (\<exists>ss. vs = map JStr ss)"
  proof
    assume "\<forall>i < length vs. json_typeof (vs ! i) = ''string''"
    then have "vs = map JStr (map str_of vs)"
      by (intro nth_equalityI) (auto elim!: json_typeof.elims)
    then show "\<exists>ss. vs = map JStr ss" by blast
  qed auto
  then show ?thesis
    using JArr by (auto simp: strings_error_def each_entry_None string_entry_error_def strings_within_def split: option.splits)
qed (auto simp: strings_error_def strings_within_def split: option.splits)


text \<open>A template the custom resource takes.\<close>

definition good_template :: "(string \<times> json) list \<Rightarrow> bool" where
  "good_template doc \<longleftrightarrow>
     (\<exists>agent. obj_get doc ''agentSpec'' = JObj agent \<and> (declared (JObj agent) ''model'' \<or> declared (JObj agent) ''modelClass'')) \<and>
     (obj_get doc ''templateVersion'' = JUndefined \<or>
        (\<exists>q. obj_get doc ''templateVersion'' = JNum (Fin q) \<and> js_isInteger q \<and> 1 \<le> q)) \<and>
     optional_integer 1 1000 (obj_get doc ''revisionHistoryLimit'') \<and>
     optional_integer 60 86400 (obj_get doc ''idleTtlSeconds'') \<and>
     (obj_get doc ''parameters'' = JUndefined \<or>
        (\<exists>ps. obj_get doc ''parameters'' = JArr ps \<and> (\<forall>p \<in> set ps. good_parameter p))) \<and>
     (obj_get doc ''budget'' = JUndefined \<or>
        (\<exists>b. obj_get doc ''budget'' = JObj b \<and> optional_integer 1 1000 (obj_get b ''maxIterations'') \<and>
           (obj_get b ''maxCostUsdPerRun'' = JUndefined \<or> (\<exists>q \<ge> 0. obj_get b ''maxCostUsdPerRun'' = JNum (Fin q))) \<and>
           optional_integer 1 10000 (obj_get b ''maxParallelInstances''))) \<and>
     (\<exists>allowed defaults. strings_within (obj_get doc ''toolAllowlist'') allowed \<and>
        strings_within (obj_get doc ''toolDefaults'') defaults \<and>
        (case (defaults, allowed) of (Some ds, Some as) \<Rightarrow> set ds \<subseteq> set as | _ \<Rightarrow> True))"

lemma agent_error_None:
  "agent_error v = None \<longleftrightarrow> (\<exists>agent. v = JObj agent \<and> (declared (JObj agent) ''model'' \<or> declared (JObj agent) ''modelClass''))"
  by (cases v) (auto simp: agent_error_def)

lemma version_error_None:
  "version_error num v = None \<longleftrightarrow> v = JUndefined \<or> (\<exists>q. v = JNum (Fin q) \<and> js_isInteger q \<and> 1 \<le> q)"
  by (auto simp: version_error_def split: json.splits jsnum.splits)

lemma parameters_error_None:
  "parameters_error v = None \<longleftrightarrow> v = JUndefined \<or> (\<exists>ps. v = JArr ps \<and> (\<forall>p \<in> set ps. good_parameter p))"
  by (cases v) (auto simp: parameters_error_def each_entry_None parameter_error_None all_set_conv_all_nth)

lemma budget_error_None:
  "budget_error num v = None \<longleftrightarrow> v = JUndefined \<or>
     (\<exists>b. v = JObj b \<and> optional_integer 1 1000 (obj_get b ''maxIterations'') \<and>
        (obj_get b ''maxCostUsdPerRun'' = JUndefined \<or> (\<exists>q \<ge> 0. obj_get b ''maxCostUsdPerRun'' = JNum (Fin q))) \<and>
        optional_integer 1 10000 (obj_get b ''maxParallelInstances''))"
  by (cases v) (auto simp: budget_error_def integerInRange_None optional_integer_def split: json.splits jsnum.splits if_splits)

lemma subset_error_None:
  assumes "strings_within a allowed" and "strings_within d defaults"
  shows "subset_error d a = None \<longleftrightarrow> (case (defaults, allowed) of (Some ds, Some as) \<Rightarrow> set ds \<subseteq> set as | _ \<Rightarrow> True)"
  using assms by (auto simp: strings_within_def subset_error_def Let_def filter_empty_conv split: option.splits)

lemma template_error_None: "template_error num doc = None \<longleftrightarrow> good_template doc"
proof -
  have "template_error num doc = None \<longleftrightarrow>
    agent_error (obj_get doc ''agentSpec'') = None \<and> version_error num (obj_get doc ''templateVersion'') = None \<and>
    optional_integer 1 1000 (obj_get doc ''revisionHistoryLimit'') \<and> optional_integer 60 86400 (obj_get doc ''idleTtlSeconds'') \<and>
    parameters_error (obj_get doc ''parameters'') = None \<and> budget_error num (obj_get doc ''budget'') = None \<and>
    (\<exists>allowed defaults. strings_within (obj_get doc ''toolAllowlist'') allowed \<and>
        strings_within (obj_get doc ''toolDefaults'') defaults \<and>
        subset_error (obj_get doc ''toolDefaults'') (obj_get doc ''toolAllowlist'') = None)"
    by (auto simp: template_error_def integerInRange_None optional_integer_def strings_error_None)
  also have "\<dots> \<longleftrightarrow> good_template doc"
    unfolding good_template_def agent_error_None version_error_None parameters_error_None budget_error_None
    using subset_error_None by blast
  finally show ?thesis .
qed

lemma accepted_template:
  assumes "parseAgentTemplateSpec num parseYaml yaml = Inr spec"
  obtains doc where "spec = JObj doc" "good_template doc" "parseYaml yaml = Inr spec"
  using assms by (auto simp: parseAgentTemplateSpec_def template_error_None split: sum.splits json.splits option.splits)

end
