(* ===== verification/ReviewQueue.thy ===== *)
theory ReviewQueue
  imports TemplateCandidate Crds StatusTransitions "HOL-Library.Multiset"
begin

text \<open>
  The review queue of the workbench, read side (\<^verbatim>\<open>packages/workbench-api/src/routes/review-queue.ts\<close>):
  which task is in the queue and why, its template candidate, the listing, and the listing of accepted
  candidates. \<open>Date.parse\<close>, the printing of dates, the digest, base64, \<open>localeCompare\<close> and the artifact
  store are parameters. The trace link of a row is left out.
\<close>

section \<open>Tasks and rows\<close>

definition REVIEW_DECISION :: string where "REVIEW_DECISION = ''kagent.knuteson.io/review-decision''"
definition REVIEW_DECIDED_BY :: string where "REVIEW_DECIDED_BY = ''kagent.knuteson.io/review-decided-by''"
definition REVIEW_DECIDED_AT :: string where "REVIEW_DECIDED_AT = ''kagent.knuteson.io/review-decided-at''"
definition REVIEW_REQUESTED :: string where "REVIEW_REQUESTED = ''kagent.knuteson.io/review-requested''"
definition REVIEW_REQUESTED_BY :: string where "REVIEW_REQUESTED_BY = ''kagent.knuteson.io/review-requested-by''"
definition REVIEW_REQUESTED_AT :: string where "REVIEW_REQUESTED_AT = ''kagent.knuteson.io/review-requested-at''"
definition TEMPLATE_CANDIDATE :: string where "TEMPLATE_CANDIDATE = ''kagent.knuteson.io/template-candidate''"
definition PROPOSED_TEMPLATE_NAME :: string where
  "PROPOSED_TEMPLATE_NAME = ''kagent.knuteson.io/proposed-template-name''"
definition TEMPLATE_CANDIDATE_MEDIA_TYPE :: string where
  "TEMPLATE_CANDIDATE_MEDIA_TYPE = ''application/x-kagent-template-candidate+yaml''"

lemmas annotation_names =
  REVIEW_DECISION_def REVIEW_DECIDED_BY_def REVIEW_DECIDED_AT_def REVIEW_REQUESTED_def REVIEW_REQUESTED_BY_def
  REVIEW_REQUESTED_AT_def TEMPLATE_CANDIDATE_def PROPOSED_TEMPLATE_NAME_def

record verification =
  vf_passed :: "bool option"
  vf_reason :: "string option"
  vf_completedAt :: "string option"

text \<open>What the review queue and the collector of finished tasks read of a task.\<close>

record review_task =
  rt_namespace :: "string option"
  rt_name :: "string option"
  rt_uid :: "string option"
  rt_creationTimestamp :: "string option"
  rt_annotations :: "(string \<times> string) list option"
  rt_ownerReferences :: "owner_ref list option"
  rt_targetAgent :: "string option"
  rt_phase :: "phase option"
  rt_completedAt :: "string option"
  rt_verification :: "verification option"
  rt_suspicious :: "string list option"
  rt_artifacts :: "json option"

definition annotation :: "review_task \<Rightarrow> string \<Rightarrow> string option" where
  "annotation t k = map_of (or_empty (rt_annotations t)) k"

record artifact_ref =
  ar_uri :: string
  ar_mediaType :: "string option"
  ar_name :: "string option"
  ar_sizeBytes :: "jsnum option"
  ar_checksum :: "string option"
  ar_producedAt :: "string option"
  ar_payloadBase64 :: "string option"

fun json_string :: "json \<Rightarrow> string option" where
  "json_string (JStr s) = Some s"
| "json_string _ = None"

fun json_number :: "json \<Rightarrow> jsnum option" where
  "json_number (JNum n) = Some n"
| "json_number _ = None"

definition projectCandidateArtifact :: "json \<Rightarrow> artifact_ref option" where
  "projectCandidateArtifact a =
     (if field a ''mediaType'' \<noteq> JStr TEMPLATE_CANDIDATE_MEDIA_TYPE then None
      else
        (case field a ''uri'' of
           JStr uri \<Rightarrow>
             Some \<lparr>ar_uri = uri, ar_mediaType = json_string (field a ''mediaType''), ar_name = json_string (field a ''name''),
                   ar_sizeBytes = json_number (field a ''sizeBytes''), ar_checksum = json_string (field a ''checksum''),
                   ar_producedAt = json_string (field a ''producedAt''),
                   ar_payloadBase64 = json_string (field a ''payloadBase64'')\<rparr>
         | _ \<Rightarrow> None))"

fun json_array :: "json option \<Rightarrow> json list" where
  "json_array (Some (JArr vs)) = vs"
| "json_array _ = []"

definition findCandidateArtifacts :: "review_task \<Rightarrow> artifact_ref list" where
  "findCandidateArtifacts t = List.map_filter projectCandidateArtifact (json_array (rt_artifacts t))"

definition findCandidateArtifact :: "review_task \<Rightarrow> artifact_ref option" where
  "findCandidateArtifact t = (case findCandidateArtifacts t of [] \<Rightarrow> None | a # _ \<Rightarrow> Some a)"

definition finalCandidateArtifact :: "review_task \<Rightarrow> artifact_ref option" where
  "finalCandidateArtifact t =
     Option.bind (find (\<lambda>v. field v ''mediaType'' = JStr TEMPLATE_CANDIDATE_MEDIA_TYPE) (rev (json_array (rt_artifacts t))))
       projectCandidateArtifact"

datatype review_reason = VerifierFailed | SuspiciousDetector | HumanReviewRequested | CandidateTemplate

record template_candidate =
  tc_artifactRef :: artifact_ref
  tc_proposedTemplateName :: string
  tc_proposedNamespace :: string

record task_ref =
  tr_namespace :: string
  tr_name :: string
  tr_uid :: string

record queue_row =
  qr_taskRef :: task_ref
  qr_reason :: review_reason
  qr_reasonDetail :: string
  qr_enqueuedAt :: string
  qr_stalenessSeconds :: "int option"
  qr_phase :: phase
  qr_suspicious :: "string list option"
  qr_targetAgent :: "string option"
  qr_verifierError :: "string option"
  qr_artifactCount :: "nat option"
  qr_candidateTemplate :: "template_candidate option"

record review_deps =
  rd_date :: "string \<Rightarrow> js_time"
  rd_iso :: "int \<Rightarrow> string"
  rd_readArtifact :: "(string \<Rightarrow> string option) option"
  rd_base64 :: "string \<Rightarrow> string"
  rd_sha256 :: "string \<Rightarrow> string"
  rd_yaml :: "string \<Rightarrow> string + json"
  rd_num :: "jsnum \<Rightarrow> string"
  rd_localeCompare :: "string \<Rightarrow> string \<Rightarrow> int"
  rd_reviewToken :: "string option"
  rd_customApi :: bool
  rd_audit :: bool

section \<open>Classification\<close>

text \<open>\<open>None\<close> is \<open>NaN\<close>, for a date that does not parse.\<close>

definition computeStaleness :: "review_deps \<Rightarrow> int \<Rightarrow> string \<Rightarrow> int option" where
  "computeStaleness deps nowMs enqueuedAt =
     (case rd_date deps enqueuedAt of BadTime \<Rightarrow> None | At t \<Rightarrow> Some (max 0 ((nowMs - t) div 1000)))"

definition candidate_template :: "review_task \<Rightarrow> template_candidate option" where
  "candidate_template t =
     (let candidate =
        (if annotation t TEMPLATE_CANDIDATE = Some ''true'' \<and> (rt_phase t = Some PhCompleted \<or> rt_phase t = Some PhFailed)
         then findCandidateArtifact t else None)
      in map_option (\<lambda>a. \<lparr>tc_artifactRef = a,
           tc_proposedTemplateName = js_or (annotation t PROPOSED_TEMPLATE_NAME) (js_or (rt_name t) [] @ ''-template''),
           tc_proposedNamespace = js_or (rt_namespace t) ''default''\<rparr>) candidate)"

definition queue_row_of ::
  "review_deps \<Rightarrow> int \<Rightarrow> review_task \<Rightarrow> review_reason \<Rightarrow> string \<Rightarrow> string \<Rightarrow> queue_row" where
  "queue_row_of deps nowMs t reason detail enqueuedAt =
     \<lparr>qr_taskRef = \<lparr>tr_namespace = js_or (rt_namespace t) ''default'', tr_name = js_or (rt_name t) [], tr_uid = js_or (rt_uid t) []\<rparr>,
      qr_reason = reason, qr_reasonDetail = detail, qr_enqueuedAt = enqueuedAt,
      qr_stalenessSeconds = computeStaleness deps nowMs enqueuedAt, qr_phase = js_or (rt_phase t) PhPending,
      qr_suspicious = (if reason = SuspiciousDetector then rt_suspicious t else None),
      qr_targetAgent = rt_targetAgent t,
      qr_verifierError = (if reason = VerifierFailed then Option.bind (rt_verification t) vf_reason else None),
      qr_artifactCount = (let n = length (json_array (rt_artifacts t)) in if n > 0 then Some n else None),
      qr_candidateTemplate = candidate_template t\<rparr>"

definition verifier_failed :: "review_task \<Rightarrow> bool" where
  "verifier_failed t \<longleftrightarrow> Option.bind (rt_verification t) vf_passed = Some False"

definition classifyTask :: "review_deps \<Rightarrow> review_task \<Rightarrow> int \<Rightarrow> queue_row option" where
  "classifyTask deps t nowMs =
     (let nowIso = rd_iso deps nowMs;
          created = js_or (rt_creationTimestamp t) nowIso;
          fallback = js_or (rt_completedAt t) created;
          row = queue_row_of deps nowMs t
      in
      if verifier_failed t then
        Some (row VerifierFailed (js_or (Option.bind (rt_verification t) vf_reason) ''verifier failed'')
          (js_or (Option.bind (rt_verification t) vf_completedAt) fallback))
      else if or_empty (rt_suspicious t) \<noteq> [] then
        Some (row SuspiciousDetector (js_join '', '' (or_empty (rt_suspicious t))) fallback)
      else if annotation t REVIEW_REQUESTED = Some ''true'' then
        Some (row HumanReviewRequested (''requested by '' @ js_or (annotation t REVIEW_REQUESTED_BY) ''unknown'')
          (js_or (annotation t REVIEW_REQUESTED_AT) created))
      else
        map_option (\<lambda>c. row CandidateTemplate (tc_proposedTemplateName c @ '' (candidate)'') fallback) (candidate_template t))"

section \<open>Accepted candidates\<close>

definition completedAt :: "review_deps \<Rightarrow> review_task \<Rightarrow> int option" where
  "completedAt deps t =
     (if rt_phase t \<noteq> Some PhCompleted \<and> rt_phase t \<noteq> Some PhFailed then None
      else
        (case rt_completedAt t of
           None \<Rightarrow> None
         | Some value \<Rightarrow> (case rd_date deps value of At ts \<Rightarrow> Some ts | BadTime \<Rightarrow> None)))"

definition admittedArtifactTime :: "review_deps \<Rightarrow> review_task \<Rightarrow> artifact_ref \<Rightarrow> bool" where
  "admittedArtifactTime deps t artifact \<longleftrightarrow>
     (case (completedAt deps t, rd_date deps (js_or (annotation t REVIEW_DECIDED_AT) []), rd_date deps (js_or (ar_producedAt artifact) [])) of
        (Some ended, At decided, At produced) \<Rightarrow> rt_phase t = Some PhCompleted \<and> produced \<le> ended \<and> ended \<le> decided
      | _ \<Rightarrow> False)"

definition artifactChecksum :: "review_deps \<Rightarrow> string \<Rightarrow> string" where
  "artifactChecksum deps yaml = ''sha256:'' @ rd_sha256 deps yaml"

text \<open>The bytes of an artifact; \<open>None\<close> where reading them throws.\<close>

definition candidateYaml :: "review_deps \<Rightarrow> artifact_ref \<Rightarrow> string option" where
  "candidateYaml deps artifact =
     (case rd_readArtifact deps of
        Some read \<Rightarrow> read (ar_uri artifact)
      | None \<Rightarrow> map_option (rd_base64 deps) (ar_payloadBase64 artifact))"

definition parse_spec :: "review_deps \<Rightarrow> string \<Rightarrow> string + json" where
  "parse_spec deps = parseAgentTemplateSpec (rd_num deps) (rd_yaml deps)"

text \<open>\<open>Array.prototype.sort\<close>, which is stable, with a consistent comparison.\<close>

fun sort_in :: "('a \<Rightarrow> 'a \<Rightarrow> int) \<Rightarrow> 'a \<Rightarrow> 'a list \<Rightarrow> 'a list" where
  "sort_in compare x [] = [x]"
| "sort_in compare x (y # ys) = (if compare x y \<le> 0 then x # y # ys else y # sort_in compare x ys)"

definition js_sort :: "('a \<Rightarrow> 'a \<Rightarrow> int) \<Rightarrow> 'a list \<Rightarrow> 'a list" where
  "js_sort compare xs = foldr (sort_in compare) xs []"

definition dns_label :: "string \<Rightarrow> bool" where
  "dns_label s \<longleftrightarrow>
     (let alnum = (\<lambda>c. ascii_digit c \<or> (let n = of_char c :: nat in 97 \<le> n \<and> n \<le> 122)) in
      s \<noteq> [] \<and> length s \<le> 63 \<and> alnum (hd s) \<and> alnum (last s) \<and> list_all (\<lambda>c. alnum c \<or> c = CHR ''-'') s)"

definition accepted_for :: "string \<Rightarrow> review_task \<Rightarrow> bool" where
  "accepted_for template t \<longleftrightarrow> annotation t REVIEW_DECISION = Some ''accepted'' \<and> rt_phase t = Some PhCompleted \<and>
     (annotation t PROPOSED_TEMPLATE_NAME = Some template \<or>
      Option.bind (finalCandidateArtifact t) ar_name = Some template)"

definition newest_first :: "review_deps \<Rightarrow> review_task \<Rightarrow> review_task \<Rightarrow> int" where
  "newest_first deps a b =
     (let d = js_or (completedAt deps b) 0 - js_or (completedAt deps a) 0 in
      if d \<noteq> 0 then d else rd_localeCompare deps (js_or (rt_name a) []) (js_or (rt_name b) []))"

definition accepted_row :: "review_deps \<Rightarrow> int \<Rightarrow> string \<Rightarrow> review_task \<Rightarrow> queue_row option" where
  "accepted_row deps nowMs template t =
     (case finalCandidateArtifact t of
        None \<Rightarrow> None
      | Some final \<Rightarrow>
          if ar_name final \<noteq> Some template \<or> \<not> admittedArtifactTime deps t final then None
          else
            (case candidateYaml deps final of
               None \<Rightarrow> None
             | Some yaml \<Rightarrow>
                 (let checksum = artifactChecksum deps yaml in
                  if ar_checksum final \<noteq> None \<and> ar_checksum final \<noteq> Some checksum then None
                  else if isl (parse_spec deps yaml) then None
                  else
                    (case classifyTask deps t nowMs of
                       None \<Rightarrow> None
                     | Some row \<Rightarrow>
                         (case qr_candidateTemplate row of
                            None \<Rightarrow> None
                          | Some c \<Rightarrow>
                              if tr_name (qr_taskRef row) = [] \<or> tr_uid (qr_taskRef row) = [] then None
                              else
                                Some (row\<lparr>qr_candidateTemplate :=
                                  Some (c\<lparr>tc_artifactRef := final\<lparr>ar_checksum := Some checksum\<rparr>,
                                          tc_proposedTemplateName := template\<rparr>)\<rparr>))))))"

text \<open>The loop over the matching tasks: only the newest one must be available.\<close>

fun accepted_rows :: "review_deps \<Rightarrow> int \<Rightarrow> string \<Rightarrow> nat \<Rightarrow> review_task list \<Rightarrow> queue_row list option" where
  "accepted_rows deps nowMs template index [] = Some []"
| "accepted_rows deps nowMs template index (t # ts) =
     (case accepted_row deps nowMs template t of
        Some row \<Rightarrow> map_option (Cons row) (accepted_rows deps nowMs template (index + 1) ts)
      | None \<Rightarrow> if index = 0 then None else accepted_rows deps nowMs template (index + 1) ts)"

section \<open>The listing\<close>

definition ACCEPTED_DISCOVERY_LIMIT :: nat where "ACCEPTED_DISCOVERY_LIMIT = 100"

datatype listing = Queue "queue_row list" | AcceptedQueue "queue_row list" bool | ListingRefused nat string

text \<open>
  The rows of undecided tasks, before they are sorted. Where the age of a row is not a number the
  comparison is not consistent and the order is the engine's, \<open>order\<close>.
\<close>

definition queue_items :: "review_deps \<Rightarrow> int \<Rightarrow> bool \<Rightarrow> review_task list \<Rightarrow> queue_row list" where
  "queue_items deps nowMs candidatesOnly tasks =
     List.map_filter (\<lambda>t.
       if annotation t REVIEW_DECISION \<noteq> None then None
       else
         (case classifyTask deps t nowMs of
            None \<Rightarrow> None
          | Some row \<Rightarrow> if \<not> candidatesOnly \<or> qr_candidateTemplate row \<noteq> None then Some row else None)) tasks"

definition oldest_first :: "queue_row \<Rightarrow> queue_row \<Rightarrow> int" where
  "oldest_first a b = js_or (qr_stalenessSeconds b) 0 - js_or (qr_stalenessSeconds a) 0"

definition sorted_items :: "(queue_row list \<Rightarrow> queue_row list) \<Rightarrow> queue_row list \<Rightarrow> queue_row list" where
  "sorted_items order items =
     (if list_all (\<lambda>r. qr_stalenessSeconds r \<noteq> None) items then js_sort oldest_first items else order items)"

definition reviewQueue ::
  "review_deps \<Rightarrow> (queue_row list \<Rightarrow> queue_row list) \<Rightarrow> int \<Rightarrow> review_task list \<Rightarrow> string option \<Rightarrow> string list \<Rightarrow> listing" where
  "reviewQueue deps order nowMs tasks candidates acceptedForTemplate =
     (let candidatesOnly = candidates = Some ''true'' in
      case acceptedForTemplate of
        [] \<Rightarrow> Queue (sorted_items order (queue_items deps nowMs candidatesOnly tasks))
      | template # others \<Rightarrow>
          if \<not> candidatesOnly \<or> others \<noteq> [] \<or> \<not> dns_label template then
            ListingRefused 400 ''acceptedForTemplate requires candidates=true and a DNS template name''
          else
            (let matching = filter (accepted_for template) tasks in
             if list_ex (\<lambda>t. completedAt deps t = None) matching then
               ListingRefused 409 ''accepted candidate completion unavailable''
             else
               (let matching = js_sort (newest_first deps) matching in
                if length matching > 1 \<and> completedAt deps (matching ! 0) = completedAt deps (matching ! 1) then
                  ListingRefused 409 ''latest accepted candidate completion is ambiguous''
                else
                  (case accepted_rows deps nowMs template 0 (take ACCEPTED_DISCOVERY_LIMIT matching) of
                     None \<Rightarrow> ListingRefused 409 ''latest accepted final candidate unavailable''
                   | Some rows \<Rightarrow> AcceptedQueue rows (length matching > ACCEPTED_DISCOVERY_LIMIT)))))"

section \<open>Who is in the queue\<close>

lemma annotation_eqs [simp]:
  "REVIEW_DECISION \<noteq> TEMPLATE_CANDIDATE" "REVIEW_DECISION \<noteq> REVIEW_REQUESTED" "TEMPLATE_CANDIDATE \<noteq> REVIEW_REQUESTED"
  by (simp_all add: annotation_names)

lemma classify_Some:
  "classifyTask deps t nowMs \<noteq> None \<longleftrightarrow> verifier_failed t \<or> or_empty (rt_suspicious t) \<noteq> [] \<or>
     annotation t REVIEW_REQUESTED = Some ''true'' \<or> candidate_template t \<noteq> None"
  by (simp add: classifyTask_def Let_def)

lemma classify_candidate: "classifyTask deps t nowMs = Some row \<Longrightarrow> qr_candidateTemplate row = candidate_template t"
  by (auto simp: classifyTask_def Let_def queue_row_of_def split: if_splits)

lemma classify_ref:
  "classifyTask deps t nowMs = Some row \<Longrightarrow>
   qr_taskRef row = \<lparr>tr_namespace = js_or (rt_namespace t) ''default'', tr_name = js_or (rt_name t) [], tr_uid = js_or (rt_uid t) []\<rparr>"
  by (auto simp: classifyTask_def Let_def queue_row_of_def split: if_splits)

lemma candidate_annotated: "candidate_template t \<noteq> None \<Longrightarrow> annotation t TEMPLATE_CANDIDATE \<noteq> None"
  by (auto simp: candidate_template_def split: if_splits)

lemma mset_sort_in [simp]: "mset (sort_in compare x xs) = add_mset x (mset xs)"
  by (induction xs) auto

lemma mset_js_sort [simp]: "mset (js_sort compare xs) = mset xs"
  by (induction xs) (simp_all add: js_sort_def)

lemma sorted_sort_in:
  "sorted_wrt (\<lambda>a b. key a \<ge> (key b :: int)) xs \<Longrightarrow> sorted_wrt (\<lambda>a b. key a \<ge> key b) (sort_in (\<lambda>a b. key b - key a) x xs)"
  by (induction xs) (auto simp flip: set_mset_mset)

lemma sorted_js_sort: "sorted_wrt (\<lambda>a b. key a \<ge> (key b :: int)) (js_sort (\<lambda>a b. key b - key a) xs)"
  by (induction xs) (simp_all add: js_sort_def sorted_sort_in)

text \<open>
  The queue holds every undecided task that has a reason to be reviewed, once, and nothing else,
  and the oldest come first.
\<close>

theorem queue_is_complete:
  assumes "reviewQueue deps order nowMs tasks None [] = Queue rows"
    and "\<And>t. t \<in> set tasks \<Longrightarrow> classifyTask deps t nowMs \<noteq> None \<Longrightarrow>
      qr_stalenessSeconds (the (classifyTask deps t nowMs)) \<noteq> None"
  shows "mset rows = mset (map (\<lambda>t. the (classifyTask deps t nowMs))
      (filter (\<lambda>t. annotation t REVIEW_DECISION = None \<and>
        (verifier_failed t \<or> or_empty (rt_suspicious t) \<noteq> [] \<or> annotation t REVIEW_REQUESTED = Some ''true'' \<or>
         candidate_template t \<noteq> None)) tasks))
    \<and> sorted_wrt (\<lambda>a b. the (qr_stalenessSeconds a) \<ge> the (qr_stalenessSeconds b)) rows"
proof -
  have items: "queue_items deps nowMs False tasks = map (\<lambda>t. the (classifyTask deps t nowMs))
      (filter (\<lambda>t. annotation t REVIEW_DECISION = None \<and> classifyTask deps t nowMs \<noteq> None) tasks)"
    by (induction tasks) (auto simp: queue_items_def)
  have finite: "\<forall>r \<in> set (queue_items deps nowMs False tasks). qr_stalenessSeconds r \<noteq> None"
    using assms(2) by (auto simp: items)
  then have rows: "rows = js_sort oldest_first (queue_items deps nowMs False tasks)"
    using assms(1) by (auto simp: reviewQueue_def sorted_items_def list_all_iff)
  have "sorted_wrt (\<lambda>a b. js_or (qr_stalenessSeconds a) 0 \<ge> js_or (qr_stalenessSeconds b) 0) rows"
    unfolding rows oldest_first_def [abs_def] by (rule sorted_js_sort)
  moreover have "js_or (qr_stalenessSeconds r) 0 = the (qr_stalenessSeconds r)" if "r \<in> set rows" for r
    using finite that by (auto simp: rows simp flip: set_mset_mset)
  ultimately have "sorted_wrt (\<lambda>a b. the (qr_stalenessSeconds a) \<ge> the (qr_stalenessSeconds b)) rows"
    by (auto elim!: sorted_wrt_mono_rel [rotated])
  moreover have "mset rows = mset (queue_items deps nowMs False tasks)"
    by (simp add: rows)
  ultimately show ?thesis
    by (simp only: items classify_Some)
qed


definition sample_deps :: review_deps where
  "sample_deps =
     \<lparr>rd_date = (\<lambda>s. if s = [] then BadTime else At (1000 * int (length s))), rd_iso = (\<lambda>n. replicate (nat n div 1000) CHR ''i''),
      rd_readArtifact = None, rd_base64 = (\<lambda>s. s), rd_sha256 = (\<lambda>s. s),
      rd_yaml = (\<lambda>s. Inr (JObj [(''agentSpec'', JObj [(''model'', JStr s)])])), rd_num = (\<lambda>_. []),
      rd_localeCompare = (\<lambda>_ _. 0), rd_reviewToken = None, rd_customApi = True, rd_audit = False\<rparr>"

definition sample_artifact :: "string \<Rightarrow> json" where
  "sample_artifact payload = JObj [(''uri'', JStr ''cas://x''), (''mediaType'', JStr TEMPLATE_CANDIDATE_MEDIA_TYPE),
     (''name'', JStr ''fixer''), (''payloadBase64'', JStr payload)]"

definition sample_candidate :: "string \<Rightarrow> review_task" where
  "sample_candidate ended =
     \<lparr>rt_namespace = Some ''lab'', rt_name = Some ''t1'', rt_uid = Some ''u1'', rt_creationTimestamp = Some ''i'',
      rt_annotations = Some [(TEMPLATE_CANDIDATE, ''true''), (PROPOSED_TEMPLATE_NAME, ''fixer'')], rt_ownerReferences = None,
      rt_targetAgent = Some ''inventor'', rt_phase = Some PhCompleted, rt_completedAt = Some ended, rt_verification = None,
      rt_suspicious = None, rt_artifacts = Some (JArr [sample_artifact ''gpt''])\<rparr>"

definition sample_flagged :: review_task where
  "sample_flagged = (sample_candidate ''iii'')\<lparr>rt_annotations := None, rt_suspicious := Some [''vacuous_result'']\<rparr>"

lemma sample_facts:
  "candidate_template (sample_candidate e) = Some \<lparr>tc_artifactRef = the (projectCandidateArtifact (sample_artifact ''gpt'')),
     tc_proposedTemplateName = ''fixer'', tc_proposedNamespace = ''lab''\<rparr>"
  "\<not> verifier_failed (sample_candidate e)" "rt_suspicious (sample_candidate e) = None"
  "annotation (sample_candidate e) REVIEW_REQUESTED = None" "annotation (sample_candidate e) REVIEW_DECISION = None"
  "rt_completedAt (sample_candidate e) = Some e" "rt_phase (sample_candidate e) = Some PhCompleted"
  "\<not> verifier_failed sample_flagged" "rt_suspicious sample_flagged = Some [''vacuous_result'']"
  "annotation sample_flagged k = None" "rt_completedAt sample_flagged = Some ''iii''"
  by (simp_all add: candidate_template_def sample_candidate_def findCandidateArtifact_def findCandidateArtifacts_def map_filter_simps
      annotation_def annotation_names sample_artifact_def projectCandidateArtifact_def obj_get_def verifier_failed_def sample_flagged_def)

lemma sample_classified:
  "map_option qr_reason (classifyTask sample_deps (sample_candidate ''ii'') 9000) = Some CandidateTemplate"
  "map_option qr_stalenessSeconds (classifyTask sample_deps (sample_candidate ''ii'') 9000) = Some (Some 7)"
  "map_option qr_reason (classifyTask sample_deps sample_flagged 9000) = Some SuspiciousDetector"
  "map_option qr_stalenessSeconds (classifyTask sample_deps sample_flagged 9000) = Some (Some 6)"
  by (simp_all add: classifyTask_def Let_def queue_row_of_def sample_facts computeStaleness_def, simp_all add: sample_deps_def)

theorem queue_is_complete_witness:
  "\<exists>rows. reviewQueue sample_deps id 9000 [sample_flagged, sample_candidate ''ii''] None [] = Queue rows \<and> length rows = 2"
proof -
  obtain rows where rows: "reviewQueue sample_deps id 9000 [sample_flagged, sample_candidate ''ii''] None [] = Queue rows"
    by (simp add: reviewQueue_def)
  have eq: "mset rows = mset (map (\<lambda>t. the (classifyTask sample_deps t 9000))
      (filter (\<lambda>t. annotation t REVIEW_DECISION = None \<and>
        (verifier_failed t \<or> or_empty (rt_suspicious t) \<noteq> [] \<or> annotation t REVIEW_REQUESTED = Some ''true'' \<or>
         candidate_template t \<noteq> None)) [sample_flagged, sample_candidate ''ii'']))"
    by (rule queue_is_complete [OF rows, THEN conjunct1]) (use sample_classified in auto)
  have two: "length (filter (\<lambda>t. annotation t REVIEW_DECISION = None \<and>
        (verifier_failed t \<or> or_empty (rt_suspicious t) \<noteq> [] \<or> annotation t REVIEW_REQUESTED = Some ''true'' \<or>
         candidate_template t \<noteq> None)) [sample_flagged, sample_candidate ''ii'']) = 2"
    by (simp add: sample_facts)
  have "length rows = 2"
    using arg_cong [OF eq, of size] two by (simp only: size_mset length_map)
  then show ?thesis using rows by blast
qed

end
