(* ===== verification/TaskGc.thy ===== *)
theory TaskGc
  imports ReviewQueue CasGc
begin

text \<open>
  Retention of finished tasks, \<^verbatim>\<open>packages/operator/src/task-gc.ts\<close>: when a task finished, which
  finished tasks are deleted, one sweep over the tasks the informer lists, and the tick that keeps
  sweeps apart. A deletion may fail; log lines are left out.
\<close>

section \<open>One task\<close>

definition APPLIED :: "string list" where
  "APPLIED = [''argocd.argoproj.io/tracking-id'', ''kubectl.kubernetes.io/last-applied-configuration'']"

text \<open>When a finished task finished; \<open>None\<close> while it can still run, or where the date is not one.\<close>

definition finishedAtMs :: "(string \<Rightarrow> js_time) \<Rightarrow> review_task \<Rightarrow> int option" where
  "finishedAtMs date t =
     (if rt_phase t \<noteq> Some PhCompleted \<and> rt_phase t \<noteq> Some PhFailed then None
      else
        (case (case rt_completedAt t of None \<Rightarrow> rt_creationTimestamp t | Some raw \<Rightarrow> Some raw) of
           None \<Rightarrow> None
         | Some raw \<Rightarrow> (case date raw of At ms \<Rightarrow> Some ms | BadTime \<Rightarrow> None)))"

definition flagged :: "review_task \<Rightarrow> bool" where
  "flagged t \<longleftrightarrow> Option.bind (rt_verification t) vf_passed = Some False \<or> length (or_empty (rt_suspicious t)) > 0 \<or>
     annotation t REVIEW_REQUESTED = Some ''true''"

definition shouldDeleteTask :: "(string \<Rightarrow> js_time) \<Rightarrow> review_task \<Rightarrow> int \<Rightarrow> rat \<Rightarrow> rat option \<Rightarrow> bool" where
  "shouldDeleteTask date t nowMs retentionMs flaggedRetentionMs =
     (case finishedAtMs date t of
        None \<Rightarrow> False
      | Some finished \<Rightarrow>
          if of_int (nowMs - finished) < retentionMs then False
          else if or_empty (rt_ownerReferences t) \<noteq> [] then False
          else if list_ex (\<lambda>key. annotation t key \<noteq> None) APPLIED then False
          else if annotation t REVIEW_DECISION \<noteq> None then True
          else if annotation t TEMPLATE_CANDIDATE \<noteq> None then False
          else if \<not> flagged t then True
          else (case flaggedRetentionMs of None \<Rightarrow> False | Some f \<Rightarrow> f \<le> of_int (nowMs - finished)))"

section \<open>A sweep\<close>

record task_gc_config =
  tg_retentionMs :: rat
  tg_flaggedRetentionMs :: "rat option"
  tg_intervalMs :: rat
  tg_dryRun :: bool

record task_gc_report =
  gr_scanned :: nat
  gr_eligible :: nat
  gr_deleted :: nat

text \<open>\<open>deletes\<close> says whether the deletion of an object succeeds; the second component lists the calls.\<close>

definition runOnce ::
  "(string \<Rightarrow> js_time) \<Rightarrow> task_gc_config \<Rightarrow> int \<Rightarrow> (string \<times> string \<Rightarrow> bool) \<Rightarrow> review_task list \<Rightarrow>
   task_gc_report \<times> (string \<times> string) list" where
  "runOnce date config now deletes tasks =
     (let eligible = filter (\<lambda>t. shouldDeleteTask date t now (tg_retentionMs config) (tg_flaggedRetentionMs config)) tasks;
          calls = (if tg_dryRun config then []
                   else map (\<lambda>t. (js_or (rt_namespace t) ''default'', js_or (rt_name t) [])) eligible)
      in (\<lparr>gr_scanned = length tasks, gr_eligible = length eligible, gr_deleted = length (filter deletes calls)\<rparr>, calls))"

text \<open>\<open>startTaskGc\<close> throws on an interval or a retention below a minute.\<close>

definition startTaskGc :: "task_gc_config \<Rightarrow> string + task_gc_config" where
  "startTaskGc config =
     (if tg_retentionMs config < MIN_RETENTION_MS \<or> tg_intervalMs config < MIN_RETENTION_MS then
        Inl ''task-gc: retention and interval must each be >= 1 minute''
      else Inr config)"

text \<open>A tick while a sweep runs does nothing; the end of the sweep clears the flag.\<close>

definition tick :: "bool \<Rightarrow> bool \<times> bool" where
  "tick running = (if running then (False, True) else (True, True))"

section \<open>What a sweep keeps\<close>

lemma kept_candidate:
  "annotation t REVIEW_DECISION = None \<Longrightarrow> annotation t TEMPLATE_CANDIDATE \<noteq> None \<Longrightarrow> \<not> shouldDeleteTask date t now r f"
  by (simp add: shouldDeleteTask_def split: option.splits)

lemma flagged_in_queue:
  "flagged t \<longleftrightarrow> verifier_failed t \<or> or_empty (rt_suspicious t) \<noteq> [] \<or> annotation t REVIEW_REQUESTED = Some ''true''"
  by (simp add: flagged_def verifier_failed_def)

text \<open>
  C39. The collector agrees with the review queue: a task that is in the queue and undecided is never
  deleted while no retention for flagged tasks is set; where one is set it is deleted only after that
  time, and never when it carries a template candidate.
\<close>

theorem queued_task_is_kept:
  assumes "classifyTask deps t now = Some row" and "annotation t REVIEW_DECISION = None"
    and "shouldDeleteTask date t now' retention flaggedRetention"
  shows "\<exists>f finished. flaggedRetention = Some f \<and> finishedAtMs date t = Some finished \<and> f \<le> of_int (now' - finished) \<and>
    qr_candidateTemplate row = None"
proof -
  have fresh: "annotation t TEMPLATE_CANDIDATE = None"
    using assms(2,3) kept_candidate by blast
  then have "candidate_template t = None"
    using candidate_annotated by fastforce
  moreover from this have "flagged t"
    using assms(1) classify_Some [of deps t now] by (simp add: flagged_in_queue)
  ultimately show ?thesis
    using assms fresh by (auto simp: shouldDeleteTask_def classify_candidate split: option.splits if_splits)
qed

lemma sample_deleted: "shouldDeleteTask (rd_date sample_deps) sample_flagged 1000000 60000 (Some 900000)"
  by (simp add: shouldDeleteTask_def finishedAtMs_def sample_deps_def sample_flagged_def sample_candidate_def flagged_def
      annotation_def APPLIED_def)

theorem queued_task_is_kept_witness:
  "\<exists>row f finished. classifyTask sample_deps sample_flagged 9000 = Some row \<and> Some (900000 :: rat) = Some f \<and>
     finishedAtMs (rd_date sample_deps) sample_flagged = Some finished \<and> f \<le> of_int (1000000 - finished) \<and>
     qr_candidateTemplate row = None"
proof -
  obtain row where row: "classifyTask sample_deps sample_flagged 9000 = Some row"
    using sample_classified(3) by (cases "classifyTask sample_deps sample_flagged 9000") auto
  from queued_task_is_kept [OF row sample_facts(10) sample_deleted] row show ?thesis by blast
qed

text \<open>
  A task annotated as a candidate is kept until it is decided even where nothing shows it for review,
  for want of the artifact or because the annotation is not the literal true.
\<close>

theorem unreviewable_candidate_kept:
  "\<exists>t. annotation t TEMPLATE_CANDIDATE = Some ''true'' \<and> rt_phase t = Some PhCompleted \<and>
     (\<forall>deps now. classifyTask deps t now = None) \<and> (\<forall>date now r f. \<not> shouldDeleteTask date t now r f)"
proof -
  let ?t = "(sample_candidate ''i'')\<lparr>rt_artifacts := None\<rparr>"
  have "annotation ?t TEMPLATE_CANDIDATE = Some ''true''" "annotation ?t REVIEW_DECISION = None" "rt_phase ?t = Some PhCompleted"
    and "\<not> verifier_failed ?t" "or_empty (rt_suspicious ?t) = []" "annotation ?t REVIEW_REQUESTED = None" "candidate_template ?t = None"
    by (simp_all add: sample_candidate_def annotation_def annotation_names verifier_failed_def candidate_template_def
        findCandidateArtifact_def findCandidateArtifacts_def map_filter_simps)
  then show ?thesis
    using kept_candidate [of ?t] classify_Some [of _ ?t] by (intro exI [of _ ?t]) auto
qed

text \<open>
  What a sweep deletes is what it may delete: finished for at least the retention, not a child,
  not applied from a manifest; what a sweep may delete it tries to delete, and a dry run deletes
  nothing.
\<close>

theorem sweep_deletes_exactly:
  "(ns, name) \<in> set (snd (runOnce date config now deletes tasks)) \<longleftrightarrow>
   \<not> tg_dryRun config \<and>
   (\<exists>t \<in> set tasks. ns = js_or (rt_namespace t) ''default'' \<and> name = js_or (rt_name t) [] \<and>
     (\<exists>finished. finishedAtMs date t = Some finished \<and> tg_retentionMs config \<le> of_int (now - finished) \<and>
       or_empty (rt_ownerReferences t) = [] \<and> (\<forall>key \<in> set APPLIED. annotation t key = None) \<and>
       (annotation t REVIEW_DECISION \<noteq> None \<or>
        annotation t TEMPLATE_CANDIDATE = None \<and>
          (flagged t \<longrightarrow> (\<exists>f. tg_flaggedRetentionMs config = Some f \<and> f \<le> of_int (now - finished))))))"
proof -
  have "shouldDeleteTask date t now (tg_retentionMs config) (tg_flaggedRetentionMs config) \<longleftrightarrow>
     (\<exists>finished. finishedAtMs date t = Some finished \<and> tg_retentionMs config \<le> of_int (now - finished) \<and>
       or_empty (rt_ownerReferences t) = [] \<and> (\<forall>key \<in> set APPLIED. annotation t key = None) \<and>
       (annotation t REVIEW_DECISION \<noteq> None \<or>
        annotation t TEMPLATE_CANDIDATE = None \<and>
          (flagged t \<longrightarrow> (\<exists>f. tg_flaggedRetentionMs config = Some f \<and> f \<le> of_int (now - finished)))))" for t
    by (auto simp: shouldDeleteTask_def list_ex_iff not_less split: option.splits if_splits)
  then show ?thesis
    by (auto simp: runOnce_def Let_def)
qed

end
