(* ===== verification/ReviewDecide.thy ===== *)
theory ReviewDecide
  imports ReviewQueue
begin

text \<open>
  The review queue of the workbench, write side (\<^verbatim>\<open>packages/workbench-api/src/routes/review-queue.ts\<close>):
  accepting a task, which promotes its template candidate, the revision of a template by a newer
  candidate, rejecting a task, and requesting a review. A handler is a function of its snapshot of the
  task, of the request and of what the API server answers; its result is the response and the calls
  that write. The detail texts of API errors, and log lines, are left out.
\<close>

section \<open>Requests, answers, calls\<close>

definition PROMOTED_FROM_TASK :: string where "PROMOTED_FROM_TASK = ''kagent.knuteson.io/promoted-from-task''"
definition PROMOTED_ARTIFACT_NAME :: string where "PROMOTED_ARTIFACT_NAME = ''kagent.knuteson.io/promoted-artifact-name''"
definition PROMOTED_ARTIFACT_CHECKSUM :: string where
  "PROMOTED_ARTIFACT_CHECKSUM = ''kagent.knuteson.io/promoted-artifact-checksum''"

text \<open>\<open>isDeepStrictEqual\<close>: objects compare by their own keys, whatever their order.\<close>

fun deep_equal :: "json \<Rightarrow> json \<Rightarrow> bool" where
  "deep_equal (JArr xs) (JArr ys) = list_all2 deep_equal xs ys"
| "deep_equal (JObj xs) (JObj ys) =
     (length xs = length ys \<and> (\<forall>x \<in> set xs. case map_of ys (fst x) of None \<Rightarrow> False | Some v \<Rightarrow> deep_equal (snd x) v))"
| "deep_equal (JArr _) _ = False"
| "deep_equal (JObj _) _ = False"
| "deep_equal x y = (x = y)"

record review_request =
  rq_authorization :: "string option"
  rq_forwardedUser :: "string option"
  rq_user :: "string option"
  rq_body :: "json option"

record created_meta =
  cm_name :: "string option"
  cm_namespace :: "string option"
  cm_uid :: "string option"
  cm_creationTimestamp :: "string option"

record template_manifest =
  tm_name :: string
  tm_namespace :: string
  tm_annotations :: "(string \<times> string) list"
  tm_spec :: json

text \<open>A template as the API server returns it; the last field is the whole object.\<close>

record template_object =
  tp_resourceVersion :: "string option"
  tp_annotations :: "(string \<times> string) list option"
  tp_labels :: "(string \<times> string) list option"
  tp_spec :: json
  tp_object :: json

text \<open>What the API server answers; \<open>None\<close> is a call that throws.\<close>

record review_api =
  ra_create :: "json + json"
  ra_template :: "template_object option"
  ra_task :: "string \<Rightarrow> string \<Rightarrow> review_task option"
  ra_dryRun :: "json \<Rightarrow> json option"
  ra_replace :: "json option"
  ra_patch :: bool

datatype review_call =
    CreateTemplate string template_manifest
  | ReplaceTemplate string template_manifest "(string \<times> string) list option" string
  | PatchTask string string "(string \<times> string) list"
  | Publish string

datatype review_response =
    Refused nat string
  | Crashed
  | AcceptedTask task_ref "created_meta option"
  | ReconciledTask task_ref created_meta bool
  | RejectedTask task_ref
  | RequestedTask task_ref

type_synonym task_cache = "string \<Rightarrow> string \<Rightarrow> review_task option"

section \<open>Small helpers\<close>

definition authorized :: "review_deps \<Rightarrow> review_request \<Rightarrow> bool" where
  "authorized deps req =
     (case rd_reviewToken deps of
        None \<Rightarrow> True
      | Some token \<Rightarrow> token = [] \<or> js_or (rq_authorization req) [] = ''Bearer '' @ token)"

definition extractK8sStatus :: "json \<Rightarrow> jsnum option" where
  "extractK8sStatus err =
     (case field err ''code'' of
        JNum n \<Rightarrow> Some n
      | _ \<Rightarrow>
          (case field err ''statusCode'' of
             JNum n \<Rightarrow> Some n
           | _ \<Rightarrow> (case field (field err ''body'') ''code'' of JNum n \<Rightarrow> Some n | _ \<Rightarrow> None)))"

definition readCreatedMeta :: "json \<Rightarrow> created_meta" where
  "readCreatedMeta obj =
     (let m = field obj ''metadata'' in
      \<lparr>cm_name = json_string (field m ''name''), cm_namespace = json_string (field m ''namespace''),
       cm_uid = json_string (field m ''uid''), cm_creationTimestamp = json_string (field m ''creationTimestamp'')\<rparr>)"

definition extractReviewerId :: "review_request \<Rightarrow> json \<Rightarrow> string option" where
  "extractReviewerId req body =
     (let fromBody = js_trim (js_or (json_string (field body ''reviewerId'')) []);
          fromHeader = js_trim (js_or (rq_forwardedUser req) []) in
      if fromBody \<noteq> [] then Some fromBody
      else if fromHeader \<noteq> [] then Some fromHeader
      else non_empty (rq_user req))"

definition lower_hex :: "char \<Rightarrow> bool" where
  "lower_hex c \<longleftrightarrow> ascii_digit c \<or> c \<in> set ''abcdef''"

text \<open>The pattern \<^verbatim>\<open>/^sha256:[0-9a-f]{64}$/\<close>.\<close>

definition sha256_digest :: "string \<Rightarrow> bool" where
  "sha256_digest s \<longleftrightarrow> take 7 s = ''sha256:'' \<and> length s = 71 \<and> list_all lower_hex (drop 7 s)"

definition buildAgentTemplateManifest ::
  "string \<Rightarrow> string \<Rightarrow> string \<Rightarrow> string \<Rightarrow> string option \<Rightarrow> string \<Rightarrow> json \<Rightarrow> template_manifest" where
  "buildAgentTemplateManifest proposedTemplateName proposedNamespace taskNamespace taskName artifactName checksum spec =
     \<lparr>tm_name = proposedTemplateName, tm_namespace = proposedNamespace,
      tm_annotations = (PROMOTED_FROM_TASK, taskNamespace @ ''/'' @ taskName) #
        (case artifactName of None \<Rightarrow> [] | Some n \<Rightarrow> [(PROMOTED_ARTIFACT_NAME, n)]) @ [(PROMOTED_ARTIFACT_CHECKSUM, checksum)],
      tm_spec = spec\<rparr>"

section \<open>Revision of a template\<close>

datatype revision = Revised created_meta bool | NotRevised string bool

definition revision_conflict :: revision where
  "revision_conflict = NotRevised ''template revision conflict or source evidence unavailable'' False"

text \<open>
  The candidates of the source task that prove how the template came about: \<open>Inr\<close> how many there
  are, \<open>Inl\<close> the error that ends the search.
\<close>

fun admission_matches ::
  "review_deps \<Rightarrow> review_api \<Rightarrow> json \<Rightarrow> string \<Rightarrow> string \<Rightarrow> artifact_ref list \<Rightarrow> revision + nat" where
  "admission_matches deps api spec recordedName recordedChecksum [] = Inr 0"
| "admission_matches deps api spec recordedName recordedChecksum (a # as) =
     (if ar_name a \<noteq> Some recordedName then admission_matches deps api spec recordedName recordedChecksum as
      else
        (case candidateYaml deps a of
           None \<Rightarrow> Inl revision_conflict
         | Some yaml \<Rightarrow>
             if artifactChecksum deps yaml \<noteq> recordedChecksum then
               admission_matches deps api spec recordedName recordedChecksum as
             else
               (case parse_spec deps yaml of
                  Inl _ \<Rightarrow> Inl (NotRevised ''existing template admission proof disagrees'' False)
                | Inr parsed \<Rightarrow>
                    (case ra_dryRun api parsed of
                       None \<Rightarrow> Inl revision_conflict
                     | Some stored \<Rightarrow>
                         if \<not> deep_equal spec stored then
                           Inl (NotRevised ''existing template admission proof disagrees'' False)
                         else
                           map_sum id Suc (admission_matches deps api spec recordedName recordedChecksum as)))))"

text \<open>Annotations of the template as it is, overwritten by those of the new manifest.\<close>

definition merged_annotations :: "(string \<times> string) list \<Rightarrow> (string \<times> string) list \<Rightarrow> (string \<times> string) list" where
  "merged_annotations old new = foldl (\<lambda>m (k, v). AList.update k v m) old new"

definition replacement ::
  "review_deps \<Rightarrow> review_api \<Rightarrow> string \<Rightarrow> template_manifest \<Rightarrow> template_object \<Rightarrow> string \<Rightarrow> review_task \<Rightarrow> review_task \<Rightarrow>
   revision \<times> review_call list" where
  "replacement deps api namespace manifest existing version sourceTask target =
     (case (completedAt deps sourceTask, completedAt deps target) of
        (Some previousCompleted, Some targetCompleted) \<Rightarrow>
          if targetCompleted \<le> previousCompleted then
            (NotRevised ''candidate is not strictly newer than current template source'' False, [])
          else
            (case ra_replace api of None \<Rightarrow> revision_conflict | Some replaced \<Rightarrow> Revised (readCreatedMeta replaced) False,
             [ReplaceTemplate namespace
                (manifest\<lparr>tm_annotations := merged_annotations (or_empty (tp_annotations existing)) (tm_annotations manifest)\<rparr>)
                (tp_labels existing) version])
      | _ \<Rightarrow> (NotRevised ''candidate is not strictly newer than current template source'' False, []))"

definition source_task :: "task_cache \<Rightarrow> review_api \<Rightarrow> string \<Rightarrow> string \<Rightarrow> review_task option" where
  "source_task cache api ns name = (case cache ns name of Some t \<Rightarrow> Some t | None \<Rightarrow> ra_task api ns name)"

definition revise_from ::
  "review_deps \<Rightarrow> task_cache \<Rightarrow> review_api \<Rightarrow> string \<Rightarrow> template_manifest \<Rightarrow> review_task \<Rightarrow> template_object \<Rightarrow> string \<Rightarrow>
   string \<Rightarrow> (string \<times> string) option \<Rightarrow> revision \<times> review_call list" where
  "revise_from deps cache api namespace manifest target existing version source recorded =
     (case js_split CHR ''/'' source of
        [sourceNamespace, sourceName] \<Rightarrow>
          if sourceNamespace = [] \<or> sourceName = [] then (NotRevised ''existing template source unavailable'' False, [])
          else
            (case source_task cache api sourceNamespace sourceName of
               None \<Rightarrow> (revision_conflict, [])
             | Some sourceTask \<Rightarrow>
                 (case recorded of
                    None \<Rightarrow> replacement deps api namespace manifest existing version sourceTask target
                  | Some (recordedName, recordedChecksum) \<Rightarrow>
                      (case admission_matches deps api (tp_spec existing) recordedName recordedChecksum
                              (findCandidateArtifacts sourceTask) of
                         Inl r \<Rightarrow> (r, [])
                       | Inr n \<Rightarrow>
                           if n \<noteq> 1 then
                             (NotRevised ''existing template admission proof unavailable or ambiguous'' False, [])
                           else replacement deps api namespace manifest existing version sourceTask target)))
      | _ \<Rightarrow> (NotRevised ''existing template source unavailable'' False, []))"

definition reviseQueueTemplate ::
  "review_deps \<Rightarrow> task_cache \<Rightarrow> review_api \<Rightarrow> string \<Rightarrow> template_manifest \<Rightarrow> review_task \<Rightarrow> revision \<times> review_call list" where
  "reviseQueueTemplate deps cache api namespace manifest target =
     (case ra_template api of
        None \<Rightarrow> (revision_conflict, [])
      | Some existing \<Rightarrow>
          (let old = map_of (or_empty (tp_annotations existing)); new = map_of (tm_annotations manifest);
               source = js_or (old PROMOTED_FROM_TASK) []; version = js_or (tp_resourceVersion existing) [];
               recordedName = old PROMOTED_ARTIFACT_NAME; recordedChecksum = old PROMOTED_ARTIFACT_CHECKSUM
           in
           if source = [] then (NotRevised ''existing template is not queue-owned'' True, [])
           else if version = [] then (NotRevised ''existing template resourceVersion unavailable'' False, [])
           else
             (case (recordedName, recordedChecksum) of
                (None, None) \<Rightarrow>
                  if new PROMOTED_FROM_TASK = Some source \<and> deep_equal (tp_spec existing) (tm_spec manifest) then
                    (Revised (readCreatedMeta (tp_object existing)) True, [])
                  else revise_from deps cache api namespace manifest target existing version source None
              | (Some rn, Some rc) \<Rightarrow>
                  if \<not> sha256_digest rc then (NotRevised ''existing artifact admission metadata unavailable'' False, [])
                  else if new PROMOTED_FROM_TASK = Some source \<and>
                    (new PROMOTED_ARTIFACT_NAME \<noteq> Some rn \<or> new PROMOTED_ARTIFACT_CHECKSUM \<noteq> Some rc) then
                    (NotRevised ''existing artifact admission identity disagrees'' False, [])
                  else if new PROMOTED_FROM_TASK = Some source \<and> deep_equal (tp_spec existing) (tm_spec manifest) then
                    (Revised (readCreatedMeta (tp_object existing)) True, [])
                  else revise_from deps cache api namespace manifest target existing version source (Some (rn, rc))
              | _ \<Rightarrow> (NotRevised ''existing artifact admission metadata unavailable'' False, []))))"

section \<open>Accepting\<close>

definition write_disabled :: string where
  "write_disabled = ''write surface disabled (no CustomObjects client configured); set actions.create=true on the chart''"

definition not_in_cache :: "string \<Rightarrow> string \<Rightarrow> string" where
  "not_in_cache ns name = ''AgentTask '' @ ns @ ''/'' @ name @ '' not in cache''"

text \<open>The bytes of one candidate while the artifacts are searched; the errors end the request.\<close>

definition read_candidate :: "review_deps \<Rightarrow> artifact_ref \<Rightarrow> review_response + string" where
  "read_candidate deps a =
     (case rd_readArtifact deps of
        Some read \<Rightarrow>
          (case read (ar_uri a) of
             None \<Rightarrow> Inl (Refused 500 ''internal error reading candidate-template artifact; see workbench-api logs'')
           | Some yaml \<Rightarrow> Inr yaml)
      | None \<Rightarrow>
          (case ar_payloadBase64 a of
             None \<Rightarrow> Inl (Refused 422 (''candidate-template artifact YAML not available (no readArtifact dep and no '' @
               ''payloadBase64 field); PVC resolution deferred to v0.3''))
           | Some b64 \<Rightarrow> Inr (rd_base64 deps b64)))"

fun select_candidate ::
  "review_deps \<Rightarrow> string option \<Rightarrow> string option \<Rightarrow> artifact_ref list \<Rightarrow> (artifact_ref \<times> string) option \<Rightarrow>
   review_response + (artifact_ref \<times> string) option" where
  "select_candidate deps expectedName expectedChecksum [] found = Inr found"
| "select_candidate deps expectedName expectedChecksum (a # as) found =
     (if expectedName \<noteq> None \<and> ar_name a \<noteq> expectedName then
        select_candidate deps expectedName expectedChecksum as found
      else
        (case read_candidate deps a of
           Inl r \<Rightarrow> Inl r
         | Inr yaml \<Rightarrow>
             if expectedChecksum \<noteq> None \<and> Some (artifactChecksum deps yaml) \<noteq> expectedChecksum then
               select_candidate deps expectedName expectedChecksum as found
             else if found \<noteq> None then Inl (Refused 409 ''validated candidate artifact is ambiguous'')
             else select_candidate deps expectedName expectedChecksum as (Some (a, yaml))))"

text \<open>The candidate the request means, with its bytes. The two expectations are fields of an unchecked body.\<close>

definition chosen_candidate :: "review_deps \<Rightarrow> review_task \<Rightarrow> json \<Rightarrow> json \<Rightarrow> review_response + artifact_ref \<times> string" where
  "chosen_candidate deps task expectedName expectedChecksum =
     (let candidates = findCandidateArtifacts task in
      if candidates = [] then Inl (Refused 422 ''candidate-template artifact not found on task'')
      else if expectedChecksum \<noteq> JUndefined \<and> (case expectedChecksum of JStr s \<Rightarrow> \<not> sha256_digest s | _ \<Rightarrow> True) then
        Inl (Refused 400 ''expectedArtifactChecksum must be a sha256 digest'')
      else if expectedName \<noteq> JUndefined \<and>
        ((case expectedName of JStr s \<Rightarrow> s = [] | _ \<Rightarrow> True) \<or> expectedChecksum = JUndefined) then
        Inl (Refused 400 ''expectedArtifactName requires a name and expectedArtifactChecksum'')
      else if length candidates > 1 \<and> expectedChecksum = JUndefined then
        Inl (Refused 409 ''multiple candidate artifacts require an explicit validated artifact checksum'')
      else
        (case select_candidate deps (json_string expectedName) (json_string expectedChecksum) candidates None of
           Inl r \<Rightarrow> Inl r
         | Inr None \<Rightarrow> Inl (Refused 409 ''candidate artifact changed since validation'')
         | Inr (Some c) \<Rightarrow> Inr c))"

text \<open>The provenance a reconciliation asks for; the bytes of the final artifact may fail to be read, which throws.\<close>

definition reconcile_provenance :: "review_deps \<Rightarrow> review_task \<Rightarrow> json \<Rightarrow> artifact_ref \<Rightarrow> string \<Rightarrow> review_response option" where
  "reconcile_provenance deps task expectedName a yaml =
     (let refused = Some (Refused 409 ''accepted final candidate provenance unavailable'') in
      case finalCandidateArtifact task of
        None \<Rightarrow> refused
      | Some final \<Rightarrow>
          if ar_uri final \<noteq> ar_uri a \<or> ar_name final \<noteq> json_string expectedName \<or> \<not> admittedArtifactTime deps task final then
            refused
          else
            (case candidateYaml deps final of
               None \<Rightarrow> Some Crashed
             | Some bytes \<Rightarrow> if artifactChecksum deps bytes \<noteq> artifactChecksum deps yaml then refused else None))"

definition candidate_manifest ::
  "review_deps \<Rightarrow> review_task \<Rightarrow> template_candidate \<Rightarrow> string \<Rightarrow> string \<Rightarrow> json \<Rightarrow> artifact_ref \<Rightarrow> string \<Rightarrow> json \<Rightarrow> template_manifest" where
  "candidate_manifest deps task c namespace name expectedChecksum a yaml spec =
     buildAgentTemplateManifest
       (js_or (if expectedChecksum \<noteq> JUndefined then ar_name a else None) (tc_proposedTemplateName c))
       (tc_proposedNamespace c) namespace name (ar_name a) (artifactChecksum deps yaml) spec"

text \<open>Creation of the template, or its revision where one of that name exists.\<close>

definition create_template ::
  "review_deps \<Rightarrow> task_cache \<Rightarrow> review_api \<Rightarrow> template_manifest \<Rightarrow> review_task \<Rightarrow>
   (review_response + created_meta) \<times> review_call list" where
  "create_template deps cache api manifest task =
     (let namespace = tm_namespace manifest; call = CreateTemplate namespace manifest in
      case ra_create api of
        Inr created \<Rightarrow> (Inr (readCreatedMeta created), [call])
      | Inl err \<Rightarrow>
          (let status = extractK8sStatus err in
           if status = Some (Fin 409) then
             (case reviseQueueTemplate deps cache api namespace manifest task of
                (Revised ref _, calls) \<Rightarrow> (Inr ref, call # calls)
              | (NotRevised error notQueueOwned, calls) \<Rightarrow>
                  (Inl (Refused (if notQueueOwned then 422 else 409) error), call # calls))
           else if status = Some (Fin 422) then (Inl (Refused 422 ''AgentTemplate creation failed''), [call])
           else if status = Some (Fin 403) then (Inl (Refused 403 ''forbidden: RBAC denied AgentTemplate creation''), [call])
           else (Inl (Refused 500 ''internal error processing review accept; see workbench-api logs''), [call])))"

definition decision_annotations :: "review_deps \<Rightarrow> int \<Rightarrow> string \<Rightarrow> string option \<Rightarrow> (string \<times> string) list" where
  "decision_annotations deps nowMs decision reviewerId =
     [(REVIEW_DECISION, decision), (REVIEW_DECIDED_BY, js_or reviewerId ''unknown''), (REVIEW_DECIDED_AT, rd_iso deps nowMs)]"

definition audited :: "review_deps \<Rightarrow> string \<Rightarrow> review_call list" where
  "audited deps type = (if rd_audit deps then [Publish type] else [])"

text \<open>The decision of an accepted task, after its template, if it has one, is in place.\<close>

definition record_acceptance ::
  "review_deps \<Rightarrow> review_api \<Rightarrow> int \<Rightarrow> string \<Rightarrow> string \<Rightarrow> string option \<Rightarrow> task_ref \<Rightarrow> created_meta option \<Rightarrow>
   review_response \<times> review_call list" where
  "record_acceptance deps api nowMs ns name reviewerId ref template =
     (let calls = (if template \<noteq> None then audited deps ''template.candidate.promoted'' else []) @
            [PatchTask ns name (decision_annotations deps nowMs ''accepted'' reviewerId)] in
      if \<not> ra_patch api then (Refused 500 ''patch annotation failed'', calls)
      else (AcceptedTask ref template, calls @ audited deps ''review.accepted''))"

text \<open>The body of a request to accept, where it is an object; anything else counts as empty.\<close>

definition object_body :: "review_request \<Rightarrow> json" where
  "object_body req = (case rq_body req of Some (JObj kvs) \<Rightarrow> JObj kvs | _ \<Rightarrow> JObj [])"

definition accept_candidate ::
  "review_deps \<Rightarrow> task_cache \<Rightarrow> review_api \<Rightarrow> int \<Rightarrow> string \<Rightarrow> string \<Rightarrow> json \<Rightarrow> bool \<Rightarrow> string option \<Rightarrow> review_task \<Rightarrow> task_ref \<Rightarrow>
   template_candidate \<Rightarrow> review_response \<times> review_call list" where
  "accept_candidate deps cache api nowMs ns name body reconcile reviewerId task ref c =
     (let expectedName = field body ''expectedArtifactName''; expectedChecksum = field body ''expectedArtifactChecksum'' in
      case chosen_candidate deps task expectedName expectedChecksum of
        Inl r \<Rightarrow> (r, [])
      | Inr (a, yaml) \<Rightarrow>
          (case (if reconcile then reconcile_provenance deps task expectedName a yaml else None) of
             Some r \<Rightarrow> (r, [])
           | None \<Rightarrow>
               (case parse_spec deps yaml of
                  Inl _ \<Rightarrow> (Refused 422 ''candidate-template parse failed'', [])
                | Inr spec \<Rightarrow>
                    (let manifest = candidate_manifest deps task c ns name expectedChecksum a yaml spec in
                     if reconcile then
                       (case reviseQueueTemplate deps cache api (tm_namespace manifest) manifest task of
                          (NotRevised error _, calls) \<Rightarrow> (Refused 409 error, calls)
                        | (Revised revised unchanged, calls) \<Rightarrow> (ReconciledTask ref revised unchanged, calls))
                     else
                       (case create_template deps cache api manifest task of
                          (Inl r, calls) \<Rightarrow> (r, calls)
                        | (Inr template, calls) \<Rightarrow>
                            (case record_acceptance deps api nowMs ns name reviewerId ref (Some template) of
                               (r, more_calls) \<Rightarrow> (r, calls @ more_calls)))))))"

definition accept ::
  "review_deps \<Rightarrow> task_cache \<Rightarrow> review_api \<Rightarrow> int \<Rightarrow> string \<Rightarrow> string \<Rightarrow> review_request \<Rightarrow> review_response \<times> review_call list" where
  "accept deps cache api nowMs ns name req =
     (if \<not> authorized deps req then (Refused 401 ''review-queue writes need the reviewer token'', [])
      else if \<not> rd_customApi deps then (Refused 503 write_disabled, [])
      else
        (case cache ns name of
           None \<Rightarrow> (Refused 404 (not_in_cache ns name), [])
         | Some task \<Rightarrow>
             (let body = object_body req; wanted = field body ''reconcileAccepted''; reconcile = (wanted = JBool True) in
              if json_typeof wanted \<noteq> ''undefined'' \<and> json_typeof wanted \<noteq> ''boolean'' then
                (Refused 400 ''reconcileAccepted must be boolean'', [])
              else if (if reconcile then annotation task REVIEW_DECISION \<noteq> Some ''accepted''
                       else annotation task REVIEW_DECISION \<noteq> None) then
                (Refused 409 (''AgentTask '' @ ns @ ''/'' @ name @
                   '' already has a review decision or is not an accepted reconciliation source''), [])
              else if reconcile \<and> (json_string (field body ''expectedArtifactName'') = None \<or>
                                   json_string (field body ''expectedArtifactChecksum'') = None) then
                (Refused 400 ''reconciliation requires expectedArtifactName and expectedArtifactChecksum'', [])
              else
                (case classifyTask deps task nowMs of
                   None \<Rightarrow> (Refused 409 ''task is not in review queue'', [])
                 | Some row \<Rightarrow>
                     (case qr_candidateTemplate row of
                        Some c \<Rightarrow>
                          accept_candidate deps cache api nowMs ns name body reconcile (extractReviewerId req body) task
                            (qr_taskRef row) c
                      | None \<Rightarrow>
                          if reconcile then (Refused 409 ''task is not in review queue'', [])
                          else record_acceptance deps api nowMs ns name (extractReviewerId req body) (qr_taskRef row) None)))))"

section \<open>Rejecting and requesting\<close>

text \<open>A body of null makes the read of its reviewer throw, outside of any \<open>try\<close>.\<close>

definition loose_body :: "review_request \<Rightarrow> json option" where
  "loose_body req = (case rq_body req of None \<Rightarrow> Some (JObj []) | Some JNull \<Rightarrow> None | Some b \<Rightarrow> Some b)"

definition already_decided :: "string \<Rightarrow> string \<Rightarrow> string" where
  "already_decided ns name = ''AgentTask '' @ ns @ ''/'' @ name @ '' already has a review decision''"

definition reject ::
  "review_deps \<Rightarrow> task_cache \<Rightarrow> review_api \<Rightarrow> int \<Rightarrow> string \<Rightarrow> string \<Rightarrow> review_request \<Rightarrow> review_response \<times> review_call list" where
  "reject deps cache api nowMs ns name req =
     (if \<not> authorized deps req then (Refused 401 ''review-queue writes need the reviewer token'', [])
      else if \<not> rd_customApi deps then (Refused 503 write_disabled, [])
      else
        (case cache ns name of
           None \<Rightarrow> (Refused 404 (not_in_cache ns name), [])
         | Some task \<Rightarrow>
             if annotation task REVIEW_DECISION \<noteq> None then (Refused 409 (already_decided ns name), [])
             else
               (case loose_body req of
                  None \<Rightarrow> (Crashed, [])
                | Some body \<Rightarrow>
                    (case classifyTask deps task nowMs of
                       None \<Rightarrow> (Refused 409 ''task is not in review queue'', [])
                     | Some row \<Rightarrow>
                         (let call = PatchTask ns name (decision_annotations deps nowMs ''rejected'' (extractReviewerId req body)) in
                          if \<not> ra_patch api then (Refused 500 ''patch annotation failed'', [call])
                          else (RejectedTask (qr_taskRef row), call # audited deps ''review.rejected''))))))"

definition request ::
  "review_deps \<Rightarrow> task_cache \<Rightarrow> review_api \<Rightarrow> int \<Rightarrow> string \<Rightarrow> string \<Rightarrow> review_request \<Rightarrow> review_response \<times> review_call list" where
  "request deps cache api nowMs ns name req =
     (if \<not> authorized deps req then (Refused 401 ''review-queue writes need the reviewer token'', [])
      else if \<not> rd_customApi deps then (Refused 503 write_disabled, [])
      else
        (case cache ns name of
           None \<Rightarrow> (Refused 404 (not_in_cache ns name), [])
         | Some task \<Rightarrow>
             if annotation task REVIEW_DECISION \<noteq> None then (Refused 409 (already_decided ns name), [])
             else if annotation task REVIEW_REQUESTED = Some ''true'' then
               (Refused 409 (''AgentTask '' @ ns @ ''/'' @ name @ '' already has review-requested=true''), [])
             else
               (case loose_body req of
                  None \<Rightarrow> (Crashed, [])
                | Some body \<Rightarrow>
                    (let call = PatchTask ns name
                           [(REVIEW_REQUESTED, ''true''), (REVIEW_REQUESTED_BY, js_or (extractReviewerId req body) ''unknown''),
                            (REVIEW_REQUESTED_AT, rd_iso deps nowMs)] in
                     if \<not> ra_patch api then (Refused 500 ''patch annotation failed'', [call])
                     else (RequestedTask \<lparr>tr_namespace = ns, tr_name = name, tr_uid = js_or (rt_uid task) []\<rparr>,
                           call # audited deps ''review.requested'')))))"

section \<open>What is promoted\<close>

text \<open>The template a call of a handler would leave.\<close>

fun promoted :: "review_call \<Rightarrow> template_manifest option" where
  "promoted (CreateTemplate _ m) = Some m"
| "promoted (ReplaceTemplate _ m _ _) = Some m"
| "promoted _ = None"

lemma select_candidate_spec:
  "select_candidate deps en ec as found = Inr (Some (a, yaml)) \<Longrightarrow> found = Some (a, yaml) \<or>
     a \<in> set as \<and> read_candidate deps a = Inr yaml \<and> (ec \<noteq> None \<longrightarrow> ec = Some (artifactChecksum deps yaml)) \<and>
     (en \<noteq> None \<longrightarrow> ar_name a = en)"
  by (induction deps en ec as found rule: select_candidate.induct) (auto split: if_splits sum.splits)

lemma chosen_candidate_spec:
  assumes "chosen_candidate deps task en ec = Inr (a, yaml)"
  shows "a \<in> set (findCandidateArtifacts task)" "read_candidate deps a = Inr yaml"
    "ec = JUndefined \<or> ec = JStr (artifactChecksum deps yaml)"
proof -
  from assms have "select_candidate deps (json_string en) (json_string ec) (findCandidateArtifacts task) None = Inr (Some (a, yaml))"
    and "ec = JUndefined \<or> (\<exists>s. ec = JStr s)"
    by (auto simp: chosen_candidate_def Let_def split: if_splits sum.splits option.splits json.splits)
  then show "a \<in> set (findCandidateArtifacts task)" "read_candidate deps a = Inr yaml"
    "ec = JUndefined \<or> ec = JStr (artifactChecksum deps yaml)"
    using select_candidate_spec [of deps "json_string en" "json_string ec" "findCandidateArtifacts task" None a yaml] by auto
qed

lemma promotion_names [simp]:
  "PROMOTED_FROM_TASK \<noteq> PROMOTED_ARTIFACT_NAME" "PROMOTED_FROM_TASK \<noteq> PROMOTED_ARTIFACT_CHECKSUM"
  "PROMOTED_ARTIFACT_NAME \<noteq> PROMOTED_ARTIFACT_CHECKSUM"
  by (simp_all add: PROMOTED_FROM_TASK_def PROMOTED_ARTIFACT_NAME_def PROMOTED_ARTIFACT_CHECKSUM_def)

lemmas promotion_names_sym [simp] = promotion_names [symmetric]

text \<open>What a manifest says of its origin survives the merge with the annotations of an older template.\<close>

lemma manifest_annotations [simp]:
  "map_of (tm_annotations (buildAgentTemplateManifest n ns tns t an ck spec)) PROMOTED_FROM_TASK = Some (tns @ ''/'' @ t)"
  "map_of (tm_annotations (buildAgentTemplateManifest n ns tns t an ck spec)) PROMOTED_ARTIFACT_CHECKSUM = Some ck"
  "tm_spec (buildAgentTemplateManifest n ns tns t an ck spec) = spec"
  "tm_namespace (buildAgentTemplateManifest n ns tns t an ck spec) = ns"
  by (auto simp: buildAgentTemplateManifest_def split: option.splits)

lemma merged_manifest_annotations [simp]:
  "map_of (merged_annotations old (tm_annotations (buildAgentTemplateManifest n ns tns t an ck spec))) PROMOTED_FROM_TASK =
     Some (tns @ ''/'' @ t)"
  "map_of (merged_annotations old (tm_annotations (buildAgentTemplateManifest n ns tns t an ck spec))) PROMOTED_ARTIFACT_CHECKSUM =
     Some ck"
  by (auto simp: buildAgentTemplateManifest_def merged_annotations_def update_conv' split: option.splits)

text \<open>The one write of a revision.\<close>

definition sourced_before :: "review_deps \<Rightarrow> task_cache \<Rightarrow> review_api \<Rightarrow> string \<Rightarrow> review_task \<Rightarrow> bool" where
  "sourced_before deps cache api source target \<longleftrightarrow>
     (\<exists>sns sname sourceTask before after. js_split CHR ''/'' source = [sns, sname] \<and>
        source_task cache api sns sname = Some sourceTask \<and> completedAt deps sourceTask = Some before \<and>
        completedAt deps target = Some after \<and> before < after)"

lemma replacement_call:
  assumes "replacement deps api namespace manifest existing version sourceTask target = (r, calls)" and "c \<in> set calls"
  shows "c = ReplaceTemplate namespace
      (manifest\<lparr>tm_annotations := merged_annotations (or_empty (tp_annotations existing)) (tm_annotations manifest)\<rparr>)
      (tp_labels existing) version \<and>
    (\<exists>before after. completedAt deps sourceTask = Some before \<and> completedAt deps target = Some after \<and> before < after)"
  using assms by (auto simp: replacement_def split: option.splits if_splits)

lemma revise_from_call:
  assumes "revise_from deps cache api namespace manifest target existing version source recorded = (r, calls)" and "c \<in> set calls"
  shows "c = ReplaceTemplate namespace
      (manifest\<lparr>tm_annotations := merged_annotations (or_empty (tp_annotations existing)) (tm_annotations manifest)\<rparr>)
      (tp_labels existing) version \<and> sourced_before deps cache api source target"
  using assms
  by (auto simp: revise_from_def sourced_before_def split: list.splits if_splits option.splits sum.splits dest!: replacement_call)

lemma revise_call:
  assumes "reviseQueueTemplate deps cache api namespace manifest target = (r, calls)" and "c \<in> set calls"
  obtains existing version source where "ra_template api = Some existing"
    "map_of (or_empty (tp_annotations existing)) PROMOTED_FROM_TASK = Some source" "source \<noteq> []"
    "tp_resourceVersion existing = Some version" "version \<noteq> []"
    "sourced_before deps cache api source target"
    "c = ReplaceTemplate namespace
      (manifest\<lparr>tm_annotations := merged_annotations (or_empty (tp_annotations existing)) (tm_annotations manifest)\<rparr>)
      (tp_labels existing) version"
proof -
  from assms obtain existing recorded where e: "ra_template api = Some existing"
    and source: "js_or (map_of (or_empty (tp_annotations existing)) PROMOTED_FROM_TASK) [] \<noteq> []"
    and version: "js_or (tp_resourceVersion existing) [] \<noteq> []"
    and run: "revise_from deps cache api namespace manifest target existing (js_or (tp_resourceVersion existing) [])
      (js_or (map_of (or_empty (tp_annotations existing)) PROMOTED_FROM_TASK) []) recorded = (r, calls)"
    by (auto simp: reviseQueueTemplate_def Let_def split: option.splits if_splits)
  from source obtain s where s: "map_of (or_empty (tp_annotations existing)) PROMOTED_FROM_TASK = Some s" "s \<noteq> []"
    by (cases "map_of (or_empty (tp_annotations existing)) PROMOTED_FROM_TASK") auto
  from version obtain v where v: "tp_resourceVersion existing = Some v" "v \<noteq> []"
    by (cases "tp_resourceVersion existing") auto
  show thesis
    by (rule that [OF e s v]) (use revise_from_call [OF run assms(2)] s v in auto)
qed

text \<open>The template a manifest stands for: what it holds and where it comes from.\<close>

definition proves :: "template_manifest \<Rightarrow> template_manifest \<Rightarrow> bool" where
  "proves m0 m \<longleftrightarrow> tm_spec m = tm_spec m0 \<and>
     map_of (tm_annotations m) PROMOTED_FROM_TASK = map_of (tm_annotations m0) PROMOTED_FROM_TASK \<and>
     map_of (tm_annotations m) PROMOTED_ARTIFACT_CHECKSUM = map_of (tm_annotations m0) PROMOTED_ARTIFACT_CHECKSUM"

lemma revise_promotes:
  assumes "reviseQueueTemplate deps cache api namespace (buildAgentTemplateManifest n ns tns t an ck spec) target = (r, calls)"
    and "c \<in> set calls"
  shows "\<exists>m. promoted c = Some m \<and> proves (buildAgentTemplateManifest n ns tns t an ck spec) m"
  by (rule revise_call [OF assms]) (simp add: proves_def)

lemma create_promotes:
  assumes "create_template deps cache api (buildAgentTemplateManifest n ns tns t an ck spec) target = (r, calls)"
    and "c \<in> set calls"
  shows "\<exists>m. promoted c = Some m \<and> proves (buildAgentTemplateManifest n ns tns t an ck spec) m"
  using assms
  by (fastforce simp: create_template_def Let_def proves_def split: sum.splits prod.splits revision.splits if_splits
      dest!: revise_promotes)

lemma record_no_promotion:
  assumes "record_acceptance deps api nowMs ns name rid ref t = (r, calls)" and "c \<in> set calls"
  shows "promoted c = None"
  using assms by (auto simp: record_acceptance_def audited_def Let_def split: if_splits)

lemma accept_candidate_promotes:
  assumes "accept_candidate deps cache api nowMs ns name body reconcile rid task ref cand = (resp, calls)"
    and "c \<in> set calls" and "promoted c = Some m"
  shows "\<exists>a yaml spec. a \<in> set (findCandidateArtifacts task) \<and> read_candidate deps a = Inr yaml \<and>
    parse_spec deps yaml = Inr spec \<and> tm_spec m = spec \<and>
    map_of (tm_annotations m) PROMOTED_FROM_TASK = Some (ns @ ''/'' @ name) \<and>
    map_of (tm_annotations m) PROMOTED_ARTIFACT_CHECKSUM = Some (artifactChecksum deps yaml) \<and>
    (field body ''expectedArtifactChecksum'' = JUndefined \<or>
     field body ''expectedArtifactChecksum'' = JStr (artifactChecksum deps yaml))"
proof -
  let ?ec = "field body ''expectedArtifactChecksum''"
  from assms obtain a yaml where chosen: "chosen_candidate deps task (field body ''expectedArtifactName'') ?ec = Inr (a, yaml)"
    by (auto simp: accept_candidate_def Let_def split: sum.splits)
  with assms obtain spec where spec: "parse_spec deps yaml = Inr spec"
    by (auto simp: accept_candidate_def Let_def split: sum.splits option.splits)
  define m0 where "m0 = candidate_manifest deps task cand ns name ?ec a yaml spec"
  obtain n nsp where m0: "m0 = buildAgentTemplateManifest n nsp ns name (ar_name a) (artifactChecksum deps yaml) spec"
    by (simp add: m0_def candidate_manifest_def)
  have "(\<exists>r calls'. reviseQueueTemplate deps cache api (tm_namespace m0) m0 task = (r, calls') \<and> c \<in> set calls') \<or>
    (\<exists>r calls'. create_template deps cache api m0 task = (r, calls') \<and> c \<in> set calls')"
    using assms chosen spec
    by (auto simp: accept_candidate_def Let_def m0_def split: if_splits option.splits prod.splits sum.splits revision.splits
        dest: record_no_promotion)
  then obtain m' where "promoted c = Some m'" "proves m0 m'"
    unfolding m0 by (auto dest: revise_promotes create_promotes)
  then have "proves m0 m"
    using assms(3) by simp
  then have "tm_spec m = spec \<and> map_of (tm_annotations m) PROMOTED_FROM_TASK = Some (ns @ ''/'' @ name) \<and>
    map_of (tm_annotations m) PROMOTED_ARTIFACT_CHECKSUM = Some (artifactChecksum deps yaml)"
    unfolding m0 proves_def by simp
  then show ?thesis
    using chosen_candidate_spec [OF chosen] spec by blast
qed

lemma accept_cases:
  assumes "accept deps cache api nowMs ns name req = (resp, calls)" and "calls \<noteq> [] \<or> (\<exists>ref t. resp = AcceptedTask ref t)"
  obtains task row where "authorized deps req" "cache ns name = Some task" "classifyTask deps task nowMs = Some row"
    "annotation task REVIEW_DECISION = (if field (object_body req) ''reconcileAccepted'' = JBool True then Some ''accepted'' else None)"
    "case qr_candidateTemplate row of
       Some c \<Rightarrow> accept_candidate deps cache api nowMs ns name (object_body req)
           (field (object_body req) ''reconcileAccepted'' = JBool True) (extractReviewerId req (object_body req)) task
           (qr_taskRef row) c = (resp, calls)
     | None \<Rightarrow> record_acceptance deps api nowMs ns name (extractReviewerId req (object_body req)) (qr_taskRef row) None = (resp, calls)"
  using assms
  by (auto simp: accept_def Let_def split: if_splits option.splits)

text \<open>
  C8. Nothing is promoted but what was reviewed. Whatever template an accepted task creates or
  replaces, by whoever holds the reviewer's token, its spec is parsed from the very bytes of one of
  the task's candidate artifacts, whose digest it carries; if the reviewer named a digest it is that
  one; the spec is one the custom resource takes; and the task was undecided, or accepted and to be
  reconciled.
\<close>

theorem promotion_is_reviewed:
  assumes "accept deps cache api nowMs ns name req = (resp, calls)" and "c \<in> set calls" and "promoted c = Some m"
  shows "\<exists>task a yaml doc. authorized deps req \<and> cache ns name = Some task \<and>
    a \<in> set (findCandidateArtifacts task) \<and> read_candidate deps a = Inr yaml \<and>
    parse_spec deps yaml = Inr (tm_spec m) \<and> tm_spec m = JObj doc \<and> good_template doc \<and>
    map_of (tm_annotations m) PROMOTED_FROM_TASK = Some (ns @ ''/'' @ name) \<and>
    map_of (tm_annotations m) PROMOTED_ARTIFACT_CHECKSUM = Some (artifactChecksum deps yaml) \<and>
    (field (object_body req) ''expectedArtifactChecksum'' = JUndefined \<or>
     field (object_body req) ''expectedArtifactChecksum'' = JStr (artifactChecksum deps yaml)) \<and>
    (annotation task REVIEW_DECISION = None \<or>
     annotation task REVIEW_DECISION = Some ''accepted'' \<and> field (object_body req) ''reconcileAccepted'' = JBool True)"
proof (rule accept_cases [OF assms(1)])
  show "calls \<noteq> [] \<or> (\<exists>ref t. resp = AcceptedTask ref t)" using assms(2) by auto
next
  fix task row
  assume task: "authorized deps req" "cache ns name = Some task"
    and decided: "annotation task REVIEW_DECISION = (if field (object_body req) ''reconcileAccepted'' = JBool True then Some ''accepted'' else None)"
    and run: "case qr_candidateTemplate row of
       Some c \<Rightarrow> accept_candidate deps cache api nowMs ns name (object_body req)
           (field (object_body req) ''reconcileAccepted'' = JBool True) (extractReviewerId req (object_body req)) task
           (qr_taskRef row) c = (resp, calls)
     | None \<Rightarrow> record_acceptance deps api nowMs ns name (extractReviewerId req (object_body req)) (qr_taskRef row) None = (resp, calls)"
  then obtain cand where "accept_candidate deps cache api nowMs ns name (object_body req)
     (field (object_body req) ''reconcileAccepted'' = JBool True) (extractReviewerId req (object_body req)) task
     (qr_taskRef row) cand = (resp, calls)"
    using assms(2,3) by (auto split: option.splits dest: record_no_promotion)
  from accept_candidate_promotes [OF this assms(2,3)] obtain a yaml where
    a: "a \<in> set (findCandidateArtifacts task)" "read_candidate deps a = Inr yaml" "parse_spec deps yaml = Inr (tm_spec m)"
    "map_of (tm_annotations m) PROMOTED_FROM_TASK = Some (ns @ ''/'' @ name)"
    "map_of (tm_annotations m) PROMOTED_ARTIFACT_CHECKSUM = Some (artifactChecksum deps yaml)"
    "field (object_body req) ''expectedArtifactChecksum'' = JUndefined \<or>
     field (object_body req) ''expectedArtifactChecksum'' = JStr (artifactChecksum deps yaml)"
    by blast
  from a(3) obtain doc where "tm_spec m = JObj doc" "good_template doc"
    unfolding parse_spec_def by (rule accepted_template)
  with task decided a show ?thesis by (auto split: if_splits)
qed

section \<open>What is accepted\<close>

lemma audited_no_patch: "c \<in> set (audited deps type) \<Longrightarrow> c \<noteq> PatchTask ns' n' as"
  by (auto simp: audited_def split: if_splits)


definition one_patch :: "review_call list \<Rightarrow> review_call list \<Rightarrow> bool" where
  "one_patch earlier later \<longleftrightarrow> (\<forall>c \<in> set earlier \<union> set later. \<forall>ns n as. c \<noteq> PatchTask ns n as)"

lemma recorded:
  assumes "record_acceptance deps api nowMs ns name rid ref t = (AcceptedTask ref' t', calls)"
  shows "t' = t \<and> (\<exists>earlier later. calls = earlier @ PatchTask ns name (decision_annotations deps nowMs ''accepted'' rid) # later \<and>
    one_patch earlier later)"
proof -
  let ?earlier = "if t \<noteq> None then audited deps ''template.candidate.promoted'' else []"
  have "one_patch ?earlier (audited deps ''review.accepted'')"
    by (auto simp: one_patch_def dest: audited_no_patch)
  moreover have "t' = t" "calls = ?earlier @ PatchTask ns name (decision_annotations deps nowMs ''accepted'' rid) #
      audited deps ''review.accepted''"
    using assms by (simp_all add: record_acceptance_def Let_def split: if_splits)
  ultimately show ?thesis by blast
qed











section \<open>A sample\<close>

definition sample_api :: review_api where
  "sample_api = \<lparr>ra_create = Inr (JObj [(''metadata'', JObj [(''name'', JStr ''fixer'')])]), ra_template = None,
     ra_task = (\<lambda>_ _. None), ra_dryRun = Some, ra_replace = None, ra_patch = True\<rparr>"

definition sample_request :: review_request where
  "sample_request = \<lparr>rq_authorization = None, rq_forwardedUser = Some ''rae'', rq_user = None, rq_body = None\<rparr>"

definition sample_cache :: task_cache where
  "sample_cache ns name = (if ns = ''lab'' \<and> name = ''t1'' then Some (sample_candidate ''ii'') else None)"

definition sample_ref :: artifact_ref where
  "sample_ref = the (projectCandidateArtifact (sample_artifact ''gpt''))"

lemma sample_ref_facts:
  "findCandidateArtifacts (sample_candidate e) = [sample_ref]" "read_candidate sample_deps sample_ref = Inr ''gpt''"
  "ar_name sample_ref = Some ''fixer''" "json_string JUndefined = None"
  by (simp_all add: findCandidateArtifacts_def sample_candidate_def sample_artifact_def projectCandidateArtifact_def obj_get_def
      map_filter_simps sample_ref_def read_candidate_def sample_deps_def)

definition sample_spec :: json where
  "sample_spec = JObj [(''agentSpec'', JObj [(''model'', JStr ''gpt'')])]"

lemma sample_parsed: "parse_spec sample_deps ''gpt'' = Inr sample_spec"
proof -
  have "good_template [(''agentSpec'', JObj [(''model'', JStr ''gpt'')])]"
    by (auto simp: good_template_def obj_get_def declared_def js_trim_def js_space_def optional_integer_def strings_within_def
        split: option.splits)
  then have "template_error num [(''agentSpec'', JObj [(''model'', JStr ''gpt'')])] = None" for num
    by (simp only: template_error_None)
  then show ?thesis
    by (simp add: parse_spec_def parseAgentTemplateSpec_def sample_deps_def sample_spec_def)
qed

definition sample_manifest :: template_manifest where
  "sample_manifest = buildAgentTemplateManifest ''fixer'' ''lab'' ''lab'' ''t1'' (Some ''fixer'') ''sha256:gpt'' sample_spec"

lemma sample_chosen: "chosen_candidate sample_deps (sample_candidate e) JUndefined JUndefined = Inr (sample_ref, ''gpt'')"
  by (simp add: chosen_candidate_def sample_ref_facts)

lemma sample_row:
  obtains row where "classifyTask sample_deps (sample_candidate ''ii'') 9000 = Some row"
    "qr_candidateTemplate row = Some \<lparr>tc_artifactRef = sample_ref, tc_proposedTemplateName = ''fixer'', tc_proposedNamespace = ''lab''\<rparr>"
    "qr_taskRef row = \<lparr>tr_namespace = ''lab'', tr_name = ''t1'', tr_uid = ''u1''\<rparr>"
proof -
  obtain row where row: "classifyTask sample_deps (sample_candidate ''ii'') 9000 = Some row"
    using sample_classified(1) by (cases "classifyTask sample_deps (sample_candidate ''ii'') 9000") auto
  show thesis
    by (rule that [OF row])
      (simp_all add: classify_candidate [OF row] classify_ref [OF row] sample_facts sample_ref_def, simp_all add: sample_candidate_def)
qed

lemma sample_accepted:
  "accept sample_deps sample_cache sample_api 9000 ''lab'' ''t1'' sample_request =
    (AcceptedTask \<lparr>tr_namespace = ''lab'', tr_name = ''t1'', tr_uid = ''u1''\<rparr>
       (Some \<lparr>cm_name = Some ''fixer'', cm_namespace = None, cm_uid = None, cm_creationTimestamp = None\<rparr>),
     [CreateTemplate ''lab'' sample_manifest, PatchTask ''lab'' ''t1'' (decision_annotations sample_deps 9000 ''accepted'' (Some ''rae''))])"
proof (rule sample_row)
  fix row
  assume row: "classifyTask sample_deps (sample_candidate ''ii'') 9000 = Some row"
    "qr_candidateTemplate row = Some \<lparr>tc_artifactRef = sample_ref, tc_proposedTemplateName = ''fixer'', tc_proposedNamespace = ''lab''\<rparr>"
    "qr_taskRef row = \<lparr>tr_namespace = ''lab'', tr_name = ''t1'', tr_uid = ''u1''\<rparr>"
  have deps: "rd_customApi sample_deps" "authorized sample_deps req" "artifactChecksum sample_deps s = ''sha256:'' @ s"
    "audited sample_deps ty = []" for req s ty
    by (simp_all add: sample_deps_def authorized_def artifactChecksum_def audited_def)
  have body: "object_body sample_request = JObj []" "obj_get [] k = JUndefined"
    "extractReviewerId sample_request (JObj []) = Some ''rae''" for k
    by (simp_all add: sample_request_def object_body_def obj_get_def extractReviewerId_def Let_def js_trim_def js_space_def)
  have manifest: "candidate_manifest sample_deps t \<lparr>tc_artifactRef = sample_ref, tc_proposedTemplateName = ''fixer'',
      tc_proposedNamespace = ''lab''\<rparr> ''lab'' ''t1'' JUndefined sample_ref ''gpt'' sample_spec = sample_manifest" for t
    by (simp add: candidate_manifest_def sample_manifest_def sample_ref_facts deps)
  have made: "create_template sample_deps sample_cache sample_api sample_manifest t =
     (Inr \<lparr>cm_name = Some ''fixer'', cm_namespace = None, cm_uid = None, cm_creationTimestamp = None\<rparr>, [CreateTemplate ''lab'' sample_manifest])" for t
    by (simp add: create_template_def sample_api_def readCreatedMeta_def obj_get_def sample_manifest_def)
  have patched: "ra_patch sample_api"
    by (simp add: sample_api_def)
  have cached: "sample_cache ''lab'' ''t1'' = Some (sample_candidate ''ii'')"
    by (simp add: sample_cache_def)
  show ?thesis
    by (simp add: accept_def deps body cached sample_facts row accept_candidate_def sample_chosen sample_parsed manifest made
        record_acceptance_def patched Let_def)
qed

theorem promotion_is_reviewed_witness:
  "\<exists>task a yaml doc. authorized sample_deps sample_request \<and> sample_cache ''lab'' ''t1'' = Some task \<and>
    a \<in> set (findCandidateArtifacts task) \<and> read_candidate sample_deps a = Inr yaml \<and>
    parse_spec sample_deps yaml = Inr (tm_spec sample_manifest) \<and> tm_spec sample_manifest = JObj doc \<and> good_template doc"
  using promotion_is_reviewed [OF sample_accepted, of "CreateTemplate ''lab'' sample_manifest" sample_manifest]
  by simp blast


section \<open>A template over time\<close>

text \<open>
  The template of one name on the API server, the copies that revisions in flight have read, and the
  replacements the server has accepted: the template replaced, the snapshots used, and the task
  whose candidate replaced it. \<open>stamp\<close> gives every write a resource version of its own, and a
  replacement goes through only while the version it carries is the current one.
\<close>

record template_world =
  tw_template :: "template_object option"
  tw_clock :: nat
  tw_read :: "template_object list"
  tw_replaced :: "(template_object \<times> task_cache \<times> review_api \<times> review_task) list"

inductive template_step :: "(nat \<Rightarrow> string) \<Rightarrow> review_deps \<Rightarrow> template_world \<Rightarrow> template_world \<Rightarrow> bool" for stamp deps where
  written: "tp_resourceVersion x = Some (stamp (tw_clock w)) \<Longrightarrow>
     template_step stamp deps w (w\<lparr>tw_template := Some x, tw_clock := tw_clock w + 1\<rparr>)"
| deleted: "template_step stamp deps w (w\<lparr>tw_template := None\<rparr>)"
| read: "tw_template w = Some x \<Longrightarrow> template_step stamp deps w (w\<lparr>tw_read := x # tw_read w\<rparr>)"
| replaced: "x \<in> set (tw_read w) \<Longrightarrow> ra_template api = Some x \<Longrightarrow>
     reviseQueueTemplate deps cache api namespace manifest target = (r, calls) \<Longrightarrow>
     ReplaceTemplate namespace m labels version \<in> set calls \<Longrightarrow>
     tw_template w = Some current \<Longrightarrow> tp_resourceVersion current = Some version \<Longrightarrow>
     new = \<lparr>tp_resourceVersion = Some (stamp (tw_clock w)), tp_annotations = Some (tm_annotations m), tp_labels = labels,
            tp_spec = stored, tp_object = obj\<rparr> \<Longrightarrow>
     template_step stamp deps w (w\<lparr>tw_template := Some new, tw_clock := tw_clock w + 1,
       tw_replaced := (current, cache, api, target) # tw_replaced w\<rparr>)"

definition forward :: "review_deps \<Rightarrow> template_object \<times> task_cache \<times> review_api \<times> review_task \<Rightarrow> bool" where
  "forward deps = (\<lambda>(old, cache, api, target). \<exists>source.
     map_of (or_empty (tp_annotations old)) PROMOTED_FROM_TASK = Some source \<and> sourced_before deps cache api source target)"

definition world_ok :: "(nat \<Rightarrow> string) \<Rightarrow> review_deps \<Rightarrow> template_world \<Rightarrow> bool" where
  "world_ok stamp deps w \<longleftrightarrow>
     (\<forall>x \<in> set (tw_read w) \<union> set_option (tw_template w). \<exists>k < tw_clock w. tp_resourceVersion x = Some (stamp k)) \<and>
     (\<forall>x \<in> set (tw_read w). \<forall>y \<in> set_option (tw_template w). tp_resourceVersion x = tp_resourceVersion y \<longrightarrow> x = y) \<and>
     (\<forall>e \<in> set (tw_replaced w). forward deps e)"

lemma fresh_version:
  assumes "world_ok stamp deps w" and "inj stamp" and "x \<in> set (tw_read w)"
  shows "tp_resourceVersion x \<noteq> Some (stamp (tw_clock w))"
proof -
  obtain k where "k < tw_clock w" "tp_resourceVersion x = Some (stamp k)"
    using assms(1,3) unfolding world_ok_def by blast
  then show ?thesis using assms(2) by (auto dest: injD)
qed

lemma world_written:
  assumes "world_ok stamp deps w" and "inj stamp" and "tp_resourceVersion x = Some (stamp (tw_clock w))"
  shows "world_ok stamp deps (w\<lparr>tw_template := Some x, tw_clock := tw_clock w + 1\<rparr>)"
proof -
  have "\<exists>k < tw_clock w + 1. tp_resourceVersion y = Some (stamp k)" if "y \<in> set (tw_read w)" for y
    using assms(1) that unfolding world_ok_def by (meson UnI1 less_add_one less_trans)
  then show ?thesis
    using assms fresh_version [OF assms(1,2)] by (auto simp: world_ok_def)
qed

lemma replaced_forward:
  assumes "world_ok stamp deps w" and "x \<in> set (tw_read w)" and "ra_template api = Some x"
    and "reviseQueueTemplate deps cache api namespace manifest target = (r, calls)"
    and "ReplaceTemplate namespace m labels version \<in> set calls"
    and "tw_template w = Some current" and "tp_resourceVersion current = Some version"
  shows "forward deps (current, cache, api, target)"
proof (rule revise_call [OF assms(4,5)])
  fix existing v source
  assume e: "ra_template api = Some existing" "map_of (or_empty (tp_annotations existing)) PROMOTED_FROM_TASK = Some source"
    "tp_resourceVersion existing = Some v" "sourced_before deps cache api source target"
    "ReplaceTemplate namespace m labels version = ReplaceTemplate namespace
      (manifest\<lparr>tm_annotations := merged_annotations (or_empty (tp_annotations existing)) (tm_annotations manifest)\<rparr>)
      (tp_labels existing) v"
  then have "x = current"
    using assms(1,2,3,6,7) by (auto simp: world_ok_def)
  then show ?thesis using e assms(3) by (auto simp: forward_def)
qed

lemma template_step_ok: "template_step stamp deps w w' \<Longrightarrow> inj stamp \<Longrightarrow> world_ok stamp deps w \<Longrightarrow> world_ok stamp deps w'"
proof (induction rule: template_step.induct)
  case (written x w)
  then show ?case by (blast intro: world_written)
next
  case (replaced x w api cache namespace manifest target r calls m labels version current new stored obj)
  have "forward deps (current, cache, api, target)"
    using replaced_forward replaced by blast
  moreover have "world_ok stamp deps (w\<lparr>tw_template := Some new, tw_clock := tw_clock w + 1\<rparr>)"
    using replaced by (intro world_written) auto
  ultimately show ?case by (simp add: world_ok_def)
qed (auto simp: world_ok_def)

definition no_template :: template_world where
  "no_template = \<lparr>tw_template = None, tw_clock = 0, tw_read = [], tw_replaced = []\<rparr>"

lemma no_template_ok: "world_ok stamp deps no_template"
  by (simp add: no_template_def world_ok_def)

text \<open>
  C38. A template only moves forward. Whatever else writes it and however revisions interleave, the
  template a revision replaces is, at that moment, one the queue promoted, and the task it came from
  completed strictly before the task whose candidate replaces it.
\<close>

theorem template_moves_forward:
  assumes "inj stamp" and "(template_step stamp deps)\<^sup>*\<^sup>* no_template w" and "(old, cache, api, target) \<in> set (tw_replaced w)"
  shows "\<exists>source. map_of (or_empty (tp_annotations old)) PROMOTED_FROM_TASK = Some source \<and>
    sourced_before deps cache api source target"
proof -
  have "world_ok stamp deps w"
    using assms(2)
    by (induction rule: rtranclp_induct) (auto simp: no_template_ok intro: template_step_ok [OF _ assms(1)])
  then show ?thesis
    using assms(3) by (fastforce simp: world_ok_def forward_def)
qed

definition sample_stamp :: "nat \<Rightarrow> string" where
  "sample_stamp n = replicate (Suc n) CHR ''v''"

lemma sample_stamp_inj: "inj sample_stamp"
  by (auto simp: inj_def sample_stamp_def)

definition sample_template :: template_object where
  "sample_template = \<lparr>tp_resourceVersion = Some (sample_stamp 0), tp_annotations = Some [(PROMOTED_FROM_TASK, ''lab/t0'')],
     tp_labels = None, tp_spec = JNull, tp_object = JNull\<rparr>"

definition older_cache :: task_cache where
  "older_cache ns name = (if ns = ''lab'' \<and> name = ''t0'' then Some (sample_candidate ''i'') else None)"

lemma sample_completed: "completedAt sample_deps (sample_candidate e) = (if e = [] then None else Some (1000 * int (length e)))"
  by (simp add: completedAt_def sample_facts sample_deps_def)

lemma sample_revision:
  "\<exists>r m. reviseQueueTemplate sample_deps older_cache (sample_api\<lparr>ra_template := Some sample_template\<rparr>) ''lab'' sample_manifest
     (sample_candidate ''ii'') = (r, [ReplaceTemplate ''lab'' m None (sample_stamp 0)])"
  by (simp add: reviseQueueTemplate_def sample_template_def revise_from_def source_task_def older_cache_def replacement_def
      sample_completed Let_def PROMOTED_FROM_TASK_def PROMOTED_ARTIFACT_NAME_def PROMOTED_ARTIFACT_CHECKSUM_def sample_manifest_def
      buildAgentTemplateManifest_def, simp add: sample_stamp_def)

theorem template_moves_forward_witness:
  "\<exists>w api. (template_step sample_stamp sample_deps)\<^sup>*\<^sup>* no_template w \<and>
     (sample_template, older_cache, api, sample_candidate ''ii'') \<in> set (tw_replaced w) \<and>
     sourced_before sample_deps older_cache api ''lab/t0'' (sample_candidate ''ii'')"
proof -
  let ?api = "sample_api\<lparr>ra_template := Some sample_template\<rparr>"
  let ?w1 = "no_template\<lparr>tw_template := Some sample_template, tw_clock := tw_clock no_template + 1\<rparr>"
  let ?w2 = "?w1\<lparr>tw_read := sample_template # tw_read ?w1\<rparr>"
  obtain r m where "reviseQueueTemplate sample_deps older_cache ?api ''lab'' sample_manifest (sample_candidate ''ii'') =
      (r, [ReplaceTemplate ''lab'' m None (sample_stamp 0)])"
    using sample_revision by blast
  from template_step.replaced [where x = sample_template and w = ?w2 and m = m and labels = None and version = "sample_stamp 0"
      and current = sample_template and stamp = sample_stamp and stored = JNull and obj = JNull, OF _ _ this]
  obtain w3 where w3: "template_step sample_stamp sample_deps ?w2 w3"
    "(sample_template, older_cache, ?api, sample_candidate ''ii'') \<in> set (tw_replaced w3)"
    by (fastforce simp: sample_template_def)
  have "template_step sample_stamp sample_deps no_template ?w1"
    by (rule template_step.written) (simp add: sample_template_def no_template_def)
  moreover have "template_step sample_stamp sample_deps ?w1 ?w2"
    by (rule template_step.read) simp
  ultimately have reach: "(template_step sample_stamp sample_deps)\<^sup>*\<^sup>* no_template w3"
    using w3(1) by (meson rtranclp.rtrancl_into_rtrancl rtranclp.rtrancl_refl)
  from template_moves_forward [OF sample_stamp_inj this w3(2)]
  have "sourced_before sample_deps older_cache ?api ''lab/t0'' (sample_candidate ''ii'')"
    by (simp add: sample_template_def)
  then show ?thesis using reach w3(2) by blast
qed

section \<open>Gaps\<close>

text \<open>
  A template that this very task promoted is never revised by it again: where the API server stores
  the spec with its defaults, an acceptance whose patch failed cannot be repeated.
\<close>

lemma js_split_none: "c \<notin> set s \<Longrightarrow> js_split c s = [s]"
  by (induction s) auto

lemma js_split_once: "c \<notin> set a \<Longrightarrow> c \<notin> set b \<Longrightarrow> js_split c (a @ c # b) = [a, b]"
  by (induction a) (auto simp: js_split_none)

lemma own_replacement:
  "replacement deps api ns m existing v t t = (NotRevised ''candidate is not strictly newer than current template source'' False, [])"
  by (simp add: replacement_def split: option.splits)

lemma admission_refuses: "admission_matches deps api spec rn rc as = Inl r \<Longrightarrow> \<exists>e b. r = NotRevised e b"
proof (induction as)
  case (Cons a as)
  then show ?case
    by (cases "admission_matches deps api spec rn rc as")
      (auto simp: revision_conflict_def split: if_splits option.splits sum.splits)
qed simp

lemma own_revise_from:
  assumes "CHR ''/'' \<notin> set ns" and "CHR ''/'' \<notin> set name" and "cache ns name = Some task"
  shows "\<exists>e b. revise_from deps cache api tns m task existing v (ns @ CHR ''/'' # name) recorded = (NotRevised e b, [])"
  using assms by (auto simp: revise_from_def js_split_once source_task_def own_replacement revision_conflict_def
      split: option.splits sum.splits dest!: admission_refuses)

theorem own_template_not_revised:
  assumes "ra_template api = Some existing" and "map_of (or_empty (tp_annotations existing)) PROMOTED_FROM_TASK = Some (ns @ ''/'' @ name)"
    and "CHR ''/'' \<notin> set ns" and "CHR ''/'' \<notin> set name" and "cache ns name = Some task"
    and "\<not> deep_equal (tp_spec existing) (tm_spec manifest)"
  shows "\<exists>e b. reviseQueueTemplate deps cache api tns manifest task = (NotRevised e b, [])"
proof -
  note own = own_revise_from [where cache = cache, OF assms(3-5)]
  show ?thesis
    using assms(1,2,6)
    by (auto simp: reviseQueueTemplate_def Let_def own split: option.splits)
qed

text \<open>A body of null makes a rejection fail with an error that is not handled.\<close>

theorem null_body_crashes:
  assumes "authorized deps req" and "rd_customApi deps" and "cache ns name = Some task" and "annotation task REVIEW_DECISION = None"
    and "rq_body req = Some JNull"
  shows "reject deps cache api nowMs ns name req = (Crashed, [])"
  using assms by (simp add: reject_def loose_body_def)

lemma sample_rejected:
  "reject sample_deps sample_cache sample_api 9001 ''lab'' ''t1'' sample_request =
    (RejectedTask \<lparr>tr_namespace = ''lab'', tr_name = ''t1'', tr_uid = ''u1''\<rparr>,
     [PatchTask ''lab'' ''t1'' (decision_annotations sample_deps 9001 ''rejected'' (Some ''rae''))])"
proof -
  have "classifyTask sample_deps (sample_candidate ''ii'') 9001 \<noteq> None"
    unfolding classify_Some by (simp add: sample_facts)
  then obtain row where row: "classifyTask sample_deps (sample_candidate ''ii'') 9001 = Some row" by blast
  have "qr_taskRef row = \<lparr>tr_namespace = ''lab'', tr_name = ''t1'', tr_uid = ''u1''\<rparr>"
    by (simp add: classify_ref [OF row] sample_candidate_def)
  moreover have "authorized sample_deps sample_request" "rd_customApi sample_deps" "ra_patch sample_api"
    "sample_cache ''lab'' ''t1'' = Some (sample_candidate ''ii'')" "loose_body sample_request = Some (JObj [])"
    "extractReviewerId sample_request (JObj []) = Some ''rae''" "audited sample_deps ty = []" for ty
    by (simp_all add: sample_deps_def authorized_def sample_api_def sample_cache_def loose_body_def sample_request_def
        extractReviewerId_def Let_def js_trim_def js_space_def obj_get_def audited_def)
  ultimately show ?thesis
    by (simp add: reject_def row sample_facts)
qed

text \<open>
  The decision is checked against the snapshot and written by a patch without a resource version: an
  acceptance and a rejection over the same snapshot both succeed, and the template stays promoted.
\<close>

theorem accepted_and_rejected:
  "\<exists>calls ref t calls'. accept sample_deps sample_cache sample_api 9000 ''lab'' ''t1'' sample_request = (AcceptedTask ref (Some t), calls) \<and>
     reject sample_deps sample_cache sample_api 9001 ''lab'' ''t1'' sample_request = (RejectedTask ref, calls') \<and>
     CreateTemplate ''lab'' sample_manifest \<in> set calls \<and>
     PatchTask ''lab'' ''t1'' (decision_annotations sample_deps 9001 ''rejected'' (Some ''rae'')) \<in> set calls'"
  using sample_accepted sample_rejected by fastforce

end
