(* ===== verification/Locality.thy ===== *)
theory Locality
  imports Crds TemplateCandidate "HOL-Library.Multiset"
begin

text \<open>
  The locality helpers of \<^verbatim>\<open>packages/locality-controller/src\<close>: the ring buffer of latencies per
  agent and its median, the decision to run a straggling task twice and the manifest of its twin, and
  the node affinity derived from the volume of a workspace. Latencies are exact rationals.
\<close>

section \<open>Latencies of one agent\<close>

definition DEFAULT_HISTOGRAM_CAPACITY :: nat where "DEFAULT_HISTOGRAM_CAPACITY = 100"
definition DEFAULT_MIN_SAMPLES :: nat where "DEFAULT_MIN_SAMPLES = 5"
definition DEFAULT_SPECULATIVE_THRESHOLD :: rat where "DEFAULT_SPECULATIVE_THRESHOLD = 3"

text \<open>The buffer is an array with holes.\<close>

record histogram =
  hg_capacity :: nat
  hg_buf :: "rat option list"
  hg_size :: nat
  hg_writeIdx :: nat

definition new_histogram :: "jsnum \<Rightarrow> string + histogram" where
  "new_histogram capacity =
     (case capacity of
        Fin q \<Rightarrow>
          if js_isInteger q \<and> 0 < q then
            (let c = nat \<lfloor>q\<rfloor> in
             Inr \<lparr>hg_capacity = c, hg_buf = replicate c None, hg_size = 0, hg_writeIdx = 0\<rparr>)
          else Inl ''LatencyHistogram capacity must be a positive integer''
      | NonFinite \<Rightarrow> Inl ''LatencyHistogram capacity must be a positive integer'')"

definition record_latency :: "jsnum \<Rightarrow> histogram \<Rightarrow> histogram" where
  "record_latency durationMs h =
     (case durationMs of
        NonFinite \<Rightarrow> h
      | Fin q \<Rightarrow>
          if q < 0 then h
          else h\<lparr>hg_buf := (hg_buf h)[hg_writeIdx h := Some q], hg_writeIdx := (hg_writeIdx h + 1) mod hg_capacity h,
                 hg_size := (if hg_size h < hg_capacity h then hg_size h + 1 else hg_size h)\<rparr>)"

definition samples :: "histogram \<Rightarrow> rat list" where
  "samples h = List.map_filter id (take (hg_size h) (hg_buf h))"

text \<open>The middle of a list of numbers: the element in the middle, or the mean of the two.\<close>

definition middle :: "rat list \<Rightarrow> rat" where
  "middle arr =
     (let mid = length arr div 2 in
      if odd (length arr) then arr ! mid else (arr ! (mid - 1) + arr ! mid) / 2)"

definition median :: "histogram \<Rightarrow> rat" where
  "median h = (if hg_size h = 0 then 0 else middle (sort (samples h)))"

section \<open>All agents\<close>

record registry =
  rg_capacity :: jsnum
  rg_minSamples :: nat
  rg_map :: "(string \<times> histogram) list"

text \<open>An invalid capacity makes the first sample of an agent throw.\<close>

definition histogramFor :: "registry \<Rightarrow> string \<Rightarrow> string + histogram" where
  "histogramFor r agentName = (case map_of (rg_map r) agentName of Some h \<Rightarrow> Inr h | None \<Rightarrow> new_histogram (rg_capacity r))"

definition registry_record :: "string \<Rightarrow> jsnum \<Rightarrow> registry \<Rightarrow> string + registry" where
  "registry_record agentName durationMs r =
     (if agentName = [] then Inr r
      else map_sum id (\<lambda>h. r\<lparr>rg_map := AList.update agentName (record_latency durationMs h) (rg_map r)\<rparr>) (histogramFor r agentName))"

definition registry_median :: "registry \<Rightarrow> string \<Rightarrow> rat option" where
  "registry_median r agentName =
     (case map_of (rg_map r) agentName of
        None \<Rightarrow> None
      | Some h \<Rightarrow> if hg_size h < rg_minSamples r then None else Some (median h))"

definition registry_count :: "registry \<Rightarrow> string \<Rightarrow> nat" where
  "registry_count r agentName = (case map_of (rg_map r) agentName of None \<Rightarrow> 0 | Some h \<Rightarrow> hg_size h)"

section \<open>Whether to run a task twice\<close>

definition SPECULATIVE_TWIN_LABEL :: string where "SPECULATIVE_TWIN_LABEL = ''kagent.knuteson.io/speculative-twin''"
definition SPECULATIVE_PRIMARY_UID_LABEL :: string where
  "SPECULATIVE_PRIMARY_UID_LABEL = ''kagent.knuteson.io/speculative-primary-uid''"

record affinity_binding =
  ab_name :: string
  ab_from :: json

record affinity_task =
  at_uid :: "string option"
  at_namespace :: "string option"
  at_labels :: "(string \<times> string) list option"
  at_annotations :: "(string \<times> string) list option"
  at_spec :: json
  at_inputs :: "affinity_binding list option"

datatype skip_reason =
    Disabled | NoAgent | NoTaskUid | InsufficientSamples | UnderThreshold | NoIdempotencyKey | AlreadyTwin | TerminalTask | NoStartTime

datatype decision = Spawn string rat rat rat | Skip skip_reason

record speculative_options =
  so_enabled :: "bool option"
  so_threshold :: "rat option"

definition readIdempotencyKey :: "affinity_task \<Rightarrow> string option" where
  "readIdempotencyKey t = (case field (at_spec t) ''idempotencyKey'' of JStr k \<Rightarrow> non_empty (Some k) | _ \<Rightarrow> None)"

definition evaluateSpeculative ::
  "affinity_task \<Rightarrow> jsnum \<Rightarrow> string \<Rightarrow> bool \<Rightarrow> registry \<Rightarrow> speculative_options \<Rightarrow> decision" where
  "evaluateSpeculative t elapsedMs agentName isTerminal r options =
     (if \<not> js_or (so_enabled options) False then Skip Disabled
      else if agentName = [] then Skip NoAgent
      else if js_or (at_uid t) [] = [] then Skip NoTaskUid
      else if isTerminal then Skip TerminalTask
      else if readIdempotencyKey t = None then Skip NoIdempotencyKey
      else if map_of (or_empty (at_labels t)) SPECULATIVE_TWIN_LABEL \<noteq> None then Skip AlreadyTwin
      else
        (case elapsedMs of
           NonFinite \<Rightarrow> Skip NoStartTime
         | Fin elapsed \<Rightarrow>
             if elapsed < 0 then Skip NoStartTime
             else
               (case registry_median r agentName of
                  None \<Rightarrow> Skip InsufficientSamples
                | Some m \<Rightarrow>
                    if m \<le> 0 then Skip UnderThreshold
                    else
                      (let thresholdMs = js_or (so_threshold options) DEFAULT_SPECULATIVE_THRESHOLD * m in
                       if elapsed \<le> thresholdMs then Skip UnderThreshold
                       else Spawn agentName elapsed m thresholdMs))))"

record twin_manifest =
  tw_apiVersion :: string
  tw_name :: string
  tw_namespace :: string
  tw_labels :: "(string \<times> string) list"
  tw_annotations :: "(string \<times> string) list option"
  tw_spec :: json

definition buildTwinManifest :: "affinity_task \<Rightarrow> string \<Rightarrow> string + twin_manifest" where
  "buildTwinManifest primary apiVersion =
     (case non_empty (at_uid primary) of
        None \<Rightarrow> Inl ''cannot build speculative twin: primary AgentTask has no metadata.uid''
      | Some uid \<Rightarrow>
          Inr \<lparr>tw_apiVersion = apiVersion, tw_name = ''kts-'' @ take 56 uid,
               tw_namespace = js_or (at_namespace primary) ''default'',
               tw_labels = AList.update SPECULATIVE_PRIMARY_UID_LABEL uid
                 (AList.update SPECULATIVE_TWIN_LABEL ''true'' (or_empty (at_labels primary))),
               tw_annotations = at_annotations primary, tw_spec = at_spec primary\<rparr>)"

text \<open>The twin once the server has created it under a uid of its own.\<close>

definition created_twin :: "string \<Rightarrow> twin_manifest \<Rightarrow> affinity_task \<Rightarrow> affinity_task" where
  "created_twin uid m primary =
     primary\<lparr>at_uid := Some uid, at_namespace := Some (tw_namespace m), at_labels := Some (tw_labels m),
             at_annotations := tw_annotations m, at_spec := tw_spec m\<rparr>"

section \<open>Affinity to a node\<close>

record node_requirement =
  nr_key :: string
  nr_operator :: string
  nr_values :: "string list option"

record node_term =
  nt_matchExpressions :: "node_requirement list option"
  nt_matchFields :: "node_requirement list option"

record workspace =
  ws_pvcName :: "string option"
  ws_bytesUsed :: "rat option"

record workspace_lookup =
  wl_workspace :: "string \<Rightarrow> string \<Rightarrow> workspace option"
  wl_pvc :: "string \<Rightarrow> string \<Rightarrow> string option option"
  wl_pv :: "string \<Rightarrow> node_term list option option"

record candidate =
  cd_workspaceName :: string
  cd_bytesUsed :: rat
  cd_terms :: "node_term list"

datatype input_kind = WorkspaceInput | ArtifactInput | ScalarInput

text \<open>The bindings to workspaces by input name; a later one of a name replaces an earlier one.\<close>

definition workspace_bindings :: "affinity_binding list \<Rightarrow> (string \<times> string) list" where
  "workspace_bindings bindings = foldl (\<lambda>m b.
     if ab_name b = [] then m
     else (case field (ab_from b) ''workspace'' of JStr w \<Rightarrow> if w = [] then m else AList.update (ab_name b) w m | _ \<Rightarrow> m)) [] bindings"

definition usable_terms :: "node_term list \<Rightarrow> node_term list" where
  "usable_terms terms = filter (\<lambda>t. or_empty (nt_matchExpressions t) \<noteq> [] \<or> or_empty (nt_matchFields t) \<noteq> []) terms"

definition candidate_of :: "workspace_lookup \<Rightarrow> string \<Rightarrow> (string \<times> string) list \<Rightarrow> string \<times> input_kind \<Rightarrow> candidate option" where
  "candidate_of lookup namespace bindings decl =
     (if snd decl \<noteq> WorkspaceInput \<or> fst decl = [] then None
      else
        Option.bind (map_of bindings (fst decl)) (\<lambda>wsName.
        Option.bind (wl_workspace lookup wsName namespace) (\<lambda>ws.
        Option.bind (non_empty (ws_pvcName ws)) (\<lambda>pvcName.
        Option.bind (wl_pvc lookup pvcName namespace) (\<lambda>volumeName.
        Option.bind (non_empty volumeName) (\<lambda>pvName.
        Option.bind (wl_pv lookup pvName) (\<lambda>terms.
          (let usable = usable_terms (or_empty terms) in
           if usable = [] then None
           else Some \<lparr>cd_workspaceName = wsName, cd_bytesUsed = js_or (ws_bytesUsed ws) 0, cd_terms = usable\<rparr>))))))))"

definition winner :: "candidate list \<Rightarrow> candidate" where
  "winner cs = foldl (\<lambda>best c. if cd_bytesUsed c > cd_bytesUsed best then c else best) (hd cs) (tl cs)"

text \<open>The terms of the required node affinity.\<close>

definition deriveNodeAffinity :: "(string \<times> input_kind) list option \<Rightarrow> affinity_task \<Rightarrow> workspace_lookup \<Rightarrow> node_term list option" where
  "deriveNodeAffinity inputs t lookup =
     (let namespace = js_or (at_namespace t) ''default''; declaredInputs = or_empty inputs; bindings = or_empty (at_inputs t) in
      if declaredInputs = [] \<or> bindings = [] then None
      else
        (let byName = workspace_bindings bindings in
         if byName = [] then None
         else
           (let candidates = List.map_filter (candidate_of lookup namespace byName) declaredInputs in
            if candidates = [] then None else Some (cd_terms (winner candidates)))))"

section \<open>The window of the ring buffer\<close>

text \<open>The latencies the histogram takes.\<close>

definition accepted :: "jsnum list \<Rightarrow> rat list" where
  "accepted ds = List.map_filter (\<lambda>d. case d of Fin q \<Rightarrow> if q < 0 then None else Some q | NonFinite \<Rightarrow> None) ds"

definition window :: "nat \<Rightarrow> rat list \<Rightarrow> rat list" where
  "window c xs = drop (length xs - c) xs"

definition ring :: "nat \<Rightarrow> rat list \<Rightarrow> histogram \<Rightarrow> bool" where
  "ring c xs h \<longleftrightarrow> hg_capacity h = c \<and> hg_size h = min (length xs) c \<and> hg_writeIdx h = length xs mod c \<and> length (hg_buf h) = c \<and>
     (if length xs < c then hg_buf h = map Some xs @ replicate (c - length xs) None
      else rotate (hg_writeIdx h) (hg_buf h) = map Some (window c xs))"

lemma rotate_update:
  assumes "w < length b"
  shows "rotate (Suc w mod length b) (b[w := x]) = tl (rotate w b) @ [x]"
proof -
  have "rotate w b = b ! w # drop (Suc w) b @ take w b"
    using assms by (simp add: rotate_drop_take Cons_nth_drop_Suc [symmetric])
  moreover have "rotate (Suc w mod length b) (b[w := x]) = drop (Suc w) b @ take w b @ [x]"
  proof (cases "Suc w = length b")
    case True
    then show ?thesis by (simp add: upd_conv_take_nth_drop)
  next
    case False
    with assms show ?thesis by (simp add: rotate_drop_take take_Suc_conv_app_nth)
  qed
  ultimately show ?thesis by simp
qed

lemma ring_record:
  assumes "ring c xs h" and "0 < c" and "0 \<le> q"
  shows "ring c (xs @ [q]) (record_latency (Fin q) h)"
proof -
  consider (filling) "Suc (length xs) < c" | (fills) "Suc (length xs) = c" | (full) "c \<le> length xs" by linarith
  then show ?thesis
  proof cases
    case filling
    then have "c - length xs = Suc (c - Suc (length xs))" by simp
    then show ?thesis
      using assms filling by (simp add: ring_def record_latency_def list_update_append)
  next
    case fills
    then have "c - length xs = Suc 0" by simp
    with fills show ?thesis
      using assms by (simp add: ring_def record_latency_def window_def list_update_append)
  next
    case full
    have "length (hg_buf h) = c" "hg_writeIdx h < c" "rotate (hg_writeIdx h) (hg_buf h) = map Some (window c xs)"
      using assms full by (auto simp: ring_def)
    then have "rotate (Suc (hg_writeIdx h) mod c) ((hg_buf h)[hg_writeIdx h := Some q]) = map Some (window c (xs @ [q]))"
      using rotate_update [of "hg_writeIdx h" "hg_buf h" "Some q"] full assms(2)
      by (simp add: window_def map_tl [symmetric] tl_drop Suc_diff_le drop_Suc)
    then show ?thesis
      using assms full by (simp add: ring_def record_latency_def mod_Suc_eq)
  qed
qed


lemma ring_start: "new_histogram capacity = Inr h \<Longrightarrow> \<exists>c > 0. capacity = Fin (of_nat c) \<and> ring c [] h"
proof -
  assume new: "new_histogram capacity = Inr h"
  then obtain q where q: "capacity = Fin q" "js_isInteger q" "0 < q"
    by (auto simp: new_histogram_def split: jsnum.splits if_splits)
  have "q = of_nat (nat \<lfloor>q\<rfloor>)" "0 < nat \<lfloor>q\<rfloor>"
    using q(2,3) by (auto simp: js_isInteger_def)
  then show ?thesis
    using new q by (intro exI [of _ "nat \<lfloor>q\<rfloor>"]) (auto simp: new_histogram_def ring_def Let_def)
qed

lemma accepted_simps [simp]:
  "accepted [] = []" "accepted (ds @ [d]) = accepted ds @ (case d of Fin q \<Rightarrow> if q < 0 then [] else [q] | NonFinite \<Rightarrow> [])"
  by (simp_all add: accepted_def map_filter_def split: jsnum.splits)

lemma record_ignored: "record_latency NonFinite h = h" "q < 0 \<Longrightarrow> record_latency (Fin q) h = h"
  by (simp_all add: record_latency_def)

lemma ring_all:
  "new_histogram capacity = Inr h \<Longrightarrow>
   \<exists>c > 0. capacity = Fin (of_nat c) \<and> ring c (accepted ds) (foldl (\<lambda>h d. record_latency d h) h ds)"
proof (induction ds rule: rev_induct)
  case Nil
  then show ?case using ring_start by simp
next
  case (snoc d ds)
  then obtain c where "c > 0" "capacity = Fin (of_nat c)" "ring c (accepted ds) (foldl (\<lambda>h d. record_latency d h) h ds)"
    by blast
  then show ?case
    by (intro exI [of _ c]) (auto simp: ring_record not_less record_ignored split: jsnum.splits)
qed

lemma map_filter_Some [simp]: "List.map_filter id (map Some xs) = xs"
  by (induction xs) (simp_all add: map_filter_simps)

lemma map_filter_rotate: "mset (List.map_filter id (rotate n b)) = mset (List.map_filter id b)"
proof -
  have "mset (rotate n b) = mset b"
    by (simp add: rotate_drop_take flip: mset_append) (metis add.commute append_take_drop_id mset_append)
  then show ?thesis by (simp add: map_filter_def)
qed

lemma ring_samples: "ring c xs h \<Longrightarrow> 0 < c \<Longrightarrow> mset (samples h) = mset (window c xs)"
proof (cases "length xs < c")
  case True
  then show "ring c xs h \<Longrightarrow> ?thesis"
    by (simp add: ring_def samples_def window_def)
next
  case False
  assume "ring c xs h"
  with False have "rotate (hg_writeIdx h) (hg_buf h) = map Some (window c xs)"
    unfolding ring_def by argo
  moreover from \<open>ring c xs h\<close> False have "take (hg_size h) (hg_buf h) = hg_buf h"
    by (simp add: ring_def)
  moreover from arg_cong [OF calculation(1), of "\<lambda>b. mset (List.map_filter id b)"]
  have "mset (List.map_filter id (hg_buf h)) = mset (window c xs)"
    by (simp only: map_filter_rotate map_filter_Some)
  ultimately show ?thesis by (simp add: samples_def map_filter_rotate)
qed

text \<open>
  C40. The histogram is the window it is documented to be: after any sequence of observations its
  median is the middle of the sorted list of the last \<open>capacity\<close> latencies that were finite and not
  negative, and 0 when there is none; its count is their number.
\<close>

theorem histogram_is_window:
  assumes "new_histogram capacity = Inr h" and "h' = foldl (\<lambda>h d. record_latency d h) h ds"
  shows "\<exists>c > 0. capacity = Fin (of_nat c) \<and> hg_size h' = length (window c (accepted ds)) \<and>
    median h' = (if accepted ds = [] then 0 else middle (sort (window c (accepted ds))))"
proof -
  from ring_all [OF assms(1)] obtain c where c: "c > 0" "capacity = Fin (of_nat c)" "ring c (accepted ds) h'"
    unfolding assms(2) by blast
  have "sort (samples h') = sort (window c (accepted ds))"
    using ring_samples [OF c(3,1)] by (metis sorted_list_of_multiset_mset)
  moreover have "hg_size h' = length (window c (accepted ds))"
    using c(3) by (auto simp: ring_def window_def)
  moreover have "hg_size h' = 0 \<longleftrightarrow> accepted ds = []"
    using c by (auto simp: ring_def min_def split: if_splits)
  ultimately show ?thesis
    using c by (auto simp: median_def)
qed

theorem histogram_is_window_witness:
  "\<exists>h h'. new_histogram (Fin 2) = Inr h \<and> h' = foldl (\<lambda>h d. record_latency d h) h [Fin 5, NonFinite, Fin 9, Fin 1] \<and> median h' = 5"
proof -
  obtain h where h: "new_histogram (Fin 2) = Inr h"
    by (simp add: new_histogram_def js_isInteger_def Let_def)
  from histogram_is_window [OF h refl, of "[Fin 5, NonFinite, Fin 9, Fin 1]"]
  obtain c where "Fin 2 = Fin (of_nat c)"
    "median (foldl (\<lambda>h d. record_latency d h) h [Fin 5, NonFinite, Fin 9, Fin 1]) = middle (sort (window c [5, 9, 1]))"
    by (auto simp: accepted_def map_filter_simps)
  moreover from this(1) have "c = 2" by (metis jsnum.inject of_nat_eq_iff of_nat_numeral)
  ultimately show ?thesis using h by (auto simp: window_def middle_def)
qed

section \<open>Twins\<close>

text \<open>
  A task is run twice only if it can be: a twin is spawned exactly for a task with a uid and an
  idempotency key that is not finished and not itself a twin, and only when it has run longer than
  the threshold times a median that rests on enough samples. Its twin carries the same spec, so the
  same key, under one name for all passes, and is never run twice in turn.
\<close>

theorem spawn_is_safe:
  assumes "evaluateSpeculative t elapsedMs agentName isTerminal r options = Spawn a elapsed m threshold"
  shows "so_enabled options = Some True \<and> \<not> isTerminal \<and> elapsedMs = Fin elapsed \<and> threshold < elapsed \<and> 0 < m \<and>
    threshold = js_or (so_threshold options) DEFAULT_SPECULATIVE_THRESHOLD * m \<and>
    registry_median r agentName = Some m \<and> rg_minSamples r \<le> registry_count r agentName \<and>
    readIdempotencyKey t \<noteq> None \<and> map_of (or_empty (at_labels t)) SPECULATIVE_TWIN_LABEL = None \<and>
    (\<exists>twin. buildTwinManifest t apiVersion = Inr twin \<and> tw_spec twin = at_spec t \<and>
       (\<forall>t'. at_uid t' = at_uid t \<longrightarrow> (\<exists>twin'. buildTwinManifest t' apiVersion = Inr twin' \<and> tw_name twin' = tw_name twin)) \<and>
       (\<forall>uid elapsedMs' agentName' isTerminal' r' options'. \<exists>reason.
          evaluateSpeculative (created_twin uid twin t) elapsedMs' agentName' isTerminal' r' options' = Skip reason))"
proof -
  have on: "so_enabled options = Some True"
    using assms by (cases "so_enabled options") (auto simp: evaluateSpeculative_def split: if_splits)
  from assms have uid: "js_or (at_uid t) [] \<noteq> []"
    by (auto simp: evaluateSpeculative_def split: if_splits)
  then obtain u where u: "at_uid t = Some u" "u \<noteq> []" by (cases "at_uid t") auto
  have enough: "rg_minSamples r \<le> registry_count r agentName" if "registry_median r agentName = Some m"
    using that by (auto simp: registry_median_def registry_count_def split: option.splits if_splits)
  obtain twin where twin: "buildTwinManifest t apiVersion = Inr twin" "tw_spec twin = at_spec t" "tw_name twin = ''kts-'' @ take 56 u"
    "map_of (tw_labels twin) SPECULATIVE_TWIN_LABEL = Some ''true''"
    using u by (simp add: buildTwinManifest_def non_empty_def update_conv' SPECULATIVE_TWIN_LABEL_def SPECULATIVE_PRIMARY_UID_LABEL_def)
  have "\<exists>reason. evaluateSpeculative (created_twin uid twin t) e' a' f' r' o' = Skip reason" for uid e' a' f' r' o'
    using twin(4) by (auto simp: evaluateSpeculative_def created_twin_def)
  moreover have "\<exists>twin'. buildTwinManifest t' apiVersion = Inr twin' \<and> tw_name twin' = tw_name twin" if "at_uid t' = at_uid t" for t'
    using that u twin(3) by (simp add: buildTwinManifest_def non_empty_def)
  ultimately show ?thesis
    using assms on enough twin(1,2)
    by (auto simp: evaluateSpeculative_def Let_def not_le split: if_splits jsnum.splits option.splits)
qed


definition sample_task :: affinity_task where
  "sample_task = \<lparr>at_uid = Some ''u1'', at_namespace = None, at_labels = None, at_annotations = None,
     at_spec = JObj [(''idempotencyKey'', JStr ''k'')], at_inputs = None\<rparr>"

definition sample_registry :: registry where
  "sample_registry = \<lparr>rg_capacity = Fin 2, rg_minSamples = 1,
     rg_map = [(''a'', \<lparr>hg_capacity = 2, hg_buf = [Some 10, None], hg_size = 1, hg_writeIdx = 1\<rparr>)]\<rparr>"

lemma sample_spawn:
  "evaluateSpeculative sample_task (Fin 100) ''a'' False sample_registry \<lparr>so_enabled = Some True, so_threshold = None\<rparr> =
     Spawn ''a'' 100 10 30"
  by (simp add: evaluateSpeculative_def sample_task_def sample_registry_def readIdempotencyKey_def obj_get_def non_empty_def
      registry_median_def median_def samples_def map_filter_simps middle_def DEFAULT_SPECULATIVE_THRESHOLD_def)

theorem spawn_is_safe_witness:
  "\<exists>twin. buildTwinManifest sample_task ''v1'' = Inr twin \<and> tw_spec twin = at_spec sample_task \<and>
     (\<exists>reason. evaluateSpeculative (created_twin ''u2'' twin sample_task) (Fin 1000) ''a'' False sample_registry
        \<lparr>so_enabled = Some True, so_threshold = None\<rparr> = Skip reason)"
  using spawn_is_safe [OF sample_spawn, of "''v1''"] by blast

section \<open>The affinity chosen\<close>

lemma winner_first_largest:
  "cs \<noteq> [] \<Longrightarrow> \<exists>pre post. cs = pre @ winner cs # post \<and> (\<forall>c \<in> set pre. cd_bytesUsed c < cd_bytesUsed (winner cs)) \<and>
     (\<forall>c \<in> set post. cd_bytesUsed c \<le> cd_bytesUsed (winner cs))"
proof (induction cs rule: rev_nonempty_induct)
  case (single c)
  then show ?case by (intro exI [of _ "[]"]) (simp add: winner_def)
next
  case (snoc c cs)
  then obtain pre post where split: "cs = pre @ winner cs # post" "\<forall>c \<in> set pre. cd_bytesUsed c < cd_bytesUsed (winner cs)"
    "\<forall>c \<in> set post. cd_bytesUsed c \<le> cd_bytesUsed (winner cs)" by blast
  have step: "winner (cs @ [c]) = (if cd_bytesUsed c > cd_bytesUsed (winner cs) then c else winner cs)"
    using snoc.hyps by (simp add: winner_def)
  show ?case
  proof (cases "cd_bytesUsed c > cd_bytesUsed (winner cs)")
    case True
    have "set cs = set pre \<union> {winner cs} \<union> set post" using arg_cong [OF split(1), of set] by simp
    then have "cd_bytesUsed c' \<le> cd_bytesUsed (winner cs)" if "c' \<in> set cs" for c'
      using that split(2,3) by (auto simp: less_imp_le)
    then have "\<forall>c' \<in> set cs. cd_bytesUsed c' < cd_bytesUsed c" using True by (meson le_less_trans)
    then show ?thesis
      using True step by (intro exI [of _ cs] exI [of _ "[]"]) simp
  next
    case False
    then show ?thesis
      using split step by (intro exI [of _ pre] exI [of _ "post @ [c]"]) (auto simp: not_less)
  qed
qed

lemma candidate_terms:
  "candidate_of lookup ns byName decl = Some c \<Longrightarrow> \<exists>ts. cd_terms c = usable_terms ts \<and> usable_terms ts \<noteq> []"
  by (auto simp: candidate_of_def Let_def split: if_splits bind_splits)

text \<open>
  The affinity is that of the largest bound workspace, the first declared among equals, and never holds
  a term that matches nothing.
\<close>

theorem affinity_of_largest:
  assumes "deriveNodeAffinity inputs t lookup = Some terms"
  shows "\<exists>pre c post. List.map_filter (candidate_of lookup (js_or (at_namespace t) ''default'') (workspace_bindings (or_empty (at_inputs t))))
      (or_empty inputs) = pre @ c # post \<and> terms = cd_terms c \<and>
    (\<forall>c' \<in> set pre. cd_bytesUsed c' < cd_bytesUsed c) \<and> (\<forall>c' \<in> set post. cd_bytesUsed c' \<le> cd_bytesUsed c) \<and>
    terms \<noteq> [] \<and> (\<forall>n \<in> set terms. or_empty (nt_matchExpressions n) \<noteq> [] \<or> or_empty (nt_matchFields n) \<noteq> [])"
proof -
  let ?cs = "List.map_filter (candidate_of lookup (js_or (at_namespace t) ''default'') (workspace_bindings (or_empty (at_inputs t))))
      (or_empty inputs)"
  have cs: "?cs \<noteq> []" "terms = cd_terms (winner ?cs)"
    using assms by (auto simp: deriveNodeAffinity_def Let_def split: if_splits)
  obtain pre post where split: "?cs = pre @ winner ?cs # post" "\<forall>c \<in> set pre. cd_bytesUsed c < cd_bytesUsed (winner ?cs)"
    "\<forall>c \<in> set post. cd_bytesUsed c \<le> cd_bytesUsed (winner ?cs)"
    using winner_first_largest [OF cs(1)] by blast
  then have "winner ?cs \<in> set ?cs" by (metis in_set_conv_decomp)
  then obtain decl where "candidate_of lookup (js_or (at_namespace t) ''default'') (workspace_bindings (or_empty (at_inputs t))) decl = Some (winner ?cs)"
    by (auto simp: map_filter_def)
  from candidate_terms [OF this] have "\<exists>ts. cd_terms (winner ?cs) = usable_terms ts \<and> usable_terms ts \<noteq> []" .
  then have "terms \<noteq> [] \<and> (\<forall>n \<in> set terms. or_empty (nt_matchExpressions n) \<noteq> [] \<or> or_empty (nt_matchFields n) \<noteq> [])"
    unfolding cs(2) by (auto simp: usable_terms_def)
  with split cs(2) show ?thesis by blast
qed

end
