(* ===== verification/KeyRotation.thy ===== *)
theory KeyRotation
  imports TemplateCandidate
begin

text \<open>
  Rotation of credentials in \<^verbatim>\<open>packages/keyrotation-controller/src\<close>: the policy on the age of SVIDs
  (\<^verbatim>\<open>svid-policy.ts\<close>) and the rotation of the gateway's keys with its schedule
  (\<^verbatim>\<open>gateway-rotation.ts\<close>). Times are epoch milliseconds; what \<open>fetch\<close> answers is a parameter.
\<close>

section \<open>SVIDs\<close>

definition DEFAULT_SVID_ROTATION_INTERVAL_SECONDS :: int where "DEFAULT_SVID_ROTATION_INTERVAL_SECONDS = 24 * 60 * 60"
definition MIN_SVID_ROTATION_INTERVAL_SECONDS :: int where "MIN_SVID_ROTATION_INTERVAL_SECONDS = 60 * 60"
definition MAX_SVID_ROTATION_INTERVAL_SECONDS :: int where "MAX_SVID_ROTATION_INTERVAL_SECONDS = 168 * 60 * 60"

datatype svid_policy_error = BelowMinimum int | AboveMaximum int

definition resolveSvidRotationPolicy :: "jsnum option \<Rightarrow> svid_policy_error + int" where
  "resolveSvidRotationPolicy intervalHours =
     (case intervalHours of
        Some (Fin hours) \<Rightarrow>
          if hours \<le> 0 then Inr DEFAULT_SVID_ROTATION_INTERVAL_SECONDS
          else
            (let seconds = \<lfloor>hours * 60 * 60\<rfloor> in
             if seconds < MIN_SVID_ROTATION_INTERVAL_SECONDS then Inl (BelowMinimum seconds)
             else if MAX_SVID_ROTATION_INTERVAL_SECONDS < seconds then Inl (AboveMaximum seconds)
             else Inr seconds)
      | _ \<Rightarrow> Inr DEFAULT_SVID_ROTATION_INTERVAL_SECONDS)"

text \<open>The age is \<open>NaN\<close>, here \<^term>\<open>None\<close>, where a date is not valid.\<close>

datatype svid_decision = Keep "int option" int | Rotate "int option" int

definition decideSvidRotation :: "js_time \<Rightarrow> js_time \<Rightarrow> int \<Rightarrow> svid_decision" where
  "decideSvidRotation notBefore now intervalSeconds =
     (case (notBefore, now) of
        (At b, At n) \<Rightarrow>
          (let age = max 0 ((n - b) div 1000) in
           if age < intervalSeconds then Keep (Some age) intervalSeconds else Rotate (Some age) intervalSeconds)
      | _ \<Rightarrow> Rotate None intervalSeconds)"

section \<open>Keys of the gateway\<close>

text \<open>What \<open>fetch\<close> comes to: an error with its message, if it has one, or a status, \<open>ok\<close> and a body that may not be JSON.\<close>

datatype fetch_result = FetchFails "string option" | FetchAnswers nat bool "json option"

datatype rotation_outcome = Rotated "string option" | Unsupported nat | TransientError string

definition rotateGatewayOnce :: "fetch_result \<Rightarrow> rotation_outcome" where
  "rotateGatewayOnce answer =
     (case answer of
        FetchFails message \<Rightarrow> TransientError (js_or message ''unknown_fetch_error'')
      | FetchAnswers status ok body \<Rightarrow>
          if status = 404 then Unsupported 404
          else if ok then Rotated (case body of None \<Rightarrow> None | Some b \<Rightarrow> (case field b ''rotationId'' of JStr i \<Rightarrow> Some i | _ \<Rightarrow> None))
          else TransientError (''gateway_status_'' @ string_of_nat status))"

definition rotation_url :: "string \<Rightarrow> string" where
  "rotation_url gatewayUrl =
     (if gatewayUrl \<noteq> [] \<and> last gatewayUrl = CHR ''/'' then butlast gatewayUrl else gatewayUrl) @ ''/v1/admin/keys/rotate''"

text \<open>
  The schedule: one timer at most, a tick that awaits its rotation and then sets the next timer unless
  it was stopped meanwhile. \<open>sc_rotations\<close> are the requests sent, newest first, by the time at which
  they were sent.
\<close>

record schedule =
  sc_cancelled :: bool
  sc_timer :: "int option"
  sc_ticking :: bool
  sc_now :: int
  sc_rotations :: "int list"

definition scheduleGatewayRotation :: "int \<Rightarrow> bool \<Rightarrow> int \<Rightarrow> schedule" where
  "scheduleGatewayRotation intervalMs skipInitialTick now =
     (if skipInitialTick then
        \<lparr>sc_cancelled = False, sc_timer = Some (now + intervalMs), sc_ticking = False, sc_now = now, sc_rotations = []\<rparr>
      else \<lparr>sc_cancelled = False, sc_timer = None, sc_ticking = True, sc_now = now, sc_rotations = [now]\<rparr>)"

inductive schedule_step :: "int \<Rightarrow> schedule \<Rightarrow> schedule \<Rightarrow> bool" for intervalMs where
  time: "sc_now s \<le> now \<Longrightarrow> schedule_step intervalMs s (s\<lparr>sc_now := now\<rparr>)"
| fires: "sc_timer s = Some due \<Longrightarrow> due \<le> sc_now s \<Longrightarrow> \<not> sc_cancelled s \<Longrightarrow>
     schedule_step intervalMs s (s\<lparr>sc_timer := None, sc_ticking := True, sc_rotations := sc_now s # sc_rotations s\<rparr>)"
| settles: "sc_ticking s \<Longrightarrow>
     schedule_step intervalMs s (s\<lparr>sc_ticking := False, sc_timer := (if sc_cancelled s then sc_timer s else Some (sc_now s + intervalMs))\<rparr>)"
| stops: "schedule_step intervalMs s (s\<lparr>sc_cancelled := True, sc_timer := None\<rparr>)"

section \<open>What holds\<close>

text \<open>
  Every policy that is accepted lies within the bounds, and the decision keeps an SVID exactly while
  both its dates are valid and its age in whole seconds is below the interval.
\<close>

theorem svid_policy_bounded:
  assumes "resolveSvidRotationPolicy hours = Inr seconds"
  shows "MIN_SVID_ROTATION_INTERVAL_SECONDS \<le> seconds \<and> seconds \<le> MAX_SVID_ROTATION_INTERVAL_SECONDS \<and>
    ((\<exists>age. decideSvidRotation notBefore now seconds = Keep age seconds) \<longleftrightarrow>
     (\<exists>b n. notBefore = At b \<and> now = At n \<and> n - b < 1000 * seconds))"
proof -
  have bounds: "MIN_SVID_ROTATION_INTERVAL_SECONDS \<le> seconds" "seconds \<le> MAX_SVID_ROTATION_INTERVAL_SECONDS"
    using assms
    by (auto simp: resolveSvidRotationPolicy_def MIN_SVID_ROTATION_INTERVAL_SECONDS_def MAX_SVID_ROTATION_INTERVAL_SECONDS_def
        DEFAULT_SVID_ROTATION_INTERVAL_SECONDS_def Let_def split: option.splits jsnum.splits if_splits)
  then have "0 < seconds" by (simp add: MIN_SVID_ROTATION_INTERVAL_SECONDS_def)
  then show ?thesis
    using bounds by (auto simp: decideSvidRotation_def Let_def div_less_iff_less_mult mult.commute split: js_time.splits)
qed

fun spaced :: "int \<Rightarrow> int list \<Rightarrow> bool" where
  "spaced i (a # b # ts) = (b + i \<le> a \<and> spaced i (b # ts))"
| "spaced i _ = True"

definition schedule_ok :: "int \<Rightarrow> schedule \<Rightarrow> bool" where
  "schedule_ok i s \<longleftrightarrow> spaced i (sc_rotations s) \<and> (sc_ticking s \<longrightarrow> sc_timer s = None) \<and>
     (\<forall>t ts. sc_rotations s = t # ts \<longrightarrow> t \<le> sc_now s \<and> (\<forall>due. sc_timer s = Some due \<longrightarrow> t + i \<le> due)) \<and>
     (sc_cancelled s \<longrightarrow> sc_timer s = None)"

lemma schedule_step_ok: "schedule_step i s s' \<Longrightarrow> schedule_ok i s \<Longrightarrow> schedule_ok i s'"
proof (induction rule: schedule_step.induct)
  case (fires s due)
  then show ?case by (cases "sc_rotations s") (auto simp: schedule_ok_def)
qed (auto simp: schedule_ok_def)

lemma schedule_start_ok: "schedule_ok i (scheduleGatewayRotation i skip now)"
  by (simp add: scheduleGatewayRotation_def schedule_ok_def)

lemma stopped_stays: "schedule_step i s s' \<Longrightarrow> sc_cancelled s \<Longrightarrow> sc_cancelled s' \<and> sc_rotations s' = sc_rotations s"
  by (induction rule: schedule_step.induct) auto

text \<open>
  The schedule never rotates twice within an interval, never has a timer while a rotation is in
  flight, and sends nothing once it is stopped.
\<close>

theorem rotations_spaced:
  assumes "(schedule_step intervalMs)\<^sup>*\<^sup>* (scheduleGatewayRotation intervalMs skip now) s" and "(schedule_step intervalMs)\<^sup>*\<^sup>* s s'"
  shows "spaced intervalMs (sc_rotations s) \<and> (sc_cancelled s \<longrightarrow> sc_rotations s' = sc_rotations s)"
proof -
  have "schedule_ok intervalMs s"
    using assms(1) by (induction rule: rtranclp_induct) (auto intro: schedule_start_ok schedule_step_ok)
  moreover have "sc_cancelled s \<longrightarrow> sc_cancelled s' \<and> sc_rotations s' = sc_rotations s"
    using assms(2) by (induction rule: rtranclp_induct) (auto dest: stopped_stays)
  ultimately show ?thesis by (simp add: schedule_ok_def)
qed

theorem svid_policy_bounded_witness:
  "MIN_SVID_ROTATION_INTERVAL_SECONDS \<le> 7200 \<and> (\<exists>age. decideSvidRotation (At 0) (At 7199999) 7200 = Keep age 7200)"
  using svid_policy_bounded [of "Some (Fin 2)" 7200 "At 0" "At 7199999"]
  by (auto simp: resolveSvidRotationPolicy_def MIN_SVID_ROTATION_INTERVAL_SECONDS_def MAX_SVID_ROTATION_INTERVAL_SECONDS_def)

lemma sample_schedule:
  "(schedule_step 5)\<^sup>*\<^sup>* (scheduleGatewayRotation 5 False 0)
     \<lparr>sc_cancelled = False, sc_timer = None, sc_ticking = True, sc_now = 7, sc_rotations = [7, 0]\<rparr>"
proof -
  let ?s = "\<lambda>d k n r. \<lparr>sc_cancelled = False, sc_timer = d, sc_ticking = k, sc_now = n, sc_rotations = r\<rparr>"
  have "schedule_step 5 (?s None True 0 [0]) (?s (Some 5) False 0 [0])"
    using settles [of "?s None True 0 [0]" 5] by simp
  moreover have "schedule_step 5 (?s (Some 5) False 0 [0]) (?s (Some 5) False 7 [0])"
    using time [of "?s (Some 5) False 0 [0]" 7 5] by simp
  moreover have "schedule_step 5 (?s (Some 5) False 7 [0]) (?s None True 7 [7, 0])"
    using fires [of "?s (Some 5) False 7 [0]" 5 5] by simp
  ultimately show ?thesis
    unfolding scheduleGatewayRotation_def by (auto intro: rtranclp.rtrancl_into_rtrancl)
qed

theorem rotations_spaced_witness: "spaced 5 [7, 0::int]"
  using rotations_spaced [OF sample_schedule rtranclp.rtrancl_refl] by simp

end
