(* ===== verification/Spec2Isabelle.thy ===== *)
theory Spec2Isabelle
  imports CapIssuer Admission Router SupervisionRouter ReleaseGate TaskGraph Quota Versions CasGc StreamAssembler AgentLoop VerifierRuns OpenAiClient Workflow TaskGc ReviewDecide Locality KeyRotation
begin

text \<open>
  A verification library for the kagent substrate: a Kubernetes operator that turns agent tasks into
  Jobs, a gateway in front of language models, capability tokens that bound what an agent may do,
  and the loop that runs an agent inside its pod. Paths below are relative to
  \<^verbatim>\<open>packages/\<close>.

  \<^bold>\<open>How the parts interact.\<close> A task is admitted (\<open>TaskAdmission\<close>, \<open>Idempotency\<close>,
  \<open>Quota\<close>, \<open>Versions\<close>), reconciled into a suspended Job with a freshly minted
  capability token (\<open>Reconcile\<close>, \<open>Dispatch\<close>, \<open>CapIssuer\<close>), published on the bus and
  released by the admission scheduler when model and agent have room (\<open>JobAdmission\<close>,
  \<open>ReleaseGate\<close>). The pod runs the agent loop (\<open>AgentLoop\<close>) against the gateway
  (\<open>Router\<close>, \<open>Admission\<close>, \<open>Aimd\<close>, \<open>Backoff\<close>), to which its client posts conversations
  (\<open>OpenAiClient\<close>) and from which it reads streamed completions (\<open>SseStream\<close>,
  \<open>StreamAssembler\<close>). Status is written back under a phase guard
  (\<open>StatusTransitions\<close>, \<open>StatusPatch\<close>), failures are attributed and supervised
  (\<open>FailureClassifier\<close>, \<open>Strategy\<close>, \<open>SupervisionRouter\<close>), completed tasks with a contract are
  verified (\<open>Verifier\<close>, \<open>VerifierRuns\<close>), children are folded into their parent
  (\<open>TaskGraph\<close>), results that propose a template are reviewed (\<open>ReviewQueue\<close>, \<open>ReviewDecide\<close>),
  and finished tasks (\<open>TaskGc\<close>) and blobs nobody refers to (\<open>ArtifactUri\<close>, \<open>CasGc\<close>) are
  collected.

  \<^bold>\<open>Which theory models what.\<close>
  \<^item> \<open>Prelude\<close>: strings, JSON values, results, collections of simplification rules, generic lemmas.
    \<open>JsNumber\<close>: \<open>Number(s)\<close>. \<open>JsonText\<close>: \<open>JSON.stringify\<close>.
  \<^item> \<open>Glob\<close> (\<^verbatim>\<open>capability-types/src/glob-match.ts\<close>): the matcher as the loop with its two saved
    positions, the sentinel probe, the list subset; equivalence with the documented dialect and with
    inclusion of languages. \<open>Claims\<close>, \<open>ClaimsValidate\<close> (\<^verbatim>\<open>types.ts\<close>, \<^verbatim>\<open>subset.ts\<close>,
    \<^verbatim>\<open>validate.ts\<close>, \<^verbatim>\<open>jwt.ts\<close>): claims, their order, the validators of untrusted payloads.
    \<open>CapTtl\<close> (\<^verbatim>\<open>keyrotation-controller/src/cap-ttl.ts\<close>), \<open>Disposition\<close>
    (\<^verbatim>\<open>operator/src/disposition\<close>), \<open>CapIssuer\<close> (\<^verbatim>\<open>operator/src/cap-issuer.ts\<close> with the
    consumer of \<^verbatim>\<open>agent-pod/src/cap-consumer.ts\<close>): narrowing by parent, agent and overlay, both
    mints, verification; no chain of mints escalates, and what is minted is what is verified.
  \<^item> \<open>Aimd\<close>, \<open>Admission\<close>, \<open>Backoff\<close>, \<open>ModelIndex\<close>, \<open>Router\<close> (\<^verbatim>\<open>llm-gateway/src\<close>): the in-flight
    cap, the permit queue with its step relation, the failure circuit, the routing table, and the
    accounting of one request on every path.
  \<^item> \<open>SseStream\<close>, \<open>StreamAssembler\<close> (\<^verbatim>\<open>openai-compat/src\<close> and \<^verbatim>\<open>llm-gateway/src\<close>): readers of
    event streams over arbitrary cuts, assembly of completions on both sides, the in-band reply, and
    that the relay is invisible to the agent.
  \<^item> \<open>Crds\<close>, \<open>StatusTransitions\<close>, \<open>StatusPatch\<close>, \<open>TaskAdmission\<close>, \<open>Idempotency\<close>,
    \<open>Reconcile\<close>, \<open>Dispatch\<close> (\<^verbatim>\<open>operator/src/crds\<close>, \<^verbatim>\<open>status-transitions.ts\<close>,
    \<^verbatim>\<open>task-admission.ts\<close>, \<^verbatim>\<open>reconcile.ts\<close>): the life of a task up to its dispatch; every
    call to the API server or the bus may succeed, fail or land although it failed, and the theorems
    quantify over all sequences of such outcomes.
  \<^item> \<open>JobAdmission\<close>, \<open>ReleaseGate\<close> (\<^verbatim>\<open>operator/src/admission.ts\<close>, \<^verbatim>\<open>main.ts\<close>): the
    scheduler over one listing and the guard before a release; capacity, priority, maximality.
  \<^item> \<open>FailureClassifier\<close>, \<open>Strategy\<close>, \<open>SupervisionRouter\<close>, \<open>TaskGraph\<close>
    (\<^verbatim>\<open>operator/src/failure-*.ts\<close>, \<^verbatim>\<open>supervision/src\<close>, \<^verbatim>\<open>operator/src/supervision-router.ts\<close>,
    \<^verbatim>\<open>task-graph.ts\<close>): failures, restart targets, escalation, the fold of children and the cycle
    check.
  \<^item> \<open>Quota\<close>, \<open>Versions\<close> (\<^verbatim>\<open>quota-controller/src\<close>, \<^verbatim>\<open>versioning-controller/src\<close>): slot
    counters and version registries behind locales that their model interprets. \<open>ArtifactUri\<close>,
    \<open>CasGc\<close> (\<^verbatim>\<open>operator/src/crds/artifact-ref.ts\<close>, \<^verbatim>\<open>cas-gc.ts\<close>).
  \<^item> \<open>Compaction\<close>, \<open>LoopState\<close>, \<open>ChatRetry\<close>, \<open>ToolDispatch\<close>, \<open>AgentLoop\<close>
    (\<^verbatim>\<open>agent-loop/src\<close>): compaction of a conversation, one model call with its retries, one turn of
    tool calls, and the run. A run is a function of its configuration and of an environment that
    answers every call of model, tools and operator by the tick at which it happens, and says from
    which tick the abort signal is up; the theorems hold for every environment.
  \<^item> \<open>OpenAiWire\<close>, \<open>OpenAiClient\<close> (\<^verbatim>\<open>openai-compat/src\<close>): the bodies a model call
    posts, the mapping of messages, tools and responses in both directions, and the two calls with
    their errors; a conversation the loop builds is one the API accepts, and a streamed answer is the
    answer that was sent.
  \<^item> \<open>Utf8\<close>, \<open>JudgeText\<close>, \<open>Verifier\<close>, \<open>VerifierRuns\<close> (\<^verbatim>\<open>operator/src/verifier.ts\<close>): the
    encoding by which reasons are cut, the prompt and the reply of the judge, the Job of the script
    with its polling, and the events of one task as a step relation; a verdict rests on evidence and
    is written once.
  \<^item> \<open>Workflow\<close> (\<^verbatim>\<open>agent-workflow-runtime/src\<close>): a handler is a tree of durable steps, each of
    which looks its outcome up in the journal or has it settled and appended; crash and replay. All
    steps share the laws of one locale. Steps a handler awaits concurrently are not modelled.
  \<^item> \<open>TemplateCandidate\<close>, \<open>ReviewQueue\<close>, \<open>ReviewDecide\<close> (\<^verbatim>\<open>dto/src/template-candidate.ts\<close>,
    \<^verbatim>\<open>dto/src/review-queue.ts\<close>, \<^verbatim>\<open>workbench-api/src/routes/review-queue.ts\<close>): the checks on a
    proposed template, the listings of tasks to review, and acceptance, rejection and requests over a
    cluster that others write to between any two calls. \<open>TaskGc\<close> (\<^verbatim>\<open>operator/src/task-gc.ts\<close>): which
    finished tasks a sweep deletes, and that none of them waits in the queue.
  \<^item> \<open>Locality\<close> (\<^verbatim>\<open>locality-controller/src\<close>): windows of latencies, the decision to run a task twice,
    node affinity. \<open>KeyRotation\<close> (\<^verbatim>\<open>keyrotation-controller/src\<close>): the age policy of SVIDs, the
    rotation of gateway keys and its timer as a step relation.

  \<^bold>\<open>Modelling choices.\<close> Errors and exceptions are values of a sum type, early returns are
  branches. Numbers that the code only compares and adds are exact rationals or integers (rounding
  of floating point is not modelled); \<open>NaN\<close> and the infinities appear where the code tests for them.
  Strings are lists of code units. Mutable maps are association lists or maps passed along. What is
  not under \<^verbatim>\<open>src/\<close> is a parameter: signing and verifying of tokens, \<open>Date.parse\<close>,
  \<open>JSON.parse\<close> (\<open>parse\<close>, \<open>cl_parse\<close>, \<open>cl_chunk\<close>), printing of numbers (\<open>num\<close>, \<open>rc_num\<close>,
  \<open>fr_num\<close>), texts of engine errors (\<open>cl_engine\<close>), the answers of servers, the overlay
  loader; for the review queue the parsing of dates and YAML, SHA-256, base64 and the order of names
  (\<open>rd_date\<close>, \<open>rd_yaml\<close>, \<open>rd_sha256\<close>, \<open>rd_base64\<close>, \<open>rd_localeCompare\<close>).

  \<^bold>\<open>Bounds and fuel.\<close> Escalation climbs at most eight parents, as the code caps it;
  \<open>patchStatusWithRetry\<close> tries four times; the attempts of a model call are counted down from
  \<open>maxRetries\<close>; a run has \<open>maxIterations + 1\<close> turns, the answer turn included. The judge
  of the verifier is asked at most three times; its poll of a Job is a \<open>partial_function\<close> in the
  option monad, for which \<open>polling_ends\<close> proves that it returns within the deadline. The cycle
  check is total: its measure is the number of known tasks not yet visited. No other definition uses
  fuel.

  \<^bold>\<open>Not modelled.\<close> Process wiring, informers, timers and HTTP servers; rendering of Jobs and
  network policies; provider adapters; the tool and workbench HTTP services other than the review
  queue; the user interface; observability sinks; chat channels. Of modelled files, log lines, timestamps and
  captured diagnostics are left out.
\<close>

end
